(* ===== verification/Golive_Prelude.thy ===== *)
theory Golive_Prelude
  imports Main "HOL-Library.Word"
begin

text \<open>
  The prelude of the golive development: machine integer types, Go errors as values, the
  sequencing of fallible calls, readers over a byte sequence, and the generic lemmas the
  components share.

  A Go function that returns \<open>(x, err)\<close> is a HOL function into \<open>go_error + 'a\<close>: \<open>Inl e\<close> is the
  early return with \<open>err = e\<close>, \<open>Inr x\<close> the normal return.  A run-time panic is the error value
  \<open>Panic msg\<close>; no caller in the code recovers from a panic, so it is passed on by \<open>bindE\<close> as any
  other early return.  \<open>Hang\<close> is the outcome of a call that never returns: a loop of the source that
  need not end is run with fuel and yields \<open>Hang\<close> when the fuel is used up; wherever it occurs, a
  lemma shows that the fuel given suffices exactly when the loop ends.  An \<open>io.Reader\<close> is the list of the bytes it has still to deliver; a reading
  function returns the bytes it leaves.
\<close>

unbundle bit_operations_syntax

section \<open>Types\<close>

type_synonym byte = "8 word"
type_synonym u16 = "16 word"
type_synonym u32 = "32 word"
type_synonym u64 = "64 word"
type_synonym bytes = "byte list"

datatype go_error =
    EOF
  | ErrUnexpectedEOF
  | Errorf string
  | Panic string
  | Hang

type_synonym 'a res = "go_error + 'a"

text \<open>An outcome that is not an error value of the code: no error check of the source sees it.\<close>

fun is_fault :: "go_error \<Rightarrow> bool" where
  "is_fault (Panic p) = True"
| "is_fault Hang = True"
| "is_fault _ = False"

abbreviation index_panic :: go_error where
  "index_panic \<equiv> Panic ''index out of range''"

named_theorems go_simps \<open>unfolding rules of the fallible sequencing and of the readers\<close>
named_theorems shrinks \<open>a successful read leaves no more than it was given\<close>

section \<open>Sequencing of fallible calls\<close>

fun bindE :: "'a res \<Rightarrow> ('a \<Rightarrow> 'b res) \<Rightarrow> 'b res" where
  "bindE (Inl e) f = Inl e"
| "bindE (Inr x) f = f x"

declare bindE.simps [go_simps]

lemma bindE_cong [fundef_cong]:
  "m = m' \<Longrightarrow> (\<And>x. m' = Inr x \<Longrightarrow> f x = g x) \<Longrightarrow> bindE m f = bindE m' g"
  by (cases m') auto

lemma bindE_eq_Inr: "bindE m f = Inr y \<longleftrightarrow> (\<exists>x. m = Inr x \<and> f x = Inr y)"
  by (cases m) auto

lemma bindE_eq_Inl: "bindE m f = Inl e \<longleftrightarrow> m = Inl e \<or> (\<exists>x. m = Inr x \<and> f x = Inl e)"
  by (cases m) auto

lemma bindE_assoc: "bindE (bindE m f) g = bindE m (\<lambda>x. bindE (f x) g)"
  by (cases m) auto

lemma bindE_Inr_right [simp]: "bindE m Inr = m"
  by (cases m) auto

text \<open>An explicit early return: \<open>if c { return err }\<close> before the rest of the body.\<close>

definition failIf :: "bool \<Rightarrow> go_error \<Rightarrow> 'a res \<Rightarrow> 'a res" where
  "failIf c e m = (if c then Inl e else m)"

lemma failIf_simps [simp, go_simps]:
  "failIf True e m = Inl e" "failIf False e m = m"
  by (simp_all add: failIf_def)

lemma failIf_eq_Inr: "failIf c e m = Inr y \<longleftrightarrow> \<not> c \<and> m = Inr y"
  by (simp add: failIf_def)

section \<open>Slices\<close>

text \<open>\<open>buf[i:j]\<close>, on an index range inside the slice.\<close>

definition subslice :: "nat \<Rightarrow> nat \<Rightarrow> 'a list \<Rightarrow> 'a list" where
  "subslice i j xs = take (j - i) (drop i xs)"

lemma length_subslice [simp]: "length (subslice i j xs) = min (j - i) (length xs - i)"
  by (simp add: subslice_def min.commute)

lemma subslice_all [simp]: "subslice 0 (length xs) xs = xs"
  by (simp add: subslice_def)

lemma subslice_append:
  "length pre = i \<Longrightarrow> length mid = j - i \<Longrightarrow> subslice i j (pre @ mid @ post) = mid"
  by (simp add: subslice_def)

lemma subslice_append_right:
  "length xs \<le> i \<Longrightarrow> subslice i j (xs @ ys) = subslice (i - length xs) (j - length xs) ys"
  by (simp add: subslice_def)

lemma subslice_append_left:
  "j \<le> length xs \<Longrightarrow> subslice i j (xs @ ys) = subslice i j xs"
  by (cases "i \<le> length xs") (auto simp: subslice_def)

section \<open>Readers\<close>

text \<open>
  \<open>io.ReadFull(r, buf)\<close> with \<open>len(buf) = n\<close>: the \<open>n\<close> bytes read and the bytes left;
  \<open>EOF\<close> when nothing could be read, \<open>ErrUnexpectedEOF\<close> on a short read.
  \<open>Read n\<close> is one call of \<open>(bytes.Reader).Read\<close> with a buffer of \<open>n\<close> bytes: up to \<open>n\<close>
  bytes, \<open>EOF\<close> at the end of the data.  \<open>ReadInto n\<close> is the same call seen through the
  zero-initialised buffer \<open>make([]byte, n)\<close> when the returned count is dropped.
\<close>

definition ReadFull :: "nat \<Rightarrow> bytes \<Rightarrow> (bytes \<times> bytes) res" where
  "ReadFull n r =
     (if n \<le> length r then Inr (take n r, drop n r)
      else if r = [] then Inl EOF else Inl ErrUnexpectedEOF)"

definition Read :: "nat \<Rightarrow> bytes \<Rightarrow> (bytes \<times> bytes) res" where
  "Read n r = (if r = [] then Inl EOF else Inr (take n r, drop n r))"

definition ReadInto :: "nat \<Rightarrow> bytes \<Rightarrow> (bytes \<times> bytes) res" where
  "ReadInto n r =
     bindE (Read n r) (\<lambda>(b, r'). Inr (b @ replicate (n - length b) 0, r'))"

definition ReadByte :: "bytes \<Rightarrow> (byte \<times> bytes) res" where
  "ReadByte r = (case r of [] \<Rightarrow> Inl EOF | b # r' \<Rightarrow> Inr (b, r'))"

lemma ReadByte_simps [simp, go_simps]:
  "ReadByte [] = Inl EOF" "ReadByte (b # r) = Inr (b, r)"
  by (simp_all add: ReadByte_def)

lemma ReadFull_append [go_simps]:
  "length xs = n \<Longrightarrow> ReadFull n (xs @ r) = Inr (xs, r)"
  by (simp add: ReadFull_def)

lemma ReadFull_0 [simp]: "ReadFull 0 r = Inr ([], r)"
  by (simp add: ReadFull_def)

lemma ReadFull_Inr:
  "ReadFull n r = Inr (b, r') \<longleftrightarrow> r = b @ r' \<and> length b = n"
  by (auto simp: ReadFull_def)

lemma ReadFull_Inl: "ReadFull n r = Inl e \<longleftrightarrow>
    length r < n \<and> e = (if r = [] then EOF else ErrUnexpectedEOF)"
  by (auto simp: ReadFull_def not_le)

lemma Read_append [go_simps]:
  "length xs = n \<Longrightarrow> 0 < n \<Longrightarrow> Read n (xs @ r) = Inr (xs, r)"
  by (auto simp: Read_def)

lemma ReadInto_append [go_simps]:
  "length xs = n \<Longrightarrow> 0 < n \<Longrightarrow> ReadInto n (xs @ r) = Inr (xs, r)"
  by (simp add: ReadInto_def Read_append)

lemma ReadFull_shrinks [shrinks]: "ReadFull n r = Inr (b, r') \<Longrightarrow> length r = n + length r'"
  by (auto simp: ReadFull_Inr)

lemma Read_shrinks [shrinks]: "Read n r = Inr (b, r') \<Longrightarrow> length r' \<le> length r"
  by (auto simp: Read_def split: if_splits)

lemma ReadInto_shrinks [shrinks]: "ReadInto n r = Inr (b, r') \<Longrightarrow> length r' \<le> length r"
  by (auto simp: ReadInto_def Read_def bindE_eq_Inr split: if_splits)

lemma ReadInto_length: "ReadInto n r = Inr (b, r') \<Longrightarrow> length b = n"
  by (auto simp: ReadInto_def Read_def bindE_eq_Inr split: if_splits)

lemma ReadByte_Inr: "ReadByte r = Inr (b, r') \<longleftrightarrow> r = b # r'"
  by (cases r) auto

lemma ReadByte_shrinks [shrinks]: "ReadByte r = Inr (b, r') \<Longrightarrow> length r = Suc (length r')"
  by (simp add: ReadByte_Inr)

section \<open>Strings\<close>

text \<open>A Go string is a byte sequence; it is a \<open>string\<close> here, each character one byte.\<close>

definition bytes_of_string :: "string \<Rightarrow> bytes" where
  "bytes_of_string s = map (\<lambda>c. word_of_nat (of_char c)) s"

definition string_of_bytes :: "bytes \<Rightarrow> string" where
  "string_of_bytes b = map (\<lambda>w. char_of (unat w)) b"

lemma length_bytes_of_string [simp]: "length (bytes_of_string s) = length s"
  by (simp add: bytes_of_string_def)

lemma length_string_of_bytes [simp]: "length (string_of_bytes b) = length b"
  by (simp add: string_of_bytes_def)

lemma unat_of_char [simp]: "unat (word_of_nat (of_char c) :: byte) = of_char c"
  by (simp add: unat_of_nat)

lemma string_of_bytes_of_string [simp]: "string_of_bytes (bytes_of_string s) = s"
  by (simp add: string_of_bytes_def bytes_of_string_def comp_def)

lemma bytes_of_string_of_bytes [simp]: "bytes_of_string (string_of_bytes b) = b"
  by (simp add: string_of_bytes_def bytes_of_string_def comp_def of_char_of take_bit_nat_eq_self
      unsigned_less [where 'b = 8, simplified] map_idI)

lemma bytes_of_string_eq_iff [simp]: "bytes_of_string s = bytes_of_string t \<longleftrightarrow> s = t"
  by (metis string_of_bytes_of_string)

lemma bytes_of_string_Nil_iff [simp]: "bytes_of_string s = [] \<longleftrightarrow> s = []"
  by (simp add: bytes_of_string_def)

section \<open>Words\<close>

lemma take_bit_id:
  fixes v :: "'a::len word"
  assumes "v < 2 ^ n" "n < LENGTH('a)"
  shows "take_bit n v = v"
proof -
  have "unat (of_nat (2 ^ n) :: 'a word) = 2 ^ n"
    using assms(2) by (simp only: unsigned_of_nat) (simp add: take_bit_nat_eq_self)
  then have "unat (2 ^ n :: 'a word) = 2 ^ n" by simp
  then have "unat v < 2 ^ n" using assms(1) by (simp add: word_less_nat_alt)
  then have "unat (take_bit n v) = unat v" by (simp add: unsigned_take_bit_eq take_bit_nat_eq_self)
  then show ?thesis by (rule unsigned_word_eqI)
qed

lemma byte_bit_high [simp]: "8 \<le> n \<Longrightarrow> \<not> bit (w :: byte) n"
  using bit_imp_le_length [of w n] by auto

lemma unat_less_256: "unat (b :: byte) < 256"
  using unsigned_less [of b] by simp

lemma take_bit_unat:
  "LENGTH('a) \<le> n \<Longrightarrow> take_bit n (unat (v :: 'a::len word)) = unat v"
proof -
  assume le: "LENGTH('a) \<le> n"
  have "unat v < 2 ^ LENGTH('a)" by (rule unsigned_less)
  also have "\<dots> \<le> 2 ^ n" using le by simp
  finally show ?thesis by (simp add: take_bit_nat_eq_self)
qed

lemmas take_bit_unats [simp] =
  take_bit_unat [where 'a = 8, simplified] take_bit_unat [where 'a = 16, simplified]
  take_bit_unat [where 'a = 32, simplified] take_bit_unat [where 'a = 64, simplified]

lemma unat_ucast_bits [simp]: "unat (ucast v :: 'b::len word) = take_bit LENGTH('b) (unat (v :: 'a::len word))"
  by (rule unsigned_ucast_eq)

section \<open>Calls that return\<close>

text \<open>A call that comes back, with a value or with an error the caller can check.\<close>

definition returns :: "'a res \<Rightarrow> bool" where
  "returns m \<longleftrightarrow> (\<forall>e. m = Inl e \<longrightarrow> \<not> is_fault e)"

named_theorems returning \<open>introduction rules for \<open>returns\<close>\<close>

lemma returns_Inr [simp, returning]: "returns (Inr x)" by (simp add: returns_def)

lemma returns_Inl [simp]: "returns (Inl e) \<longleftrightarrow> \<not> is_fault e" by (simp add: returns_def)

lemma returns_bindE [returning]:
  "returns m \<Longrightarrow> (\<And>x. m = Inr x \<Longrightarrow> returns (f x)) \<Longrightarrow> returns (bindE m f)"
  by (cases m) (auto simp: returns_def)

lemma returns_failIf [returning]: "\<not> is_fault e \<Longrightarrow> (\<not> c \<Longrightarrow> returns m) \<Longrightarrow> returns (failIf c e m)"
  by (simp add: failIf_def)

lemma returns_if [returning]:
  "(c \<Longrightarrow> returns a) \<Longrightarrow> (\<not> c \<Longrightarrow> returns b) \<Longrightarrow> returns (if c then a else b)"
  by simp

lemma returns_prod [returning]:
  "(\<And>a b. p = (a, b) \<Longrightarrow> returns (f a b)) \<Longrightarrow> returns (case p of (a, b) \<Rightarrow> f a b)"
  by (cases p) simp

lemma returns_readers [returning]:
  "returns (ReadFull n r)" "returns (Read n r)" "returns (ReadInto n r)" "returns (ReadByte r)"
proof -
  show "returns (ReadFull n r)" "returns (Read n r)" "returns (ReadByte r)"
    by (auto simp: ReadFull_def Read_def ReadByte_def split: list.split)
  then show "returns (ReadInto n r)" unfolding ReadInto_def by (auto intro!: returning)
qed

end
