(* ===== verification/ByteIO.thy ===== *)
theory ByteIO
  imports Golive_Prelude
begin

text \<open>
  Package \<open>utils/byteio\<close>: fixed-width integers in big- and little-endian byte order.
  The \<open>U\<close>/\<open>I\<close> functions index a slice (a short slice is a panic), the \<open>Put\<close> functions overwrite
  the front of a slice, the \<open>Read\<close> functions take the bytes from a reader and the \<open>Write\<close>
  functions hand the bytes to a writer.  A writer is a \<open>bytes.Buffer\<close>, which never fails, so a
  \<open>Write\<close> function is modelled by the bytes it appends.

  The locale \<open>codec\<close> states what the rest of the program relies on: a decoder of a fixed width
  inverts its encoder, reads nothing beyond its width and panics on a shorter slice.  It is
  interpreted once for every width.
\<close>

section \<open>Decoders of reader.go\<close>

definition U8 :: "bytes \<Rightarrow> byte res" where
  "U8 b = failIf (length b < 1) index_panic (Inr (b ! 0))"

definition U16BE :: "bytes \<Rightarrow> u16 res" where
  "U16BE b = failIf (length b < 2) index_panic
     (let i = ucast (b ! 0); i = push_bit 8 i; i = i OR ucast (b ! 1) in Inr i)"

definition I16BE :: "bytes \<Rightarrow> u16 res" where
  "I16BE b = failIf (length b < 2) index_panic
     (let i = ucast (b ! 0); i = push_bit 8 i; i = i OR ucast (b ! 1) in Inr i)"

definition I24BE :: "bytes \<Rightarrow> u32 res" where
  "I24BE b = failIf (length b < 3) index_panic
     (let i = scast (b ! 0); i = push_bit 8 i; i = i OR ucast (b ! 1);
          i = push_bit 8 i; i = i OR ucast (b ! 2) in Inr i)"

definition U24BE :: "bytes \<Rightarrow> u32 res" where
  "U24BE b = failIf (length b < 3) index_panic
     (let i = ucast (b ! 0); i = push_bit 8 i; i = i OR ucast (b ! 1);
          i = push_bit 8 i; i = i OR ucast (b ! 2) in Inr i)"

definition I32BE :: "bytes \<Rightarrow> u32 res" where
  "I32BE b = failIf (length b < 4) index_panic
     (let i = scast (b ! 0); i = push_bit 8 i; i = i OR ucast (b ! 1);
          i = push_bit 8 i; i = i OR ucast (b ! 2);
          i = push_bit 8 i; i = i OR ucast (b ! 3) in Inr i)"

definition U32LE :: "bytes \<Rightarrow> u32 res" where
  "U32LE b = failIf (length b < 4) index_panic
     (let i = ucast (b ! 3); i = push_bit 8 i; i = i OR ucast (b ! 2);
          i = push_bit 8 i; i = i OR ucast (b ! 1);
          i = push_bit 8 i; i = i OR ucast (b ! 0) in Inr i)"

definition U32BE :: "bytes \<Rightarrow> u32 res" where
  "U32BE b = failIf (length b < 4) index_panic
     (let i = ucast (b ! 0); i = push_bit 8 i; i = i OR ucast (b ! 1);
          i = push_bit 8 i; i = i OR ucast (b ! 2);
          i = push_bit 8 i; i = i OR ucast (b ! 3) in Inr i)"

definition U40BE :: "bytes \<Rightarrow> u64 res" where
  "U40BE b = failIf (length b < 5) index_panic
     (let i = ucast (b ! 0); i = push_bit 8 i; i = i OR ucast (b ! 1);
          i = push_bit 8 i; i = i OR ucast (b ! 2);
          i = push_bit 8 i; i = i OR ucast (b ! 3);
          i = push_bit 8 i; i = i OR ucast (b ! 4) in Inr i)"

definition U48BE :: "bytes \<Rightarrow> u64 res" where
  "U48BE b = failIf (length b < 6) index_panic
     (let i = ucast (b ! 0); i = push_bit 8 i; i = i OR ucast (b ! 1);
          i = push_bit 8 i; i = i OR ucast (b ! 2);
          i = push_bit 8 i; i = i OR ucast (b ! 3);
          i = push_bit 8 i; i = i OR ucast (b ! 4);
          i = push_bit 8 i; i = i OR ucast (b ! 5) in Inr i)"

definition U64BE :: "bytes \<Rightarrow> u64 res" where
  "U64BE b = failIf (length b < 8) index_panic
     (let i = ucast (b ! 0); i = push_bit 8 i; i = i OR ucast (b ! 1);
          i = push_bit 8 i; i = i OR ucast (b ! 2);
          i = push_bit 8 i; i = i OR ucast (b ! 3);
          i = push_bit 8 i; i = i OR ucast (b ! 4);
          i = push_bit 8 i; i = i OR ucast (b ! 5);
          i = push_bit 8 i; i = i OR ucast (b ! 6);
          i = push_bit 8 i; i = i OR ucast (b ! 7) in Inr i)"

definition I64BE :: "bytes \<Rightarrow> u64 res" where
  "I64BE b = failIf (length b < 8) index_panic
     (let i = scast (b ! 0); i = push_bit 8 i; i = i OR ucast (b ! 1);
          i = push_bit 8 i; i = i OR ucast (b ! 2);
          i = push_bit 8 i; i = i OR ucast (b ! 3);
          i = push_bit 8 i; i = i OR ucast (b ! 4);
          i = push_bit 8 i; i = i OR ucast (b ! 5);
          i = push_bit 8 i; i = i OR ucast (b ! 6);
          i = push_bit 8 i; i = i OR ucast (b ! 7) in Inr i)"

text \<open>
  \<open>UVarBE\<close>: the loop assigns \<open>i = uint64(b[j])\<close> in every round (it does not accumulate), so
  the value entering the last statement is that of the last byte but one, shifted.
  The first argument is the list still to be visited, the second the value of \<open>i\<close>.
\<close>

fun UVarBE_loop :: "bytes \<Rightarrow> u64 \<Rightarrow> u64 res" where
  "UVarBE_loop [] i = Inl index_panic"
| "UVarBE_loop [b] i = Inr (i OR ucast b)"
| "UVarBE_loop (b # c # bs) i = UVarBE_loop (c # bs) (push_bit 8 (ucast b))"

definition UVarBE :: "bytes \<Rightarrow> u64 res" where
  "UVarBE b = UVarBE_loop b 0"

section \<open>Encoders of writer.go\<close>

text \<open>
  A \<open>Put\<close> function stores the bytes \<open>byte(v >> k)\<close> at the front of the slice; \<open>overwrite\<close> is that
  store, with the panic of an index out of range.
\<close>

definition overwrite :: "bytes \<Rightarrow> bytes \<Rightarrow> bytes res" where
  "overwrite b new = failIf (length b < length new) index_panic (Inr (new @ drop (length new) b))"

definition u8_bytes :: "u32 \<Rightarrow> bytes" where
  "u8_bytes v = [ucast v]"

definition u16be :: "u16 \<Rightarrow> bytes" where
  "u16be v = [ucast (drop_bit 8 v), ucast v]"

definition u16le :: "u32 \<Rightarrow> bytes" where
  "u16le v = [ucast v, ucast (drop_bit 8 v)]"

definition u24be :: "u32 \<Rightarrow> bytes" where
  "u24be v = [ucast (drop_bit 16 v), ucast (drop_bit 8 v), ucast v]"

definition u24le :: "u32 \<Rightarrow> bytes" where
  "u24le v = [ucast v, ucast (drop_bit 8 v), ucast (drop_bit 16 v)]"

definition u32be :: "u32 \<Rightarrow> bytes" where
  "u32be v = [ucast (drop_bit 24 v), ucast (drop_bit 16 v), ucast (drop_bit 8 v), ucast v]"

definition u32le :: "u32 \<Rightarrow> bytes" where
  "u32le v = [ucast v, ucast (drop_bit 8 v), ucast (drop_bit 16 v), ucast (drop_bit 24 v)]"

definition u40be :: "u64 \<Rightarrow> bytes" where
  "u40be v = [ucast (drop_bit 32 v), ucast (drop_bit 24 v), ucast (drop_bit 16 v),
              ucast (drop_bit 8 v), ucast v]"

definition u48be :: "u64 \<Rightarrow> bytes" where
  "u48be v = [ucast (drop_bit 40 v), ucast (drop_bit 32 v), ucast (drop_bit 24 v),
              ucast (drop_bit 16 v), ucast (drop_bit 8 v), ucast v]"

definition u56be :: "u64 \<Rightarrow> bytes" where
  "u56be v = [ucast (drop_bit 48 v), ucast (drop_bit 40 v), ucast (drop_bit 32 v),
              ucast (drop_bit 24 v), ucast (drop_bit 16 v), ucast (drop_bit 8 v), ucast v]"

definition u64be :: "u64 \<Rightarrow> bytes" where
  "u64be v = [ucast (drop_bit 56 v), ucast (drop_bit 48 v), ucast (drop_bit 40 v),
              ucast (drop_bit 32 v), ucast (drop_bit 24 v), ucast (drop_bit 16 v),
              ucast (drop_bit 8 v), ucast v]"

definition u64le :: "u64 \<Rightarrow> bytes" where
  "u64le v = [ucast v, ucast (drop_bit 8 v), ucast (drop_bit 16 v), ucast (drop_bit 24 v),
              ucast (drop_bit 32 v), ucast (drop_bit 40 v), ucast (drop_bit 48 v),
              ucast (drop_bit 56 v)]"

definition PutU8 :: "bytes \<Rightarrow> u32 \<Rightarrow> bytes res" where "PutU8 b v = overwrite b (u8_bytes v)"
definition PutU16BE :: "bytes \<Rightarrow> u16 \<Rightarrow> bytes res" where "PutU16BE b v = overwrite b (u16be v)"
definition PutU16LE :: "bytes \<Rightarrow> u32 \<Rightarrow> bytes res" where "PutU16LE b v = overwrite b (u16le v)"
definition PutU24BE :: "bytes \<Rightarrow> u32 \<Rightarrow> bytes res" where "PutU24BE b v = overwrite b (u24be v)"
definition PutU24LE :: "bytes \<Rightarrow> u32 \<Rightarrow> bytes res" where "PutU24LE b v = overwrite b (u24le v)"
definition PutU32BE :: "bytes \<Rightarrow> u32 \<Rightarrow> bytes res" where "PutU32BE b v = overwrite b (u32be v)"
definition PutU40BE :: "bytes \<Rightarrow> u64 \<Rightarrow> bytes res" where "PutU40BE b v = overwrite b (u40be v)"
definition PutU48BE :: "bytes \<Rightarrow> u64 \<Rightarrow> bytes res" where "PutU48BE b v = overwrite b (u48be v)"
definition PutU56BE :: "bytes \<Rightarrow> u64 \<Rightarrow> bytes res" where "PutU56BE b v = overwrite b (u56be v)"
definition PutU32LE :: "bytes \<Rightarrow> u32 \<Rightarrow> bytes res" where "PutU32LE b v = overwrite b (u32le v)"
definition PutU64BE :: "bytes \<Rightarrow> u64 \<Rightarrow> bytes res" where "PutU64BE b v = overwrite b (u64be v)"
definition PutU64LE :: "bytes \<Rightarrow> u64 \<Rightarrow> bytes res" where "PutU64LE b v = overwrite b (u64le v)"

text \<open>\<open>WriteX\<close>: a fresh buffer of the width, \<open>PutX\<close>, one \<open>Write\<close>; here the bytes written.\<close>

definition WriteU8 :: "u32 \<Rightarrow> bytes res" where "WriteU8 v = PutU8 (replicate 1 0) v"
definition WriteU16BE :: "u16 \<Rightarrow> bytes res" where "WriteU16BE v = PutU16BE (replicate 2 0) v"
definition WriteU16LE :: "u32 \<Rightarrow> bytes res" where "WriteU16LE v = PutU16LE (replicate 2 0) v"
definition WriteU24BE :: "u32 \<Rightarrow> bytes res" where "WriteU24BE v = PutU24BE (replicate 3 0) v"
definition WriteU24LE :: "u32 \<Rightarrow> bytes res" where "WriteU24LE v = PutU24LE (replicate 3 0) v"
definition WriteU32BE :: "u32 \<Rightarrow> bytes res" where "WriteU32BE v = PutU32BE (replicate 4 0) v"
definition WriteU32LE :: "u32 \<Rightarrow> bytes res" where "WriteU32LE v = PutU32LE (replicate 4 0) v"
definition WriteI32BE :: "u32 \<Rightarrow> bytes res" where "WriteI32BE v = PutU32BE [0, 0, 0, 0] v"
definition WriteU64BE :: "u64 \<Rightarrow> bytes res" where "WriteU64BE v = PutU64BE (replicate 8 0) v"
definition WriteU64LE :: "u64 \<Rightarrow> bytes res" where "WriteU64LE v = PutU64LE (replicate 8 0) v"

section \<open>Readers of reader.go\<close>

text \<open>
  \<open>ReadUint32BE\<close> and \<open>ReadUint32LE\<close> go through \<open>binary.Read\<close>, that is \<open>io.ReadFull\<close>; the others
  make one \<open>Read\<close> call and check the count it returns.
\<close>

definition ReadUint32BE :: "bytes \<Rightarrow> (u32 \<times> bytes) res" where
  "ReadUint32BE r = bindE (ReadFull 4 r) (\<lambda>(b, r). bindE (U32BE b) (\<lambda>v. Inr (v, r)))"

definition ReadUint32LE :: "bytes \<Rightarrow> (u32 \<times> bytes) res" where
  "ReadUint32LE r = bindE (ReadFull 4 r) (\<lambda>(b, r). bindE (U32LE b) (\<lambda>v. Inr (v, r)))"

abbreviation not_enough :: go_error where "not_enough \<equiv> Errorf ''not enough data''"

definition ReadUint24BE :: "bytes \<Rightarrow> (u32 \<times> bytes) res" where
  "ReadUint24BE r = bindE (Read 3 r) (\<lambda>(b, r). failIf (length b \<noteq> 3) not_enough
     (Inr (ucast (b ! 0) * 65536 + ucast (b ! 1) * 256 + ucast (b ! 2), r)))"

definition ReadUint24LE :: "bytes \<Rightarrow> (u32 \<times> bytes) res" where
  "ReadUint24LE r = bindE (Read 3 r) (\<lambda>(b, r). failIf (length b \<noteq> 3) not_enough
     (Inr (ucast (b ! 2) * 65536 + ucast (b ! 1) * 256 + ucast (b ! 0), r)))"

definition ReadUint16BE :: "bytes \<Rightarrow> (u32 \<times> bytes) res" where
  "ReadUint16BE r = bindE (Read 2 r) (\<lambda>(b, r). failIf (length b \<noteq> 2) not_enough
     (Inr (ucast (b ! 0) * 256 + ucast (b ! 1), r)))"

definition ReadUint16LE :: "bytes \<Rightarrow> (u32 \<times> bytes) res" where
  "ReadUint16LE r = bindE (Read 2 r) (\<lambda>(b, r). failIf (length b \<noteq> 2) not_enough
     (Inr (ucast (b ! 1) * 256 + ucast (b ! 0), r)))"

definition ReadUint8 :: "bytes \<Rightarrow> (u32 \<times> bytes) res" where
  "ReadUint8 r = bindE (Read 1 r) (\<lambda>(b, r). failIf (length b \<noteq> 1) not_enough
     (Inr (ucast (b ! 0), r)))"

text \<open>
  Floating-point values are the bit patterns of IEEE 754 (\<open>math.Float64bits\<close>).
  \<open>binary.Read\<close> into a float is \<open>io.ReadFull\<close> and the integer decoder of the byte order;
  \<open>readFloat\<close> replaces its error.
\<close>

definition read_float_error :: go_error where
  "read_float_error = Errorf ''binary.Read failed:%s''"

definition readFloat :: "nat \<Rightarrow> (bytes \<Rightarrow> 'a res) \<Rightarrow> bytes \<Rightarrow> ('a \<times> bytes) res" where
  "readFloat n order r =
     (case bindE (ReadFull n r) (\<lambda>(b, r). bindE (order b) (\<lambda>v. Inr (v, r))) of
        Inl err \<Rightarrow> Inl read_float_error
      | Inr x \<Rightarrow> Inr x)"

definition le_U64 :: "bytes \<Rightarrow> u64 res" where
  "le_U64 b = U64BE (rev (take 8 b))"

definition ReadFloat32BE :: "bytes \<Rightarrow> (u32 \<times> bytes) res" where
  "ReadFloat32BE = readFloat 4 U32BE"

definition ReadFloat32LE :: "bytes \<Rightarrow> (u32 \<times> bytes) res" where
  "ReadFloat32LE = readFloat 4 U32LE"

definition ReadFloat64BE :: "bytes \<Rightarrow> (u64 \<times> bytes) res" where
  "ReadFloat64BE = readFloat 8 U64BE"

definition ReadFloat64LE :: "bytes \<Rightarrow> (u64 \<times> bytes) res" where
  "ReadFloat64LE = readFloat 8 le_U64"

definition WriteFloat32BE :: "u32 \<Rightarrow> bytes" where "WriteFloat32BE f = u32be f"
definition WriteFloat32LE :: "u32 \<Rightarrow> bytes" where "WriteFloat32LE f = u32le f"
definition WriteFloat64BE :: "u64 \<Rightarrow> bytes" where "WriteFloat64BE f = u64be f"
definition WriteFloat64LE :: "u64 \<Rightarrow> bytes" where "WriteFloat64LE f = u64le f"

section \<open>The interface of a fixed-width code\<close>

locale codec =
  fixes enc :: "'a \<Rightarrow> bytes"
    and dec :: "bytes \<Rightarrow> 'a res"
    and width :: nat
    and ok :: "'a \<Rightarrow> bool"
  assumes length_enc: "length (enc v) = width"
    and dec_enc: "ok v \<Longrightarrow> dec (enc v @ rest) = Inr v"
    and dec_short: "length b < width \<Longrightarrow> dec b = Inl index_panic"
    and dec_total: "width \<le> length b \<Longrightarrow> \<exists>v. ok v \<and> dec b = Inr v \<and> take width b = enc v"
begin

lemma dec_iff: "dec b = Inr v \<longleftrightarrow> width \<le> length b \<and> ok v \<and> take width b = enc v"
proof
  assume v: "dec b = Inr v"
  then have "width \<le> length b" using dec_short [of b] by fastforce
  with v dec_total [of b] show "width \<le> length b \<and> ok v \<and> take width b = enc v" by auto
next
  assume "width \<le> length b \<and> ok v \<and> take width b = enc v"
  then show "dec b = Inr v" by (metis append_take_drop_id dec_enc)
qed

lemma enc_inject: "ok v \<Longrightarrow> ok w \<Longrightarrow> enc v = enc w \<Longrightarrow> v = w"
  by (metis append_Nil2 dec_enc sum.inject(2))

lemma dec_subslice:
  "ok v \<Longrightarrow> length pre = i \<Longrightarrow> j = i + width \<Longrightarrow> dec (subslice i j (pre @ enc v @ post)) = Inr v"
  using dec_enc [of v "[]"] by (simp add: subslice_append length_enc)

lemma dec_front: "width \<le> n \<Longrightarrow> dec (take n b) = dec b"
proof (cases "width \<le> length b")
  case True
  then obtain v where v: "ok v" "dec b = Inr v" "take width b = enc v" using dec_total by blast
  moreover assume "width \<le> n"
  ultimately have "dec (take n b) = Inr v" using True by (simp add: dec_iff min_absorb1)
  with v show ?thesis by simp
next
  case False
  then show ?thesis by (simp add: dec_short)
qed

lemma read_enc:
  "ok v \<Longrightarrow> bindE (ReadFull width (enc v @ r)) (\<lambda>(b, r). bindE (dec b) (\<lambda>x. Inr (x, r))) = Inr (v, r)"
  using dec_enc [of v "[]"] by (simp add: ReadFull_append length_enc)

lemma read_Inr:
  "bindE (ReadFull width r) (\<lambda>(b, r). bindE (dec b) (\<lambda>x. Inr (x, r))) = Inr (v, r') \<longleftrightarrow>
   ok v \<and> r = enc v @ r'"
proof
  assume "bindE (ReadFull width r) (\<lambda>(b, r). bindE (dec b) (\<lambda>x. Inr (x, r))) = Inr (v, r')"
  then show "ok v \<and> r = enc v @ r'" by (auto simp: bindE_eq_Inr ReadFull_Inr dec_iff)
next
  assume "ok v \<and> r = enc v @ r'"
  then show "bindE (ReadFull width r) (\<lambda>(b, r). bindE (dec b) (\<lambda>x. Inr (x, r))) = Inr (v, r')"
    using read_enc by simp
qed

end

section \<open>Interpretations\<close>

lemmas be_defs = u16be_def u24be_def u32be_def u40be_def u48be_def u64be_def u32le_def u24le_def
lemmas dec_defs = U8_def U16BE_def I16BE_def U24BE_def U32BE_def U40BE_def U48BE_def U64BE_def
  U32LE_def I32BE_def I64BE_def failIf_def Let_def

lemma take_Suc_nth: "Suc n \<le> length b \<Longrightarrow> take (Suc n) b = take n b @ [b ! n]"
  by (simp add: take_Suc_conv_app_nth)

lemma take_nths:
  "2 \<le> length b \<Longrightarrow> take 2 b = [b ! 0, b ! 1]"
  "3 \<le> length b \<Longrightarrow> take 3 b = [b ! 0, b ! 1, b ! 2]"
  "4 \<le> length b \<Longrightarrow> take 4 b = [b ! 0, b ! 1, b ! 2, b ! 3]"
  "5 \<le> length b \<Longrightarrow> take 5 b = [b ! 0, b ! 1, b ! 2, b ! 3, b ! 4]"
  "6 \<le> length b \<Longrightarrow> take 6 b = [b ! 0, b ! 1, b ! 2, b ! 3, b ! 4, b ! 5]"
  "8 \<le> length b \<Longrightarrow> take 8 b = [b ! 0, b ! 1, b ! 2, b ! 3, b ! 4, b ! 5, b ! 6, b ! 7]"
  by (simp_all add: eval_nat_numeral take_Suc_nth)

lemmas word_ext = bit_word_eqI

text \<open>Joining the bytes an encoder cut off, and cutting the bytes a decoder joined.\<close>

lemma join_byte:
  "push_bit k (take_bit 8 (drop_bit k v)) OR take_bit k v = take_bit (k + 8) (v :: 'a::len word)"
  by (rule bit_word_eqI) (auto simp: bit_simps)

lemma first_byte: "ucast (ucast v :: byte) = take_bit 8 (v :: 'a::len word)"
  by (rule bit_word_eqI) (auto simp: bit_simps)

lemmas join_bytes = first_byte or.assoc take_bit_word_eq_self
  join_byte [of 8, simplified] join_byte [of 16, simplified] join_byte [of 24, simplified]
  join_byte [of 32, simplified] join_byte [of 40, simplified] join_byte [of 48, simplified]
  join_byte [of 56, simplified]

lemma cut_push:
  "k \<le> m \<Longrightarrow> drop_bit k (push_bit m (ucast (b :: byte))) =
     (take_bit (LENGTH('a) - k) (push_bit (m - k) (ucast b)) :: 'a::len word)"
  by (rule bit_word_eqI) (auto simp: bit_simps add.commute)

lemma cut_push_low:
  "m + 8 \<le> k \<Longrightarrow> drop_bit k (push_bit m (ucast (b :: byte))) = (0 :: 'a::len word)"
  by (rule bit_word_eqI) (auto simp: bit_simps)

lemma cut_low: "8 \<le> k \<Longrightarrow> drop_bit k (ucast (b :: byte)) = (0 :: 'a::len word)"
  by (rule bit_word_eqI) (auto simp: bit_simps)

lemma ucast_or: "ucast (v OR w) = (ucast v OR ucast w :: 'b::len word)"
  for v w :: "'a::len word"
  by (rule bit_word_eqI) (auto simp: bit_simps)

lemma ucast_push_high: "8 \<le> k \<Longrightarrow> ucast (push_bit k v) = (0 :: byte)" for v :: "'a::len word"
  by (rule bit_word_eqI) (auto simp: bit_simps)

lemma ucast_take: "8 \<le> k \<Longrightarrow> ucast (take_bit k v) = (ucast v :: byte)" for v :: "'a::len word"
  by (rule bit_word_eqI) (auto simp: bit_simps)

lemma take_push_byte:
  "k + 8 \<le> m \<Longrightarrow> take_bit m (push_bit k (ucast (b :: byte))) = (push_bit k (ucast b) :: 'a::len word)"
  by (rule bit_word_eqI) (auto simp: bit_simps dest: bit_imp_le_length)

lemma take_byte: "8 \<le> m \<Longrightarrow> take_bit m (ucast (b :: byte)) = (ucast b :: 'a::len word)"
  by (rule bit_word_eqI) (auto simp: bit_simps dest: bit_imp_le_length)

lemma ucast_ucast_byte: "8 \<le> LENGTH('a) \<Longrightarrow> ucast (ucast b :: 'a::len word) = (b :: byte)"
  by (rule bit_word_eqI) (auto simp: bit_simps)

lemmas cut_bytes = cut_push cut_push_low cut_low ucast_or ucast_push_high ucast_take
  take_push_byte take_byte ucast_ucast_byte

interpretation c16: codec u16be U16BE 2 "\<lambda>_. True"
proof
  fix b :: bytes assume "2 \<le> length b"
  then show "\<exists>v. True \<and> U16BE b = Inr v \<and> take 2 b = u16be v"
    by (simp add: dec_defs be_defs take_nths cut_bytes)
qed (simp_all add: dec_defs be_defs join_bytes)

interpretation c24: codec u24be U24BE 3 "\<lambda>v. take_bit 24 v = v"
proof
  fix b :: bytes assume "3 \<le> length b"
  then show "\<exists>v. take_bit 24 v = v \<and> U24BE b = Inr v \<and> take 3 b = u24be v"
    by (simp add: dec_defs be_defs take_nths cut_bytes)
qed (simp_all add: dec_defs be_defs join_bytes)

interpretation c32: codec u32be U32BE 4 "\<lambda>_. True"
proof
  fix b :: bytes assume "4 \<le> length b"
  then show "\<exists>v. True \<and> U32BE b = Inr v \<and> take 4 b = u32be v"
    by (simp add: dec_defs be_defs take_nths cut_bytes)
qed (simp_all add: dec_defs be_defs join_bytes)

interpretation c32le: codec u32le U32LE 4 "\<lambda>_. True"
proof
  fix b :: bytes assume "4 \<le> length b"
  then show "\<exists>v. True \<and> U32LE b = Inr v \<and> take 4 b = u32le v"
    by (simp add: dec_defs be_defs take_nths cut_bytes)
qed (simp_all add: dec_defs be_defs join_bytes)

interpretation c40: codec u40be U40BE 5 "\<lambda>v. take_bit 40 v = v"
proof
  fix b :: bytes assume "5 \<le> length b"
  then show "\<exists>v. take_bit 40 v = v \<and> U40BE b = Inr v \<and> take 5 b = u40be v"
    by (simp add: dec_defs be_defs take_nths cut_bytes)
qed (simp_all add: dec_defs be_defs join_bytes)

interpretation c48: codec u48be U48BE 6 "\<lambda>v. take_bit 48 v = v"
proof
  fix b :: bytes assume "6 \<le> length b"
  then show "\<exists>v. take_bit 48 v = v \<and> U48BE b = Inr v \<and> take 6 b = u48be v"
    by (simp add: dec_defs be_defs take_nths cut_bytes)
qed (simp_all add: dec_defs be_defs join_bytes)

interpretation c64: codec u64be U64BE 8 "\<lambda>_. True"
proof
  fix b :: bytes assume "8 \<le> length b"
  then show "\<exists>v. True \<and> U64BE b = Inr v \<and> take 8 b = u64be v"
    by (simp add: dec_defs be_defs take_nths cut_bytes)
qed (simp_all add: dec_defs be_defs join_bytes)

text \<open>The signed decoders give the same bit patterns as the unsigned ones.\<close>

lemma I16BE_U16BE: "I16BE b = U16BE b"
  by (simp add: I16BE_def U16BE_def)

lemma push_scast: "LENGTH('a) \<le> k + 8 \<Longrightarrow> push_bit k (scast (b :: byte)) = (push_bit k (ucast b) :: 'a::len word)"
  by (rule bit_word_eqI) (auto simp: bit_simps)

lemma I32BE_U32BE: "I32BE b = U32BE b"
  by (simp add: I32BE_def U32BE_def push_scast)

lemma I64BE_U64BE: "I64BE b = U64BE b"
  by (simp add: I64BE_def U64BE_def push_scast)

text \<open>\<open>I24BE\<close> sign-extends the 24-bit value.\<close>

lemma I24BE_signed: "I24BE b = map_sum id (signed_take_bit 23) (U24BE b)"
proof (cases "length b < 3")
  case False
  have "bit (push_bit 16 (scast b0) OR push_bit 8 (ucast b1) OR ucast b2 :: u32) n =
        bit (signed_take_bit 23 (push_bit 16 (ucast b0) OR push_bit 8 (ucast b1) OR ucast b2) :: u32) n"
    if "n < 32" for n and b0 b1 b2 :: byte
    using that by (cases "n < 23") (auto simp: bit_simps min_def)
  then show ?thesis using False
    by (auto simp: I24BE_def U24BE_def failIf_def Let_def or.assoc intro!: bit_word_eqI)
qed (simp add: I24BE_def U24BE_def)

lemmas enc_lengths [simp] =
  c16.length_enc c24.length_enc c32.length_enc c32le.length_enc c40.length_enc c48.length_enc
  c64.length_enc

lemmas dec_encs [simp] =
  c16.dec_enc [OF TrueI] c24.dec_enc c32.dec_enc [OF TrueI] c32le.dec_enc [OF TrueI]
  c40.dec_enc c48.dec_enc c64.dec_enc [OF TrueI]

lemmas dec_encs_nil [simp] = dec_encs [where rest = "[]", simplified]

lemma enc_not_Nil [simp]:
  "u16be v16 \<noteq> []" "u24be v \<noteq> []" "u32be v \<noteq> []" "u64be v64 \<noteq> []"
  by (simp_all add: be_defs)

text \<open>A \<open>WriteX\<close> function never fails and writes exactly the bytes of the code.\<close>

lemma Write_bytes [simp]:
  "WriteU8 v = Inr (u8_bytes v)" "WriteU16BE w = Inr (u16be w)" "WriteU16LE v = Inr (u16le v)"
  "WriteU24BE v = Inr (u24be v)" "WriteU24LE v = Inr (u24le v)" "WriteU32BE v = Inr (u32be v)"
  "WriteU32LE v = Inr (u32le v)" "WriteI32BE v = Inr (u32be v)" "WriteU64BE x = Inr (u64be x)"
  "WriteU64LE x = Inr (u64le x)"
  by (simp_all add: WriteU8_def WriteU16BE_def WriteU16LE_def WriteU24BE_def WriteU24LE_def
      WriteU32BE_def WriteU32LE_def WriteI32BE_def WriteU64BE_def WriteU64LE_def
      PutU8_def PutU16BE_def PutU16LE_def PutU24BE_def PutU24LE_def PutU32BE_def PutU32LE_def
      PutU64BE_def PutU64LE_def overwrite_def be_defs u8_bytes_def u16le_def u64le_def)

lemma ReadUint32BE_u32be [simp, go_simps]: "ReadUint32BE (u32be v @ r) = Inr (v, r)"
  unfolding ReadUint32BE_def by (rule c32.read_enc [OF TrueI])

lemma ReadUint32BE_Inr: "ReadUint32BE r = Inr (v, r') \<longleftrightarrow> r = u32be v @ r'"
  unfolding ReadUint32BE_def using c32.read_Inr by simp

lemma ReadUint32LE_u32le [simp, go_simps]: "ReadUint32LE (u32le v @ r) = Inr (v, r)"
  unfolding ReadUint32LE_def by (rule c32le.read_enc [OF TrueI])

lemma ReadUint32LE_Inr: "ReadUint32LE r = Inr (v, r') \<longleftrightarrow> r = u32le v @ r'"
  unfolding ReadUint32LE_def using c32le.read_Inr by simp

lemma ReadFloat_written [simp, go_simps]:
  "ReadFloat32BE (WriteFloat32BE f @ r) = Inr (f, r)"
  "ReadFloat32LE (WriteFloat32LE f @ r) = Inr (f, r)"
  "ReadFloat64BE (WriteFloat64BE g @ r) = Inr (g, r)"
  "ReadFloat64LE (WriteFloat64LE g @ r) = Inr (g, r)"
proof -
  have rev: "u64le g = rev (u64be g)" by (simp add: u64le_def u64be_def)
  then show "ReadFloat64LE (WriteFloat64LE g @ r) = Inr (g, r)"
    by (simp add: ReadFloat64LE_def readFloat_def WriteFloat64LE_def ReadFull_append le_U64_def)
qed (simp_all add: ReadFloat32BE_def ReadFloat32LE_def ReadFloat64BE_def readFloat_def
     WriteFloat32BE_def WriteFloat32LE_def WriteFloat64BE_def ReadFull_append)

lemma ReadFloat64BE_shrinks [shrinks]:
  "ReadFloat64BE r = Inr (f, r') \<Longrightarrow> length r = 8 + length r'"
  by (auto simp: ReadFloat64BE_def readFloat_def bindE_eq_Inr ReadFull_Inr split: sum.splits)

lemma ReadUint8_Cons [simp, go_simps]: "ReadUint8 (b # r) = Inr (ucast b, r)"
  by (simp add: ReadUint8_def Read_def)

lemma ReadUint8_Nil [simp, go_simps]: "ReadUint8 [] = Inl EOF"
  by (simp add: ReadUint8_def Read_def)

lemma ReadUint8_shrinks [shrinks]: "ReadUint8 r = Inr (v, r') \<Longrightarrow> length r = Suc (length r')"
  by (cases r) auto

lemma ReadUint16BE_shrinks [shrinks]: "ReadUint16BE r = Inr (v, r') \<Longrightarrow> length r = 2 + length r'"
  by (auto simp: ReadUint16BE_def Read_def bindE_eq_Inr failIf_eq_Inr split: if_splits)

lemma ReadUint24BE_shrinks [shrinks]: "ReadUint24BE r = Inr (v, r') \<Longrightarrow> length r = 3 + length r'"
  by (auto simp: ReadUint24BE_def Read_def bindE_eq_Inr failIf_eq_Inr split: if_splits)

lemma ReadUint32BE_shrinks [shrinks]: "ReadUint32BE r = Inr (v, r') \<Longrightarrow> length r = 4 + length r'"
  by (auto simp: ReadUint32BE_Inr)

lemma ReadUint16BE_Inr:
  "ReadUint16BE r = Inr (v, r') \<longleftrightarrow> (\<exists>a b. r = a # b # r' \<and> v = ucast a * 256 + ucast b)"
  by (cases r; cases "tl r") (auto simp: ReadUint16BE_def Read_def bindE_eq_Inr failIf_eq_Inr)

lemma ReadUint16BE_two: "ReadUint16BE (a # b # r) = Inr (ucast a * 256 + ucast b, r)"
  by (simp add: ReadUint16BE_def Read_def)

section \<open>Decoded values\<close>

text \<open>The value of a big-endian byte string, most significant byte first.\<close>

definition be_nat :: "bytes \<Rightarrow> nat" where
  "be_nat b = foldl (\<lambda>n w. n * 256 + unat w) 0 b"

lemma be_nat_snoc [simp]: "be_nat (b @ [w]) = be_nat b * 256 + unat w"
  by (simp add: be_nat_def)

lemma be_nat_less: "be_nat b < 256 ^ length b"
proof (induction b rule: rev_induct)
  case (snoc w b)
  have "unat w < 256" using unsigned_less [of w] by simp
  then have "be_nat b * 256 + unat w < Suc (be_nat b) * 256" by simp
  also have "\<dots> \<le> 256 ^ length b * 256" using snoc by (intro mult_le_mono1) simp
  finally show ?case by (simp add: mult.commute)
qed (simp add: be_nat_def)

lemma shift_or_arith:
  "push_bit 8 i OR ucast (w :: byte) = i * 256 + (ucast w :: 'a::len word)"
proof -
  have "push_bit 8 i AND (ucast w :: 'a word) = 0"
    by (rule bit_word_eqI) (auto simp: bit_simps)
  then show ?thesis
    by (simp add: disjunctive_add_eq_or [symmetric] push_bit_eq_mult mult.commute)
qed

lemma decoders_be:
  "U16BE b = (if length b < 2 then Inl index_panic else Inr (of_nat (be_nat (take 2 b))))"
  "U24BE b = (if length b < 3 then Inl index_panic else Inr (of_nat (be_nat (take 3 b))))"
  "U32BE b = (if length b < 4 then Inl index_panic else Inr (of_nat (be_nat (take 4 b))))"
  "U40BE b = (if length b < 5 then Inl index_panic else Inr (of_nat (be_nat (take 5 b))))"
  "U48BE b = (if length b < 6 then Inl index_panic else Inr (of_nat (be_nat (take 6 b))))"
  "U64BE b = (if length b < 8 then Inl index_panic else Inr (of_nat (be_nat (take 8 b))))"
  by (simp_all only: U16BE_def U24BE_def U32BE_def U40BE_def U48BE_def U64BE_def Let_def
      shift_or_arith failIf_def)
    (simp_all add: take_nths be_nat_def)

lemma sint_of_nat: "sint (of_nat n :: 'a::len word) = signed_take_bit (LENGTH('a) - 1) (int n)"
  using sint_sbintrunc'[where ?'a = 'a, of "int n"] by simp

lemma sint_signed_24: "sint (signed_take_bit 23 (of_nat n :: u32)) = signed_take_bit 23 (int n)"
proof -
  have "sint (signed_take_bit 23 w) = signed_take_bit 23 (sint w)" for w :: u32
    by (rule bit_eqI) (auto simp: bit_simps min_def)
  then show ?thesis by (simp add: sint_of_nat signed_take_bit_signed_take_bit)
qed

text \<open>C19: The fixed-width big-endian decoders of byteio return the value of the first bytes of the slice as a
  base-256 number, the signed ones its two's complement reading at their width, and panic exactly when
  the slice is shorter than the width.\<close>

theorem decoders_value:
  "(U16BE b = (if length b < 2 then Inl index_panic else Inr (of_nat (be_nat (take 2 b))))) \<and>
   (U24BE b = (if length b < 3 then Inl index_panic else Inr (of_nat (be_nat (take 3 b))))) \<and>
   (U32BE b = (if length b < 4 then Inl index_panic else Inr (of_nat (be_nat (take 4 b))))) \<and>
   (U40BE b = (if length b < 5 then Inl index_panic else Inr (of_nat (be_nat (take 5 b))))) \<and>
   (U48BE b = (if length b < 6 then Inl index_panic else Inr (of_nat (be_nat (take 6 b))))) \<and>
   (U64BE b = (if length b < 8 then Inl index_panic else Inr (of_nat (be_nat (take 8 b))))) \<and>
   (map_sum id sint (I16BE b) = (if length b < 2 then Inl index_panic else Inr (signed_take_bit 15 (int (be_nat (take 2 b)))))) \<and>
   (map_sum id sint (I24BE b) = (if length b < 3 then Inl index_panic else Inr (signed_take_bit 23 (int (be_nat (take 3 b)))))) \<and>
   (map_sum id sint (I32BE b) = (if length b < 4 then Inl index_panic else Inr (signed_take_bit 31 (int (be_nat (take 4 b)))))) \<and>
   (map_sum id sint (I64BE b) = (if length b < 8 then Inl index_panic else Inr (signed_take_bit 63 (int (be_nat (take 8 b))))))"
  by (intro conjI decoders_be; simp add: I16BE_U16BE I24BE_signed I32BE_U32BE I64BE_U64BE decoders_be sint_of_nat sint_signed_24)

lemma u24be_truncates: "u24be (take_bit 24 v) = u24be v"
  by (simp add: u24be_def drop_bit_take_bit ucast_take)

lemma U24BE_u24be: "U24BE (u24be v @ rest) = Inr (take_bit 24 v)"
  using c24.dec_enc [of "take_bit 24 v" rest] by (simp add: u24be_truncates)

lemma ReadUint24_written:
  "ReadUint24BE (u24be v @ rest) = Inr (take_bit 24 v, rest)"
  "ReadUint24LE (u24le v @ rest) = Inr (take_bit 24 v, rest)"
proof -
  have le: "u24le v = rev (u24be v)" by (simp add: be_defs)
  have be: "u24be v = [b0, b1, b2] \<Longrightarrow>
      ucast b0 * 65536 + ucast b1 * 256 + ucast b2 = take_bit 24 v" for b0 b1 b2
    using U24BE_u24be [of v "[]"] by (simp add: decoders_be be_nat_def algebra_simps)
  obtain b0 b1 b2 where u: "u24be v = [b0, b1, b2]" by (simp add: be_defs)
  show "ReadUint24BE (u24be v @ rest) = Inr (take_bit 24 v, rest)"
    using be [OF u] u by (simp add: ReadUint24BE_def Read_def)
  show "ReadUint24LE (u24le v @ rest) = Inr (take_bit 24 v, rest)"
    using be [OF u] u by (simp add: ReadUint24LE_def Read_def le)
qed

text \<open>The bytes a Write function of byteio emits are read back to the value written, whatever
  follows them: for 16, 32 and 64 bits the value itself, for 24 bits its low 24 bits; the Read
  functions of the reader side leave exactly the bytes that follow.\<close>

theorem write_read_roundtrip:
  "bindE (WriteU16BE w) (\<lambda>b. U16BE (b @ rest)) = Inr w \<and>
   bindE (WriteU24BE v) (\<lambda>b. ReadUint24BE (b @ rest)) = Inr (take_bit 24 v, rest) \<and>
   bindE (WriteU24LE v) (\<lambda>b. ReadUint24LE (b @ rest)) = Inr (take_bit 24 v, rest) \<and>
   bindE (WriteU32BE v) (\<lambda>b. ReadUint32BE (b @ rest)) = Inr (v, rest) \<and>
   bindE (WriteU32LE v) (\<lambda>b. ReadUint32LE (b @ rest)) = Inr (v, rest) \<and>
   bindE (WriteI32BE v) (\<lambda>b. I32BE (b @ rest)) = Inr v \<and>
   bindE (WriteU64BE x) (\<lambda>b. U64BE (b @ rest)) = Inr x"
  by (simp add: I32BE_U32BE ReadUint24_written)

text \<open>\<open>UVarBE\<close> only sees the last two bytes: the rounds before the last do not contribute.\<close>

lemma UVarBE_loop_append:
  "UVarBE_loop (pre @ [x, y]) i = Inr (push_bit 8 (ucast x) OR ucast y)"
proof (induction pre arbitrary: i)
  case (Cons p pre)
  then show ?case by (cases pre) auto
qed simp

text \<open>UVarBE, which is meant to decode a big-endian integer of variable length, returns the
  value of the last two bytes for every slice of at least two bytes.\<close>

theorem UVarBE_last_two: "UVarBE (pre @ [x, y]) = Inr (of_nat (be_nat [x, y]))"
  by (simp add: UVarBE_def UVarBE_loop_append be_nat_def shift_or_arith)

text \<open>So a value of three bytes is not the one encoded.\<close>

lemma UVarBE_counterexample: "UVarBE [1, 0, 0] = Inr 0 \<and> be_nat [1, 0, 0] = 65536"
  by (simp add: UVarBE_def be_nat_def)

end
