(* ===== verification/Chunk.thy ===== *)
theory Chunk
  imports ByteIO
begin

text \<open>
  \<open>protocol/rtmp/chunk.go\<close>: the headers of an RTMP chunk, their parsers and their serialisers.
  The parsers read from the connection (the list of bytes still to come); the serialisers append
  to a \<open>bytes.Buffer\<close> and are modelled by the bytes they append.
\<close>

section \<open>Data\<close>

record ChunkBasicHeader =
  bh_format :: byte
  bh_chunkStreamID :: u32

record ChunkMessageHeader =
  mh_timestamp :: u32
  mh_messageLength :: u32
  mh_messageTypeID :: byte
  mh_timestampExted :: bool
  mh_timeDelta :: u32
  mh_messageStreamID :: u32

record Chunk =
  ch_basic :: ChunkBasicHeader
  ch_hdr :: ChunkMessageHeader
  ch_data :: bytes

record ChunkStream =
  cs_basic :: ChunkBasicHeader
  cs_hdr :: ChunkMessageHeader
  cs_ChunkStreamID :: u32
  cs_remain :: u32

definition zero_basic :: ChunkBasicHeader where
  "zero_basic = \<lparr>bh_format = 0, bh_chunkStreamID = 0\<rparr>"

definition zero_hdr :: ChunkMessageHeader where
  "zero_hdr = \<lparr>mh_timestamp = 0, mh_messageLength = 0, mh_messageTypeID = 0,
     mh_timestampExted = False, mh_timeDelta = 0, mh_messageStreamID = 0\<rparr>"

definition new_ChunkStream :: "u32 \<Rightarrow> ChunkStream" where
  "new_ChunkStream csid =
     \<lparr>cs_basic = zero_basic, cs_hdr = zero_hdr, cs_ChunkStreamID = csid, cs_remain = 0\<rparr>"

definition isStreamIDExists :: "ChunkBasicHeader \<Rightarrow> bool" where
  "isStreamIDExists cbh \<longleftrightarrow> bh_format cbh = 0"

section \<open>Parsers\<close>

definition getChunkBasicHeader :: "bytes \<Rightarrow> (ChunkBasicHeader \<times> bytes) res" where
  "getChunkBasicHeader r =
     bindE (ReadUint8 r) (\<lambda>(h, r).
     bindE (let csid = h AND 0x3f in
            if csid = 0 then bindE (ReadUint8 r) (\<lambda>(csid, r). Inr (csid + 64, r))
            else if csid = 1 then bindE (ReadUint16BE r) (\<lambda>(csid, r). Inr (csid + 64, r))
            else Inr (csid, r)) (\<lambda>(csid, r).
     let format = drop_bit 6 h
     in Inr (\<lparr>bh_format = ucast format, bh_chunkStreamID = csid\<rparr>, r)))"

definition readChunkExtTimestamp :: "bytes \<Rightarrow> (u32 \<times> bytes) res" where
  "readChunkExtTimestamp r = ReadUint32BE r"

text \<open>
  The calls on the local reader over the header bytes drop their errors; with all header bytes
  present they cannot fail, so passing the error on is the same.
\<close>

definition readChunkMessageHeaderType0 :: "bytes \<Rightarrow> (ChunkMessageHeader \<times> bytes) res" where
  "readChunkMessageHeaderType0 r =
     bindE (ReadFull 11 r) (\<lambda>(buf, r).
     bindE (ReadUint24BE buf) (\<lambda>(ts, bio).
     bindE (ReadUint24BE bio) (\<lambda>(len, bio).
     bindE (ReadUint8 bio) (\<lambda>(tid, bio).
     bindE (ReadUint32LE bio) (\<lambda>(sid, bio).
     let chunk = zero_hdr\<lparr>mh_timestamp := ts, mh_messageLength := len,
           mh_messageTypeID := ucast tid, mh_messageStreamID := sid, mh_timestampExted := False\<rparr>
     in if ts = 0xffffff then
          bindE (readChunkExtTimestamp r) (\<lambda>(ext, r).
            Inr (chunk\<lparr>mh_timestamp := ext, mh_timestampExted := True\<rparr>, r))
        else Inr (chunk, r))))))"

definition readChunkMessageHeaderType1 :: "bytes \<Rightarrow> (ChunkMessageHeader \<times> bytes) res" where
  "readChunkMessageHeaderType1 r =
     bindE (ReadFull 7 r) (\<lambda>(buf, r).
     bindE (ReadUint24BE buf) (\<lambda>(ts, bio).
     bindE (ReadUint24BE bio) (\<lambda>(len, bio).
     bindE (ReadUint8 bio) (\<lambda>(tid, bio).
     let chunk = zero_hdr\<lparr>mh_timestamp := ts, mh_messageLength := len,
           mh_messageTypeID := ucast tid, mh_timestampExted := False\<rparr>
     in if ts = 0xffffff then
          bindE (readChunkExtTimestamp r) (\<lambda>(ext, r).
            Inr (chunk\<lparr>mh_timestamp := ext, mh_timestampExted := True\<rparr>, r))
        else Inr (chunk, r)))))"

definition readChunkMessageHeaderType2 :: "bytes \<Rightarrow> (ChunkMessageHeader \<times> bytes) res" where
  "readChunkMessageHeaderType2 r =
     bindE (ReadUint24BE r) (\<lambda>(timeStamp, r).
     let chunk = zero_hdr\<lparr>mh_timestamp := timeStamp, mh_timestampExted := False\<rparr>
     in if timeStamp = 0xffffff then
          bindE (readChunkExtTimestamp r) (\<lambda>(ext, r).
            Inr (chunk\<lparr>mh_timestamp := ext, mh_timestampExted := True\<rparr>, r))
        else Inr (chunk, r))"

definition readChunkMessageHeader :: "bytes \<Rightarrow> byte \<Rightarrow> (ChunkMessageHeader \<times> bytes) res" where
  "readChunkMessageHeader r chunkFmt =
     (if chunkFmt = 0 then readChunkMessageHeaderType0 r
      else if chunkFmt = 1 then readChunkMessageHeaderType1 r
      else if chunkFmt = 2 then readChunkMessageHeaderType2 r
      else if chunkFmt = 3 then Inr (zero_hdr, r)
      else Inl (Errorf ''unknown format:%d''))"

definition readChunkData :: "bytes \<Rightarrow> u32 \<Rightarrow> u32 \<Rightarrow> (bytes \<times> bytes) res" where
  "readChunkData r remain chunkSize =
     (let readLen = (if chunkSize < remain then chunkSize else remain)
      in ReadFull (unat readLen) r)"

section \<open>Serialisers\<close>

definition serializerChunkBasicHeader :: "byte \<Rightarrow> u32 \<Rightarrow> bytes" where
  "serializerChunkBasicHeader fmt csid =
     (let h = push_bit 6 fmt in
      if csid < 64 then [h OR ucast csid]
      else if csid < 256 + 64 then [h, ucast (csid - 63)]
      else let csid' = csid - 63
           in [h + 1, ucast (csid' - 63), ucast (csid' mod 256), ucast (csid' div 256)])"

definition serializerChunkDeltaTime :: "u32 \<Rightarrow> bytes" where
  "serializerChunkDeltaTime deltaTime =
     (if deltaTime < 0xffffff then u24be deltaTime else [0xff, 0xff, 0xff] @ u32be deltaTime)"

definition serializerChunkMessageHeaderNoStreamID :: "ChunkMessageHeader \<Rightarrow> bytes" where
  "serializerChunkMessageHeaderNoStreamID msgHdr =
     u24be (mh_timeDelta msgHdr) @ u24be (mh_messageLength msgHdr) @ [mh_messageTypeID msgHdr]"

definition serializerChunkMessageHeaderType1 :: "ChunkMessageHeader \<Rightarrow> bytes" where
  "serializerChunkMessageHeaderType1 msgHdr =
     serializerChunkMessageHeaderNoStreamID msgHdr @
     (if 0xffffff < mh_timestamp msgHdr then u32be (mh_timeDelta msgHdr) else [])"

definition serializerChunkMessageHeader :: "ChunkMessageHeader \<Rightarrow> bytes" where
  "serializerChunkMessageHeader msgHdr =
     serializerChunkMessageHeaderNoStreamID msgHdr @
     u32le (mh_messageStreamID msgHdr) @
     (if 0xffffff < mh_timestamp msgHdr then u32be (mh_timestamp msgHdr) else [])"

definition serializerType0 :: "Chunk \<Rightarrow> bytes" where
  "serializerType0 c = serializerChunkBasicHeader 0 (bh_chunkStreamID (ch_basic c)) @
     serializerChunkMessageHeader (ch_hdr c) @ ch_data c"

definition serializerType1 :: "Chunk \<Rightarrow> u32 \<Rightarrow> bytes" where
  "serializerType1 c deltaTime = serializerChunkBasicHeader 1 (bh_chunkStreamID (ch_basic c)) @
     serializerChunkMessageHeaderType1 (ch_hdr c) @ ch_data c"

definition serializerType2 :: "Chunk \<Rightarrow> u32 \<Rightarrow> bytes" where
  "serializerType2 c deltaTime = serializerChunkBasicHeader 2 (bh_chunkStreamID (ch_basic c)) @
     serializerChunkDeltaTime deltaTime @ ch_data c"

definition serializerType3 :: "Chunk \<Rightarrow> bytes" where
  "serializerType3 c = serializerChunkBasicHeader 3 (bh_chunkStreamID (ch_basic c)) @ ch_data c"

section \<open>Basic header\<close>

lemma getChunkBasicHeader_cases:
  assumes "getChunkBasicHeader r = Inr (h, r')"
  shows "2 \<le> unat (bh_chunkStreamID h) \<and> unat (bh_chunkStreamID h) \<le> 65599 \<and>
    bh_format h < 4 \<and> length r' < length r \<and> length r \<le> length r' + 3"
proof -
  obtain b r1 where r: "r = b # r1" using assms by (cases r) (auto simp: getChunkBasicHeader_def)
  have fmt: "ucast (drop_bit 6 (ucast b :: u32)) < (4 :: byte)"
  proof -
    have "unat (drop_bit 6 (ucast b :: u32)) = unat b div 64"
      by (simp add: unsigned_drop_bit_eq drop_bit_nat_def)
    then have "unat (drop_bit 6 (ucast b :: u32)) < 4" using unat_less_256 [of b] by (simp add: div_less_iff_less_mult)
    then show ?thesis by (simp add: word_less_nat_alt unsigned_ucast_eq take_bit_nat_eq_self)
  qed
  have low: "2 \<le> unat v \<and> unat v < 64" if "v = (ucast b AND 0x3f :: u32)" "v \<noteq> 0" "v \<noteq> 1" for v
  proof -
    have "v = take_bit 6 (ucast b)" by (simp add: that(1) take_bit_eq_mask mask_eq_exp_minus_1)
    then have "unat v = take_bit 6 (unat b)" by (simp only: unsigned_take_bit_eq) simp
    then have "unat v < 64" using take_bit_nat_less_exp [of 6 "unat b"] by simp
    moreover have "unat v \<noteq> unat (0 :: u32)" "unat v \<noteq> unat (1 :: u32)"
      using that(2,3) unsigned_word_eqI by metis+
    ultimately show ?thesis by simp
  qed
  have one: "unat (ucast c + 64 :: u32) = unat c + 64" for c :: byte
  proof -
    have "unat c < 256" by (rule unat_less_256)
    then show ?thesis by (simp add: unat_word_ariths)
  qed
  have two: "unat (ucast c * 256 + ucast d + 64 :: u32) = unat c * 256 + unat d + 64" for c d :: byte
  proof -
    have "unat c < 256" "unat d < 256" by (rule unat_less_256)+
    then show ?thesis by (simp add: unat_word_ariths)
  qed
  consider (b2) "ucast b AND 0x3f = (0 :: u32)" | (b3) "ucast b AND 0x3f = (1 :: u32)"
    | (b1) "ucast b AND 0x3f \<noteq> (0 :: u32)" "ucast b AND 0x3f \<noteq> (1 :: u32)" by blast
  then show ?thesis
  proof cases
    case b1
    then have "h = \<lparr>bh_format = ucast (drop_bit 6 (ucast b :: u32)), bh_chunkStreamID = ucast b AND 0x3f\<rparr>"
      "r' = r1" using assms by (simp_all add: r getChunkBasicHeader_def Let_def)
    then show ?thesis using low [OF refl b1] fmt by (simp add: r)
  next
    case b2
    then obtain c where "r1 = c # r'" "h = \<lparr>bh_format = ucast (drop_bit 6 (ucast b :: u32)),
        bh_chunkStreamID = ucast c + 64\<rparr>"
      using assms by (cases r1) (auto simp: r getChunkBasicHeader_def Let_def)
    then show ?thesis using one [of c] fmt unat_less_256 [of c] by (simp add: r)
  next
    case b3
    then obtain c d where "r1 = c # d # r'" "h = \<lparr>bh_format = ucast (drop_bit 6 (ucast b :: u32)),
        bh_chunkStreamID = ucast c * 256 + ucast d + 64\<rparr>"
      using assms by (auto simp: r getChunkBasicHeader_def Let_def bindE_eq_Inr ReadUint16BE_Inr)
    then show ?thesis using two [of c d] fmt unat_less_256 [of c] unat_less_256 [of d]
      by (simp add: r)
  qed
qed

lemma basic_header_roundtrip:
  assumes "2 \<le> csid" "csid < 64" "f < 4"
  shows "getChunkBasicHeader (serializerChunkBasicHeader f csid @ r) =
         Inr (\<lparr>bh_format = f, bh_chunkStreamID = csid\<rparr>, r)"
proof -
  have c: "take_bit 6 csid = csid" and f: "take_bit 2 f = f"
    using take_bit_id [of csid 6] take_bit_id [of f 2] assms by simp_all
  have b6: "bit csid n \<Longrightarrow> n < 6" for n using c by (metis bit_take_bit_iff)
  have b2: "bit f n \<Longrightarrow> n < 2" for n using f by (metis bit_take_bit_iff)
  let ?h = "ucast (push_bit 6 f OR ucast csid :: byte) :: u32"
  have "?h AND 0x3f = ?h AND mask 6" by (simp add: mask_eq_exp_minus_1)
  also have "\<dots> = csid" using b6 b2 by (fastforce simp: bit_simps intro!: bit_word_eqI)
  finally have id: "?h AND 0x3f = csid" .
  have fm: "ucast (drop_bit 6 ?h) = f"
    using b6 b2 by (fastforce simp: bit_simps intro!: bit_word_eqI)
  have "csid \<noteq> 0" "csid \<noteq> 1" using assms(1) by (auto simp: word_le_nat_alt)
  then show ?thesis using assms(2) id fm
    by (simp add: getChunkBasicHeader_def serializerChunkBasicHeader_def Let_def)
qed

text \<open>
  For a chunk stream id of 64 and more the serialiser subtracts 63 where the parser adds 64, so the
  two-byte form names the next chunk stream; the three-byte form has a fourth byte.
\<close>

lemma basic_header_two_byte:
  assumes "64 \<le> csid" "csid < 319" "f < 4"
  shows "\<exists>h. getChunkBasicHeader (serializerChunkBasicHeader f csid @ r) = Inr (h, r) \<and>
             bh_chunkStreamID h = csid + 1"
proof -
  have f: "take_bit 2 f = f" using take_bit_id [of f 2] assms by simp
  have b2: "bit f n \<Longrightarrow> n < 2" for n using f by (metis bit_take_bit_iff)
  have "ucast (push_bit 6 f) AND 0x3f = (ucast (push_bit 6 f) AND mask 6 :: u32)"
    by (simp add: mask_eq_exp_minus_1)
  also have "\<dots> = 0" using b2 by (fastforce simp: bit_simps intro!: bit_word_eqI)
  finally have z: "ucast (push_bit 6 f) AND 0x3f = (0 :: u32)" .
  have "csid - 63 < 2 ^ 8" using assms by unat_arith
  then have "ucast (ucast (csid - 63) :: byte) = csid - 63"
    using take_bit_id [of "csid - 63" 8] by (simp add: first_byte)
  moreover have "\<not> csid < 64" "csid < 320" using assms by unat_arith+
  ultimately show ?thesis using z
    by (simp add: getChunkBasicHeader_def serializerChunkBasicHeader_def Let_def)
qed

section \<open>Message headers\<close>

lemma readChunkMessageHeader_type0:
  assumes "mh_timeDelta h < 0xffffff" "take_bit 24 (mh_messageLength h) = mh_messageLength h"
  shows "readChunkMessageHeader (serializerChunkMessageHeader h @ r) 0 =
    Inr (zero_hdr\<lparr>mh_timestamp := mh_timeDelta h, mh_messageLength := mh_messageLength h,
         mh_messageTypeID := mh_messageTypeID h, mh_messageStreamID := mh_messageStreamID h\<rparr>,
         (if 0xffffff < mh_timestamp h then u32be (mh_timestamp h) else []) @ r)"
proof -
  have "mh_timeDelta h < 2 ^ 24" using assms(1) by unat_arith
  then have d: "take_bit 24 (mh_timeDelta h) = mh_timeDelta h" by (simp add: take_bit_id)
  let ?x = "if 0xffffff < mh_timestamp h then u32be (mh_timestamp h) else []"
  have "ReadFull 11 (serializerChunkMessageHeader h @ r) =
    Inr (u24be (mh_timeDelta h) @ u24be (mh_messageLength h) @ mh_messageTypeID h #
           u32le (mh_messageStreamID h), ?x @ r)"
    by (simp add: serializerChunkMessageHeader_def serializerChunkMessageHeaderNoStreamID_def
        ReadFull_Inr)
  then show ?thesis using assms d ReadUint32LE_u32le [of _ "[]"]
    by (auto simp: readChunkMessageHeader_def readChunkMessageHeaderType0_def ReadUint24_written
        ucast_ucast_byte zero_hdr_def Let_def)
qed

lemma readChunkMessageHeader_type1:
  assumes "mh_timeDelta h < 0xffffff" "take_bit 24 (mh_messageLength h) = mh_messageLength h"
  shows "readChunkMessageHeader (serializerChunkMessageHeaderType1 h @ r) 1 =
    Inr (zero_hdr\<lparr>mh_timestamp := mh_timeDelta h, mh_messageLength := mh_messageLength h,
         mh_messageTypeID := mh_messageTypeID h\<rparr>,
         (if 0xffffff < mh_timestamp h then u32be (mh_timeDelta h) else []) @ r)"
proof -
  have "mh_timeDelta h < 2 ^ 24" using assms(1) by unat_arith
  then have d: "take_bit 24 (mh_timeDelta h) = mh_timeDelta h" by (simp add: take_bit_id)
  let ?x = "if 0xffffff < mh_timestamp h then u32be (mh_timeDelta h) else []"
  have "ReadFull 7 (serializerChunkMessageHeaderType1 h @ r) =
    Inr (u24be (mh_timeDelta h) @ u24be (mh_messageLength h) @ [mh_messageTypeID h], ?x @ r)"
    by (simp add: serializerChunkMessageHeaderType1_def
        serializerChunkMessageHeaderNoStreamID_def ReadFull_Inr)
  then show ?thesis using assms d
    by (auto simp: readChunkMessageHeader_def readChunkMessageHeaderType1_def ReadUint24_written
        ucast_ucast_byte zero_hdr_def Let_def)
qed

lemma readChunkMessageHeader_type2:
  "readChunkMessageHeader (serializerChunkDeltaTime d @ r) 2 =
   Inr (zero_hdr\<lparr>mh_timestamp := d, mh_timestampExted := (0xffffff \<le> d)\<rparr>, r)"
proof (cases "d < 0xffffff")
  case True
  then have "d < 2 ^ 24" by unat_arith
  then have "take_bit 24 d = d" by (simp add: take_bit_id)
  then show ?thesis using True
    by (auto simp: readChunkMessageHeader_def readChunkMessageHeaderType2_def ReadUint24_written
        serializerChunkDeltaTime_def zero_hdr_def Let_def)
next
  case False
  have "u24be 0xffffff = [0xff, 0xff, 0xff]" by (simp add: u24be_def)
  then have "ReadUint24BE (0xff # 0xff # 0xff # u32be d @ r) = Inr (0xffffff, u32be d @ r)"
    using ReadUint24_written(1) [of "0xffffff" "u32be d @ r"] by simp
  then show ?thesis using False
    by (simp add: readChunkMessageHeader_def readChunkMessageHeaderType2_def
        serializerChunkDeltaTime_def readChunkExtTimestamp_def zero_hdr_def)
qed

lemma readChunkMessageHeader_type3 [simp]: "readChunkMessageHeader r 3 = Inr (zero_hdr, r)"
  by (simp add: readChunkMessageHeader_def)

lemma readChunkMessageHeader_shrinks [shrinks]:
  "readChunkMessageHeader r f = Inr (h, r') \<Longrightarrow> length r' \<le> length r"
  by (auto simp: readChunkMessageHeader_def readChunkMessageHeaderType0_def
      readChunkMessageHeaderType1_def readChunkMessageHeaderType2_def readChunkExtTimestamp_def
      Let_def bindE_eq_Inr split: if_splits dest!: shrinks)

lemma readChunkData_shrinks [shrinks]:
  "readChunkData r n c = Inr (d, r') \<Longrightarrow> length r' \<le> length r"
  by (auto simp: readChunkData_def Let_def dest!: shrinks)

lemma readChunkData_Inr:
  "readChunkData r n c = Inr (d, r') \<longleftrightarrow> r = d @ r' \<and> length d = unat (min n c)"
  by (auto simp: readChunkData_def Let_def ReadFull_Inr min_def not_le dest: antisym)

text \<open>Every basic header that parses names a chunk stream between 2 and 65599 and a format 0 to 3
  and takes one to three bytes; the csid check of getRtmpMessage can therefore never fire.\<close>

theorem basic_header_range:
  assumes "getChunkBasicHeader r = Inr (h, r')"
  shows "2 \<le> unat (bh_chunkStreamID h) \<and> unat (bh_chunkStreamID h) \<le> 65599 \<and>
    bh_format h < 4 \<and> length r' < length r \<and> length r \<le> length r' + 3"
  by (rule getChunkBasicHeader_cases [OF assms])

theorem basic_header_range_witness:
  "getChunkBasicHeader [0xC1, 0xFF, 0xFF, 7] =
     Inr (\<lparr>bh_format = 3, bh_chunkStreamID = 65599\<rparr>, [7]) \<and>
   unat (bh_chunkStreamID \<lparr>bh_format = 3, bh_chunkStreamID = 65599\<rparr>) \<le> 65599"
proof -
  have g: "getChunkBasicHeader [0xC1, 0xFF, 0xFF, 7] =
      Inr (\<lparr>bh_format = 3, bh_chunkStreamID = 65599\<rparr>, [7])"
    by code_simp
  from g basic_header_range [OF g] show ?thesis by simp
qed

end
