(* ===== verification/Message.thy ===== *)
theory Message
  imports Chunk
begin

text \<open>
  \<open>protocol/rtmp/message.go\<close>, first part: messages, the collector that joins the chunks of a
  message stream into messages, and the splitting of a message into chunks.  The message stream
  table is a map from stream ids; a Go slice is its contents.
\<close>

section \<open>Data\<close>

record Message =
  MessageType :: byte
  Timestamp :: u32
  StreamID :: u32
  Payload :: bytes

record MessageStream =
  ms_messageStreamID :: u32
  ms_chunkStreamID :: u32
  ms_Format :: byte
  ms_Timestamp :: u32
  ms_TimestampDelta :: u32
  ms_messageLength :: u32
  ms_MessageTypeID :: byte
  ms_remain :: u32
  ms_isCollecting :: bool
  ms_Data :: bytes

record MessageCollector =
  mc_streams :: "u32 \<Rightarrow> MessageStream option"

definition new_MessageStream :: MessageStream where
  "new_MessageStream = \<lparr>ms_messageStreamID = 0, ms_chunkStreamID = 0, ms_Format = 0,
     ms_Timestamp = 0, ms_TimestampDelta = 0, ms_messageLength = 0, ms_MessageTypeID = 0,
     ms_remain = 0, ms_isCollecting = False, ms_Data = []\<rparr>"

definition NewMessageCollector :: MessageCollector where
  "NewMessageCollector = \<lparr>mc_streams = (\<lambda>_. None)\<rparr>"

abbreviation TYPE_AUDIO :: byte where "TYPE_AUDIO \<equiv> 8"
abbreviation TYPE_VIDEO :: byte where "TYPE_VIDEO \<equiv> 9"
abbreviation TYPE_DATA_AMF0 :: byte where "TYPE_DATA_AMF0 \<equiv> 0x12"
abbreviation TYPE_DATA_AMF3 :: byte where "TYPE_DATA_AMF3 \<equiv> 0xf"
abbreviation TYPE_PRTCTRL_WINDOW_ACK :: byte where "TYPE_PRTCTRL_WINDOW_ACK \<equiv> 5"
abbreviation TYPE_PRTCTRL_SET_PEER_BW :: byte where "TYPE_PRTCTRL_SET_PEER_BW \<equiv> 6"
abbreviation TYPE_PRTCTRL_SET_CHUNK_SIZE :: byte where "TYPE_PRTCTRL_SET_CHUNK_SIZE \<equiv> 1"
abbreviation TYPE_CMDMSG_AMF0 :: byte where "TYPE_CMDMSG_AMF0 \<equiv> 0x14"
abbreviation TYPE_CMDMSG_AMF3 :: byte where "TYPE_CMDMSG_AMF3 \<equiv> 0x11"

section \<open>The collector\<close>

text \<open>\<open>getMessage\<close> returns the message and the message stream with its buffer emptied.\<close>

definition getMessage :: "MessageStream \<Rightarrow> Message \<times> MessageStream" where
  "getMessage ms =
     (\<lparr>MessageType = ms_MessageTypeID ms, Timestamp = ms_Timestamp ms,
       StreamID = ms_messageStreamID ms, Payload = ms_Data ms\<rparr>,
      ms\<lparr>ms_Data := [], ms_isCollecting := False\<rparr>)"

text \<open>The body of \<open>HandleReceiveChunk\<close> once the message stream has been looked up.\<close>

definition collect :: "MessageStream \<Rightarrow> Chunk \<Rightarrow> Message option \<times> MessageStream" where
  "collect ms chunk =
     (let ms = ms\<lparr>ms_Format := bh_format (ch_basic chunk),
                   ms_chunkStreamID := bh_chunkStreamID (ch_basic chunk)\<rparr>;
          data = ch_data chunk; h = ch_hdr chunk in
      if ms_isCollecting ms then
        let ms = ms\<lparr>ms_Data := ms_Data ms @ data,
                    ms_remain := ms_remain ms - of_nat (length data)\<rparr> in
        if ms_remain ms = 0 then
          (let (m, ms) = getMessage (ms\<lparr>ms_isCollecting := False\<rparr>) in (Some m, ms))
        else (None, ms)
      else
        let ms = ms\<lparr>ms_Timestamp := mh_timestamp h, ms_messageLength := mh_messageLength h,
                    ms_MessageTypeID := mh_messageTypeID h,
                    ms_messageStreamID := mh_messageStreamID h\<rparr> in
        if ms_messageLength ms = of_nat (length data) then
          (let (m, ms) = getMessage (ms\<lparr>ms_Data := data\<rparr>) in (Some m, ms))
        else
          let ms = ms\<lparr>ms_Data := ms_Data ms @ data, ms_isCollecting := True\<rparr> in
          (None, ms\<lparr>ms_remain := ms_messageLength ms - of_nat (length (ms_Data ms))\<rparr>))"

definition HandleReceiveChunk ::
  "MessageCollector \<Rightarrow> Chunk \<Rightarrow> (Message option \<times> MessageCollector) res" where
  "HandleReceiveChunk s chunk =
     (let sid = mh_messageStreamID (ch_hdr chunk) in
      bindE (case mc_streams s sid of
               Some ms \<Rightarrow> Inr ms
             | None \<Rightarrow> failIf (bh_format (ch_basic chunk) \<noteq> 0)
                 (Panic ''first msg in msg strean format not zero'') (Inr new_MessageStream))
        (\<lambda>ms. let (m, ms) = collect ms chunk
               in Inr (m, s\<lparr>mc_streams := (mc_streams s)(sid \<mapsto> ms)\<rparr>)))"

section \<open>Splitting a message into chunks\<close>

text \<open>
  The loop of \<open>ToType0Chunk\<close> over \<open>payloadLen\<close> and \<open>payload\<close>; all chunks of a message share the two
  headers.  With a chunk size of 0 and a payload that is not empty the loop does not end, hence the
  fuel.
\<close>

fun appendChunks ::
  "nat \<Rightarrow> nat \<Rightarrow> ChunkBasicHeader \<Rightarrow> ChunkMessageHeader \<Rightarrow> nat \<Rightarrow> bytes \<Rightarrow> Chunk list res" where
  "appendChunks 0 chunkSize b h payloadLen payload = (if 0 < payloadLen then Inl Hang else Inr [])"
| "appendChunks (Suc fuel) chunkSize b h payloadLen payload =
     (if 0 < payloadLen then
        if payloadLen \<le> chunkSize then
          bindE (appendChunks fuel chunkSize b h 0 payload) (\<lambda>chunks.
            Inr (\<lparr>ch_basic = b, ch_hdr = h, ch_data = payload\<rparr> # chunks))
        else
          bindE (appendChunks fuel chunkSize b h (payloadLen - chunkSize)
                   (subslice chunkSize payloadLen payload)) (\<lambda>chunks.
            Inr (\<lparr>ch_basic = b, ch_hdr = h, ch_data = subslice 0 chunkSize payload\<rparr> # chunks))
      else Inr [])"

definition type0_hdr :: "Message \<Rightarrow> ChunkMessageHeader" where
  "type0_hdr m = \<lparr>mh_timestamp = Timestamp m, mh_messageLength = of_nat (length (Payload m)),
     mh_messageTypeID = MessageType m, mh_timestampExted = (0xffffff < Timestamp m),
     mh_timeDelta = 0, mh_messageStreamID = StreamID m\<rparr>"

definition ToType0Chunk :: "Message \<Rightarrow> u32 \<Rightarrow> u32 \<Rightarrow> Chunk list res" where
  "ToType0Chunk m chunkStreamID chunkSize =
     appendChunks (length (Payload m)) (unat chunkSize)
       \<lparr>bh_format = 0, bh_chunkStreamID = chunkStreamID\<rparr> (type0_hdr m)
       (length (Payload m)) (Payload m)"

section \<open>Lemmas on the splitting\<close>

text \<open>The specification of the splitting: full pieces of the chunk size, then the remainder.\<close>

function pieces :: "nat \<Rightarrow> 'a list \<Rightarrow> 'a list list" where
  "pieces n xs = (if xs = [] \<or> n = 0 then [] else take n xs # pieces n (drop n xs))"
  by auto
termination by (relation "measure (\<lambda>(n, xs). length xs)") auto

declare pieces.simps [simp del]

lemma pieces_Nil [simp]: "pieces n [] = []" by (subst pieces.simps) simp

lemma pieces_step: "0 < n \<Longrightarrow> xs \<noteq> [] \<Longrightarrow> pieces n xs = take n xs # pieces n (drop n xs)"
  by (subst pieces.simps) simp

lemma concat_pieces: "0 < n \<Longrightarrow> concat (pieces n xs) = xs"
  by (induction n xs rule: pieces.induct) (subst pieces.simps, auto)

lemma pieces_size: "d \<in> set (pieces n xs) \<Longrightarrow> d \<noteq> [] \<and> length d \<le> n"
proof (induction n xs rule: pieces.induct)
  case (1 n xs)
  show ?case
  proof (cases "xs = [] \<or> n = 0")
    case True
    with 1(2) have False by (subst (asm) pieces.simps) simp
    then show ?thesis ..
  next
    case False
    with 1 show ?thesis by (auto simp: pieces_step)
  qed
qed

lemma appendChunks_pieces:
  assumes "0 < n" "length xs \<le> fuel"
  shows "appendChunks fuel n b h (length xs) xs =
    Inr (map (\<lambda>d. \<lparr>ch_basic = b, ch_hdr = h, ch_data = d\<rparr>) (pieces n xs))"
  using assms
proof (induction fuel arbitrary: xs)
  case (Suc fuel)
  show ?case
  proof (cases "length xs \<le> n")
    case True
    then show ?thesis
      by (cases "xs = []"; cases fuel) (simp_all add: pieces_step Suc.prems)
  next
    case False
    then have ne: "xs \<noteq> []" by auto
    have "length (drop n xs) \<le> fuel" using Suc.prems by simp
    from Suc.IH [OF Suc.prems(1) this] show ?thesis
      using False ne Suc.prems(1) by (simp add: pieces_step subslice_def)
  qed
qed simp

lemma appendChunks_hang: "0 < k \<Longrightarrow> appendChunks fuel 0 b h k xs = Inl Hang"
  by (induction fuel arbitrary: xs) auto

lemma ToType0Chunk_pieces:
  "0 < sz \<Longrightarrow> ToType0Chunk m csid sz =
    Inr (map (\<lambda>d. \<lparr>ch_basic = \<lparr>bh_format = 0, bh_chunkStreamID = csid\<rparr>, ch_hdr = type0_hdr m,
      ch_data = d\<rparr>) (pieces (unat sz) (Payload m)))"
  unfolding ToType0Chunk_def
  by (rule appendChunks_pieces) (simp_all add: unat_gt_0 word_gt_0)

text \<open>C18: ToType0Chunk splits a message exactly: it returns for every chunk size above 0, and the
  chunks carry the headers of the message, data of 1 to chunkSize bytes each, and together the
  payload (so an empty payload gives no chunk); with chunk size 0 and a payload it never returns.\<close>

theorem ToType0Chunk_correct:
  "if sz = 0 \<and> Payload m \<noteq> [] then
     \<forall>fuel. appendChunks fuel (unat sz) \<lparr>bh_format = 0, bh_chunkStreamID = csid\<rparr> (type0_hdr m)
       (length (Payload m)) (Payload m) = Inl Hang
   else \<exists>cs. ToType0Chunk m csid sz = Inr cs \<and> concat (map ch_data cs) = Payload m \<and>
     list_all (\<lambda>c. ch_basic c = \<lparr>bh_format = 0, bh_chunkStreamID = csid\<rparr> \<and> ch_hdr c = type0_hdr m \<and>
       ch_data c \<noteq> [] \<and> length (ch_data c) \<le> unat sz) cs"
proof (cases "sz = 0")
  case True
  then show ?thesis by (auto simp: appendChunks_hang ToType0Chunk_def)
next
  case False
  then have "0 < sz" "0 < unat sz" by (simp_all add: word_gt_0 unat_gt_0)
  then show ?thesis using False ToType0Chunk_pieces [of sz m csid] pieces_size [of _ "unat sz" "Payload m"]
    by (auto simp: list_all_iff comp_def concat_pieces)
qed

end
