(* ===== verification/Pack.thy ===== *)
theory Pack
  imports Message
begin

text \<open>
  \<open>protocol/rtmp/pack.go\<close>: the unpacker, which turns the bytes of a connection into messages, and
  the packer, which turns messages into bytes.  Both keep a table of chunk streams.  A call that
  fails ends the connection in every caller, so a failing call returns the error and no state.
\<close>

section \<open>The unpacker\<close>

record ChunkUnpacker =
  streams :: "u32 \<Rightarrow> ChunkStream option"
  chunkSize :: u32
  messageCollector :: MessageCollector

definition NewChunkUnpacker :: ChunkUnpacker where
  "NewChunkUnpacker =
     \<lparr>streams = (\<lambda>_. None), chunkSize = 128, messageCollector = NewMessageCollector\<rparr>"

definition ChunkUnpacker_SetChunkSize :: "ChunkUnpacker \<Rightarrow> u32 \<Rightarrow> ChunkUnpacker" where
  "ChunkUnpacker_SetChunkSize s sz = s\<lparr>chunkSize := sz\<rparr>"

text \<open>
  The \<open>switch\<close> of \<open>ReadChunk\<close> on the format of the first chunk of a message: the chunk stream
  keeps what later headers leave out, the chunk header is completed from it.
\<close>

definition open_message ::
  "ChunkBasicHeader \<Rightarrow> ChunkMessageHeader \<Rightarrow> ChunkStream \<Rightarrow> ChunkMessageHeader \<times> ChunkStream" where
  "open_message b h cs =
     (let format = bh_format b in
      if format = 0 then
        (h, cs\<lparr>cs_remain := mh_messageLength h, cs_basic := b, cs_hdr := h\<rparr>)
      else if format = 1 then
        let ts = mh_timestamp h + mh_timestamp (cs_hdr cs) in
        (h\<lparr>mh_timestamp := ts, mh_messageStreamID := mh_messageStreamID (cs_hdr cs)\<rparr>,
         cs\<lparr>cs_remain := mh_messageLength h,
            cs_hdr := (cs_hdr cs)\<lparr>mh_messageLength := mh_messageLength h,
                                  mh_messageTypeID := mh_messageTypeID h, mh_timestamp := ts\<rparr>\<rparr>)
      else if format = 2 then
        let ts = mh_timestamp h + mh_timestamp (cs_hdr cs) in
        (h\<lparr>mh_timestamp := ts, mh_messageLength := mh_messageLength (cs_hdr cs),
           mh_messageTypeID := mh_messageTypeID (cs_hdr cs),
           mh_messageStreamID := mh_messageStreamID (cs_hdr cs)\<rparr>,
         cs\<lparr>cs_remain := mh_messageLength (cs_hdr cs), cs_hdr := (cs_hdr cs)\<lparr>mh_timestamp := ts\<rparr>\<rparr>)
      else if format = 3 then
        (h\<lparr>mh_timestamp := mh_timestamp (cs_hdr cs),
           mh_messageLength := mh_messageLength (cs_hdr cs),
           mh_messageTypeID := mh_messageTypeID (cs_hdr cs),
           mh_messageStreamID := mh_messageStreamID (cs_hdr cs)\<rparr>,
         cs\<lparr>cs_remain := mh_messageLength (cs_hdr cs)\<rparr>)
      else (h, cs))"

definition ReadChunk :: "ChunkUnpacker \<Rightarrow> bytes \<Rightarrow> (Chunk \<times> ChunkUnpacker \<times> bytes) res" where
  "ReadChunk s r =
     bindE (getChunkBasicHeader r) (\<lambda>(b, r).
     let csid = bh_chunkStreamID b;
         cs = (case streams s csid of Some cs \<Rightarrow> cs | None \<Rightarrow> new_ChunkStream csid) in
     bindE (readChunkMessageHeader r (bh_format b)) (\<lambda>(h, r).
     let (h, cs) = (if cs_remain cs = 0 then open_message b h cs else (h, cs));
         h = (if \<not> isStreamIDExists b
              then h\<lparr>mh_messageStreamID := mh_messageStreamID (cs_hdr cs)\<rparr> else h) in
     bindE (readChunkData r (cs_remain cs) (chunkSize s)) (\<lambda>(data, r).
     let cs = cs\<lparr>cs_remain := cs_remain cs - of_nat (length data)\<rparr> in
     Inr (\<lparr>ch_basic = b, ch_hdr = h, ch_data = data\<rparr>,
          s\<lparr>streams := (streams s)(csid \<mapsto> cs)\<rparr>, r))))"

lemma ReadChunk_shrinks: "ReadChunk s r = Inr (c, s', r') \<Longrightarrow> length r' < length r"
  by (auto simp: ReadChunk_def Let_def bindE_eq_Inr case_prod_unfold
      dest!: getChunkBasicHeader_cases readChunkMessageHeader_shrinks readChunkData_shrinks)

text \<open>Every round of the loop of \<open>getRtmpMessage\<close> consumes at least a basic header, so it ends.\<close>

function getRtmpMessage :: "ChunkUnpacker \<Rightarrow> bytes \<Rightarrow> (Message \<times> ChunkUnpacker \<times> bytes) res" where
  "getRtmpMessage h r =
     bindE (ReadChunk h r) (\<lambda>(chunk, h1, r1).
     bindE (HandleReceiveChunk (messageCollector h1) chunk) (\<lambda>(msg, mc).
     let h2 = h1\<lparr>messageCollector := mc\<rparr>; csid = bh_chunkStreamID (ch_basic chunk) in
     failIf (csid < 2) (Errorf ''wrong csid:%d'')
     (case msg of
        None \<Rightarrow> getRtmpMessage h2 r1
      | Some m \<Rightarrow>
          failIf (0 < MessageType m \<and> MessageType m < 7 \<and> csid \<noteq> 2)
            (Errorf ''csid:%d for msgtype:%d'')
          (failIf (0 < MessageType m \<and> MessageType m < 7 \<and> StreamID m \<noteq> 0)
            (Errorf ''msid:%d for msgtype:%d'')
          (Inr (m, h2, r1))))))"
  by auto
termination
  by (relation "measure (\<lambda>(h, r). length r)") (auto dest: ReadChunk_shrinks)

declare getRtmpMessage.simps [simp del]

section \<open>The packer\<close>

record ChunkPacker =
  sendChunkSize :: u32
  sendStreams :: "u32 \<Rightarrow> ChunkStream option"

definition NewChunkPacker :: ChunkPacker where
  "NewChunkPacker = \<lparr>sendChunkSize = 128, sendStreams = (\<lambda>_. None)\<rparr>"

definition isProtoCtrlMsg :: "Chunk \<Rightarrow> bool" where
  "isProtoCtrlMsg chunk \<longleftrightarrow> bh_chunkStreamID (ch_basic chunk) = 2 \<and>
     mh_messageStreamID (ch_hdr chunk) = 0 \<and>
     mh_messageTypeID (ch_hdr chunk) \<noteq> 4 \<and> mh_messageTypeID (ch_hdr chunk) < 7"

definition set_timeDelta :: "u32 \<Rightarrow> Chunk \<Rightarrow> Chunk" where
  "set_timeDelta d c = c\<lparr>ch_hdr := (ch_hdr c)\<lparr>mh_timeDelta := d\<rparr>\<rparr>"

text \<open>
  One round of the loop of \<open>SerializerChunk\<close>: the bytes appended, the new chunk stream and, when the
  round assigns \<open>chunk.timeDelta\<close>, the value assigned.
\<close>

definition serializeOne ::
  "ChunkStream option \<Rightarrow> Chunk \<Rightarrow> (bytes \<times> ChunkStream \<times> u32 option) res" where
  "serializeOne entry chunk =
     (let csid = bh_chunkStreamID (ch_basic chunk); ok = (entry \<noteq> None);
          cs = (case entry of Some cs \<Rightarrow> cs | None \<Rightarrow> new_ChunkStream csid); h = ch_hdr chunk in
      failIf (\<not> ok \<and> bh_format (cs_basic cs) \<noteq> 0) (Panic ''chunkSerializer first chunk fmt not 0'')
      (if isProtoCtrlMsg chunk \<or> mh_messageStreamID (cs_hdr cs) \<noteq> mh_messageStreamID h \<or> \<not> ok then
         Inr (serializerType0 chunk,
              cs\<lparr>cs_basic := (ch_basic chunk)\<lparr>bh_format := 0\<rparr>, cs_hdr := h\<rparr>, None)
       else
         failIf (mh_messageStreamID (cs_hdr cs) \<noteq> mh_messageStreamID h) (Panic ''msid should equal'')
         (let timeDelta = mh_timestamp h - mh_timestamp (cs_hdr cs) in
          if mh_messageLength (cs_hdr cs) = mh_messageLength h \<and>
             mh_messageTypeID (cs_hdr cs) = mh_messageTypeID h then
            if mh_timestamp (cs_hdr cs) = mh_timestamp h \<or> mh_timeDelta (cs_hdr cs) = timeDelta then
              Inr (serializerType3 chunk,
                   cs\<lparr>cs_basic := (cs_basic cs)\<lparr>bh_format := 3\<rparr>\<rparr>, None)
            else
              Inr (serializerType2 (set_timeDelta timeDelta chunk) timeDelta,
                   cs\<lparr>cs_basic := (cs_basic cs)\<lparr>bh_format := 2\<rparr>,
                      cs_hdr := (cs_hdr cs)\<lparr>mh_timeDelta := timeDelta, mh_timestamp := mh_timestamp h\<rparr>\<rparr>,
                   Some timeDelta)
          else
            Inr (serializerType1 (set_timeDelta timeDelta chunk) timeDelta,
                 cs\<lparr>cs_basic := (cs_basic cs)\<lparr>bh_format := 1\<rparr>,
                    cs_hdr := (cs_hdr cs)\<lparr>mh_timeDelta := timeDelta, mh_timestamp := mh_timestamp h,
                      mh_messageLength := mh_messageLength h,
                      mh_messageTypeID := mh_messageTypeID h\<rparr>\<rparr>,
                 Some timeDelta))))"

text \<open>
  The chunks of one call share their message header (\<open>ToType0Chunk\<close> builds them so), hence an
  assignment to \<open>chunk.timeDelta\<close> is seen by all chunks that follow.
\<close>

function SerializerChunk :: "ChunkPacker \<Rightarrow> Chunk list \<Rightarrow> (bytes \<times> ChunkPacker) res" where
  "SerializerChunk s [] = Inr ([], s)"
| "SerializerChunk s (chunk # chunkArray) =
     (let csid = bh_chunkStreamID (ch_basic chunk) in
      bindE (serializeOne (sendStreams s csid) chunk) (\<lambda>(w, cs, delta).
      bindE (SerializerChunk (s\<lparr>sendStreams := (sendStreams s)(csid \<mapsto> cs)\<rparr>)
               (case delta of None \<Rightarrow> chunkArray | Some d \<Rightarrow> map (set_timeDelta d) chunkArray))
        (\<lambda>(w', s). Inr (w @ w', s))))"
  by pat_completeness auto
termination
  by (relation "measure (\<lambda>(s, cs). length cs)") (auto split: option.splits)

definition ChunkPacker_SetChunkSize :: "ChunkPacker \<Rightarrow> u32 \<Rightarrow> ChunkPacker" where
  "ChunkPacker_SetChunkSize s sz = s\<lparr>sendChunkSize := sz\<rparr>"

definition GetChunkSize :: "ChunkPacker \<Rightarrow> u32" where
  "GetChunkSize s = sendChunkSize s"

text \<open>The chunk stream a message type is sent on.\<close>

definition csid_of :: "byte \<Rightarrow> u32" where
  "csid_of t =
     (if t \<in> {1, 2, 3, 4, 5, 6} then 2
      else if t = TYPE_CMDMSG_AMF0 \<or> t = TYPE_CMDMSG_AMF3 then 3
      else if t = TYPE_DATA_AMF0 \<or> t = TYPE_DATA_AMF3 then 4
      else if t = TYPE_VIDEO then 6
      else if t = TYPE_AUDIO then 4
      else 2)"

definition MessageToChunk :: "ChunkPacker \<Rightarrow> Message \<Rightarrow> Chunk list res" where
  "MessageToChunk p m =
     failIf (MessageType m \<in> {1, 2, 3, 4, 5, 6} \<and> StreamID m \<noteq> 0)
       (Errorf ''send msg streamid:%d for prot ctrl msg'')
     (ToType0Chunk m (csid_of (MessageType m)) (sendChunkSize p))"

text \<open>\<open>WriteMessage\<close>: the bytes handed to the connection, and the packer after the call.\<close>

definition WriteMessage :: "ChunkPacker \<Rightarrow> Message \<Rightarrow> (bytes \<times> ChunkPacker) res" where
  "WriteMessage p m = bindE (MessageToChunk p m) (\<lambda>chunkArray. SerializerChunk p chunkArray)"

end
