(* ===== verification/Transport.thy ===== *)
theory Transport
  imports Pack
begin

text \<open>
  What the packer and the unpacker promise together: the bytes \<open>WriteMessage\<close> produces are turned
  back into the message by \<open>getRtmpMessage\<close>, for every way a message is split into chunks and
  whichever of the four chunk formats the packer chooses, as long as the two sides are in step.

  The proof is in two halves that meet in the notion of a chunk prefix (the bytes before the data
  of a chunk): the unpacker reads a message from any prefixes that parse, and the packer emits such
  prefixes.
\<close>

section \<open>Reading a message from its chunks\<close>

text \<open>\<open>pre\<close> is a complete chunk header, parsed as \<open>b\<close> and \<open>h\<close> whatever follows it.\<close>

definition parses :: "bytes \<Rightarrow> ChunkBasicHeader \<Rightarrow> ChunkMessageHeader \<Rightarrow> bool" where
  "parses pre b h \<longleftrightarrow> (\<forall>r. \<exists>r1. getChunkBasicHeader (pre @ r) = Inr (b, r1) \<and>
      readChunkMessageHeader r1 (bh_format b) = Inr (h, r))"

lemma parses_ReadChunk:
  assumes "parses pre b h" and "csid = bh_chunkStreamID b"
    and "cs = (case streams u csid of Some cs \<Rightarrow> cs | None \<Rightarrow> new_ChunkStream csid)"
    and "(h1, cs1) = (if cs_remain cs = 0 then open_message b h cs else (h, cs))"
    and "length d = unat (min (cs_remain cs1) (chunkSize u))"
  shows "ReadChunk u (pre @ d @ r) =
    Inr (\<lparr>ch_basic = b,
          ch_hdr = (if bh_format b \<noteq> 0
                    then h1\<lparr>mh_messageStreamID := mh_messageStreamID (cs_hdr cs1)\<rparr> else h1),
          ch_data = d\<rparr>,
         u\<lparr>streams := (streams u)(csid \<mapsto> cs1\<lparr>cs_remain := cs_remain cs1 - of_nat (length d)\<rparr>)\<rparr>, r)"
proof -
  obtain r1 where r1: "getChunkBasicHeader (pre @ d @ r) = Inr (b, r1)"
    "readChunkMessageHeader r1 (bh_format b) = Inr (h, d @ r)"
    using assms(1) unfolding parses_def by blast
  have "readChunkData (d @ r) (cs_remain cs1) (chunkSize u) = Inr (d, r)"
    using assms(5) by (simp add: readChunkData_Inr)
  with r1 show ?thesis
    by (simp add: ReadChunk_def assms(2,3) [symmetric] assms(4) [symmetric] isStreamIDExists_def)
qed

text \<open>The unpacker in the middle of a message: \<open>pre\<close> collected, \<open>rem\<close> still to come.\<close>

definition collecting ::
  "ChunkUnpacker \<Rightarrow> u32 \<Rightarrow> u32 \<Rightarrow> byte \<Rightarrow> u32 \<Rightarrow> bytes \<Rightarrow> bytes \<Rightarrow> bool" where
  "collecting u csid sid t ts pre rem \<longleftrightarrow>
     (\<exists>cs ms. streams u csid = Some cs \<and> cs_remain cs = of_nat (length rem) \<and>
        mh_messageStreamID (cs_hdr cs) = sid \<and>
        mc_streams (messageCollector u) sid = Some ms \<and> ms_isCollecting ms \<and>
        ms_remain ms = of_nat (length rem) \<and> ms_Data ms = pre \<and>
        ms_messageStreamID ms = sid \<and> ms_MessageTypeID ms = t \<and> ms_Timestamp ms = ts)"

text \<open>The unpacker after a message: as before except on the chunk stream and the message stream.\<close>

definition delivered :: "ChunkUnpacker \<Rightarrow> u32 \<Rightarrow> u32 \<Rightarrow> ChunkMessageHeader \<Rightarrow> ChunkUnpacker \<Rightarrow> bool" where
  "delivered u csid sid h u' \<longleftrightarrow>
     chunkSize u' = chunkSize u \<and>
     (\<exists>cs. streams u' csid = Some cs \<and> cs_remain cs = 0 \<and> cs_hdr cs = h) \<and>
     (\<forall>c. c \<noteq> csid \<longrightarrow> streams u' c = streams u c) \<and>
     (\<exists>ms. mc_streams (messageCollector u') sid = Some ms \<and> \<not> ms_isCollecting ms \<and> ms_Data ms = []) \<and>
     (\<forall>s. s \<noteq> sid \<longrightarrow>
        mc_streams (messageCollector u') s = mc_streams (messageCollector u) s)"

text \<open>The checks \<open>getRtmpMessage\<close> makes on a complete message.\<close>

definition admitted :: "u32 \<Rightarrow> u32 \<Rightarrow> byte \<Rightarrow> bool" where
  "admitted csid sid t \<longleftrightarrow> 2 \<le> csid \<and> (0 < t \<and> t < 7 \<longrightarrow> csid = 2 \<and> sid = 0)"

definition continues :: "bytes \<Rightarrow> u32 \<Rightarrow> u32 \<Rightarrow> bool" where
  "continues pre csid sid \<longleftrightarrow> (\<exists>b h. parses pre b h \<and> bh_chunkStreamID b = csid \<and>
     (bh_format b \<noteq> 0 \<or> mh_messageStreamID h = sid))"

lemma unat_of_nat_u32: "n < 2 ^ 32 \<Longrightarrow> unat (of_nat n :: u32) = n"
  by (simp add: unsigned_of_nat take_bit_nat_eq_self)

lemma of_nat_u32_diff:
  "k \<le> n \<Longrightarrow> (of_nat n - of_nat k :: u32) = of_nat (n - k)"
  by (simp add: of_nat_diff)

lemma of_nat_u32_eq_0: "n < 2 ^ 32 \<Longrightarrow> (of_nat n :: u32) = 0 \<longleftrightarrow> n = 0"
  using unat_of_nat_u32 [of n] by auto

lemma unat_min_of_nat:
  assumes "n < 2 ^ 32"
  shows "unat (min (of_nat n :: u32) c) = min n (unat c)"
  using assms by (simp add: min_def word_le_nat_alt unat_of_nat_u32)

text \<open>One chunk of a message that is being collected.\<close>

definition middle :: "ChunkUnpacker \<Rightarrow> Chunk \<Rightarrow> ChunkStream \<Rightarrow> MessageStream \<Rightarrow> ChunkUnpacker" where
  "middle u chunk cs ms = u\<lparr>streams := (streams u)(bh_chunkStreamID (ch_basic chunk) \<mapsto> cs),
     messageCollector := (messageCollector u)\<lparr>mc_streams :=
       (mc_streams (messageCollector u))(mh_messageStreamID (ch_hdr chunk) \<mapsto> ms)\<rparr>\<rparr>"

lemma getRtmpMessage_chunk:
  assumes "ReadChunk u r = Inr (chunk, u\<lparr>streams := (streams u)(bh_chunkStreamID (ch_basic chunk) \<mapsto> cs)\<rparr>, r1)"
    and "HandleReceiveChunk (messageCollector u) chunk =
      Inr (msg, (messageCollector u)\<lparr>mc_streams :=
        (mc_streams (messageCollector u))(mh_messageStreamID (ch_hdr chunk) \<mapsto> ms)\<rparr>)"
    and "2 \<le> bh_chunkStreamID (ch_basic chunk)"
  shows "getRtmpMessage u r =
    (case msg of None \<Rightarrow> getRtmpMessage (middle u chunk cs ms) r1
     | Some m \<Rightarrow> if 0 < MessageType m \<and> MessageType m < 7 \<and> bh_chunkStreamID (ch_basic chunk) \<noteq> 2
         then Inl (Errorf ''csid:%d for msgtype:%d'')
         else if 0 < MessageType m \<and> MessageType m < 7 \<and> StreamID m \<noteq> 0
         then Inl (Errorf ''msid:%d for msgtype:%d'')
         else Inr (m, middle u chunk cs ms, r1))"
proof -
  have "\<not> bh_chunkStreamID (ch_basic chunk) < 2" using assms(3) by simp
  then show ?thesis
    by (subst getRtmpMessage.simps) (simp add: assms(1,2) middle_def failIf_def split: option.split)
qed

lemma remain_after_piece:
  fixes rem :: bytes
  assumes "length rem < 2 ^ 32"
  shows "of_nat (length rem) - of_nat (length (take n rem)) = (of_nat (length rem - n) :: u32)"
    and "(of_nat (length rem - n) :: u32) = 0 \<longleftrightarrow> length rem \<le> n"
proof -
  show "of_nat (length rem) - of_nat (length (take n rem)) = (of_nat (length rem - n) :: u32)"
    using of_nat_u32_diff [of "length (take n rem)" "length rem"]
    by (cases "length rem \<le> n") simp_all
  show "(of_nat (length rem - n) :: u32) = 0 \<longleftrightarrow> length rem \<le> n"
    using of_nat_u32_eq_0 [of "length rem - n"] assms by simp
qed

text \<open>The collector on a middle or last chunk.\<close>

lemma collect_middle:
  assumes "ms_isCollecting ms" "ms_remain ms = of_nat (length rem)" "length rem < 2 ^ 32"
    and "ch_data chunk = take n rem"
  shows "\<exists>ms'. collect ms chunk =
      (if length rem \<le> n then Some \<lparr>MessageType = ms_MessageTypeID ms, Timestamp = ms_Timestamp ms,
         StreamID = ms_messageStreamID ms, Payload = ms_Data ms @ rem\<rparr> else None, ms') \<and>
    ms_isCollecting ms' = (\<not> length rem \<le> n) \<and> ms_remain ms' = of_nat (length rem - n) \<and>
    ms_Data ms' = (if length rem \<le> n then [] else ms_Data ms @ take n rem) \<and>
    ms_messageStreamID ms' = ms_messageStreamID ms \<and> ms_MessageTypeID ms' = ms_MessageTypeID ms \<and>
    ms_Timestamp ms' = ms_Timestamp ms"
  using assms remain_after_piece [OF assms(3), of n]
  by (cases "length rem \<le> n") (simp_all add: collect_def Let_def getMessage_def)

lemma collect_chunk:
  assumes c: "collecting u csid sid t ts pre rem" and ne: "rem \<noteq> []"
    and len: "length rem < 2 ^ 32" and sz: "0 < unat (chunkSize u)"
    and p: "continues p csid sid" and adm: "admitted csid sid t"
    and cs0: "streams u csid = Some cs0"
  defines "n \<equiv> unat (chunkSize u)"
  shows "\<exists>u1. getRtmpMessage u (p @ take n rem @ r) =
      (if length rem \<le> n
       then Inr (\<lparr>MessageType = t, Timestamp = ts, StreamID = sid, Payload = pre @ rem\<rparr>, u1, r)
       else getRtmpMessage u1 r) \<and>
    (if length rem \<le> n then delivered u csid sid (cs_hdr cs0) u1
     else collecting u1 csid sid t ts (pre @ take n rem) (drop n rem) \<and> chunkSize u1 = chunkSize u \<and>
       (\<exists>cs1. streams u1 csid = Some cs1 \<and> cs_hdr cs1 = cs_hdr cs0) \<and>
       (\<forall>c. c \<noteq> csid \<longrightarrow> streams u1 c = streams u c) \<and>
       (\<forall>s. s \<noteq> sid \<longrightarrow> mc_streams (messageCollector u1) s = mc_streams (messageCollector u) s))"
proof -
  obtain ms where ms: "cs_remain cs0 = of_nat (length rem)" "mh_messageStreamID (cs_hdr cs0) = sid"
    "mc_streams (messageCollector u) sid = Some ms" "ms_isCollecting ms"
    "ms_remain ms = of_nat (length rem)" "ms_Data ms = pre" "ms_messageStreamID ms = sid"
    "ms_MessageTypeID ms = t" "ms_Timestamp ms = ts"
    using c cs0 by (auto simp: collecting_def)
  obtain b h where b: "parses p b h" "bh_chunkStreamID b = csid"
    "bh_format b \<noteq> 0 \<or> mh_messageStreamID h = sid"
    using p by (auto simp: continues_def)
  define chunk where "chunk = \<lparr>ch_basic = b,
    ch_hdr = (if bh_format b \<noteq> 0 then h\<lparr>mh_messageStreamID := sid\<rparr> else h), ch_data = take n rem\<rparr>"
  have sid: "mh_messageStreamID (ch_hdr chunk) = sid" "bh_chunkStreamID (ch_basic chunk) = csid"
    using b(2,3) by (auto simp: chunk_def)
  define cs1 where "cs1 = cs0\<lparr>cs_remain := of_nat (length rem - n)\<rparr>"
  have rd: "ReadChunk u (p @ take n rem @ r) = Inr (chunk, u\<lparr>streams := (streams u)(csid \<mapsto> cs1)\<rparr>, r)"
    using parses_ReadChunk [where u = u and ?h1.0 = h and ?cs1.0 = cs0 and d = "take n rem" and r = r,
        OF b(1) refl refl] unat_min_of_nat [OF len] remain_after_piece [OF len, of n]
      of_nat_u32_eq_0 [OF len] ne b(2) cs0 ms(1,2)
    by (simp add: n_def chunk_def cs1_def)
  obtain ms' where col: "collect ms chunk = (if length rem \<le> n
      then Some \<lparr>MessageType = t, Timestamp = ts, StreamID = sid, Payload = pre @ rem\<rparr> else None, ms')"
    and ms': "ms_isCollecting ms' = (\<not> length rem \<le> n)" "ms_remain ms' = of_nat (length rem - n)"
    "ms_Data ms' = (if length rem \<le> n then [] else pre @ take n rem)"
    "ms_messageStreamID ms' = sid" "ms_MessageTypeID ms' = t" "ms_Timestamp ms' = ts"
    using collect_middle [OF ms(4,5) len, of chunk n] ms(6-9) by (auto simp: chunk_def)
  define u1 where "u1 = middle u chunk cs1 ms'"
  have "getRtmpMessage u (p @ take n rem @ r) =
      (if length rem \<le> n
       then Inr (\<lparr>MessageType = t, Timestamp = ts, StreamID = sid, Payload = pre @ rem\<rparr>, u1, r)
       else getRtmpMessage u1 r)"
    using getRtmpMessage_chunk [of u "p @ take n rem @ r" chunk cs1 r _ ms', unfolded sid, OF rd]
      col ms(3) sid adm by (auto simp: HandleReceiveChunk_def admitted_def u1_def)
  moreover have "streams u1 = (streams u)(csid \<mapsto> cs1)" "chunkSize u1 = chunkSize u"
    "mc_streams (messageCollector u1) = (mc_streams (messageCollector u))(sid \<mapsto> ms')"
    using sid by (simp_all add: u1_def middle_def)
  ultimately show ?thesis using ms' ms(2)
    by (auto simp: delivered_def collecting_def cs1_def intro!: exI [of _ u1])
qed

text \<open>All chunks that are left.\<close>

lemma collect_rest:
  assumes "collecting u csid sid t ts pre rem" "rem \<noteq> []" "length rem < 2 ^ 32"
    "0 < unat (chunkSize u)" "continues p csid sid" "admitted csid sid t" "streams u csid = Some cs0"
  shows "\<exists>u'. getRtmpMessage u (concat (map ((@) p) (pieces (unat (chunkSize u)) rem)) @ r) =
      Inr (\<lparr>MessageType = t, Timestamp = ts, StreamID = sid, Payload = pre @ rem\<rparr>, u', r) \<and>
    delivered u csid sid (cs_hdr cs0) u'"
  using assms
proof (induction "length rem" arbitrary: u pre rem cs0 rule: less_induct)
  case less
  let ?n = "unat (chunkSize u)"
  obtain u1 where u1: "getRtmpMessage u (p @ take ?n rem @
        concat (map ((@) p) (pieces ?n (drop ?n rem))) @ r) =
      (if length rem \<le> ?n
       then Inr (\<lparr>MessageType = t, Timestamp = ts, StreamID = sid, Payload = pre @ rem\<rparr>, u1,
         concat (map ((@) p) (pieces ?n (drop ?n rem))) @ r)
       else getRtmpMessage u1 (concat (map ((@) p) (pieces ?n (drop ?n rem))) @ r))"
    "if length rem \<le> ?n then delivered u csid sid (cs_hdr cs0) u1
     else collecting u1 csid sid t ts (pre @ take ?n rem) (drop ?n rem) \<and> chunkSize u1 = chunkSize u \<and>
       (\<exists>cs1. streams u1 csid = Some cs1 \<and> cs_hdr cs1 = cs_hdr cs0) \<and>
       (\<forall>c. c \<noteq> csid \<longrightarrow> streams u1 c = streams u c) \<and>
       (\<forall>s. s \<noteq> sid \<longrightarrow> mc_streams (messageCollector u1) s = mc_streams (messageCollector u) s)"
    using collect_chunk [OF less.prems] by blast
  show ?case
  proof (cases "length rem \<le> ?n")
    case True
    with u1 less.prems show ?thesis by (auto simp: pieces_step)
  next
    case False
    then obtain cs1 where cs1: "streams u1 csid = Some cs1" "cs_hdr cs1 = cs_hdr cs0"
      and rest: "collecting u1 csid sid t ts (pre @ take ?n rem) (drop ?n rem)"
        "chunkSize u1 = chunkSize u"
      using u1(2) by auto
    have "length (drop ?n rem) < length rem" using less.prems(2,4) by (cases rem) auto
    moreover from this have "length (drop ?n rem) < 2 ^ 32" using less.prems(3) by linarith
    ultimately
    have "\<exists>u'. getRtmpMessage u1 (concat (map ((@) p) (pieces (unat (chunkSize u1)) (drop ?n rem))) @ r) =
        Inr (\<lparr>MessageType = t, Timestamp = ts, StreamID = sid, Payload = (pre @ take ?n rem) @ drop ?n rem\<rparr>, u', r) \<and>
      delivered u1 csid sid (cs_hdr cs1) u'"
      using False less.prems(4) rest(2)
      by (intro less.hyps [OF _ rest(1) _ _ _ less.prems(5,6) cs1(1)]) auto
    then
    obtain u' where u': "getRtmpMessage u1 (concat (map ((@) p) (pieces ?n (drop ?n rem))) @ r) =
        Inr (\<lparr>MessageType = t, Timestamp = ts, StreamID = sid, Payload = pre @ rem\<rparr>, u', r)"
      "delivered u1 csid sid (cs_hdr cs1) u'" using rest(2) by auto
    then have "delivered u csid sid (cs_hdr cs0) u'"
      using u1(2) False cs1(2) by (auto simp: delivered_def)
    then show ?thesis using u1(1) u'(1) False less.prems by (auto simp: pieces_step)
  qed
qed

text \<open>The first chunk of a message, and with it the whole message.\<close>

definition idle :: "MessageStream option \<Rightarrow> byte \<Rightarrow> bool" where
  "idle entry format \<longleftrightarrow>
     (case entry of None \<Rightarrow> format = 0 | Some ms \<Rightarrow> \<not> ms_isCollecting ms \<and> ms_Data ms = [])"

lemma collect_first:
  assumes "\<not> ms_isCollecting ms" "ms_Data ms = []" "length pl < 2 ^ 32"
    and "mh_messageLength (ch_hdr chunk) = of_nat (length pl)" "ch_data chunk = take n pl"
  shows "\<exists>ms'. collect ms chunk =
      (if length pl \<le> n then Some \<lparr>MessageType = mh_messageTypeID (ch_hdr chunk),
         Timestamp = mh_timestamp (ch_hdr chunk), StreamID = mh_messageStreamID (ch_hdr chunk),
         Payload = pl\<rparr> else None, ms') \<and>
    ms_isCollecting ms' = (\<not> length pl \<le> n) \<and>
    (\<not> length pl \<le> n \<longrightarrow> ms_remain ms' = of_nat (length pl - n)) \<and>
    ms_Data ms' = (if length pl \<le> n then [] else take n pl) \<and>
    ms_messageStreamID ms' = mh_messageStreamID (ch_hdr chunk) \<and>
    ms_MessageTypeID ms' = mh_messageTypeID (ch_hdr chunk) \<and>
    ms_Timestamp ms' = mh_timestamp (ch_hdr chunk)"
proof -
  have "(of_nat (length pl) = (of_nat (length (take n pl)) :: u32)) \<longleftrightarrow> length pl \<le> n"
    using remain_after_piece [OF assms(3), of n] by (metis eq_iff_diff_eq_0)
  then show ?thesis using assms remain_after_piece [OF assms(3), of n]
    by (cases "length pl \<le> n") (simp_all add: collect_def Let_def getMessage_def)
qed

lemma HandleReceiveChunk_idle:
  assumes "idle (mc_streams s (mh_messageStreamID (ch_hdr chunk))) (bh_format (ch_basic chunk))"
  shows "\<exists>ms. \<not> ms_isCollecting ms \<and> ms_Data ms = [] \<and>
    HandleReceiveChunk s chunk = (let (m, ms) = collect ms chunk in
      Inr (m, s\<lparr>mc_streams := (mc_streams s)(mh_messageStreamID (ch_hdr chunk) \<mapsto> ms)\<rparr>))"
proof (cases "mc_streams s (mh_messageStreamID (ch_hdr chunk))")
  case None
  with assms show ?thesis
    by (intro exI [of _ new_MessageStream])
      (simp add: idle_def HandleReceiveChunk_def, simp add: new_MessageStream_def)
next
  case (Some ms)
  with assms show ?thesis by (auto simp: idle_def HandleReceiveChunk_def)
qed

lemma deliver_message:
  assumes q: "parses q b h" "bh_chunkStreamID b = csid"
    and op: "cs = (case streams u csid of Some cs \<Rightarrow> cs | None \<Rightarrow> new_ChunkStream csid)"
      "cs_remain cs = 0" "open_message b h cs = (h1, cs1)"
      "mh_messageStreamID h1 = sid" "mh_messageStreamID (cs_hdr cs1) = sid"
      "cs_remain cs1 = of_nat (length pl)" "mh_messageLength h1 = of_nat (length pl)"
    and pl: "pl \<noteq> []" "length pl < 2 ^ 32" and sz: "0 < unat (chunkSize u)"
    and p: "continues p csid sid" and adm: "admitted csid sid (mh_messageTypeID h1)"
    and coll: "idle (mc_streams (messageCollector u) sid) (bh_format b)"
  defines "n \<equiv> unat (chunkSize u)"
  shows "\<exists>u'. getRtmpMessage u (q @ take n pl @ concat (map ((@) p) (pieces n (drop n pl))) @ r) =
      Inr (\<lparr>MessageType = mh_messageTypeID h1, Timestamp = mh_timestamp h1, StreamID = sid,
            Payload = pl\<rparr>, u', r) \<and> delivered u csid sid (cs_hdr cs1) u'"
proof -
  let ?rest = "concat (map ((@) p) (pieces n (drop n pl))) @ r"
  define chunk where "chunk = \<lparr>ch_basic = b, ch_hdr = h1, ch_data = take n pl\<rparr>"
  define cs2 where "cs2 = cs1\<lparr>cs_remain := of_nat (length pl - n)\<rparr>"
  have "h1\<lparr>mh_messageStreamID := sid\<rparr> = h1" using op(4) by simp
  then have rd: "ReadChunk u (q @ take n pl @ ?rest) =
      Inr (chunk, u\<lparr>streams := (streams u)(csid \<mapsto> cs2)\<rparr>, ?rest)"
    using parses_ReadChunk [where u = u and ?h1.0 = h1 and ?cs1.0 = cs1 and d = "take n pl" and r = ?rest,
        OF q(1) refl, unfolded q(2), OF op(1)] op(2-) unat_min_of_nat [OF pl(2)]
      remain_after_piece [OF pl(2), of n] by (simp add: chunk_def cs2_def n_def)
  obtain ms where ms: "\<not> ms_isCollecting ms" "ms_Data ms = []"
    "HandleReceiveChunk (messageCollector u) chunk = (let (m, ms) = collect ms chunk in
       Inr (m, (messageCollector u)\<lparr>mc_streams := (mc_streams (messageCollector u))(sid \<mapsto> ms)\<rparr>))"
    using HandleReceiveChunk_idle [of "messageCollector u" chunk] coll op(4)
    by (auto simp: chunk_def)
  obtain ms' where col: "collect ms chunk = (if length pl \<le> n
      then Some \<lparr>MessageType = mh_messageTypeID h1, Timestamp = mh_timestamp h1, StreamID = sid,
         Payload = pl\<rparr> else None, ms')"
    and ms': "ms_isCollecting ms' = (\<not> length pl \<le> n)"
    "\<not> length pl \<le> n \<longrightarrow> ms_remain ms' = of_nat (length pl - n)"
    "ms_Data ms' = (if length pl \<le> n then [] else take n pl)" "ms_messageStreamID ms' = sid"
    "ms_MessageTypeID ms' = mh_messageTypeID h1" "ms_Timestamp ms' = mh_timestamp h1"
    using collect_first [OF ms(1,2) pl(2), of chunk n] op(4,7) by (auto simp: chunk_def)
  define u1 where "u1 = middle u chunk cs2 ms'"
  have g: "getRtmpMessage u (q @ take n pl @ ?rest) =
      (if length pl \<le> n
       then Inr (\<lparr>MessageType = mh_messageTypeID h1, Timestamp = mh_timestamp h1, StreamID = sid,
            Payload = pl\<rparr>, u1, ?rest) else getRtmpMessage u1 ?rest)"
    using getRtmpMessage_chunk [of u "q @ take n pl @ ?rest" chunk cs2 ?rest _ ms'] rd ms(3) col
      op(4) q(2) adm by (auto simp: admitted_def u1_def chunk_def)
  have u1: "streams u1 = (streams u)(csid \<mapsto> cs2)" "chunkSize u1 = chunkSize u"
    "mc_streams (messageCollector u1) = (mc_streams (messageCollector u))(sid \<mapsto> ms')"
    using op(4) q(2) by (simp_all add: u1_def middle_def chunk_def)
  show ?thesis
  proof (cases "length pl \<le> n")
    case True
    with g u1 ms' show ?thesis by (auto simp: delivered_def cs2_def)
  next
    case False
    then have "collecting u1 csid sid (mh_messageTypeID h1) (mh_timestamp h1) (take n pl) (drop n pl)"
      using u1 ms' op(5) by (simp add: collecting_def cs2_def)
    moreover have "length (drop n pl) < 2 ^ 32" using pl(2) by simp
    ultimately obtain u' where "getRtmpMessage u1 ?rest =
        Inr (\<lparr>MessageType = mh_messageTypeID h1, Timestamp = mh_timestamp h1, StreamID = sid,
          Payload = take n pl @ drop n pl\<rparr>, u', r)" "delivered u1 csid sid (cs_hdr cs2) u'"
      using collect_rest [of u1 csid sid "mh_messageTypeID h1" "mh_timestamp h1" "take n pl" "drop n pl" p cs2 r] False sz p adm u1
      by (auto simp: n_def)
    then show ?thesis using g u1 False by (auto simp: delivered_def cs2_def)
  qed
qed

section \<open>Writing a message as chunks\<close>

text \<open>
  The packer's choice as a specification: the format of the first chunk of a message, the bytes
  before its data, the bytes before the data of the other chunks, and what the chunk stream
  remembers afterwards.
\<close>

abbreviation csid_m :: "Message \<Rightarrow> u32" where "csid_m m \<equiv> csid_of (MessageType m)"

definition proto_ctrl :: "Message \<Rightarrow> bool" where
  "proto_ctrl m \<longleftrightarrow> csid_m m = 2 \<and> StreamID m = 0 \<and> MessageType m \<noteq> 4 \<and> MessageType m < 7"

definition chosen_format :: "ChunkStream option \<Rightarrow> Message \<Rightarrow> byte" where
  "chosen_format entry m = (case entry of None \<Rightarrow> 0 | Some cs \<Rightarrow>
     let s = cs_hdr cs; h = type0_hdr m in
     if proto_ctrl m \<or> mh_messageStreamID s \<noteq> mh_messageStreamID h then 0
     else if mh_messageLength s \<noteq> mh_messageLength h \<or> mh_messageTypeID s \<noteq> mh_messageTypeID h then 1
     else if mh_timestamp s = mh_timestamp h \<or> mh_timeDelta s = mh_timestamp h - mh_timestamp s then 3
     else 2)"

definition sent_delta :: "ChunkStream option \<Rightarrow> Message \<Rightarrow> u32" where
  "sent_delta entry m =
     (case entry of None \<Rightarrow> 0 | Some cs \<Rightarrow> Timestamp m - mh_timestamp (cs_hdr cs))"

definition first_prefix :: "ChunkStream option \<Rightarrow> Message \<Rightarrow> bytes" where
  "first_prefix entry m =
     (let f = chosen_format entry m; d = sent_delta entry m; h = type0_hdr m in
      serializerChunkBasicHeader f (csid_m m) @
      (if f = 0 then serializerChunkMessageHeader h
       else if f = 1 then serializerChunkMessageHeaderType1 (h\<lparr>mh_timeDelta := d\<rparr>)
       else if f = 2 then serializerChunkDeltaTime d
       else []))"

definition rest_prefix :: "Message \<Rightarrow> bytes" where
  "rest_prefix m =
     (if proto_ctrl m
      then serializerChunkBasicHeader 0 (csid_m m) @ serializerChunkMessageHeader (type0_hdr m)
      else serializerChunkBasicHeader 3 (csid_m m))"

definition next_hdr :: "ChunkStream option \<Rightarrow> Message \<Rightarrow> ChunkMessageHeader" where
  "next_hdr entry m =
     (let f = chosen_format entry m; h = type0_hdr m in
      case entry of None \<Rightarrow> h | Some cs \<Rightarrow>
        if f = 0 then h
        else if f = 1 then (cs_hdr cs)\<lparr>mh_timeDelta := sent_delta entry m, mh_timestamp := mh_timestamp h,
               mh_messageLength := mh_messageLength h, mh_messageTypeID := mh_messageTypeID h\<rparr>
        else if f = 2 then (cs_hdr cs)\<lparr>mh_timeDelta := sent_delta entry m, mh_timestamp := mh_timestamp h\<rparr>
        else cs_hdr cs)"

abbreviation mk_chunk :: "u32 \<Rightarrow> ChunkMessageHeader \<Rightarrow> bytes \<Rightarrow> Chunk" where
  "mk_chunk csid h d \<equiv>
     \<lparr>ch_basic = \<lparr>bh_format = 0, bh_chunkStreamID = csid\<rparr>, ch_hdr = h, ch_data = d\<rparr>"

definition repeats :: "ChunkMessageHeader \<Rightarrow> ChunkMessageHeader \<Rightarrow> bool" where
  "repeats s h \<longleftrightarrow> mh_messageStreamID s = mh_messageStreamID h \<and>
     mh_messageLength s = mh_messageLength h \<and> mh_messageTypeID s = mh_messageTypeID h \<and>
     (mh_timestamp s = mh_timestamp h \<or> mh_timeDelta s = mh_timestamp h - mh_timestamp s)"

lemma set_timeDelta_mk [simp]:
  "set_timeDelta d (mk_chunk csid h x) = mk_chunk csid (h\<lparr>mh_timeDelta := d\<rparr>) x"
  by (simp add: set_timeDelta_def)

definition set_stream :: "ChunkPacker \<Rightarrow> u32 \<Rightarrow> ChunkStream \<Rightarrow> ChunkPacker" where
  "set_stream p csid cs = p\<lparr>sendStreams := (sendStreams p)(csid \<mapsto> cs)\<rparr>"

lemma set_stream_simps [simp]:
  "sendStreams (set_stream p c s) = (sendStreams p)(c \<mapsto> s)"
  "sendChunkSize (set_stream p c s) = sendChunkSize p"
  "set_stream (set_stream p c s) c s' = set_stream p c s'"
  "sendStreams p c = Some s \<Longrightarrow> set_stream p c s = p"
  by (simp_all add: set_stream_def fun_upd_idem)

lemma SerializerChunk_Cons:
  "SerializerChunk p (mk_chunk csid h d # cs) =
     bindE (serializeOne (sendStreams p csid) (mk_chunk csid h d)) (\<lambda>(w, s, delta).
     bindE (SerializerChunk (set_stream p csid s)
       (case delta of None \<Rightarrow> cs | Some x \<Rightarrow> map (set_timeDelta x) cs)) (\<lambda>(w', p). Inr (w @ w', p)))"
  by (simp add: set_stream_def)

lemma SerializerChunk_repeats:
  assumes "sendStreams p csid = Some s" "repeats (cs_hdr s) h" "\<not> isProtoCtrlMsg (mk_chunk csid h [])"
  shows "\<exists>s'. SerializerChunk p (map (mk_chunk csid h) ds) =
      Inr (concat (map ((@) (serializerChunkBasicHeader 3 csid)) ds), set_stream p csid s') \<and>
    cs_hdr s' = cs_hdr s"
  using assms
proof (induction ds arbitrary: p s)
  case Nil
  then show ?case by (intro exI [of _ s]) simp
next
  case (Cons d ds)
  let ?s = "s\<lparr>cs_basic := (cs_basic s)\<lparr>bh_format := 3\<rparr>\<rparr>"
  have "\<not> isProtoCtrlMsg (mk_chunk csid h d)" using Cons.prems(3) by (simp add: isProtoCtrlMsg_def)
  then have one: "serializeOne (Some s) (mk_chunk csid h d) =
      Inr (serializerType3 (mk_chunk csid h d), ?s, None)"
    using Cons.prems(2) by (auto simp: serializeOne_def repeats_def Let_def)
  show ?case
    using Cons.IH [of "set_stream p csid ?s" ?s] Cons.prems one
    by (auto simp: SerializerChunk_Cons serializerType3_def simp del: SerializerChunk.simps)
qed

lemma SerializerChunk_type0:
  assumes "isProtoCtrlMsg (mk_chunk csid h [])"
  shows "\<exists>s'. SerializerChunk p (map (mk_chunk csid h) ds) =
      Inr (concat (map ((@) (serializerChunkBasicHeader 0 csid @ serializerChunkMessageHeader h)) ds),
           if ds = [] then p else set_stream p csid s') \<and> cs_hdr s' = h"
proof (induction ds arbitrary: p)
  case Nil
  show ?case by (intro exI [of _ "new_ChunkStream csid\<lparr>cs_hdr := h\<rparr>"]) simp
next
  case (Cons d ds)
  have "isProtoCtrlMsg (mk_chunk csid h d)" using assms by (simp add: isProtoCtrlMsg_def)
  then obtain s where one: "serializeOne (sendStreams p csid) (mk_chunk csid h d) =
      Inr (serializerType0 (mk_chunk csid h d), s, None)" "cs_hdr s = h"
    by (cases "sendStreams p csid")
      (auto simp: serializeOne_def new_ChunkStream_def zero_basic_def Let_def)
  from Cons.IH [of "set_stream p csid s"]
  show ?case using one
    by (auto simp: SerializerChunk_Cons serializerType0_def simp del: SerializerChunk.simps split: if_splits)
qed

lemma type0_hdr_sel [simp]:
  "mh_timestamp (type0_hdr m) = Timestamp m" "mh_messageTypeID (type0_hdr m) = MessageType m"
  "mh_messageLength (type0_hdr m) = of_nat (length (Payload m))"
  "mh_messageStreamID (type0_hdr m) = StreamID m" "mh_timeDelta (type0_hdr m) = 0"
  by (simp_all add: type0_hdr_def)

lemma isProtoCtrlMsg_m: "isProtoCtrlMsg (mk_chunk (csid_m m) (type0_hdr m\<lparr>mh_timeDelta := x\<rparr>) d) = proto_ctrl m"
  "isProtoCtrlMsg (mk_chunk (csid_m m) (type0_hdr m) d) = proto_ctrl m"
  by (simp_all add: isProtoCtrlMsg_def proto_ctrl_def)

text \<open>The first chunk: the prefix chosen, and a chunk stream in which the other chunks are repeats.\<close>

lemma serializeOne_first:
  assumes "\<not> proto_ctrl m"
  shows "\<exists>s delta. serializeOne entry (mk_chunk (csid_m m) (type0_hdr m) d) =
      Inr (first_prefix entry m @ d, s, delta) \<and> cs_hdr s = next_hdr entry m \<and>
    repeats (next_hdr entry m) (type0_hdr m)"
proof (cases entry)
  case None
  then show ?thesis
    by (auto simp: serializeOne_def new_ChunkStream_def zero_basic_def first_prefix_def next_hdr_def
        chosen_format_def serializerType0_def repeats_def Let_def)
next
  case (Some cs)
  then show ?thesis using assms
    by (auto simp: serializeOne_def isProtoCtrlMsg_m first_prefix_def next_hdr_def sent_delta_def
        chosen_format_def serializerType0_def serializerType1_def serializerType2_def
        serializerType3_def repeats_def set_timeDelta_def Let_def)
qed

lemma repeats_timeDelta: "repeats s (h\<lparr>mh_timeDelta := x\<rparr>) = repeats s h"
  by (simp add: repeats_def)

lemma WriteMessage_bytes:
  assumes sz: "0 < sendChunkSize p" and pl: "Payload m \<noteq> []"
    and ok: "MessageType m \<in> {1, 2, 3, 4, 5, 6} \<longrightarrow> StreamID m = 0"
  defines "n \<equiv> unat (sendChunkSize p)" and "e \<equiv> sendStreams p (csid_m m)"
  shows "\<exists>s'. WriteMessage p m =
      Inr (first_prefix e m @ take n (Payload m) @
             concat (map ((@) (rest_prefix m)) (pieces n (drop n (Payload m)))),
           set_stream p (csid_m m) s') \<and> cs_hdr s' = next_hdr e m"
proof -
  let ?c = "csid_m m" and ?h = "type0_hdr m" and ?ds = "pieces n (drop n (Payload m))"
  have n: "0 < n" using sz by (simp add: n_def unat_gt_0 word_gt_0)
  have M: "MessageToChunk p m = ToType0Chunk m ?c (sendChunkSize p)"
    using ok by (auto simp: MessageToChunk_def failIf_def)
  have W: "WriteMessage p m = SerializerChunk p (mk_chunk ?c ?h (take n (Payload m)) # map (mk_chunk ?c ?h) ?ds)"
    using ToType0Chunk_pieces [OF sz, of m ?c] M pieces_step [OF n pl]
    by (simp add: WriteMessage_def n_def del: SerializerChunk.simps)
  show ?thesis
  proof (cases "proto_ctrl m")
    case True
    then have "first_prefix e m = rest_prefix m" "next_hdr e m = ?h"
      by (auto simp: first_prefix_def rest_prefix_def next_hdr_def chosen_format_def Let_def
          split: option.splits)
    then show ?thesis using SerializerChunk_type0 [of ?c ?h p "take n (Payload m) # ?ds"] True W
      by (auto simp: isProtoCtrlMsg_m rest_prefix_def)
  next
    case False
    obtain s delta where one: "serializeOne e (mk_chunk ?c ?h (take n (Payload m))) =
        Inr (first_prefix e m @ take n (Payload m), s, delta)" "cs_hdr s = next_hdr e m"
      and rep: "repeats (next_hdr e m) ?h"
      using serializeOne_first [OF False] by blast
    define h where "h = (case delta of None \<Rightarrow> ?h | Some x \<Rightarrow> ?h\<lparr>mh_timeDelta := x\<rparr>)"
    have arr: "(case delta of None \<Rightarrow> map (mk_chunk ?c ?h) ?ds
        | Some x \<Rightarrow> map (set_timeDelta x) (map (mk_chunk ?c ?h) ?ds)) = map (mk_chunk ?c h) ?ds"
      by (simp add: h_def comp_def split: option.split)
    have "\<not> isProtoCtrlMsg (mk_chunk ?c h [])" "repeats (cs_hdr s) h"
      using False rep one(2) by (simp_all add: h_def isProtoCtrlMsg_m repeats_timeDelta split: option.split)
    then show ?thesis
      using SerializerChunk_repeats [of "set_stream p ?c s" ?c s h ?ds] one arr False W
      by (auto simp: SerializerChunk_Cons rest_prefix_def e_def simp del: SerializerChunk.simps)
  qed
qed

section \<open>The two ends in step\<close>

fun paired :: "MessageCollector \<Rightarrow> ChunkStream option \<Rightarrow> ChunkStream option \<Rightarrow> bool" where
  "paired mc None x \<longleftrightarrow> x = None"
| "paired mc (Some s) x \<longleftrightarrow> (\<exists>r. x = Some r \<and> cs_remain r = 0 \<and>
     mh_messageStreamID (cs_hdr r) = mh_messageStreamID (cs_hdr s) \<and>
     mh_messageLength (cs_hdr r) = mh_messageLength (cs_hdr s) \<and>
     mh_messageTypeID (cs_hdr r) = mh_messageTypeID (cs_hdr s) \<and>
     mc_streams mc (mh_messageStreamID (cs_hdr s)) \<noteq> None)"

definition quiet :: "MessageCollector \<Rightarrow> bool" where
  "quiet mc \<longleftrightarrow> (\<forall>sid ms. mc_streams mc sid = Some ms \<longrightarrow> \<not> ms_isCollecting ms \<and> ms_Data ms = [])"

definition in_step :: "ChunkPacker \<Rightarrow> ChunkUnpacker \<Rightarrow> bool" where
  "in_step p u \<longleftrightarrow> sendChunkSize p = chunkSize u \<and> 0 < chunkSize u \<and>
     (\<forall>csid. paired (messageCollector u) (sendStreams p csid) (streams u csid)) \<and>
     quiet (messageCollector u)"

lemma paired_mono:
  "paired mc x y \<Longrightarrow> (\<And>sid. mc_streams mc sid \<noteq> None \<Longrightarrow> mc_streams mc' sid \<noteq> None) \<Longrightarrow> paired mc' x y"
  by (cases x) auto

lemma in_step_delivered:
  assumes st: "in_step p u" and d: "delivered u csid (mh_messageStreamID (cs_hdr s)) h u'"
    and eq: "mh_messageStreamID h = mh_messageStreamID (cs_hdr s)"
      "mh_messageLength h = mh_messageLength (cs_hdr s)"
      "mh_messageTypeID h = mh_messageTypeID (cs_hdr s)"
  shows "in_step (set_stream p csid s) u'"
proof -
  let ?sid = "mh_messageStreamID (cs_hdr s)"
  have known: "mc_streams (messageCollector u) x \<noteq> None \<Longrightarrow> mc_streams (messageCollector u') x \<noteq> None" for x
    using d by (cases "x = ?sid") (auto simp: delivered_def)
  have "paired (messageCollector u') (((sendStreams p)(csid \<mapsto> s)) c) (streams u' c)" for c
  proof (cases "c = csid")
    case True
    then show ?thesis using d eq by (auto simp: delivered_def)
  next
    case False
    then have "streams u' c = streams u c" using d by (simp add: delivered_def)
    moreover have "paired (messageCollector u) (sendStreams p c) (streams u c)"
      using st by (simp add: in_step_def)
    then have "paired (messageCollector u') (sendStreams p c) (streams u c)"
      by (rule paired_mono) (rule known)
    ultimately show ?thesis using False by simp
  qed
  moreover have "quiet (messageCollector u')"
    unfolding quiet_def
  proof (intro allI impI)
    fix x ms assume "mc_streams (messageCollector u') x = Some ms"
    then show "\<not> ms_isCollecting ms \<and> ms_Data ms = []"
      using d st by (cases "x = ?sid") (auto simp: delivered_def in_step_def quiet_def)
  qed
  ultimately show ?thesis using st d by (simp add: in_step_def delivered_def)
qed

text \<open>What the packer can represent: a payload of 1 to 16777215 bytes, a time that needs no
  extension field and, relative to the last message of the chunk stream, a delta that needs none.\<close>

definition sendable :: "ChunkPacker \<Rightarrow> Message \<Rightarrow> bool" where
  "sendable p m \<longleftrightarrow>
     Payload m \<noteq> [] \<and> length (Payload m) < 2 ^ 24 \<and>
     (MessageType m \<in> {1, 2, 3, 4, 5, 6} \<longrightarrow> StreamID m = 0) \<and>
     Timestamp m \<le> 0xffffff \<and> sent_delta (sendStreams p (csid_m m)) m < 0xffffff"

text \<open>The time the receiver attaches to the message.\<close>

definition delivered_time :: "ChunkPacker \<Rightarrow> ChunkUnpacker \<Rightarrow> Message \<Rightarrow> u32" where
  "delivered_time p u m =
     (let e = sendStreams p (csid_m m); f = chosen_format e m in
      case streams u (csid_m m) of None \<Rightarrow> 0
      | Some r \<Rightarrow> if f = 0 then 0
          else if f = 3 then mh_timestamp (cs_hdr r)
          else sent_delta e m + mh_timestamp (cs_hdr r))"

lemma csid_of_range: "2 \<le> csid_of t" "csid_of t < 64"
  by (simp_all add: csid_of_def word_le_nat_alt word_less_nat_alt)

lemma ctrl_types:
  assumes "0 < t" "t < (7 :: byte)"
  shows "t \<in> {1, 2, 3, 4, 5, 6}"
proof -
  define k where "k = unat t"
  have "k \<in> {1, 2, 3, 4, 5, 6}" using assms by (auto simp: word_less_nat_alt k_def)
  moreover have "t = of_nat k" by (simp add: k_def)
  ultimately show ?thesis by auto
qed

lemma admitted_sendable:
  "MessageType m \<in> {1, 2, 3, 4, 5, 6} \<longrightarrow> StreamID m = 0 \<Longrightarrow>
   admitted (csid_m m) (StreamID m) (MessageType m)"
  using ctrl_types [of "MessageType m"] csid_of_range [of "MessageType m"]
  by (auto simp: admitted_def csid_of_def)

lemma parses_I:
  assumes "2 \<le> csid" "csid < 64" "f < 4"
    and "\<And>r. readChunkMessageHeader (hdr @ r) f = Inr (h, r)"
  shows "parses (serializerChunkBasicHeader f csid @ hdr) \<lparr>bh_format = f, bh_chunkStreamID = csid\<rparr> h"
  using basic_header_roundtrip [OF assms(1-3)] assms(4) by (simp add: parses_def)

text \<open>The header a receiver reads from the first chunk.\<close>

definition first_hdr :: "ChunkStream option \<Rightarrow> Message \<Rightarrow> ChunkMessageHeader" where
  "first_hdr e m =
     (let f = chosen_format e m; h = type0_hdr m in
      if f = 0 then zero_hdr\<lparr>mh_messageLength := mh_messageLength h,
             mh_messageTypeID := mh_messageTypeID h, mh_messageStreamID := mh_messageStreamID h\<rparr>
      else if f = 1 then zero_hdr\<lparr>mh_timestamp := sent_delta e m,
             mh_messageLength := mh_messageLength h, mh_messageTypeID := mh_messageTypeID h\<rparr>
      else if f = 2 then zero_hdr\<lparr>mh_timestamp := sent_delta e m,
             mh_timestampExted := (0xffffff \<le> sent_delta e m)\<rparr>
      else zero_hdr)"

lemma chosen_format_range: "chosen_format e m = 0 \<or> chosen_format e m = 1 \<or>
    chosen_format e m = 2 \<or> chosen_format e m = 3"
  by (simp add: chosen_format_def Let_def split: option.split)

lemma zero_hdr_sel [simp]:
  "mh_timestamp zero_hdr = 0" "mh_messageLength zero_hdr = 0" "mh_messageTypeID zero_hdr = 0"
  "mh_messageStreamID zero_hdr = 0" "zero_hdr\<lparr>mh_timestamp := 0\<rparr> = zero_hdr"
  by (simp_all add: zero_hdr_def)

lemma payload_length_24:
  "length pl < 2 ^ 24 \<Longrightarrow> take_bit 24 (of_nat (length pl) :: u32) = of_nat (length pl)"
  by (rule take_bit_id) (simp_all add: word_less_nat_alt unsigned_of_nat take_bit_nat_eq_self)

lemma type0_prefix_parses:
  assumes "length (Payload m) < 2 ^ 24" "Timestamp m \<le> 0xffffff"
  shows "parses (serializerChunkBasicHeader 0 (csid_m m) @ serializerChunkMessageHeader (type0_hdr m))
    \<lparr>bh_format = 0, bh_chunkStreamID = csid_m m\<rparr>
    (zero_hdr\<lparr>mh_messageLength := of_nat (length (Payload m)), mh_messageTypeID := MessageType m,
      mh_messageStreamID := StreamID m\<rparr>)"
  using readChunkMessageHeader_type0 [of "type0_hdr m"] assms payload_length_24 [OF assms(1)]
  by (intro parses_I csid_of_range) (simp_all add: not_less [symmetric] zero_hdr_def)

lemma first_prefix_parses:
  assumes "sendable p m" and e: "e = sendStreams p (csid_m m)"
  shows "parses (first_prefix e m) \<lparr>bh_format = chosen_format e m, bh_chunkStreamID = csid_m m\<rparr>
    (first_hdr e m)"
proof -
  have len: "take_bit 24 (of_nat (length (Payload m)) :: u32) = of_nat (length (Payload m))"
    and ts: "\<not> 0xffffff < Timestamp m" and d: "sent_delta e m < 0xffffff"
    using assms payload_length_24 by (auto simp: sendable_def)
  consider "chosen_format e m = 0" | "chosen_format e m = 1" | "chosen_format e m = 2"
    | "chosen_format e m = 3" using chosen_format_range by blast
  then show ?thesis
  proof cases
    case 1
    then show ?thesis using type0_prefix_parses [of m] assms(1)
      by (simp add: first_prefix_def first_hdr_def sendable_def)
  next
    case 2
    then show ?thesis
      using parses_I [OF csid_of_range, of 1 _ _ "MessageType m"] len ts d
        readChunkMessageHeader_type1 [of "type0_hdr m\<lparr>mh_timeDelta := sent_delta e m\<rparr>"]
      by (simp add: first_prefix_def first_hdr_def Let_def)
  next
    case 3
    then show ?thesis
      using parses_I [OF csid_of_range, of 2 _ _ "MessageType m"]
        readChunkMessageHeader_type2 [of "sent_delta e m"]
      by (simp add: first_prefix_def first_hdr_def Let_def)
  next
    case 4
    then show ?thesis
      using parses_I [OF csid_of_range, of 3 "[]" zero_hdr "MessageType m"]
      by (simp add: first_prefix_def first_hdr_def Let_def)
  qed
qed

lemma rest_prefix_continues:
  assumes "sendable p m"
  shows "continues (rest_prefix m) (csid_m m) (StreamID m)"
proof (cases "proto_ctrl m")
  case True
  then show ?thesis using type0_prefix_parses [of m] assms
    by (auto simp: continues_def rest_prefix_def sendable_def
        intro!: exI [of _ "\<lparr>bh_format = 0, bh_chunkStreamID = csid_m m\<rparr>"])
next
  case False
  then show ?thesis using parses_I [OF csid_of_range, of 3 "[]" zero_hdr "MessageType m"]
    by (auto simp: continues_def rest_prefix_def
        intro!: exI [of _ "\<lparr>bh_format = 3, bh_chunkStreamID = csid_m m\<rparr>"])
qed

lemma open_first:
  assumes st: "in_step p u" and e: "e = sendStreams p (csid_m m)"
    and cs: "cs = (case streams u (csid_m m) of Some cs \<Rightarrow> cs | None \<Rightarrow> new_ChunkStream (csid_m m))"
  shows "\<exists>h1 cs1. open_message \<lparr>bh_format = chosen_format e m, bh_chunkStreamID = csid_m m\<rparr>
        (first_hdr e m) cs = (h1, cs1) \<and> cs_remain cs = 0 \<and>
      mh_messageStreamID h1 = StreamID m \<and> mh_messageTypeID h1 = MessageType m \<and>
      mh_timestamp h1 = delivered_time p u m \<and> mh_messageLength h1 = of_nat (length (Payload m)) \<and>
      cs_remain cs1 = of_nat (length (Payload m)) \<and>
      mh_messageStreamID (cs_hdr cs1) = mh_messageStreamID (next_hdr e m) \<and>
      mh_messageLength (cs_hdr cs1) = mh_messageLength (next_hdr e m) \<and>
      mh_messageTypeID (cs_hdr cs1) = mh_messageTypeID (next_hdr e m) \<and>
      mh_messageStreamID (next_hdr e m) = StreamID m \<and>
      mh_timestamp (cs_hdr cs1) = delivered_time p u m \<and>
      idle (mc_streams (messageCollector u) (StreamID m)) (chosen_format e m)"
proof (cases e)
  have pr: "paired (messageCollector u) e (streams u (csid_m m))" and q: "quiet (messageCollector u)"
    using st e by (auto simp: in_step_def)
  case None
  moreover from this have "streams u (csid_m m) = None" using pr by simp
  moreover have "idle (mc_streams (messageCollector u) (StreamID m)) 0"
    using q by (auto simp: quiet_def idle_def split: option.splits)
  ultimately show ?thesis using cs e
    by (simp add: chosen_format_def first_hdr_def open_message_def next_hdr_def delivered_time_def
        new_ChunkStream_def)
next
  have pr: "paired (messageCollector u) e (streams u (csid_m m))" and q: "quiet (messageCollector u)"
    using st e by (auto simp: in_step_def)
  case (Some s)
  then obtain r where r: "streams u (csid_m m) = Some r" "cs_remain r = 0"
    "mh_messageStreamID (cs_hdr r) = mh_messageStreamID (cs_hdr s)"
    "mh_messageLength (cs_hdr r) = mh_messageLength (cs_hdr s)"
    "mh_messageTypeID (cs_hdr r) = mh_messageTypeID (cs_hdr s)"
    "mc_streams (messageCollector u) (mh_messageStreamID (cs_hdr s)) \<noteq> None"
    using pr by auto
  have "chosen_format e m \<noteq> 0 \<Longrightarrow> mh_messageStreamID (cs_hdr s) = StreamID m"
    by (auto simp: chosen_format_def Some Let_def split: if_splits)
  then have "idle (mc_streams (messageCollector u) (StreamID m)) (chosen_format e m)"
    using r(6) q by (cases "chosen_format e m = 0") (auto simp: quiet_def idle_def split: option.split)
  then show ?thesis using r cs Some e
    by (simp add: chosen_format_def first_hdr_def open_message_def next_hdr_def delivered_time_def Let_def)
qed

text \<open>One message: written, read back, and the two ends in step again.\<close>

lemma transport_one:
  assumes st: "in_step p u" and m: "sendable p m"
  shows "\<exists>w p'. WriteMessage p m = Inr (w, p') \<and>
    (\<forall>r. \<exists>u'. getRtmpMessage u (w @ r) = Inr (m\<lparr>Timestamp := delivered_time p u m\<rparr>, u', r) \<and>
       in_step p' u')"
proof -
  define e where "e = sendStreams p (csid_m m)"
  define cs where "cs = (case streams u (csid_m m) of Some cs \<Rightarrow> cs | None \<Rightarrow> new_ChunkStream (csid_m m))"
  let ?n = "unat (chunkSize u)"
  have sz: "sendChunkSize p = chunkSize u" "0 < chunkSize u" using st by (simp_all add: in_step_def)
  have pl: "Payload m \<noteq> []" "length (Payload m) < 2 ^ 32"
    and ok: "MessageType m \<in> {1, 2, 3, 4, 5, 6} \<longrightarrow> StreamID m = 0"
    using m by (simp_all add: sendable_def)
  obtain s' where w: "WriteMessage p m = Inr (first_prefix e m @ take ?n (Payload m) @
      concat (map ((@) (rest_prefix m)) (pieces ?n (drop ?n (Payload m)))), set_stream p (csid_m m) s')"
    and s': "cs_hdr s' = next_hdr e m"
    using WriteMessage_bytes [of p m] sz pl ok by (auto simp: e_def)
  obtain h1 cs1 where o: "open_message \<lparr>bh_format = chosen_format e m, bh_chunkStreamID = csid_m m\<rparr>
        (first_hdr e m) cs = (h1, cs1)" "cs_remain cs = 0"
      "mh_messageStreamID h1 = StreamID m" "mh_messageTypeID h1 = MessageType m"
      "mh_timestamp h1 = delivered_time p u m" "mh_messageLength h1 = of_nat (length (Payload m))"
      "cs_remain cs1 = of_nat (length (Payload m))"
      "mh_messageStreamID (cs_hdr cs1) = mh_messageStreamID (next_hdr e m)"
      "mh_messageLength (cs_hdr cs1) = mh_messageLength (next_hdr e m)"
      "mh_messageTypeID (cs_hdr cs1) = mh_messageTypeID (next_hdr e m)"
      "mh_messageStreamID (next_hdr e m) = StreamID m"
      "idle (mc_streams (messageCollector u) (StreamID m)) (chosen_format e m)"
    using open_first [OF st e_def cs_def] by blast
  have step: "in_step (set_stream p (csid_m m) s') u'"
    if "delivered u (csid_m m) (StreamID m) (cs_hdr cs1) u'" for u'
    using in_step_delivered [OF st, of "csid_m m" s' "cs_hdr cs1" u'] that s' o(8-11) by simp
  have "\<exists>u'. getRtmpMessage u ((first_prefix e m @ take ?n (Payload m) @
      concat (map ((@) (rest_prefix m)) (pieces ?n (drop ?n (Payload m))))) @ r) =
      Inr (m\<lparr>Timestamp := delivered_time p u m\<rparr>, u', r) \<and> in_step (set_stream p (csid_m m) s') u'" for r
    using deliver_message [where u = u and pl = "Payload m" and p = "rest_prefix m" and r = r,
        OF first_prefix_parses [OF m e_def] _ _ o(2,1,3)]
      o(4-12) cs_def pl sz(2) rest_prefix_continues [OF m] admitted_sendable [OF ok] step
    by (auto simp: unat_gt_0 word_gt_0)
  with w show ?thesis by blast
qed

section \<open>Sequences of messages\<close>

fun send_all :: "('s \<Rightarrow> 'm \<Rightarrow> (bytes \<times> 's) res) \<Rightarrow> 's \<Rightarrow> 'm list \<Rightarrow> (bytes \<times> 's) res" where
  "send_all send s [] = Inr ([], s)"
| "send_all send s (m # ms) =
     bindE (send s m) (\<lambda>(w, s). bindE (send_all send s ms) (\<lambda>(ws, s). Inr (w @ ws, s)))"

fun recv_n ::
  "('r \<Rightarrow> bytes \<Rightarrow> ('m \<times> 'r \<times> bytes) res) \<Rightarrow> nat \<Rightarrow> 'r \<Rightarrow> bytes \<Rightarrow> ('m list \<times> 'r \<times> bytes) res" where
  "recv_n recv 0 u r = Inr ([], u, r)"
| "recv_n recv (Suc n) u r =
     bindE (recv u r) (\<lambda>(m, u, r). bindE (recv_n recv n u r) (\<lambda>(ms, u, r). Inr (m # ms, u, r)))"

fun all_ok :: "('s \<Rightarrow> 'm \<Rightarrow> (bytes \<times> 's) res) \<Rightarrow> ('s \<Rightarrow> 'm \<Rightarrow> bool) \<Rightarrow> 's \<Rightarrow> 'm list \<Rightarrow> bool" where
  "all_ok send ok s [] \<longleftrightarrow> True"
| "all_ok send ok s (m # ms) \<longleftrightarrow> ok s m \<and>
     (case send s m of Inl e \<Rightarrow> False | Inr (w, s') \<Rightarrow> all_ok send ok s' ms)"

text \<open>
  The contract of a sender and a receiver of messages over a byte stream: one message is carried
  over and the ends stay in step, whatever bytes follow.  Any number of messages is then carried
  over in order, with nothing lost, added or left behind.
\<close>

locale message_transport =
  fixes send :: "'s \<Rightarrow> 'm \<Rightarrow> (bytes \<times> 's) res"
    and recv :: "'r \<Rightarrow> bytes \<Rightarrow> ('m \<times> 'r \<times> bytes) res"
    and step :: "'s \<Rightarrow> 'r \<Rightarrow> bool"
    and ok :: "'s \<Rightarrow> 'm \<Rightarrow> bool"
    and same :: "'m \<Rightarrow> 'm \<Rightarrow> bool"
  assumes carry: "step s u \<Longrightarrow> ok s m \<Longrightarrow> \<exists>w s'. send s m = Inr (w, s') \<and>
      (\<forall>r. \<exists>m' u'. recv u (w @ r) = Inr (m', u', r) \<and> same m m' \<and> step s' u')"
begin

lemma carry_all:
  assumes "step s u" "all_ok send ok s ms"
  shows "\<exists>w s'. send_all send s ms = Inr (w, s') \<and>
    (\<forall>r. \<exists>ms' u'. recv_n recv (length ms) u (w @ r) = Inr (ms', u', r) \<and>
       list_all2 same ms ms' \<and> step s' u')"
  using assms
proof (induction ms arbitrary: s u)
  case (Cons m ms)
  have "ok s m" using Cons.prems(2) by simp
  from carry [OF Cons.prems(1) this] obtain w s' where
    w: "send s m = Inr (w, s')" and
    r: "\<And>r. \<exists>m' u'. recv u (w @ r) = Inr (m', u', r) \<and> same m m' \<and> step s' u'" by blast
  have ok: "all_ok send ok s' ms" using Cons.prems(2) w by simp
  from r [of "[]"] obtain u0 where "step s' u0" by blast
  from Cons.IH [OF this ok] obtain ws s2 where ws: "send_all send s' ms = Inr (ws, s2)" by blast
  have "\<exists>ms' u'. recv_n recv (length (m # ms)) u ((w @ ws) @ r) = Inr (ms', u', r) \<and>
      list_all2 same (m # ms) ms' \<and> step s2 u'" for r
  proof -
    from r [of "ws @ r"] obtain m' u1 where
      1: "recv u (w @ ws @ r) = Inr (m', u1, ws @ r)" "same m m'" "step s' u1" by blast
    from Cons.IH [OF 1(3) ok] ws obtain ms' u' where
      "recv_n recv (length ms) u1 (ws @ r) = Inr (ms', u', r)" "list_all2 same ms ms'" "step s2 u'"
      by fastforce
    with 1 show ?thesis by auto
  qed
  with w ws show ?case by simp
qed auto

lemma send_all_total: "step s u \<Longrightarrow> all_ok send ok s ms \<Longrightarrow> \<exists>w s'. send_all send s ms = Inr (w, s')"
  using carry_all by blast

end

definition same_message :: "Message \<Rightarrow> Message \<Rightarrow> bool" where
  "same_message m m' \<longleftrightarrow> MessageType m' = MessageType m \<and> StreamID m' = StreamID m \<and>
     Payload m' = Payload m"

interpretation rtmp: message_transport WriteMessage getRtmpMessage in_step sendable same_message
proof
  fix p u m assume "in_step p u" "sendable p m"
  from transport_one [OF this] show "\<exists>w s'. WriteMessage p m = Inr (w, s') \<and>
      (\<forall>r. \<exists>m' u'. getRtmpMessage u (w @ r) = Inr (m', u', r) \<and> same_message m m' \<and> in_step s' u')"
    by (fastforce simp: same_message_def)
qed

lemma in_step_new: "in_step NewChunkPacker NewChunkUnpacker"
  by (simp add: in_step_def NewChunkPacker_def NewChunkUnpacker_def NewMessageCollector_def quiet_def)

text \<open>A static condition on a sequence of messages that makes every one of them sendable.\<close>

definition representable :: "Message \<Rightarrow> bool" where
  "representable m \<longleftrightarrow> Payload m \<noteq> [] \<and> length (Payload m) < 2 ^ 24 \<and>
     (MessageType m \<in> {1, 2, 3, 4, 5, 6} \<longrightarrow> StreamID m = 0) \<and> Timestamp m < 0xffffff"

fun times_ordered :: "Message list \<Rightarrow> bool" where
  "times_ordered [] \<longleftrightarrow> True"
| "times_ordered (m # ms) \<longleftrightarrow>
     (\<forall>x\<in>set ms. csid_m x = csid_m m \<longrightarrow> Timestamp m \<le> Timestamp x) \<and> times_ordered ms"

lemma next_hdr_timestamp:
  "mh_timestamp (next_hdr e m) = Timestamp m \<or>
   (\<exists>s. e = Some s \<and> mh_timestamp (next_hdr e m) = mh_timestamp (cs_hdr s))"
  by (auto simp: next_hdr_def Let_def split: option.split)

lemma small_delta: "(s :: u32) \<le> t \<Longrightarrow> t < 0xffffff \<Longrightarrow> t - s < 0xffffff"
  by unat_arith

lemma all_sendable:
  assumes "in_step p u" "\<forall>m\<in>set ms. representable m" "times_ordered ms"
    and "\<forall>m\<in>set ms. \<forall>s. sendStreams p (csid_m m) = Some s \<longrightarrow> mh_timestamp (cs_hdr s) \<le> Timestamp m"
  shows "all_ok WriteMessage sendable p ms"
  using assms
proof (induction ms arbitrary: p u)
  case (Cons m ms)
  let ?e = "sendStreams p (csid_m m)"
  have rm: "representable m" using Cons.prems(2) by simp
  have "sent_delta ?e m < 0xffffff"
    using Cons.prems(4) rm by (auto simp: sent_delta_def representable_def intro: small_delta split: option.split)
  moreover have "Timestamp m \<le> 0xffffff" using rm by (auto simp: representable_def intro: less_imp_le)
  ultimately have sd: "sendable p m" using rm by (simp add: sendable_def representable_def)
  obtain w p' where w: "WriteMessage p m = Inr (w, p')"
    and st: "\<exists>u'. in_step p' u'" using transport_one [OF Cons.prems(1) sd] by blast
  obtain s' where p': "p' = set_stream p (csid_m m) s'" "cs_hdr s' = next_hdr ?e m"
    using WriteMessage_bytes [of p m] w Cons.prems(1) sd by (auto simp: in_step_def sendable_def)
  have "mh_timestamp (next_hdr ?e m) \<le> Timestamp m"
    using next_hdr_timestamp [of ?e m] Cons.prems(4) by auto
  then have "mh_timestamp (cs_hdr s) \<le> Timestamp x"
    if "x \<in> set ms" "sendStreams p' (csid_m x) = Some s" for x s
    using that Cons.prems(3,4) p'
    by (cases "csid_m x = csid_m m") (auto intro: order_trans)
  then show ?case using Cons.IH [of p'] st Cons.prems(2,3) w sd by auto
qed simp

text \<open>C1: Everything a fresh packer writes, a fresh unpacker reads back: for every sequence of
  messages with payloads of 1 to 16777215 bytes, times below 16777215 that do not decrease on a chunk
  stream, and stream id 0 on protocol control messages, WriteMessage succeeds on each, and
  getRtmpMessage, called once per message on the bytes written (followed by anything), returns the
  messages in order with the same type, stream id and payload and stops exactly at what follows.\<close>

theorem messages_roundtrip:
  assumes "\<forall>m\<in>set ms. representable m" and "times_ordered ms"
  shows "\<exists>w p'. send_all WriteMessage NewChunkPacker ms = Inr (w, p') \<and>
    (\<forall>r. \<exists>ms' u'. recv_n getRtmpMessage (length ms) NewChunkUnpacker (w @ r) = Inr (ms', u', r) \<and>
       list_all2 same_message ms ms' \<and> in_step p' u')"
proof (rule rtmp.carry_all [OF in_step_new])
  show "all_ok WriteMessage sendable NewChunkPacker ms"
    using assms by (intro all_sendable [OF in_step_new]) (simp_all add: NewChunkPacker_def)
qed

definition demo_messages :: "Message list" where
  "demo_messages =
     [\<lparr>MessageType = 0x14, Timestamp = 0, StreamID = 0, Payload = [2, 0, 0]\<rparr>,
      \<lparr>MessageType = 9, Timestamp = 40, StreamID = 1, Payload = replicate 300 7\<rparr>,
      \<lparr>MessageType = 9, Timestamp = 80, StreamID = 1, Payload = replicate 129 8\<rparr>,
      \<lparr>MessageType = 1, Timestamp = 0, StreamID = 0, Payload = [0, 0, 16, 0]\<rparr>]"

theorem messages_roundtrip_witness:
  "list_all representable demo_messages \<and> times_ordered demo_messages \<and>
   (\<exists>w p'. send_all WriteMessage NewChunkPacker demo_messages = Inr (w, p') \<and>
    (\<forall>r. \<exists>ms' u'. recv_n getRtmpMessage 4 NewChunkUnpacker (w @ r) = Inr (ms', u', r) \<and>
       list_all2 same_message demo_messages ms' \<and> in_step p' u'))"
proof -
  have r: "\<forall>m\<in>set demo_messages. representable m" and t: "times_ordered demo_messages"
    by (simp_all add: demo_messages_def representable_def csid_of_def)
  have "length demo_messages = 4" by (simp add: demo_messages_def)
  with messages_roundtrip [OF r t] r t show ?thesis by (simp add: list_all_iff)
qed

section \<open>Times\<close>

text \<open>C2: The time the receiver attaches to a message that continues a chunk stream: it advances by
  the difference of the sender's times, except when the packer repeats a header because the
  difference equals the previous one, where it stays at the time of the message before.\<close>

theorem delivered_time_advances:
  assumes "in_step p u" and "sendable p m"
    and s: "sendStreams p (csid_m m) = Some s" and r: "streams u (csid_m m) = Some r"
    and "\<not> proto_ctrl m" "mh_messageStreamID (cs_hdr s) = StreamID m"
  shows "\<exists>w p' u'. WriteMessage p m = Inr (w, p') \<and>
    getRtmpMessage u w = Inr (m\<lparr>Timestamp :=
      (if mh_timeDelta (cs_hdr s) = Timestamp m - mh_timestamp (cs_hdr s) \<and>
          mh_messageLength (cs_hdr s) = of_nat (length (Payload m)) \<and>
          mh_messageTypeID (cs_hdr s) = MessageType m
       then mh_timestamp (cs_hdr r)
       else mh_timestamp (cs_hdr r) + (Timestamp m - mh_timestamp (cs_hdr s)))\<rparr>, u', [])"
proof -
  have "delivered_time p u m =
      (if mh_timeDelta (cs_hdr s) = Timestamp m - mh_timestamp (cs_hdr s) \<and>
          mh_messageLength (cs_hdr s) = of_nat (length (Payload m)) \<and>
          mh_messageTypeID (cs_hdr s) = MessageType m
       then mh_timestamp (cs_hdr r)
       else mh_timestamp (cs_hdr r) + (Timestamp m - mh_timestamp (cs_hdr s)))"
    using assms(5,6) by (simp add: delivered_time_def chosen_format_def sent_delta_def s r Let_def)
  moreover from transport_one [OF assms(1,2)] obtain w p' u' where "WriteMessage p m = Inr (w, p')"
    "getRtmpMessage u (w @ []) = Inr (m\<lparr>Timestamp := delivered_time p u m\<rparr>, u', [])" by blast
  ultimately show ?thesis by (intro exI [of _ w] exI [of _ p'] exI [of _ u']) simp
qed

text \<open>An audio chunk stream after one frame at time 0 and one at time 40, at both ends.\<close>

definition demo_hdr :: "u32 \<Rightarrow> u32 \<Rightarrow> ChunkMessageHeader" where
  "demo_hdr ts delta = \<lparr>mh_timestamp = ts, mh_messageLength = 3, mh_messageTypeID = 8,
     mh_timestampExted = False, mh_timeDelta = delta, mh_messageStreamID = 1\<rparr>"

definition demo_packer :: ChunkPacker where
  "demo_packer = set_stream NewChunkPacker 4 (new_ChunkStream 4\<lparr>cs_hdr := demo_hdr 40 40\<rparr>)"

definition demo_unpacker :: ChunkUnpacker where
  "demo_unpacker = NewChunkUnpacker\<lparr>streams := [4 \<mapsto> new_ChunkStream 4\<lparr>cs_hdr := demo_hdr 40 0\<rparr>],
     messageCollector := \<lparr>mc_streams = [1 \<mapsto> new_MessageStream]\<rparr>\<rparr>"

definition demo_frame :: "u32 \<Rightarrow> Message" where
  "demo_frame t = \<lparr>MessageType = 8, Timestamp = t, StreamID = 1, Payload = [1, 2, 3]\<rparr>"

theorem delivered_time_advances_witness:
  "\<exists>w p' u'. WriteMessage demo_packer (demo_frame 80) = Inr (w, p') \<and>
     getRtmpMessage demo_unpacker w = Inr (demo_frame 40, u', [])"
proof -
  have st: "in_step demo_packer demo_unpacker"
    by (auto simp: in_step_def demo_packer_def demo_unpacker_def NewChunkPacker_def
        NewChunkUnpacker_def demo_hdr_def new_ChunkStream_def new_MessageStream_def quiet_def)
  have sd: "sendable demo_packer (demo_frame 80)"
    by (simp add: sendable_def demo_packer_def demo_frame_def csid_of_def NewChunkPacker_def
        sent_delta_def demo_hdr_def)
  have c: "csid_m (demo_frame 80) = 4" "\<not> proto_ctrl (demo_frame 80)"
    by (simp_all add: demo_frame_def csid_of_def proto_ctrl_def)
  from delivered_time_advances [OF st sd, of "new_ChunkStream 4\<lparr>cs_hdr := demo_hdr 40 40\<rparr>"
      "new_ChunkStream 4\<lparr>cs_hdr := demo_hdr 40 0\<rparr>"] c
  show ?thesis
    by (simp add: demo_packer_def demo_unpacker_def demo_hdr_def demo_frame_def)
qed

text \<open>Consequences on whole runs: frames sent at 0, 40, 80 arrive at 0, 40, 40; the first message of
  a chunk stream arrives at time 0 whatever its time was.\<close>

abbreviation run :: "Message list \<Rightarrow> Message list res" where
  "run ms \<equiv> bindE (send_all WriteMessage NewChunkPacker ms) (\<lambda>(w, p).
     bindE (recv_n getRtmpMessage (length ms) NewChunkUnpacker w) (\<lambda>(ms', u, r). Inr ms'))"

lemma stale_time: "run [demo_frame 0, demo_frame 40, demo_frame 80] =
    Inr [demo_frame 0, demo_frame 40, demo_frame 40]"
  by code_simp

lemma first_time_lost: "run [demo_frame 5000] = Inr [demo_frame 0]"
  by code_simp

text \<open>A time above 16777215 puts four bytes into the stream that the receiver takes for data.\<close>

lemma extended_time_desync:
  "run [\<lparr>MessageType = 8, Timestamp = 0x1000000, StreamID = 1, Payload = [9, 9, 9, 9]\<rparr>] =
   Inr [\<lparr>MessageType = 8, Timestamp = 0, StreamID = 1, Payload = [1, 0, 0, 0]\<rparr>]"
  by code_simp

section \<open>What the unpacker guarantees on arbitrary input\<close>

lemma getRtmpMessage_Inr:
  "getRtmpMessage u r = Inr (m, u', r') \<Longrightarrow>
   length r' < length r \<and> (0 < MessageType m \<and> MessageType m < 7 \<longrightarrow> StreamID m = 0)"
proof (induction u r arbitrary: m u' r' rule: getRtmpMessage.induct)
  case (1 h r)
  from "1.prems" obtain chunk h1 r1 msg mc where
    rd: "ReadChunk h r = Inr (chunk, h1, r1)"
    and hc: "HandleReceiveChunk (messageCollector h1) chunk = Inr (msg, mc)"
    and k: "\<not> bh_chunkStreamID (ch_basic chunk) < 2"
    by (subst (asm) getRtmpMessage.simps) (auto simp: bindE_eq_Inr Let_def failIf_eq_Inr)
  note eq = getRtmpMessage.simps [of h r] rd hc k
  show ?case
  proof (cases msg)
    case None
    then have "getRtmpMessage (h1\<lparr>messageCollector := mc\<rparr>) r1 = Inr (m, u', r')"
      using "1.prems" eq by simp
    from "1.IH" [OF rd refl refl hc refl refl refl None this] ReadChunk_shrinks [OF rd]
    show ?thesis by auto
  next
    case (Some m')
    then have "m' = m" "r1 = r'" "0 < MessageType m \<and> MessageType m < 7 \<longrightarrow> StreamID m = 0"
      using "1.prems" eq by (auto simp: failIf_eq_Inr)
    then show ?thesis using ReadChunk_shrinks [OF rd] by simp
  qed
qed

text \<open>C12: Whatever a peer sends, a message that getRtmpMessage returns has consumed input, and a
  message of a protocol control type (1 to 6) has message stream id 0.\<close>

theorem unpacker_safe:
  assumes "getRtmpMessage u r = Inr (m, u', r')"
  shows "length r' < length r \<and> (MessageType m \<in> {1, 2, 3, 4, 5, 6} \<longrightarrow> StreamID m = 0)"
  using getRtmpMessage_Inr [OF assms] by (auto simp: word_less_nat_alt)

definition demo_ctrl_bytes :: bytes where
  "demo_ctrl_bytes = [2, 0, 0, 0, 0, 0, 4, 1, 0, 0, 0, 0, 0, 0, 16, 0, 99]"

theorem unpacker_safe_witness:
  "\<exists>m u'. getRtmpMessage NewChunkUnpacker demo_ctrl_bytes = Inr (m, u', [99]) \<and>
     MessageType m = 1 \<and> length [99 :: byte] < length demo_ctrl_bytes \<and> StreamID m = 0"
proof -
  have "bindE (getRtmpMessage NewChunkUnpacker demo_ctrl_bytes) (\<lambda>(m, u, r). Inr (MessageType m, r)) =
      Inr (1, [99])"
    by code_simp
  then obtain m u' where m: "getRtmpMessage NewChunkUnpacker demo_ctrl_bytes = Inr (m, u', [99])"
    "MessageType m = 1" by (auto simp: bindE_eq_Inr)
  with unpacker_safe [OF m(1)] show ?thesis by auto
qed

text \<open>A single byte takes the receiver down: on a fresh connection a chunk of format 3 on any chunk
  stream 2 to 63 (byte 0xC0 or the chunk stream id) makes getRtmpMessage panic in the collector,
  whatever follows.\<close>

theorem fresh_format3_panics:
  assumes "2 \<le> csid" "csid < 64"
  shows "getRtmpMessage NewChunkUnpacker ((0xC0 OR ucast (csid :: u32)) # r) =
    Inl (Panic ''first msg in msg strean format not zero'')"
proof -
  have "serializerChunkBasicHeader 3 csid @ [] = [0xC0 OR ucast csid]"
    using assms by (simp add: serializerChunkBasicHeader_def)
  then have p: "parses [0xC0 OR ucast csid] \<lparr>bh_format = 3, bh_chunkStreamID = csid\<rparr> zero_hdr"
    using parses_I [OF assms, of 3 "[]" zero_hdr] by simp
  have new: "cs_remain (new_ChunkStream csid) = 0" "cs_hdr (new_ChunkStream csid) = zero_hdr"
      "new_ChunkStream csid\<lparr>cs_remain := 0\<rparr> = new_ChunkStream csid"
      "zero_hdr\<lparr>mh_messageStreamID := 0\<rparr> = zero_hdr"
      "streams NewChunkUnpacker = (\<lambda>_. None)"
    by (simp_all add: new_ChunkStream_def zero_hdr_def NewChunkUnpacker_def)
  have op: "open_message \<lparr>bh_format = 3, bh_chunkStreamID = csid\<rparr> zero_hdr (new_ChunkStream csid) =
      (zero_hdr, new_ChunkStream csid)"
    by (simp add: open_message_def new_ChunkStream_def zero_hdr_def Let_def)
  have "ReadChunk NewChunkUnpacker ([0xC0 OR ucast csid] @ [] @ r) =
      Inr (\<lparr>ch_basic = \<lparr>bh_format = 3, bh_chunkStreamID = csid\<rparr>, ch_hdr = zero_hdr, ch_data = []\<rparr>,
        NewChunkUnpacker\<lparr>streams := [csid \<mapsto> new_ChunkStream csid]\<rparr>, r)"
    using parses_ReadChunk [where u = NewChunkUnpacker and ?h1.0 = zero_hdr and d = "[]" and r = r
        and ?cs1.0 = "new_ChunkStream csid", OF p refl refl] op new by simp
  then show ?thesis
    by (subst getRtmpMessage.simps)
      (simp add: HandleReceiveChunk_def NewChunkUnpacker_def NewMessageCollector_def)
qed

theorem fresh_format3_panics_witness:
  "getRtmpMessage NewChunkUnpacker [0xC3] = Inl (Panic ''first msg in msg strean format not zero'')"
  using fresh_format3_panics [of 3 "[]"] by simp

text \<open>The collector is keyed by the message stream, so chunks of two messages of one message stream
  that arrive interleaved on two chunk streams are mixed: audio (1,1,1,1) and video (2,2,2,2) with
  chunk size 2.\<close>

lemma interleaving_mixes:
  "bindE (getRtmpMessage (NewChunkUnpacker\<lparr>chunkSize := 2\<rparr>)
     ([4, 0, 0, 0, 0, 0, 4, 8, 1, 0, 0, 0, 1, 1] @ [6, 0, 0, 0, 0, 0, 4, 9, 1, 0, 0, 0, 2, 2] @
      [0xC4, 1, 1, 0xC6, 2, 2])) (\<lambda>(m, u, r). Inr (MessageType m, Payload m)) = Inr (8, [1, 1, 2, 2])"
  by code_simp

end
