(* ===== verification/BitReader.thy ===== *)
theory BitReader
  imports Golive_Prelude
begin

text \<open>
  \<open>utils/bitreader\<close>: reading a byte source as a stream of bits.  The reader keeps up to 64 bits in
  \<open>buffer\<close>, left-aligned, and the number of valid ones in \<open>remaining\<close>.  The source is a
  \<open>bytes.Reader\<close>.  An operation returns its result together with the reader, also when it fails,
  since a failed \<open>peek\<close> has filled the buffer.

  Abstractly the reader is a list of bits: the valid bits of the buffer followed by the bits of the
  source.  The invariant is \<open>bits_ok\<close>; the refinement lemmas say what each operation does to the list.
\<close>

section \<open>State and operations\<close>

record bitreader =
  br_r :: bytes
  br_buffer :: u64
  br_remaining :: nat

definition NewReader :: "bytes \<Rightarrow> bitreader" where
  "NewReader r = \<lparr>br_r = r, br_buffer = 0, br_remaining = 0\<rparr>"

definition checkEOF :: "go_error \<Rightarrow> go_error" where
  "checkEOF err = (if err = EOF then ErrUnexpectedEOF else err)"

text \<open>The loop of \<open>fill\<close> over the bytes read: byte \<open>i\<close> goes to position \<open>64 - 8 - (i << 3) - ir\<close>.\<close>

fun fill_loop :: "nat \<Rightarrow> nat \<Rightarrow> bytes \<Rightarrow> u64 \<Rightarrow> nat \<Rightarrow> u64 \<times> nat" where
  "fill_loop ir i [] buffer remaining = (buffer, remaining)"
| "fill_loop ir i (b # bs) buffer remaining =
     (let pos = 64 - 8 - 8 * i - ir in
      fill_loop ir (Suc i) bs (buffer OR push_bit pos (ucast b)) (remaining + 8))"

definition fill :: "bitreader \<Rightarrow> go_error option \<times> bitreader" where
  "fill br =
     (let total = (64 - br_remaining br) div 8 in
      case Read total (br_r br) of
        Inl err \<Rightarrow> (Some err, br)
      | Inr (raw, r) \<Rightarrow>
          let (buffer, remaining) = fill_loop (br_remaining br) 0 raw (br_buffer br) (br_remaining br)
          in (None, br\<lparr>br_r := r, br_buffer := buffer, br_remaining := remaining\<rparr>))"

text \<open>
  The loops of \<open>peek\<close> and \<open>skip\<close> call \<open>fill\<close>; when \<open>fill\<close> can take no byte (at most 7 bits free) it
  makes no progress, so the loops carry fuel.
\<close>

fun peek_fill :: "nat \<Rightarrow> nat \<Rightarrow> bitreader \<Rightarrow> go_error option \<times> bitreader" where
  "peek_fill 0 n br = (if br_remaining br < n then (Some Hang, br) else (None, br))"
| "peek_fill (Suc fuel) n br =
     (if br_remaining br < n then
        case fill br of (Some err, br) \<Rightarrow> (Some err, br) | (None, br) \<Rightarrow> peek_fill fuel n br
      else (None, br))"

definition peek :: "bitreader \<Rightarrow> nat \<Rightarrow> u64 res \<times> bitreader" where
  "peek br n =
     (if 56 < n \<and> br_remaining br mod 8 \<noteq> 0
      then (Inl (Errorf ''offset mismatch, can't fill the buffer with leftover-bytes''), br)
      else case peek_fill (Suc n) n br of
        (Some err, br) \<Rightarrow> (Inl err, br)
      | (None, br) \<Rightarrow>
          let dist = 64 - n; msk = push_bit dist (NOT 0)
          in (Inr (drop_bit dist (br_buffer br AND msk)), br))"

fun skip_f :: "nat \<Rightarrow> nat \<Rightarrow> bitreader \<Rightarrow> go_error option \<times> bitreader" where
  "skip_f 0 n br = (if 0 < n then (Some Hang, br) else (None, br))"
| "skip_f (Suc fuel) n br =
     (if 0 < n then
        let len = (if br_remaining br < n then br_remaining br else n);
            br = br\<lparr>br_buffer := push_bit len (br_buffer br), br_remaining := br_remaining br - len\<rparr>;
            n = n - len
        in if 0 < n then
             case fill br of (Some err, br) \<Rightarrow> (Some (checkEOF err), br) | (None, br) \<Rightarrow> skip_f fuel n br
           else skip_f fuel n br
      else (None, br))"

definition skip :: "bitreader \<Rightarrow> nat \<Rightarrow> go_error option \<times> bitreader" where
  "skip br n = skip_f (n + 2) n br"

text \<open>\<open>return val, br.skip(n)\<close>: the error of \<open>skip\<close> accompanies the value.\<close>

definition with_skip :: "'a \<Rightarrow> go_error option \<times> bitreader \<Rightarrow> 'a res \<times> bitreader" where
  "with_skip val s = (case s of (None, br) \<Rightarrow> (Inr val, br) | (Some err, br) \<Rightarrow> (Inl err, br))"

definition br_read :: "bitreader \<Rightarrow> nat \<Rightarrow> u64 res \<times> bitreader" where
  "br_read br n =
     (case peek br n of
        (Inl err, br) \<Rightarrow> (Inl (checkEOF err), br)
      | (Inr val, br) \<Rightarrow> with_skip val (skip br n))"

definition Skip :: "bitreader \<Rightarrow> nat \<Rightarrow> go_error option \<times> bitreader" where
  "Skip br n = skip br n"

definition IsAligned :: "bitreader \<Rightarrow> bool" where
  "IsAligned br \<longleftrightarrow> br_remaining br mod 8 = 0"

definition Align :: "bitreader \<Rightarrow> nat \<times> go_error option \<times> bitreader" where
  "Align br = (let n = br_remaining br mod 8 in (n, skip br n))"

definition Peek1 :: "bitreader \<Rightarrow> bool res \<times> bitreader" where
  "Peek1 br = (case peek br 1 of (Inl err, br) \<Rightarrow> (Inl err, br) | (Inr val, br) \<Rightarrow> (Inr (val = 1), br))"

text \<open>\<open>Read1\<close> returns false without an error when \<open>Peek1\<close> fails.\<close>

definition Read1 :: "bitreader \<Rightarrow> bool res \<times> bitreader" where
  "Read1 br = (case Peek1 br of
     (Inl err, br) \<Rightarrow> (Inr False, br)
   | (Inr val, br) \<Rightarrow> with_skip val (skip br 1))"

abbreviation overflow :: go_error where "overflow \<equiv> Errorf ''overflow''"

definition limited :: "nat \<Rightarrow> nat \<Rightarrow> bitreader \<Rightarrow> 'a res \<times> bitreader \<Rightarrow> 'a res \<times> bitreader" where
  "limited lim n br res = (if lim < n then (Inl overflow, br) else res)"

definition narrow :: "u64 res \<times> bitreader \<Rightarrow> 'a::len word res \<times> bitreader" where
  "narrow p = (map_sum id ucast (fst p), snd p)"

definition Read8 :: "bitreader \<Rightarrow> nat \<Rightarrow> byte res \<times> bitreader" where
  "Read8 br n = limited 8 n br (map_prod (map_sum checkEOF id) id (narrow (br_read br n)))"

definition Read16 :: "bitreader \<Rightarrow> nat \<Rightarrow> u16 res \<times> bitreader" where
  "Read16 br n = limited 16 n br (narrow (br_read br n))"

definition Read32 :: "bitreader \<Rightarrow> nat \<Rightarrow> u32 res \<times> bitreader" where
  "Read32 br n = limited 32 n br (narrow (br_read br n))"

definition Read64 :: "bitreader \<Rightarrow> nat \<Rightarrow> u64 res \<times> bitreader" where
  "Read64 br n = limited 64 n br (br_read br n)"

definition Peek8 :: "bitreader \<Rightarrow> nat \<Rightarrow> byte res \<times> bitreader" where
  "Peek8 br n = limited 8 n br (narrow (peek br n))"

definition Peek16 :: "bitreader \<Rightarrow> nat \<Rightarrow> u16 res \<times> bitreader" where
  "Peek16 br n = limited 8 n br (narrow (peek br n))"

definition Peek32 :: "bitreader \<Rightarrow> nat \<Rightarrow> u32 res \<times> bitreader" where
  "Peek32 br n = limited 32 n br (narrow (peek br n))"

definition Peek64 :: "bitreader \<Rightarrow> nat \<Rightarrow> u64 res \<times> bitreader" where
  "Peek64 br n = limited 64 n br (peek br n)"

text \<open>
  \<open>Read(p)\<close> for a buffer of \<open>m\<close> bytes: align, hand out the buffered bytes, then read the source.  The
  bytes stored in the buffer and the error returned with their number.
\<close>

fun read_bytes :: "nat \<Rightarrow> bitreader \<Rightarrow> bytes \<times> go_error option \<times> bitreader" where
  "read_bytes 0 br = ([], None, br)"
| "read_bytes (Suc k) br =
     (case Read8 br 8 of
        (Inl err, br) \<Rightarrow> ([], Some err, br)
      | (Inr v, br) \<Rightarrow> let (vs, err, br) = read_bytes k br in (v # vs, err, br))"

definition br_Read :: "bitreader \<Rightarrow> nat \<Rightarrow> bytes \<times> go_error option \<times> bitreader" where
  "br_Read br m =
     (let br = snd (snd (Align br)); count = min ((br_remaining br + 7) div 8) m;
          (vs, err, br) = read_bytes count br in
      if err \<noteq> None then (vs, err, br)
      else case Read (m - count) (br_r br) of
        Inl e \<Rightarrow> (vs, Some e, br)
      | Inr (raw, r) \<Rightarrow> (vs @ raw, None, br\<lparr>br_r := r\<rparr>))"

section \<open>The list of bits a reader stands for\<close>

definition byte_bits :: "byte \<Rightarrow> bool list" where
  "byte_bits b = map (\<lambda>i. bit b (7 - i)) [0..<8]"

definition buffer_bits :: "u64 \<Rightarrow> nat \<Rightarrow> bool list" where
  "buffer_bits w n = map (\<lambda>i. bit w (63 - i)) [0..<n]"

definition bits_of :: "bitreader \<Rightarrow> bool list" where
  "bits_of br = buffer_bits (br_buffer br) (br_remaining br) @ concat (map byte_bits (br_r br))"

definition bits_ok :: "bitreader \<Rightarrow> bool" where
  "bits_ok br \<longleftrightarrow> br_remaining br \<le> 64 \<and> take_bit (64 - br_remaining br) (br_buffer br) = 0"

text \<open>The number a list of bits stands for, most significant bit first.\<close>

definition bits_word :: "bool list \<Rightarrow> 'a::len word" where
  "bits_word bs = horner_sum of_bool 2 (rev bs)"

lemma byte_bits_length [simp]: "length (byte_bits b) = 8" by (simp add: byte_bits_def)

lemma buffer_bits_length [simp]: "length (buffer_bits w n) = n" by (simp add: buffer_bits_def)

lemma concat_byte_bits_length: "length (concat (map byte_bits r)) = 8 * length r"
  by (induction r) auto

lemma bits_of_length: "length (bits_of br) = br_remaining br + 8 * length (br_r br)"
  by (simp add: bits_of_def concat_byte_bits_length)

lemma low_zero: "take_bit k (w :: u64) = 0 \<Longrightarrow> i < k \<Longrightarrow> \<not> bit w i"
  using bit_take_bit_iff [of k w i] by auto

lemma buffer_bits_add_byte:
  assumes "n \<le> 56" "take_bit (64 - n) w = 0"
  shows "buffer_bits (w OR push_bit (56 - n) (ucast b)) (n + 8) = buffer_bits w n @ byte_bits b"
    and "take_bit (64 - (n + 8)) (w OR push_bit (56 - n) (ucast (b :: byte))) = (0 :: u64)"
proof -
  show "buffer_bits (w OR push_bit (56 - n) (ucast b)) (n + 8) = buffer_bits w n @ byte_bits b"
  proof (rule nth_equalityI)
    fix i assume "i < length (buffer_bits (w OR push_bit (56 - n) (ucast b)) (n + 8))"
    then have i: "i < n + 8" by simp
    show "buffer_bits (w OR push_bit (56 - n) (ucast b)) (n + 8) ! i = (buffer_bits w n @ byte_bits b) ! i"
    proof (cases "i < n")
      case True
      then have "8 \<le> 63 - i - (56 - n)" using assms(1) by linarith
      then have "\<not> bit b (63 - i - (56 - n))" by simp
      then have "bit (w OR push_bit (56 - n) (ucast b)) (63 - i) = bit w (63 - i)"
        by (simp only: bit_or_iff bit_push_bit_iff bit_ucast_iff) simp
      then show ?thesis using i True by (simp add: buffer_bits_def nth_append)
    next
      case False
      then have "63 - i < 64 - n" using assms(1) i by linarith
      then have "\<not> bit w (63 - i)" using low_zero [OF assms(2)] by blast
      moreover have "63 - i - (56 - n) = 7 - (i - n)" "56 - n \<le> 63 - i" using i False assms(1) by linarith+
      ultimately have "bit (w OR push_bit (56 - n) (ucast b)) (63 - i) = bit b (7 - (i - n))"
        by (simp only: bit_or_iff bit_push_bit_iff bit_ucast_iff) auto
      moreover have "byte_bits b ! (i - n) = bit b (7 - (i - n))"
        using i False unfolding byte_bits_def by (subst nth_map) auto
      ultimately show ?thesis using i False by (simp add: buffer_bits_def nth_append)
    qed
  qed simp
  show "take_bit (64 - (n + 8)) (w OR push_bit (56 - n) (ucast b)) = (0 :: u64)"
  proof (rule bit_word_eqI)
    fix i assume "i < LENGTH(64)"
    have "\<not> bit w i" if "i < 56 - n" using low_zero [OF assms(2), of i] that by simp
    then show "bit (take_bit (64 - (n + 8)) (w OR push_bit (56 - n) (ucast b))) i = bit (0 :: u64) i"
      by (auto simp: bit_simps)
  qed
qed

lemma fill_loop_bits:
  assumes "n = ir + 8 * i" "n + 8 * length bs \<le> 64" "take_bit (64 - n) w = 0"
    and "fill_loop ir i bs w n = (w', n')"
  shows "n' = n + 8 * length bs \<and> buffer_bits w' n' = buffer_bits w n @ concat (map byte_bits bs) \<and>
    take_bit (64 - n') w' = 0"
  using assms
proof (induction bs arbitrary: i w n)
  case (Cons b bs)
  have pos: "64 - 8 - 8 * i - ir = 56 - n" using Cons.prems(1) by simp
  have n: "n \<le> 56" using Cons.prems(2) by simp
  note add = buffer_bits_add_byte [OF n Cons.prems(3), of b]
  have step: "fill_loop ir (Suc i) bs (w OR push_bit (56 - n) (ucast b)) (n + 8) = (w', n')"
    using Cons.prems(4) unfolding fill_loop.simps Let_def pos .
  have "n + 8 = ir + 8 * Suc i" "n + 8 + 8 * length bs \<le> 64" using Cons.prems(1,2) by simp_all
  note ih = Cons.IH [OF this add(2) step]
  then have "n' = n + 8 * length (b # bs)" by simp
  moreover have "buffer_bits w' n' = (buffer_bits w n @ byte_bits b) @ concat (map byte_bits bs)"
    using ih unfolding add(1) by blast
  moreover have "take_bit (64 - n') w' = 0" using ih by blast
  ultimately show ?case by (metis append.assoc concat.simps(2) list.simps(9))
qed simp

lemma fill_spec:
  assumes "bits_ok br" "br_remaining br \<le> 56"
  shows "if br_r br = [] then fill br = (Some EOF, br)
    else \<exists>br'. fill br = (None, br') \<and> bits_ok br' \<and> bits_of br' = bits_of br \<and>
      br_remaining br + 8 \<le> br_remaining br' \<and> br_remaining br' mod 8 = br_remaining br mod 8"
proof (cases "br_r br = []")
  case True
  then show ?thesis by (simp add: fill_def Read_def)
next
  case False
  let ?t = "(64 - br_remaining br) div 8" and ?raw = "take ((64 - br_remaining br) div 8) (br_r br)"
  obtain w' n' where f: "fill_loop (br_remaining br) 0 ?raw (br_buffer br) (br_remaining br) = (w', n')"
    by fastforce
  have t: "1 \<le> ?t" using assms(2) by simp
  have "length ?raw \<le> ?t" "8 * ?t \<le> 64 - br_remaining br" by simp_all
  then have len: "br_remaining br + 8 * length ?raw \<le> 64" using assms(2) by linarith
  have z: "take_bit (64 - br_remaining br) (br_buffer br) = 0" using assms(1) by (simp add: bits_ok_def)
  have s1: "n' = br_remaining br + 8 * length ?raw"
    and s2: "buffer_bits w' n' = buffer_bits (br_buffer br) (br_remaining br) @ concat (map byte_bits ?raw)"
    and s3: "take_bit (64 - n') w' = 0"
    using fill_loop_bits [of _ _ 0, OF _ len z f] by (fastforce)+
  have raw: "1 \<le> length ?raw" using t False by (simp add: Suc_le_eq min_def)
  have n': "n' \<le> 64" "br_remaining br + 8 \<le> n'" "n' mod 8 = br_remaining br mod 8"
    using len raw by (simp_all only: s1) simp_all
  have "concat (map byte_bits (br_r br)) = concat (map byte_bits ?raw) @ concat (map byte_bits (drop ?t (br_r br)))"
    by (metis append_take_drop_id concat_append map_append)
  then show ?thesis using s2 s3 n' f False unfolding if_not_P [OF False]
    by (intro exI [of _ "br\<lparr>br_r := drop ?t (br_r br), br_buffer := w', br_remaining := n'\<rparr>"])
      (simp_all add: fill_def Read_def bits_ok_def bits_of_def Let_def)
qed

section \<open>Refinement of the operations\<close>

text \<open>\<open>fits br n\<close>: the buffer can be filled to \<open>n\<close> bits.\<close>

definition fits :: "bitreader \<Rightarrow> nat \<Rightarrow> bool" where
  "fits br n \<longleftrightarrow> n \<le> 64 \<and> (n \<le> 56 \<or> br_remaining br mod 8 = 0)"

lemma fits_room: "fits br n \<Longrightarrow> br_remaining br < n \<Longrightarrow> br_remaining br \<le> 56"
  by (auto simp: fits_def)

lemma peek_fill_spec:
  assumes "bits_ok br" "fits br n" "n \<le> br_remaining br + 8 * fuel"
  shows "\<exists>br'. peek_fill fuel n br = (if n \<le> length (bits_of br) then None else Some EOF, br') \<and>
    bits_ok br' \<and> bits_of br' = bits_of br \<and> (n \<le> length (bits_of br) \<longrightarrow> n \<le> br_remaining br')"
  using assms
proof (induction fuel arbitrary: br)
  case 0
  then show ?case by (simp add: bits_of_length)
next
  case (Suc fuel)
  show ?case
  proof (cases "br_remaining br < n")
    case False
    with Suc.prems show ?thesis by (simp add: bits_of_length)
  next
    case True
    note room = fits_room [OF Suc.prems(2) True]
    note fl = fill_spec [OF Suc.prems(1) room]
    show ?thesis
    proof (cases "br_r br = []")
      case E: True
      with fl True Suc.prems(1) show ?thesis by (simp add: bits_of_length)
    next
      case F: False
      then obtain br1 where br1: "fill br = (None, br1)" "bits_ok br1" "bits_of br1 = bits_of br"
        "br_remaining br + 8 \<le> br_remaining br1" "br_remaining br1 mod 8 = br_remaining br mod 8"
        using fl by auto
      have "fits br1 n" using Suc.prems(2) br1(5) by (simp add: fits_def)
      moreover have "n \<le> br_remaining br1 + 8 * fuel" using Suc.prems(3) br1(4) by simp
      ultimately show ?thesis using Suc.IH [OF br1(2)] True br1(1,3) by simp
    qed
  qed
qed

lemma bits_word_bit: "bit (bits_word bs :: 'a::len word) j \<longleftrightarrow> j < min LENGTH('a) (length bs) \<and> bs ! (length bs - Suc j)"
  unfolding bits_word_def by (auto simp: bit_horner_sum_bit_word_iff rev_nth)

lemma drop_buffer:
  assumes "n \<le> r" "r \<le> 64"
  shows "drop_bit (64 - n) (w AND push_bit (64 - n) (NOT 0)) = (bits_word (take n (buffer_bits w r)) :: u64)"
proof (rule bit_word_eqI)
  fix j assume j: "j < LENGTH(64)"
  have "bit (drop_bit (64 - n) (w AND push_bit (64 - n) (NOT 0))) j \<longleftrightarrow> 64 - n + j < 64 \<and> bit w (64 - n + j)"
    by (auto simp: bit_simps dest: bit_imp_le_length)
  also have "\<dots> \<longleftrightarrow> j < n \<and> bit w (63 - (n - Suc j))"
    using assms j by (cases "j < n") (auto simp: Suc_diff_Suc intro: arg_cong [where f = "bit w", THEN iffD1])
  also have "\<dots> \<longleftrightarrow> bit (bits_word (take n (buffer_bits w r)) :: u64) j"
    using assms by (auto simp: bits_word_bit buffer_bits_def)
  finally show "bit (drop_bit (64 - n) (w AND push_bit (64 - n) (NOT 0))) j =
      bit (bits_word (take n (buffer_bits w r)) :: u64) j" .
qed

lemma peek_spec:
  assumes "bits_ok br" "fits br n"
  shows "\<exists>br'. peek br n =
      (if n \<le> length (bits_of br) then Inr (bits_word (take n (bits_of br))) else Inl EOF, br') \<and>
    bits_ok br' \<and> bits_of br' = bits_of br \<and> (n \<le> length (bits_of br) \<longrightarrow> n \<le> br_remaining br')"
proof -
  obtain br' where b: "peek_fill (Suc n) n br = (if n \<le> length (bits_of br) then None else Some EOF, br')"
    "bits_ok br'" "bits_of br' = bits_of br" "n \<le> length (bits_of br) \<longrightarrow> n \<le> br_remaining br'"
    using peek_fill_spec [OF assms, of "Suc n"] by auto
  have off: "\<not> (56 < n \<and> br_remaining br mod 8 \<noteq> 0)" using assms(2) by (auto simp: fits_def)
  show ?thesis
  proof (cases "n \<le> length (bits_of br)")
    case True
    then have "drop_bit (64 - n) (br_buffer br' AND push_bit (64 - n) (NOT 0)) =
        (bits_word (take n (buffer_bits (br_buffer br') (br_remaining br'))) :: u64)"
      using b(2,4) by (intro drop_buffer) (simp_all add: bits_ok_def)
    moreover have "take n (buffer_bits (br_buffer br') (br_remaining br')) = take n (bits_of br)"
      using b(3,4) True by (simp add: bits_of_def [of br'] flip: b(3))
    ultimately show ?thesis using True off b by (simp add: peek_def Let_def del: peek_fill.simps)
  next
    case False
    then show ?thesis using off b by (simp add: peek_def del: peek_fill.simps)
  qed
qed

lemma shift_buffer:
  assumes "bits_ok br" "len \<le> br_remaining br"
  defines "br1 \<equiv> br\<lparr>br_buffer := push_bit len (br_buffer br), br_remaining := br_remaining br - len\<rparr>"
  shows "bits_ok br1" "bits_of br1 = drop len (bits_of br)"
proof -
  let ?w = "br_buffer br" and ?n = "br_remaining br"
  have n: "?n \<le> 64" and z: "take_bit (64 - ?n) ?w = 0" using assms(1) by (simp_all add: bits_ok_def)
  have "take_bit (64 - (?n - len)) (push_bit len ?w) = 0"
  proof (rule bit_word_eqI)
    fix i assume "i < LENGTH(64)"
    have "\<not> bit ?w (i - len)" if "i < 64 - (?n - len)" "len \<le> i"
      using low_zero [OF z, of "i - len"] that assms(2) n by simp
    then show "bit (take_bit (64 - (?n - len)) (push_bit len ?w)) i = bit (0 :: u64) i"
      by (auto simp: bit_simps)
  qed
  with n show "bits_ok br1" by (simp add: bits_ok_def br1_def)
  have "buffer_bits (push_bit len ?w) (?n - len) = drop len (buffer_bits ?w ?n)"
  proof (rule nth_equalityI)
    fix i assume "i < length (buffer_bits (push_bit len ?w) (?n - len))"
    then have i: "i < ?n - len" by simp
    then have "63 - i - len = 63 - (len + i)" "len \<le> 63 - i" using n by linarith+
    then have "bit (push_bit len ?w) (63 - i) = bit ?w (63 - (len + i))"
      by (simp only: bit_push_bit_iff) auto
    moreover have "[0..<?n] ! (len + i) = len + i" using i by (simp add: nth_upt less_diff_conv)
    ultimately show "buffer_bits (push_bit len ?w) (?n - len) ! i = drop len (buffer_bits ?w ?n) ! i"
      using i n by (simp add: buffer_bits_def)
  qed simp
  then show "bits_of br1 = drop len (bits_of br)" using assms(2) by (simp add: bits_of_def br1_def)
qed

lemma skip_f_spec:
  assumes "bits_ok br" "n + 1 + (if br_remaining br = 0 then 1 else 0) \<le> fuel"
  shows "\<exists>br'. skip_f fuel n br = (if n \<le> length (bits_of br) then None else Some ErrUnexpectedEOF, br') \<and>
    bits_ok br' \<and> (n \<le> length (bits_of br) \<longrightarrow> bits_of br' = drop n (bits_of br))"
  using assms
proof (induction fuel arbitrary: br n)
  case (Suc fuel)
  define len where "len = (if br_remaining br < n then br_remaining br else n)"
  define br1 where "br1 = br\<lparr>br_buffer := push_bit len (br_buffer br), br_remaining := br_remaining br - len\<rparr>"
  have len: "len \<le> br_remaining br" "len \<le> n" by (simp_all add: len_def)
  have br1: "bits_ok br1" "bits_of br1 = drop len (bits_of br)"
    using shift_buffer [OF Suc.prems(1) len(1)] by (simp_all add: br1_def)
  have ll: "br_remaining br \<le> length (bits_of br)" by (simp add: bits_of_length)
  consider "n = 0" | "0 < n" "n \<le> br_remaining br" | "0 < n" "br_remaining br < n" by linarith
  then show ?case
  proof cases
    case 1
    with Suc.prems show ?thesis by simp
  next
    case 2
    then have "len = n" by (simp add: len_def)
    moreover have "skip_f fuel 0 br1 = (None, br1)" by (cases fuel) simp_all
    ultimately show ?thesis using 2 br1 ll by (simp add: br1_def len_def)
  next
    case 3
    then have l: "len = br_remaining br" and z: "br_remaining br1 = 0" by (simp_all add: len_def br1_def)
    have step: "skip_f (Suc fuel) n br = (case fill br1 of
        (Some err, b2) \<Rightarrow> (Some (checkEOF err), b2) | (None, b2) \<Rightarrow> skip_f fuel (n - br_remaining br) b2)"
      using 3 l by (simp add: br1_def Let_def)
    have lb: "length (bits_of br1) = length (bits_of br) - len" using br1(2) by simp
    note fl = fill_spec [OF br1(1), unfolded z]
    show ?thesis
    proof (cases "br_r br1 = []")
      case True
      then have "length (bits_of br) = len" using l by (simp add: bits_of_length br1_def)
      then show ?thesis using fl True step 3 l br1(1) by (simp add: checkEOF_def)
    next
      case False
      then obtain br2 where br2: "fill br1 = (None, br2)" "bits_ok br2" "bits_of br2 = bits_of br1"
        "8 \<le> br_remaining br2" using fl by auto
      have "n - br_remaining br + 1 + (if br_remaining br2 = 0 then 1 else 0) \<le> fuel"
        using Suc.prems(2) br2(4) l 3 by (auto split: if_splits)
      from Suc.IH [OF br2(2) this] show ?thesis
        using step br2(1,3) br1(2) lb l ll 3 by (auto simp: le_diff_conv add.commute)
    qed
  qed
qed simp

lemma skip_spec:
  assumes "bits_ok br"
  shows "\<exists>br'. skip br n = (if n \<le> length (bits_of br) then None else Some ErrUnexpectedEOF, br') \<and>
    bits_ok br' \<and> (n \<le> length (bits_of br) \<longrightarrow> bits_of br' = drop n (bits_of br))"
  unfolding skip_def by (rule skip_f_spec [OF assms]) simp

lemma read_spec:
  assumes "bits_ok br" "fits br n"
  shows "\<exists>br'. br_read br n =
      (if n \<le> length (bits_of br) then Inr (bits_word (take n (bits_of br))) else Inl ErrUnexpectedEOF, br') \<and>
    bits_ok br' \<and> bits_of br' = (if n \<le> length (bits_of br) then drop n (bits_of br) else bits_of br)"
proof -
  obtain br1 where p: "peek br n =
      (if n \<le> length (bits_of br) then Inr (bits_word (take n (bits_of br))) else Inl EOF, br1)"
    "bits_ok br1" "bits_of br1 = bits_of br" using peek_spec [OF assms] by blast
  show ?thesis
  proof (cases "n \<le> length (bits_of br)")
    case True
    with skip_spec [OF p(2), of n] p obtain br2 where "skip br1 n = (None, br2)" "bits_ok br2"
      "bits_of br2 = drop n (bits_of br)" by auto
    with p True show ?thesis by (simp add: br_read_def with_skip_def)
  next
    case False
    with p show ?thesis by (simp add: br_read_def checkEOF_def)
  qed
qed

section \<open>Properties\<close>

lemma bits_ok_new: "bits_ok (NewReader r)" "bits_of (NewReader r) = concat (map byte_bits r)"
  by (simp_all add: bits_ok_def bits_of_def NewReader_def buffer_bits_def)

text \<open>C23: Reading n bits (up to 56 at any position, up to 64 at a byte boundary) from a well-formed bit
  reader returns the value of the next n bits of the stream, most significant first, advances the
  stream by exactly n bits and keeps the reader well-formed; when fewer bits are left it fails with
  an unexpected EOF and leaves the stream where it was.\<close>

theorem bitreader_read_refines:
  assumes "bits_ok br" and "n \<le> 64" and "n \<le> 56 \<or> IsAligned br"
  shows "\<exists>br'. Read64 br n =
      (if n \<le> length (bits_of br) then Inr (bits_word (take n (bits_of br))) else Inl ErrUnexpectedEOF, br') \<and>
    bits_ok br' \<and> bits_of br' = (if n \<le> length (bits_of br) then drop n (bits_of br) else bits_of br)"
  using read_spec [OF assms(1), of n] assms(2,3) by (simp add: Read64_def limited_def fits_def IsAligned_def)

theorem bitreader_read_refines_witness:
  "\<exists>br'. Read64 (NewReader [0xA5, 0x0F]) 12 = (Inr 0xA50, br') \<and> bits_of br' = [True, True, True, True]"
proof -
  have "bits_ok (NewReader [0xA5, 0x0F])" by (rule bits_ok_new)
  moreover have b: "bits_of (NewReader [0xA5, 0x0F]) =
      [True, False, True, False, False, True, False, True, False, False, False, False, True, True, True, True]"
    by code_simp
  moreover have "bits_word (take 12 (bits_of (NewReader [0xA5, 0x0F]))) = (0xA50 :: u64)"
    unfolding b by (simp add: bits_word_def)
  ultimately show ?thesis using bitreader_read_refines [of "NewReader [0xA5, 0x0F]" 12] by auto
qed

text \<open>Peeking does not move the bit stream and skipping n bits drops exactly the next n bits (or
  fails when fewer are left); both return on every well-formed reader.\<close>

theorem bitreader_peek_skip_refine:
  assumes "bits_ok br" and "n \<le> 56"
  shows "(\<exists>br'. Peek64 br n =
      (if n \<le> length (bits_of br) then Inr (bits_word (take n (bits_of br))) else Inl EOF, br') \<and>
      bits_ok br' \<and> bits_of br' = bits_of br) \<and>
    (\<exists>br'. Skip br n = (if n \<le> length (bits_of br) then None else Some ErrUnexpectedEOF, br') \<and>
      bits_ok br' \<and> (if n \<le> length (bits_of br) then bits_of br' = drop n (bits_of br) else True))"
  using peek_spec [OF assms(1), of n] skip_spec [OF assms(1), of n] assms(2)
  by (auto simp: Peek64_def limited_def fits_def Skip_def)

theorem bitreader_peek_skip_refine_witness:
  "\<exists>br'. Skip (NewReader [0xA5]) 4 = (None, br') \<and> bits_of br' = [False, True, False, True]"
proof -
  have "bits_of (NewReader [0xA5]) = [True, False, True, False, False, True, False, True]"
    by code_simp
  with bitreader_peek_skip_refine [OF bits_ok_new(1), of 4 "[0xA5]"] show ?thesis by auto
qed

text \<open>\<open>Read1\<close> hides the end of the data: it reports a 0 bit.\<close>

lemma Read1_swallows_EOF: "fst (Read1 (NewReader [])) = Inr False"
  by code_simp

end
