(* ===== verification/Amf_Value.thy ===== *)
theory Amf_Value
  imports ByteIO "HOL-Library.Multiset" "HOL-Library.List_Lexorder" "HOL-Library.Char_ord"
begin

text \<open>
  The values the \<open>utils/amf\<close> package writes and reads: what a Go \<open>interface{}\<close> can hold, as far as
  the package distinguishes it by reflection.  An \<open>Object\<close> is an association list with distinct keys;
  floating-point numbers are IEEE 754 bit patterns; a struct is the list of its fields with name,
  \<open>amf\<close> tag, the anonymous flag and value (a field of interface type that holds a value is
  \<open>VUnsupported\<close>, as the package has no case for it); a \<open>time.Time\<close> read from a date is kept as the
  float64 milliseconds it is computed from.  A slice has fewer than \<open>2 ^ 31\<close> elements.  The theory also has what the package uses of the Go
  library: \<open>fmt.Sprintf("%d", n)\<close>, the conversion of an integer to \<open>float64\<close> (round to nearest,
  ties to even) and sorting of the keys of a map.
\<close>

section \<open>Values\<close>

datatype gvalue =
    VNil
  | VUndefined
  | VString string
  | VBool bool
  | VInt int
  | VUint u64
  | VNumber u64
  | VBytes bytes
  | VArray "gvalue list"
  | VNilMap
  | VObject "(string \<times> gvalue) list"
  | VNilPtr
  | VPtr gvalue
  | VStruct "(string \<times> string \<times> bool \<times> gvalue) list"
  | VTime u64
  | VUnsupported

section \<open>Decimal numerals\<close>

fun decimal :: "nat \<Rightarrow> string" where
  "decimal n = (if n < 10 then [char_of (48 + n)] else decimal (n div 10) @ [char_of (48 + n mod 10)])"

declare decimal.simps [simp del]

fun of_decimal :: "string \<Rightarrow> nat" where
  "of_decimal s = foldl (\<lambda>n c. n * 10 + (of_char c - 48)) 0 s"

lemma of_decimal_decimal: "of_decimal (decimal n) = n"
proof (induction n rule: decimal.induct)
  case (1 n)
  show ?case
  proof (cases "n < 10")
    case True
    then show ?thesis by (subst decimal.simps) simp
  next
    case False
    then show ?thesis using 1 by (subst decimal.simps) simp
  qed
qed

lemma decimal_inject: "decimal m = decimal n \<longleftrightarrow> m = n"
  by (metis of_decimal_decimal)

lemma decimal_not_Nil [simp]: "decimal n \<noteq> []"
  by (subst decimal.simps) simp

lemma decimal_length_10: "n < 10 ^ k \<Longrightarrow> 0 < k \<Longrightarrow> length (decimal n) \<le> k"
proof (induction n arbitrary: k rule: decimal.induct)
  case (1 n)
  show ?case
  proof (cases "n < 10")
    case False
    then obtain j where k: "k = Suc j" "0 < j" using "1.prems" by (cases k; cases "k - 1") auto
    then have "n div 10 < 10 ^ j" using "1.prems" by (simp add: less_mult_imp_div_less mult.commute)
    then show ?thesis using 1(1) [OF False] False k by (subst decimal.simps) simp
  qed (use "1.prems" in \<open>subst decimal.simps, simp\<close>)
qed

section \<open>Integers as float64\<close>

function bit_length :: "int \<Rightarrow> nat" where
  "bit_length n = (if n \<le> 0 then 0 else Suc (bit_length (n div 2)))"
  by auto
termination by (relation "measure nat") auto

declare bit_length.simps [simp del]

definition float_of_pos :: "int \<Rightarrow> int" where
  "float_of_pos n =
     (if n \<le> 0 then 0 else
      let e = bit_length n - 1 in
      if e \<le> 52 then (int e + 1022) * 2 ^ 52 + n * 2 ^ (52 - e)
      else let k = e - 52; q = n div 2 ^ k; r = n mod 2 ^ k;
               up = (2 ^ k < 2 * r \<or> (2 * r = 2 ^ k \<and> q mod 2 = 1))
           in (int e + 1022) * 2 ^ 52 + q + (if up then 1 else 0))"

definition float_of_int :: "int \<Rightarrow> u64" where
  "float_of_int i =
     (if i < 0 then of_int (2 ^ 63 + float_of_pos (- i)) else of_int (float_of_pos i))"

lemma float_of_int_samples:
  "float_of_int 0 = 0" "float_of_int 1 = 0x3FF0000000000000" "float_of_int (-2) = 0xC000000000000000"
  "float_of_int 31 = 0x403F000000000000" "float_of_int 9007199254740993 = 0x4340000000000000"
  by code_simp+

section \<open>Keys in order\<close>

text \<open>\<open>sort.Sort(stringValues(v.MapKeys()))\<close>: the entries by key, bytewise.\<close>

definition sort_entries :: "(string \<times> 'a) list \<Rightarrow> (string \<times> 'a) list" where
  "sort_entries kvs = sort_key fst kvs"

lemma set_sort_entries [simp]: "set (sort_entries kvs) = set kvs"
  by (simp add: sort_entries_def)

lemma distinct_sort_entries [simp]: "distinct (map fst (sort_entries kvs)) = distinct (map fst kvs)"
proof -
  have "mset (map fst (sort_entries kvs)) = mset (map fst kvs)" by (simp add: sort_entries_def)
  then show ?thesis by (rule mset_eq_imp_distinct_iff)
qed

lemma size_list_sort_entries [simp]: "size_list f (sort_entries kvs) = size_list f kvs"
proof -
  have "sum_list (map f (sort_key fst kvs)) = sum_list (map f kvs)"
    by (metis mset_map mset_sort sum_mset_sum_list)
  then show ?thesis by (simp add: sort_entries_def size_list_conv_sum_list)
qed

lemma map_of_sort_entries: "distinct (map fst kvs) \<Longrightarrow> map_of (sort_entries kvs) = map_of kvs"
  by (rule map_of_eqI) (auto simp: map_of_eq_Some_iff image_iff)

lemma insort_key_map_value:
  "insort_key fst (k, g v) (map (\<lambda>(k, v). (k, g v)) xs) = map (\<lambda>(k, v). (k, g v)) (insort_key fst (k, v) xs)"
  by (induction xs) auto

lemma sort_entries_map_value:
  "sort_entries (map (\<lambda>(k, v). (k, g v)) kvs) = map (\<lambda>(k, v). (k, g v)) (sort_entries kvs)"
  unfolding sort_entries_def by (induction kvs) (auto simp: insort_key_map_value)

section \<open>float64 as integers\<close>

text \<open>
  The conversions \<open>int(f)\<close> and \<open>uint32(f)\<close>: the value cut towards zero.  Outside the range of int64
  (and for infinities and NaN) Go leaves the result to the machine; here it is what amd64 gives,
  the least int64.
\<close>

definition float_trunc :: "u64 \<Rightarrow> int" where
  "float_trunc f =
     (let b = uint f; e = nat (b div 2 ^ 52 mod 2 ^ 11); s = 2 ^ 52 + b mod 2 ^ 52;
          mag = (if e = 0 then 0 else if 1075 \<le> e then s * 2 ^ (e - 1075) else s div 2 ^ (1075 - e));
          v = (if 2 ^ 63 \<le> b then - mag else mag) in
      if e = 2047 \<or> v < - (2 ^ 63) \<or> 2 ^ 63 \<le> v then - (2 ^ 63) else v)"

definition float_u32 :: "u64 \<Rightarrow> u32" where
  "float_u32 f = of_int (float_trunc f)"

lemma bit_length_bounds: "0 < n \<Longrightarrow> 2 ^ (bit_length n - 1) \<le> n \<and> n < 2 ^ bit_length n \<and> 0 < bit_length n"
proof (induction n rule: bit_length.induct)
  case (1 n)
  show ?case
  proof (cases "n = 1")
    case True
    then show ?thesis by (simp add: bit_length.simps)
  next
    case False
    with 1 have "2 ^ (bit_length (n div 2) - 1) \<le> n div 2 \<and> n div 2 < 2 ^ bit_length (n div 2) \<and>
        0 < bit_length (n div 2)" by simp
    moreover obtain j where "bit_length (n div 2) = Suc j" using calculation by (cases "bit_length (n div 2)") auto
    ultimately have "2 ^ j \<le> n div 2" "n div 2 < 2 * 2 ^ j" "bit_length n = Suc (Suc j)"
      using 1(2) by (simp_all add: bit_length.simps[of n])
    then show ?thesis by auto
  qed
qed

lemma float_trunc_normal:
  assumes "nat (uint f div 2 ^ 52 mod 2 ^ 11) = E" "uint f mod 2 ^ 52 = m" "uint f < 2 ^ 63" "0 < E" "E < 2047"
    and "v = (if 1075 \<le> E then (2 ^ 52 + m) * 2 ^ (E - 1075) else (2 ^ 52 + m) div 2 ^ (1075 - E))"
    and "- (2 ^ 63) \<le> v" "v < 2 ^ 63"
  shows "float_trunc f = v"
proof -
  have "\<not> 2 ^ 63 \<le> uint f" "E \<noteq> 0" "E \<noteq> 2047" "\<not> v < - (2 ^ 63)" "\<not> 2 ^ 63 \<le> v" using assms by auto
  then show ?thesis unfolding float_trunc_def Let_def assms(1,2) assms(6)[symmetric]
    by (simp only: if_False simp_thms)
qed

text \<open>Integers of up to 53 bits survive the way through a float64.\<close>

lemma float_trunc_of_int:
  assumes "0 \<le> n" "n < 2 ^ 53"
  shows "float_trunc (float_of_int n) = n"
proof (cases "n = 0")
  case True
  then show ?thesis by (simp add: float_of_int_def float_of_pos_def float_trunc_def)
next
  case False
  define e where "e = bit_length n - 1"
  have b: "2 ^ e \<le> n" "n < 2 ^ Suc e"
    using bit_length_bounds[of n] False assms(1) by (auto simp: e_def)
  have "(2 :: int) ^ e < 2 ^ 53" using b(1) assms(2) by linarith
  then have e: "e \<le> 52" using power_strict_increasing_iff[of "2 :: int" e 53] by simp
  define m where "m = n * 2 ^ (52 - e) - 2 ^ 52"
  have s: "(2 :: int) ^ e * 2 ^ (52 - e) = 2 ^ 52" "(2 :: int) ^ Suc e * 2 ^ (52 - e) = 2 ^ 53"
    using e by (simp_all add: power_add[symmetric])
  have "2 ^ e * 2 ^ (52 - e) \<le> n * 2 ^ (52 - e)" "n * 2 ^ (52 - e) < 2 ^ Suc e * 2 ^ (52 - e)"
    using b by (simp_all add: mult_right_mono)
  then have m: "0 \<le> m" "m < 2 ^ 52" unfolding s m_def by simp_all
  define B where "B = (int e + 1023) * 2 ^ 52 + m"
  have "float_of_pos n = B"
    unfolding float_of_pos_def e_def[symmetric] Let_def using False assms(1) e
    by (simp add: B_def m_def algebra_simps)
  then have B: "float_of_int n = of_int B" using assms(1) by (simp add: float_of_int_def)
  have B0: "0 \<le> B" "B < 2 ^ 63" using e m by (simp_all add: B_def)
  have u: "uint (of_int B :: u64) = B" using B0 by (simp add: uint_word_of_int)
  have "((int e + 1023) * x + m) div x = int e + 1023 \<and> ((int e + 1023) * x + m) mod x = m"
    if "m < x" for x using m(1) that by simp
  then have d: "B div 2 ^ 52 = int e + 1023" "B mod 2 ^ 52 = m" unfolding B_def using m(2) by blast+
  have x: "2 ^ 52 + m = n * 2 ^ (52 - e)" by (simp add: m_def)
  have E: "nat ((int e + 1023) mod 2 ^ 11) = e + 1023" using e by (simp add: nat_add_distrib)
  have v: "n = (if 1075 \<le> e + 1023 then (2 ^ 52 + m) * 2 ^ (e + 1023 - 1075)
      else (2 ^ 52 + m) div 2 ^ (1075 - (e + 1023)))"
    unfolding x using e by (cases "e = 52") simp_all
  show ?thesis
  proof (rule float_trunc_normal[OF _ _ _ _ _ v])
    show "nat (uint (float_of_int n) div 2 ^ 52 mod 2 ^ 11) = e + 1023" unfolding B u d by (rule E)
    show "uint (float_of_int n) mod 2 ^ 52 = m" unfolding B u by (rule d(2))
    show "uint (float_of_int n) < 2 ^ 63" unfolding B u by (rule B0(2))
  qed (use e assms in simp_all)
qed

lemma float_u32_of_int [simp]: "float_u32 (float_of_int (uint (t :: u32))) = t"
proof -
  have "uint t < 2 ^ 53" by (rule order_less_trans[OF uint_lt2p]) simp
  then show ?thesis by (simp add: float_u32_def float_trunc_of_int)
qed

lemma float_trunc_samples:
  "float_trunc 0 = 0" "float_trunc 0x3FF0000000000000 = 1" "float_trunc 0xC000000000000000 = - 2"
  "float_trunc 0x401C000000000000 = 7" "float_trunc 0x403C000000000000 = 28" "float_trunc 0x4024000000000000 = 10"
  by code_simp+

end
