(* ===== verification/Amf3.thy ===== *)
theory Amf3
  imports Amf_Value
begin

text \<open>
  \<open>utils/amf/amf3.go\<close>: writing and reading AMF3 values.  A writer is a \<open>bytes.Buffer\<close>; a write
  function returns the count it reports and the bytes it appends, its only errors being the ones
  the package raises itself.  A reader is a \<open>bytes.Reader\<close>.  The recursive readers carry fuel;
  \<open>AMF3_ReadValue_enough\<close> shows that the fuel given always suffices.
\<close>

section \<open>Sequencing of writes\<close>

type_synonym written = "(nat \<times> bytes) res"

definition emit :: "bytes \<Rightarrow> written" where "emit b = Inr (length b, b)"

definition wcat :: "written \<Rightarrow> written \<Rightarrow> written" where
  "wcat a b = bindE a (\<lambda>(n, x). bindE b (\<lambda>(m, y). Inr (n + m, x @ y)))"

lemma emit_simps [simp]: "emit b = Inr (length b, b)" by (simp add: emit_def)

lemma wcat_Inr [simp]: "wcat (Inr (n, x)) (Inr (m, y)) = Inr (n + m, x @ y)"
  by (simp add: wcat_def)

lemma wcat_Inl [simp]: "wcat (Inl e) b = Inl e" "wcat (Inr p) (Inl e) = Inl e"
  by (simp_all add: wcat_def split: prod.split)

lemma wcat_eq_Inr: "wcat a b = Inr (n, w) \<longleftrightarrow>
    (\<exists>n1 w1 n2 w2. a = Inr (n1, w1) \<and> b = Inr (n2, w2) \<and> n = n1 + n2 \<and> w = w1 @ w2)"
  by (auto simp: wcat_def bindE_eq_Inr)

lemma wcat_cong [fundef_cong]:
  "a = a' \<Longrightarrow> b = b' \<Longrightarrow> wcat a b = wcat a' b'"
  by simp

section \<open>Write functions\<close>

definition AMF3_WriteU29 :: "u32 \<Rightarrow> written" where
  "AMF3_WriteU29 n =
     (if n \<le> 0x7F then emit [ucast n]
      else if n \<le> 0x3FFF then emit [ucast (drop_bit 7 n OR 0x80), ucast (n AND 0x7F)]
      else if n \<le> 0x1FFFFF then
        emit [ucast (drop_bit 14 n OR 0x80), ucast (drop_bit 7 n AND 0x7F OR 0x80), ucast (n AND 0x7F)]
      else if n \<le> 0x1FFFFFFF then
        emit [ucast (drop_bit 22 n OR 0x80), ucast (drop_bit 15 n AND 0x7F OR 0x80),
              ucast (drop_bit 8 n AND 0x7F OR 0x80), ucast n]
      else Inl (Errorf ''out of range''))"

definition u29_length :: "nat \<Rightarrow> u32" where
  "u29_length len = of_nat (2 * len + 1)"

definition AMF3_WriteUTF8 :: "string \<Rightarrow> written" where
  "AMF3_WriteUTF8 str =
     (if length str = 0 then emit [0x01]
      else wcat (AMF3_WriteU29 (u29_length (length str))) (emit (bytes_of_string str)))"

definition AMF3_WriteString :: "string \<Rightarrow> written" where
  "AMF3_WriteString str = wcat (emit [0x06]) (AMF3_WriteUTF8 str)"

definition AMF3_WriteDouble :: "u64 \<Rightarrow> written" where
  "AMF3_WriteDouble num = wcat (emit [0x05]) (Inr (8, u64be num))"

definition AMF3_WriteBoolean :: "bool \<Rightarrow> written" where
  "AMF3_WriteBoolean b = (if b then emit [0x03] else emit [0x02])"

definition AMF3_WriteNull :: written where "AMF3_WriteNull = emit [0x01]"

definition AMF3_WriteUndefined :: written where "AMF3_WriteUndefined = emit [0x00]"

definition AMF3_WriteObjectMarker :: written where "AMF3_WriteObjectMarker = emit [0x0a]"

definition AMF3_WriteObjectEndMarker :: written where "AMF3_WriteObjectEndMarker = emit [0x01]"

definition AMF3_WriteObjectName :: "string \<Rightarrow> written" where
  "AMF3_WriteObjectName name = AMF3_WriteUTF8 name"

text \<open>
  \<open>AMF3_WriteValue\<close> with the loops over the entries of a map and the elements of an array.  Of the
  type switch after the \<open>switch\<close> on the kind only \<open>Undefined\<close> is reachable: an \<open>Object\<close> has kind
  Map and a \<open>[]interface{}\<close> kind Slice.
\<close>

function AMF3_WriteValue :: "gvalue \<Rightarrow> written"
  and AMF3_writeEntries :: "(string \<times> gvalue) list \<Rightarrow> written"
  and AMF3_writeElems :: "gvalue list \<Rightarrow> written" where
  "AMF3_WriteValue VNil = AMF3_WriteNull"
| "AMF3_WriteValue (VString s) = AMF3_WriteString s"
| "AMF3_WriteValue (VBool b) = AMF3_WriteBoolean b"
| "AMF3_WriteValue (VInt i) = AMF3_WriteDouble (float_of_int i)"
| "AMF3_WriteValue (VUint i) = AMF3_WriteDouble (float_of_int (uint i))"
| "AMF3_WriteValue (VNumber f) = AMF3_WriteDouble f"
| "AMF3_WriteValue (VBytes b) =
     wcat (emit [0x0c]) (wcat (AMF3_WriteU29 (u29_length (length b))) (emit b))"
| "AMF3_WriteValue (VArray vs) =
     wcat (emit [0x09]) (wcat (AMF3_WriteU29 (u29_length (length vs)))
       (wcat (emit [0x01]) (AMF3_writeElems vs)))"
| "AMF3_WriteValue VNilMap =
     wcat AMF3_WriteObjectMarker (wcat (emit [0x0b]) (wcat (AMF3_WriteUTF8 '''') AMF3_WriteObjectEndMarker))"
| "AMF3_WriteValue (VObject kvs) =
     wcat AMF3_WriteObjectMarker (wcat (emit [0x0b]) (wcat (AMF3_WriteUTF8 '''')
       (wcat (AMF3_writeEntries (sort_entries kvs)) AMF3_WriteObjectEndMarker)))"
| "AMF3_WriteValue VUndefined = AMF3_WriteUndefined"
| "AMF3_WriteValue VNilPtr = Inl (Errorf ''Unsupported type'')"
| "AMF3_WriteValue (VPtr v) = Inl (Errorf ''Unsupported type'')"
| "AMF3_WriteValue (VStruct fs) = Inl (Errorf ''Unsupported type'')"
| "AMF3_WriteValue (VTime t) = Inl (Errorf ''Unsupported type'')"
| "AMF3_WriteValue VUnsupported = Inl (Errorf ''Unsupported type'')"
| "AMF3_writeEntries [] = emit []"
| "AMF3_writeEntries ((k, v) # kvs) =
     wcat (AMF3_WriteObjectName k) (wcat (AMF3_WriteValue v) (AMF3_writeEntries kvs))"
| "AMF3_writeElems [] = emit []"
| "AMF3_writeElems (v # vs) = wcat (AMF3_WriteValue v) (AMF3_writeElems vs)"
  by pat_completeness auto
termination
  by (relation "measure (\<lambda>x. case x of Inl v \<Rightarrow> Suc (size v)
      | Inr (Inl kvs) \<Rightarrow> Suc (size_list (size_prod (\<lambda>_. 0) size) kvs)
      | Inr (Inr vs) \<Rightarrow> Suc (size_list size vs))") auto

text \<open>\<open>AMF3_WriteObject\<close>: the entries in the order in which the map is iterated.\<close>

definition AMF3_WriteObject :: "(string \<times> gvalue) list \<Rightarrow> written" where
  "AMF3_WriteObject obj =
     wcat AMF3_WriteObjectMarker (wcat (emit [0x0b]) (wcat (AMF3_WriteUTF8 '''')
       (wcat (AMF3_writeEntries obj) AMF3_WriteObjectEndMarker)))"

section \<open>Read functions\<close>

fun AMF3_ReadU29_loop :: "nat \<Rightarrow> u32 \<Rightarrow> bytes \<Rightarrow> (u32 \<times> bytes) res" where
  "AMF3_ReadU29_loop 0 n r = bindE (ReadByte r) (\<lambda>(b, r). Inr (push_bit 8 n + ucast b, r))"
| "AMF3_ReadU29_loop (Suc i) n r =
     bindE (ReadByte r) (\<lambda>(b, r).
       let n = push_bit 7 n + ucast (b AND 0x7F) in
       if b AND 0x80 = 0 then Inr (n, r) else AMF3_ReadU29_loop i n r)"

definition AMF3_ReadU29 :: "bytes \<Rightarrow> (u32 \<times> bytes) res" where
  "AMF3_ReadU29 r = AMF3_ReadU29_loop 3 0 r"

definition AMF3_ReadUTF8 :: "bytes \<Rightarrow> (string \<times> bytes) res" where
  "AMF3_ReadUTF8 r =
     bindE (AMF3_ReadU29 r) (\<lambda>(len, r).
     failIf (len AND 1 \<noteq> 1) (Errorf ''AMF3 reference unsupported'')
     (let len = drop_bit 1 len in
      if len = 0 then Inr ('''', r)
      else bindE (ReadInto (unat len) r) (\<lambda>(data, r). Inr (string_of_bytes data, r))))"

definition AMF3_ReadString :: "bytes \<Rightarrow> (string \<times> bytes) res" where
  "AMF3_ReadString r = bindE (ReadByte r) (\<lambda>(marker, r).
     failIf (marker \<noteq> 0x06) (Errorf ''Type error'') (AMF3_ReadUTF8 r))"

definition AMF3_ReadInteger :: "bytes \<Rightarrow> (u32 \<times> bytes) res" where
  "AMF3_ReadInteger r = bindE (ReadByte r) (\<lambda>(marker, r).
     failIf (marker \<noteq> 0x04) (Errorf ''Type error'') (AMF3_ReadU29 r))"

text \<open>\<open>binary.Read(r, binary.BigEndian, &num)\<close> into a \<open>float64\<close>.\<close>

definition binary_Read_float64 :: "bytes \<Rightarrow> (u64 \<times> bytes) res" where
  "binary_Read_float64 r = bindE (ReadFull 8 r) (\<lambda>(b, r). bindE (U64BE b) (\<lambda>v. Inr (v, r)))"

definition AMF3_ReadDouble :: "bytes \<Rightarrow> (u64 \<times> bytes) res" where
  "AMF3_ReadDouble r = bindE (ReadByte r) (\<lambda>(marker, r).
     failIf (marker \<noteq> 0x05) (Errorf ''Type error'') (binary_Read_float64 r))"

definition AMF3_ReadObjectName :: "bytes \<Rightarrow> (string \<times> bytes) res" where
  "AMF3_ReadObjectName r = AMF3_ReadUTF8 r"

definition AMF3_readByteArray :: "bytes \<Rightarrow> (bytes \<times> bytes) res" where
  "AMF3_readByteArray r =
     bindE (AMF3_ReadU29 r) (\<lambda>(len, r).
     failIf (len AND 1 \<noteq> 1) (Errorf ''Unsupported type: reference'')
     (let len = drop_bit 1 len in
      bindE (Read (unat len) r) (\<lambda>(buf, r).
      failIf (length buf \<noteq> unat len) (Errorf ''Read buffer size error'') (Inr (buf, r)))))"

definition AMF3_ReadByteArray :: "bytes \<Rightarrow> (bytes \<times> bytes) res" where
  "AMF3_ReadByteArray r = bindE (ReadByte r) (\<lambda>(marker, r).
     failIf (marker \<noteq> 0x0c) (Errorf ''Type error'') (AMF3_readByteArray r))"

text \<open>The two bytes before the properties of an object: the traits flag and the empty class name.\<close>

definition AMF3_readTraits :: "bytes \<Rightarrow> bytes res" where
  "AMF3_readTraits r =
     bindE (ReadByte r) (\<lambda>(b, r).
     failIf (b \<noteq> 0x0b) (Errorf ''Unsupported type: traits object'')
     (bindE (ReadByte r) (\<lambda>(b, r).
      failIf (b \<noteq> 0x01) (Errorf ''Unsupported type: traits object'') (Inr r))))"

fun AMF3_ReadValue_f :: "nat \<Rightarrow> bytes \<Rightarrow> (gvalue \<times> bytes) res"
  and AMF3_readProps_f :: "nat \<Rightarrow> (string \<times> gvalue) list \<Rightarrow> bytes \<Rightarrow> ((string \<times> gvalue) list \<times> bytes) res" where
  "AMF3_ReadValue_f 0 r = Inl Hang"
| "AMF3_ReadValue_f (Suc f) r =
     bindE (ReadByte r) (\<lambda>(marker, r).
     if marker = 0x00 then Inr (VUndefined, r)
     else if marker = 0x01 then Inr (VNil, r)
     else if marker = 0x02 then Inr (VBool False, r)
     else if marker = 0x03 then Inr (VBool True, r)
     else if marker = 0x04 then bindE (AMF3_ReadU29 r) (\<lambda>(n, r). Inr (VUint (ucast n), r))
     else if marker = 0x05 then bindE (binary_Read_float64 r) (\<lambda>(x, r). Inr (VNumber x, r))
     else if marker = 0x06 then bindE (AMF3_ReadUTF8 r) (\<lambda>(s, r). Inr (VString s, r))
     else if marker = 0x0a then
       bindE (AMF3_readTraits r) (\<lambda>r.
       bindE (AMF3_readProps_f f [] r) (\<lambda>(obj, r). Inr (VObject obj, r)))
     else if marker = 0x0c then bindE (AMF3_readByteArray r) (\<lambda>(b, r). Inr (VBytes b, r))
     else Inl (Errorf ''Unknown marker type: %d''))"
| "AMF3_readProps_f 0 obj r = Inl Hang"
| "AMF3_readProps_f (Suc f) obj r =
     bindE (AMF3_ReadObjectName r) (\<lambda>(name, r).
     if name = '''' then Inr (obj, r)
     else failIf (name \<in> set (map fst obj)) (Errorf ''object-property exists'')
       (bindE (AMF3_ReadValue_f f r) (\<lambda>(value, r).
        AMF3_readProps_f f (obj @ [(name, value)]) r)))"

definition AMF3_ReadValue :: "bytes \<Rightarrow> (gvalue \<times> bytes) res" where
  "AMF3_ReadValue r = AMF3_ReadValue_f (Suc (length r)) r"

definition AMF3_ReadObjectProperty :: "bytes \<Rightarrow> ((string \<times> gvalue) list \<times> bytes) res" where
  "AMF3_ReadObjectProperty r =
     bindE (AMF3_readTraits r) (\<lambda>r. AMF3_readProps_f (Suc (length r)) [] r)"

definition AMF3_ReadObject :: "bytes \<Rightarrow> ((string \<times> gvalue) list \<times> bytes) res" where
  "AMF3_ReadObject r = bindE (ReadByte r) (\<lambda>(marker, r).
     failIf (marker \<noteq> 0x0a) (Errorf ''Type error'') (AMF3_ReadObjectProperty r))"

section \<open>Integers of 29 bits\<close>

lemma seven_bits: "0x7F = (mask 7 :: 'a::len word)"
  by (simp add: mask_eq_exp_minus_1)

lemma bit_0x80: "bit (0x80 :: 'a::len word) n \<longleftrightarrow> n = 7 \<and> 7 < LENGTH('a)"
proof -
  have "(0x80 :: 'a word) = 2 ^ 7" by simp
  then show ?thesis by (simp only: bit_exp_iff) auto
qed

lemma and_0x7F: "x AND 0x7F = take_bit 7 (x :: 'a::len word)"
  by (simp only: seven_bits take_bit_eq_mask)

lemma take7_0x80: "take_bit 7 (x OR 0x80) = take_bit 7 (x :: 'a::len word)"
  by (rule bit_word_eqI) (auto simp only: bit_take_bit_iff bit_or_iff bit_0x80)

lemma take7_byte: "ucast (take_bit 7 (ucast y :: byte)) = take_bit 7 (y :: u32)"
  by (rule bit_word_eqI) (auto simp: bit_simps)

lemma take7_and: "take_bit 7 (x AND 0x7F) = take_bit 7 (x :: 'a::len word)"
  by (simp only: and_0x7F take_bit_take_bit min.idem)

lemma low7:
  "ucast (ucast (x OR 0x80) AND 0x7F :: byte) = take_bit 7 (x :: u32)"
  "ucast (ucast (x AND 0x7F) AND 0x7F :: byte) = take_bit 7 (x :: u32)"
  by (simp_all only: and_0x7F take7_byte take7_0x80 take_bit_take_bit min.idem)

lemma high1:
  "ucast (x OR 0x80) AND 0x80 \<noteq> (0 :: byte)" "ucast (x AND 0x7F) AND 0x80 = (0 :: byte)" for x :: u32
proof -
  have nz: "w \<noteq> 0" if "bit w 7" for w :: byte using that by auto
  have "bit (ucast (x OR 0x80) AND 0x80 :: byte) 7"
    by (simp only: bit_and_iff bit_or_iff bit_0x80 bit_ucast_iff) simp
  then show "ucast (x OR 0x80) AND 0x80 \<noteq> (0 :: byte)"
    using nz by blast
  show "ucast (x AND 0x7F) AND 0x80 = (0 :: byte)"
    by (rule bit_word_eqI)
      (auto simp only: and_0x7F bit_and_iff bit_0x80 bit_ucast_iff bit_take_bit_iff bit_0_eq)
qed

lemma ReadU29_loop_byte:
  "AMF3_ReadU29_loop (Suc i) a (b # r) =
    (if b AND 0x80 = 0 then Inr (push_bit 7 a + ucast (b AND 0x7F), r)
     else AMF3_ReadU29_loop i (push_bit 7 a + ucast (b AND 0x7F)) r)"
  by (simp add: Let_def)

lemma ReadU29_loop_steps:
  "AMF3_ReadU29_loop (Suc i) a (ucast (x OR 0x80) # r) = AMF3_ReadU29_loop i (push_bit 7 a + take_bit 7 x) r"
  "AMF3_ReadU29_loop (Suc i) a (ucast (x AND 0x7F) # r) = Inr (push_bit 7 a + take_bit 7 x, r)"
  "AMF3_ReadU29_loop 0 a (ucast x # r) = Inr (push_bit 8 a + take_bit 8 x, r)"
  by (simp_all only: ReadU29_loop_byte low7 high1 if_True if_False refl)
    (simp_all add: first_byte)

lemma join_plus:
  "push_bit k (take_bit m (drop_bit k n)) + take_bit k n = take_bit (m + k) (n :: 'a::len word)"
proof -
  have "push_bit k (take_bit m (drop_bit k n)) AND take_bit k n = 0"
    by (rule bit_word_eqI) (auto simp: bit_simps)
  then have "push_bit k (take_bit m (drop_bit k n)) + take_bit k n =
      push_bit k (take_bit m (drop_bit k n)) OR take_bit k n" by (rule disjunctive_add_eq_or)
  also have "\<dots> = take_bit (m + k) n" by (rule bit_word_eqI) (auto simp: bit_simps)
  finally show ?thesis .
qed

lemma U29_parts:
  "push_bit 7 (take_bit 7 (drop_bit 7 n)) + take_bit 7 n = take_bit 14 (n :: u32)"
  "push_bit 7 (take_bit 7 (drop_bit 14 n)) + take_bit 7 (drop_bit 7 n) = take_bit 14 (drop_bit 7 (n :: u32))"
  "push_bit 7 (take_bit 14 (drop_bit 7 n)) + take_bit 7 n = take_bit 21 (n :: u32)"
  "push_bit 7 (take_bit 7 (drop_bit 22 n)) + take_bit 7 (drop_bit 15 n) = take_bit 14 (drop_bit 15 (n :: u32))"
  "push_bit 7 (take_bit 14 (drop_bit 15 n)) + take_bit 7 (drop_bit 8 n) = take_bit 21 (drop_bit 8 (n :: u32))"
  "push_bit 8 (take_bit 21 (drop_bit 8 n)) + take_bit 8 n = take_bit 29 (n :: u32)"
  using join_plus [of 7 7 n] join_plus [of 7 7 "drop_bit 7 n"] join_plus [of 7 14 n]
    join_plus [of 7 7 "drop_bit 15 n"] join_plus [of 7 14 "drop_bit 8 n"] join_plus [of 8 21 n]
  by simp_all

lemma word_le_take_bit:
  "n \<le> 0x7F \<Longrightarrow> n AND 0x7F = n" "n \<le> 0x3FFF \<Longrightarrow> take_bit 14 n = n"
  "n \<le> 0x7F \<Longrightarrow> take_bit 7 n = n"
  "n \<le> 0x1FFFFF \<Longrightarrow> take_bit 21 n = n" "n \<le> 0x1FFFFFFF \<Longrightarrow> take_bit 29 n = n" for n :: u32
proof -
  assume "n \<le> 0x7F"
  then have "n < 2 ^ 7" by unat_arith
  then show *: "take_bit 7 n = n" by (simp add: take_bit_id)
  then show "n AND 0x7F = n" by (simp only: and_0x7F)
next
  assume "n \<le> 0x3FFF" then have "n < 2 ^ 14" by unat_arith
  then show "take_bit 14 n = n" by (simp add: take_bit_id)
next
  assume "n \<le> 0x1FFFFF" then have "n < 2 ^ 21" by unat_arith
  then show "take_bit 21 n = n" by (simp add: take_bit_id)
next
  assume "n \<le> 0x1FFFFFFF" then have "n < 2 ^ 29" by unat_arith
  then show "take_bit 29 n = n" by (simp add: take_bit_id)
qed

lemma three: "(3 :: nat) = Suc (Suc (Suc 0))" by simp

lemma U29_roundtrip:
  assumes "n \<le> 0x1FFFFFFF"
  shows "\<exists>w. AMF3_WriteU29 n = Inr (length w, w) \<and> w \<noteq> [] \<and> length w \<le> 4 \<and>
    (\<forall>r. AMF3_ReadU29 (w @ r) = Inr (n, r))"
proof -
  consider "n \<le> 0x7F" | "\<not> n \<le> 0x7F" "n \<le> 0x3FFF" | "\<not> n \<le> 0x7F" "\<not> n \<le> 0x3FFF" "n \<le> 0x1FFFFF"
    | "\<not> n \<le> 0x7F" "\<not> n \<le> 0x3FFF" "\<not> n \<le> 0x1FFFFF" by blast
  then show ?thesis
  proof cases
    case 1
    then have "AMF3_ReadU29_loop 3 0 ([ucast n] @ r) = Inr (n, r)" for r
      using ReadU29_loop_steps(2) [of 2 0 n r] word_le_take_bit [of n]
      by (simp del: AMF3_ReadU29_loop.simps)
    with 1 show ?thesis by (simp add: AMF3_WriteU29_def AMF3_ReadU29_def)
  next
    case 2
    then have "AMF3_ReadU29_loop 3 0 ([ucast (drop_bit 7 n OR 0x80), ucast (n AND 0x7F)] @ r) = Inr (n, r)" for r
      using word_le_take_bit [of n]
      by (simp only: three append_Cons append_Nil ReadU29_loop_steps take7_and push_bit_of_0 add_0 U29_parts)
    with 2 show ?thesis by (simp add: AMF3_WriteU29_def AMF3_ReadU29_def)
  next
    case 3
    then have "AMF3_ReadU29_loop 3 0 ([ucast (drop_bit 14 n OR 0x80), ucast (drop_bit 7 n AND 0x7F OR 0x80),
        ucast (n AND 0x7F)] @ r) = Inr (n, r)" for r
      using word_le_take_bit [of n]
      by (simp only: three append_Cons append_Nil ReadU29_loop_steps take7_and push_bit_of_0 add_0 U29_parts)
    with 3 show ?thesis by (simp add: AMF3_WriteU29_def AMF3_ReadU29_def)
  next
    case 4
    then have "AMF3_ReadU29_loop 3 0 ([ucast (drop_bit 22 n OR 0x80), ucast (drop_bit 15 n AND 0x7F OR 0x80),
        ucast (drop_bit 8 n AND 0x7F OR 0x80), ucast n] @ r) = Inr (n, r)" for r
      using word_le_take_bit [of n] assms
      by (simp only: three append_Cons append_Nil ReadU29_loop_steps take7_and push_bit_of_0 add_0 U29_parts)
    with 4 assms show ?thesis by (simp add: AMF3_WriteU29_def AMF3_ReadU29_def)
  qed
qed

section \<open>A code for values in a stream\<close>

fun write_list :: "('a \<Rightarrow> written) \<Rightarrow> 'a list \<Rightarrow> written" where
  "write_list wr [] = emit []"
| "write_list wr (v # vs) = wcat (wr v) (write_list wr vs)"

fun read_list :: "(bytes \<Rightarrow> ('b \<times> bytes) res) \<Rightarrow> nat \<Rightarrow> bytes \<Rightarrow> ('b list \<times> bytes) res" where
  "read_list rd 0 r = Inr ([], r)"
| "read_list rd (Suc n) r = bindE (rd r) (\<lambda>(v, r). bindE (read_list rd n r) (\<lambda>(vs, r). Inr (v # vs, r)))"

text \<open>
  The contract of a write function and a read function: what is written is reported with its exact
  length, is not empty, and is read back as the value in normal form whatever follows.
\<close>

locale stream_codec =
  fixes wr :: "'a \<Rightarrow> written"
    and rd :: "bytes \<Rightarrow> ('b \<times> bytes) res"
    and norm :: "'a \<Rightarrow> 'b"
    and ok :: "'a \<Rightarrow> bool"
  assumes rt: "ok v \<Longrightarrow> \<exists>w. wr v = Inr (length w, w) \<and> w \<noteq> [] \<and> (\<forall>r. rd (w @ r) = Inr (norm v, r))"
begin

lemma write_count: "ok v \<Longrightarrow> wr v = Inr (n, w) \<Longrightarrow> n = length w"
  using rt by fastforce

lemma read_written: "ok v \<Longrightarrow> wr v = Inr (n, w) \<Longrightarrow> rd (w @ r) = Inr (norm v, r)"
  using rt by fastforce

text \<open>The code is prefix-free up to the normal form.\<close>

lemma prefix_free:
  "ok v \<Longrightarrow> ok v' \<Longrightarrow> wr v = Inr (n, w) \<Longrightarrow> wr v' = Inr (n', w @ x) \<Longrightarrow> norm v = norm v' \<and> x = []"
  using read_written [of v n w x] read_written [of v' n' "w @ x" "[]"] by simp

lemma list_roundtrip:
  "(\<forall>v\<in>set vs. ok v) \<Longrightarrow> \<exists>w. write_list wr vs = Inr (length w, w) \<and>
     (\<forall>r. read_list rd (length vs) (w @ r) = Inr (map norm vs, r))"
proof (induction vs)
  case (Cons v vs)
  then obtain w where w: "write_list wr vs = Inr (length w, w)"
    "\<And>r. read_list rd (length vs) (w @ r) = Inr (map norm vs, r)" by auto
  obtain x where "wr v = Inr (length x, x)" "\<And>r. rd (x @ r) = Inr (norm v, r)"
    using rt [of v] Cons.prems by auto
  with w show ?case by simp
qed simp

end

interpretation u29: stream_codec AMF3_WriteU29 AMF3_ReadU29 "\<lambda>n. n" "\<lambda>n. n \<le> 0x1FFFFFFF"
  by unfold_locales (use U29_roundtrip in blast)

lemma u29_length_facts:
  assumes "len < 2 ^ 28"
  shows "u29_length len \<le> 0x1FFFFFFF" "u29_length len AND 1 = 1"
    "unat (drop_bit 1 (u29_length len)) = len"
proof -
  have u: "unat (u29_length len) = 2 * len + 1"
    using assms unfolding u29_length_def by (simp only: unsigned_of_nat) (simp add: take_bit_nat_eq_self)
  then show "u29_length len \<le> 0x1FFFFFFF" using assms by (simp add: word_le_nat_alt)
  show "unat (drop_bit 1 (u29_length len)) = len"
    using assms by (simp only: unsigned_drop_bit_eq u) (simp add: drop_bit_eq_div take_bit_eq_mod)
  show "u29_length len AND 1 = 1" by (simp add: u29_length_def and_one_eq mod_2_eq_odd)
qed

lemma UTF8_roundtrip:
  assumes "length s < 2 ^ 28"
  shows "\<exists>w. AMF3_WriteUTF8 s = Inr (length w, w) \<and> w \<noteq> [] \<and> (\<forall>r. AMF3_ReadUTF8 (w @ r) = Inr (s, r))"
proof (cases "s = ''''")
  case True
  have "AMF3_ReadU29 (1 # r) = Inr (1, r)" for r
    using u29.read_written [of 1 1 "[1]" r] by (simp add: AMF3_WriteU29_def)
  then show ?thesis using True by (simp add: AMF3_WriteUTF8_def AMF3_ReadUTF8_def)
next
  case False
  note facts = u29_length_facts [OF assms]
  obtain w where w: "AMF3_WriteU29 (u29_length (length s)) = Inr (length w, w)" "w \<noteq> []"
    "\<And>r. AMF3_ReadU29 (w @ r) = Inr (u29_length (length s), r)"
    using u29.rt [OF facts(1)] by blast
  have "drop_bit 1 (u29_length (length s)) \<noteq> 0"
  proof
    assume "drop_bit 1 (u29_length (length s)) = 0"
    then have "length s = 0" using facts(3) by simp
    with False show False by simp
  qed
  then have "AMF3_ReadUTF8 ((w @ bytes_of_string s) @ r) = Inr (s, r)" for r
    using False w(3) facts(2,3) ReadInto_append [of "bytes_of_string s" "length s" r]
    by (simp add: AMF3_ReadUTF8_def Let_def)
  with w False show ?thesis
    by (intro exI [of _ "w @ bytes_of_string s"]) (simp add: AMF3_WriteUTF8_def)
qed

interpretation utf8_3: stream_codec AMF3_WriteUTF8 AMF3_ReadUTF8 "\<lambda>s. s" "\<lambda>s. length s < 2 ^ 28"
  by unfold_locales (use UTF8_roundtrip in blast)

section \<open>Round trip of values\<close>

text \<open>
  The values that can be written and read back, and the form in which they come back: integers as
  numbers, the entries of an object in the order of the keys, a nil map as an empty object.
  Arrays are written but not read; an empty byte array is not read at the end of the input.
\<close>

fun canon3 :: "gvalue \<Rightarrow> gvalue" where
  "canon3 (VInt i) = VNumber (float_of_int i)"
| "canon3 (VUint i) = VNumber (float_of_int (uint i))"
| "canon3 VNilMap = VObject []"
| "canon3 (VObject kvs) = VObject (sort_entries (map (\<lambda>(k, v). (k, canon3 v)) kvs))"
| "canon3 v = v"

fun ok3 :: "gvalue \<Rightarrow> bool" where
  "ok3 (VString s) \<longleftrightarrow> length s < 2 ^ 28"
| "ok3 (VBytes b) \<longleftrightarrow> b \<noteq> [] \<and> length b < 2 ^ 28"
| "ok3 (VObject kvs) \<longleftrightarrow> distinct (map fst kvs) \<and>
     list_all (\<lambda>(k, v). k \<noteq> '''' \<and> length k < 2 ^ 28 \<and> ok3 v) kvs"
| "ok3 (VArray vs) \<longleftrightarrow> False"
| "ok3 VNilPtr \<longleftrightarrow> False"
| "ok3 (VPtr v) \<longleftrightarrow> False"
| "ok3 (VStruct fs) \<longleftrightarrow> False"
| "ok3 (VTime t) \<longleftrightarrow> False"
| "ok3 VUnsupported \<longleftrightarrow> False"
| "ok3 v \<longleftrightarrow> True"

definition reads3 :: "gvalue \<Rightarrow> bytes \<Rightarrow> bool" where
  "reads3 v w \<longleftrightarrow> AMF3_WriteValue v = Inr (length w, w) \<and> w \<noteq> [] \<and>
     (\<forall>f r. length w < f \<longrightarrow> AMF3_ReadValue_f f (w @ r) = Inr (canon3 v, r))"

lemma binary_Read_float64_u64be [simp]: "binary_Read_float64 (u64be x @ r) = Inr (x, r)"
  unfolding binary_Read_float64_def by (rule c64.read_enc [OF TrueI])


lemma reads3_I:
  assumes "AMF3_WriteValue v = Inr (length w, w)" "w \<noteq> []"
    and "\<And>f r. length w \<le> f \<Longrightarrow> AMF3_ReadValue_f (Suc f) (w @ r) = Inr (canon3 v, r)"
  shows "reads3 v w"
  unfolding reads3_def
proof (intro conjI allI impI assms(1,2))
  fix f r assume "length w < f"
  then obtain f' where "f = Suc f'" "length w \<le> f'" by (cases f) auto
  then show "AMF3_ReadValue_f f (w @ r) = Inr (canon3 v, r)" using assms(3) by simp
qed

lemma reads3_double:
  "AMF3_WriteValue v = AMF3_WriteDouble x \<Longrightarrow> canon3 v = VNumber x \<Longrightarrow> \<exists>w. reads3 v w"
  by (rule exI [of _ "0x05 # u64be x"], rule reads3_I) (auto simp: AMF3_WriteDouble_def)

lemma reads3_bytes:
  assumes "b \<noteq> []" "length b < 2 ^ 28"
  shows "\<exists>w. reads3 (VBytes b) w"
proof -
  note facts = u29_length_facts [OF assms(2)]
  obtain w where w: "AMF3_WriteU29 (u29_length (length b)) = Inr (length w, w)"
    "\<And>r. AMF3_ReadU29 (w @ r) = Inr (u29_length (length b), r)" using u29.rt [OF facts(1)] by blast
  then have "AMF3_readByteArray (w @ b @ r) = Inr (b, r)" for r
    using facts(2,3) assms(1) Read_append [of b "length b" r]
    by (simp add: AMF3_readByteArray_def Let_def)
  with w show ?thesis by (intro exI [of _ "0x0c # w @ b"] reads3_I) auto
qed

text \<open>The entries of an object, in the order given.\<close>

definition reads3s :: "(string \<times> gvalue) list \<Rightarrow> bytes \<Rightarrow> bool" where
  "reads3s kvs w \<longleftrightarrow> AMF3_writeEntries kvs = Inr (length w, w) \<and>
     (\<forall>f acc r. distinct (map fst (acc @ kvs)) \<longrightarrow> Suc (length w) \<le> f \<longrightarrow>
       AMF3_readProps_f f acc (w @ 0x01 # r) = Inr (acc @ map (\<lambda>(k, v). (k, canon3 v)) kvs, r))"

lemma reads3s_Nil: "reads3s [] []"
  unfolding reads3s_def
proof (intro conjI allI impI)
  fix f :: nat and acc :: "(string \<times> gvalue) list" and r
  assume "Suc (length ([] :: bytes)) \<le> f"
  then obtain f' where "f = Suc f'" by (cases f) auto
  moreover have "AMF3_ReadObjectName (0x01 # r) = Inr ('''', r)"
    using utf8_3.read_written [of "''''" 1 "[1]" r] by (simp add: AMF3_WriteUTF8_def AMF3_ReadObjectName_def)
  ultimately show "AMF3_readProps_f f acc ([] @ 0x01 # r) = Inr (acc @ map (\<lambda>(k, v). (k, canon3 v)) [], r)"
    by simp
qed simp

lemma reads3s_Cons:
  assumes k: "k \<noteq> ''''" "length k < 2 ^ 28" and v: "reads3 v wv" and s: "reads3s kvs ws"
  shows "\<exists>w. reads3s ((k, v) # kvs) w"
proof -
  obtain wk where wk: "AMF3_WriteUTF8 k = Inr (length wk, wk)" "wk \<noteq> []"
    "\<And>r. AMF3_ReadUTF8 (wk @ r) = Inr (k, r)" using utf8_3.rt [OF k(2)] by blast
  have "reads3s ((k, v) # kvs) (wk @ wv @ ws)"
    unfolding reads3s_def
  proof (intro conjI allI impI)
    show "AMF3_writeEntries ((k, v) # kvs) = Inr (length (wk @ wv @ ws), wk @ wv @ ws)"
      using wk v s by (simp add: reads3_def reads3s_def AMF3_WriteObjectName_def)
  next
    fix f :: nat and acc r
    assume d: "distinct (map fst (acc @ (k, v) # kvs))" and f: "Suc (length (wk @ wv @ ws)) \<le> f"
    then obtain f' where f': "f = Suc f'" "length wk + (length wv + length ws) \<le> f'" by (cases f) auto
    have "0 < length wk" using wk(2) by simp
    then have lv: "length wv < f'" and ls: "Suc (length ws) \<le> f'" using f'(2) by linarith+
    have "AMF3_ReadValue_f f' (wv @ ws @ 0x01 # r) = Inr (canon3 v, ws @ 0x01 # r)"
      using v lv by (simp add: reads3_def)
    moreover have "AMF3_readProps_f f' (acc @ [(k, canon3 v)]) (ws @ 0x01 # r) =
        Inr ((acc @ [(k, canon3 v)]) @ map (\<lambda>(k, v). (k, canon3 v)) kvs, r)"
      using s ls d by (simp add: reads3s_def)
    moreover have "k \<notin> set (map fst acc)" using d by auto
    ultimately show "AMF3_readProps_f f acc ((wk @ wv @ ws) @ 0x01 # r) =
        Inr (acc @ map (\<lambda>(k, v). (k, canon3 v)) ((k, v) # kvs), r)"
      using f'(1) wk(3) k(1) by (simp add: AMF3_ReadObjectName_def)
  qed
  then show ?thesis by blast
qed

lemma reads3_object:
  assumes "reads3s (sort_entries kvs) w" "distinct (map fst kvs)"
  shows "reads3 (VObject kvs) (0x0a # 0x0b # 0x01 # w @ [0x01])"
proof (rule reads3_I)
  show "AMF3_WriteValue (VObject kvs) =
      Inr (length (0x0a # 0x0b # 0x01 # w @ [0x01]), 0x0a # 0x0b # 0x01 # w @ [0x01])"
    using assms(1) by (simp add: reads3s_def AMF3_WriteObjectMarker_def AMF3_WriteUTF8_def
        AMF3_WriteObjectEndMarker_def)
  fix f r assume "length (0x0a # 0x0b # 0x01 # w @ [0x01 :: byte]) \<le> f"
  then show "AMF3_ReadValue_f (Suc f) ((0x0a # 0x0b # 0x01 # w @ [0x01]) @ r) = Inr (canon3 (VObject kvs), r)"
    using assms by (simp add: reads3s_def AMF3_readTraits_def sort_entries_map_value)
qed simp

lemma reads3_exists:
  "ok3 v \<Longrightarrow> \<exists>w. reads3 v w"
  "list_all (\<lambda>(k, v). k \<noteq> '''' \<and> length k < 2 ^ 28 \<and> ok3 v) kvs \<Longrightarrow> \<exists>w. reads3s kvs w"
  "True"
proof (induction v and kvs and rule: AMF3_WriteValue_AMF3_writeEntries_AMF3_writeElems.induct)
  case 1 show ?case by (rule exI [of _ "[0x01]"], rule reads3_I) (simp_all add: AMF3_WriteNull_def)
next
  case (2 s)
  then obtain w where "AMF3_WriteUTF8 s = Inr (length w, w)" "\<And>r. AMF3_ReadUTF8 (w @ r) = Inr (s, r)"
    using utf8_3.rt [of s] by auto
  then show ?case by (intro exI [of _ "0x06 # w"] reads3_I) (auto simp: AMF3_WriteString_def)
next
  case (3 b)
  show ?case by (rule exI [of _ "[if b then 0x03 else 0x02]"], rule reads3_I)
    (simp_all add: AMF3_WriteBoolean_def)
next
  case (9) show ?case
    by (rule exI [of _ "[0x0a, 0x0b, 0x01, 0x01]"])
      (use reads3_object [OF _ , of "[]" "[]"] reads3s_Nil in
        \<open>simp add: reads3_def sort_entries_def AMF3_WriteObjectMarker_def
          AMF3_WriteUTF8_def AMF3_WriteObjectEndMarker_def\<close>)
next
  case (10 kvs)
  then obtain w where "reads3s (sort_entries kvs) w" by (auto simp: list_all_iff)
  with 10 show ?case using reads3_object by fastforce
next
  case 11 show ?case by (rule exI [of _ "[0x00]"], rule reads3_I) (simp_all add: AMF3_WriteUndefined_def)
next
  case 17 show ?case using reads3s_Nil by blast
next
  case (18 k v kvs)
  then obtain wv ws where "reads3 v wv" "reads3s kvs ws" by auto
  with 18 show ?case using reads3s_Cons [of k v wv kvs ws] by simp
qed (auto intro: reads3_double reads3_bytes)

interpretation value3: stream_codec AMF3_WriteValue AMF3_ReadValue canon3 ok3
proof
  fix v assume "ok3 v"
  then obtain w where "reads3 v w" using reads3_exists(1) by blast
  then show "\<exists>w. AMF3_WriteValue v = Inr (length w, w) \<and> w \<noteq> [] \<and>
      (\<forall>r. AMF3_ReadValue (w @ r) = Inr (canon3 v, r))"
    by (auto simp: reads3_def AMF3_ReadValue_def simp del: AMF3_ReadValue_f.simps)
qed

section \<open>The readers return on every input\<close>

lemma U29_loop_total: "returns (AMF3_ReadU29_loop i n r)"
  "AMF3_ReadU29_loop i n r = Inr (v, r') \<Longrightarrow> length r' < length r"
proof (induction i arbitrary: n r)
  case (Suc i)
  { case 1 show ?case by (auto intro!: returning Suc.IH(1) simp: Let_def) }
  { case 2 then show ?case
      by (cases r) (auto simp: Let_def split: if_splits dest: Suc.IH(2)) }
qed (auto intro!: returning simp: bindE_eq_Inr dest!: shrinks)

lemma base_readers_return [returning]:
  "returns (AMF3_ReadU29 r)" "returns (AMF3_ReadUTF8 r)" "returns (AMF3_readByteArray r)"
  "returns (AMF3_readTraits r)" "returns (binary_Read_float64 r)"
proof -
  show "returns (AMF3_ReadU29 r)" for r by (simp add: AMF3_ReadU29_def U29_loop_total)
  note u = this
  show "returns (AMF3_ReadUTF8 r)" "returns (AMF3_readByteArray r)" "returns (AMF3_readTraits r)"
    unfolding AMF3_ReadUTF8_def AMF3_readByteArray_def AMF3_readTraits_def Let_def
    by (auto intro!: returning u)
  have "length b = 8 \<Longrightarrow> returns (U64BE b)" for b by (simp add: U64BE_def failIf_def Let_def)
  then show "returns (binary_Read_float64 r)"
    unfolding binary_Read_float64_def by (auto intro!: returning simp: ReadFull_Inr)
qed

lemma base_readers_shrink [shrinks]:
  "AMF3_ReadU29 r = Inr (n, r') \<Longrightarrow> length r' < length r"
  "AMF3_ReadUTF8 r = Inr (s, r') \<Longrightarrow> length r' < length r"
  "AMF3_readByteArray r = Inr (b, r') \<Longrightarrow> length r' < length r"
  "AMF3_readTraits r = Inr r' \<Longrightarrow> length r' < length r"
  "binary_Read_float64 r = Inr (x, r') \<Longrightarrow> length r' < length r"
proof -
  show u: "AMF3_ReadU29 r = Inr (n, r') \<Longrightarrow> length r' < length r" for n r r'
    by (simp add: AMF3_ReadU29_def U29_loop_total(2))
  show "AMF3_ReadUTF8 r = Inr (s, r') \<Longrightarrow> length r' < length r"
    "AMF3_readByteArray r = Inr (b, r') \<Longrightarrow> length r' < length r"
    by (auto simp: AMF3_ReadUTF8_def AMF3_readByteArray_def Let_def bindE_eq_Inr failIf_eq_Inr
        split: if_splits dest!: u ReadInto_shrinks Read_shrinks)
  show "AMF3_readTraits r = Inr r' \<Longrightarrow> length r' < length r"
    by (auto simp: AMF3_readTraits_def bindE_eq_Inr failIf_eq_Inr dest!: ReadByte_shrinks)
  show "binary_Read_float64 r = Inr (x, r') \<Longrightarrow> length r' < length r"
    by (auto simp: binary_Read_float64_def bindE_eq_Inr dest!: ReadFull_shrinks)
qed

lemma value3_shrinks:
  "AMF3_ReadValue_f f r = Inr (v, r') \<Longrightarrow> length r' < length r"
  "AMF3_readProps_f f acc r = Inr (kvs, r') \<Longrightarrow> length r' < length r"
proof (induction f r and f acc r arbitrary: v r' and kvs r'
    rule: AMF3_ReadValue_f_AMF3_readProps_f.induct)
  case (2 f r)
  from "2.prems" obtain m r1 where r: "r = m # r1" by (cases r) auto
  show ?case
  proof (cases "m = 0x0a")
    case True
    then obtain r2 obj where "AMF3_readTraits r1 = Inr r2" "AMF3_readProps_f f [] r2 = Inr (obj, r')"
      using "2.prems" by (auto simp: r bindE_eq_Inr)
    with True show ?thesis
      using "2.IH" [of "(m, r1)" m r1 r2 obj r'] base_readers_shrink(4) [of r1 r2] by (auto simp: r)
  next
    case False
    with "2.prems" show ?thesis
      by (auto simp: r bindE_eq_Inr split: if_splits dest!: base_readers_shrink)
  qed
next
  case (4 f acc r)
  from "4.prems" obtain name r1 where n: "AMF3_ReadUTF8 r = Inr (name, r1)"
    by (auto simp: bindE_eq_Inr AMF3_ReadObjectName_def)
  note s = base_readers_shrink(2) [OF n]
  show ?case
  proof (cases "name = ''''")
    case True
    with "4.prems" n s show ?thesis by (simp add: AMF3_ReadObjectName_def)
  next
    case False
    then obtain v r2 where v: "name \<notin> set (map fst acc)" "AMF3_ReadValue_f f r1 = Inr (v, r2)"
      "AMF3_readProps_f f (acc @ [(name, v)]) r2 = Inr (kvs, r')"
      using "4.prems" n by (auto simp: bindE_eq_Inr AMF3_ReadObjectName_def failIf_eq_Inr)
    have "AMF3_ReadObjectName r = Inr (name, r1)" using n by (simp add: AMF3_ReadObjectName_def)
    from "4.IH"(1) [OF this refl False v(2)] "4.IH"(2) [OF this refl False v(2) refl v(3)] s
    show ?thesis by simp
  qed
qed auto

lemma AMF3_enough:
  "length r < f \<Longrightarrow> returns (AMF3_ReadValue_f f r)"
  "length r < f \<Longrightarrow> returns (AMF3_readProps_f f acc r)"
proof (induction f r and f acc r rule: AMF3_ReadValue_f_AMF3_readProps_f.induct)
  case (2 f r)
  show ?case
  proof (cases r)
    case (Cons m r1)
    have "returns (AMF3_readProps_f f [] r2)" if "m = 0x0a" "AMF3_readTraits r1 = Inr r2" for r2
      using "2.IH" [of "(m, r1)" m r1 r2] that base_readers_shrink(4) [of r1 r2] "2.prems" Cons by simp
    with Cons show ?thesis by (auto intro!: returning)
  qed simp
next
  case (4 f acc r)
  have step: "returns (bindE (AMF3_ReadValue_f f r1)
      (\<lambda>(value, r). AMF3_readProps_f f (acc @ [(name, value)]) r))"
    if n: "AMF3_ReadObjectName r = Inr (name, r1)" "name \<noteq> ''''" for name r1
  proof -
    have l: "length r1 < f"
      using base_readers_shrink(2) [of r name r1] n "4.prems" by (simp add: AMF3_ReadObjectName_def)
    show ?thesis
    proof (intro returns_bindE returns_prod)
      show "returns (AMF3_ReadValue_f f r1)" using "4.IH"(1) [OF n(1) refl n(2) l] .
      fix x val r2 assume x: "AMF3_ReadValue_f f r1 = Inr x" "x = (val, r2)"
      then have "length r2 < f" using value3_shrinks(1) [of f r1 val r2] l by simp
      then show "returns (AMF3_readProps_f f (acc @ [(name, val)]) r2)"
        using "4.IH"(2) [OF n(1) refl n(2) x(1)] x(2) by simp
    qed
  qed
  have "returns (AMF3_ReadObjectName r)" unfolding AMF3_ReadObjectName_def by (rule returning)
  then show ?case using step by (auto intro!: returns_bindE [of "AMF3_ReadObjectName r"] returns_failIf)
qed auto

lemma AMF3_ReadValue_enough [returning]: "returns (AMF3_ReadValue r)"
  unfolding AMF3_ReadValue_def by (rule AMF3_enough) simp

lemma AMF3_ReadObjectProperty_enough [returning]: "returns (AMF3_ReadObjectProperty r)"
  unfolding AMF3_ReadObjectProperty_def by (intro returning AMF3_enough) simp

text \<open>C22: An AMF3 value that the package can represent is written with the count reported equal to
  the bytes appended and is read back by AMF3_ReadValue in normal form (integers as float64, object
  entries sorted by key), whatever follows.\<close>

theorem AMF3_value_roundtrip:
  assumes "ok3 v"
  shows "\<exists>w. AMF3_WriteValue v = Inr (length w, w) \<and> (\<forall>r. AMF3_ReadValue (w @ r) = Inr (canon3 v, r))"
  using value3.rt [OF assms] by blast

definition demo3 :: gvalue where
  "demo3 = VObject [(''tcUrl'', VString ''rtmp://h/a''), (''app'', VObject [(''n'', VInt 3), (''b'', VBytes [1, 2])])]"

theorem AMF3_value_roundtrip_witness:
  "ok3 demo3 \<and> (\<exists>w. AMF3_WriteValue demo3 = Inr (length w, w) \<and>
     AMF3_ReadValue (w @ [7]) =
       Inr (VObject [(''app'', VObject [(''b'', VBytes [1, 2]), (''n'', VNumber 0x4008000000000000)]),
                     (''tcUrl'', VString ''rtmp://h/a'')], [7]))"
proof -
  have ok: "ok3 demo3" by (simp add: demo3_def)
  have "canon3 demo3 = VObject [(''app'', VObject [(''b'', VBytes [1, 2]), (''n'', VNumber 0x4008000000000000)]),
      (''tcUrl'', VString ''rtmp://h/a'')]" by code_simp
  with ok AMF3_value_roundtrip [OF ok] show ?thesis by auto
qed

text \<open>The 29-bit integers of AMF3: every value up to 0x1FFFFFFF is written in one to four bytes
  and read back, a larger one is refused.\<close>

theorem AMF3_U29_roundtrip:
  "if n \<le> 0x1FFFFFFF
   then \<exists>w. AMF3_WriteU29 n = Inr (length w, w) \<and> 1 \<le> length w \<and> length w \<le> 4 \<and>
     (\<forall>r. AMF3_ReadU29 (w @ r) = Inr (n, r))
   else AMF3_WriteU29 n = Inl (Errorf ''out of range'')"
proof (cases "n \<le> 0x1FFFFFFF")
  case True
  with U29_roundtrip [OF True] show ?thesis by (auto simp: Suc_le_eq)
next
  case False
  moreover have "\<not> n \<le> 0x7F" "\<not> n \<le> 0x3FFF" "\<not> n \<le> 0x1FFFFF" using False by unat_arith+
  ultimately show ?thesis by (simp add: AMF3_WriteU29_def)
qed

end
