(* ===== verification/Amf0.thy ===== *)
theory Amf0
  imports Amf3
begin

text \<open>
  \<open>utils/amf/amf0.go\<close> and \<open>utils/amf/amftools.go\<close>: writing and reading AMF0 values.  Writers and
  readers are modelled as in \<open>Amf3\<close>.
\<close>

section \<open>Write functions\<close>

abbreviation unsupported :: go_error where "unsupported \<equiv> Errorf ''Unsupported type''"

definition WriteMarker :: "byte \<Rightarrow> written" where "WriteMarker mark = emit [mark]"

definition WriteUTF8 :: "string \<Rightarrow> u16 \<Rightarrow> bytes" where
  "WriteUTF8 s len = u16be len @ bytes_of_string s"

definition WriteUTF8Long :: "string \<Rightarrow> u32 \<Rightarrow> bytes" where
  "WriteUTF8Long s len = u32be len @ bytes_of_string s"

definition WriteString :: "string \<Rightarrow> written" where
  "WriteString str =
     (let len = of_nat (length str) :: u32 in
      if 0xFFFF < len then Inr (unat (len + 5), 0x0c # WriteUTF8Long str len)
      else Inr (unat (len + 3), 0x02 # WriteUTF8 str (ucast len)))"

definition WriteDouble :: "u64 \<Rightarrow> written" where
  "WriteDouble num = Inr (9, 0x00 # u64be num)"

definition WriteBoolean :: "bool \<Rightarrow> written" where
  "WriteBoolean b = emit [0x01, if b then 1 else 0]"

definition WriteNull :: written where "WriteNull = emit [0x05]"

definition WriteUndefined :: written where "WriteUndefined = emit [0x06]"

definition WriteObjectMarker :: written where "WriteObjectMarker = WriteMarker 0x03"

definition WriteObjectEndMarker :: written where "WriteObjectEndMarker = emit [0x00, 0x00, 0x09]"

definition WriteObjectName :: "string \<Rightarrow> written" where
  "WriteObjectName name =
     (let len = of_nat (length name) :: u16 in Inr (unat (len + 2), WriteUTF8 name len))"

text \<open>The elements of a byte slice, each an unsigned integer.\<close>

fun writeByteElems :: "nat \<Rightarrow> bytes \<Rightarrow> written" where
  "writeByteElems i [] = emit []"
| "writeByteElems i (b # bs) =
     wcat (WriteObjectName (decimal i))
       (wcat (WriteDouble (float_of_int (uint b))) (writeByteElems (Suc i) bs))"

text \<open>
  The name under which \<open>WriteStruct\<close> writes a field: \<open>None\<close> for a field it skips.  A tag that ends in
  \<open>,omitempty\<close> asks whether the struct itself is nil, which reflection refuses with a panic.
\<close>

definition fieldName :: "string \<Rightarrow> string \<Rightarrow> string option res" where
  "fieldName fname tag =
     (if tag = '''' then Inr (Some fname)
      else if tag = ''-'' then Inr None
      else if 10 \<le> length tag \<and> drop (length tag - 10) tag = '',omitempty''
        then Inl (Panic ''reflect: call of reflect.Value.IsNil on struct Value'')
      else Inr (Some tag))"

text \<open>
  \<open>WriteValue\<close> and \<open>writeValue\<close> with the loops over map entries, slice elements and struct fields.
  \<open>Undefined\<close> has kind Struct (without fields), \<open>Object\<close> kind Map and \<open>[]interface{}\<close> kind Slice,
  so the type switch at the end of \<open>writeValue\<close> is reached by none of them.
\<close>

function WriteValue :: "gvalue \<Rightarrow> written"
  and writeEntries :: "(string \<times> gvalue) list \<Rightarrow> written"
  and writeElems :: "nat \<Rightarrow> gvalue list \<Rightarrow> written"
  and WriteStruct :: "(string \<times> string \<times> bool \<times> gvalue) list \<Rightarrow> written" where
  "WriteValue VNil = WriteNull"
| "WriteValue (VString s) = WriteString s"
| "WriteValue (VBool b) = WriteBoolean b"
| "WriteValue (VInt i) = WriteDouble (float_of_int i)"
| "WriteValue (VUint i) = WriteDouble (float_of_int (uint i))"
| "WriteValue (VNumber f) = WriteDouble f"
| "WriteValue (VBytes b) =
     wcat (WriteMarker 0x08) (wcat (emit (u32be (of_nat (length b))))
       (wcat (writeByteElems 0 b) WriteObjectEndMarker))"
| "WriteValue (VArray vs) =
     wcat (WriteMarker 0x08) (wcat (emit (u32be (of_nat (length vs))))
       (wcat (writeElems 0 vs) WriteObjectEndMarker))"
| "WriteValue VNilMap = WriteNull"
| "WriteValue (VObject kvs) =
     wcat WriteObjectMarker (wcat (writeEntries (sort_entries kvs)) WriteObjectEndMarker)"
| "WriteValue VNilPtr = WriteNull"
| "WriteValue (VPtr v) = WriteValue v"
| "WriteValue (VStruct fs) =
     wcat WriteObjectMarker (wcat (WriteStruct fs) WriteObjectEndMarker)"
| "WriteValue VUndefined = wcat WriteObjectMarker (wcat (emit []) WriteObjectEndMarker)"
| "WriteValue (VTime t) =
     Inl (Panic ''reflect.Value.Interface: cannot return value obtained from unexported field or method'')"
| "WriteValue VUnsupported = Inl unsupported"
| "writeEntries [] = emit []"
| "writeEntries ((k, v) # kvs) =
     wcat (WriteObjectName k) (wcat (WriteValue v) (writeEntries kvs))"
| "writeElems i [] = emit []"
| "writeElems i (v # vs) =
     wcat (WriteObjectName (decimal i)) (wcat (WriteValue v) (writeElems (Suc i) vs))"
| "WriteStruct [] = emit []"
| "WriteStruct ((fname, tag, anonymous, v) # fs) =
     (if anonymous then
        wcat (case v of VStruct fs' \<Rightarrow> WriteStruct fs' | VUndefined \<Rightarrow> emit []
              | _ \<Rightarrow> Inl (Panic ''reflect: call of reflect.Value.NumField on %s Value''))
          (WriteStruct fs)
      else bindE (fieldName fname tag) (\<lambda>name.
        case name of None \<Rightarrow> WriteStruct fs
        | Some name \<Rightarrow> wcat (WriteObjectName name)
            (wcat (case v of VNil \<Rightarrow> Inl unsupported | _ \<Rightarrow> WriteValue v) (WriteStruct fs))))"
  by pat_completeness auto
termination
  by (relation "measure (\<lambda>x. case x of
        Inl (Inl v) \<Rightarrow> Suc (size v)
      | Inl (Inr kvs) \<Rightarrow> Suc (size_list (size_prod (\<lambda>_. 0) size) kvs)
      | Inr (Inl (i, vs)) \<Rightarrow> Suc (size_list size vs)
      | Inr (Inr fs) \<Rightarrow> Suc (size_list (size_prod (\<lambda>_. 0) (size_prod (\<lambda>_. 0) (size_prod (\<lambda>_. 0) size))) fs))")
    (auto simp: emit_def)

text \<open>\<open>WriteEcmaArray\<close> and \<open>WriteObject\<close>, the latter on the order in which the map is iterated.\<close>

definition WriteEcmaArray :: "gvalue list \<Rightarrow> written" where
  "WriteEcmaArray arr =
     wcat (WriteMarker 0x08) (wcat (emit (u32be (of_nat (length arr))))
       (wcat (writeElems 0 arr) WriteObjectEndMarker))"

definition WriteObject :: "(string \<times> gvalue) list \<Rightarrow> written" where
  "WriteObject obj = wcat WriteObjectMarker (wcat (writeEntries obj) WriteObjectEndMarker)"

section \<open>Command arguments (amftools.go)\<close>

text \<open>The error of \<open>WriteValue\<close>, wrapped; a panic is not.\<close>

definition wrapWriteValue :: "written \<Rightarrow> written" where
  "wrapWriteValue m = (case m of Inl (Panic p) \<Rightarrow> Inl (Panic p) | Inl Hang \<Rightarrow> Inl Hang
     | Inl e \<Rightarrow> Inl (Errorf ''WriteValue error: %s'') | Inr x \<Rightarrow> Inr x)"

definition WriteArrayAsSiblingButElemArrayAsArray :: "gvalue list \<Rightarrow> bytes res" where
  "WriteArrayAsSiblingButElemArrayAsArray vals =
     bindE (write_list (\<lambda>c. wrapWriteValue (WriteValue c)) vals) (\<lambda>(n, b). Inr b)"

text \<open>A slice among the arguments is an object given as alternating names and values.\<close>

fun writePairs :: "gvalue list \<Rightarrow> written" where
  "writePairs [] = emit []"
| "writePairs [k] = (case k of VString name \<Rightarrow> wcat (WriteObjectName name) (Inl index_panic)
     | _ \<Rightarrow> Inl (Panic ''interface conversion''))"
| "writePairs (k # v # kvs) = (case k of
     VString name \<Rightarrow> wcat (WriteObjectName name) (wcat (WriteValue v) (writePairs kvs))
   | _ \<Rightarrow> Inl (Panic ''interface conversion''))"

definition writeSibling :: "gvalue \<Rightarrow> written" where
  "writeSibling c = (case c of
     VArray kvs \<Rightarrow> wcat WriteObjectMarker (wcat (writePairs kvs) WriteObjectEndMarker)
   | VBytes b \<Rightarrow> wcat WriteObjectMarker
       (wcat (writePairs (map (\<lambda>x. VUint (ucast x)) b)) WriteObjectEndMarker)
   | _ \<Rightarrow> wrapWriteValue (WriteValue c))"

definition WriteArrayAsSiblingButElemArrayAsObject :: "gvalue list \<Rightarrow> bytes res" where
  "WriteArrayAsSiblingButElemArrayAsObject vals =
     bindE (write_list writeSibling vals) (\<lambda>(n, b). Inr b)"

section \<open>Read functions\<close>

definition ReadMarker :: "bytes \<Rightarrow> (byte \<times> bytes) res" where
  "ReadMarker r = ReadByte r"

text \<open>\<open>binary.Read\<close> into a \<open>uint16\<close> and a \<open>uint32\<close>.\<close>

definition binary_Read_u16 :: "bytes \<Rightarrow> (u16 \<times> bytes) res" where
  "binary_Read_u16 r = bindE (ReadFull 2 r) (\<lambda>(b, r). bindE (U16BE b) (\<lambda>v. Inr (v, r)))"

definition binary_Read_u32 :: "bytes \<Rightarrow> (u32 \<times> bytes) res" where
  "binary_Read_u32 r = bindE (ReadFull 4 r) (\<lambda>(b, r). bindE (U32BE b) (\<lambda>v. Inr (v, r)))"

definition ReadUTF8 :: "bytes \<Rightarrow> (string \<times> bytes) res" where
  "ReadUTF8 r =
     bindE (binary_Read_u16 r) (\<lambda>(stringLength, r).
     if stringLength = 0 then Inr ('''', r)
     else bindE (ReadInto (unat stringLength) r) (\<lambda>(data, r). Inr (string_of_bytes data, r)))"

definition ReadUTF8Long :: "bytes \<Rightarrow> (string \<times> bytes) res" where
  "ReadUTF8Long r =
     bindE (binary_Read_u32 r) (\<lambda>(stringLength, r).
     if stringLength = 0 then Inr ('''', r)
     else bindE (ReadInto (unat stringLength) r) (\<lambda>(data, r). Inr (string_of_bytes data, r)))"

definition ReadString :: "bytes \<Rightarrow> (string \<times> bytes) res" where
  "ReadString r = bindE (ReadMarker r) (\<lambda>(marker, r).
     if marker = 0x02 then ReadUTF8 r
     else if marker = 0x0c then ReadUTF8Long r
     else Inl (Errorf ''Type error''))"

definition ReadDouble :: "bytes \<Rightarrow> (u64 \<times> bytes) res" where
  "ReadDouble r = bindE (ReadMarker r) (\<lambda>(marker, r).
     failIf (marker \<noteq> 0x00) (Errorf ''Type error'') (binary_Read_float64 r))"

text \<open>\<open>ReadBoolean\<close> drops the error of the second read: a missing byte is the value false.\<close>

definition ReadBoolean :: "bytes \<Rightarrow> (bool \<times> bytes) res" where
  "ReadBoolean r = bindE (ReadMarker r) (\<lambda>(marker, r).
     failIf (marker \<noteq> 0x01) (Errorf ''Type error'')
     (case ReadByte r of Inl err \<Rightarrow> Inr (False, r) | Inr (b, r) \<Rightarrow> Inr (b \<noteq> 0, r)))"

definition ReadObjectName :: "bytes \<Rightarrow> (string \<times> bytes) res" where
  "ReadObjectName r = ReadUTF8 r"

definition ReadDate :: "bytes \<Rightarrow> (u64 \<times> bytes) res" where
  "ReadDate r =
     bindE (binary_Read_float64 r) (\<lambda>(d, r).
     bindE (binary_Read_u16 r) (\<lambda>(timeZone, r). Inr (d, r)))"

fun ReadValue_f :: "nat \<Rightarrow> bytes \<Rightarrow> (gvalue \<times> bytes) res"
  and readProps_f :: "nat \<Rightarrow> (string \<times> gvalue) list \<Rightarrow> bytes \<Rightarrow> ((string \<times> gvalue) list \<times> bytes) res"
  and readArr_f :: "nat \<Rightarrow> nat \<Rightarrow> bytes \<Rightarrow> (gvalue list \<times> bytes) res" where
  "ReadValue_f 0 r = Inl Hang"
| "ReadValue_f (Suc f) r =
     bindE (ReadMarker r) (\<lambda>(marker, r).
     if marker = 0x00 then bindE (binary_Read_float64 r) (\<lambda>(num, r). Inr (VNumber num, r))
     else if marker = 0x01 then bindE (ReadByte r) (\<lambda>(b, r). Inr (VBool (b \<noteq> 0), r))
     else if marker = 0x02 then bindE (ReadUTF8 r) (\<lambda>(s, r). Inr (VString s, r))
     else if marker = 0x03 then bindE (readProps_f f [] r) (\<lambda>(obj, r). Inr (VObject obj, r))
     else if marker = 0x04 then Inl (Errorf ''Unsupported type: movie clip'')
     else if marker = 0x05 then Inr (VNil, r)
     else if marker = 0x06 then Inr (VUndefined, r)
     else if marker = 0x07 then Inl (Errorf ''Unsupported type: reference'')
     else if marker = 0x08 then
       bindE (ReadInto 4 r) (\<lambda>(arrLen, r).
       bindE (readProps_f f [] r) (\<lambda>(obj, r). Inr (VObject obj, r)))
     else if marker = 0x09 then Inl (Errorf ''Marker error, Object end'')
     else if marker = 0x0a then
       bindE (binary_Read_u32 r) (\<lambda>(arrayCount, r).
       if arrayCount = 0 then Inr (VArray [], r)
       else bindE (readArr_f f (unat arrayCount) r) (\<lambda>(arr, r). Inr (VArray arr, r)))
     else if marker = 0x0b then bindE (ReadDate r) (\<lambda>(t, r). Inr (VTime t, r))
     else if marker = 0x0c then bindE (ReadUTF8Long r) (\<lambda>(s, r). Inr (VString s, r))
     else if marker = 0x0d then Inl (Errorf ''Unsupported type: unsupported'')
     else if marker = 0x0e then Inl (Errorf ''Unsupported type: recordset'')
     else if marker = 0x0f then Inl (Errorf ''Unsupported type: XML document'')
     else if marker = 0x10 then Inl (Errorf ''Unsupported type: typed object'')
     else if marker = 0x11 then AMF3_ReadValue r
     else Inl (Errorf ''Unknown marker type: %d''))"
| "readProps_f 0 obj r = Inl Hang"
| "readProps_f (Suc f) obj r =
     bindE (ReadUTF8 r) (\<lambda>(name, r).
     if name = '''' then
       bindE (ReadByte r) (\<lambda>(b, r).
       if b = 0x09 then Inr (obj, r) else Inl (Errorf ''expect ObjectEndMarker here''))
     else failIf (name \<in> set (map fst obj)) (Errorf ''object-property exists'')
       (bindE (ReadValue_f f r) (\<lambda>(value, r).
        readProps_f f (obj @ [(name, value)]) r)))"
| "readArr_f 0 n r = Inl Hang"
| "readArr_f (Suc f) n r =
     (case n of 0 \<Rightarrow> Inr ([], r)
      | Suc m \<Rightarrow> bindE (ReadValue_f f r) (\<lambda>(v, r).
          bindE (readArr_f f m r) (\<lambda>(vs, r). Inr (v # vs, r))))"

definition ReadValue :: "bytes \<Rightarrow> (gvalue \<times> bytes) res" where
  "ReadValue r = ReadValue_f (2 * length r + 2) r"

definition ReadObjectProperty :: "bytes \<Rightarrow> ((string \<times> gvalue) list \<times> bytes) res" where
  "ReadObjectProperty r = readProps_f (2 * length r + 2) [] r"

definition ReadObject :: "bytes \<Rightarrow> ((string \<times> gvalue) list \<times> bytes) res" where
  "ReadObject r = bindE (ReadMarker r) (\<lambda>(marker, r).
     failIf (marker \<noteq> 0x03) (Errorf ''Type error'') (ReadObjectProperty r))"

definition ReadStrictArray :: "bytes \<Rightarrow> (gvalue list \<times> bytes) res" where
  "ReadStrictArray r =
     bindE (binary_Read_u32 r) (\<lambda>(arrayCount, r).
     if arrayCount = 0 then Inr ([], r)
     else readArr_f (2 * length r + 3) (unat arrayCount) r)"

section \<open>Round trip of the parts\<close>

lemma binary_Read_written [simp]:
  "binary_Read_u16 (u16be v @ r) = Inr (v, r)" "binary_Read_u32 (u32be w @ r) = Inr (w, r)"
  unfolding binary_Read_u16_def binary_Read_u32_def
  by (rule c16.read_enc [OF TrueI], rule c32.read_enc [OF TrueI])

lemma unat_of_nat_u16: "n < 2 ^ 16 \<Longrightarrow> unat (of_nat n :: u16) = n"
  by (simp only: unsigned_of_nat) (simp add: take_bit_nat_eq_self)

lemma unat_of_nat_u32': "n < 2 ^ 32 \<Longrightarrow> unat (of_nat n :: u32) = n"
  by (simp only: unsigned_of_nat) (simp add: take_bit_nat_eq_self)

lemma ReadUTF8_written:
  assumes "length s < 2 ^ 16"
  shows "ReadUTF8 (WriteUTF8 s (of_nat (length s)) @ r) = Inr (s, r)"
proof (cases "s = ''''")
  case True
  then show ?thesis by (simp add: ReadUTF8_def WriteUTF8_def bytes_of_string_def)
next
  case False
  have u: "unat (of_nat (length s) :: u16) = length s" using unat_of_nat_u16 [OF assms] .
  then have "(of_nat (length s) :: u16) \<noteq> 0" using False by (metis length_0_conv unat_0)
  then show ?thesis using u False ReadInto_append [of "bytes_of_string s" "length s" r]
    by (simp add: ReadUTF8_def WriteUTF8_def)
qed

lemma ReadUTF8Long_written:
  assumes "length s < 2 ^ 32" "s \<noteq> ''''"
  shows "ReadUTF8Long (WriteUTF8Long s (of_nat (length s)) @ r) = Inr (s, r)"
proof -
  have u: "unat (of_nat (length s) :: u32) = length s" using unat_of_nat_u32' [OF assms(1)] .
  then have "(of_nat (length s) :: u32) \<noteq> 0" using assms(2) by (metis length_0_conv unat_0)
  then show ?thesis using u assms(2) ReadInto_append [of "bytes_of_string s" "length s" r]
    by (simp add: ReadUTF8Long_def WriteUTF8Long_def)
qed

lemma WriteObjectName_small:
  assumes "length k < 65534"
  shows "WriteObjectName k = Inr (length (WriteUTF8 k (of_nat (length k))), WriteUTF8 k (of_nat (length k)))"
proof -
  have "of_nat (length k) + 2 = (of_nat (length k + 2) :: u16)" by simp
  then have "unat (of_nat (length k) + 2 :: u16) = length k + 2"
    using unat_of_nat_u16 [of "length k + 2"] assms by (simp add: add.commute)
  then show ?thesis by (simp add: WriteObjectName_def WriteUTF8_def Let_def)
qed

lemma WriteString_bytes:
  assumes "length s < 2 ^ 32 - 5"
  shows "\<exists>w. WriteString s = Inr (length w, w) \<and> w \<noteq> [] \<and> (\<forall>r. ReadString (w @ r) = Inr (s, r)) \<and>
    (\<forall>f r. ReadValue_f (Suc f) (w @ r) = Inr (VString s, r))"
proof (cases "length s < 2 ^ 16")
  case True
  then have "\<not> 0xFFFF < (of_nat (length s) :: u32)"
    using unat_of_nat_u32' [of "length s"] by (simp add: word_less_nat_alt)
  moreover have "unat (of_nat (length s) + 3 :: u32) = length s + 3"
    using unat_of_nat_u32' [of "length s + 3"] True by (simp add: add.commute)
  moreover have "unat (ucast (of_nat (length s) :: u32) :: u16) = unat (of_nat (length s) :: u16)"
    by (simp only: unsigned_ucast_eq unsigned_of_nat take_bit_take_bit) simp
  then have "ucast (of_nat (length s) :: u32) = (of_nat (length s) :: u16)" by (rule unsigned_word_eqI)
  ultimately show ?thesis using ReadUTF8_written [OF True]
    by (intro exI [of _ "0x02 # WriteUTF8 s (of_nat (length s))"])
      (simp add: WriteString_def Let_def ReadString_def ReadMarker_def WriteUTF8_def)
next
  case False
  then have "0xFFFF < (of_nat (length s) :: u32)" "s \<noteq> ''''"
    using unat_of_nat_u32' [of "length s"] assms by (auto simp: word_less_nat_alt)
  moreover have "unat (of_nat (length s) + 5 :: u32) = length s + 5"
    using unat_of_nat_u32' [of "length s + 5"] assms by (simp add: add.commute)
  ultimately show ?thesis using ReadUTF8Long_written [of s] assms
    by (intro exI [of _ "0x0c # WriteUTF8Long s (of_nat (length s))"])
      (simp add: WriteString_def Let_def ReadString_def ReadMarker_def WriteUTF8Long_def)
qed

interpretation string0: stream_codec WriteString ReadString "\<lambda>s. s" "\<lambda>s. length s < 2 ^ 32 - 5"
  by unfold_locales (use WriteString_bytes in blast)

interpretation double0: stream_codec WriteDouble ReadDouble "\<lambda>x. x" "\<lambda>_. True"
  by unfold_locales (simp add: WriteDouble_def ReadDouble_def ReadMarker_def)

interpretation boolean0: stream_codec WriteBoolean ReadBoolean "\<lambda>x. x" "\<lambda>_. True"
  by unfold_locales (simp add: WriteBoolean_def ReadBoolean_def ReadMarker_def)

section \<open>Round trip of values\<close>

text \<open>
  The normal form in which a value comes back: numbers as float64, slices as objects with decimal
  keys, the entries of a map sorted, nil maps and pointers as nil, \<open>Undefined\<close> as an empty object.
\<close>

fun numbered :: "nat \<Rightarrow> 'a list \<Rightarrow> (string \<times> 'a) list" where
  "numbered i [] = []"
| "numbered i (v # vs) = (decimal i, v) # numbered (Suc i) vs"

fun canon0 :: "gvalue \<Rightarrow> gvalue" where
  "canon0 (VInt i) = VNumber (float_of_int i)"
| "canon0 (VUint i) = VNumber (float_of_int (uint i))"
| "canon0 (VBytes b) = VObject (numbered 0 (map (\<lambda>x. VNumber (float_of_int (uint x))) b))"
| "canon0 (VArray vs) = VObject (numbered 0 (map canon0 vs))"
| "canon0 VNilMap = VNil"
| "canon0 (VObject kvs) = VObject (sort_entries (map (\<lambda>(k, v). (k, canon0 v)) kvs))"
| "canon0 VNilPtr = VNil"
| "canon0 (VPtr v) = canon0 v"
| "canon0 VUndefined = VObject []"
| "canon0 v = v"

definition key_ok :: "string \<Rightarrow> bool" where
  "key_ok k \<longleftrightarrow> k \<noteq> '''' \<and> length k < 65534"

fun ok0 :: "gvalue \<Rightarrow> bool" where
  "ok0 (VString s) \<longleftrightarrow> length s < 2 ^ 32 - 5"
| "ok0 (VBytes b) \<longleftrightarrow> length b < 2 ^ 31"
| "ok0 (VArray vs) \<longleftrightarrow> length vs < 2 ^ 31 \<and> list_all ok0 vs"
| "ok0 (VObject kvs) \<longleftrightarrow> distinct (map fst kvs) \<and> list_all (\<lambda>(k, v). key_ok k \<and> ok0 v) kvs"
| "ok0 (VPtr v) \<longleftrightarrow> ok0 v"
| "ok0 (VStruct fs) \<longleftrightarrow> False"
| "ok0 (VTime t) \<longleftrightarrow> False"
| "ok0 VUnsupported \<longleftrightarrow> False"
| "ok0 v \<longleftrightarrow> True"

lemma writeElems_numbered: "writeElems i vs = writeEntries (numbered i vs)"
  by (induction vs arbitrary: i) auto

lemma writeByteElems_numbered: "writeByteElems i b = writeEntries (numbered i (map (\<lambda>x. VNumber (float_of_int (uint x))) b))"
  by (induction b arbitrary: i) auto

lemma numbered_map: "numbered i (map g vs) = map (\<lambda>(k, v). (k, g v)) (numbered i vs)"
  by (induction vs arbitrary: i) auto

lemma numbered_keys: "k \<in> set (map fst (numbered i vs)) \<Longrightarrow> \<exists>j. i \<le> j \<and> j < i + length vs \<and> k = decimal j"
proof (induction vs arbitrary: i)
  case (Cons v vs)
  then consider "k = decimal i" | "k \<in> set (map fst (numbered (Suc i) vs))" by auto
  then show ?case
  proof cases
    case 2
    then obtain j where "Suc i \<le> j" "j < Suc i + length vs" "k = decimal j" using Cons.IH by blast
    then show ?thesis by (intro exI [of _ j]) simp
  qed auto
qed simp

lemma distinct_numbered: "distinct (map fst (numbered i vs))"
proof (induction vs arbitrary: i)
  case (Cons v vs)
  have "decimal i \<notin> set (map fst (numbered (Suc i) vs))"
    using numbered_keys [of "decimal i" "Suc i" vs] by (auto simp: decimal_inject)
  with Cons show ?case by simp
qed simp

definition reads0 :: "gvalue \<Rightarrow> bytes \<Rightarrow> bool" where
  "reads0 v w \<longleftrightarrow> WriteValue v = Inr (length w, w) \<and> w \<noteq> [] \<and>
     (\<forall>f r. length w < f \<longrightarrow> ReadValue_f f (w @ r) = Inr (canon0 v, r))"

definition reads0s :: "(string \<times> gvalue) list \<Rightarrow> bytes \<Rightarrow> bool" where
  "reads0s kvs w \<longleftrightarrow> writeEntries kvs = Inr (length w, w) \<and>
     (\<forall>f acc r. distinct (map fst (acc @ kvs)) \<longrightarrow> Suc (length w) \<le> f \<longrightarrow>
       readProps_f f acc (w @ 0 # 0 # 9 # r) = Inr (acc @ map (\<lambda>(k, v). (k, canon0 v)) kvs, r))"

lemma reads0_I:
  assumes "WriteValue v = Inr (length w, w)" "w \<noteq> []"
    and "\<And>f r. length w \<le> f \<Longrightarrow> ReadValue_f (Suc f) (w @ r) = Inr (canon0 v, r)"
  shows "reads0 v w"
  unfolding reads0_def
proof (intro conjI allI impI assms(1,2))
  fix f r assume "length w < f"
  then obtain f' where "f = Suc f'" "length w \<le> f'" by (cases f) auto
  then show "ReadValue_f f (w @ r) = Inr (canon0 v, r)" using assms(3) by simp
qed

lemma reads0s_Nil: "reads0s [] []"
  unfolding reads0s_def
proof (intro conjI allI impI)
  fix f :: nat and acc :: "(string \<times> gvalue) list" and r
  assume "Suc (length ([] :: bytes)) \<le> f"
  then obtain f' where "f = Suc f'" by (cases f) auto
  moreover have "ReadUTF8 (0 # 0 # 9 # r) = Inr ('''', 9 # r)"
    using ReadUTF8_written [of "''''" "9 # r"] by (simp add: WriteUTF8_def u16be_def bytes_of_string_def)
  ultimately show "readProps_f f acc ([] @ 0 # 0 # 9 # r) = Inr (acc @ map (\<lambda>(k, v). (k, canon0 v)) [], r)"
    by simp
qed simp

lemma reads0s_Cons:
  assumes k: "key_ok k" and v: "reads0 v wv" and s: "reads0s kvs ws"
  shows "\<exists>w. reads0s ((k, v) # kvs) w"
proof -
  define wk where "wk = WriteUTF8 k (of_nat (length k))"
  have wk: "WriteObjectName k = Inr (length wk, wk)" "\<And>r. ReadUTF8 (wk @ r) = Inr (k, r)" "wk \<noteq> []"
    using k WriteObjectName_small [of k] ReadUTF8_written [of k]
    by (simp_all add: wk_def key_ok_def, simp add: WriteUTF8_def)
  have "reads0s ((k, v) # kvs) (wk @ wv @ ws)"
    unfolding reads0s_def
  proof (intro conjI allI impI)
    show "writeEntries ((k, v) # kvs) = Inr (length (wk @ wv @ ws), wk @ wv @ ws)"
      using wk v s by (simp add: reads0_def reads0s_def)
  next
    fix f :: nat and acc r
    assume d: "distinct (map fst (acc @ (k, v) # kvs))" and f: "Suc (length (wk @ wv @ ws)) \<le> f"
    then obtain f' where f': "f = Suc f'" "length wk + (length wv + length ws) \<le> f'" by (cases f) auto
    have "0 < length wk" using wk(3) by simp
    then have lv: "length wv < f'" and ls: "Suc (length ws) \<le> f'" using f'(2) by linarith+
    have "ReadValue_f f' (wv @ ws @ 0 # 0 # 9 # r) = Inr (canon0 v, ws @ 0 # 0 # 9 # r)"
      using v lv by (simp add: reads0_def)
    moreover have "readProps_f f' (acc @ [(k, canon0 v)]) (ws @ 0 # 0 # 9 # r) =
        Inr ((acc @ [(k, canon0 v)]) @ map (\<lambda>(k, v). (k, canon0 v)) kvs, r)"
      using s ls d by (simp add: reads0s_def)
    moreover have "k \<notin> set (map fst acc)" "k \<noteq> ''''" using d k by (auto simp: key_ok_def)
    ultimately show "readProps_f f acc ((wk @ wv @ ws) @ 0 # 0 # 9 # r) =
        Inr (acc @ map (\<lambda>(k, v). (k, canon0 v)) ((k, v) # kvs), r)"
      using f'(1) wk(2) by simp
  qed
  then show ?thesis by blast
qed

text \<open>Objects and ECMA arrays around their entries.\<close>

lemma reads0_object:
  assumes "reads0s kvs w" "distinct (map fst kvs)"
    and "WriteValue v = wcat WriteObjectMarker (wcat (writeEntries kvs) WriteObjectEndMarker)"
    and "canon0 v = VObject (map (\<lambda>(k, v). (k, canon0 v)) kvs)"
  shows "reads0 v (0x03 # w @ [0, 0, 9])"
  using assms
  by (intro reads0_I) (simp_all add: reads0s_def WriteObjectMarker_def WriteMarker_def
      WriteObjectEndMarker_def ReadMarker_def)

lemma reads0_ecma:
  assumes "reads0s kvs w" "distinct (map fst kvs)"
    and "WriteValue v = wcat (WriteMarker 0x08) (wcat (emit (u32be n)) (wcat (writeEntries kvs) WriteObjectEndMarker))"
    and "canon0 v = VObject (map (\<lambda>(k, v). (k, canon0 v)) kvs)"
  shows "reads0 v (0x08 # u32be n @ w @ [0, 0, 9])"
  using assms ReadInto_append [of "u32be n" 4]
  by (intro reads0_I) (simp_all add: reads0s_def WriteMarker_def WriteObjectEndMarker_def ReadMarker_def)

lemma reads0_double:
  "WriteValue v = WriteDouble x \<Longrightarrow> canon0 v = VNumber x \<Longrightarrow> \<exists>w. reads0 v w"
  by (rule exI [of _ "0x00 # u64be x"], rule reads0_I) (auto simp: WriteDouble_def ReadMarker_def)

lemma reads0_null:
  "WriteValue v = WriteNull \<Longrightarrow> canon0 v = VNil \<Longrightarrow> \<exists>w. reads0 v w"
  by (rule exI [of _ "[0x05]"], rule reads0_I) (auto simp: WriteNull_def ReadMarker_def)

lemma key_ok_decimal: "i < 2 ^ 31 \<Longrightarrow> key_ok (decimal i)"
  using decimal_length_10 [of i 10] by (simp add: key_ok_def)

lemma reads0s_numbers: "i + length b \<le> 2 ^ 31 \<Longrightarrow>
    \<exists>w. reads0s (numbered i (map (\<lambda>x. VNumber (float_of_int (uint x))) b)) w" for b :: bytes
proof (induction b arbitrary: i)
  case (Cons x b)
  have "\<exists>wv. reads0 (VNumber (float_of_int (uint x))) wv" by (rule reads0_double) simp_all
  moreover have "key_ok (decimal i)" using Cons.prems by (intro key_ok_decimal) simp
  ultimately show ?case using Cons.IH [of "Suc i"] Cons.prems by (auto intro: reads0s_Cons)
qed (use reads0s_Nil in auto)

lemma reads0_exists:
  "ok0 v \<Longrightarrow> \<exists>w. reads0 v w"
  "list_all (\<lambda>(k, v). key_ok k \<and> ok0 v) kvs \<Longrightarrow> \<exists>w. reads0s kvs w"
  "i + length vs \<le> 2 ^ 31 \<Longrightarrow> list_all ok0 vs \<Longrightarrow> \<exists>w. reads0s (numbered i vs) w"
  "True"
proof (induction v and kvs and i vs and rule: WriteValue_writeEntries_writeElems_WriteStruct.induct)
  case 1 show ?case by (rule reads0_null) simp_all
next
  case (2 s)
  then obtain w where "WriteString s = Inr (length w, w)" "w \<noteq> []"
    "\<And>f r. ReadValue_f (Suc f) (w @ r) = Inr (VString s, r)" using WriteString_bytes [of s] by auto
  then show ?case by (intro exI [of _ w] reads0_I) auto
next
  case (3 b)
  show ?case by (rule exI [of _ "[0x01, if b then 1 else 0]"], rule reads0_I)
    (simp_all add: WriteBoolean_def ReadMarker_def)
next
  case (7 b)
  then obtain w where "reads0s (numbered 0 (map (\<lambda>x. VNumber (float_of_int (uint x))) b)) w"
    using reads0s_numbers [of 0 b] by auto
  then have "reads0 (VBytes b) (0x08 # u32be (of_nat (length b)) @ w @ [0, 0, 9])"
    by (rule reads0_ecma) (simp_all add: distinct_numbered writeByteElems_numbered numbered_map comp_def case_prod_unfold)
  then show ?case by blast
next
  case (8 vs)
  then obtain w where "reads0s (numbered 0 vs) w" by auto
  then have "reads0 (VArray vs) (0x08 # u32be (of_nat (length vs)) @ w @ [0, 0, 9])"
    by (rule reads0_ecma) (simp_all add: distinct_numbered writeElems_numbered numbered_map)
  then show ?case by blast
next
  case 9 show ?case by (rule reads0_null) simp_all
next
  case (10 kvs)
  then obtain w where "reads0s (sort_entries kvs) w" by (auto simp: list_all_iff)
  with 10 have "reads0 (VObject kvs) (0x03 # w @ [0, 0, 9])"
    by (intro reads0_object) (simp_all add: sort_entries_map_value)
  then show ?case by blast
next
  case 11 show ?case by (rule reads0_null) simp_all
next
  case (12 v)
  then obtain w where "reads0 v w" by auto
  then have "reads0 (VPtr v) w" by (simp add: reads0_def)
  then show ?case by blast
next
  case 14
  show ?case using reads0_object [OF reads0s_Nil, of VUndefined] by auto
next
  case 17 show ?case using reads0s_Nil by blast
next
  case (18 k v kvs)
  then show ?case by (auto intro: reads0s_Cons)
next
  case (19 i) show ?case using reads0s_Nil by auto
next
  case (20 i v vs)
  then show ?case using key_ok_decimal [of i] by (auto intro: reads0s_Cons)
qed (auto intro: reads0_double)

interpretation value0: stream_codec WriteValue ReadValue canon0 ok0
proof
  fix v assume "ok0 v"
  then obtain w where "reads0 v w" using reads0_exists(1) by blast
  then show "\<exists>w. WriteValue v = Inr (length w, w) \<and> w \<noteq> [] \<and>
      (\<forall>r. ReadValue (w @ r) = Inr (canon0 v, r))"
    by (auto simp: reads0_def ReadValue_def simp del: ReadValue_f.simps)
qed

section \<open>The readers return on every input\<close>

lemma base0_return [returning]:
  "returns (binary_Read_u16 r)" "returns (binary_Read_u32 r)" "returns (ReadUTF8 r)"
  "returns (ReadUTF8Long r)" "returns (ReadDate r)" "returns (ReadMarker r)"
proof -
  have "length b = 2 \<Longrightarrow> returns (U16BE b)" "length b = 4 \<Longrightarrow> returns (U32BE b)" for b
    by (simp_all add: U16BE_def U32BE_def failIf_def Let_def)
  then show u: "returns (binary_Read_u16 r)" "returns (binary_Read_u32 r)" for r
    unfolding binary_Read_u16_def binary_Read_u32_def by (auto intro!: returning simp: ReadFull_Inr)
  show "returns (ReadUTF8 r)" "returns (ReadUTF8Long r)" "returns (ReadDate r)" "returns (ReadMarker r)"
    unfolding ReadUTF8_def ReadUTF8Long_def ReadDate_def ReadMarker_def
    by (auto intro!: returning u)
qed

lemma base0_shrink:
  "binary_Read_u16 r = Inr (x, r') \<Longrightarrow> length r = length r' + 2"
  "binary_Read_u32 r = Inr (y, r') \<Longrightarrow> length r = length r' + 4"
  "ReadUTF8 r = Inr (s, r') \<Longrightarrow> length r' + 2 \<le> length r"
  "ReadUTF8Long r = Inr (s, r') \<Longrightarrow> length r' + 4 \<le> length r"
  "ReadDate r = Inr (t, r') \<Longrightarrow> length r' < length r"
proof -
  show u: "binary_Read_u16 r = Inr (x, r') \<Longrightarrow> length r = length r' + 2" for r x r'
    by (auto simp: binary_Read_u16_def bindE_eq_Inr dest!: ReadFull_shrinks)
  show w: "binary_Read_u32 r = Inr (y, r') \<Longrightarrow> length r = length r' + 4" for r y r'
    by (auto simp: binary_Read_u32_def bindE_eq_Inr dest!: ReadFull_shrinks)
  show "ReadUTF8 r = Inr (s, r') \<Longrightarrow> length r' + 2 \<le> length r"
    "ReadUTF8Long r = Inr (s, r') \<Longrightarrow> length r' + 4 \<le> length r"
    by (auto simp: ReadUTF8_def ReadUTF8Long_def bindE_eq_Inr split: if_splits
        dest!: u w ReadInto_shrinks)
  show "ReadDate r = Inr (t, r') \<Longrightarrow> length r' < length r"
    by (auto simp: ReadDate_def bindE_eq_Inr dest!: u base_readers_shrink(5))
qed

lemma AMF3_ReadValue_shrinks: "AMF3_ReadValue r = Inr (v, r') \<Longrightarrow> length r' < length r"
  unfolding AMF3_ReadValue_def by (rule value3_shrinks)

lemma value0_shrinks:
  "ReadValue_f f r = Inr (v, r') \<Longrightarrow> length r' < length r"
  "readProps_f f acc r = Inr (kvs, r') \<Longrightarrow> length r' < length r"
  "readArr_f f n r = Inr (vs, r') \<Longrightarrow> length r' \<le> length r"
proof (induction f r and f acc r and f n r arbitrary: v r' and kvs r' and vs r'
    rule: ReadValue_f_readProps_f_readArr_f.induct)
  case (2 f r)
  from "2.prems" obtain m r1 where r: "r = m # r1" by (cases r) (auto simp: ReadMarker_def)
  have mk: "ReadMarker r = Inr (m, r1)" by (simp add: r ReadMarker_def)
  consider "m = 0x03" | "m = 0x08" | "m = 0x0a" | "m \<noteq> 0x03" "m \<noteq> 0x08" "m \<noteq> 0x0a" by blast
  then show ?case
  proof cases
    case 1
    then obtain obj where "readProps_f f [] r1 = Inr (obj, r')" using "2.prems" mk by (auto simp: bindE_eq_Inr)
    with "2.IH"(1) [of "(m, r1)" m r1 obj r'] 1 mk show ?thesis by (simp add: r)
  next
    case 2
    then obtain a r2 obj where a: "ReadInto 4 r1 = Inr (a, r2)" "readProps_f f [] r2 = Inr (obj, r')"
      using "2.prems" mk by (auto simp: bindE_eq_Inr)
    with "2.IH"(2) [of "(m, r1)" m r1 "(a, r2)" a r2 obj r'] 2 mk ReadInto_shrinks [OF a(1)]
    show ?thesis by (simp add: r)
  next
    case 3
    then obtain n r2 where n: "binary_Read_u32 r1 = Inr (n, r2)" using "2.prems" mk by (auto simp: bindE_eq_Inr)
    show ?thesis
    proof (cases "n = 0")
      case True
      with "2.prems" mk 3 n base0_shrink(2) [OF n] show ?thesis by (simp add: r)
    next
      case False
      then obtain arr where "readArr_f f (unat n) r2 = Inr (arr, r')"
        using "2.prems" mk 3 n by (auto simp: bindE_eq_Inr)
      with "2.IH"(3) [of "(m, r1)" m r1 "(n, r2)" n r2 arr r'] 3 mk n False base0_shrink(2) [OF n]
      show ?thesis by (simp add: r)
    qed
  next
    case 4
    with "2.prems" mk show ?thesis
      by (auto simp: r bindE_eq_Inr split: if_splits
          dest!: base0_shrink base_readers_shrink(5) ReadByte_shrinks AMF3_ReadValue_shrinks)
  qed
next
  case (4 f acc r)
  from "4.prems" obtain name r1 where n: "ReadUTF8 r = Inr (name, r1)" by (auto simp: bindE_eq_Inr)
  note s = base0_shrink(3) [OF n]
  show ?case
  proof (cases "name = ''''")
    case True
    with "4.prems" n s show ?thesis by (auto simp: bindE_eq_Inr split: if_splits dest!: ReadByte_shrinks)
  next
    case False
    then obtain v r2 where v: "ReadValue_f f r1 = Inr (v, r2)"
      "readProps_f f (acc @ [(name, v)]) r2 = Inr (kvs, r')"
      using "4.prems" n by (auto simp: bindE_eq_Inr failIf_eq_Inr)
    from "4.IH"(1) [OF n refl False v(1)] "4.IH"(2) [OF n refl False v(1) refl v(2)] s
    show ?thesis by simp
  qed
next
  case (6 f n r)
  show ?case
  proof (cases n)
    case 0
    with "6.prems" show ?thesis by simp
  next
    case (Suc m)
    then obtain v r2 vs' where v: "ReadValue_f f r = Inr (v, r2)" "readArr_f f m r2 = Inr (vs', r')"
      using "6.prems" by (auto simp: bindE_eq_Inr)
    from "6.IH"(1) [OF Suc v(1)] "6.IH"(2) [OF Suc v(1) refl v(2)] show ?thesis by simp
  qed
qed auto

lemma AMF0_enough:
  "2 * length r + 1 \<le> f \<Longrightarrow> returns (ReadValue_f f r)"
  "2 * length r + 1 \<le> f \<Longrightarrow> returns (readProps_f f acc r)"
  "2 * length r + 2 \<le> f \<Longrightarrow> returns (readArr_f f n r)"
proof (induction f r and f acc r and f n r rule: ReadValue_f_readProps_f_readArr_f.induct)
  case (2 f r)
  show ?case
  proof (cases r)
    case (Cons m r1)
    have mk: "ReadMarker r = Inr (m, r1)" by (simp add: Cons ReadMarker_def)
    have f: "2 * length r1 + 2 \<le> f" using "2.prems" Cons by simp
    have obj: "returns (readProps_f f [] r1)" if "m = 0x03"
      using "2.IH"(1) [of "(m, r1)" m r1] that mk f by simp
    have ecma: "returns (readProps_f f [] r2)" if "m = 0x08" "ReadInto 4 r1 = Inr (a, r2)" for a r2
      using "2.IH"(2) [of "(m, r1)" m r1 "(a, r2)" a r2] that mk f ReadInto_shrinks [OF that(2)] by simp
    have arr: "returns (readArr_f f (unat n) r2)" if "m = 0x0a" "binary_Read_u32 r1 = Inr (n, r2)" "n \<noteq> 0" for n r2
      using "2.IH"(3) [of "(m, r1)" m r1 "(n, r2)" n r2] that mk f base0_shrink(2) [OF that(2)] by simp
    consider "m = 0x03" | "m = 0x08" | "m = 0x0a" | "m \<noteq> 0x03" "m \<noteq> 0x08" "m \<noteq> 0x0a" by blast
    then show ?thesis
    proof cases
      case 1 then show ?thesis using mk obj by (auto intro!: returning)
    next
      case 2 then show ?thesis using mk by (auto intro!: returning ecma)
    next
      case 3 then show ?thesis using mk by (auto intro!: returning arr)
    next
      case 4 then show ?thesis using mk by (auto intro!: returning)
    qed
  qed (simp add: ReadMarker_def)
next
  case (4 f acc r)
  have step: "returns (bindE (ReadValue_f f r1) (\<lambda>(value, r). readProps_f f (acc @ [(name, value)]) r))"
    if n: "ReadUTF8 r = Inr (name, r1)" "name \<noteq> ''''" for name r1
  proof -
    have l: "2 * length r1 + 1 \<le> f" using base0_shrink(3) [OF n(1)] "4.prems" by simp
    show ?thesis
    proof (intro returns_bindE returns_prod)
      show "returns (ReadValue_f f r1)" using "4.IH"(1) [OF n(1) refl n(2) l] .
      fix x val r2 assume x: "ReadValue_f f r1 = Inr x" "x = (val, r2)"
      then have "2 * length r2 + 1 \<le> f" using value0_shrinks(1) [of f r1 val r2] l by simp
      then show "returns (readProps_f f (acc @ [(name, val)]) r2)"
        using "4.IH"(2) [OF n(1) refl n(2) x(1)] x(2) by simp
    qed
  qed
  then show ?case
    by (auto intro!: returns_bindE [of "ReadUTF8 r"] returns_bindE [of "ReadByte _"] returns_failIf
        base0_return returns_readers)
next
  case (6 f n r)
  show ?case
  proof (cases n)
    case (Suc m)
    have "returns (ReadValue_f f r)" using "6.IH"(1) [OF Suc] "6.prems" by simp
    moreover have "returns (readArr_f f m r2)" if "ReadValue_f f r = Inr (v, r2)" for v r2
      using "6.IH"(2) [OF Suc that refl] value0_shrinks(1) [OF that] "6.prems" by simp
    ultimately show ?thesis using Suc by (auto intro!: returning)
  qed simp
qed auto

lemma AMF0_read_returns [returning]:
  "returns (ReadValue r)" "returns (ReadObjectProperty r)" "returns (ReadObject r)"
  "returns (ReadStrictArray r)"
proof -
  show "returns (ReadValue r)" unfolding ReadValue_def by (rule AMF0_enough) simp
  show p: "returns (ReadObjectProperty r)" for r unfolding ReadObjectProperty_def by (rule AMF0_enough) simp
  show "returns (ReadObject r)" unfolding ReadObject_def by (auto intro!: returning p)
  have "returns (readArr_f (2 * length r + 3) n r)" for n r by (rule AMF0_enough) simp
  then show "returns (ReadStrictArray r)" unfolding ReadStrictArray_def by (auto intro!: returning)
qed

section \<open>Command arguments\<close>

fun pairs_of :: "gvalue list \<Rightarrow> (string \<times> gvalue) list option" where
  "pairs_of [] = Some []"
| "pairs_of (VString k # v # kvs) = map_option ((#) (k, v)) (pairs_of kvs)"
| "pairs_of _ = None"

lemma writePairs_entries: "pairs_of kvs = Some ps \<Longrightarrow> writePairs kvs = writeEntries ps"
  by (induction kvs arbitrary: ps rule: pairs_of.induct) auto

text \<open>An argument as it comes back: a slice is the object its alternating names and values describe.\<close>

definition canon_arg :: "gvalue \<Rightarrow> gvalue" where
  "canon_arg c = (case c of
     VArray kvs \<Rightarrow> (case pairs_of kvs of Some ps \<Rightarrow> VObject (map (\<lambda>(k, v). (k, canon0 v)) ps) | None \<Rightarrow> VNil)
   | _ \<Rightarrow> canon0 c)"

definition arg_ok :: "gvalue \<Rightarrow> bool" where
  "arg_ok c \<longleftrightarrow> (case c of
     VArray kvs \<Rightarrow> (case pairs_of kvs of None \<Rightarrow> False
       | Some ps \<Rightarrow> distinct (map fst ps) \<and> list_all (\<lambda>(k, v). key_ok k \<and> ok0 v) ps)
   | VBytes b \<Rightarrow> False
   | _ \<Rightarrow> ok0 c)"

lemma object_entries:
  assumes "reads0s ps w" "distinct (map fst ps)"
  shows "wcat WriteObjectMarker (wcat (writeEntries ps) WriteObjectEndMarker) =
      Inr (length (0x03 # w @ [0, 0, 9]), 0x03 # w @ [0, 0, 9])"
    and "ReadValue ((0x03 # w @ [0, 0, 9]) @ r) = Inr (VObject (map (\<lambda>(k, v). (k, canon0 v)) ps), r)"
proof -
  show "wcat WriteObjectMarker (wcat (writeEntries ps) WriteObjectEndMarker) =
      Inr (length (0x03 # w @ [0, 0, 9]), 0x03 # w @ [0, 0, 9])"
    using assms(1) by (simp add: reads0s_def WriteObjectMarker_def WriteMarker_def WriteObjectEndMarker_def)
  have "ReadValue_f (Suc f) ((0x03 # w @ [0, 0, 9]) @ r) = Inr (VObject (map (\<lambda>(k, v). (k, canon0 v)) ps), r)"
    if "Suc (length w) \<le> f" for f
    using assms that by (simp add: reads0s_def ReadMarker_def)
  then show "ReadValue ((0x03 # w @ [0, 0, 9]) @ r) = Inr (VObject (map (\<lambda>(k, v). (k, canon0 v)) ps), r)"
    by (simp add: ReadValue_def del: ReadValue_f.simps)
qed

lemma writeSibling_other:
  assumes "\<And>kvs. c \<noteq> VArray kvs" "\<And>b. c \<noteq> VBytes b" "arg_ok c"
  shows "\<exists>w. writeSibling c = Inr (length w, w) \<and> w \<noteq> [] \<and> (\<forall>r. ReadValue (w @ r) = Inr (canon_arg c, r))"
proof -
  have ok: "ok0 c" and "canon_arg c = canon0 c" "writeSibling c = wrapWriteValue (WriteValue c)"
    using assms by (cases c; simp add: arg_ok_def canon_arg_def writeSibling_def)+
  with value0.rt [OF ok] show ?thesis by (auto simp: wrapWriteValue_def)
qed

interpretation arg0: stream_codec writeSibling ReadValue canon_arg arg_ok
proof
  fix c assume ok: "arg_ok c"
  show "\<exists>w. writeSibling c = Inr (length w, w) \<and> w \<noteq> [] \<and> (\<forall>r. ReadValue (w @ r) = Inr (canon_arg c, r))"
  proof (cases "\<exists>kvs. c = VArray kvs")
    case True
    then obtain kvs ps where c: "c = VArray kvs" "pairs_of kvs = Some ps" "distinct (map fst ps)"
      "list_all (\<lambda>(k, v). key_ok k \<and> ok0 v) ps"
      using ok by (auto simp: arg_ok_def split: option.splits)
    then obtain w where "reads0s ps w" using reads0_exists(2) by blast
    from object_entries [OF this c(3)] show ?thesis
      by (intro exI [of _ "0x03 # w @ [0, 0, 9]"])
        (simp add: writeSibling_def c(1,2) writePairs_entries [OF c(2)] canon_arg_def)
  next
    case False
    moreover have "c \<noteq> VBytes b" for b using ok by (auto simp: arg_ok_def)
    ultimately show ?thesis using ok by (intro writeSibling_other) auto
  qed
qed

section \<open>Properties\<close>

text \<open>C20: An AMF0 value is written with the count reported equal to the bytes appended, and ReadValue
  reads it back in normal form (numbers as float64, slices as objects with decimal keys, map entries
  sorted by key, nil maps and pointers as nil), whatever follows.\<close>

theorem AMF0_value_roundtrip:
  assumes "ok0 v"
  shows "\<exists>w. WriteValue v = Inr (length w, w) \<and> (\<forall>r. ReadValue (w @ r) = Inr (canon0 v, r))"
  using value0.rt [OF assms] by blast

definition demo0 :: gvalue where
  "demo0 = VObject [(''b'', VArray [VBool True, VPtr (VInt 2)]), (''a'', VString ''x''), (''c'', VNilMap)]"

theorem AMF0_value_roundtrip_witness:
  "ok0 demo0 \<and> (\<exists>w. WriteValue demo0 = Inr (length w, w) \<and> ReadValue (w @ [7]) =
     Inr (VObject [(''a'', VString ''x''),
       (''b'', VObject [(''0'', VBool True), (''1'', VNumber 0x4000000000000000)]), (''c'', VNil)], [7]))"
proof -
  have ok: "ok0 demo0" by (simp add: demo0_def key_ok_def)
  have "canon0 demo0 = VObject [(''a'', VString ''x''),
      (''b'', VObject [(''0'', VBool True), (''1'', VNumber 0x4000000000000000)]), (''c'', VNil)]"
    by code_simp
  with ok AMF0_value_roundtrip [OF ok] show ?thesis by auto
qed

text \<open>The arguments of a command written by WriteArrayAsSiblingButElemArrayAsObject, slices
  standing for objects, are read back one by one by ReadValue, and nothing is left over.\<close>

theorem command_arguments_roundtrip:
  assumes "\<forall>c\<in>set args. arg_ok c"
  shows "\<exists>w. WriteArrayAsSiblingButElemArrayAsObject args = Inr w \<and>
    read_list ReadValue (length args) w = Inr (map canon_arg args, [])"
proof -
  from arg0.list_roundtrip [OF assms] obtain w where
    "write_list writeSibling args = Inr (length w, w)"
    "read_list ReadValue (length args) (w @ []) = Inr (map canon_arg args, [])" by blast
  then show ?thesis by (simp add: WriteArrayAsSiblingButElemArrayAsObject_def)
qed

theorem command_arguments_roundtrip_witness:
  "\<exists>w. WriteArrayAsSiblingButElemArrayAsObject
      [VString ''_result'', VInt 1, VArray [VString ''fmsVer'', VString ''FMS'', VString ''capabilities'', VInt 31]] = Inr w \<and>
    read_list ReadValue 3 w = Inr ([VString ''_result'', VNumber 0x3FF0000000000000,
      VObject [(''fmsVer'', VString ''FMS''), (''capabilities'', VNumber 0x403F000000000000)]], [])"
proof -
  let ?args = "[VString ''_result'', VInt 1,
    VArray [VString ''fmsVer'', VString ''FMS'', VString ''capabilities'', VInt 31]]"
  have ok: "\<forall>c\<in>set ?args. arg_ok c" by (simp add: arg_ok_def key_ok_def)
  have "map canon_arg ?args = [VString ''_result'', VNumber 0x3FF0000000000000,
      VObject [(''fmsVer'', VString ''FMS''), (''capabilities'', VNumber 0x403F000000000000)]]"
    by code_simp
  moreover have "length ?args = 3" by simp
  ultimately show ?thesis using command_arguments_roundtrip [OF ok] by (simp only:)
qed

text \<open>C21: On every input the AMF0 and AMF3 value readers return without a panic, and a value that is read has
  consumed at least one byte.\<close>

theorem AMF_readers_total:
  "(case ReadValue r of Inl e \<Rightarrow> \<not> is_fault e | Inr (v, r') \<Rightarrow> length r' < length r) \<and>
   (case AMF3_ReadValue r of Inl e \<Rightarrow> \<not> is_fault e | Inr (v, r') \<Rightarrow> length r' < length r)"
  using AMF0_read_returns(1) [of r] AMF3_ReadValue_enough [of r] value0_shrinks(1) [of _ r]
    AMF3_ReadValue_shrinks [of r]
  by (auto simp: ReadValue_def returns_def split: sum.split simp del: ReadValue_f.simps)

end
