(* ===== verification/CommandMessage.thy ===== *)
theory CommandMessage
  imports Message Amf0
begin

text \<open>
  \<open>protocol/rtmp/message.go\<close>, second part: the constructors of the protocol control, user control and
  command messages.  A command payload is a sequence of AMF0 values, written by the functions of
  \<open>Amf0\<close>.
\<close>

section \<open>Protocol control and user control messages\<close>

text \<open>A fresh message without payload: the composite literal the constructors start from.\<close>

definition new_message :: "byte \<Rightarrow> u32 \<Rightarrow> bytes \<Rightarrow> Message" where
  "new_message t sid payload = \<lparr>MessageType = t, Timestamp = 0, StreamID = sid, Payload = payload\<rparr>"

definition NewAckMessage :: "u32 \<Rightarrow> Message res" where
  "NewAckMessage windowSize =
     bindE (PutU32BE (replicate 4 0) windowSize) (\<lambda>payload. Inr (new_message 5 0 payload))"

definition NewSetPeerBandwidthMessage :: "u32 \<Rightarrow> byte \<Rightarrow> Message res" where
  "NewSetPeerBandwidthMessage bandWidth limitType =
     bindE (PutU32BE (replicate 5 0) bandWidth) (\<lambda>payload.
       Inr (new_message 6 0 (payload[4 := limitType])))"

definition NewSetChunkSizeMessage :: "u32 \<Rightarrow> Message res" where
  "NewSetChunkSizeMessage sz =
     bindE (PutU32BE (replicate 4 0) sz) (\<lambda>payload. Inr (new_message 1 0 payload))"

text \<open>\<open>byteio.PutU32BE(message.Payload[i:i+4], v)\<close>: a store into a sub-slice.\<close>

definition put_at :: "nat \<Rightarrow> bytes \<Rightarrow> u32 \<Rightarrow> bytes res" where
  "put_at i b v = bindE (PutU32BE (subslice i (i + 4) b) v) (\<lambda>x. Inr (take i b @ x @ drop (i + 4) b))"

definition NewUserControlCommandStreamBegin :: "u32 \<Rightarrow> Message res" where
  "NewUserControlCommandStreamBegin functionalStreamId =
     bindE (put_at 2 ((replicate 6 0)[0 := 0, 1 := 0]) functionalStreamId) (\<lambda>payload.
       Inr (new_message 4 0 payload))"

definition NewUserControlCommandStreamIsRecorded :: "u32 \<Rightarrow> Message res" where
  "NewUserControlCommandStreamIsRecorded functionalStreamId =
     bindE (put_at 2 ((replicate 6 0)[0 := 0, 1 := 4]) functionalStreamId) (\<lambda>payload.
       Inr (new_message 4 0 payload))"

definition NewSetBufferLengthMessage :: "u32 \<Rightarrow> int \<Rightarrow> Message res" where
  "NewSetBufferLengthMessage functionalStreamId millisecond =
     bindE (put_at 2 ((replicate 10 0)[0 := 0, 1 := 3]) functionalStreamId) (\<lambda>data.
     bindE (put_at 6 data (of_int millisecond)) (\<lambda>data.
       Inr (new_message 4 0 data)))"

section \<open>Command messages\<close>

definition command_as_object :: "u32 \<Rightarrow> gvalue list \<Rightarrow> Message res" where
  "command_as_object sid vals =
     bindE (WriteArrayAsSiblingButElemArrayAsObject vals) (\<lambda>data. Inr (new_message 0x14 sid data))"

definition NewConnectSuccessMessage :: "Message res" where
  "NewConnectSuccessMessage =
     command_as_object 0 [VString ''_result'', VInt 1,
       VArray [VString ''fmsVer'', VString ''FMS/3,0,1,123'', VString ''capabilities'', VInt 31],
       VArray [VString ''level'', VString ''status'',
               VString ''code'', VString ''NetConnection.Connect.Success'',
               VString ''description'', VString ''Connection succeeded.'',
               VString ''objectEncoding'', VInt 0]]"

definition NewCreateStreamSuccessMessage :: "int \<Rightarrow> Message res" where
  "NewCreateStreamSuccessMessage transactionId =
     bindE (WriteArrayAsSiblingButElemArrayAsArray
       [VString ''_result'', VInt transactionId, VNil, VInt 1]) (\<lambda>data. Inr (new_message 0x14 0 data))"

definition NewPublishSuccessMessage :: "Message res" where
  "NewPublishSuccessMessage =
     command_as_object 0 [VString ''onStatus'', VInt 0, VNil,
       VArray [VString ''description'', VString ''publishing'', VString ''level'', VString ''status'',
               VString ''code'', VString ''NetStream.Publish.Start'']]"

definition NewNetStreamOnStatusMessageWithCodeLevelDesc ::
  "u32 \<Rightarrow> string \<Rightarrow> string \<Rightarrow> string \<Rightarrow> Message res" where
  "NewNetStreamOnStatusMessageWithCodeLevelDesc stremid code level desc =
     command_as_object stremid [VString ''onStatus'', VInt 0, VNil,
       VArray [VString ''code'', VString code, VString ''level'', VString level,
               VString ''description'', VString desc]]"

definition NewPlayResetMessage :: "u32 \<Rightarrow> Message res" where
  "NewPlayResetMessage stremid = NewNetStreamOnStatusMessageWithCodeLevelDesc stremid
     ''NetStream.Play.Reset'' ''status'' ''Playing and resetting stream.''"

definition NewPlayStartMessage :: "u32 \<Rightarrow> Message res" where
  "NewPlayStartMessage stremid = NewNetStreamOnStatusMessageWithCodeLevelDesc stremid
     ''NetStream.Play.Start'' ''status'' ''Started playing stream.''"

definition NewDataStartMessage :: "u32 \<Rightarrow> Message res" where
  "NewDataStartMessage stremid = NewNetStreamOnStatusMessageWithCodeLevelDesc stremid
     ''NetStream.Data.Start'' ''status'' ''Started playing stream.''"

definition NewPlayPublishNotifyMessage :: "u32 \<Rightarrow> Message res" where
  "NewPlayPublishNotifyMessage stremid = NewNetStreamOnStatusMessageWithCodeLevelDesc stremid
     ''NetStream.Play.PublishNotify'' ''status'' ''Started playing notify.''"

text \<open>An \<open>amf.Object\<close> argument: \<open>None\<close> is a nil map.\<close>

definition object_arg :: "(string \<times> gvalue) list option \<Rightarrow> gvalue" where
  "object_arg obj = (case obj of None \<Rightarrow> VNilMap | Some kvs \<Rightarrow> VObject kvs)"

definition NewConnectMessage :: "(string \<times> gvalue) list option \<Rightarrow> Message res" where
  "NewConnectMessage obj = command_as_object 0 [VString ''connect'', VInt 1, object_arg obj]"

definition NewReleaseStreamMessage :: "u32 \<Rightarrow> string \<Rightarrow> Message res" where
  "NewReleaseStreamMessage transactionId streamName =
     command_as_object 0 [VString ''releaseStream'', VUint (ucast transactionId), VNil, VString streamName]"

definition NewFCPublishMessage :: "u32 \<Rightarrow> string \<Rightarrow> Message res" where
  "NewFCPublishMessage transactionId streamName =
     command_as_object 0 [VString ''FCPublish'', VUint (ucast transactionId), VNil, VString streamName]"

definition NewCreateStreamMessage :: "u32 \<Rightarrow> (string \<times> gvalue) list option \<Rightarrow> Message res" where
  "NewCreateStreamMessage transactionId cmdObj =
     command_as_object 0 ([VString ''createStream'', VUint (ucast transactionId), VNil] @
       (if cmdObj \<noteq> None then [object_arg cmdObj] else []))"

definition NewPublishMessage :: "u32 \<Rightarrow> string \<Rightarrow> string \<Rightarrow> Message res" where
  "NewPublishMessage transactionId appName streamName =
     command_as_object 0 [VString ''publish'', VUint (ucast transactionId), VNil,
       VString streamName, VString appName]"

definition NewGetStreamLengthMessage :: "u32 \<Rightarrow> string \<Rightarrow> Message res" where
  "NewGetStreamLengthMessage transactionId streamName =
     command_as_object 0 [VString ''getStreamLength'', VUint (ucast transactionId), VNil, VString streamName]"

definition NewPlayMessage :: "u32 \<Rightarrow> string \<Rightarrow> int \<Rightarrow> Message res" where
  "NewPlayMessage transactionId streamName num =
     command_as_object 1 [VString ''play'', VUint (ucast transactionId), VNil, VString streamName, VInt num]"

section \<open>What the messages carry\<close>

lemma put_at_append:
  "length a = i \<Longrightarrow> length b = 4 \<Longrightarrow> put_at i (a @ b @ c) v = Inr (a @ u32be v @ c)"
  by (simp add: put_at_def subslice_append PutU32BE_def overwrite_def)

text \<open>The control message constructors never fail, and the fields a receiver decodes from their
  payloads (size, window, bandwidth and limit type, event type and stream id) are the ones given.\<close>

theorem control_messages_decode:
  "(\<exists>m. NewSetChunkSizeMessage n = Inr m \<and> MessageType m = 1 \<and> StreamID m = 0 \<and> U32BE (Payload m) = Inr n) \<and>
   (\<exists>m. NewAckMessage n = Inr m \<and> MessageType m = 5 \<and> StreamID m = 0 \<and> U32BE (Payload m) = Inr n) \<and>
   (\<exists>m. NewSetPeerBandwidthMessage n l = Inr m \<and> MessageType m = 6 \<and> StreamID m = 0 \<and>
      U32BE (Payload m) = Inr n \<and> Payload m ! 4 = l \<and> length (Payload m) = 5) \<and>
   (\<exists>m. NewUserControlCommandStreamBegin n = Inr m \<and> MessageType m = 4 \<and> StreamID m = 0 \<and>
      U16BE (Payload m) = Inr 0 \<and> U32BE (drop 2 (Payload m)) = Inr n) \<and>
   (\<exists>m. NewUserControlCommandStreamIsRecorded n = Inr m \<and> MessageType m = 4 \<and> StreamID m = 0 \<and>
      U16BE (Payload m) = Inr 4 \<and> U32BE (drop 2 (Payload m)) = Inr n) \<and>
   (\<exists>m. NewSetBufferLengthMessage n ms = Inr m \<and> MessageType m = 4 \<and> StreamID m = 0 \<and>
      U16BE (Payload m) = Inr 3 \<and> U32BE (drop 2 (Payload m)) = Inr n \<and>
      U32BE (drop 6 (Payload m)) = Inr (of_int ms))"
proof -
  have r: "replicate 6 (0::byte) = [0, 0] @ [0, 0, 0, 0] @ []" "replicate 10 (0::byte) = [0, 0] @ [0, 0, 0, 0] @ [0, 0, 0, 0]"
    "replicate 5 (0::byte) = [0, 0, 0, 0, 0]"
    by (simp_all add: eval_nat_numeral)
  have b: "put_at 2 [0, x, 0, 0, 0, 0] n = Inr ([0, x] @ u32be n)"
    "put_at 2 [0, x, 0, 0, 0, 0, 0, 0, 0, 0] n = Inr ([0, x] @ u32be n @ [0, 0, 0, 0])"
    "put_at 6 ([0, x] @ u32be n @ [0, 0, 0, 0]) v = Inr ([0, x] @ u32be n @ u32be v)" for x v
    using put_at_append [of "[0, x]" 2 "[0, 0, 0, 0]" "[]" n]
      put_at_append [of "[0, x]" 2 "[0, 0, 0, 0]" "[0, 0, 0, 0]" n]
      put_at_append [of "[0, x] @ u32be n" 6 "[0, 0, 0, 0]" "[]" v] by simp_all
  have five: "overwrite [0, 0, 0, 0, 0] (u32be n) = Inr (u32be n @ [0])"
    by (simp add: overwrite_def)
  have four: "overwrite (replicate 4 0) (u32be n) = Inr (u32be n)" by (simp add: overwrite_def)
  have ev: "U16BE (0 # x # r) = Inr (ucast x)" for x and r :: bytes by (simp add: U16BE_def)
  show ?thesis
    by (simp add: NewSetChunkSizeMessage_def NewAckMessage_def NewSetPeerBandwidthMessage_def
        NewUserControlCommandStreamBegin_def NewUserControlCommandStreamIsRecorded_def
        NewSetBufferLengthMessage_def PutU32BE_def four five new_message_def r b [simplified] ev
        list_update_append nth_append)
qed

text \<open>The payload \<open>p\<close> is the sequence of AMF0 values \<open>vs\<close> and nothing else.\<close>

definition carries :: "Message res \<Rightarrow> u32 \<Rightarrow> gvalue list \<Rightarrow> bool" where
  "carries res sid vs \<longleftrightarrow> (\<exists>m. res = Inr m \<and> MessageType m = 0x14 \<and> Timestamp m = 0 \<and> StreamID m = sid \<and>
     read_list ReadValue (length vs) (Payload m) = Inr (vs, []))"

lemma command_carries:
  assumes "\<forall>c\<in>set args. arg_ok c"
  shows "carries (command_as_object sid args) sid (map canon_arg args)"
proof -
  from arg0.list_roundtrip [OF assms] obtain w where
    "write_list writeSibling args = Inr (length w, w)"
    "read_list ReadValue (length args) (w @ []) = Inr (map canon_arg args, [])" by blast
  then show ?thesis
    by (simp add: carries_def command_as_object_def WriteArrayAsSiblingButElemArrayAsObject_def new_message_def)
qed

lemma command_carries':
  "\<forall>c\<in>set args. arg_ok c \<Longrightarrow> map canon_arg args = vs \<Longrightarrow> carries (command_as_object sid args) sid vs"
  using command_carries by blast

lemma uint_ucast_u32: "uint (ucast (t :: u32) :: u64) = uint t"
  by (simp add: uint_up_ucast is_up)

lemmas arg_simps = arg_ok_def canon_arg_def key_ok_def uint_ucast_u32

text \<open>The commands of a client, each built for any transaction id and names, are command messages
  (type 0x14) whose payload reads back as the command name, the transaction id as a number, nil and
  the names given, and nothing more.\<close>

theorem client_commands_carry:
  assumes "length s < 2 ^ 32 - 5" "length a < 2 ^ 32 - 5"
  shows "carries (NewReleaseStreamMessage t s) 0
      [VString ''releaseStream'', VNumber (float_of_int (uint t)), VNil, VString s] \<and>
    carries (NewFCPublishMessage t s) 0
      [VString ''FCPublish'', VNumber (float_of_int (uint t)), VNil, VString s] \<and>
    carries (NewCreateStreamMessage t None) 0
      [VString ''createStream'', VNumber (float_of_int (uint t)), VNil] \<and>
    carries (NewPublishMessage t a s) 0
      [VString ''publish'', VNumber (float_of_int (uint t)), VNil, VString s, VString a] \<and>
    carries (NewGetStreamLengthMessage t s) 0
      [VString ''getStreamLength'', VNumber (float_of_int (uint t)), VNil, VString s] \<and>
    carries (NewPlayMessage t s n) 1
      [VString ''play'', VNumber (float_of_int (uint t)), VNil, VString s, VNumber (float_of_int n)]"
  unfolding NewReleaseStreamMessage_def NewFCPublishMessage_def NewCreateStreamMessage_def
    NewPublishMessage_def NewGetStreamLengthMessage_def NewPlayMessage_def
  using assms by (intro conjI command_carries') (simp_all add: arg_simps)

theorem client_commands_carry_witness:
  "carries (NewPublishMessage 5 ''live'' ''room1'') 0
     [VString ''publish'', VNumber 0x4014000000000000, VNil, VString ''room1'', VString ''live'']"
proof -
  have "float_of_int (uint (5 :: u32)) = 0x4014000000000000" by code_simp
  with client_commands_carry [of "''room1''" "''live''" 5 0] show ?thesis by simp
qed

text \<open>The replies of a server are command messages whose payload reads back as documented: the
  connect result with its two information objects, the createStream result for any transaction id
  with stream 1, and the publish and play status objects on the stream they are for.\<close>

theorem server_replies_carry:
  "carries NewConnectSuccessMessage 0 [VString ''_result'', VNumber 0x3FF0000000000000,
      VObject [(''fmsVer'', VString ''FMS/3,0,1,123''), (''capabilities'', VNumber 0x403F000000000000)],
      VObject [(''level'', VString ''status''), (''code'', VString ''NetConnection.Connect.Success''),
        (''description'', VString ''Connection succeeded.''), (''objectEncoding'', VNumber 0)]] \<and>
   carries (NewCreateStreamSuccessMessage i) 0
      [VString ''_result'', VNumber (float_of_int i), VNil, VNumber 0x3FF0000000000000] \<and>
   carries NewPublishSuccessMessage 0 [VString ''onStatus'', VNumber 0, VNil,
      VObject [(''description'', VString ''publishing''), (''level'', VString ''status''),
        (''code'', VString ''NetStream.Publish.Start'')]] \<and>
   carries (NewPlayStartMessage sid) sid [VString ''onStatus'', VNumber 0, VNil,
      VObject [(''code'', VString ''NetStream.Play.Start''), (''level'', VString ''status''),
        (''description'', VString ''Started playing stream.'')]] \<and>
   carries (NewPlayResetMessage sid) sid [VString ''onStatus'', VNumber 0, VNil,
      VObject [(''code'', VString ''NetStream.Play.Reset''), (''level'', VString ''status''),
        (''description'', VString ''Playing and resetting stream.'')]] \<and>
   carries (NewDataStartMessage sid) sid [VString ''onStatus'', VNumber 0, VNil,
      VObject [(''code'', VString ''NetStream.Data.Start''), (''level'', VString ''status''),
        (''description'', VString ''Started playing stream.'')]] \<and>
   carries (NewPlayPublishNotifyMessage sid) sid [VString ''onStatus'', VNumber 0, VNil,
      VObject [(''code'', VString ''NetStream.Play.PublishNotify''), (''level'', VString ''status''),
        (''description'', VString ''Started playing notify.'')]]"
proof -
  have "WriteArrayAsSiblingButElemArrayAsArray [VString ''_result'', VInt i, VNil, VInt 1] =
      WriteArrayAsSiblingButElemArrayAsObject [VString ''_result'', VInt i, VNil, VInt 1]"
    by (simp add: WriteArrayAsSiblingButElemArrayAsArray_def WriteArrayAsSiblingButElemArrayAsObject_def writeSibling_def)
  then have "carries (NewCreateStreamSuccessMessage i) 0
      [VString ''_result'', VNumber (float_of_int i), VNil, VNumber 0x3FF0000000000000]"
    using command_carries' [of "[VString ''_result'', VInt i, VNil, VInt 1]" _ 0]
    by (simp add: NewCreateStreamSuccessMessage_def command_as_object_def arg_simps float_of_int_samples)
  then show ?thesis
    unfolding NewConnectSuccessMessage_def NewPublishSuccessMessage_def NewPlayStartMessage_def
      NewPlayResetMessage_def NewDataStartMessage_def NewPlayPublishNotifyMessage_def
      NewNetStreamOnStatusMessageWithCodeLevelDesc_def
    by (intro conjI command_carries') (simp_all add: arg_simps float_of_int_samples)
qed

end
