(* ===== verification/Request.thy ===== *)
theory Request
  imports Transport CommandMessage
begin

text \<open>
  \<open>protocol/rtmp/request.go\<close>: the URL of a stream and the requests of a client, each a message built
  and written through the packer.  A \<open>send\<close> function returns the bytes handed to the connection and
  the packer it leaves.  \<open>strings.Split\<close> and \<open>strings.Join\<close> are modelled for a one-character
  separator.
\<close>

section \<open>URLs\<close>

fun str_split :: "char \<Rightarrow> string \<Rightarrow> string list" where
  "str_split sep [] = [[]]"
| "str_split sep (c # cs) =
     (if c = sep then [] # str_split sep cs
      else case str_split sep cs of [] \<Rightarrow> [[c]] | p # ps \<Rightarrow> (c # p) # ps)"

fun str_join :: "char \<Rightarrow> string list \<Rightarrow> string" where
  "str_join sep [] = []"
| "str_join sep [p] = p"
| "str_join sep (p # q # ps) = p @ sep # str_join sep (q # ps)"

record RtmpUrl =
  appName :: string
  streamName :: string
  tcurl :: string
  originUrl :: string

definition parseRtmpUrl :: "string \<Rightarrow> RtmpUrl res" where
  "parseRtmpUrl addr =
     failIf (take 4 addr \<noteq> ''rtmp'') (Errorf ''not correct rtmp url'')
     (let parts = str_split (CHR ''/'') addr in
      failIf (length parts < 5) (Errorf ''wrong rtmp url:%s'')
      (Inr \<lparr>appName = parts ! 3, streamName = parts ! 4,
            tcurl = str_join (CHR ''/'') (take 4 parts), originUrl = addr\<rparr>))"

definition getConnectCmdObj :: "RtmpUrl \<Rightarrow> (string \<times> gvalue) list" where
  "getConnectCmdObj ru =
     [(''app'', VString (appName ru)), (''type'', VString ''nonprivate''),
      (''flashVer'', VString ''FMS.3.1''), (''tcUrl'', VString (tcurl ru))]"

lemma str_split_ne [simp]: "str_split sep s \<noteq> []"
  by (induction s) (auto split: list.split)

lemma str_join_split: "str_join sep (str_split sep s) = s"
proof (induction s)
  case (Cons c s)
  obtain p ps where "str_split sep s = p # ps" by (cases "str_split sep s") auto
  with Cons show ?case by (cases ps) auto
qed simp

lemma str_split_parts: "p \<in> set (str_split sep s) \<Longrightarrow> sep \<notin> set p"
  by (induction s arbitrary: p) (auto split: list.splits if_splits)

lemma length_str_split: "length (str_split sep s) = Suc (count_list s sep)"
  by (induction s) (auto split: list.split)

lemma str_join_append:
  "xs \<noteq> [] \<Longrightarrow> ys \<noteq> [] \<Longrightarrow> str_join sep (xs @ ys) = str_join sep xs @ sep # str_join sep ys"
proof (induction xs rule: induct_list012)
  case (2 x)
  then show ?case by (cases ys) auto
qed auto

text \<open>Parsing a stream URL is exact: it succeeds precisely on addresses that start with rtmp and have
  at least four slashes; then the address is the connection URL, a slash, the stream name and possibly
  more behind another slash, the connection URL ends with the application name, and neither name
  contains a slash.\<close>

theorem parseRtmpUrl_exact:
  "case parseRtmpUrl addr of
     Inl e \<Rightarrow> e \<noteq> Hang \<and> \<not> (take 4 addr = ''rtmp'' \<and> 4 \<le> count_list addr (CHR ''/''))
   | Inr u \<Rightarrow> take 4 addr = ''rtmp'' \<and> 4 \<le> count_list addr (CHR ''/'') \<and> originUrl u = addr \<and>
       CHR ''/'' \<notin> set (appName u) \<and> CHR ''/'' \<notin> set (streamName u) \<and>
       (\<exists>host. tcurl u = host @ ''/'' @ appName u \<and> count_list host (CHR ''/'') = 2) \<and>
       (\<exists>rest. addr = tcurl u @ ''/'' @ streamName u @ rest \<and> (rest = [] \<or> hd rest = CHR ''/''))"
proof -
  define parts where "parts = str_split (CHR ''/'') addr"
  have len: "length parts = Suc (count_list addr (CHR ''/''))" by (simp add: parts_def length_str_split)
  show ?thesis
  proof (cases "take 4 addr = ''rtmp'' \<and> 5 \<le> length parts")
    case False
    then show ?thesis using len by (auto simp: parseRtmpUrl_def failIf_def Let_def parts_def[symmetric])
  next
    case True
    obtain a b c d e ps where ps: "parts = a # b # c # d # e # ps"
      using True by (auto simp: eval_nat_numeral Suc_le_length_iff)
    have no: "CHR ''/'' \<notin> set x" if "x \<in> set parts" for x
      using that str_split_parts unfolding parts_def by fast
    let ?u = "\<lparr>appName = d, streamName = e, tcurl = str_join (CHR ''/'') [a, b, c, d], originUrl = addr\<rparr>"
    have u: "parseRtmpUrl addr = Inr ?u"
      using True by (simp add: parseRtmpUrl_def Let_def parts_def[symmetric] ps)
    have "addr = str_join (CHR ''/'') parts" by (simp add: parts_def str_join_split)
    then have "addr = tcurl ?u @ ''/'' @ streamName ?u @ (if ps = [] then [] else CHR ''/'' # str_join (CHR ''/'') ps)"
      by (cases ps) (simp_all add: ps)
    moreover have "tcurl ?u = (a @ ''/'' @ b @ ''/'' @ c) @ ''/'' @ appName ?u" by simp
    moreover have "count_list (a @ ''/'' @ b @ ''/'' @ c) (CHR ''/'') = 2"
      using no[of a] no[of b] no[of c] by (simp add: ps count_list_0_iff)
    moreover have "CHR ''/'' \<notin> set d" "CHR ''/'' \<notin> set e" using no by (simp_all add: ps)
    ultimately show ?thesis unfolding u using True len by (auto split: if_splits)
  qed
qed

section \<open>Requests\<close>

definition sendConnectMessage :: "ChunkPacker \<Rightarrow> (string \<times> gvalue) list option \<Rightarrow> (bytes \<times> ChunkPacker) res" where
  "sendConnectMessage p cmdObj = bindE (NewConnectMessage cmdObj) (WriteMessage p)"

definition sendCreateStreamMessage ::
  "ChunkPacker \<Rightarrow> u32 \<Rightarrow> (string \<times> gvalue) list option \<Rightarrow> (bytes \<times> ChunkPacker) res" where
  "sendCreateStreamMessage p transactionId cmdObj =
     bindE (NewCreateStreamMessage transactionId cmdObj) (WriteMessage p)"

text \<open>The window size argument is not used.\<close>

definition sendWidowAckMessage :: "ChunkPacker \<Rightarrow> u32 \<Rightarrow> (bytes \<times> ChunkPacker) res" where
  "sendWidowAckMessage p windowSize = bindE (NewAckMessage 2500000) (WriteMessage p)"

definition sendSetChunkMessage :: "ChunkPacker \<Rightarrow> u32 \<Rightarrow> (bytes \<times> ChunkPacker) res" where
  "sendSetChunkMessage p sz = bindE (NewSetChunkSizeMessage sz) (WriteMessage p)"

definition sendGetStreamLengthMessage :: "ChunkPacker \<Rightarrow> u32 \<Rightarrow> string \<Rightarrow> (bytes \<times> ChunkPacker) res" where
  "sendGetStreamLengthMessage p transactionId name =
     bindE (NewGetStreamLengthMessage transactionId name) (WriteMessage p)"

definition sendPlayMessage :: "ChunkPacker \<Rightarrow> u32 \<Rightarrow> int \<Rightarrow> string \<Rightarrow> (bytes \<times> ChunkPacker) res" where
  "sendPlayMessage p transactionId duration name =
     bindE (NewPlayMessage transactionId name duration) (WriteMessage p)"

definition sendSetBufferLengthMessage :: "ChunkPacker \<Rightarrow> u32 \<Rightarrow> int \<Rightarrow> (bytes \<times> ChunkPacker) res" where
  "sendSetBufferLengthMessage p transactionId ms =
     bindE (NewSetBufferLengthMessage transactionId ms) (WriteMessage p)"

definition sendPublishMessage :: "ChunkPacker \<Rightarrow> u32 \<Rightarrow> string \<Rightarrow> string \<Rightarrow> (bytes \<times> ChunkPacker) res" where
  "sendPublishMessage p transactionId app name =
     bindE (NewPublishMessage transactionId app name) (WriteMessage p)"

definition sendReleaseStreamMessage :: "ChunkPacker \<Rightarrow> u32 \<Rightarrow> string \<Rightarrow> (bytes \<times> ChunkPacker) res" where
  "sendReleaseStreamMessage p transactionId name =
     bindE (NewReleaseStreamMessage transactionId name) (WriteMessage p)"

definition sendFCPublishMessage :: "ChunkPacker \<Rightarrow> u32 \<Rightarrow> string \<Rightarrow> (bytes \<times> ChunkPacker) res" where
  "sendFCPublishMessage p transactionId name =
     bindE (NewFCPublishMessage transactionId name) (WriteMessage p)"

section \<open>Requests arrive\<close>

text \<open>
  A packer that only sends commands and control messages keeps the time 0 on the two chunk streams they
  use; then each of them can be sent.  \<open>arrives\<close>: the message is read back by the unpacker at the other
  end, whatever follows, and the two ends are in step again.
\<close>

definition timeless :: "ChunkPacker \<Rightarrow> bool" where
  "timeless p \<longleftrightarrow> (\<forall>c\<in>{2, 3}. \<forall>s. sendStreams p c = Some s \<longrightarrow> mh_timestamp (cs_hdr s) = 0)"

definition arrives :: "(bytes \<times> ChunkPacker) res \<Rightarrow> ChunkUnpacker \<Rightarrow> Message \<Rightarrow> bool" where
  "arrives sent u m \<longleftrightarrow> (\<exists>w p'. sent = Inr (w, p') \<and> timeless p' \<and>
     (\<forall>r. \<exists>m' u'. getRtmpMessage u (w @ r) = Inr (m', u', r) \<and> same_message m m' \<and> in_step p' u'))"

definition plain :: "Message \<Rightarrow> bool" where
  "plain m \<longleftrightarrow> Timestamp m = 0 \<and> Payload m \<noteq> [] \<and> length (Payload m) < 2 ^ 24 \<and>
     (MessageType m \<in> {1, 2, 3, 4, 5, 6} \<and> StreamID m = 0 \<or> MessageType m = TYPE_CMDMSG_AMF0)"

lemma plain_csid: "plain m \<Longrightarrow> csid_m m \<in> {2, 3}"
  by (auto simp: plain_def csid_of_def)

lemma plain_sendable: "timeless p \<Longrightarrow> plain m \<Longrightarrow> sendable p m"
  using plain_csid[of m]
  by (auto simp: timeless_def plain_def sendable_def sent_delta_def split: option.split)

lemma plain_arrives:
  assumes "in_step p u" "timeless p" "plain m"
  shows "arrives (WriteMessage p m) u m"
proof -
  have sd: "sendable p m" using assms by (simp add: plain_sendable)
  from rtmp.carry[OF assms(1) this] obtain w p' where w: "WriteMessage p m = Inr (w, p')"
    and r: "\<forall>r. \<exists>m' u'. getRtmpMessage u (w @ r) = Inr (m', u', r) \<and> same_message m m' \<and> in_step p' u'"
    by blast
  obtain s' where p': "p' = set_stream p (csid_m m) s'" "cs_hdr s' = next_hdr (sendStreams p (csid_m m)) m"
    using WriteMessage_bytes[of p m] w assms(1) sd by (auto simp: in_step_def sendable_def)
  have "mh_timestamp (cs_hdr s') = 0"
    using next_hdr_timestamp[of "sendStreams p (csid_m m)" m] assms(2,3) plain_csid[OF assms(3)]
    by (auto simp: p'(2) timeless_def plain_def)
  then have "timeless p'" using assms(2) by (auto simp: timeless_def p'(1))
  with w r show ?thesis by (auto simp: arrives_def)
qed

lemma wcat_parts: "wcat a b = Inr (n, w) \<Longrightarrow> \<exists>i x j y. a = Inr (i, x) \<and> b = Inr (j, y) \<and> w = x @ y"
  by (auto simp: wcat_def bindE_eq_Inr)

lemma command_plain:
  assumes "command_as_object sid (VString c # args) = Inr m" "length (Payload m) < 2 ^ 24"
  shows "plain m"
proof -
  obtain n w where w: "write_list writeSibling (VString c # args) = Inr (n, w)" "m = new_message 0x14 sid w"
    using assms(1) by (auto simp: command_as_object_def WriteArrayAsSiblingButElemArrayAsObject_def bindE_eq_Inr)
  then have "w \<noteq> []"
    by (auto simp: writeSibling_def wrapWriteValue_def WriteString_def Let_def dest!: wcat_parts split: if_splits)
  with w(2) assms(2) show ?thesis by (simp add: plain_def new_message_def)
qed

lemma control_plain:
  "NewAckMessage n = Inr m \<Longrightarrow> plain m" "NewSetChunkSizeMessage n = Inr m \<Longrightarrow> plain m"
  "NewSetBufferLengthMessage t ms = Inr m \<Longrightarrow> plain m"
  by (auto simp: NewAckMessage_def NewSetChunkSizeMessage_def NewSetBufferLengthMessage_def plain_def
      new_message_def PutU32BE_def overwrite_def put_at_def bindE_eq_Inr failIf_eq_Inr)

lemma bind_arrives:
  assumes "in_step p u" "timeless p" "plain m" "mk = Inr m"
  shows "arrives (bindE mk (WriteMessage p)) u m"
  using plain_arrives[OF assms(1-3)] assms(4) by simp

lemmas request_defs = sendConnectMessage_def sendCreateStreamMessage_def sendWidowAckMessage_def
  sendSetChunkMessage_def sendGetStreamLengthMessage_def sendPlayMessage_def sendSetBufferLengthMessage_def
  sendPublishMessage_def sendReleaseStreamMessage_def sendFCPublishMessage_def

lemmas command_defs = NewConnectMessage_def NewCreateStreamMessage_def NewGetStreamLengthMessage_def
  NewPlayMessage_def NewPublishMessage_def NewReleaseStreamMessage_def NewFCPublishMessage_def

lemma command_messages_plain:
  assumes "length (Payload m) < 2 ^ 24"
  shows "NewConnectMessage obj = Inr m \<Longrightarrow> plain m" "NewCreateStreamMessage t obj = Inr m \<Longrightarrow> plain m"
    "NewGetStreamLengthMessage t s = Inr m \<Longrightarrow> plain m" "NewPlayMessage t s d = Inr m \<Longrightarrow> plain m"
    "NewPublishMessage t a s = Inr m \<Longrightarrow> plain m" "NewReleaseStreamMessage t s = Inr m \<Longrightarrow> plain m"
    "NewFCPublishMessage t s = Inr m \<Longrightarrow> plain m"
  by (simp_all add: command_defs command_plain[OF _ assms])

text \<open>C16: Every request of a client arrives: from any pair of packer and unpacker in step, the bytes of each
  send function are read back by the receiver as exactly the message built for the request, whatever
  follows, and the ends stay in step for the next one; the window acknowledgement always announces
  2500000, whatever size is asked for.\<close>

theorem requests_arrive:
  assumes "in_step p u" and "timeless p" and "length (Payload m) < 2 ^ 24"
  shows "(NewConnectMessage obj = Inr m \<longrightarrow> arrives (sendConnectMessage p obj) u m) \<and>
    (NewCreateStreamMessage t obj = Inr m \<longrightarrow> arrives (sendCreateStreamMessage p t obj) u m) \<and>
    (NewAckMessage 2500000 = Inr m \<longrightarrow> arrives (sendWidowAckMessage p n) u m) \<and>
    (NewSetChunkSizeMessage n = Inr m \<longrightarrow> arrives (sendSetChunkMessage p n) u m) \<and>
    (NewGetStreamLengthMessage t s = Inr m \<longrightarrow> arrives (sendGetStreamLengthMessage p t s) u m) \<and>
    (NewPlayMessage t s d = Inr m \<longrightarrow> arrives (sendPlayMessage p t d s) u m) \<and>
    (NewSetBufferLengthMessage t d = Inr m \<longrightarrow> arrives (sendSetBufferLengthMessage p t d) u m) \<and>
    (NewPublishMessage t a s = Inr m \<longrightarrow> arrives (sendPublishMessage p t a s) u m) \<and>
    (NewReleaseStreamMessage t s = Inr m \<longrightarrow> arrives (sendReleaseStreamMessage p t s) u m) \<and>
    (NewFCPublishMessage t s = Inr m \<longrightarrow> arrives (sendFCPublishMessage p t s) u m)"
  unfolding request_defs
  by (intro conjI impI bind_arrives[OF assms(1,2)])
    (simp_all add: control_plain command_messages_plain[OF assms(3)])

theorem requests_arrive_witness:
  "\<exists>m. NewSetChunkSizeMessage 4096 = Inr m \<and> arrives (sendSetChunkMessage NewChunkPacker 4096) NewChunkUnpacker m"
proof -
  obtain m where m: "NewSetChunkSizeMessage 4096 = Inr m" "length (Payload m) < 2 ^ 24"
    by (simp add: NewSetChunkSizeMessage_def PutU32BE_def overwrite_def new_message_def)
  have "timeless NewChunkPacker" by (simp add: timeless_def NewChunkPacker_def)
  from requests_arrive [OF in_step_new this m(2), where n = 4096] m(1) show ?thesis by blast
qed

end
