(* ===== verification/Response.thy ===== *)
theory Response
  imports CommandMessage
begin

text \<open>
  \<open>protocol/rtmp/response.go\<close>: how a client reads the replies to connect, createStream and publish.
  A type assertion on a value of another type is a panic.  The loop of \<open>handleConnectResponse\<close> ends
  because every value read consumes input.
\<close>

lemma ReadValue_shrinks: "ReadValue r = Inr (v, r') \<Longrightarrow> length r' < length r"
  unfolding ReadValue_def by (rule value0_shrinks(1))

abbreviation conversion_panic :: go_error where
  "conversion_panic \<equiv> Panic ''interface conversion''"

definition error_Undefined :: go_error where
  "error_Undefined = Errorf ''Undefined''"

function connect_loop :: "bytes \<Rightarrow> unit res" where
  "connect_loop r =
     (case ReadValue r of
        Inl e \<Rightarrow> if e = EOF then Inl (Errorf ''connect fail'') else Inl e
      | Inr (v, r') \<Rightarrow>
          (case v of
             VObject objmap \<Rightarrow>
               (case map_of objmap ''code'' of
                  None \<Rightarrow> connect_loop r'
                | Some (VString code) \<Rightarrow>
                    if code \<noteq> ''NetConnection.Connect.Success'' then Inl conversion_panic else Inr ()
                | Some _ \<Rightarrow> Inl conversion_panic)
           | _ \<Rightarrow> Inl (Errorf ''connecting wrong response'')))"
  by auto
termination
  by (relation "measure length") (auto dest: ReadValue_shrinks)

declare connect_loop.simps [simp del]

definition handleConnectResponse :: "Message \<Rightarrow> unit res" where
  "handleConnectResponse m =
     bindE (ReadValue (Payload m)) (\<lambda>(v, r).
     failIf (v \<noteq> VString ''_result'') (Errorf ''connecting wrong response:%s'')
     (bindE (ReadValue r) (\<lambda>(v, r).
      case v of
        VNumber transId \<Rightarrow>
          failIf (float_trunc transId \<noteq> 1) (Errorf ''connecting wrong transid:%d'') (connect_loop r)
      | _ \<Rightarrow> Inl (Errorf ''connecting wrong transid''))))"

definition handleCreateStreamResponse :: "Message \<Rightarrow> u32 \<Rightarrow> u32 res" where
  "handleCreateStreamResponse m expectTransId =
     bindE (ReadValue (Payload m)) (\<lambda>(v, r).
     failIf (v \<noteq> VString ''_result'') (Errorf ''createstream wrong response:%s'')
     (bindE (ReadValue r) (\<lambda>(v, r).
      case v of
        VNumber transId \<Rightarrow>
          failIf (expectTransId \<noteq> 0 \<and> float_u32 transId \<noteq> expectTransId)
            (Errorf ''createstream transid:exp:%d real:%d'')
          (bindE (ReadValue r) (\<lambda>(v, r).
           failIf (v \<noteq> VNil) (Errorf ''createstream wrong response'')
           (bindE (ReadValue r) (\<lambda>(v, r).
            case v of
              VNumber fFunctionalStreamId \<Rightarrow> Inr (float_u32 fFunctionalStreamId)
            | VUndefined \<Rightarrow> Inl error_Undefined
            | _ \<Rightarrow> Inl (Errorf ''createstream wrong functionalStreamId'')))))
      | _ \<Rightarrow> Inl (Errorf ''createstream wrong transid''))))"

definition handlePublishResponse :: "Message \<Rightarrow> unit res" where
  "handlePublishResponse m =
     bindE (ReadValue (Payload m)) (\<lambda>(v, r).
     failIf (v \<noteq> VString ''onStatus'') (Errorf ''publish wrong response:%s'')
     (bindE (ReadValue r) (\<lambda>(v, r).
      case v of
        VNumber transId \<Rightarrow>
          failIf (float_u32 transId \<noteq> 0) (Errorf ''publish resp tranid must be zero:%d'')
          (bindE (ReadValue r) (\<lambda>(v, r).
           failIf (v \<noteq> VNil) (Errorf ''publish response cmdobj not ni'')
           (bindE (ReadValue r) (\<lambda>(obj, r).
            case obj of
              VObject objmap \<Rightarrow>
                (case map_of objmap ''code'' of
                   None \<Rightarrow> Inl (Errorf ''publish fail no code return'')
                 | Some (VString code) \<Rightarrow>
                     if code \<noteq> ''NetStream.Publish.Start'' then
                       (case map_of objmap ''description'' of
                          None \<Rightarrow> Inl (Errorf (''publish fail:'' @ code))
                        | Some (VString descErr) \<Rightarrow> Inl (Errorf (''publish fail:'' @ descErr))
                        | Some _ \<Rightarrow> Inl conversion_panic)
                     else Inr ()
                 | Some _ \<Rightarrow> Inl conversion_panic)
            | _ \<Rightarrow> Inl (Errorf ''connecting wrong response'')))))
      | _ \<Rightarrow> Inl (Errorf ''publish wrong transid''))))"

section \<open>The replies of the server are understood\<close>

lemma carries_reads:
  assumes "carries res sid vs"
  obtains m where "res = Inr m" "read_list ReadValue (length vs) (Payload m) = Inr (vs, [])"
  using assms by (auto simp: carries_def)

lemma read_list_step:
  "read_list rd (Suc n) r = Inr (vs, r') \<longleftrightarrow>
    (\<exists>v r1 vs'. rd r = Inr (v, r1) \<and> read_list rd n r1 = Inr (vs', r') \<and> vs = v # vs')"
  by (auto simp: bindE_eq_Inr)

lemma read_list_cons:
  "read_list rd (length (v # vs)) r = Inr (v # vs, r') \<longleftrightarrow>
    (\<exists>r1. rd r = Inr (v, r1) \<and> read_list rd (length vs) r1 = Inr (vs, r'))"
  by (auto simp: bindE_eq_Inr)

lemma server_reply_bodies:
  "carries NewConnectSuccessMessage 0 [VString ''_result'', VNumber 0x3FF0000000000000,
      VObject [(''fmsVer'', VString ''FMS/3,0,1,123''), (''capabilities'', VNumber 0x403F000000000000)],
      VObject [(''level'', VString ''status''), (''code'', VString ''NetConnection.Connect.Success''),
        (''description'', VString ''Connection succeeded.''), (''objectEncoding'', VNumber 0)]]"
  "carries (NewCreateStreamSuccessMessage i) 0
      [VString ''_result'', VNumber (float_of_int i), VNil, VNumber 0x3FF0000000000000]"
  "carries NewPublishSuccessMessage 0 [VString ''onStatus'', VNumber 0, VNil,
      VObject [(''description'', VString ''publishing''), (''level'', VString ''status''),
        (''code'', VString ''NetStream.Publish.Start'')]]"
proof -
  have e: "WriteArrayAsSiblingButElemArrayAsArray [VString ''_result'', VInt i, VNil, VInt 1] =
      WriteArrayAsSiblingButElemArrayAsObject [VString ''_result'', VInt i, VNil, VInt 1]"
    by (simp add: WriteArrayAsSiblingButElemArrayAsArray_def WriteArrayAsSiblingButElemArrayAsObject_def writeSibling_def)
  show "carries (NewCreateStreamSuccessMessage i) 0
      [VString ''_result'', VNumber (float_of_int i), VNil, VNumber 0x3FF0000000000000]"
    unfolding NewCreateStreamSuccessMessage_def e command_as_object_def[symmetric]
    by (rule command_carries') (simp_all add: arg_simps float_of_int_samples)
qed (unfold NewConnectSuccessMessage_def NewPublishSuccessMessage_def,
    (rule command_carries', simp_all add: arg_simps float_of_int_samples)+)

text \<open>A client accepts the replies a server sends to it: the connect result, the createStream result
  for its transaction id, from which it takes stream 1 (and which it refuses when it waits for another
  transaction), and the publish status.\<close>

theorem replies_accepted:
  "(\<exists>m. NewConnectSuccessMessage = Inr m \<and> handleConnectResponse m = Inr ()) \<and>
   (\<exists>m. NewCreateStreamSuccessMessage (uint (t :: u32)) = Inr m \<and>
      (\<forall>expected. handleCreateStreamResponse m expected =
        (if expected = 0 \<or> expected = t then Inr 1
         else Inl (Errorf ''createstream transid:exp:%d real:%d'')))) \<and>
   (\<exists>m. NewPublishSuccessMessage = Inr m \<and> handlePublishResponse m = Inr ())"
proof (intro conjI)
  from server_reply_bodies(1) obtain m where m: "NewConnectSuccessMessage = Inr m"
    "read_list ReadValue (length [VString ''_result'', VNumber 0x3FF0000000000000,
      VObject [(''fmsVer'', VString ''FMS/3,0,1,123''), (''capabilities'', VNumber 0x403F000000000000)],
      VObject [(''level'', VString ''status''), (''code'', VString ''NetConnection.Connect.Success''),
        (''description'', VString ''Connection succeeded.''), (''objectEncoding'', VNumber 0)]]) (Payload m) =
     Inr ([VString ''_result'', VNumber 0x3FF0000000000000,
      VObject [(''fmsVer'', VString ''FMS/3,0,1,123''), (''capabilities'', VNumber 0x403F000000000000)],
      VObject [(''level'', VString ''status''), (''code'', VString ''NetConnection.Connect.Success''),
        (''description'', VString ''Connection succeeded.''), (''objectEncoding'', VNumber 0)]], [])"
    by (rule carries_reads)
  from m(2) have "handleConnectResponse m = Inr ()"
    unfolding read_list_cons by (auto simp: handleConnectResponse_def float_trunc_samples connect_loop.simps)
  with m(1) show "\<exists>m. NewConnectSuccessMessage = Inr m \<and> handleConnectResponse m = Inr ()" by blast
next
  from server_reply_bodies(2) obtain m where m: "NewCreateStreamSuccessMessage (uint t) = Inr m"
    "read_list ReadValue (length [VString ''_result'', VNumber (float_of_int (uint t)), VNil,
        VNumber 0x3FF0000000000000]) (Payload m) =
      Inr ([VString ''_result'', VNumber (float_of_int (uint t)), VNil, VNumber 0x3FF0000000000000], [])"
    by (rule carries_reads)
  have "float_u32 0x3FF0000000000000 = 1" by (simp add: float_u32_def float_trunc_samples)
  with m(2) have "handleCreateStreamResponse m expected = (if expected = 0 \<or> expected = t then Inr 1
         else Inl (Errorf ''createstream transid:exp:%d real:%d''))" for expected
    unfolding read_list_cons by (auto simp: handleCreateStreamResponse_def failIf_def)
  with m(1) show "\<exists>m. NewCreateStreamSuccessMessage (uint t) = Inr m \<and>
      (\<forall>expected. handleCreateStreamResponse m expected = (if expected = 0 \<or> expected = t then Inr 1
         else Inl (Errorf ''createstream transid:exp:%d real:%d'')))" by blast
next
  from server_reply_bodies(3) obtain m where m: "NewPublishSuccessMessage = Inr m"
    "read_list ReadValue (length [VString ''onStatus'', VNumber 0, VNil,
      VObject [(''description'', VString ''publishing''), (''level'', VString ''status''),
        (''code'', VString ''NetStream.Publish.Start'')]]) (Payload m) =
     Inr ([VString ''onStatus'', VNumber 0, VNil,
      VObject [(''description'', VString ''publishing''), (''level'', VString ''status''),
        (''code'', VString ''NetStream.Publish.Start'')]], [])"
    by (rule carries_reads)
  from m(2) have "handlePublishResponse m = Inr ()"
    unfolding read_list_cons by (auto simp: handlePublishResponse_def float_u32_def float_trunc_samples)
  with m(1) show "\<exists>m. NewPublishSuccessMessage = Inr m \<and> handlePublishResponse m = Inr ()" by blast
qed

section \<open>Replies that crash the client\<close>

lemma ReadValue_no_panic [simp]: "ReadValue r \<noteq> Inl (Panic p)"
  using AMF0_read_returns(1)[of r] by (auto simp: returns_def)

lemma ex_list: "(\<exists>xs. P xs) \<longleftrightarrow> P [] \<or> (\<exists>x xs. P (x # xs))"
  by (metis list.exhaust)

lemma connect_loop_panics:
  "(\<exists>p. connect_loop r = Inl (Panic p)) \<longleftrightarrow>
    (\<exists>os r1 info c r2. read_list ReadValue (length os) r = Inr (map VObject os, r1) \<and> (\<forall>ob \<in> set os. map_of ob ''code'' = None) \<and>
       ReadValue r1 = Inr (VObject info, r2) \<and> map_of info ''code'' = Some c \<and> c \<noteq> VString ''NetConnection.Connect.Success'')"
  (is "_ \<longleftrightarrow> (\<exists>os r1 info c r2. ?bad r os r1 info c r2)")
proof (induction r rule: connect_loop.induct)
  case (1 r)
  have here: "?bad r [] r1 info c r2 \<longleftrightarrow> r1 = r \<and> ReadValue r = Inr (VObject info, r2) \<and> map_of info ''code'' = Some c \<and>
      c \<noteq> VString ''NetConnection.Connect.Success''" for r1 info c r2 by auto
  have later: "?bad r (ob # os) r1 info c r2 \<longleftrightarrow>
      (\<exists>r'. ReadValue r = Inr (VObject ob, r') \<and> map_of ob ''code'' = None \<and> ?bad r' os r1 info c r2)" for ob os r1 info c r2
    by (auto simp: bindE_eq_Inr)
  have split: "(\<exists>os r1 info c r2. ?bad r os r1 info c r2) \<longleftrightarrow>
      (\<exists>r1 info c r2. ?bad r [] r1 info c r2) \<or> (\<exists>ob os r1 info c r2. ?bad r (ob # os) r1 info c r2)"
    by (rule ex_list)
  show ?case
  proof (cases "\<exists>ob r'. ReadValue r = Inr (VObject ob, r') \<and> map_of ob ''code'' = None")
    case True
    then obtain ob r' where v: "ReadValue r = Inr (VObject ob, r')" "map_of ob ''code'' = None" by blast
    have "connect_loop r = connect_loop r'" using v by (subst connect_loop.simps) simp
    then show ?thesis unfolding split here later using 1[OF v(1) refl refl v(2)] v by auto
  next
    case False
    then have "(\<exists>p. connect_loop r = Inl (Panic p)) \<longleftrightarrow> (\<exists>r1 info c r2. ?bad r [] r1 info c r2)"
      unfolding here by (subst connect_loop.simps) (auto split: sum.splits gvalue.splits option.splits)
    then show ?thesis unfolding split later using False by blast
  qed
qed

lemma number_case:
  "(case v of VNumber n \<Rightarrow> g n | _ \<Rightarrow> Inl (Errorf q)) = Inl (Panic p) \<longleftrightarrow> (\<exists>n. v = VNumber n \<and> g n = Inl (Panic p))"
  by (cases v) simp_all

lemma object_case:
  "(case v of VObject ob \<Rightarrow> g ob | _ \<Rightarrow> Inl (Errorf q)) = Inl (Panic p) \<longleftrightarrow> (\<exists>ob. v = VObject ob \<and> g ob = Inl (Panic p))"
  by (cases v) simp_all

lemma string_case:
  "(case v of VString s \<Rightarrow> g s | _ \<Rightarrow> Inl (Panic q)) = Inl (Panic p) \<longleftrightarrow>
    (\<exists>s. v = VString s \<and> g s = Inl (Panic p)) \<or> (\<nexists>s. v = VString s) \<and> p = q"
  by (cases v) auto

lemma option_case:
  "(case w of None \<Rightarrow> Inl (Errorf q) | Some y \<Rightarrow> g y) = Inl (Panic p) \<longleftrightarrow> (\<exists>y. w = Some y \<and> g y = Inl (Panic p))"
  "(if b then x else Inr u) = Inl (Panic p) \<longleftrightarrow> b \<and> x = Inl (Panic p)"
  by (cases w) simp_all

lemmas panic_cases = number_case object_case string_case option_case

lemma failIf_panics: "failIf b (Errorf q) g = Inl (Panic p) \<longleftrightarrow> \<not> b \<and> g = Inl (Panic p)"
  by (simp add: failIf_def)

lemma four: "(4 :: nat) = Suc (Suc (Suc (Suc 0)))" by simp

text \<open>C17: Exactly these replies crash the client.  A connect reply: a _result of transaction 1 that goes on
  with objects without a code and then an object with a code other than the string of success (the text of
  the error asserts the object to be a string).  A publish reply: an onStatus of transaction 0 with a null
  and an object whose code is no string, or whose code is not the start of the publication while its
  description is no string.  A refused publication whose code and description are strings is reported as
  an error with the description.\<close>

theorem reply_panics_iff:
  "((\<exists>p. handleConnectResponse m = Inl (Panic p)) \<longleftrightarrow>
     (\<exists>f os r info c r'. read_list ReadValue (length os + 2) (Payload m) = Inr (VString ''_result'' # VNumber f # map VObject os, r) \<and>
        float_trunc f = 1 \<and> (\<forall>ob \<in> set os. map_of ob ''code'' = None) \<and>
        ReadValue r = Inr (VObject info, r') \<and> map_of info ''code'' = Some c \<and> c \<noteq> VString ''NetConnection.Connect.Success'')) \<and>
   ((\<exists>p. handlePublishResponse m = Inl (Panic p)) \<longleftrightarrow>
     (\<exists>f info c r. read_list ReadValue 4 (Payload m) = Inr ([VString ''onStatus'', VNumber f, VNil, VObject info], r) \<and>
        float_u32 f = 0 \<and> map_of info ''code'' = Some c \<and>
        ((\<nexists>s. c = VString s) \<or> c \<noteq> VString ''NetStream.Publish.Start'' \<and>
           (\<exists>d. map_of info ''description'' = Some d \<and> (\<nexists>s. d = VString s))))) \<and>
   (\<forall>f info code desc r. read_list ReadValue 4 (Payload m) = Inr ([VString ''onStatus'', VNumber f, VNil, VObject info], r) \<and>
     float_u32 f = 0 \<and> map_of info ''code'' = Some (VString code) \<and> code \<noteq> ''NetStream.Publish.Start'' \<and>
     map_of info ''description'' = Some (VString desc) \<longrightarrow>
     handlePublishResponse m = Inl (Errorf (''publish fail:'' @ desc)))"
proof (intro conjI)
  have "(\<exists>p. handleConnectResponse m = Inl (Panic p)) \<longleftrightarrow>
      (\<exists>f r1 r2. ReadValue (Payload m) = Inr (VString ''_result'', r1) \<and> ReadValue r1 = Inr (VNumber f, r2) \<and> float_trunc f = 1 \<and>
         (\<exists>p. connect_loop r2 = Inl (Panic p)))"
    by (auto simp: handleConnectResponse_def bindE_eq_Inl failIf_panics panic_cases)
  then show "(\<exists>p. handleConnectResponse m = Inl (Panic p)) \<longleftrightarrow>
     (\<exists>f os r info c r'. read_list ReadValue (length os + 2) (Payload m) = Inr (VString ''_result'' # VNumber f # map VObject os, r) \<and>
        float_trunc f = 1 \<and> (\<forall>ob \<in> set os. map_of ob ''code'' = None) \<and>
        ReadValue r = Inr (VObject info, r') \<and> map_of info ''code'' = Some c \<and> c \<noteq> VString ''NetConnection.Connect.Success'')"
    unfolding connect_loop_panics by (simp add: bindE_eq_Inr) blast
next
  show "(\<exists>p. handlePublishResponse m = Inl (Panic p)) \<longleftrightarrow>
     (\<exists>f info c r. read_list ReadValue 4 (Payload m) = Inr ([VString ''onStatus'', VNumber f, VNil, VObject info], r) \<and>
        float_u32 f = 0 \<and> map_of info ''code'' = Some c \<and>
        ((\<nexists>s. c = VString s) \<or> c \<noteq> VString ''NetStream.Publish.Start'' \<and>
           (\<exists>d. map_of info ''description'' = Some d \<and> (\<nexists>s. d = VString s))))"
    unfolding handlePublishResponse_def four read_list_step
    by (auto simp: bindE_eq_Inl failIf_panics panic_cases) metis
next
  show "\<forall>f info code desc r. read_list ReadValue 4 (Payload m) = Inr ([VString ''onStatus'', VNumber f, VNil, VObject info], r) \<and>
     float_u32 f = 0 \<and> map_of info ''code'' = Some (VString code) \<and> code \<noteq> ''NetStream.Publish.Start'' \<and>
     map_of info ''description'' = Some (VString desc) \<longrightarrow>
     handlePublishResponse m = Inl (Errorf (''publish fail:'' @ desc))"
    unfolding four read_list_step by (auto simp: handlePublishResponse_def)
qed

definition demo_rejected :: "Message res" where
  "demo_rejected = command_as_object 0 [VString ''_result'', VInt 1, VArray [VString ''v'', VInt 31],
     VArray [VString ''code'', VString ''NetConnection.Connect.Rejected'']]"

definition demo_badname :: "Message res" where
  "demo_badname = command_as_object 0 [VString ''onStatus'', VInt 0, VNil,
     VArray [VString ''code'', VString ''NetStream.Publish.BadName'', VString ''description'', VString ''in use'']]"

theorem reply_panics_iff_witness:
  "(\<exists>p. bindE demo_rejected handleConnectResponse = Inl (Panic p)) \<and>
   bindE demo_badname handlePublishResponse = Inl (Errorf ''publish fail:in use'')"
proof -
  have "carries demo_rejected 0 [VString ''_result'', VNumber 0x3FF0000000000000,
      VObject [(''v'', VNumber 0x403F000000000000)], VObject [(''code'', VString ''NetConnection.Connect.Rejected'')]]"
    unfolding demo_rejected_def by (rule command_carries') (simp_all add: arg_simps float_of_int_samples)
  then obtain m where m: "demo_rejected = Inr m" "read_list ReadValue 4 (Payload m) = Inr ([VString ''_result'',
      VNumber 0x3FF0000000000000, VObject [(''v'', VNumber 0x403F000000000000)],
      VObject [(''code'', VString ''NetConnection.Connect.Rejected'')]], [])"
    by (rule carries_reads) (simp add: eval_nat_numeral)
  have "carries demo_badname 0 [VString ''onStatus'', VNumber 0, VNil,
      VObject [(''code'', VString ''NetStream.Publish.BadName''), (''description'', VString ''in use'')]]"
    unfolding demo_badname_def by (rule command_carries') (simp_all add: arg_simps float_of_int_samples)
  then obtain m' where m': "demo_badname = Inr m'" "read_list ReadValue 4 (Payload m') = Inr ([VString ''onStatus'',
      VNumber 0, VNil, VObject [(''code'', VString ''NetStream.Publish.BadName''), (''description'', VString ''in use'')]], [])"
    by (rule carries_reads) (simp add: eval_nat_numeral)
  have c: "\<exists>p. handleConnectResponse m = Inl (Panic p)"
    using conjunct1[OF reply_panics_iff[of m]] m(2) unfolding four read_list_step
    by (fastforce simp: float_trunc_samples bindE_eq_Inr intro: exI[of _ "[[(''v'', VNumber 0x403F000000000000)]]"])
  have p: "handlePublishResponse m' = Inl (Errorf (''publish fail:'' @ ''in use''))"
    using conjunct2[OF conjunct2[OF reply_panics_iff[of m']]] m'(2) by (fastforce simp: float_u32_def float_trunc_samples)
  show ?thesis using c p unfolding m(1) m'(1) bindE.simps by simp
qed

end
