(* ===== verification/Conn.thy ===== *)
theory Conn
  imports ByteIO
begin

text \<open>
  The world of a connection: the bytes an \<open>io.ReadWriter\<close> has still to deliver, the bytes written to
  it so far, the error its \<open>Write\<close> reports (none while the peer is there) and the bytes \<open>crypto/rand\<close>
  has still to draw.  A function with these effects is a function from a world to its outcome and the
  world it leaves, also when it fails: what was read and written before the failure stays.
\<close>

record world =
  w_in :: bytes
  w_out :: bytes
  w_werr :: "go_error option"
  w_rand :: "nat \<Rightarrow> byte"

type_synonym ('s, 'a) st = "'s \<Rightarrow> 'a res \<times> 's"
type_synonym 'a io = "(world, 'a) st"

definition retIO :: "'a \<Rightarrow> ('s, 'a) st" where
  "retIO x w = (Inr x, w)"

definition liftIO :: "'a res \<Rightarrow> ('s, 'a) st" where
  "liftIO r w = (r, w)"

definition bindIO :: "('s, 'a) st \<Rightarrow> ('a \<Rightarrow> ('s, 'b) st) \<Rightarrow> ('s, 'b) st" where
  "bindIO m f w = (case m w of (Inl e, w') \<Rightarrow> (Inl e, w') | (Inr x, w') \<Rightarrow> f x w')"

text \<open>
  The same sequencing serves the methods of an object, with its fields as the state: reading a field,
  assigning to fields, an early return, and a call whose error the caller inspects (a panic passes).
\<close>

definition getS :: "('s \<Rightarrow> 'a) \<Rightarrow> ('s, 'a) st" where
  "getS f s = (Inr (f s), s)"

definition modS :: "('s \<Rightarrow> 's) \<Rightarrow> ('s, unit) st" where
  "modS f s = (Inr (), f s)"

definition failS :: "go_error \<Rightarrow> ('s, 'a) st" where
  "failS e s = (Inl e, s)"

definition errS :: "('s, unit) st \<Rightarrow> ('s, go_error option) st" where
  "errS m s = (case m s of
     (Inr _, s') \<Rightarrow> (Inr None, s')
   | (Inl e, s') \<Rightarrow> if is_fault e then (Inl e, s') else (Inr (Some e), s'))"

definition retErr :: "go_error option \<Rightarrow> ('s, unit) st" where
  "retErr err = (case err of None \<Rightarrow> retIO () | Some e \<Rightarrow> failS e)"

text \<open>\<open>io.ReadFull\<close> and \<open>Write\<close> on the connection, \<open>rand.Read\<close> into a slice of \<open>n\<close> bytes.\<close>

definition rw_ReadFull :: "nat \<Rightarrow> bytes io" where
  "rw_ReadFull n w =
     (if n \<le> length (w_in w) then (Inr (take n (w_in w)), w\<lparr>w_in := drop n (w_in w)\<rparr>)
      else (Inl (if w_in w = [] then EOF else ErrUnexpectedEOF), w\<lparr>w_in := []\<rparr>))"

definition rw_Write :: "bytes \<Rightarrow> unit io" where
  "rw_Write b w = (case w_werr w of None \<Rightarrow> (Inr (), w\<lparr>w_out := w_out w @ b\<rparr>) | Some e \<Rightarrow> (Inl e, w))"

definition rand_Read :: "nat \<Rightarrow> bytes io" where
  "rand_Read n w = (Inr (map (w_rand w) [0..<n]), w\<lparr>w_rand := (\<lambda>i. w_rand w (i + n))\<rparr>)"

text \<open>A slice in which the bytes from index \<open>i\<close> on are overwritten by \<open>bs\<close>.\<close>

definition store_at :: "nat \<Rightarrow> 'a list \<Rightarrow> 'a list \<Rightarrow> 'a list" where
  "store_at i bs xs = take i xs @ bs @ drop (i + length bs) xs"

section \<open>Lemmas\<close>

named_theorems io_simps \<open>unfolding rules of the effectful sequencing\<close>

lemma bindIO_simps:
  "m w = (Inr x, w') \<Longrightarrow> bindIO m f w = f x w'"
  "m w = (Inl e, w') \<Longrightarrow> bindIO m f w = (Inl e, w')"
  by (simp_all add: bindIO_def)

lemma bindIO_ret [io_simps]: "bindIO (retIO x) f = f x"
  by (rule ext) (simp add: bindIO_def retIO_def)

lemma bindIO_lift [io_simps]:
  "bindIO (liftIO (Inr x)) f = f x"
  "bindIO (liftIO (Inl e)) f w = (Inl e, w)"
  by (rule ext) (simp add: bindIO_def liftIO_def, simp add: bindIO_def liftIO_def)

lemma bindIO_assoc: "bindIO (bindIO m f) g = bindIO m (\<lambda>x. bindIO (f x) g)"
  by (rule ext) (auto simp: bindIO_def split: prod.splits sum.splits)

lemma bindIO_getS [io_simps]: "bindIO (getS g) f s = f (g s) s"
  by (simp add: bindIO_def getS_def)

lemma bindIO_modS [io_simps]: "bindIO (modS g) f s = f () (g s)"
  by (simp add: bindIO_def modS_def)

lemma bindIO_failS [io_simps]: "bindIO (failS e) f s = (Inl e, s)"
  by (simp add: bindIO_def failS_def)

lemma retErr_simps [io_simps]: "retErr None = retIO ()" "retErr (Some e) = failS e"
  by (simp_all add: retErr_def)

lemma bindIO_errS [io_simps]:
  "m s = (Inr x, s') \<Longrightarrow> bindIO (errS m) f s = f None s'"
  "m s = (Inl e, s') \<Longrightarrow> \<not> is_fault e \<Longrightarrow> bindIO (errS m) f s = f (Some e) s'"
  "m s = (Inl e, s') \<Longrightarrow> is_fault e \<Longrightarrow> bindIO (errS m) f s = (Inl e, s')"
  by (simp_all add: bindIO_def errS_def)

text \<open>The results are named by equations, so that the simplifier works on them before it goes on.\<close>

lemma rw_ReadFull_simps [io_simps]:
  "n \<le> length (w_in w) \<Longrightarrow> take n (w_in w) = b \<Longrightarrow> w\<lparr>w_in := drop n (w_in w)\<rparr> = w' \<Longrightarrow>
    bindIO (rw_ReadFull n) f w = f b w'"
  "length (w_in w) < n \<Longrightarrow>
    bindIO (rw_ReadFull n) f w = (Inl (if w_in w = [] then EOF else ErrUnexpectedEOF), w\<lparr>w_in := []\<rparr>)"
  by (auto simp: bindIO_def rw_ReadFull_def)

lemma rw_Write_simps [io_simps]:
  "w_werr w = None \<Longrightarrow> w\<lparr>w_out := w_out w @ b\<rparr> = w' \<Longrightarrow> bindIO (rw_Write b) f w = f () w'"
  "w_werr w = Some e \<Longrightarrow> bindIO (rw_Write b) f w = (Inl e, w)"
  by (auto simp: bindIO_def rw_Write_def)

lemma rand_Read_simps [io_simps]:
  "map (w_rand w) [0..<n] = b \<Longrightarrow> w\<lparr>w_rand := (\<lambda>i. w_rand w (i + n))\<rparr> = w' \<Longrightarrow>
    bindIO (rand_Read n) f w = f b w'"
  by (auto simp: bindIO_def rand_Read_def)

lemma length_store_at [simp]: "i + length bs \<le> length xs \<Longrightarrow> length (store_at i bs xs) = length xs"
  by (simp add: store_at_def)

end
