(* ===== verification/Handshake.thy ===== *)
theory Handshake
  imports Conn Sha256
begin

text \<open>
  \<open>protocol/rtmp/handshake.go\<close>: the simple and the complex handshake of the server, the handshake of
  the client and the digest blocks of C1 and S1.

  A \<open>digestBlock\<close> of the code holds three slices of one buffer (before, digest, after); writing its
  digest therefore rewrites the buffer, which is \<open>block_bytes\<close> of the block.  Buffers are passed and
  returned; slices are taken with the capacity of their length.
\<close>

section \<open>Keys and blocks\<close>

definition hsClientFullKey :: bytes where
  "hsClientFullKey =
    [0x47, 0x65, 0x6E, 0x75, 0x69, 0x6E, 0x65, 0x20, 0x41, 0x64, 0x6F, 0x62, 0x65, 0x20, 0x46, 0x6C,
     0x61, 0x73, 0x68, 0x20, 0x50, 0x6C, 0x61, 0x79, 0x65, 0x72, 0x20, 0x30, 0x30, 0x31,
     0xF0, 0xEE, 0xC2, 0x4A, 0x80, 0x68, 0xBE, 0xE8, 0x2E, 0x00, 0xD0, 0xD1, 0x02, 0x9E, 0x7E, 0x57,
     0x6E, 0xEC, 0x5D, 0x2D, 0x29, 0x80, 0x6F, 0xAB, 0x93, 0xB8, 0xE6, 0x36, 0xCF, 0xEB, 0x31, 0xAE]"

definition hsServerFullKey :: bytes where
  "hsServerFullKey =
    [0x47, 0x65, 0x6E, 0x75, 0x69, 0x6E, 0x65, 0x20, 0x41, 0x64, 0x6F, 0x62, 0x65, 0x20, 0x46, 0x6C,
     0x61, 0x73, 0x68, 0x20, 0x4D, 0x65, 0x64, 0x69, 0x61, 0x20, 0x53, 0x65, 0x72, 0x76, 0x65, 0x72,
     0x20, 0x30, 0x30, 0x31,
     0xF0, 0xEE, 0xC2, 0x4A, 0x80, 0x68, 0xBE, 0xE8, 0x2E, 0x00, 0xD0, 0xD1, 0x02, 0x9E, 0x7E, 0x57,
     0x6E, 0xEC, 0x5D, 0x2D, 0x29, 0x80, 0x6F, 0xAB, 0x93, 0xB8, 0xE6, 0x36, 0xCF, 0xEB, 0x31, 0xAE]"

definition hsClientPartialKey :: bytes where
  "hsClientPartialKey = take 30 hsClientFullKey"

definition hsServerPartialKey :: bytes where
  "hsServerPartialKey = take 36 hsServerFullKey"

definition schema0 :: int where "schema0 = 0"
definition schema1 :: int where "schema1 = 1"

record keyBlock =
  kb_random1 :: bytes
  kb_key :: bytes
  kb_random2 :: bytes
  kb_offset :: bytes
  kb_keyOffset :: nat

record digestBlock =
  db_random1 :: bytes
  db_digest :: bytes
  db_random2 :: bytes
  db_offset :: bytes
  db_digestOffset :: nat

text \<open>The loops \<open>for i := 0; i < n; i++ { pos += int(b[i]) }\<close>.\<close>

primrec sum_bytes :: "bytes \<Rightarrow> nat \<Rightarrow> nat res" where
  "sum_bytes b 0 = Inr 0"
| "sum_bytes b (Suc i) = bindE (sum_bytes b i) (\<lambda>pos.
     failIf (length b \<le> i) index_panic (Inr (pos + unat (b ! i))))"

definition slice :: "bytes \<Rightarrow> nat \<Rightarrow> nat \<Rightarrow> bytes res" where
  "slice b i j = failIf (j < i \<or> length b < j) (Panic ''slice bounds out of range'') (Inr (subslice i j b))"

definition parseHandshakeKey :: "bytes \<Rightarrow> keyBlock res" where
  "parseHandshakeKey dat =
     (let key = \<lparr>kb_random1 = [], kb_key = [], kb_random2 = [], kb_offset = [], kb_keyOffset = 0\<rparr> in
      bindE (slice dat 760 764) (\<lambda>off. let key = key\<lparr>kb_offset := off\<rparr> in
      bindE (sum_bytes (kb_key key) 4) (\<lambda>s. let pos = s mod 632 + 4 in
      bindE (slice dat 0 pos) (\<lambda>r1.
      bindE (slice dat pos (pos + 128)) (\<lambda>k.
      bindE (slice dat (pos + 128) 760) (\<lambda>r2.
      Inr (key\<lparr>kb_keyOffset := pos, kb_random1 := r1, kb_key := k, kb_random2 := r2\<rparr>)))))))"

text \<open>The two \<open>make\<close> functions fill the buffer they are given: the block and the new buffer.\<close>

definition makeHandshakeKeyBlock :: "bytes \<Rightarrow> (keyBlock \<times> bytes) io" where
  "makeHandshakeKeyBlock dat =
     bindIO (liftIO (slice dat 760 764)) (\<lambda>off0.
     bindIO (rand_Read (length off0)) (\<lambda>off.
     bindIO (liftIO (sum_bytes off 4)) (\<lambda>s. let pos = s mod 728 + 4; dat = store_at 760 off dat in
     bindIO (liftIO (slice dat 0 pos)) (\<lambda>r1.
     bindIO (liftIO (slice dat pos (pos + 32))) (\<lambda>k.
     bindIO (liftIO (slice dat (pos + 32) (length dat))) (\<lambda>r2.
     bindIO (rand_Read (length r1)) (\<lambda>r1.
     bindIO (rand_Read (length r2)) (\<lambda>r2.
     bindIO (rand_Read (length k)) (\<lambda>k. let dat = r1 @ k @ r2 in
     retIO (\<lparr>kb_random1 = r1, kb_key = k, kb_random2 = r2, kb_offset = subslice 760 764 dat,
             kb_keyOffset = pos\<rparr>, dat))))))))))"

definition makeC1Digest :: "digestBlock \<Rightarrow> bytes" where
  "makeC1Digest digest = hmac_sha256 hsClientPartialKey (db_random1 digest @ db_random2 digest)"

definition makeHandshakeDigestBlock :: "bytes \<Rightarrow> bytes io" where
  "makeHandshakeDigestBlock dat =
     bindIO (liftIO (slice dat 0 4)) (\<lambda>off0.
     bindIO (rand_Read (length off0)) (\<lambda>off.
     bindIO (liftIO (sum_bytes off 4)) (\<lambda>s. let pos = s mod 728 + 4; dat = store_at 0 off dat in
     bindIO (liftIO (slice dat 0 pos)) (\<lambda>r1.
     bindIO (liftIO (slice dat pos (pos + 32))) (\<lambda>d.
     bindIO (liftIO (slice dat (pos + 32) (length dat))) (\<lambda>r2.
     bindIO (rand_Read (length r1)) (\<lambda>r1.
     bindIO (rand_Read (length r2)) (\<lambda>r2.
     let block = \<lparr>db_random1 = r1, db_digest = d, db_random2 = r2, db_offset = take 4 r1, db_digestOffset = pos\<rparr>
     in retIO (r1 @ makeC1Digest block @ r2)))))))))"

definition parseHandshakeDigestBlock :: "bytes \<Rightarrow> int \<Rightarrow> digestBlock res" where
  "parseHandshakeDigestBlock c1 schema =
     bindE (slice c1 8 (764 + 8)) (\<lambda>blockData0.
     let base = (if schema = schema1 then 764 + 8 else 8) in
     bindE (if schema = schema1 then slice c1 base 1536 else Inr blockData0) (\<lambda>blockData.
     bindE (slice blockData 0 4) (\<lambda>off.
     bindE (sum_bytes off 4) (\<lambda>s. let pos = s mod 728 + 4 + base in
     bindE (slice c1 0 pos) (\<lambda>r1.
     bindE (slice c1 pos (pos + 32)) (\<lambda>d.
     bindE (slice c1 (pos + 32) (length c1)) (\<lambda>r2.
     Inr \<lparr>db_random1 = r1, db_digest = d, db_random2 = r2, db_offset = off, db_digestOffset = pos\<rparr>)))))))"

definition makeS1Digest :: "digestBlock \<Rightarrow> digestBlock" where
  "makeS1Digest digest =
     digest\<lparr>db_digest := hmac_sha256 hsServerPartialKey (db_random1 digest @ db_random2 digest)\<rparr>"

definition makeS2DigestKey :: "digestBlock \<Rightarrow> bytes" where
  "makeS2DigestKey digest = hmac_sha256 hsServerFullKey (db_digest digest)"

text \<open>The buffer a block of \<open>parseHandshakeDigestBlock\<close> is made of.\<close>

definition block_bytes :: "digestBlock \<Rightarrow> bytes" where
  "block_bytes b = db_random1 b @ db_digest b @ db_random2 b"

section \<open>The server\<close>

definition complexHandshakeC1CheckAndDigestSchema :: "bytes \<Rightarrow> int \<Rightarrow> (bool \<times> digestBlock option) res" where
  "complexHandshakeC1CheckAndDigestSchema C1 schema =
     bindE (parseHandshakeDigestBlock C1 schema) (\<lambda>block.
     if db_digest block \<noteq> makeC1Digest block then Inr (False, None) else Inr (True, Some block))"

definition complexHandshakeC1CheckAndDigest :: "bytes \<Rightarrow> (bool \<times> digestBlock option) res" where
  "complexHandshakeC1CheckAndDigest C1 =
     bindE (complexHandshakeC1CheckAndDigestSchema C1 schema0) (\<lambda>(ok, block).
     if \<not> ok then complexHandshakeC1CheckAndDigestSchema C1 schema1 else Inr (ok, block))"

definition createComplexS1 :: "bytes \<Rightarrow> bytes io" where
  "createComplexS1 s1 =
     bindIO (rand_Read (length s1 - 8)) (\<lambda>r. let s1 = store_at 8 r s1 in
     bindIO (liftIO (PutU32BE (take 4 s1) 0)) (\<lambda>t. let s1 = store_at 0 t s1 in
     bindIO (liftIO (PutU32BE (subslice 4 8 s1) 0x0d0e0a0d)) (\<lambda>v. let s1 = store_at 4 v s1 in
     bindIO (liftIO (parseHandshakeDigestBlock s1 schema0)) (\<lambda>block.
     retIO (block_bytes (makeS1Digest block))))))"

definition createComplexS2 :: "bytes \<Rightarrow> bytes \<Rightarrow> bytes io" where
  "createComplexS2 s2 s2DigestKey =
     bindIO (rand_Read (length s2)) (\<lambda>s2. let gap = length s2 - 32 in
     retIO (store_at gap (hmac_sha256 s2DigestKey (take gap s2)) s2))"

definition complexHandshake :: "bytes \<Rightarrow> unit io" where
  "complexHandshake C1TimeAndVersion =
     bindIO (rw_ReadFull 1528) (\<lambda>rest. let C1 = C1TimeAndVersion @ rest in
     bindIO (liftIO (complexHandshakeC1CheckAndDigest C1)) (\<lambda>(ok, block).
     if \<not> ok then liftIO (Inl (Errorf ''c1 digest check fail'')) else
     bindIO (createComplexS1 (replicate 1536 0)) (\<lambda>S1.
     bindIO (createComplexS2 (replicate 1536 0) (makeS2DigestKey (the block))) (\<lambda>S2.
     bindIO (rw_Write ([3] @ S1 @ S2)) (\<lambda>_.
     bindIO (rw_ReadFull 1536) (\<lambda>C2. retIO ()))))))"

definition simpleHandshake :: "bytes \<Rightarrow> unit io" where
  "simpleHandshake C1TimeAndVersion =
     bindIO (rw_ReadFull 1528) (\<lambda>rest. let C1 = C1TimeAndVersion @ rest in
     bindIO (liftIO (PutU32BE (replicate 4 0) 0)) (\<lambda>t.
     bindIO (rand_Read 1532) (\<lambda>r. let S1 = t @ r; S2 = C1 in
     bindIO (rw_Write ([3] @ S1 @ S2)) (\<lambda>_.
     bindIO (rw_ReadFull 1536) (\<lambda>C2. retIO ())))))"

definition handshakeServer :: "byte option \<Rightarrow> unit io" where
  "handshakeServer firstByte =
     bindIO (rw_ReadFull (9 - (if firstByte = None then 0 else 1))) (\<lambda>got.
     let header = (case firstByte of None \<Rightarrow> got | Some b \<Rightarrow> b # got);
         C0 = take 1 header; C1TimeAndVersion = subslice 1 9 header in
     bindIO (liftIO (U32BE (subslice 4 8 C1TimeAndVersion))) (\<lambda>cliver.
     if cliver \<noteq> 0 then
       (if C0 ! 0 = 6 then liftIO (Inl (Errorf ''rtmp: complex handshake not support crypto''))
        else if C0 ! 0 \<noteq> 3 then liftIO (Inl (Errorf ''rtmp: simple handshake version invalid''))
        else complexHandshake C1TimeAndVersion)
     else if C0 ! 0 \<noteq> 3 then liftIO (Inl (Errorf ''rtmp: simple handshake version invalid''))
     else simpleHandshake C1TimeAndVersion))"

section \<open>The client\<close>

definition makeC1 :: "bytes \<Rightarrow> int \<Rightarrow> bytes io" where
  "makeC1 c1 schema =
     bindIO (liftIO (PutU32BE c1 0)) (\<lambda>c1.
     let base = (if schema = schema1 then 764 + 8 else 8) in
     bindIO (liftIO (slice c1 8 772)) (\<lambda>keyBlockData.
     bindIO (liftIO (if schema = schema1 then slice c1 base 1536 else slice c1 (764 + base) (length c1)))
       (\<lambda>digestBlockData.
     bindIO (makeHandshakeKeyBlock keyBlockData) (\<lambda>(kb, keyBlockData).
     bindIO (makeHandshakeDigestBlock digestBlockData) (\<lambda>digestBlockData.
     retIO (store_at 772 digestBlockData (store_at 8 keyBlockData c1)))))))"

definition HandshakeClient :: "unit io" where
  "HandshakeClient =
     bindIO (makeC1 (replicate 1536 0) schema1) (\<lambda>C1.
     bindIO (rw_Write ([3] @ C1)) (\<lambda>_.
     bindIO (rw_ReadFull 3073) (\<lambda>S0S1S2.
     bindIO (rw_Write (replicate 1536 0)) (\<lambda>_. retIO ()))))"

section \<open>Where a digest lies\<close>

definition digest_pos :: "nat \<Rightarrow> bytes \<Rightarrow> nat" where
  "digest_pos base c1 =
     (unat (c1 ! base) + unat (c1 ! (base + 1)) + unat (c1 ! (base + 2)) + unat (c1 ! (base + 3))) mod 728 + 4 + base"

definition block_at :: "nat \<Rightarrow> bytes \<Rightarrow> digestBlock" where
  "block_at base c1 =
     (let p = digest_pos base c1 in
      \<lparr>db_random1 = take p c1, db_digest = subslice p (p + 32) c1, db_random2 = drop (p + 32) c1,
       db_offset = subslice base (base + 4) c1, db_digestOffset = p\<rparr>)"

lemma slice_ok [simp]: "i \<le> j \<Longrightarrow> j \<le> length b \<Longrightarrow> slice b i j = Inr (subslice i j b)"
  by (simp add: slice_def failIf_def)

lemma sum_bytes_4:
  "4 \<le> length b \<Longrightarrow> sum_bytes b 4 = Inr (unat (b ! 0) + unat (b ! 1) + unat (b ! 2) + unat (b ! 3))"
  by (auto simp: eval_nat_numeral failIf_def)

lemma subslice_nth: "k < j - i \<Longrightarrow> i + k < length b \<Longrightarrow> subslice i j b ! k = b ! (i + k)"
  by (simp add: subslice_def)

definition c1_valid :: "nat \<Rightarrow> bytes \<Rightarrow> bool" where
  "c1_valid base c1 \<longleftrightarrow> (let p = digest_pos base c1 in
     subslice p (p + 32) c1 = hmac_sha256 hsClientPartialKey (take p c1 @ drop (p + 32) c1))"

lemma c1_valid_iff: "c1_valid base c1 \<longleftrightarrow> db_digest (block_at base c1) = makeC1Digest (block_at base c1)"
  by (simp add: c1_valid_def block_at_def makeC1Digest_def Let_def)

lemma length_C1Digest [simp]: "length (makeC1Digest b) = 32"
  by (simp add: makeC1Digest_def)

text \<open>
  What the check of a signed 1536 byte block relies on: the parser finds the digest at a position that
  the four offset bytes before it determine.
\<close>

locale digest_schema =
  fixes parse :: "bytes \<Rightarrow> digestBlock res" and base :: nat
  assumes base_fits: "base + 764 \<le> 1536"
    and parse_block: "length c1 = 1536 \<Longrightarrow> parse c1 = Inr (block_at base c1)"
begin

lemma pos_bounds: "base + 4 \<le> digest_pos base c1" "digest_pos base c1 < base + 732"
  "digest_pos base c1 + 32 \<le> 1536"
proof -
  have "(x :: nat) mod 728 < 728" for x by simp
  then show "base + 4 \<le> digest_pos base c1" "digest_pos base c1 < base + 732"
    by (simp_all add: digest_pos_def add.commute)
  with base_fits show "digest_pos base c1 + 32 \<le> 1536" by linarith
qed

lemma block_partition: "block_bytes (block_at base c1) = c1"
proof -
  let ?p = "digest_pos base c1"
  have "take 32 (drop ?p c1) @ drop (?p + 32) c1 = drop ?p c1"
    by (metis add.commute append_take_drop_id drop_drop)
  then show ?thesis by (simp add: block_bytes_def block_at_def Let_def subslice_def)
qed

lemma signed_pos:
  assumes "length c1 = 1536" "length d = 32"
  shows "digest_pos base (store_at (digest_pos base c1) d c1) = digest_pos base c1"
proof -
  have "store_at (digest_pos base c1) d c1 ! (base + k) = c1 ! (base + k)" if "k < 4" for k
    using that pos_bounds(1)[of c1] pos_bounds(3)[of c1] assms
    by (simp add: store_at_def nth_append)
  from this[of 0] this[of 1] this[of 2] this[of 3] show ?thesis
    by (simp add: digest_pos_def)
qed

text \<open>A 32 byte tag written over the digest is what the parser finds, and what is signed stays.\<close>

lemma block_signed:
  assumes "length c1 = 1536" "length d = 32"
  shows "db_digest (block_at base (store_at (digest_pos base c1) d c1)) = d"
    and "db_random1 (block_at base (store_at (digest_pos base c1) d c1)) = db_random1 (block_at base c1)"
    and "db_random2 (block_at base (store_at (digest_pos base c1) d c1)) = db_random2 (block_at base c1)"
proof -
  let ?p = "digest_pos base c1" and ?c = "store_at (digest_pos base c1) d c1"
  note b = pos_bounds(3)[of c1]
  have e: "block_at base ?c = \<lparr>db_random1 = take ?p ?c, db_digest = subslice ?p (?p + 32) ?c,
      db_random2 = drop (?p + 32) ?c, db_offset = subslice base (base + 4) ?c, db_digestOffset = ?p\<rparr>"
    using assms by (simp add: block_at_def Let_def signed_pos)
  from assms b show "db_digest (block_at base ?c) = d"
    unfolding e by (simp add: subslice_def store_at_def)
  from assms b show "db_random1 (block_at base ?c) = db_random1 (block_at base c1)"
    "db_random2 (block_at base ?c) = db_random2 (block_at base c1)"
    unfolding e by (simp_all add: store_at_def block_at_def Let_def)
qed

lemma length_signed:
  "length c1 = 1536 \<Longrightarrow> length d = 32 \<Longrightarrow> length (store_at (digest_pos base c1) d c1) = 1536"
  using pos_bounds(3)[of c1] by simp

lemma signed_c1_valid:
  "length c1 = 1536 \<Longrightarrow> c1_valid base (store_at (digest_pos base c1) (makeC1Digest (block_at base c1)) c1)"
  by (simp add: c1_valid_iff block_signed) (simp add: makeC1Digest_def block_signed)

end

lemma parseHandshakeDigestBlock_block:
  assumes "length c1 = 1536"
  shows "parseHandshakeDigestBlock c1 schema0 = Inr (block_at 8 c1)"
    and "parseHandshakeDigestBlock c1 schema1 = Inr (block_at 772 c1)"
proof -
  have m: "(x :: nat) mod 728 \<le> 727" for x using mod_less_divisor[of 728 x] by linarith
  have le: "x mod 728 + 4 + 772 + 32 \<le> 1536" "x mod 728 + 4 + 8 + 32 \<le> 1536" for x :: nat
    using m[of x] by simp_all
  have p0: "\<And>b. slice c1 0 b = (if b \<le> 1536 then Inr (take b c1) else slice c1 0 b)"
    using assms by (simp add: subslice_def)
  let ?s = "\<lambda>b. unat (c1 ! b) + unat (c1 ! (b + 1)) + unat (c1 ! (b + 2)) + unat (c1 ! (b + 3))"
  have a: "sum_bytes (subslice 0 4 (subslice 8 772 c1)) 4 = Inr (?s 8)"
      "subslice 0 4 (subslice 8 772 c1) = subslice 8 12 c1"
    and b: "sum_bytes (subslice 0 4 (subslice 772 1536 c1)) 4 = Inr (?s 772)"
      "subslice 0 4 (subslice 772 1536 c1) = subslice 772 776 c1"
    using assms by (simp_all add: sum_bytes_4 subslice_nth) (simp_all add: subslice_def)
  show "parseHandshakeDigestBlock c1 schema0 = Inr (block_at 8 c1)"
    using assms le(2)[of "?s 8"] a
    by (simp add: parseHandshakeDigestBlock_def schema0_def schema1_def block_at_def digest_pos_def Let_def)
      (simp add: subslice_def)
  show "parseHandshakeDigestBlock c1 schema1 = Inr (block_at 772 c1)"
    using assms le(1)[of "?s 772"] b
    by (simp add: parseHandshakeDigestBlock_def schema0_def schema1_def block_at_def digest_pos_def Let_def)
      (simp add: subslice_def)
qed

interpretation s0: digest_schema "\<lambda>c. parseHandshakeDigestBlock c schema0" 8
  by unfold_locales (simp_all add: parseHandshakeDigestBlock_block)

interpretation s1: digest_schema "\<lambda>c. parseHandshakeDigestBlock c schema1" 772
  by unfold_locales (simp_all add: parseHandshakeDigestBlock_block)

section \<open>Checking and signing\<close>

lemma complexHandshakeC1CheckAndDigest_eq:
  assumes "length c1 = 1536"
  shows "complexHandshakeC1CheckAndDigest c1 =
    (if c1_valid 8 c1 then Inr (True, Some (block_at 8 c1))
     else if c1_valid 772 c1 then Inr (True, Some (block_at 772 c1)) else Inr (False, None))"
  using assms
  by (simp add: complexHandshakeC1CheckAndDigest_def complexHandshakeC1CheckAndDigestSchema_def
      parseHandshakeDigestBlock_block c1_valid_iff)

text \<open>C15: The check of C1 is sound and complete: a C1 of 1536 bytes is accepted exactly when the 32 bytes
  at the digest position of one of the two schemas are the client HMAC of all other bytes.  The block
  returned partitions C1, lies inside it and carries that digest, and any C1 that is signed at the
  position of a schema is accepted.\<close>

theorem C1_digest_check:
  assumes "length c1 = 1536"
  shows "(case complexHandshakeC1CheckAndDigest c1 of
      Inr (True, Some blk) \<Rightarrow> (c1_valid 8 c1 \<or> c1_valid 772 c1) \<and> block_bytes blk = c1 \<and>
        12 \<le> db_digestOffset blk \<and> db_digestOffset blk + 32 \<le> 1536 \<and>
        db_digest blk = hmac_sha256 hsClientPartialKey (db_random1 blk @ db_random2 blk)
    | Inr (False, None) \<Rightarrow> \<not> c1_valid 8 c1 \<and> \<not> c1_valid 772 c1
    | _ \<Rightarrow> False) \<and>
    (\<forall>base\<in>{8, 772}. \<exists>b. complexHandshakeC1CheckAndDigest
      (store_at (digest_pos base c1) (makeC1Digest (block_at base c1)) c1) = Inr (True, Some b))"
proof -
  have off: "db_digestOffset (block_at base c1) = digest_pos base c1" for base
    by (simp add: block_at_def Let_def)
  have "\<exists>b. complexHandshakeC1CheckAndDigest
      (store_at (digest_pos base c1) (makeC1Digest (block_at base c1)) c1) = Inr (True, Some b)"
    if "base \<in> {8, 772}" for base
    using that assms s0.signed_c1_valid[OF assms] s1.signed_c1_valid[OF assms]
    by (auto simp: complexHandshakeC1CheckAndDigest_eq s0.length_signed s1.length_signed)
  then show ?thesis
    using assms s0.pos_bounds[of c1] s1.pos_bounds[of c1]
    by (auto simp: complexHandshakeC1CheckAndDigest_eq s0.block_partition s1.block_partition off
        c1_valid_iff makeC1Digest_def)
qed

theorem C1_digest_check_witness:
  "\<exists>b. complexHandshakeC1CheckAndDigest (store_at 12 (makeC1Digest (block_at 8 (replicate 1536 0))) (replicate 1536 0))
     = Inr (True, Some b)"
proof -
  have p: "digest_pos 8 (replicate 1536 0) = 12" by (simp add: digest_pos_def)
  have "\<forall>base\<in>{8, 772}. \<exists>b. complexHandshakeC1CheckAndDigest
      (store_at (digest_pos base (replicate 1536 0)) (makeC1Digest (block_at base (replicate 1536 0))) (replicate 1536 0))
        = Inr (True, Some b)"
    using C1_digest_check [of "replicate 1536 0"] by simp
  with p show ?thesis by auto
qed

text \<open>\<open>parseHandshakeKey\<close>, which nothing calls, sums the bytes of a key it has not set yet.\<close>

lemma parseHandshakeKey_panics: "\<exists>msg. parseHandshakeKey dat = Inl (Panic msg)"
proof -
  have "sum_bytes [] 4 = Inl index_panic" by code_simp
  then show ?thesis by (simp add: parseHandshakeKey_def slice_def failIf_def)
qed

section \<open>The replies of the server\<close>

definition s1_valid :: "bytes \<Rightarrow> bool" where
  "s1_valid s1 \<longleftrightarrow> (let p = digest_pos 8 s1 in
     subslice p (p + 32) s1 = hmac_sha256 hsServerPartialKey (take p s1 @ drop (p + 32) s1))"

lemma s1_valid_iff: "s1_valid s1 \<longleftrightarrow> (let b = block_at 8 s1 in
    db_digest b = hmac_sha256 hsServerPartialKey (db_random1 b @ db_random2 b))"
  by (simp add: s1_valid_def block_at_def Let_def)

lemma block_bytes_S1Digest:
  "block_bytes (makeS1Digest (block_at 8 s1)) = store_at (digest_pos 8 s1)
     (hmac_sha256 hsServerPartialKey (db_random1 (block_at 8 s1) @ db_random2 (block_at 8 s1))) s1"
  by (simp add: block_bytes_def makeS1Digest_def store_at_def block_at_def Let_def)

lemma put4 [simp]:
  "length b = 4 \<Longrightarrow> PutU32BE b v = Inr (u32be v)" "length (u32be v) = 4"
  by (simp_all add: PutU32BE_def overwrite_def u32be_def failIf_def)

lemma createComplexS1_signed:
  "\<exists>s1 rnd. createComplexS1 (replicate 1536 0) w = (Inr s1, w\<lparr>w_rand := rnd\<rparr>) \<and>
     length s1 = 1536 \<and> s1_valid s1"
proof -
  define a where "a = store_at 8 (map (w_rand w) [0..<1528]) (replicate 1536 (0 :: byte))"
  define b where "b = store_at 4 (u32be 0x0d0e0a0d) (store_at 0 (u32be 0) a)"
  have la: "length a = 1536" unfolding a_def by (subst length_store_at) simp_all
  then have l0: "length (store_at 0 (u32be 0) a) = 1536" by simp
  then have lb: "length b = 1536" unfolding b_def by simp
  let ?d = "hmac_sha256 hsServerPartialKey (db_random1 (block_at 8 b) @ db_random2 (block_at 8 b))"
  have "createComplexS1 (replicate 1536 0) w =
      (Inr (store_at (digest_pos 8 b) ?d b), w\<lparr>w_rand := \<lambda>i. w_rand w (i + 1528)\<rparr>)"
    using la l0 lb
    by (simp add: createComplexS1_def io_simps a_def[symmetric] b_def[symmetric] Let_def retIO_def
        parseHandshakeDigestBlock_block block_bytes_S1Digest)
  moreover have "s1_valid (store_at (digest_pos 8 b) ?d b)"
    using s0.block_signed[OF lb, of ?d] by (simp add: s1_valid_iff Let_def)
  ultimately show ?thesis using s0.length_signed[OF lb, of ?d] by auto
qed

lemma createComplexS2_signed:
  "\<exists>s2 rnd. createComplexS2 (replicate 1536 0) key w = (Inr s2, w\<lparr>w_rand := rnd\<rparr>) \<and>
     length s2 = 1536 \<and> drop 1504 s2 = hmac_sha256 key (take 1504 s2)"
proof -
  define r where "r = map (w_rand w) [0..<1536]"
  have l: "length r = 1536" by (simp add: r_def)
  have "createComplexS2 (replicate 1536 0) key w =
      (Inr (store_at 1504 (hmac_sha256 key (take 1504 r)) r), w\<lparr>w_rand := \<lambda>i. w_rand w (i + 1536)\<rparr>)"
    using l by (simp add: createComplexS2_def io_simps r_def[symmetric] Let_def retIO_def)
  with l show ?thesis by (auto simp: store_at_def)
qed

text \<open>
  What the server has read when it decides, whether it accepts, and what its reply promises: in the
  simple handshake a zero time and an echo of C1, in the complex one a signed S1 and an S2 that ends
  with the HMAC keyed by the digest of C1.
\<close>

definition server_input :: "byte option \<Rightarrow> world \<Rightarrow> bytes" where
  "server_input fb w = (case fb of None \<Rightarrow> [] | Some b \<Rightarrow> [b]) @ w_in w"

definition simple_version :: "bytes \<Rightarrow> bool" where
  "simple_version i \<longleftrightarrow> U32BE (subslice 5 9 i) = Inr 0"

definition server_accepts :: "bytes \<Rightarrow> bool" where
  "server_accepts i \<longleftrightarrow> i ! 0 = 3 \<and> (let c1 = subslice 1 1537 i in
     simple_version i \<or> c1_valid 8 c1 \<or> c1_valid 772 c1)"

definition c1_digest :: "bytes \<Rightarrow> bytes" where
  "c1_digest c1 = db_digest (block_at (if c1_valid 8 c1 then 8 else 772) c1)"

definition reply_ok :: "bytes \<Rightarrow> bytes \<Rightarrow> bytes \<Rightarrow> bool" where
  "reply_ok i s1 s2 \<longleftrightarrow> length s1 = 1536 \<and> length s2 = 1536 \<and> (let c1 = subslice 1 1537 i in
     if simple_version i then take 4 s1 = [0, 0, 0, 0] \<and> s2 = c1
     else s1_valid s1 \<and>
       drop 1504 s2 = hmac_sha256 (hmac_sha256 hsServerFullKey (c1_digest c1)) (take 1504 s2))"

text \<open>The last step of both handshakes: the reply is written and C2 is read.\<close>

lemma reply_and_C2:
  assumes "w_werr w = None"
  shows "bindIO (rw_Write out) (\<lambda>_. bindIO (rw_ReadFull 1536) (\<lambda>C2. retIO ())) w =
    (if 1536 \<le> length (w_in w) then (Inr (), w\<lparr>w_out := w_out w @ out, w_in := drop 1536 (w_in w)\<rparr>)
     else (Inl (if w_in w = [] then EOF else ErrUnexpectedEOF), w\<lparr>w_out := w_out w @ out, w_in := []\<rparr>))"
  using assms by (simp add: io_simps retIO_def)

definition served :: "bytes \<Rightarrow> world \<Rightarrow> unit res \<times> world \<Rightarrow> bool" where
  "served i w out \<longleftrightarrow> (fst out = Inr () \<longleftrightarrow> 3073 \<le> length i) \<and> w_in (snd out) = drop 3073 i \<and>
     (\<exists>s1 s2. reply_ok i s1 s2 \<and> w_out (snd out) = w_out w @ [3] @ s1 @ s2)"

lemma C1_parts:
  "subslice 1 9 i @ take 1528 (drop 9 i) = subslice 1 1537 i"
  "subslice (Suc 0) 9 i @ take 1528 (drop 9 i) = subslice (Suc 0) 1537 i"
proof -
  have "take (8 + 1528) (drop 1 i) = take 8 (drop 1 i) @ take 1528 (drop 8 (drop 1 i))"
    by (rule take_add)
  then show "subslice 1 9 i @ take 1528 (drop 9 i) = subslice 1 1537 i"
    "subslice (Suc 0) 9 i @ take 1528 (drop 9 i) = subslice (Suc 0) 1537 i"
    by (simp_all add: subslice_def)
qed

lemma simpleHandshake_served:
  assumes "w_werr w = None" "w_in w = drop 9 i" "1537 \<le> length i" "simple_version i"
  shows "served i w (simpleHandshake (subslice 1 9 i) w)"
proof -
  define s1 where "s1 = u32be 0 @ map (w_rand w) [0..<1532]"
  have ok: "reply_ok i s1 (subslice 1 1537 i)"
    using assms(3,4) by (simp add: reply_ok_def s1_def) (simp add: u32be_def)
  have "simpleHandshake (subslice 1 9 i) w =
      bindIO (rw_Write ([3] @ s1 @ subslice 1 1537 i)) (\<lambda>_. bindIO (rw_ReadFull 1536) (\<lambda>C2. retIO ()))
        (w\<lparr>w_in := drop 1537 i, w_rand := \<lambda>j. w_rand w (j + 1532)\<rparr>)"
    using assms(2,3) unfolding simpleHandshake_def Let_def by (simp add: io_simps C1_parts s1_def)
  then show ?thesis using assms(1) ok by (auto simp: reply_and_C2 served_def)
qed

lemma complexHandshake_served:
  assumes "w_werr w = None" "w_in w = drop 9 i" "1537 \<le> length i" "\<not> simple_version i"
  shows "let c1 = subslice 1 1537 i; out = complexHandshake (subslice 1 9 i) w in
    if c1_valid 8 c1 \<or> c1_valid 772 c1 then served i w out
    else out = (Inl (Errorf ''c1 digest check fail''), w\<lparr>w_in := drop 1537 i\<rparr>)"
proof -
  let ?c1 = "subslice 1 1537 i" and ?w = "w\<lparr>w_in := drop 1537 i\<rparr>"
  have l: "length ?c1 = 1536" using assms(3) by simp
  have start: "complexHandshake (subslice 1 9 i) w =
      bindIO (liftIO (complexHandshakeC1CheckAndDigest ?c1)) (\<lambda>(ok, block).
       if \<not> ok then liftIO (Inl (Errorf ''c1 digest check fail'')) else
       bindIO (createComplexS1 (replicate 1536 0)) (\<lambda>S1.
       bindIO (createComplexS2 (replicate 1536 0) (makeS2DigestKey (the block))) (\<lambda>S2.
       bindIO (rw_Write ([3] @ S1 @ S2)) (\<lambda>_.
       bindIO (rw_ReadFull 1536) (\<lambda>C2. retIO ()))))) ?w"
    using assms(1-3) unfolding complexHandshake_def Let_def by (simp add: io_simps C1_parts)
  show ?thesis
  proof (cases "c1_valid 8 ?c1 \<or> c1_valid 772 ?c1")
    case False
    then show ?thesis using l unfolding start Let_def
      by (simp add: complexHandshakeC1CheckAndDigest_eq io_simps) (simp add: liftIO_def)
  next
    case True
    let ?b = "block_at (if c1_valid 8 ?c1 then 8 else 772) ?c1"
    obtain s1 r1 where s1: "createComplexS1 (replicate 1536 0) ?w = (Inr s1, ?w\<lparr>w_rand := r1\<rparr>)"
      "length s1 = 1536" "s1_valid s1" using createComplexS1_signed by blast
    obtain s2 r2 where s2: "createComplexS2 (replicate 1536 0) (makeS2DigestKey ?b) (?w\<lparr>w_rand := r1\<rparr>) =
        (Inr s2, ?w\<lparr>w_rand := r2\<rparr>)"
      "length s2 = 1536" "drop 1504 s2 = hmac_sha256 (makeS2DigestKey ?b) (take 1504 s2)"
      using createComplexS2_signed[of "makeS2DigestKey ?b" "?w\<lparr>w_rand := r1\<rparr>"] by auto
    have "complexHandshakeC1CheckAndDigest ?c1 = Inr (True, Some ?b)"
      using True l by (auto simp: complexHandshakeC1CheckAndDigest_eq)
    then have "complexHandshake (subslice 1 9 i) w =
        bindIO (rw_Write ([3] @ s1 @ s2)) (\<lambda>_. bindIO (rw_ReadFull 1536) (\<lambda>C2. retIO ())) (?w\<lparr>w_rand := r2\<rparr>)"
      using start s1(1) s2(1) by (simp add: io_simps bindIO_simps)
    moreover have "reply_ok i s1 s2"
      using s1 s2 assms(4) by (simp add: reply_ok_def makeS2DigestKey_def c1_digest_def)
    ultimately show ?thesis using True assms(1) by (auto simp: reply_and_C2 served_def)
  qed
qed

text \<open>The first nine bytes decide which handshake goes on.\<close>

lemma handshakeServer_header:
  assumes "i = server_input fb w" "9 \<le> length i"
  shows "handshakeServer fb w =
    (if \<not> simple_version i \<and> i ! 0 = 6 then liftIO (Inl (Errorf ''rtmp: complex handshake not support crypto''))
     else if i ! 0 \<noteq> 3 then liftIO (Inl (Errorf ''rtmp: simple handshake version invalid''))
     else if simple_version i then simpleHandshake (subslice 1 9 i)
     else complexHandshake (subslice 1 9 i)) (w\<lparr>w_in := drop 9 i\<rparr>)"
proof -
  let ?n = "9 - (if fb = None then 0 else 1) :: nat"
  define got where "got = take ?n (w_in w)"
  have h: "(case fb of None \<Rightarrow> got | Some b \<Rightarrow> b # got) = take 9 i" "drop ?n (w_in w) = drop 9 i"
    using assms by (cases fb; simp add: server_input_def got_def)+
  have "subslice 1 9 (take 9 i) = subslice 1 9 i" "subslice 4 8 (subslice 1 9 i) = subslice 5 9 i"
    "take 1 (take 9 i) ! 0 = i ! 0"
    using assms(2) by (simp_all add: subslice_def list_eq_iff_nth_eq)
  moreover obtain v where "U32BE (subslice 5 9 i) = Inr v"
    using assms(2) by (cases "U32BE (subslice 5 9 i)") (auto simp: U32BE_def)
  moreover have "?n \<le> length (w_in w)" using assms by (cases fb) (auto simp: server_input_def)
  ultimately show ?thesis
    unfolding handshakeServer_def Let_def
    by (simp add: io_simps got_def[symmetric] h simple_version_def)
qed

text \<open>C13: The server handshake on any input, with or without a first byte already read: it succeeds
  exactly when all 3073 bytes of C0, C1 and C2 are there, the version is 3, and C1 either asks for the
  simple handshake or carries a valid client digest in one of the schemas.  A server that accepts C0 and
  C1 sends exactly one reply of version 3, S1 and S2, which echoes C1 or is signed for it, and leaves what
  follows C2 unread; otherwise it sends nothing.\<close>

theorem handshakeServer_outcome:
  assumes "w_werr w = None" and "i = server_input fb w" and "handshakeServer fb w = (r, w')"
  shows "(r = Inr () \<longleftrightarrow> 3073 \<le> length i \<and> server_accepts i) \<and>
    (if 1537 \<le> length i \<and> server_accepts i
     then w_in w' = drop 3073 i \<and> (\<exists>s1 s2. w_out w' = w_out w @ [3] @ s1 @ s2 \<and> reply_ok i s1 s2)
     else w_out w' = w_out w)"
proof (cases "9 \<le> length i")
  case False
  have "length (w_in w) < 9 - (if fb = None then 0 else 1)"
    using False assms(2) by (auto simp: server_input_def split: option.splits)
  then have "handshakeServer fb w = (Inl (if w_in w = [] then EOF else ErrUnexpectedEOF), w\<lparr>w_in := []\<rparr>)"
    unfolding handshakeServer_def by (rule rw_ReadFull_simps(2))
  with assms(3) False show ?thesis by auto
next
  case True
  let ?w = "w\<lparr>w_in := drop 9 i\<rparr>"
  note hd = handshakeServer_header[OF assms(2) True]
  have short: "(Inl (if w_in ?w = [] then EOF else ErrUnexpectedEOF), ?w\<lparr>w_in := []\<rparr>) = (r, w')"
    if "i ! 0 = 3" "\<not> 1537 \<le> length i"
  proof -
    have "length (w_in ?w) < 1528" using that(2) True by simp
    then show ?thesis using hd assms(3) that(1)
      by (simp add: simpleHandshake_def complexHandshake_def io_simps split: if_splits)
  qed
  consider "i ! 0 \<noteq> 3" | "i ! 0 = 3" "\<not> 1537 \<le> length i" | "i ! 0 = 3" "1537 \<le> length i" by blast
  then show ?thesis
  proof cases
    case 1
    then show ?thesis using hd assms(3) by (auto simp: liftIO_def server_accepts_def split: if_splits)
  next
    case 2
    with short show ?thesis by auto
  next
    case 3
    have w: "w_werr ?w = None" "w_in ?w = drop 9 i" "w_out ?w = w_out w" using assms(1) by simp_all
    show ?thesis
    proof (cases "simple_version i")
      case sv: True
      have e: "simpleHandshake (subslice 1 9 i) ?w = (r, w')" using hd assms(3) sv 3 by simp
      from simpleHandshake_served[OF w(1,2) 3(2) sv] sv 3 w(3) show ?thesis
        unfolding e by (auto simp: served_def server_accepts_def)
    next
      case sv: False
      have e: "complexHandshake (subslice 1 9 i) ?w = (r, w')" using hd assms(3) sv 3 by simp
      from complexHandshake_served[OF w(1,2) 3(2) sv] sv 3 w(3) show ?thesis
        unfolding e by (auto simp: served_def server_accepts_def Let_def split: if_splits)
    qed
  qed
qed

theorem handshakeServer_outcome_witness:
  "\<exists>w'. handshakeServer (Some 3) \<lparr>w_in = replicate 3072 0, w_out = [], w_werr = None, w_rand = (\<lambda>_. 7)\<rparr> =
     (Inr (), w') \<and> w_in w' = [] \<and> length (w_out w') = 3073"
proof -
  let ?w = "\<lparr>w_in = replicate 3072 0, w_out = [], w_werr = None, w_rand = (\<lambda>_. 7)\<rparr>"
  obtain r w' where e: "handshakeServer (Some 3) ?w = (r, w')" by fastforce
  let ?i = "server_input (Some 3) ?w"
  have i: "?i = 3 # replicate 3072 0" by (simp add: server_input_def)
  have "U32BE (replicate 4 0) = Inr 0" by code_simp
  moreover have "subslice 5 9 (3 # replicate 3072 (0 :: byte)) = replicate 4 0"
    by (simp add: subslice_def drop_Cons' take_Cons')
  ultimately have "server_accepts ?i" "length ?i = 3073"
    by (simp_all add: i server_accepts_def simple_version_def)
  with handshakeServer_outcome [OF _ refl e] e show ?thesis
    by (auto simp: i reply_ok_def)
qed

section \<open>Client and server together\<close>

lemma block_fits: "(x :: nat) mod 728 + 36 \<le> 764"
  using mod_less_divisor[of 728 x] by linarith

lemma makeHandshakeKeyBlock_fills:
  assumes "length dat = 764"
  shows "\<exists>kb dat' rnd. length dat' = 764 \<and>
    (\<forall>w. w_rand w = R \<longrightarrow> makeHandshakeKeyBlock dat w = (Inr (kb, dat'), w\<lparr>w_rand := rnd\<rparr>))"
proof -
  define off where "off = map R [0..<4]"
  obtain t where s: "sum_bytes off 4 = Inr t" using sum_bytes_4[of off] by (auto simp: off_def)
  define m where "m = t mod 728"
  have p: "m + 36 \<le> 764" unfolding m_def by (rule block_fits)
  have l: "length off = 4" "length (store_at 760 off dat) = 764" using assms by (simp_all add: off_def)
  define r1 where "r1 = map (\<lambda>i. R (i + 4)) [0..<m + 4]"
  define r2 where "r2 = map (\<lambda>i. R (i + (m + 4) + 4)) [0..<764 - (m + 36)]"
  define k where "k = map (\<lambda>i. R (i + (764 - (m + 36)) + (m + 4) + 4)) [0..<32]"
  have "makeHandshakeKeyBlock dat w = (Inr (\<lparr>kb_random1 = r1, kb_key = k, kb_random2 = r2,
      kb_offset = subslice 760 764 (r1 @ k @ r2), kb_keyOffset = m + 4\<rparr>, r1 @ k @ r2),
      w\<lparr>w_rand := \<lambda>i. R (i + 32 + (764 - (m + 36)) + (m + 4) + 4)\<rparr>)" if "w_rand w = R" for w
    using that assms p l unfolding makeHandshakeKeyBlock_def Let_def
    by (simp add: io_simps off_def[symmetric] s m_def[symmetric])
      (simp add: retIO_def r1_def r2_def k_def ac_simps)
  moreover have "length (r1 @ k @ r2) = 764" using p by (simp add: r1_def r2_def k_def)
  ultimately show ?thesis by blast
qed

lemma makeHandshakeDigestBlock_fills:
  assumes "length dat = 764"
  shows "\<exists>dat' rnd. length dat' = 764 \<and>
    (\<forall>w. w_rand w = R \<longrightarrow> makeHandshakeDigestBlock dat w = (Inr dat', w\<lparr>w_rand := rnd\<rparr>))"
proof -
  define off where "off = map R [0..<4]"
  obtain t where s: "sum_bytes off 4 = Inr t" using sum_bytes_4[of off] by (auto simp: off_def)
  define m where "m = t mod 728"
  have p: "m + 36 \<le> 764" unfolding m_def by (rule block_fits)
  have l: "length off = 4" "length (store_at 0 off dat) = 764" using assms by (simp_all add: off_def)
  define r1 where "r1 = map (\<lambda>i. R (i + 4)) [0..<m + 4]"
  define r2 where "r2 = map (\<lambda>i. R (i + (m + 4) + 4)) [0..<764 - (m + 36)]"
  define b where "b = \<lparr>db_random1 = r1, db_digest = subslice (m + 4) (m + 36) (store_at 0 off dat),
    db_random2 = r2, db_offset = take 4 r1, db_digestOffset = m + 4\<rparr>"
  have "makeHandshakeDigestBlock dat w = (Inr (r1 @ makeC1Digest b @ r2),
      w\<lparr>w_rand := \<lambda>i. R (i + (764 - (m + 36)) + (m + 4) + 4)\<rparr>)" if "w_rand w = R" for w
    using that assms p l unfolding makeHandshakeDigestBlock_def Let_def
    by (simp add: io_simps off_def[symmetric] s m_def[symmetric])
      (simp add: retIO_def b_def r1_def r2_def ac_simps)
  moreover have "length (r1 @ makeC1Digest b @ r2) = 764" using p by (simp add: r1_def r2_def)
  ultimately show ?thesis by blast
qed

lemma makeC1_simple:
  "\<exists>c1 rnd. length c1 = 1536 \<and> take 8 c1 = replicate 8 0 \<and>
    (\<forall>w. w_rand w = R \<longrightarrow> makeC1 (replicate 1536 0) schema1 w = (Inr c1, w\<lparr>w_rand := rnd\<rparr>))"
proof -
  define c where "c = u32be 0 @ replicate 1532 0"
  have c: "PutU32BE (replicate 1536 0) 0 = Inr c" "length c = 1536" "take 8 c = replicate 8 0"
    by (simp_all add: PutU32BE_def overwrite_def failIf_def c_def) (simp add: u32be_def eval_nat_numeral)
  have "length (subslice 8 772 c) = 764" "length (subslice 772 1536 c) = 764" using c(2) by simp_all
  from makeHandshakeKeyBlock_fills[OF this(1), of R] makeHandshakeDigestBlock_fills[OF this(2)]
  obtain kb k r1 d r2 where k: "length k = 764"
      "\<And>w. w_rand w = R \<Longrightarrow> makeHandshakeKeyBlock (subslice 8 772 c) w = (Inr (kb, k), w\<lparr>w_rand := r1\<rparr>)"
    and d: "length d = 764"
      "\<And>w. w_rand w = r1 \<Longrightarrow> makeHandshakeDigestBlock (subslice 772 1536 c) w = (Inr d, w\<lparr>w_rand := r2\<rparr>)"
    by metis
  let ?c1 = "store_at 772 d (store_at 8 k c)"
  have "makeC1 (replicate 1536 0) schema1 w = (Inr ?c1, w\<lparr>w_rand := r2\<rparr>)" if "w_rand w = R" for w
    using k(2)[OF that] d(2)[of "w\<lparr>w_rand := r1\<rparr>"] c(1,2)
    by (simp add: makeC1_def io_simps bindIO_simps schema1_def retIO_def)
  moreover have "length ?c1 = 1536" "take 8 ?c1 = replicate 8 0"
    using c k(1) d(1) by (simp_all add: store_at_def)
  ultimately show ?thesis by blast
qed

text \<open>C14: The two handshakes of the code complete with each other, whatever their random bytes: the client
  sends C0 and C1, the server takes the simple handshake (the version field of C1 is zero), replies with
  S0, S1 and an S2 that echoes C1, the client answers with a C2 of zeros, and both leave the bytes that
  follow on the connection.\<close>

theorem handshake_completes:
  assumes "w_werr wc = None" and "w_werr ws = None"
  shows "\<exists>c1 s c2. length c1 = 1536 \<and> length s = 3073 \<and> c2 = replicate 1536 0 \<and> drop 1537 s = c1 \<and>
    (\<forall>q. \<exists>wc'. HandshakeClient (wc\<lparr>w_in := s @ q\<rparr>) = (Inr (), wc') \<and>
       w_in wc' = q \<and> w_out wc' = w_out wc @ [3] @ c1 @ c2) \<and>
    (\<forall>q. \<exists>ws'. handshakeServer None (ws\<lparr>w_in := [3] @ c1 @ c2 @ q\<rparr>) = (Inr (), ws') \<and>
       w_in ws' = q \<and> w_out ws' = w_out ws @ s)"
proof -
  obtain c1 rnd where c1: "length c1 = 1536" "take 8 c1 = replicate 8 0"
    "\<And>w. w_rand w = w_rand wc \<Longrightarrow> makeC1 (replicate 1536 0) schema1 w = (Inr c1, w\<lparr>w_rand := rnd\<rparr>)"
    using makeC1_simple by metis
  define s1 where "s1 = u32be 0 @ map (w_rand ws) [0..<1532]"
  let ?s = "[3] @ s1 @ c1" and ?c2 = "replicate 1536 0 :: bytes"
  have ls: "length ?s = 3073" "drop 1537 ?s = c1" using c1(1) by (simp_all add: s1_def)
  have "\<exists>wc'. HandshakeClient (wc\<lparr>w_in := ?s @ q\<rparr>) = (Inr (), wc') \<and>
       w_in wc' = q \<and> w_out wc' = w_out wc @ [3] @ c1 @ ?c2" for q
    using c1(1) c1(3)[of "wc\<lparr>w_in := ?s @ q\<rparr>"] ls assms(1)
    by (simp add: HandshakeClient_def bindIO_simps io_simps retIO_def)
  moreover have "\<exists>ws'. handshakeServer None (ws\<lparr>w_in := [3] @ c1 @ ?c2 @ q\<rparr>) = (Inr (), ws') \<and>
       w_in ws' = q \<and> w_out ws' = w_out ws @ ?s" for q
  proof -
    let ?w = "ws\<lparr>w_in := [3] @ c1 @ ?c2 @ q\<rparr>" and ?i = "[3] @ c1 @ ?c2 @ q"
    have i: "?i = server_input None ?w" by (simp add: server_input_def)
    have "subslice 5 9 ?i = subslice 4 8 (take 8 c1)" using c1(1) by (simp add: subslice_def drop_take)
    moreover have "U32BE (subslice 4 8 (replicate 8 0)) = Inr 0" by code_simp
    ultimately have sv: "simple_version ?i" using c1(2) by (simp add: simple_version_def)
    have "handshakeServer None ?w = simpleHandshake (subslice 1 9 ?i) (?w\<lparr>w_in := drop 9 ?i\<rparr>)"
      using handshakeServer_header[OF i] sv by simp
    moreover have "subslice 1 9 ?i @ take 1528 (drop 9 ?i) = c1"
      unfolding C1_parts using c1(1) by (simp add: subslice_def)
    ultimately show ?thesis using c1(1) assms(2)
      unfolding simpleHandshake_def Let_def by (simp add: io_simps retIO_def s1_def)
  qed
  ultimately show ?thesis using ls c1(1) by blast
qed

theorem handshake_completes_witness:
  "\<exists>c1 s wc'. HandshakeClient \<lparr>w_in = s @ [9], w_out = [], w_werr = None, w_rand = (\<lambda>i. of_nat i)\<rparr> = (Inr (), wc') \<and>
     w_out wc' = [3] @ c1 @ replicate 1536 0 \<and> w_in wc' = [9] \<and>
     (\<exists>ws'. handshakeServer None \<lparr>w_in = w_out wc', w_out = [], w_werr = None, w_rand = (\<lambda>i. 7)\<rparr> = (Inr (), ws') \<and>
        w_out ws' = s)"
proof -
  let ?w = "\<lambda>f. \<lparr>w_in = [], w_out = [], w_werr = None, w_rand = f\<rparr>"
  have "w_werr (?w (\<lambda>i. of_nat i)) = None" "w_werr (?w (\<lambda>i. 7)) = None" by simp_all
  from handshake_completes [OF this] obtain c1 s where
    a: "\<And>q. \<exists>wc'. HandshakeClient (?w (\<lambda>i. of_nat i)\<lparr>w_in := s @ q\<rparr>) = (Inr (), wc') \<and>
         w_in wc' = q \<and> w_out wc' = [3] @ c1 @ replicate 1536 0"
    and b: "\<And>q. \<exists>ws'. handshakeServer None (?w (\<lambda>i. 7)\<lparr>w_in := [3] @ c1 @ replicate 1536 0 @ q\<rparr>) = (Inr (), ws') \<and>
         w_in ws' = q \<and> w_out ws' = s" by auto
  from a[of "[9]"] b[of "[]"] show ?thesis by fastforce
qed

end
