(* ===== verification/Exchange.thy ===== *)
theory Exchange
  imports Amf0
begin

text \<open>
  \<open>exchange/exchange.go\<close> and \<open>exchange/expair.go\<close>: the pool that pairs publishers (sources) with
  players (sinks) by stream key, and the fan-out of a source to its sinks.

  \<open>Source\<close>, \<open>Sink\<close> and handler objects are shared by pointer between goroutines, so they live in
  stores indexed by numbers; a handler is its number and the key it answers \<open>GetAppStreamKey\<close> with now
  (\<open>rekey\<close> changes it).
  A channel is the list of what it holds.  Every body between two channel operations of a goroutine is
  one function on the whole exchange; a panic in the pairing goroutine ends the process, as nothing
  recovers it.  The maps \<open>sinks\<close> and \<open>waitingSenders[key]\<close> are association lists, in the order in
  which an iteration meets them.  The queue type of \<open>gopCache\<close> is not part of the repository; the
  model records the calls of \<open>PushExData\<close>.
\<close>

section \<open>Data\<close>

abbreviation (input) DataTypeAudio :: byte where "DataTypeAudio \<equiv> 0"
abbreviation (input) DataTypeAudioConfig :: byte where "DataTypeAudioConfig \<equiv> 1"
abbreviation (input) DataTypeVideo :: byte where "DataTypeVideo \<equiv> 2"
abbreviation (input) DataTypeVideoNonKeyFrame :: byte where "DataTypeVideoNonKeyFrame \<equiv> 3"
abbreviation (input) DataTypeVideoKeyFrame :: byte where "DataTypeVideoKeyFrame \<equiv> 4"
abbreviation (input) DataTypeVideoConfig :: byte where "DataTypeVideoConfig \<equiv> 5"
abbreviation (input) DataTypeData :: byte where "DataTypeData \<equiv> 6"
abbreviation (input) DataTypeDataAMF0 :: byte where "DataTypeDataAMF0 \<equiv> 7"
abbreviation (input) DataTypeDataAMF3 :: byte where "DataTypeDataAMF3 \<equiv> 8"

abbreviation (input) AvFormatAVC :: byte where "AvFormatAVC \<equiv> 0"
abbreviation (input) AvFormatHEVC :: byte where "AvFormatHEVC \<equiv> 1"
abbreviation (input) AvFormatAAC :: byte where "AvFormatAAC \<equiv> 2"
abbreviation (input) AvFormatData :: byte where "AvFormatData \<equiv> 3"

abbreviation (input) ProtocolNONE :: byte where "ProtocolNONE \<equiv> 0"
abbreviation (input) ProtocolRTMP :: byte where "ProtocolRTMP \<equiv> 1"
abbreviation (input) ProtocolFLVLIVE :: byte where "ProtocolFLVLIVE \<equiv> 2"

record ExData =
  ex_Timestamp :: u64
  ex_DataType :: byte
  ex_AvFormat :: byte
  ex_OriginProtocol :: byte
  ex_Payload :: bytes

record StreamHandler =
  h_ptr :: nat
  h_key :: string

datatype PadMessage =
    RegisterSource nat
  | RegisterSink nat
  | DataMessage ExData
  | UnregisterSource StreamHandler
  | UnregisterSink StreamHandler

record Source =
  s_handler :: StreamHandler
  s_srcChan :: "PadMessage list"
  s_sinks :: "(string \<times> nat) list"
  s_err :: "go_error option"
  s_gopCache :: "ExData list"
  s_VideoDecoderConfigurationRecord :: "bytes option"
  s_AACSequenceHeader :: "bytes option"
  s_avMetaData :: "bytes option"

record Sink =
  k_handler :: StreamHandler
  k_msgChan :: "ExData list"
  k_keyInSrc :: string

record ConnPool =
  receivers :: "string \<Rightarrow> nat option"
  waitingSenders :: "string \<Rightarrow> (string \<times> nat) list option"

record exchange =
  x_pool :: ConnPool
  x_src :: "nat \<Rightarrow> Source option"
  x_snk :: "nat \<Rightarrow> Sink option"
  x_cancelled :: "nat list"

definition new_exchange :: exchange where
  "new_exchange = \<lparr>x_pool = \<lparr>receivers = (\<lambda>_. None), waitingSenders = (\<lambda>_. None)\<rparr>,
     x_src = (\<lambda>_. None), x_snk = (\<lambda>_. None), x_cancelled = []\<rparr>"

definition new_Source :: "StreamHandler \<Rightarrow> Source" where
  "new_Source h = \<lparr>s_handler = h, s_srcChan = [], s_sinks = [], s_err = None, s_gopCache = [],
     s_VideoDecoderConfigurationRecord = None, s_AACSequenceHeader = None, s_avMetaData = None\<rparr>"

definition new_Sink :: "StreamHandler \<Rightarrow> Sink" where
  "new_Sink h = \<lparr>k_handler = h, k_msgChan = [], k_keyInSrc = []\<rparr>"

text \<open>\<open>fmt.Sprintf("%p", h)\<close>: the address in base 16.\<close>

fun hex_digits :: "nat \<Rightarrow> string" where
  "hex_digits n = (if n < 16 then [''0123456789abcdef'' ! n] else hex_digits (n div 16) @ [''0123456789abcdef'' ! (n mod 16)])"

declare hex_digits.simps [simp del]

definition keyInSrc :: "StreamHandler \<Rightarrow> string" where
  "keyInSrc h = h_key h @ ''0x'' @ hex_digits (h_ptr h)"

text \<open>A pointer that is not in its store cannot occur; the model calls it a nil dereference.\<close>

abbreviation nil_panic :: go_error where
  "nil_panic \<equiv> Panic ''nil pointer dereference''"

definition the_src :: "exchange \<Rightarrow> nat \<Rightarrow> Source res" where
  "the_src x i = (case x_src x i of Some s \<Rightarrow> Inr s | None \<Rightarrow> Inl nil_panic)"

definition the_snk :: "exchange \<Rightarrow> nat \<Rightarrow> Sink res" where
  "the_snk x i = (case x_snk x i of Some s \<Rightarrow> Inr s | None \<Rightarrow> Inl nil_panic)"

definition set_src :: "nat \<Rightarrow> Source \<Rightarrow> exchange \<Rightarrow> exchange" where
  "set_src i s x = x\<lparr>x_src := (x_src x)(i \<mapsto> s)\<rparr>"

definition set_snk :: "nat \<Rightarrow> Sink \<Rightarrow> exchange \<Rightarrow> exchange" where
  "set_snk i k x = x\<lparr>x_snk := (x_snk x)(i \<mapsto> k)\<rparr>"

definition cancel :: "StreamHandler \<Rightarrow> exchange \<Rightarrow> exchange" where
  "cancel h x = x\<lparr>x_cancelled := h_ptr h # x_cancelled x\<rparr>"

definition upd_pool :: "(ConnPool \<Rightarrow> ConnPool) \<Rightarrow> exchange \<Rightarrow> exchange" where
  "upd_pool f x = x\<lparr>x_pool := f (x_pool x)\<rparr>"

definition send_src :: "nat \<Rightarrow> PadMessage \<Rightarrow> exchange \<Rightarrow> exchange res" where
  "send_src i m x = bindE (the_src x i) (\<lambda>s. Inr (set_src i (s\<lparr>s_srcChan := s_srcChan s @ [m]\<rparr>) x))"

section \<open>The pairing goroutine\<close>

text \<open>
  The results of the register handlers are what is sent on \<open>result\<close>.  A send on \<open>srcChan\<close> by the
  pairing goroutine waits until there is room, so it always appends.
\<close>

fun send_all_src :: "nat \<Rightarrow> (string \<times> nat) list \<Rightarrow> exchange \<Rightarrow> exchange res" where
  "send_all_src i [] x = Inr x"
| "send_all_src i ((k, sink) # ws) x = bindE (send_src i (RegisterSink sink) x) (send_all_src i ws)"

definition notifyWaitSenders :: "nat \<Rightarrow> string \<Rightarrow> exchange \<Rightarrow> exchange res" where
  "notifyWaitSenders i key x =
     (case waitingSenders (x_pool x) key of
        None \<Rightarrow> Inr x
      | Some ws \<Rightarrow> bindE (send_all_src i ws x) (\<lambda>x.
          Inr (upd_pool (\<lambda>p. p\<lparr>waitingSenders := (waitingSenders p)(key := None)\<rparr>) x)))"

definition handleRegisterSource :: "nat \<Rightarrow> exchange \<Rightarrow> (go_error option \<times> exchange) res" where
  "handleRegisterSource i x =
     bindE (the_src x i) (\<lambda>src.
     let key = h_key (s_handler src) in
     if receivers (x_pool x) key \<noteq> None then Inr (Some (Errorf ''is already exits''), x)
     else bindE (notifyWaitSenders i key (upd_pool (\<lambda>p. p\<lparr>receivers := (receivers p)(key \<mapsto> i)\<rparr>) x))
       (\<lambda>x. Inr (None, x)))"

definition handleUnregisterSource :: "StreamHandler \<Rightarrow> exchange \<Rightarrow> exchange res" where
  "handleUnregisterSource h x =
     (let key = h_key h in
      if receivers (x_pool x) key \<noteq> None
      then Inr (upd_pool (\<lambda>p. p\<lparr>receivers := (receivers p)(key := None)\<rparr>) x)
      else Inl (Panic (key @ '' source not registerd'')))"

definition addObserver :: "nat \<Rightarrow> exchange \<Rightarrow> exchange res" where
  "addObserver i x =
     bindE (the_snk x i) (\<lambda>sink.
     let key = h_key (k_handler sink); k = keyInSrc (k_handler sink);
         x = set_snk i (sink\<lparr>k_keyInSrc := k\<rparr>) x in
     case waitingSenders (x_pool x) key of
       Some ws \<Rightarrow> failIf (k \<in> fst ` set ws) (Panic (k @ '' has waited''))
         (Inr (upd_pool (\<lambda>p. p\<lparr>waitingSenders := (waitingSenders p)(key \<mapsto> ws @ [(k, i)])\<rparr>) x))
     | None \<Rightarrow> Inr (upd_pool (\<lambda>p. p\<lparr>waitingSenders := (waitingSenders p)(key \<mapsto> [(k, i)])\<rparr>) x))"

definition handleRegisterSink :: "nat \<Rightarrow> exchange \<Rightarrow> (go_error option \<times> exchange) res" where
  "handleRegisterSink i x =
     bindE (the_snk x i) (\<lambda>sink.
     case receivers (x_pool x) (h_key (k_handler sink)) of
       None \<Rightarrow> bindE (addObserver i x) (\<lambda>x. Inr (None, x))
     | Some src \<Rightarrow> bindE (send_src src (RegisterSink i) x) (\<lambda>x. Inr (None, x)))"

definition deleteObserver :: "StreamHandler \<Rightarrow> exchange \<Rightarrow> bool \<times> exchange" where
  "deleteObserver h x =
     (let key = h_key h in
      case waitingSenders (x_pool x) key of
        None \<Rightarrow> (False, x)
      | Some ws \<Rightarrow>
          let ws = filter (\<lambda>e. fst e \<noteq> keyInSrc h) ws in
          (True, upd_pool (\<lambda>p. p\<lparr>waitingSenders := (waitingSenders p)(key := if ws = [] then None else Some ws)\<rparr>) x))"

definition handleUnregisterSink :: "StreamHandler \<Rightarrow> exchange \<Rightarrow> exchange res" where
  "handleUnregisterSink h x =
     (case receivers (x_pool x) (h_key h) of
        None \<Rightarrow> Inr (snd (deleteObserver h x))
      | Some src \<Rightarrow> send_src src (UnregisterSink h) x)"

text \<open>One round of \<open>pairPad\<close>; other commands are ignored.\<close>

fun pairPad :: "PadMessage \<Rightarrow> exchange \<Rightarrow> (go_error option \<times> exchange) res" where
  "pairPad (RegisterSource i) x = handleRegisterSource i x"
| "pairPad (UnregisterSource h) x = bindE (handleUnregisterSource h x) (\<lambda>x. Inr (None, x))"
| "pairPad (RegisterSink i) x = handleRegisterSink i x"
| "pairPad (UnregisterSink h) x = bindE (handleUnregisterSink h x) (\<lambda>x. Inr (None, x))"
| "pairPad (DataMessage d) x = Inr (None, x)"

section \<open>The goroutine of a source\<close>

text \<open>\<open>Sink.writeData\<close>: a full channel (50 messages) refuses the message.\<close>

definition sink_writeData :: "nat \<Rightarrow> ExData \<Rightarrow> exchange \<Rightarrow> (go_error option \<times> exchange) res" where
  "sink_writeData i m x =
     bindE (the_snk x i) (\<lambda>k.
     if length (k_msgChan k) < 50 then Inr (None, set_snk i (k\<lparr>k_msgChan := k_msgChan k @ [m]\<rparr>) x)
     else Inr (Some (Errorf ''sink rtmpMsgChan full''), x))"

text \<open>
  \<open>Source.writeData\<close>: the loop over the sinks; a sink that does not keep up is cancelled and leaves the
  source.
\<close>

definition toSinkMsg :: "ExData \<Rightarrow> ExData" where
  "toSinkMsg m = \<lparr>ex_Timestamp = ex_Timestamp m, ex_DataType = ex_DataType m, ex_AvFormat = 0,
     ex_OriginProtocol = 0, ex_Payload = ex_Payload m\<rparr>"

fun write_sinks :: "nat \<Rightarrow> (string \<times> nat) list \<Rightarrow> ExData \<Rightarrow> exchange \<Rightarrow> exchange res" where
  "write_sinks i [] m x = Inr x"
| "write_sinks i ((key, j) # ks) m x =
     bindE (the_snk x j) (\<lambda>sink.
     bindE (sink_writeData j (toSinkMsg m) x) (\<lambda>(err, x).
     if err = None then write_sinks i ks m x
     else bindE (the_src (cancel (k_handler sink) x) i) (\<lambda>s.
       write_sinks i ks m (set_src i (s\<lparr>s_sinks := filter (\<lambda>e. fst e \<noteq> k_keyInSrc sink) (s_sinks s)\<rparr>)
         (cancel (k_handler sink) x)))))"

definition source_writeData :: "nat \<Rightarrow> ExData \<Rightarrow> exchange \<Rightarrow> exchange res" where
  "source_writeData i m x = bindE (the_src x i) (\<lambda>s. write_sinks i (s_sinks s) m x)"

text \<open>\<open>handleDataMessaage\<close>: the metadata command is cut off the payload (16 bytes).\<close>

definition handleDataMessaage :: "Source \<Rightarrow> ExData \<Rightarrow> (Source \<times> ExData) res" where
  "handleDataMessaage src m =
     (case ReadValue (ex_Payload m) of
        Inr (v, r) \<Rightarrow>
          if v = VString ''@setDataFrame''
          then failIf (length (ex_Payload m) < 16) (Panic ''slice bounds out of range'')
            (Inr (src, m\<lparr>ex_Payload := drop 16 (ex_Payload m)\<rparr>))
          else Inr (src, m)
      | Inl e \<Rightarrow> if is_fault e then Inl e else if e \<noteq> EOF then Inr (src\<lparr>s_err := Some e\<rparr>, m) else Inr (src, m))"

text \<open>The \<open>switch\<close> of \<open>handleRtmpMessage\<close>: what a source keeps of a message.\<close>

definition remember :: "Source \<Rightarrow> ExData \<Rightarrow> (Source \<times> ExData) res" where
  "remember src m =
     (let t = ex_DataType m in
      if t = DataTypeAudioConfig then Inr (src\<lparr>s_AACSequenceHeader := Some (ex_Payload m)\<rparr>, m)
      else if t = DataTypeVideoConfig then Inr (src\<lparr>s_VideoDecoderConfigurationRecord := Some (ex_Payload m)\<rparr>, m)
      else if t = DataTypeDataAMF0 \<or> t = DataTypeDataAMF3 then handleDataMessaage src m
      else if t \<in> {DataTypeAudio, DataTypeVideo, DataTypeVideoNonKeyFrame, DataTypeVideoKeyFrame}
        then Inr (src\<lparr>s_gopCache := s_gopCache src @ [m]\<rparr>, m)
      else Inr (src, m))"

definition handleRtmpMessage :: "nat \<Rightarrow> ExData \<Rightarrow> exchange \<Rightarrow> exchange res" where
  "handleRtmpMessage i m x =
     bindE (the_src x i) (\<lambda>src.
     bindE (remember src m) (\<lambda>(src, m). source_writeData i m (set_src i src x)))"

text \<open>
  \<open>connectSink\<close>: the sink joins and first gets the metadata and the decoder configurations.  These sends
  wait for room; the channel of a sink that joins is empty.
\<close>

definition config_messages :: "Source \<Rightarrow> ExData list" where
  "config_messages src =
     (let msg = (\<lambda>t p. \<lparr>ex_Timestamp = 0, ex_DataType = t, ex_AvFormat = 0, ex_OriginProtocol = 0, ex_Payload = p\<rparr>) in
      map (msg 0x12) (case s_avMetaData src of None \<Rightarrow> [] | Some p \<Rightarrow> [p]) @
      map (msg DataTypeVideo) (case s_VideoDecoderConfigurationRecord src of None \<Rightarrow> [] | Some p \<Rightarrow> [p]) @
      map (msg DataTypeAudio) (case s_AACSequenceHeader src of None \<Rightarrow> [] | Some p \<Rightarrow> [p]))"

definition connectSink :: "nat \<Rightarrow> nat \<Rightarrow> exchange \<Rightarrow> exchange res" where
  "connectSink i j x =
     bindE (the_src x i) (\<lambda>src.
     bindE (the_snk x j) (\<lambda>sink.
     let k = keyInSrc (k_handler sink) in
     failIf (k \<in> fst ` set (s_sinks src)) (Panic ''repeater register'')
     (Inr (set_snk j (sink\<lparr>k_keyInSrc := k, k_msgChan := k_msgChan sink @ config_messages src\<rparr>)
        (set_src i (src\<lparr>s_sinks := s_sinks src @ [(k, j)]\<rparr>) x)))))"

definition deleteSink :: "nat \<Rightarrow> StreamHandler \<Rightarrow> exchange \<Rightarrow> exchange res" where
  "deleteSink i h x =
     bindE (the_src x i) (\<lambda>src.
     let k = keyInSrc h in
     case map_of (s_sinks src) k of
       None \<Rightarrow> Inr x
     | Some j \<Rightarrow> bindE (the_snk x j) (\<lambda>sink.
         Inr (cancel (k_handler sink)
           (set_src i (src\<lparr>s_sinks := filter (\<lambda>e. fst e \<noteq> k) (s_sinks src)\<rparr>) x))))"

fun cancelSinks :: "(string \<times> nat) list \<Rightarrow> exchange \<Rightarrow> exchange res" where
  "cancelSinks [] x = Inr x"
| "cancelSinks ((k, j) # ks) x = bindE (the_snk x j) (\<lambda>sink. cancelSinks ks (cancel (k_handler sink) x))"

text \<open>One round of \<open>Source.work\<close> on a message, and its end when the context is done.\<close>

definition source_work :: "nat \<Rightarrow> exchange \<Rightarrow> exchange res" where
  "source_work i x =
     bindE (the_src x i) (\<lambda>src.
     case s_srcChan src of
       [] \<Rightarrow> Inr x
     | m # ms \<Rightarrow>
         let x = set_src i (src\<lparr>s_srcChan := ms\<rparr>) x in
         (case m of
            RegisterSink j \<Rightarrow> connectSink i j x
          | DataMessage d \<Rightarrow> handleRtmpMessage i d x
          | UnregisterSink h \<Rightarrow> deleteSink i h x
          | _ \<Rightarrow> Inr x))"

definition source_done :: "nat \<Rightarrow> exchange \<Rightarrow> exchange res" where
  "source_done i x = bindE (the_src x i) (\<lambda>src. cancelSinks (s_sinks src) x)"

text \<open>One round of \<open>Sink.work\<close>: the message handed to \<open>WriteData\<close> of the handler.\<close>

definition sink_work :: "nat \<Rightarrow> exchange \<Rightarrow> (ExData option \<times> exchange) res" where
  "sink_work j x =
     bindE (the_snk x j) (\<lambda>k.
     case k_msgChan k of
       [] \<Rightarrow> Inr (None, x)
     | m # ms \<Rightarrow> Inr (Some m, set_snk j (k\<lparr>k_msgChan := ms\<rparr>) x))"

section \<open>The calls of the handlers\<close>

text \<open>
  A handler that registers makes a new object and waits for the answer of the pairing goroutine;
  \<open>n\<close> is the number of the new object.  A handler that goes away does not wait.
\<close>

definition OnSourceDetermined :: "nat \<Rightarrow> StreamHandler \<Rightarrow> exchange \<Rightarrow> (go_error option \<times> exchange) res" where
  "OnSourceDetermined n h x = pairPad (RegisterSource n) (set_src n (new_Source h) x)"

definition OnSinkDetermined :: "nat \<Rightarrow> StreamHandler \<Rightarrow> exchange \<Rightarrow> (go_error option \<times> exchange) res" where
  "OnSinkDetermined n h x = pairPad (RegisterSink n) (set_snk n (new_Sink h) x)"

definition OnDestroySource :: "StreamHandler \<Rightarrow> PadMessage" where
  "OnDestroySource h = UnregisterSource h"

definition OnDestroySink :: "StreamHandler \<Rightarrow> PadMessage" where
  "OnDestroySink h = UnregisterSink h"

text \<open>The \<open>PutData\<close> function a source is given: a full channel (100 messages) drops the message.\<close>

definition putData :: "nat \<Rightarrow> ExData \<Rightarrow> exchange \<Rightarrow> (go_error option \<times> exchange) res" where
  "putData n m x =
     bindE (the_src x n) (\<lambda>src.
     if s_err src \<noteq> None then Inr (s_err src, x)
     else if length (s_srcChan src) < 100
     then Inr (None, set_src n (src\<lparr>s_srcChan := s_srcChan src @ [DataMessage m]\<rparr>) x)
     else Inr (Some (Errorf ''chan is full. drop this msg''), x))"

section \<open>A handler gets another key\<close>

text \<open>
  \<open>GetAppStreamKey\<close> answers with a field of the handler that a further publish or play command changes
  (\<open>serverHandler.go\<close>), also after the handler has registered.  \<open>rekey p key\<close> is that change as the exchange
  sees it: whoever holds the handler with address \<open>p\<close> is answered with the new key from then on.  Maps keep
  the keys and names they were given.
\<close>

definition with_key :: "nat \<Rightarrow> string \<Rightarrow> StreamHandler \<Rightarrow> StreamHandler" where
  "with_key p key h = (if h_ptr h = p then h\<lparr>h_key := key\<rparr> else h)"

fun rekey_message :: "nat \<Rightarrow> string \<Rightarrow> PadMessage \<Rightarrow> PadMessage" where
  "rekey_message p key (UnregisterSource h) = UnregisterSource (with_key p key h)"
| "rekey_message p key (UnregisterSink h) = UnregisterSink (with_key p key h)"
| "rekey_message p key m = m"

definition rekey :: "nat \<Rightarrow> string \<Rightarrow> exchange \<Rightarrow> exchange" where
  "rekey p key x = x\<lparr>
     x_src := (\<lambda>i. map_option (\<lambda>s. s\<lparr>s_handler := with_key p key (s_handler s), s_srcChan := map (rekey_message p key) (s_srcChan s)\<rparr>) (x_src x i)),
     x_snk := (\<lambda>j. map_option (\<lambda>k. k\<lparr>k_handler := with_key p key (k_handler k)\<rparr>) (x_snk x j))\<rparr>"

section \<open>The stores\<close>

lemma store_simps [simp]:
  "x_src (set_src i s x) = (x_src x)(i \<mapsto> s)" "x_snk (set_src i s x) = x_snk x"
  "x_pool (set_src i s x) = x_pool x" "x_cancelled (set_src i s x) = x_cancelled x"
  "x_src (set_snk i k x) = x_src x" "x_snk (set_snk i k x) = (x_snk x)(i \<mapsto> k)"
  "x_pool (set_snk i k x) = x_pool x" "x_cancelled (set_snk i k x) = x_cancelled x"
  "x_src (cancel h x) = x_src x" "x_snk (cancel h x) = x_snk x" "x_pool (cancel h x) = x_pool x"
  "x_cancelled (cancel h x) = h_ptr h # x_cancelled x"
  "x_src (upd_pool f x) = x_src x" "x_snk (upd_pool f x) = x_snk x" "x_pool (upd_pool f x) = f (x_pool x)"
  "x_cancelled (upd_pool f x) = x_cancelled x"
  by (simp_all add: set_src_def set_snk_def cancel_def upd_pool_def)

lemma the_simps [simp]:
  "x_src x i = Some s \<Longrightarrow> the_src x i = Inr s" "x_snk x j = Some k \<Longrightarrow> the_snk x j = Inr k"
  by (simp_all add: the_src_def the_snk_def)

lemma the_Inr:
  "the_src x i = Inr s \<longleftrightarrow> x_src x i = Some s" "the_snk x j = Inr k \<longleftrightarrow> x_snk x j = Some k"
  by (simp_all add: the_src_def the_snk_def split: option.split)

text \<open>
  The well-formedness of the exchange.  The key of a handler may change after it has registered, so what
  holds of names is that they were made of the address of a handler and of a key it had: a player waits
  under the name for the key it waits for, and is connected under a name that it keeps in \<open>keyInSrc\<close>.
  Every player is in one place at most: it waits for one key, or is on the way to one source, or is
  connected to one.  \<open>held\<close> lists the players of a place.
\<close>

datatype place = AtKey string | AtSource nat

fun registering :: "PadMessage list \<Rightarrow> nat list" where
  "registering [] = []"
| "registering (RegisterSink j # ms) = j # registering ms"
| "registering (m # ms) = registering ms"

definition source_holds :: "Source \<Rightarrow> nat list" where
  "source_holds s = map snd (s_sinks s) @ registering (s_srcChan s)"

fun held :: "exchange \<Rightarrow> place \<Rightarrow> nat list" where
  "held x (AtKey key) = (case waitingSenders (x_pool x) key of None \<Rightarrow> [] | Some ws \<Rightarrow> map snd ws)"
| "held x (AtSource i) = (case x_src x i of None \<Rightarrow> [] | Some s \<Rightarrow> source_holds s)"

lemma held_simps [simp]:
  "waitingSenders (x_pool x) key = None \<Longrightarrow> held x (AtKey key) = []"
  "waitingSenders (x_pool x) key = Some ws \<Longrightarrow> held x (AtKey key) = map snd ws"
  "x_src x i = None \<Longrightarrow> held x (AtSource i) = []"
  "x_src x i = Some s \<Longrightarrow> held x (AtSource i) = source_holds s"
  by simp_all

lemmas held_cases = held.simps

declare held.simps [simp del]

definition nowhere :: "exchange \<Rightarrow> nat \<Rightarrow> bool" where
  "nowhere x j \<longleftrightarrow> (\<forall>p. j \<notin> set (held x p))"

definition owned :: "exchange \<Rightarrow> bool" where
  "owned x \<longleftrightarrow> (\<forall>p. distinct (held x p)) \<and> (\<forall>p q. p \<noteq> q \<longrightarrow> set (held x p) \<inter> set (held x q) = {}) \<and>
     (\<forall>p. \<forall>j \<in> set (held x p). x_snk x j \<noteq> None)"

definition named_sink :: "exchange \<Rightarrow> string \<Rightarrow> string \<times> nat \<Rightarrow> bool" where
  "named_sink x key e \<longleftrightarrow> (\<exists>sink. x_snk x (snd e) = Some sink \<and> k_keyInSrc sink = fst e \<and>
     fst e = keyInSrc \<lparr>h_ptr = h_ptr (k_handler sink), h_key = key\<rparr>)"

definition source_ok :: "exchange \<Rightarrow> Source \<Rightarrow> bool" where
  "source_ok x s \<longleftrightarrow> distinct (map fst (s_sinks s)) \<and> (\<forall>e\<in>set (s_sinks s). \<exists>key. named_sink x key e)"

definition waiting_ok :: "exchange \<Rightarrow> string \<Rightarrow> (string \<times> nat) list \<Rightarrow> bool" where
  "waiting_ok x key ws \<longleftrightarrow> ws \<noteq> [] \<and> distinct (map fst ws) \<and> (\<forall>e\<in>set ws. named_sink x key e)"

definition exchange_ok :: "exchange \<Rightarrow> bool" where
  "exchange_ok x \<longleftrightarrow>
     (\<forall>key i. receivers (x_pool x) key = Some i \<longrightarrow>
        x_src x i \<noteq> None \<and> (\<forall>key'. receivers (x_pool x) key' = Some i \<longrightarrow> key' = key)) \<and>
     (\<forall>key ws. waitingSenders (x_pool x) key = Some ws \<longrightarrow>
        receivers (x_pool x) key = None \<and> waiting_ok x key ws) \<and>
     (\<forall>i s. x_src x i = Some s \<longrightarrow> source_ok x s) \<and> owned x"

lemma exchange_okD:
  assumes "exchange_ok x"
  shows "receivers (x_pool x) key = Some i \<Longrightarrow> \<exists>s. x_src x i = Some s"
    and "waitingSenders (x_pool x) key = Some ws \<Longrightarrow> receivers (x_pool x) key = None \<and> waiting_ok x key ws"
    and "x_src x i = Some s \<Longrightarrow> source_ok x s"
    and "receivers (x_pool x) key = Some i \<Longrightarrow> receivers (x_pool x) key' = Some i \<Longrightarrow> key' = key"
    and "owned x"
  using assms unfolding exchange_ok_def by blast+

lemma registering_append [simp]: "registering (ms @ ms') = registering ms @ registering ms'"
  by (induction ms rule: registering.induct) simp_all

lemma registering_sinks [simp]: "registering (map (RegisterSink \<circ> f) es) = map f es"
  by (induction es) simp_all

lemma registering_data [simp]: "registering (map DataMessage fs) = []"
  by (induction fs) simp_all

lemma ownedD:
  assumes "owned x" "x_src x i = Some s"
  shows "distinct (source_holds s)" "j \<in> set (source_holds s) \<Longrightarrow> x_snk x j \<noteq> None"
    "j \<in> set (source_holds s) \<Longrightarrow> j \<in> set (held x p) \<Longrightarrow> p = AtSource i"
proof -
  have h: "held x (AtSource i) = source_holds s" using assms(2) by simp
  show "distinct (source_holds s)" "j \<in> set (source_holds s) \<Longrightarrow> x_snk x j \<noteq> None"
    "j \<in> set (source_holds s) \<Longrightarrow> j \<in> set (held x p) \<Longrightarrow> p = AtSource i"
    using assms(1) unfolding owned_def h[symmetric] by blast+
qed

lemma owned_distinct: "owned x \<Longrightarrow> distinct (held x p)"
  by (simp add: owned_def)

lemma owned_once: "owned x \<Longrightarrow> j \<in> set (held x p) \<Longrightarrow> j \<in> set (held x q) \<Longrightarrow> p = q"
  unfolding owned_def by blast

lemma owned_exists: "owned x \<Longrightarrow> x_snk x j = None \<Longrightarrow> nowhere x j"
  unfolding owned_def nowhere_def by blast

text \<open>Players leave places, and one that is nowhere comes to one place.\<close>

lemma owned_change:
  assumes "owned x" "\<And>p. distinct (held x' p)" "\<And>j. x_snk x j \<noteq> None \<Longrightarrow> x_snk x' j \<noteq> None"
    and "\<And>p j. p \<noteq> q \<Longrightarrow> j \<in> set (held x' p) \<Longrightarrow> j \<in> set (held x p)"
    and "\<And>j. j \<in> set (held x' q) \<Longrightarrow> j \<in> set (held x q) \<or> nowhere x j \<and> x_snk x j \<noteq> None"
  shows "owned x'"
  unfolding owned_def
proof (intro conjI allI impI ballI)
  have in_x: "j \<in> set (held x p) \<or> p = q \<and> nowhere x j \<and> x_snk x j \<noteq> None" if "j \<in> set (held x' p)" for p j
    using that assms(4,5) by (cases "p = q") auto
  show "x_snk x' j \<noteq> None" if "j \<in> set (held x' p)" for p j
  proof -
    have "x_snk x j \<noteq> None" using in_x[OF that] assms(1) unfolding owned_def by blast
    then show ?thesis by (rule assms(3))
  qed
  show "set (held x' p) \<inter> set (held x' p') = {}" if p: "p \<noteq> p'" for p p'
  proof -
    have False if j: "j \<in> set (held x' p)" "j \<in> set (held x' p')" for j
      using in_x[OF j(1)] in_x[OF j(2)] p owned_once[OF assms(1), of j p p'] by (auto simp: nowhere_def)
    then show ?thesis by blast
  qed
qed (rule assms(2))

text \<open>Sinks are only ever added or changed in their channel and the key of their handler, never forgotten.\<close>

definition keeps_sinks :: "exchange \<Rightarrow> exchange \<Rightarrow> bool" where
  "keeps_sinks x x' \<longleftrightarrow> (\<forall>j k. x_snk x j = Some k \<longrightarrow>
     (\<exists>k'. x_snk x' j = Some k' \<and> h_ptr (k_handler k') = h_ptr (k_handler k) \<and> k_keyInSrc k' = k_keyInSrc k))"

lemma keeps_sinks_refl [simp]: "keeps_sinks x x"
  by (simp add: keeps_sinks_def)

lemma keeps_sinks_I:
  "x_snk x' = x_snk x \<Longrightarrow> keeps_sinks x x'"
  by (simp add: keeps_sinks_def)

lemma keeps_sinks_D:
  assumes "keeps_sinks x x'"
  shows "named_sink x key e \<Longrightarrow> named_sink x' key e"
    "waiting_ok x key ws \<Longrightarrow> waiting_ok x' key ws" "source_ok x s \<Longrightarrow> source_ok x' s" "x_snk x j \<noteq> None \<Longrightarrow> x_snk x' j \<noteq> None"
proof -
  show ns: "named_sink x key e \<Longrightarrow> named_sink x' key e" for key e
    using assms unfolding named_sink_def keeps_sinks_def by metis
  show "waiting_ok x key ws \<Longrightarrow> waiting_ok x' key ws" using ns by (auto simp: waiting_ok_def)
  show "source_ok x s \<Longrightarrow> source_ok x' s" using ns unfolding source_ok_def by blast
  show "x_snk x j \<noteq> None \<Longrightarrow> x_snk x' j \<noteq> None" using assms unfolding keeps_sinks_def by blast
qed

text \<open>How the parts of an exchange may change without breaking it.\<close>

lemma exchange_ok_change:
  assumes ok: "exchange_ok x" and k: "keeps_sinks x x'" and p: "x_pool x' = x_pool x"
    and src: "\<And>i. x_src x i \<noteq> None \<Longrightarrow> x_src x' i \<noteq> None"
    and so: "\<And>i s'. x_src x' i = Some s' \<Longrightarrow> source_ok x' s' \<and> distinct (source_holds s')"
    and old: "\<And>i s' j. i \<noteq> n \<Longrightarrow> x_src x' i = Some s' \<Longrightarrow> j \<in> set (source_holds s') \<Longrightarrow> j \<in> set (held x (AtSource i))"
    and new: "\<And>s' j. x_src x' n = Some s' \<Longrightarrow> j \<in> set (source_holds s') \<Longrightarrow>
      j \<in> set (held x (AtSource n)) \<or> nowhere x j \<and> x_snk x j \<noteq> None"
  shows "exchange_ok x'"
proof -
  have key: "held x' (AtKey key) = held x (AtKey key)" for key by (simp add: held_cases p)
  have "owned x'"
  proof (rule owned_change[where x = x and q = "AtSource n"])
    show "distinct (held x' q)" for q
    proof (cases q)
      case (AtKey k)
      then show ?thesis using owned_distinct[OF exchange_okD(5)[OF ok]] key by simp
    next
      case (AtSource i)
      then show ?thesis using so by (cases "x_src x' i") simp_all
    qed
    show "j \<in> set (held x q)" if "q \<noteq> AtSource n" "j \<in> set (held x' q)" for q j
    proof (cases q)
      case (AtSource i)
      then show ?thesis using that old by (cases "x_src x' i") auto
    qed (use that key in simp)
    show "j \<in> set (held x (AtSource n)) \<or> nowhere x j \<and> x_snk x j \<noteq> None" if "j \<in> set (held x' (AtSource n))" for j
      using that new by (cases "x_src x' n") auto
  qed (use exchange_okD(5)[OF ok] keeps_sinks_D(4)[OF k] in blast)+
  then show ?thesis unfolding exchange_ok_def p
    using exchange_okD[OF ok] keeps_sinks_D(2)[OF k] so src by (metis option.distinct(1))
qed

lemma exchange_ok_set_src:
  assumes "exchange_ok x" "x_src x i = Some s" "source_ok x s'" "distinct (source_holds s')"
    and "\<And>j. j \<in> set (source_holds s') \<Longrightarrow> j \<in> set (source_holds s) \<or> nowhere x j \<and> x_snk x j \<noteq> None"
  shows "exchange_ok (set_src i s' x)"
proof (rule exchange_ok_change[OF assms(1), where n = i])
  show k: "keeps_sinks x (set_src i s' x)" by (rule keeps_sinks_I) simp
  show "source_ok (set_src i s' x) t \<and> distinct (source_holds t)" if "x_src (set_src i s' x) j = Some t" for j t
    using that assms(3,4) exchange_okD(3,5)[OF assms(1)] ownedD(1)[of x j t] keeps_sinks_D(3)[OF k] by (auto split: if_splits)
qed (use assms(2,5) in auto)

text \<open>Sinks leave a source, and it takes messages from its channel or gets some that register nobody.\<close>

lemma exchange_ok_fewer:
  assumes "exchange_ok x" "x_src x i = Some s" "s_sinks s' = filter P (s_sinks s)"
    and "registering (s_srcChan s) = js @ registering (s_srcChan s')"
  shows "exchange_ok (set_src i s' x)"
proof (rule exchange_ok_set_src[OF assms(1,2)])
  show "source_ok x s'" using exchange_okD(3)[OF assms(1,2)] assms(3) by (auto simp: source_ok_def distinct_map_filter)
  show "distinct (source_holds s')"
    using ownedD(1)[OF exchange_okD(5)[OF assms(1)] assms(2)] assms(3,4) by (auto simp: source_holds_def distinct_map_filter)
  show "j \<in> set (source_holds s) \<or> nowhere x j \<and> x_snk x j \<noteq> None" if "j \<in> set (source_holds s')" for j
    using that assms(3,4) by (auto simp: source_holds_def)
qed

lemmas exchange_ok_same_holds = exchange_ok_fewer[where P = "\<lambda>_. True" and js = "[]", simplified]

lemma exchange_ok_cancel [simp]: "exchange_ok (cancel h x) = exchange_ok x"
proof -
  have "held (cancel h x) p = held x p" for p by (cases p) (simp_all add: held_cases)
  then show ?thesis by (simp add: exchange_ok_def waiting_ok_def source_ok_def named_sink_def owned_def)
qed

lemma exchange_ok_keep_src:
  assumes "exchange_ok x" "keeps_sinks x x'" "x_pool x' = x_pool x" "x_src x' = x_src x"
  shows "exchange_ok x'"
  by (rule exchange_ok_change[OF assms(1-3), where n = 0])
    (use assms(4) exchange_okD(3,5)[OF assms(1)] ownedD(1) keeps_sinks_D(3)[OF assms(2)] in auto)

lemma exchange_ok_set_snk:
  assumes "exchange_ok x" "x_snk x j = Some k" "h_ptr (k_handler k') = h_ptr (k_handler k)" "k_keyInSrc k' = k_keyInSrc k"
  shows "exchange_ok (set_snk j k' x)"
  by (rule exchange_ok_keep_src[OF assms(1)]) (use assms(2-4) in \<open>auto simp: keeps_sinks_def\<close>)

text \<open>A sink that is nowhere may change altogether.\<close>

lemma exchange_ok_nowhere:
  assumes "exchange_ok x" "nowhere x j"
  shows "exchange_ok (set_snk j k x)" "nowhere (set_snk j k x) i = nowhere x i"
proof -
  have h: "held (set_snk j k x) p = held x p" for p by (cases p) (simp_all add: held_cases)
  then show "nowhere (set_snk j k x) i = nowhere x i" by (simp add: nowhere_def)
  have w: "named_sink x key e \<Longrightarrow> snd e \<in> set (held x p) \<Longrightarrow> named_sink (set_snk j k x) key e" for key e p
    using assms(2) by (auto simp: named_sink_def nowhere_def)
  have "source_ok (set_snk j k x) s" if s: "x_src x i = Some s" for i s
  proof -
    have "snd e \<in> set (held x (AtSource i))" if "e \<in> set (s_sinks s)" for e using s that by (simp add: source_holds_def)
    then show ?thesis using exchange_okD(3)[OF assms(1) s] w unfolding source_ok_def by blast
  qed
  moreover have "waiting_ok (set_snk j k x) key ws" if ws: "waitingSenders (x_pool x) key = Some ws" for key ws
  proof -
    have "snd e \<in> set (held x (AtKey key))" if "e \<in> set ws" for e using ws that by simp
    then show ?thesis using exchange_okD(2)[OF assms(1) ws] w unfolding waiting_ok_def by blast
  qed
  moreover have "owned (set_snk j k x)" using exchange_okD(5)[OF assms(1)] by (simp add: owned_def h)
  ultimately show "exchange_ok (set_snk j k x)" using exchange_okD[OF assms(1)] by (auto simp: exchange_ok_def)
qed

lemma exchange_ok_pool:
  assumes ok: "exchange_ok x"
    and r: "\<And>k i. receivers (f (x_pool x)) k = Some i \<Longrightarrow>
      x_src x i \<noteq> None \<and> (\<forall>k'. receivers (f (x_pool x)) k' = Some i \<longrightarrow> k' = k)"
    and w: "\<And>k ws. waitingSenders (f (x_pool x)) k = Some ws \<Longrightarrow>
      receivers (f (x_pool x)) k = None \<and> waiting_ok x k ws \<and> distinct (map snd ws)"
    and old: "\<And>k ws j. k \<noteq> key \<Longrightarrow> waitingSenders (f (x_pool x)) k = Some ws \<Longrightarrow> j \<in> snd ` set ws \<Longrightarrow> j \<in> set (held x (AtKey k))"
    and new: "\<And>ws j. waitingSenders (f (x_pool x)) key = Some ws \<Longrightarrow> j \<in> snd ` set ws \<Longrightarrow>
      j \<in> set (held x (AtKey key)) \<or> nowhere x j \<and> x_snk x j \<noteq> None"
  shows "exchange_ok (upd_pool f x)"
proof -
  have n: "waiting_ok (upd_pool f x) k ws = waiting_ok x k ws" "source_ok (upd_pool f x) s = source_ok x s" for k ws s
    by (simp_all add: waiting_ok_def source_ok_def named_sink_def)
  have "owned (upd_pool f x)"
  proof (rule owned_change[where x = x and q = "AtKey key"])
    have src: "held (upd_pool f x) (AtSource i) = held x (AtSource i)" for i by (simp add: held_cases)
    show "distinct (held (upd_pool f x) p)" for p
    proof (cases p)
      case (AtKey k)
      then show ?thesis using w by (cases "waitingSenders (f (x_pool x)) k") simp_all
    next
      case (AtSource i)
      then show ?thesis using owned_distinct[OF exchange_okD(5)[OF ok]] src by simp
    qed
    show "j \<in> set (held x p)" if "p \<noteq> AtKey key" "j \<in> set (held (upd_pool f x) p)" for p j
    proof (cases p)
      case (AtKey k)
      then show ?thesis using that old[of k _ j] by (cases "waitingSenders (f (x_pool x)) k") simp_all
    qed (use that src in simp)
    show "j \<in> set (held x (AtKey key)) \<or> nowhere x j \<and> x_snk x j \<noteq> None" if "j \<in> set (held (upd_pool f x) (AtKey key))" for j
      using that new[of _ j] by (cases "waitingSenders (f (x_pool x)) key") simp_all
  qed (use exchange_okD(5)[OF ok] in simp_all)
  then show ?thesis using r w exchange_okD(3)[OF ok] by (auto simp: exchange_ok_def n)
qed

section \<open>The pairing goroutine keeps the exchange well-formed\<close>

lemma same_snk_ok:
  "x_snk x' = x_snk x \<Longrightarrow> source_ok x' s = source_ok x s" "x_snk x' = x_snk x \<Longrightarrow> waiting_ok x' key ws = waiting_ok x key ws"
  by (simp_all add: source_ok_def waiting_ok_def named_sink_def)

lemma send_all_src_eq:
  "x_src x i = Some s \<Longrightarrow> send_all_src i ws x = Inr (set_src i (s\<lparr>s_srcChan := s_srcChan s @ map (RegisterSink \<circ> snd) ws\<rparr>) x)"
proof (induction ws arbitrary: x s)
  case Nil
  then show ?case by (cases x) (auto simp: set_src_def fun_upd_idem)
next
  case (Cons e ws)
  let ?s = "s\<lparr>s_srcChan := s_srcChan s @ [RegisterSink (snd e)]\<rparr>"
  have "send_all_src i ws (set_src i ?s x) =
      Inr (set_src i (?s\<lparr>s_srcChan := s_srcChan ?s @ map (RegisterSink \<circ> snd) ws\<rparr>) (set_src i ?s x))"
    by (rule Cons.IH) simp
  then show ?case using Cons.prems by (cases e) (simp add: send_src_def set_src_def comp_def)
qed

text \<open>A new object keeps the exchange well-formed.\<close>

lemma exchange_ok_new:
  assumes "exchange_ok x"
  shows "x_src x n = None \<Longrightarrow> exchange_ok (set_src n (new_Source h) x)"
    and "x_snk x m = None \<Longrightarrow> exchange_ok (set_snk m (new_Sink h) x)"
    and "x_src x n = None \<Longrightarrow> receivers (x_pool x) key \<noteq> Some n"
    and "x_snk x m = None \<Longrightarrow> nowhere (set_snk m (new_Sink h) x) m"
proof -
  assume n: "x_src x n = None"
  show "exchange_ok (set_src n (new_Source h) x)"
  proof (rule exchange_ok_change[OF assms, where n = n])
    show k: "keeps_sinks x (set_src n (new_Source h) x)" by (rule keeps_sinks_I) simp
    show "source_ok (set_src n (new_Source h) x) s \<and> distinct (source_holds s)" if "x_src (set_src n (new_Source h) x) i = Some s" for i s
    proof (cases "i = n")
      case True
      then show ?thesis using that by (auto simp: new_Source_def source_ok_def source_holds_def)
    next
      case False
      then have "x_src x i = Some s" using that by simp
      then show ?thesis using exchange_okD(3)[OF assms] ownedD(1)[OF exchange_okD(5)[OF assms]] keeps_sinks_D(3)[OF k] by blast
    qed
  qed (auto simp: new_Source_def source_holds_def split: if_splits)
  show "receivers (x_pool x) key \<noteq> Some n" using exchange_okD(1)[OF assms, of key n] n by auto
next
  assume m: "x_snk x m = None"
  have "nowhere x m" using m exchange_okD(5)[OF assms] by (rule owned_exists[rotated])
  from exchange_ok_nowhere[OF assms this] this
  show "exchange_ok (set_snk m (new_Sink h) x)" "nowhere (set_snk m (new_Sink h) x) m" by blast+
qed

lemma handleRegisterSource_runs:
  assumes "x_src x i = Some s"
  defines "key \<equiv> h_key (s_handler s)"
  defines "ws \<equiv> (case waitingSenders (x_pool x) key of None \<Rightarrow> [] | Some ws \<Rightarrow> ws)"
  shows "handleRegisterSource i x = Inr (if receivers (x_pool x) key = None
    then (None, set_src i (s\<lparr>s_srcChan := s_srcChan s @ map (RegisterSink \<circ> snd) ws\<rparr>)
      (upd_pool (\<lambda>p. p\<lparr>receivers := (receivers p)(key \<mapsto> i), waitingSenders := (waitingSenders p)(key := None)\<rparr>) x))
    else (Some (Errorf ''is already exits''), x))"
proof (cases "receivers (x_pool x) key")
  case None
  let ?x = "upd_pool (\<lambda>p. p\<lparr>receivers := (receivers p)(key \<mapsto> i)\<rparr>) x"
  have i: "x_src ?x i = Some s" using assms(1) by simp
  have "notifyWaitSenders i key ?x = Inr (set_src i (s\<lparr>s_srcChan := s_srcChan s @ map (RegisterSink \<circ> snd) ws\<rparr>)
      (upd_pool (\<lambda>p. p\<lparr>receivers := (receivers p)(key \<mapsto> i), waitingSenders := (waitingSenders p)(key := None)\<rparr>) x))"
  proof (cases "waitingSenders (x_pool x) key")
    case none: None
    have "(waitingSenders (x_pool x))(key := None) = waitingSenders (x_pool x)" using none by (rule fun_upd_idem)
    moreover have "set_src i s y = y" if "x_src y i = Some s" for y using that by (cases y) (auto simp: set_src_def fun_upd_idem)
    ultimately show ?thesis using none i by (simp add: notifyWaitSenders_def ws_def upd_pool_def)
  next
    case (Some vs)
    then show ?thesis using send_all_src_eq[OF i, of vs] by (simp add: notifyWaitSenders_def ws_def set_src_def upd_pool_def)
  qed
  then show ?thesis using None assms(1) by (simp add: handleRegisterSource_def key_def[symmetric])
qed (use assms in \<open>simp add: handleRegisterSource_def\<close>)

lemma waiting_distinct: "exchange_ok x \<Longrightarrow> waitingSenders (x_pool x) key = Some ws \<Longrightarrow> distinct (map snd ws)"
  using owned_distinct[OF exchange_okD(5), of x "AtKey key"] by simp

lemma handleRegisterSource_ok:
  assumes ok: "exchange_ok x" and s: "x_src x i = Some s" and fresh: "\<And>k. receivers (x_pool x) k \<noteq> Some i"
  defines "key \<equiv> h_key (s_handler s)"
  shows "\<exists>x'. handleRegisterSource i x =
      Inr (if receivers (x_pool x) key = None then None else Some (Errorf ''is already exits''), x') \<and> exchange_ok x' \<and>
    (if receivers (x_pool x) key = None
     then receivers (x_pool x') = (receivers (x_pool x))(key \<mapsto> i) \<and>
       waitingSenders (x_pool x') = (waitingSenders (x_pool x))(key := None) \<and>
       x_src x' i = Some (s\<lparr>s_srcChan := s_srcChan s @
         map (RegisterSink \<circ> snd) (case waitingSenders (x_pool x) key of None \<Rightarrow> [] | Some ws \<Rightarrow> ws)\<rparr>)
     else x' = x)"
proof (cases "receivers (x_pool x) key")
  case (Some j)
  then show ?thesis using ok handleRegisterSource_runs[OF s] by (simp add: key_def)
next
  case None
  define ws where "ws = (case waitingSenders (x_pool x) key of None \<Rightarrow> [] | Some ws \<Rightarrow> ws)"
  let ?f = "\<lambda>p. p\<lparr>receivers := (receivers p)(key \<mapsto> i), waitingSenders := (waitingSenders p)(key := None)\<rparr>"
  let ?x = "upd_pool ?f x" and ?s = "s\<lparr>s_srcChan := s_srcChan s @ map (RegisterSink \<circ> snd) ws\<rparr>"
  have own: "owned x" by (rule exchange_okD(5)[OF ok])
  have x1: "exchange_ok ?x"
  proof (rule exchange_ok_pool[OF ok, where key = key])
    fix k n assume "receivers (?f (x_pool x)) k = Some n"
    then show "x_src x n \<noteq> None \<and> (\<forall>k'. receivers (?f (x_pool x)) k' = Some n \<longrightarrow> k' = k)"
      using exchange_okD(1,4)[OF ok] fresh s by (auto split: if_splits)
  next
    fix k vs assume v: "waitingSenders (?f (x_pool x)) k = Some vs"
    then show "receivers (?f (x_pool x)) k = None \<and> waiting_ok x k vs \<and> distinct (map snd vs)"
      using exchange_okD(2)[OF ok, of k vs] waiting_distinct[OF ok, of k vs] by (auto split: if_splits)
  qed (auto split: if_splits)
  have h: "map snd ws = held x (AtKey key)" by (simp add: ws_def held_cases split: option.split)
  have "exchange_ok (set_src i ?s ?x)"
  proof (rule exchange_ok_set_src[OF x1, of i s])
    show "x_src ?x i = Some s" using s by simp
    have "source_ok x s" by (rule exchange_okD(3)[OF ok s])
    then show "source_ok ?x ?s" by (simp add: source_ok_def named_sink_def)
    have "set (source_holds s) \<inter> set (map snd ws) = {}" using own s unfolding owned_def h
      by (metis held_simps(4) place.distinct(1))
    moreover have "distinct (map snd ws)" unfolding h by (rule owned_distinct[OF own])
    ultimately show "distinct (source_holds ?s)" using ownedD(1)[OF own s] by (auto simp: source_holds_def)
    fix j assume "j \<in> set (source_holds ?s)"
    then consider "j \<in> set (source_holds s)" | "j \<in> set (held x (AtKey key))" unfolding h[symmetric] by (auto simp: source_holds_def)
    then show "j \<in> set (source_holds s) \<or> nowhere ?x j \<and> x_snk ?x j \<noteq> None"
    proof cases
      case 2
      have "j \<notin> set (held ?x p)" for p
      proof
        assume a: "j \<in> set (held ?x p)"
        moreover from a have "p \<noteq> AtKey key" by auto
        moreover from a this have "j \<in> set (held x p)" by (cases p) (auto simp: held_cases)
        ultimately show False using owned_once[OF own _ 2] by blast
      qed
      then show ?thesis using 2 own unfolding nowhere_def owned_def by auto
    qed simp
  qed
  then show ?thesis using None handleRegisterSource_runs[OF s] by (simp add: key_def ws_def)
qed

lemma handleUnregisterSource_ok:
  assumes "exchange_ok x"
  shows "if receivers (x_pool x) (h_key h) = None
    then handleUnregisterSource h x = Inl (Panic (h_key h @ '' source not registerd''))
    else \<exists>x'. handleUnregisterSource h x = Inr x' \<and> exchange_ok x' \<and>
      receivers (x_pool x') = (receivers (x_pool x))(h_key h := None)"
proof -
  have "exchange_ok (upd_pool (\<lambda>p. p\<lparr>receivers := (receivers p)(h_key h := None)\<rparr>) x)"
    by (rule exchange_ok_pool[OF assms, where key = "h_key h"])
      (use exchange_okD(1,2,4)[OF assms] waiting_distinct[OF assms] in \<open>auto split: if_splits\<close>)
  then show ?thesis by (simp add: handleUnregisterSource_def Let_def)
qed

lemma named_sink_self:
  "x_snk x j = Some sink \<Longrightarrow> k_keyInSrc sink = keyInSrc (k_handler sink) \<Longrightarrow>
    named_sink x (h_key (k_handler sink)) (keyInSrc (k_handler sink), j)"
  by (simp add: named_sink_def keyInSrc_def)

lemma addObserver_runs:
  assumes "x_snk x j = Some sink"
  defines "key \<equiv> h_key (k_handler sink)" and "k \<equiv> keyInSrc (k_handler sink)"
  defines "ws \<equiv> (case waitingSenders (x_pool x) key of None \<Rightarrow> [] | Some ws \<Rightarrow> ws)"
  shows "addObserver j x = (if k \<in> fst ` set ws then Inl (Panic (k @ '' has waited''))
    else Inr (upd_pool (\<lambda>p. p\<lparr>waitingSenders := (waitingSenders p)(key \<mapsto> ws @ [(k, j)])\<rparr>) (set_snk j (sink\<lparr>k_keyInSrc := k\<rparr>) x)))"
  using assms(1) by (auto simp: addObserver_def Let_def key_def[symmetric] k_def[symmetric] ws_def failIf_def split: option.split)

lemma addObserver_ok:
  assumes ok: "exchange_ok x" and j: "x_snk x j = Some sink" "nowhere x j"
  defines "key \<equiv> h_key (k_handler sink)" and "k \<equiv> keyInSrc (k_handler sink)"
  defines "ws \<equiv> (case waitingSenders (x_pool x) key of None \<Rightarrow> [] | Some ws \<Rightarrow> ws)"
  assumes r: "receivers (x_pool x) key = None" and new: "k \<notin> fst ` set ws"
  shows "exchange_ok (upd_pool (\<lambda>p. p\<lparr>waitingSenders := (waitingSenders p)(key \<mapsto> ws @ [(k, j)])\<rparr>) (set_snk j (sink\<lparr>k_keyInSrc := k\<rparr>) x))"
    (is "exchange_ok (upd_pool ?f ?x)")
proof -
  have ok1: "exchange_ok ?x" and n1: "nowhere ?x j" using exchange_ok_nowhere[OF ok j(2)] j(2) by blast+
  have n: "named_sink ?x key (k, j)" using named_sink_self[of ?x j "sink\<lparr>k_keyInSrc := k\<rparr>"] by (simp add: key_def k_def)
  have old: "distinct (map fst ws)" "\<forall>e\<in>set ws. named_sink ?x key e" "distinct (map snd ws)" "set (map snd ws) \<subseteq> set (held ?x (AtKey key))"
    unfolding ws_def using exchange_okD(2)[OF ok1, of key] waiting_distinct[OF ok1, of key]
    by (cases "waitingSenders (x_pool x) key"; simp add: waiting_ok_def)+
  have wk: "waiting_ok ?x key (ws @ [(k, j)])" using old new n by (auto simp: waiting_ok_def)
  have d: "distinct (map snd (ws @ [(k, j)]))" using old(3,4) n1 unfolding nowhere_def by fastforce
  show ?thesis
  proof (rule exchange_ok_pool[OF ok1, where key = key])
    fix k' i assume "receivers (?f (x_pool ?x)) k' = Some i"
    then show "x_src ?x i \<noteq> None \<and> (\<forall>k''. receivers (?f (x_pool ?x)) k'' = Some i \<longrightarrow> k'' = k')"
      using exchange_okD(1,4)[OF ok1] by auto
  next
    fix k' vs assume "waitingSenders (?f (x_pool ?x)) k' = Some vs"
    then show "receivers (?f (x_pool ?x)) k' = None \<and> waiting_ok ?x k' vs \<and> distinct (map snd vs)"
      using wk d r exchange_okD(2)[OF ok1, of k' vs] waiting_distinct[OF ok1, of k' vs] by (auto split: if_splits)
  next
    fix vs i assume "waitingSenders (?f (x_pool ?x)) key = Some vs" "i \<in> snd ` set vs"
    then show "i \<in> set (held ?x (AtKey key)) \<or> nowhere ?x i \<and> x_snk ?x i \<noteq> None"
    proof (cases "i = j")
      case False
      then have "i \<in> set (map snd ws)" using \<open>waitingSenders _ key = _\<close> \<open>i \<in> _\<close> by auto
      then show ?thesis using old(4) by blast
    qed (use n1 in simp)
  qed (auto split: if_splits)
qed

lemma handleRegisterSink_runs:
  assumes ok: "exchange_ok x" and j: "x_snk x j = Some sink"
  defines "key \<equiv> h_key (k_handler sink)" and "k \<equiv> keyInSrc (k_handler sink)"
  shows "(\<exists>e. handleRegisterSink j x = Inl e) \<longleftrightarrow> (\<exists>ws. waitingSenders (x_pool x) key = Some ws \<and> k \<in> fst ` set ws)"
proof (cases "receivers (x_pool x) key")
  case None
  then show ?thesis using j addObserver_runs[OF j] unfolding handleRegisterSink_def
    by (auto simp: key_def k_def bindE_eq_Inl split: option.splits)
next
  case (Some i)
  obtain s where "x_src x i = Some s" using exchange_okD(1)[OF ok Some] by blast
  moreover have "waitingSenders (x_pool x) key = None"
    using exchange_okD(2)[OF ok, of key] Some by (cases "waitingSenders (x_pool x) key") auto
  ultimately show ?thesis using j Some by (simp add: handleRegisterSink_def key_def send_src_def)
qed

lemma handleRegisterSink_ok:
  assumes ok: "exchange_ok x" and j: "x_snk x j = Some sink" "nowhere x j"
  defines "key \<equiv> h_key (k_handler sink)" and "k \<equiv> keyInSrc (k_handler sink)"
  shows "if \<exists>ws. waitingSenders (x_pool x) key = Some ws \<and> k \<in> fst ` set ws
    then handleRegisterSink j x = Inl (Panic (k @ '' has waited''))
    else \<exists>x'. handleRegisterSink j x = Inr (None, x') \<and> exchange_ok x' \<and> receivers (x_pool x') = receivers (x_pool x) \<and>
      (\<exists>sink'. x_snk x' j = Some sink' \<and> k_handler sink' = k_handler sink) \<and>
      (case receivers (x_pool x) key of
         None \<Rightarrow> \<exists>ws. waitingSenders (x_pool x') key = Some ws \<and> (k, j) \<in> set ws
       | Some i \<Rightarrow> \<exists>s. x_src x' i = Some s \<and> RegisterSink j \<in> set (s_srcChan s))"
proof (cases "receivers (x_pool x) key")
  case None
  let ?ws = "case waitingSenders (x_pool x) key of None \<Rightarrow> [] | Some ws \<Rightarrow> ws"
  have "(\<exists>ws. waitingSenders (x_pool x) key = Some ws \<and> k \<in> fst ` set ws) \<longleftrightarrow> k \<in> fst ` set ?ws"
    by (cases "waitingSenders (x_pool x) key") simp_all
  then show ?thesis
    using addObserver_runs[OF j(1)] addObserver_ok[OF ok j] None j(1)
    by (auto simp: handleRegisterSink_def key_def[symmetric] k_def[symmetric])
next
  case (Some i)
  obtain s where s: "x_src x i = Some s" using exchange_okD(1)[OF ok Some] by blast
  let ?s = "s\<lparr>s_srcChan := s_srcChan s @ [RegisterSink j]\<rparr>"
  have "j \<notin> set (source_holds s)" using j(2) s unfolding nowhere_def by (metis held_simps(4))
  then have "distinct (source_holds ?s)" using ownedD(1)[OF exchange_okD(5)[OF ok] s] by (auto simp: source_holds_def)
  moreover have "source_ok x ?s" using exchange_okD(3)[OF ok s] by (simp add: source_ok_def)
  ultimately have "exchange_ok (set_src i ?s x)"
    using j by (intro exchange_ok_set_src[OF ok s]) (auto simp: source_holds_def)
  moreover have "handleRegisterSink j x = Inr (None, set_src i ?s x)"
    using j(1) Some s by (simp add: handleRegisterSink_def key_def send_src_def)
  moreover have "waitingSenders (x_pool x) key = None"
    using exchange_okD(2)[OF ok, of key] Some by (cases "waitingSenders (x_pool x) key") auto
  ultimately show ?thesis using Some j(1) by simp
qed

lemma deleteObserver_ok: "exchange_ok x \<Longrightarrow> exchange_ok (snd (deleteObserver h x))"
proof (cases "waitingSenders (x_pool x) (h_key h)")
  case (Some ws)
  assume ok: "exchange_ok x"
  let ?ws = "filter (\<lambda>e. fst e \<noteq> keyInSrc h) ws"
  have d: "distinct (map snd ?ws)" using waiting_distinct[OF ok Some] by (simp add: distinct_map_filter)
  have "exchange_ok (upd_pool (\<lambda>p. p\<lparr>waitingSenders := (waitingSenders p)(h_key h := if ?ws = [] then None else Some ?ws)\<rparr>) x)"
    by (rule exchange_ok_pool[OF ok, where key = "h_key h"])
      (use exchange_okD(1,2,4)[OF ok] waiting_distinct[OF ok] Some d in
        \<open>auto simp: waiting_ok_def distinct_map_filter split: if_splits\<close>)
  then show ?thesis using Some by (simp add: deleteObserver_def Let_def)
qed (simp add: deleteObserver_def)

lemma handleUnregisterSink_ok:
  assumes "exchange_ok x"
  shows "\<exists>x'. handleUnregisterSink h x = Inr x' \<and> exchange_ok x' \<and> receivers (x_pool x') = receivers (x_pool x)"
proof (cases "receivers (x_pool x) (h_key h)")
  case None
  then show ?thesis using deleteObserver_ok[OF assms, of h]
    by (simp add: handleUnregisterSink_def) (simp add: deleteObserver_def Let_def split: option.split)
next
  case (Some i)
  obtain s where s: "x_src x i = Some s" using exchange_okD(1)[OF assms Some] by blast
  have "exchange_ok (set_src i (s\<lparr>s_srcChan := s_srcChan s @ [UnregisterSink h]\<rparr>) x)"
    by (rule exchange_ok_same_holds[OF assms s]) simp_all
  then show ?thesis using Some s by (simp add: handleUnregisterSink_def send_src_def)
qed

text \<open>A handler gets another key.\<close>

lemma registering_renamed [simp]: "registering (map (rekey_message p key) ms) = registering ms"
  by (induction ms rule: registering.induct) simp_all

lemma rekey_ok:
  assumes "exchange_ok x"
  shows "exchange_ok (rekey p key x)"
proof (rule exchange_ok_change[OF assms, where n = 0])
  show k: "keeps_sinks x (rekey p key x)" by (auto simp: keeps_sinks_def rekey_def with_key_def)
  show "x_pool (rekey p key x) = x_pool x" by (simp add: rekey_def)
  have r: "\<exists>s. x_src x i = Some s \<and> s_sinks s' = s_sinks s \<and> source_holds s' = source_holds s"
    if "x_src (rekey p key x) i = Some s'" for i s'
    using that by (auto simp: rekey_def source_holds_def)
  show "x_src x i \<noteq> None \<Longrightarrow> x_src (rekey p key x) i \<noteq> None" for i by (simp add: rekey_def)
  show "source_ok (rekey p key x) s' \<and> distinct (source_holds s')" if s': "x_src (rekey p key x) i = Some s'" for i s'
  proof -
    obtain s where s: "x_src x i = Some s" "s_sinks s' = s_sinks s" "source_holds s' = source_holds s"
      using r[OF s'] by blast
    have "source_ok (rekey p key x) s" using exchange_okD(3)[OF assms s(1)] keeps_sinks_D(3)[OF k] by blast
    then show ?thesis using s ownedD(1)[OF exchange_okD(5)[OF assms] s(1)] by (simp add: source_ok_def)
  qed
  show "j \<in> set (held x (AtSource i))" if "x_src (rekey p key x) i = Some s'" "j \<in> set (source_holds s')" for i s' j
    using r[OF that(1)] that(2) by auto
  show "j \<in> set (held x (AtSource 0)) \<or> nowhere x j \<and> x_snk x j \<noteq> None"
    if "x_src (rekey p key x) 0 = Some s'" "j \<in> set (source_holds s')" for s' j
    using r[OF that(1)] that(2) by auto
qed

section \<open>Fan-out of a source\<close>

definition room :: "exchange \<Rightarrow> nat \<Rightarrow> bool" where
  "room x j \<longleftrightarrow> (case x_snk x j of Some k \<Rightarrow> length (k_msgChan k) < 50 | None \<Rightarrow> False)"

definition push_chan :: "ExData \<Rightarrow> Sink \<Rightarrow> Sink" where
  "push_chan m k = k\<lparr>k_msgChan := k_msgChan k @ [m]\<rparr>"

text \<open>The handlers of the sinks that have no room.\<close>

definition overrun :: "exchange \<Rightarrow> (string \<times> nat) list \<Rightarrow> nat set" where
  "overrun x ks = (\<lambda>e. h_ptr (k_handler (the (x_snk x (snd e))))) ` {e \<in> set ks. \<not> room x (snd e)}"

text \<open>
  The effect of writing one message to the sinks \<open>ks\<close> of source \<open>i\<close>: the sinks that have room get it at
  the end of their channel, the others are cancelled and leave the source, all else stays.
\<close>

definition fanned_out :: "nat \<Rightarrow> (string \<times> nat) list \<Rightarrow> ExData \<Rightarrow> exchange \<Rightarrow> exchange \<Rightarrow> bool" where
  "fanned_out i ks m x x' \<longleftrightarrow> x_pool x' = x_pool x \<and>
     (\<forall>j. x_snk x' j = (if j \<in> snd ` set ks \<and> room x j then map_option (push_chan (toSinkMsg m)) (x_snk x j) else x_snk x j)) \<and>
     (\<forall>s. x_src x i = Some s \<longrightarrow> x_src x' = (x_src x)(i \<mapsto> s\<lparr>s_sinks :=
        filter (\<lambda>e. \<not> (\<exists>j. (fst e, j) \<in> set ks \<and> \<not> room x j)) (s_sinks s)\<rparr>)) \<and>
     set (x_cancelled x') = set (x_cancelled x) \<union> overrun x ks"

lemma room_upd: "j \<noteq> j' \<Longrightarrow> room (set_snk j k x) j' = room x j'"
  by (simp add: room_def)

lemma named_sink_other: "snd e \<noteq> j \<Longrightarrow> named_sink (set_snk j k x) key e = named_sink x key e"
  by (simp add: named_sink_def)

lemma fanned_out_push:
  assumes "x_snk x j = Some k" "room x j" "j \<notin> snd ` set ks"
    and "fanned_out i ks m (set_snk j (push_chan (toSinkMsg m) k) x) x'"
  shows "fanned_out i ((key, j) # ks) m x x'"
proof -
  have r: "room (set_snk j (push_chan (toSinkMsg m) k) x) j' = room x j'" if "j' \<in> snd ` set ks" for j'
    using that assms(3) by (intro room_upd) auto
  have e: "(\<exists>j'. (a, j') \<in> set ((key, j) # ks) \<and> \<not> room x j') \<longleftrightarrow>
      (\<exists>j'. (a, j') \<in> set ks \<and> \<not> room (set_snk j (push_chan (toSinkMsg m) k) x) j')" for a
    using assms(2) r by force
  have c: "overrun (set_snk j (push_chan (toSinkMsg m) k) x) ks = overrun x ((key, j) # ks)"
    unfolding overrun_def using assms(2,3) r by (intro image_cong) auto
  have s: "x_snk x' j' = (if j' \<in> snd ` set ((key, j) # ks) \<and> room x j'
      then map_option (push_chan (toSinkMsg m)) (x_snk x j') else x_snk x j')" for j'
    using assms r by (cases "j' = j") (auto simp: fanned_out_def)
  show ?thesis unfolding fanned_out_def e
    using assms(4) s unfolding fanned_out_def c by simp
qed

lemma fanned_out_drop:
  assumes "x_snk x j = Some k" "\<not> room x j" "j \<notin> snd ` set ks" "x_src x i = Some s"
    and "fanned_out i ks m (set_src i (s\<lparr>s_sinks := filter (\<lambda>e. fst e \<noteq> key) (s_sinks s)\<rparr>) (cancel (k_handler k) x)) x'"
  shows "fanned_out i ((key, j) # ks) m x x'"
proof -
  let ?x = "set_src i (s\<lparr>s_sinks := filter (\<lambda>e. fst e \<noteq> key) (s_sinks s)\<rparr>) (cancel (k_handler k) x)"
  have r: "room ?x j' = room x j'" for j' by (simp add: room_def)
  have f: "filter (\<lambda>e. \<not> (\<exists>j'. (fst e, j') \<in> set ks \<and> \<not> room x j')) (filter (\<lambda>e. fst e \<noteq> key) (s_sinks s)) =
      filter (\<lambda>e. \<not> (\<exists>j'. (fst e, j') \<in> set ((key, j) # ks) \<and> \<not> room x j')) (s_sinks s)"
    using assms(2) by (auto intro!: filter_cong)
  have "{e \<in> set ((key, j) # ks). \<not> room x (snd e)} = insert (key, j) {e \<in> set ks. \<not> room x (snd e)}"
    using assms(2) by auto
  then have "overrun x ((key, j) # ks) = insert (h_ptr (k_handler k)) (overrun x ks)"
    using assms(1) by (simp only: overrun_def image_insert snd_conv option.sel)
  moreover have "overrun ?x ks = overrun x ks" by (simp add: overrun_def r)
  ultimately show ?thesis using assms(2,4,5) f unfolding fanned_out_def r by auto
qed

lemma write_sinks_fans:
  assumes "x_src x i = Some s" "distinct (map snd ks)" "\<forall>e\<in>set ks. \<exists>key. named_sink x key e"
  shows "\<exists>x'. write_sinks i ks m x = Inr x' \<and> fanned_out i ks m x x'"
  using assms
proof (induction ks arbitrary: x s)
  case Nil
  then show ?case by (auto simp: fanned_out_def overrun_def)
next
  case (Cons e ks)
  obtain n j where e: "e = (n, j)" by (cases e)
  obtain k where k: "x_snk x j = Some k" "k_keyInSrc k = n" using Cons.prems(3) e by (auto simp: named_sink_def)
  have j: "j \<notin> snd ` set ks" and d: "distinct (map snd ks)" using Cons.prems(2) e by auto
  show ?case
  proof (cases "room x j")
    case True
    let ?x = "set_snk j (push_chan (toSinkMsg m) k) x"
    have "named_sink ?x key e' = named_sink x key e'" if "e' \<in> set ks" for key e'
      using that j by (intro named_sink_other) auto
    then have "\<forall>e\<in>set ks. \<exists>key. named_sink ?x key e" using Cons.prems(3) by simp
    with Cons.IH[of ?x s] Cons.prems(1) d obtain x' where
      x': "write_sinks i ks m ?x = Inr x'" "fanned_out i ks m ?x x'" by auto
    moreover have "write_sinks i (e # ks) m x = write_sinks i ks m ?x"
      using True k by (simp add: e sink_writeData_def room_def push_chan_def)
    ultimately show ?thesis using fanned_out_push[OF k(1) True j x'(2)] e by auto
  next
    case False
    let ?x = "set_src i (s\<lparr>s_sinks := filter (\<lambda>e. fst e \<noteq> n) (s_sinks s)\<rparr>) (cancel (k_handler k) x)"
    have "\<forall>e\<in>set ks. \<exists>key. named_sink ?x key e" using Cons.prems(3) by (simp add: named_sink_def)
    with Cons.IH[of ?x "s\<lparr>s_sinks := filter (\<lambda>e. fst e \<noteq> n) (s_sinks s)\<rparr>"] d obtain x' where
      x': "write_sinks i ks m ?x = Inr x'" "fanned_out i ks m ?x x'" by auto
    moreover have "write_sinks i (e # ks) m x = write_sinks i ks m ?x"
      using False k Cons.prems(1) by (simp add: e sink_writeData_def room_def)
    ultimately show ?thesis using fanned_out_drop[OF k(1) False j Cons.prems(1) x'(2)] e by auto
  qed
qed

lemma source_sinks_distinct: "source_ok x s \<Longrightarrow> distinct (map snd (s_sinks s))"
proof -
  assume ok: "source_ok x s"
  have "fst e = fst e'" if e: "e \<in> set (s_sinks s)" "e' \<in> set (s_sinks s)" "snd e = snd e'" for e e'
  proof -
    obtain key key' where "named_sink x key e" "named_sink x key' e'"
      using ok e(1,2) unfolding source_ok_def by blast
    then obtain k k' where "x_snk x (snd e) = Some k" "k_keyInSrc k = fst e" "x_snk x (snd e') = Some k'" "k_keyInSrc k' = fst e'"
      unfolding named_sink_def by blast
    then show ?thesis using e(3) by simp
  qed
  then have "inj_on snd (set (s_sinks s))" by (auto intro!: inj_onI prod_eqI)
  moreover have "distinct (s_sinks s)" using ok by (auto simp: source_ok_def distinct_map)
  ultimately show ?thesis by (simp add: distinct_map)
qed

lemma source_writeData_fans:
  assumes "x_src x i = Some s" "source_ok x s"
  shows "\<exists>x'. source_writeData i m x = Inr x' \<and> fanned_out i (s_sinks s) m x x'"
  using write_sinks_fans[OF assms(1) source_sinks_distinct[OF assms(2)]] assms
  by (auto simp: source_writeData_def source_ok_def)

section \<open>The metadata command\<close>

lemma ReadInto_text:
  assumes "ReadInto n r = Inr (d, r')" "0 \<notin> set d"
  shows "length r = length r' + length d"
proof -
  obtain b where b: "Read n r = Inr (b, r')" "d = b @ replicate (n - length b) 0"
    using assms(1) by (auto simp: ReadInto_def bindE_eq_Inr)
  then have "n - length b = 0" using assms(2) by auto
  with b show ?thesis by (auto simp: Read_def split: if_splits)
qed

lemma command_text: "0 \<notin> set d" "length d = 13" if "string_of_bytes d = ''@setDataFrame''"
proof -
  have "d = bytes_of_string ''@setDataFrame''" using that by (metis bytes_of_string_of_bytes)
  moreover have "0 \<notin> set (bytes_of_string ''@setDataFrame'')" "length (bytes_of_string ''@setDataFrame'') = 13"
    by code_simp+
  ultimately show "0 \<notin> set d" "length d = 13" by simp_all
qed

lemma ReadInto_command:
  "ReadInto n r = Inr (d, r') \<Longrightarrow> string_of_bytes d = ''@setDataFrame'' \<Longrightarrow> length r = length r' + 13"
  using ReadInto_text[of n r d r'] command_text[of d] by simp

lemma ReadUTF8_command:
  "ReadUTF8 r = Inr (''@setDataFrame'', r') \<Longrightarrow> 15 \<le> length r"
  "ReadUTF8Long r = Inr (''@setDataFrame'', r') \<Longrightarrow> 15 \<le> length r"
  "AMF3_ReadUTF8 r = Inr (''@setDataFrame'', r') \<Longrightarrow> 14 \<le> length r"
  by (auto simp: ReadUTF8_def ReadUTF8Long_def AMF3_ReadUTF8_def bindE_eq_Inr failIf_eq_Inr Let_def split: if_splits
      dest!: base0_shrink(1,2) base_readers_shrink(1) ReadInto_command)

lemma AMF3_command: "AMF3_ReadValue r = Inr (VString ''@setDataFrame'', r') \<Longrightarrow> 15 \<le> length r"
  by (auto simp: AMF3_ReadValue_def bindE_eq_Inr ReadByte_Inr split: if_splits dest!: ReadUTF8_command(3))

text \<open>However it is encoded, the command takes the 16 bytes that are cut off.\<close>

lemma setDataFrame_length:
  assumes "ReadValue p = Inr (VString ''@setDataFrame'', r)"
  shows "16 \<le> length p"
proof -
  have "2 * length p + 2 = Suc (Suc (2 * length p))" by simp
  then obtain m p' where p: "p = m # p'" and "(if m = 0x02 then 15 \<le> length p' else if m = 0x0c then 15 \<le> length p'
      else if m = 0x11 then 15 \<le> length p' else False)"
    using assms unfolding ReadValue_def
    by (auto simp: bindE_eq_Inr ReadMarker_def ReadByte_Inr simp del: readProps_f.simps readArr_f.simps split: if_splits
        dest: ReadUTF8_command(1,2) AMF3_command)
  then show ?thesis by (auto split: if_splits)
qed

section \<open>The goroutines of sources and sinks keep the exchange well-formed\<close>

lemma fanned_out_ok:
  assumes ok: "exchange_ok x" and s: "x_src x i = Some s" and f: "fanned_out i (s_sinks s) m x x'"
  shows "exchange_ok x'"
proof -
  let ?s = "s\<lparr>s_sinks := filter (\<lambda>e. \<not> (\<exists>j. (fst e, j) \<in> set (s_sinks s) \<and> \<not> room x j)) (s_sinks s)\<rparr>"
  have "\<exists>k'. x_snk x' j = Some k' \<and> k_handler k' = k_handler k \<and> k_keyInSrc k' = k_keyInSrc k" if "x_snk x j = Some k" for j k
    using that f by (auto simp: fanned_out_def push_chan_def)
  then have "keeps_sinks (set_src i ?s x) x'" unfolding keeps_sinks_def store_simps by metis
  moreover have "exchange_ok (set_src i ?s x)" by (rule exchange_ok_fewer[OF ok s]) simp_all
  moreover have "x_pool x' = x_pool (set_src i ?s x)" "x_src x' = x_src (set_src i ?s x)" using f s by (simp_all add: fanned_out_def)
  ultimately show ?thesis by (intro exchange_ok_keep_src[of "set_src i ?s x" x'])
qed

lemma handleDataMessaage_total:
  "\<exists>e m'. handleDataMessaage src m = Inr (src\<lparr>s_err := e\<rparr>, m')"
proof (cases "ReadValue (ex_Payload m)")
  case (Inl e)
  then have "\<not> is_fault e" using AMF0_read_returns(1)[of "ex_Payload m"] by simp
  moreover have "src = src\<lparr>s_err := s_err src\<rparr>" by simp
  ultimately show ?thesis using Inl by (cases "e = EOF") (auto simp: handleDataMessaage_def intro: exI[of _ "s_err src"])
next
  case (Inr vr)
  obtain v r where vr: "vr = (v, r)" by (cases vr)
  have "src = src\<lparr>s_err := s_err src\<rparr>" by simp
  moreover have "\<not> length (ex_Payload m) < 16" if "v = VString ''@setDataFrame''"
    using setDataFrame_length[of "ex_Payload m" r] Inr vr that by simp
  ultimately show ?thesis using Inr vr
    by (auto simp: handleDataMessaage_def failIf_def intro: exI[of _ "s_err src"])
qed

lemma remember_total:
  "\<exists>s' m'. remember s m = Inr (s', m') \<and> s_handler s' = s_handler s \<and> s_sinks s' = s_sinks s \<and>
     s_srcChan s' = s_srcChan s \<and> (ex_DataType m \<notin> {DataTypeDataAMF0, DataTypeDataAMF3} \<longrightarrow> m' = m)"
proof (cases "ex_DataType m \<in> {DataTypeDataAMF0, DataTypeDataAMF3}")
  case True
  obtain e m' where "handleDataMessaage s m = Inr (s\<lparr>s_err := e\<rparr>, m')" using handleDataMessaage_total by blast
  with True show ?thesis by (auto simp: remember_def)
next
  case False
  then show ?thesis by (simp add: remember_def Let_def)
qed

lemma handleRtmpMessage_fans:
  assumes "x_src x i = Some s" "source_ok x s"
  shows "\<exists>s' m' x'. handleRtmpMessage i m x = Inr x' \<and> remember s m = Inr (s', m') \<and> s_handler s' = s_handler s \<and>
    s_sinks s' = s_sinks s \<and> s_srcChan s' = s_srcChan s \<and> fanned_out i (s_sinks s) m' (set_src i s' x) x' \<and>
    (ex_DataType m \<notin> {DataTypeDataAMF0, DataTypeDataAMF3} \<longrightarrow> m' = m)"
proof -
  obtain s' m' where sm: "remember s m = Inr (s', m')"
    and s': "s_handler s' = s_handler s" "s_sinks s' = s_sinks s" "s_srcChan s' = s_srcChan s"
    and m': "ex_DataType m \<notin> {DataTypeDataAMF0, DataTypeDataAMF3} \<longrightarrow> m' = m"
    using remember_total by blast
  have "source_ok (set_src i s' x) s'"
    using assms(2) s' by (simp add: source_ok_def named_sink_def)
  then obtain x' where "source_writeData i m' (set_src i s' x) = Inr x'"
    "fanned_out i (s_sinks s') m' (set_src i s' x) x'"
    using source_writeData_fans[of "set_src i s' x" i s' m'] by auto
  moreover have "handleRtmpMessage i m x = source_writeData i m' (set_src i s' x)"
    using assms(1) sm by (simp add: handleRtmpMessage_def)
  ultimately show ?thesis using sm s' m' by auto
qed

lemma handleRtmpMessage_ok:
  assumes "exchange_ok x" "x_src x i = Some s"
  shows "\<exists>x'. handleRtmpMessage i m x = Inr x' \<and> exchange_ok x'"
proof -
  obtain s' m' x' where h: "handleRtmpMessage i m x = Inr x'" "s_handler s' = s_handler s" "s_sinks s' = s_sinks s"
    "s_srcChan s' = s_srcChan s" "fanned_out i (s_sinks s) m' (set_src i s' x) x'"
    using handleRtmpMessage_fans[OF assms(2) exchange_okD(3)[OF assms]] by blast
  have "exchange_ok (set_src i s' x)" by (rule exchange_ok_same_holds[OF assms]) (simp_all add: h)
  then show ?thesis using fanned_out_ok[of "set_src i s' x" i s' m' x'] h by auto
qed

lemma connectSink_ok:
  assumes ok: "exchange_ok x" and s: "x_src x i = Some s" and k: "x_snk x j = Some k" "nowhere x j"
  shows "if keyInSrc (k_handler k) \<in> fst ` set (s_sinks s) then connectSink i j x = Inl (Panic ''repeater register'')
    else \<exists>x'. connectSink i j x = Inr x' \<and> exchange_ok x'"
proof -
  let ?k = "k\<lparr>k_keyInSrc := keyInSrc (k_handler k), k_msgChan := k_msgChan k @ config_messages s\<rparr>"
  let ?s = "s\<lparr>s_sinks := s_sinks s @ [(keyInSrc (k_handler k), j)]\<rparr>" and ?x = "set_snk j ?k x"
  have ok1: "exchange_ok ?x" and n1: "nowhere ?x j" using exchange_ok_nowhere[OF ok k(2)] k(2) by blast+
  have s1: "x_src ?x i = Some s" using s by simp
  have j: "j \<notin> set (source_holds s)" using n1 s1 unfolding nowhere_def by (metis held_simps(4))
  have "exchange_ok (set_src i ?s ?x)" if "keyInSrc (k_handler k) \<notin> fst ` set (s_sinks s)"
  proof (rule exchange_ok_set_src[OF ok1 s1])
    have "named_sink ?x (h_key (k_handler k)) (keyInSrc (k_handler k), j)" using named_sink_self[of ?x j ?k] by simp
    then show "source_ok ?x ?s" using exchange_okD(3)[OF ok1 s1] that by (auto simp: source_ok_def)
    show "distinct (source_holds ?s)" using ownedD(1)[OF exchange_okD(5)[OF ok1] s1] j by (auto simp: source_holds_def)
  qed (use n1 in \<open>auto simp: source_holds_def\<close>)
  moreover have "set_src i ?s ?x = set_snk j ?k (set_src i ?s x)"
    by (simp add: set_src_def set_snk_def)
  ultimately show ?thesis using s k(1) by (simp add: connectSink_def Let_def failIf_def)
qed

lemma deleteSink_ok:
  assumes "exchange_ok x" "x_src x i = Some s"
  shows "\<exists>x'. deleteSink i h x = Inr x' \<and> exchange_ok x'"
proof (cases "map_of (s_sinks s) (keyInSrc h)")
  case None
  then show ?thesis using assms by (simp add: deleteSink_def Let_def)
next
  case (Some j)
  have "(keyInSrc h, j) \<in> set (s_sinks s)" using Some by (rule map_of_SomeD)
  then obtain k where k: "x_snk x j = Some k"
    using exchange_okD(3)[OF assms] by (fastforce simp: source_ok_def named_sink_def)
  have "exchange_ok (set_src i (s\<lparr>s_sinks := filter (\<lambda>e. fst e \<noteq> keyInSrc h) (s_sinks s)\<rparr>) x)"
    by (rule exchange_ok_fewer[OF assms]) simp_all
  then show ?thesis using assms(2) Some k by (simp add: deleteSink_def Let_def)
qed

text \<open>A sink that is taken from the channel of its source is nowhere until it is connected.\<close>

lemma taken_nowhere:
  assumes "owned x" "x_src x i = Some s" "s_srcChan s = RegisterSink j # ms"
  shows "nowhere (set_src i (s\<lparr>s_srcChan := ms\<rparr>) x) j" "x_snk x j \<noteq> None"
proof -
  have j: "j \<in> set (source_holds s)" "j \<notin> set (source_holds (s\<lparr>s_srcChan := ms\<rparr>))"
    using ownedD(1)[OF assms(1,2)] assms(3) by (auto simp: source_holds_def)
  show "x_snk x j \<noteq> None" by (rule ownedD(2)[OF assms(1,2) j(1)])
  have "j \<notin> set (held (set_src i (s\<lparr>s_srcChan := ms\<rparr>) x) p)" for p
  proof (cases "p = AtSource i")
    case False
    then have "held (set_src i (s\<lparr>s_srcChan := ms\<rparr>) x) p = held x p" by (cases p) (simp_all add: held_cases)
    then show ?thesis using ownedD(3)[OF assms(1,2) j(1), of p] False by auto
  qed (use j(2) in simp)
  then show "nowhere (set_src i (s\<lparr>s_srcChan := ms\<rparr>) x) j" by (simp add: nowhere_def)
qed

lemma source_work_ok:
  assumes "exchange_ok x" "x_src x i = Some s"
  shows "(\<exists>x'. source_work i x = Inr x' \<and> exchange_ok x') \<or>
    (\<exists>j k ms. s_srcChan s = RegisterSink j # ms \<and> x_snk x j = Some k \<and>
      keyInSrc (k_handler k) \<in> fst ` set (s_sinks s) \<and> source_work i x = Inl (Panic ''repeater register''))"
proof (cases "s_srcChan s")
  case Nil
  then show ?thesis using assms by (simp add: source_work_def)
next
  case (Cons m ms)
  let ?s = "s\<lparr>s_srcChan := ms\<rparr>" and ?x = "set_src i (s\<lparr>s_srcChan := ms\<rparr>) x"
  have "registering (s_srcChan s) = registering [m] @ registering ms" using Cons registering_append[of "[m]" ms] by simp
  then have ok: "exchange_ok ?x" by (intro exchange_ok_fewer[OF assms, where P = "\<lambda>_. True"]) simp_all
  have i: "x_src ?x i = Some ?s" by simp
  show ?thesis
  proof (cases m)
    case (RegisterSink j)
    note taken = taken_nowhere[OF exchange_okD(5)[OF assms(1)] assms(2) Cons[unfolded RegisterSink]]
    obtain k where k: "x_snk x j = Some k" using taken(2) by blast
    then have "x_snk ?x j = Some k" by simp
    from connectSink_ok[OF ok i this taken(1)] show ?thesis
      using assms(2) Cons RegisterSink k by (auto simp: source_work_def Let_def split: if_splits)
  next
    case (DataMessage d)
    with handleRtmpMessage_ok[OF ok i, of d] show ?thesis
      using assms(2) Cons by (simp add: source_work_def Let_def)
  next
    case (UnregisterSink h)
    with deleteSink_ok[OF ok i, of h] show ?thesis
      using assms(2) Cons by (simp add: source_work_def Let_def)
  qed (use ok assms(2) Cons in \<open>simp_all add: source_work_def Let_def\<close>)
qed

lemma cancelSinks_ok:
  assumes "exchange_ok x" "\<forall>e\<in>set ks. \<exists>key. named_sink x key e"
  shows "\<exists>x'. cancelSinks ks x = Inr x' \<and> exchange_ok x'"
  using assms
proof (induction ks arbitrary: x)
  case (Cons e ks)
  obtain n j where e: "e = (n, j)" by (cases e)
  obtain k where "x_snk x j = Some k" using Cons.prems(2) e by (auto simp: named_sink_def)
  moreover have "\<forall>e\<in>set ks. \<exists>key. named_sink (cancel (k_handler k) x) key e" using Cons.prems(2) by (simp add: named_sink_def)
  ultimately show ?case using Cons.IH[of "cancel (k_handler k) x"] Cons.prems(1) e by simp
qed simp

lemma sink_work_ok:
  assumes "exchange_ok x" "sink_work j x = Inr (d, x')"
  shows "exchange_ok x'"
proof -
  obtain k where k: "x_snk x j = Some k" using assms(2) by (auto simp: sink_work_def bindE_eq_Inr the_Inr)
  then show ?thesis using assms exchange_ok_set_snk[OF assms(1) k]
    by (cases "k_msgChan k") (auto simp: sink_work_def)
qed

lemma putData_ok:
  assumes "exchange_ok x" "putData n m x = Inr (e, x')"
  shows "exchange_ok x'"
proof -
  obtain s where s: "x_src x n = Some s" using assms(2) by (auto simp: putData_def bindE_eq_Inr the_Inr)
  have "exchange_ok (set_src n (s\<lparr>s_srcChan := s_srcChan s @ [DataMessage m]\<rparr>) x)"
    by (rule exchange_ok_same_holds[OF assms(1) s]) simp_all
  then show ?thesis using assms s by (auto simp: putData_def split: if_splits)
qed

end
