(* ===== verification/Server.thy ===== *)
theory Server
  imports Request Response Handshake Exchange
begin

text \<open>
  \<open>protocol/rtmp/serverHandler.go\<close>: the handler of one connection of the server, from the handshake
  over the command dialogue to publishing or playing.  The fields of \<open>RtmpHandler\<close> are the state its
  methods run on; an error return keeps what was assigned before it.  \<open>sv_rw\<close> is the connection and
  \<open>sv_pad\<close> the state behind the \<open>exchange.Pad\<close> interface, whose operations are a record.  The function
  \<open>putMsg\<close> obtained from the pad is the number the pad gave it, \<open>None\<close> while the field is nil; a nil
  map is the empty association list.  The object's address and key form the \<open>StreamHandler\<close> it passes
  to the pad.  The packer after a failed call is the packer before it: every caller gives up then.
\<close>

section \<open>Data\<close>

record ConnectCmdParam =
  PublishName :: string
  PublishType :: string

record PlayCmdParam =
  StreamName :: string
  Start_at :: int
  Duration :: int
  Reset :: bool

record 'x Pad =
  pad_OnSourceDetermined :: "StreamHandler \<Rightarrow> 'x \<Rightarrow> ((nat \<times> go_error option) \<times> 'x) res"
  pad_OnSinkDetermined :: "StreamHandler \<Rightarrow> 'x \<Rightarrow> (go_error option \<times> 'x) res"
  pad_OnDestroySource :: "StreamHandler \<Rightarrow> 'x \<Rightarrow> 'x"
  pad_OnDestroySink :: "StreamHandler \<Rightarrow> 'x \<Rightarrow> 'x"
  pad_PutData :: "nat \<Rightarrow> ExData \<Rightarrow> 'x \<Rightarrow> (go_error option \<times> 'x) res"

record 'x RtmpHandler =
  sv_ptr :: nat
  sv_unpacker :: ChunkUnpacker
  sv_packer :: ChunkPacker
  sv_rw :: world
  sv_firstByte :: byte
  sv_connetCmdObj :: "(string \<times> gvalue) list"
  sv_publishCmdObj :: ConnectCmdParam
  sv_playCmdObj :: PlayCmdParam
  sv_appStreamKey :: string
  sv_avInfo :: "(string \<times> gvalue) list"
  sv_videoCodecID :: int
  sv_audioCodecID :: int
  sv_hasReceivedAvMeta :: bool
  sv_functionalStreamId :: u32
  sv_cancelled :: bool
  sv_role :: string
  sv_pad :: 'x
  sv_putMsg :: "nat option"
  sv_status :: int

type_synonym ('x, 'a) handling = "('x RtmpHandler, 'a) st"

abbreviation (input) rtmp_codec_h264 :: int where "rtmp_codec_h264 \<equiv> 7"
abbreviation (input) rtmp_codec_h265 :: int where "rtmp_codec_h265 \<equiv> 0x1c"
abbreviation (input) rtmp_codec_aac :: int where "rtmp_codec_aac \<equiv> 0xa"

abbreviation (input) rtmp_state_init :: int where "rtmp_state_init \<equiv> 1"
abbreviation (input) rtmp_state_hand_success :: int where "rtmp_state_hand_success \<equiv> 3"
abbreviation (input) rtmp_state_connect_send :: int where "rtmp_state_connect_send \<equiv> 10"
abbreviation (input) rtmp_state_connect_success :: int where "rtmp_state_connect_success \<equiv> 11"
abbreviation (input) rtmp_state_connect_fail :: int where "rtmp_state_connect_fail \<equiv> 1019"
abbreviation (input) rtmp_state_crtstm_send :: int where "rtmp_state_crtstm_send \<equiv> 20"
abbreviation (input) rtmp_state_crtstrm_success :: int where "rtmp_state_crtstrm_success \<equiv> 21"
abbreviation (input) rtmp_state_crtstrm_fail :: int where "rtmp_state_crtstrm_fail \<equiv> 1029"
abbreviation (input) rtmp_state_publish_send :: int where "rtmp_state_publish_send \<equiv> 30"
abbreviation (input) rtmp_state_publish_success :: int where "rtmp_state_publish_success \<equiv> 31"
abbreviation (input) rtmp_state_publish_fail :: int where "rtmp_state_publish_fail \<equiv> 1039"
abbreviation (input) rtmp_state_play_send :: int where "rtmp_state_play_send \<equiv> 40"
abbreviation (input) rtmp_state_stream_is_record :: int where "rtmp_state_stream_is_record \<equiv> 41"
abbreviation (input) rtmp_state_stream_begin :: int where "rtmp_state_stream_begin \<equiv> 42"
abbreviation (input) rtmp_state_play_reset :: int where "rtmp_state_play_reset \<equiv> 43"
abbreviation (input) rtmp_state_play_start :: int where "rtmp_state_play_start \<equiv> 44"
abbreviation (input) rtmp_state_play_fail :: int where "rtmp_state_play_fail \<equiv> 1049"
abbreviation (input) rtmp_state_send_fail :: int where "rtmp_state_send_fail \<equiv> 2000"
abbreviation (input) rtmp_state_stop :: int where "rtmp_state_stop \<equiv> 2000"

definition NewRtmpHandler :: "nat \<Rightarrow> world \<Rightarrow> 'x \<Rightarrow> byte \<Rightarrow> 'x RtmpHandler" where
  "NewRtmpHandler ptr rw pad firstByte =
     \<lparr>sv_ptr = ptr, sv_unpacker = NewChunkUnpacker, sv_packer = NewChunkPacker, sv_rw = rw,
      sv_firstByte = firstByte, sv_connetCmdObj = [], sv_publishCmdObj = \<lparr>PublishName = [], PublishType = []\<rparr>,
      sv_playCmdObj = \<lparr>StreamName = [], Start_at = 0, Duration = 0, Reset = False\<rparr>, sv_appStreamKey = [],
      sv_avInfo = [], sv_videoCodecID = - 1, sv_audioCodecID = - 1, sv_hasReceivedAvMeta = False,
      sv_functionalStreamId = 0, sv_cancelled = False, sv_role = [], sv_pad = pad, sv_putMsg = None,
      sv_status = 0\<rparr>"

definition GetAppStreamKey :: "'x RtmpHandler \<Rightarrow> string" where
  "GetAppStreamKey h = sv_appStreamKey h"

definition GetFunctionalStreamId :: "'x RtmpHandler \<Rightarrow> u32" where
  "GetFunctionalStreamId h = sv_functionalStreamId h"

definition as_handler :: "'x RtmpHandler \<Rightarrow> StreamHandler" where
  "as_handler h = \<lparr>h_ptr = sv_ptr h, h_key = GetAppStreamKey h\<rparr>"

section \<open>Writing to the peer\<close>

text \<open>
  \<open>put_message m w\<close>: \<open>MessageToChunk\<close> and \<open>SerializerChunk\<close> into the buffer \<open>w\<close>; \<open>put_new\<close> for a message
  that was just built.  The constructors whose error the code ignores would leave a nil message.
\<close>

definition put_message :: "Message \<Rightarrow> bytes \<Rightarrow> ('x, bytes) handling" where
  "put_message m w h =
     (case bindE (MessageToChunk (sv_packer h) m) (SerializerChunk (sv_packer h)) of
        Inl e \<Rightarrow> (Inl e, h)
      | Inr (b, p) \<Rightarrow> (Inr (w @ b), h\<lparr>sv_packer := p\<rparr>))"

definition put_new :: "Message res \<Rightarrow> bytes \<Rightarrow> ('x, bytes) handling" where
  "put_new mk w = bindIO (liftIO mk) (\<lambda>m. put_message m w)"

definition put_unchecked :: "Message res \<Rightarrow> bytes \<Rightarrow> ('x, bytes) handling" where
  "put_unchecked mk w = (case mk of Inr m \<Rightarrow> put_message m w | Inl e \<Rightarrow> failS nil_panic)"

definition conn_Write :: "bytes \<Rightarrow> ('x, unit) handling" where
  "conn_Write b h = (let (r, w) = rw_Write b (sv_rw h) in (r, h\<lparr>sv_rw := w\<rparr>))"

definition handler_WriteMessage :: "Message \<Rightarrow> ('x, unit) handling" where
  "handler_WriteMessage m =
     bindIO (getS GetFunctionalStreamId) (\<lambda>sid. bindIO (put_message (m\<lparr>StreamID := sid\<rparr>) []) conn_Write)"

section \<open>Messages of the protocol\<close>

definition handleProtocolControlMessaage :: "Message \<Rightarrow> ('x, unit) handling" where
  "handleProtocolControlMessaage m =
     (if MessageType m = TYPE_PRTCTRL_SET_CHUNK_SIZE then
        bindIO (liftIO (U32BE (Payload m))) (\<lambda>chunkSize.
        modS (\<lambda>h. h\<lparr>sv_unpacker := ChunkUnpacker_SetChunkSize (sv_unpacker h) chunkSize\<rparr>))
      else retIO ())"

text \<open>The events are only logged; the two bytes of the event type must be there.\<close>

definition handleUserControlMessage :: "Message \<Rightarrow> ('x, unit) handling" where
  "handleUserControlMessage m = (if length (Payload m) < 2 then failS index_panic else retIO ())"

definition handleSharedObjectMessage :: "Message \<Rightarrow> ('x, unit) handling" where
  "handleSharedObjectMessage m = retIO ()"

definition handleAggregateMessage :: "Message \<Rightarrow> ('x, unit) handling" where
  "handleAggregateMessage m = retIO ()"

section \<open>Commands\<close>

text \<open>
  The loop \<open>for i := 0; cont(i); i++\<close> over the arguments of a command: the end of the input leaves it,
  any other error is returned by the handler as \<open>wrap\<close> makes it.  \<open>body\<close> is the \<open>switch i\<close>, with the
  local variables of the handler threaded through it.
\<close>

function args_loop :: "(nat \<Rightarrow> bool) \<Rightarrow> (go_error \<Rightarrow> go_error) \<Rightarrow> (nat \<Rightarrow> gvalue \<Rightarrow> 'a \<Rightarrow> ('s, 'a) st) \<Rightarrow>
    nat \<Rightarrow> bytes \<Rightarrow> 'a \<Rightarrow> ('s, 'a) st" where
  "args_loop cont wrap body i r a s =
     (if \<not> cont i then (Inr a, s)
      else case ReadValue r of
        Inl e \<Rightarrow> if e = EOF then (Inr a, s) else (Inl (wrap e), s)
      | Inr (v, r') \<Rightarrow>
          (case body i v a s of
             (Inl e, s') \<Rightarrow> (Inl e, s')
           | (Inr a', s') \<Rightarrow> args_loop cont wrap body (Suc i) r' a' s'))"
  by pat_completeness auto
termination
  by (relation "measure (\<lambda>(cont, wrap, body, i, r, a, s). length r)") (auto dest: ReadValue_shrinks)

declare args_loop.simps [simp del]

definition connect_arg :: "nat \<Rightarrow> gvalue \<Rightarrow> unit \<Rightarrow> ('x, unit) handling" where
  "connect_arg i v _ =
     (if i = 0 then (case v of VNumber transactionId \<Rightarrow> retIO () | _ \<Rightarrow> failS (Panic ''transactionId not number''))
      else (case v of VObject cmdObj \<Rightarrow> modS (\<lambda>h. h\<lparr>sv_connetCmdObj := cmdObj\<rparr>)
            | _ \<Rightarrow> failS (Panic ''cmd object not map'')))"

text \<open>
  \<open>handleConnectCommand\<close>: acknowledgement window, peer bandwidth, chunk size 1024 (in force for what
  follows) and the success reply, in one write.  The deferred function restores the chunk size when
  the function returns an error after it was set.
\<close>

definition handleConnectCommand :: "bytes \<Rightarrow> ('x, unit) handling" where
  "handleConnectCommand r =
     bindIO (getS sv_status) (\<lambda>status.
     if status \<noteq> rtmp_state_hand_success then failS (Panic ''handle connect in wrong state'') else
     bindIO (args_loop (\<lambda>i. i < 2) (\<lambda>e. Errorf ''handleconnect amf:%s'') connect_arg 0 r ()) (\<lambda>_.
     bindIO (put_new (NewAckMessage 2500000) []) (\<lambda>w.
     bindIO (put_new (NewSetPeerBandwidthMessage 2500000 2) w) (\<lambda>w.
     bindIO (getS (\<lambda>h. GetChunkSize (sv_packer h))) (\<lambda>bakChunkSize.
     bindIO (errS
       (bindIO (modS (\<lambda>h. h\<lparr>sv_packer := ChunkPacker_SetChunkSize (sv_packer h) 1024\<rparr>)) (\<lambda>_.
        bindIO (getS (\<lambda>h. GetChunkSize (sv_packer h))) (\<lambda>sz.
        bindIO (put_new (NewSetChunkSizeMessage sz) w) (\<lambda>w.
        bindIO (put_new NewConnectSuccessMessage w) conn_Write))))) (\<lambda>err.
     if err \<noteq> None then
       bindIO (modS (\<lambda>h. h\<lparr>sv_packer := ChunkPacker_SetChunkSize (sv_packer h) bakChunkSize\<rparr>)) (\<lambda>_. retErr err)
     else retIO ()))))))"

definition createStream_arg :: "nat \<Rightarrow> gvalue \<Rightarrow> int \<Rightarrow> ('x, int) handling" where
  "createStream_arg i v transactionId =
     (case v of VNumber transId \<Rightarrow> retIO (float_trunc transId) | _ \<Rightarrow> retIO transactionId)"

definition handleCreateStreamCommand :: "bytes \<Rightarrow> ('x, unit) handling" where
  "handleCreateStreamCommand r =
     bindIO (getS sv_status) (\<lambda>status.
     if status \<noteq> rtmp_state_connect_success then failS (Panic ''handle createstream in wrong state'') else
     bindIO (args_loop (\<lambda>i. True) (\<lambda>e. e) createStream_arg 0 r 0) (\<lambda>transactionId.
     bindIO (put_new (NewCreateStreamSuccessMessage transactionId) []) conn_Write))"

text \<open>\<open>h.connetCmdObj["app"].(string) + "-" + str\<close>\<close>

definition stream_key :: "string \<Rightarrow> ('x, string) handling" where
  "stream_key str h =
     (case map_of (sv_connetCmdObj h) ''app'' of
        Some (VString app) \<Rightarrow> (Inr (app @ ''-'' @ str), h)
      | _ \<Rightarrow> (Inl conversion_panic, h))"

definition publish_arg :: "nat \<Rightarrow> gvalue \<Rightarrow> unit \<Rightarrow> ('x, unit) handling" where
  "publish_arg i v _ =
     (if i = 0 then (case v of VNumber transId \<Rightarrow> retIO () | _ \<Rightarrow> failS (Panic ''transactionId not number''))
      else if i = 2 then
        (case v of
           VString str \<Rightarrow>
             bindIO (modS (\<lambda>h. h\<lparr>sv_publishCmdObj := (sv_publishCmdObj h)\<lparr>PublishName := str\<rparr>\<rparr>)) (\<lambda>_.
             bindIO (stream_key str) (\<lambda>key. modS (\<lambda>h. h\<lparr>sv_appStreamKey := key\<rparr>)))
         | _ \<Rightarrow> failS (Panic ''publish name not strig''))
      else if i = 3 then
        (case v of
           VString str \<Rightarrow> modS (\<lambda>h. h\<lparr>sv_publishCmdObj := (sv_publishCmdObj h)\<lparr>PublishType := str\<rparr>\<rparr>)
         | _ \<Rightarrow> failS (Panic ''publish type not strig''))
      else retIO ())"

definition handlePublishCommand :: "bytes \<Rightarrow> ('x, unit) handling" where
  "handlePublishCommand r =
     bindIO (args_loop (\<lambda>i. i < 4) (\<lambda>e. Errorf ''handlePublish amf:%s'') publish_arg 0 r ()) (\<lambda>_.
     bindIO (put_new NewPublishSuccessMessage []) conn_Write)"

definition play_arg :: "nat \<Rightarrow> gvalue \<Rightarrow> unit \<Rightarrow> ('x, unit) handling" where
  "play_arg i v _ =
     (if i = 0 then (case v of VNumber transId \<Rightarrow> retIO () | _ \<Rightarrow> failS (Panic ''transactionId not number''))
      else if i = 2 then
        (case v of
           VString str \<Rightarrow>
             bindIO (modS (\<lambda>h. h\<lparr>sv_playCmdObj := (sv_playCmdObj h)\<lparr>StreamName := str\<rparr>\<rparr>)) (\<lambda>_.
             bindIO (stream_key str) (\<lambda>key. modS (\<lambda>h. h\<lparr>sv_appStreamKey := key\<rparr>)))
         | _ \<Rightarrow> failS (Panic ''stream name not strig''))
      else retIO ())"

definition handlePlayCommand :: "bytes \<Rightarrow> Message \<Rightarrow> ('x, unit) handling" where
  "handlePlayCommand r m =
     bindIO (args_loop (\<lambda>i. True) (\<lambda>e. e) play_arg 0 r ()) (\<lambda>_.
     bindIO (modS (\<lambda>h. h\<lparr>sv_functionalStreamId := StreamID m\<rparr>)) (\<lambda>_.
     bindIO (getS sv_functionalStreamId) (\<lambda>sid.
     bindIO (put_new (NewUserControlCommandStreamIsRecorded sid) []) (\<lambda>w.
     bindIO (put_new (NewUserControlCommandStreamBegin (StreamID m)) w) (\<lambda>w.
     bindIO (put_unchecked (NewPlayResetMessage (StreamID m)) w) (\<lambda>w.
     bindIO (conn_Write w) (\<lambda>_.
     bindIO (put_unchecked (NewPlayStartMessage (StreamID m)) []) (\<lambda>w.
     bindIO (conn_Write w) (\<lambda>_.
     bindIO (put_unchecked (NewDataStartMessage (StreamID m)) []) (\<lambda>w.
     bindIO (conn_Write w) (\<lambda>_.
     bindIO (put_unchecked (NewPlayPublishNotifyMessage (StreamID m)) []) conn_Write)))))))))))"

section \<open>Media\<close>

definition nth_byte :: "bytes \<Rightarrow> nat \<Rightarrow> byte res" where
  "nth_byte b i = (if i < length b then Inr (b ! i) else Inl index_panic)"

text \<open>\<open>rtmpMessageToExData\<close>, up to the call of \<open>putMsg\<close>.\<close>

definition toExData :: "Message \<Rightarrow> ExData res" where
  "toExData m =
     (let d = (\<lambda>t f. \<lparr>ex_Timestamp = ucast (Timestamp m), ex_DataType = t, ex_AvFormat = f,
                ex_OriginProtocol = ProtocolRTMP, ex_Payload = Payload m\<rparr>) in
      if MessageType m = 8 then
        bindE (nth_byte (Payload m) 1) (\<lambda>b1.
        Inr (d (if b1 = 0 then DataTypeAudioConfig else DataTypeAudio) AvFormatAAC))
      else if MessageType m = 9 then
        bindE (nth_byte (Payload m) 0) (\<lambda>b0.
        bindE (nth_byte (Payload m) 1) (\<lambda>b1.
        let isKeyFrame = (b0 AND 0xF0 = 0x10) in
        Inr (d (if b1 = 0 then DataTypeVideoConfig
                else if isKeyFrame then DataTypeVideoKeyFrame else DataTypeVideoNonKeyFrame)
              (if b0 AND 0x0F = 0x07 then AvFormatAVC else AvFormatHEVC))))
      else if MessageType m = 15 then Inr (d DataTypeDataAMF3 AvFormatData)
      else if MessageType m = 18 then Inr (d DataTypeDataAMF0 AvFormatData)
      else Inl (Panic ''no such message type''))"

definition call_putMsg :: "'x Pad \<Rightarrow> ExData \<Rightarrow> ('x, unit) handling" where
  "call_putMsg P d h =
     (case sv_putMsg h of
        None \<Rightarrow> (Inl nil_panic, h)
      | Some n \<Rightarrow>
          (case pad_PutData P n d (sv_pad h) of
             Inl e \<Rightarrow> (Inl e, h)
           | Inr (err, x) \<Rightarrow> retErr err (h\<lparr>sv_pad := x\<rparr>)))"

definition rtmpMessageToExData :: "'x Pad \<Rightarrow> Message \<Rightarrow> ('x, unit) handling" where
  "rtmpMessageToExData P m = bindIO (liftIO (toExData m)) (call_putMsg P)"

definition handleVideoMessage :: "'x Pad \<Rightarrow> Message \<Rightarrow> ('x, unit) handling" where
  "handleVideoMessage P m =
     bindIO (liftIO (nth_byte (Payload m) 0)) (\<lambda>b0.
     let isKeyFrame = drop_bit 4 b0; vCodecId = uint (b0 AND 0x0F) in
     bindIO (getS sv_videoCodecID) (\<lambda>codec.
     if codec \<noteq> - 1 \<and> codec \<noteq> vCodecId then failS (Errorf ''video codec id not same:%d %d'') else
     bindIO (liftIO (nth_byte (Payload m) 1)) (\<lambda>b1.
     if b1 = 0 \<and> isKeyFrame \<noteq> 1 then failS (Errorf ''wrong vsequence header'')
     else rtmpMessageToExData P m)))"

definition handleAudioMessage :: "'x Pad \<Rightarrow> Message \<Rightarrow> ('x, unit) handling" where
  "handleAudioMessage P m =
     bindIO (liftIO (nth_byte (Payload m) 0)) (\<lambda>b0.
     let aCodecId = uint (drop_bit 4 (b0 AND 0xF0)) in
     bindIO (getS sv_audioCodecID) (\<lambda>codec.
     if codec \<noteq> - 1 \<and> codec \<noteq> aCodecId then failS (Errorf ''video codec id not same:%d %d'')
     else rtmpMessageToExData P m))"

text \<open>
  The metadata of a stream: an object whose codec ids, where given, must be supported.  A video codec
  id that is not a number panics, an audio codec id that is not a number counts as not given.
\<close>

definition videoCodec_of :: "(string \<times> gvalue) list \<Rightarrow> int \<Rightarrow> int res" where
  "videoCodec_of avinfo vCodecID =
     (case map_of avinfo ''videocodecid'' of
        None \<Rightarrow> Inr vCodecID
      | Some (VNumber codecid) \<Rightarrow> Inr (float_trunc codecid)
      | Some _ \<Rightarrow> Inl (Panic ''videocodecid not float64''))"

definition audioCodec_of :: "(string \<times> gvalue) list \<Rightarrow> int \<Rightarrow> int" where
  "audioCodec_of avinfo aCodecID =
     (case map_of avinfo ''audiocodecid'' of Some (VNumber codecid) \<Rightarrow> float_trunc codecid | _ \<Rightarrow> aCodecID)"

definition setDataFrame_arg :: "nat \<Rightarrow> gvalue \<Rightarrow> unit \<Rightarrow> ('x, unit) handling" where
  "setDataFrame_arg i v _ =
     (if i = 0 then retIO () else
      case v of
        VObject avinfo \<Rightarrow>
          bindIO (modS (\<lambda>h. h\<lparr>sv_avInfo := avinfo\<rparr>)) (\<lambda>_.
          bindIO (getS sv_videoCodecID) (\<lambda>v0.
          bindIO (getS sv_audioCodecID) (\<lambda>a0.
          bindIO (liftIO (videoCodec_of avinfo v0)) (\<lambda>vCodecID.
          if vCodecID \<noteq> - 1 \<and> vCodecID \<noteq> rtmp_codec_h264 \<and> vCodecID \<noteq> rtmp_codec_h265
          then failS (Errorf ''video not support codecid:%d'') else
          let aCodecID = audioCodec_of avinfo a0 in
          if aCodecID \<noteq> - 1 \<and> aCodecID \<noteq> rtmp_codec_aac
          then failS (Errorf ''audio not support codecid:%d'') else
          modS (\<lambda>h. h\<lparr>sv_audioCodecID := aCodecID, sv_videoCodecID := vCodecID, sv_hasReceivedAvMeta := True\<rparr>)))))
      | _ \<Rightarrow> failS (Panic ''amf.object to amf.Object fail''))"

definition handleSetDataFrame :: "bytes \<Rightarrow> ('x, unit) handling" where
  "handleSetDataFrame r = args_loop (\<lambda>i. i < 2) (\<lambda>e. Errorf ''handleSetDataFrame amf:%s'') setDataFrame_arg 0 r ()"

text \<open>A data message that does not parse, or of AMF3 (15), is dropped without an error.\<close>

definition handleDataMessage :: "'x Pad \<Rightarrow> Message \<Rightarrow> ('x, unit) handling" where
  "handleDataMessage P m =
     (if MessageType m = 18 then
        (case ReadValue (Payload m) of
           Inr (v, r) \<Rightarrow>
             if v = VString ''@setDataFrame''
             then bindIO (handleSetDataFrame r) (\<lambda>_. rtmpMessageToExData P m)
             else retIO ()
         | Inl e \<Rightarrow> retIO ())
      else retIO ())"

section \<open>The command dialogue\<close>

definition set_status :: "int \<Rightarrow> ('x, unit) handling" where
  "set_status s = modS (\<lambda>h. h\<lparr>sv_status := s\<rparr>)"

definition OnSource :: "'x Pad \<Rightarrow> ('x, go_error option) handling" where
  "OnSource P h =
     (case pad_OnSourceDetermined P (as_handler h) (sv_pad h) of
        Inl e \<Rightarrow> (Inl e, h)
      | Inr ((n, err), x) \<Rightarrow> (Inr err, h\<lparr>sv_putMsg := Some n, sv_role := ''source'', sv_pad := x\<rparr>))"

definition OnSink :: "'x Pad \<Rightarrow> ('x, go_error option) handling" where
  "OnSink P h =
     (case pad_OnSinkDetermined P (as_handler h) (sv_pad h) of
        Inl e \<Rightarrow> (Inl e, h)
      | Inr (err, x) \<Rightarrow> (Inr err, h\<lparr>sv_role := ''sink'', sv_pad := x\<rparr>))"

text \<open>The role is assigned whenever the pad was asked; the error of connect is not returned.\<close>

definition handleCommandMessage :: "'x Pad \<Rightarrow> Message \<Rightarrow> ('x, unit) handling" where
  "handleCommandMessage P m =
     (if MessageType m = 20 then
        bindIO (liftIO (ReadValue (Payload m))) (\<lambda>(v, r).
        if v = VString ''connect'' then
          bindIO (errS (handleConnectCommand r)) (\<lambda>err.
          set_status (if err = None then rtmp_state_connect_success else rtmp_state_connect_fail))
        else if v = VString ''createStream'' then
          bindIO (errS (handleCreateStreamCommand r)) (\<lambda>err.
          bindIO (set_status (if err = None then rtmp_state_crtstrm_success else rtmp_state_crtstrm_fail)) (\<lambda>_.
          retErr err))
        else if v = VString ''publish'' then
          bindIO (errS (handlePublishCommand r)) (\<lambda>err.
          bindIO (if err = None then OnSource P else retIO err) (\<lambda>err.
          bindIO (set_status (if err = None then rtmp_state_publish_success else rtmp_state_publish_fail)) (\<lambda>_.
          retErr err)))
        else if v = VString ''play'' then
          bindIO (errS (handlePlayCommand r m)) (\<lambda>err.
          bindIO (if err = None then OnSink P else retIO err) (\<lambda>err.
          bindIO (set_status (if err = None then rtmp_state_play_start else rtmp_state_play_fail)) (\<lambda>_.
          retErr err)))
        else retIO ())
      else retIO ())"

section \<open>The life of a connection\<close>

text \<open>The body of the loop of \<open>Start\<close> on a message, the loop, and \<open>Start\<close> with its deferred \<open>stop\<close>.\<close>

definition handle_message :: "'x Pad \<Rightarrow> Message \<Rightarrow> ('x, unit) handling" where
  "handle_message P msg =
     (let t = MessageType msg in
      if t \<in> {1, 2, 3, 5, 6} then handleProtocolControlMessaage msg
      else if t = 4 then handleUserControlMessage msg
      else if t = 8 then handleAudioMessage P msg
      else if t = 9 then handleVideoMessage P msg
      else if t \<in> {15, 18} then handleDataMessage P msg
      else if t \<in> {17, 20} then handleCommandMessage P msg
      else if t \<in> {16, 19} then handleSharedObjectMessage msg
      else if t = 22 then handleAggregateMessage msg
      else retIO ())"

text \<open>The input of the connection is the argument \<open>r\<close>; the handlers only write to it.\<close>

function serve :: "'x Pad \<Rightarrow> bytes \<Rightarrow> ('x, unit) handling" where
  "serve P r h =
     (case getRtmpMessage (sv_unpacker h) r of
        Inl e \<Rightarrow> (Inl e, h)
      | Inr (msg, u, r') \<Rightarrow>
          (case handle_message P msg (h\<lparr>sv_unpacker := u, sv_rw := (sv_rw h)\<lparr>w_in := r'\<rparr>\<rparr>) of
             (Inl e, h') \<Rightarrow> (Inl e, h')
           | (Inr _, h') \<Rightarrow> serve P r' h'))"
  by pat_completeness auto
termination
  by (relation "measure (\<lambda>(P, r, h). length r)") (auto dest: getRtmpMessage_Inr)

declare serve.simps [simp del]

definition handler_Cancel :: "'x RtmpHandler \<Rightarrow> 'x RtmpHandler" where
  "handler_Cancel h = h\<lparr>sv_cancelled := True\<rparr>"

definition stop :: "'x Pad \<Rightarrow> 'x RtmpHandler \<Rightarrow> 'x RtmpHandler" where
  "stop P h =
     (let h = (if sv_role h = ''source'' then h\<lparr>sv_pad := pad_OnDestroySource P (as_handler h) (sv_pad h)\<rparr>
               else if sv_role h = ''sink'' then h\<lparr>sv_pad := pad_OnDestroySink P (as_handler h) (sv_pad h)\<rparr>
               else h) in
      (handler_Cancel h)\<lparr>sv_status := rtmp_state_stop\<rparr>)"

definition server_Start :: "'x Pad \<Rightarrow> ('x, unit) handling" where
  "server_Start P h =
     (case handshakeServer (Some (sv_firstByte h)) (sv_rw h) of
        (Inl e, w) \<Rightarrow> (Inl e, h\<lparr>sv_rw := w\<rparr>)
      | (Inr _, w) \<Rightarrow>
          (let h = h\<lparr>sv_rw := w, sv_status := rtmp_state_hand_success\<rparr>; (r, h') = serve P (w_in w) h in
           (r, stop P h')))"

section \<open>Sending to a player\<close>

definition message_type_of :: "byte \<Rightarrow> byte res" where
  "message_type_of t =
     (if t \<in> {DataTypeAudio, DataTypeAudioConfig} then Inr TYPE_AUDIO
      else if t \<in> {DataTypeVideo, DataTypeVideoKeyFrame, DataTypeVideoNonKeyFrame, DataTypeVideoConfig}
        then Inr TYPE_VIDEO
      else if t = DataTypeDataAMF0 then Inr TYPE_CMDMSG_AMF0
      else if t = DataTypeDataAMF3 then Inr TYPE_CMDMSG_AMF3
      else Inl (Panic ''no such data type''))"

definition handler_WriteData :: "ExData \<Rightarrow> ('x, unit) handling" where
  "handler_WriteData d =
     bindIO (liftIO (message_type_of (ex_DataType d))) (\<lambda>t.
     bindIO (put_message \<lparr>MessageType = t, Timestamp = ucast (ex_Timestamp d), StreamID = 0,
       Payload = ex_Payload d\<rparr> []) conn_Write)"

section \<open>What the handler needs of the pad\<close>

text \<open>
  The contract of the \<open>exchange.Pad\<close> interface: \<open>settled x\<close> is a state in which it owes nothing to
  earlier calls, \<open>free k x\<close> that the key \<open>k\<close> has no source, \<open>absent h x\<close> that the handler \<open>h\<close> is not
  registered as a sink, \<open>joined h x\<close> that it is registered as a sink of its key.  A source for a free key
  is accepted and takes the key, another one is refused and changes nothing; a sink is accepted, and then
  registered, whether there is a source or not.
\<close>

locale pad =
  fixes P :: "'x Pad"
    and settled :: "'x \<Rightarrow> bool"
    and free :: "string \<Rightarrow> 'x \<Rightarrow> bool"
    and absent :: "StreamHandler \<Rightarrow> 'x \<Rightarrow> bool"
    and joined :: "StreamHandler \<Rightarrow> 'x \<Rightarrow> bool"
  assumes source_accepted: "settled x \<Longrightarrow> free (h_key h) x \<Longrightarrow>
      \<exists>n x'. pad_OnSourceDetermined P h x = Inr ((n, None), x') \<and> settled x' \<and> (\<forall>k. free k x' \<longleftrightarrow> free k x \<and> k \<noteq> h_key h)"
    and source_refused: "settled x \<Longrightarrow> \<not> free (h_key h) x \<Longrightarrow>
      \<exists>n e x'. pad_OnSourceDetermined P h x = Inr ((n, Some e), x') \<and> \<not> is_fault e \<and> settled x' \<and> (\<forall>k. free k x' \<longleftrightarrow> free k x)"
    and sink_accepted: "settled x \<Longrightarrow> absent h x \<Longrightarrow>
      \<exists>x'. pad_OnSinkDetermined P h x = Inr (None, x') \<and> settled x' \<and> joined h x' \<and> (\<forall>k. free k x' \<longleftrightarrow> free k x)"

end
