(* ===== verification/Client.thy ===== *)
theory Client
  imports Server
begin

text \<open>
  \<open>protocol/rtmp/clientHandler.go\<close>: the client of a connection, publishing or playing.  Its fields are
  the state of its methods.  \<open>Play\<close> is an interface the user of the client implements: the model keeps
  the calls of its callbacks in order, and whether there is a player at all.  \<open>connectResult\<close> is the list
  of the values sent on that channel.  \<open>txMsgChan\<close> has no buffer, so the messages given to
  \<open>SendAudioMessage\<close> and \<open>SendVideoMessage\<close> are the argument of the sending loop.  The context is not
  cancelled.
\<close>

section \<open>Data\<close>

abbreviation (input) ROLE_PUBLISH :: string where "ROLE_PUBLISH \<equiv> ''publish''"
abbreviation (input) ROLE_PLAY :: string where "ROLE_PLAY \<equiv> ''play''"

datatype play_event =
    OnError go_error
  | OnAudioMessage Message
  | OnVideoMessage Message
  | OnDataMessage Message

record RtmpClientHandler =
  cl_unpacker :: ChunkUnpacker
  cl_packer :: ChunkPacker
  cl_rw :: world
  cl_connectResult :: "bool list"
  cl_rtmpUrl :: RtmpUrl
  cl_status :: int
  cl_transactionId :: u32
  cl_functionalStreamId :: u32
  cl_player :: "play_event list option"
  cl_role :: string

type_synonym 'a client = "(RtmpClientHandler, 'a) st"

definition NewRtmpClientHandler :: "world \<Rightarrow> string \<Rightarrow> string \<Rightarrow> play_event list option \<Rightarrow> RtmpClientHandler res" where
  "NewRtmpClientHandler rw url role player =
     failIf (role \<noteq> ROLE_PLAY \<and> role \<noteq> ROLE_PUBLISH) (Errorf ''no such role:%s'')
     (failIf (role = ROLE_PLAY \<and> player = None) (Errorf ''player need Play interface'')
     (bindE (parseRtmpUrl url) (\<lambda>rtmpUrl.
      Inr \<lparr>cl_unpacker = NewChunkUnpacker, cl_packer = NewChunkPacker, cl_rw = rw, cl_connectResult = [],
           cl_rtmpUrl = rtmpUrl, cl_status = rtmp_state_init, cl_transactionId = 1, cl_functionalStreamId = 0,
           cl_player = player, cl_role = role\<rparr>)))"

definition call_player :: "play_event \<Rightarrow> unit client" where
  "call_player e h =
     (case cl_player h of
        None \<Rightarrow> (Inl nil_panic, h)
      | Some es \<Rightarrow> (Inr (), h\<lparr>cl_player := Some (es @ [e])\<rparr>))"

definition client_status :: "int \<Rightarrow> unit client" where
  "client_status s = modS (\<lambda>h. h\<lparr>cl_status := s\<rparr>)"

definition next_transaction :: "unit client" where
  "next_transaction = modS (\<lambda>h. h\<lparr>cl_transactionId := cl_transactionId h + 1\<rparr>)"

definition client_Write :: "bytes \<Rightarrow> unit client" where
  "client_Write b h = (let (r, w) = rw_Write b (cl_rw h) in (r, h\<lparr>cl_rw := w\<rparr>))"

text \<open>A call of a \<open>send\<close> function of \<open>request.go\<close> with the connection and the packer of the handler.\<close>

definition client_send :: "(ChunkPacker \<Rightarrow> (bytes \<times> ChunkPacker) res) \<Rightarrow> unit client" where
  "client_send f h =
     (case f (cl_packer h) of
        Inl e \<Rightarrow> (Inl e, h)
      | Inr (b, p) \<Rightarrow> client_Write b (h\<lparr>cl_packer := p\<rparr>))"

definition client_WriteMessage :: "Message \<Rightarrow> unit client" where
  "client_WriteMessage m = client_send (\<lambda>p. bindE (MessageToChunk p m) (SerializerChunk p))"

section \<open>Messages of the protocol\<close>

definition client_handleProtocolControlMessaage :: "Message \<Rightarrow> unit client" where
  "client_handleProtocolControlMessaage m =
     (if MessageType m = TYPE_PRTCTRL_SET_CHUNK_SIZE then
        bindIO (liftIO (U32BE (Payload m))) (\<lambda>chunkSize.
        modS (\<lambda>h. h\<lparr>cl_unpacker := ChunkUnpacker_SetChunkSize (cl_unpacker h) chunkSize\<rparr>))
      else retIO ())"

definition client_handleUserControlMessage :: "Message \<Rightarrow> unit client" where
  "client_handleUserControlMessage m =
     bindIO (liftIO (nth_byte (Payload m) 0)) (\<lambda>b0.
     bindIO (liftIO (nth_byte (Payload m) 1)) (\<lambda>b1.
     let eventType = unat b0 * 256 + unat b1 in
     bindIO (getS cl_status) (\<lambda>status.
     if eventType = 0 then
       if status \<noteq> rtmp_state_stream_is_record \<and> status \<noteq> rtmp_state_play_send
       then failS (Errorf ''in wrong state:%d'') else client_status rtmp_state_stream_begin
     else if eventType = 4 then
       if status \<noteq> rtmp_state_play_send then failS (Errorf ''not int play_send state'')
       else client_status rtmp_state_stream_is_record
     else retIO ())))"

definition client_handleSharedObjectMessage :: "Message \<Rightarrow> unit client" where
  "client_handleSharedObjectMessage m = retIO ()"

definition client_handleAggregateMessage :: "Message \<Rightarrow> unit client" where
  "client_handleAggregateMessage m = retIO ()"

section \<open>Replies to play\<close>

text \<open>
  The part the two reply handlers share: an \<open>onStatus\<close> command of transaction 0 without command object
  and with a status object; the result is the code in it, if there is one.  A floating point number
  equals 0 when it is either of the two zeros.
\<close>

definition is_zero :: "u64 \<Rightarrow> bool" where
  "is_zero f \<longleftrightarrow> f = 0 \<or> f = 0x8000000000000000"

definition play_code :: "Message \<Rightarrow> string option res" where
  "play_code m =
     bindE (ReadValue (Payload m)) (\<lambda>(v, r).
     failIf (v \<noteq> VString ''onStatus'') (Errorf ''play wrong response:%s'')
     (bindE (ReadValue r) (\<lambda>(v, r).
      case v of
        VNumber transId \<Rightarrow>
          failIf (\<not> is_zero transId) (Errorf ''play transid must be zero'')
          (bindE (ReadValue r) (\<lambda>(v, r).
           failIf (v \<noteq> VNil) (Errorf ''play must be nil'')
           (bindE (ReadValue r) (\<lambda>(v, r).
            case v of
              VObject objmap \<Rightarrow>
                (case map_of objmap ''code'' of
                   None \<Rightarrow> Inr None
                 | Some (VString code) \<Rightarrow> Inr (Some code)
                 | Some _ \<Rightarrow> Inl conversion_panic)
            | _ \<Rightarrow> Inl (Errorf ''play wrong response'')))))
      | _ \<Rightarrow> Inl (Errorf ''play wrong transid''))))"

definition handlePlayResponseReset :: "Message \<Rightarrow> unit res" where
  "handlePlayResponseReset m =
     bindE (play_code m) (\<lambda>code.
     case code of
       None \<Rightarrow> Inr ()
     | Some c \<Rightarrow> if c \<noteq> ''NetStream.Play.Reset'' then Inl (Errorf (''play fail:'' @ c)) else Inr ())"

definition handlePlayResponseStart :: "Message \<Rightarrow> int res" where
  "handlePlayResponseStart m =
     bindE (play_code m) (\<lambda>code.
     case code of
       None \<Rightarrow> Inr 0
     | Some c \<Rightarrow> if c \<noteq> ''NetStream.Play.Start'' then Inr 0 else Inr rtmp_state_play_start)"

section \<open>The command dialogue\<close>

text \<open>The cases of the \<open>switch h.status\<close> of \<open>handleCommandMessage\<close>.\<close>

definition after_connect :: "Message \<Rightarrow> unit client" where
  "after_connect m =
     bindIO (liftIO (handleConnectResponse m)) (\<lambda>_.
     bindIO (client_status rtmp_state_connect_success) (\<lambda>_.
     bindIO (modS (\<lambda>h. h\<lparr>cl_packer := ChunkPacker_SetChunkSize (cl_packer h) 1024\<rparr>)) (\<lambda>_.
     bindIO (client_send (\<lambda>p. sendSetChunkMessage p 1024)) (\<lambda>_.
     bindIO (getS cl_role) (\<lambda>role.
     bindIO (getS (\<lambda>h. streamName (cl_rtmpUrl h))) (\<lambda>name.
     bindIO
       (if role = ROLE_PLAY then client_send (\<lambda>p. sendWidowAckMessage p 2500000)
        else
          bindIO (getS cl_transactionId) (\<lambda>t.
          bindIO (client_send (\<lambda>p. sendReleaseStreamMessage p t name)) (\<lambda>_.
          bindIO next_transaction (\<lambda>_.
          bindIO (getS cl_transactionId) (\<lambda>t.
          bindIO (client_send (\<lambda>p. sendFCPublishMessage p t name)) (\<lambda>_.
          next_transaction)))))) (\<lambda>_.
     bindIO (getS cl_transactionId) (\<lambda>t.
     bindIO (client_send (\<lambda>p. sendCreateStreamMessage p t None)) (\<lambda>_.
     bindIO next_transaction (\<lambda>_.
     client_status rtmp_state_crtstm_send))))))))))"

definition after_createStream :: "Message \<Rightarrow> unit client" where
  "after_createStream m h =
     (case handleCreateStreamResponse m 0 of
        Inl e \<Rightarrow> if e = error_Undefined then (Inr (), h\<lparr>cl_functionalStreamId := 0\<rparr>)
                 else (Inl e, h\<lparr>cl_functionalStreamId := 0\<rparr>)
      | Inr sid \<Rightarrow>
          bindIO (client_status rtmp_state_crtstrm_success) (\<lambda>_.
          bindIO (getS cl_role) (\<lambda>role.
          bindIO (getS (\<lambda>h. streamName (cl_rtmpUrl h))) (\<lambda>name.
          if role = ROLE_PLAY then
            bindIO (getS cl_transactionId) (\<lambda>t.
            bindIO (client_send (\<lambda>p. sendGetStreamLengthMessage p t name)) (\<lambda>_.
            bindIO next_transaction (\<lambda>_.
            bindIO (getS cl_transactionId) (\<lambda>t.
            bindIO (client_send (\<lambda>p. sendPlayMessage p t (- 2000) name)) (\<lambda>_.
            bindIO next_transaction (\<lambda>_.
            bindIO (getS cl_transactionId) (\<lambda>t.
            bindIO (client_send (\<lambda>p. sendSetBufferLengthMessage p t 1000)) (\<lambda>_.
            bindIO next_transaction (\<lambda>_.
            client_status rtmp_state_play_send)))))))))
          else
            bindIO (getS cl_transactionId) (\<lambda>t.
            bindIO (getS (\<lambda>h. appName (cl_rtmpUrl h))) (\<lambda>app.
            bindIO (client_send (\<lambda>p. sendPublishMessage p t app name)) (\<lambda>_.
            bindIO next_transaction (\<lambda>_.
            client_status rtmp_state_publish_send)))))))
          (h\<lparr>cl_functionalStreamId := sid\<rparr>))"

definition in_play_reset :: "Message \<Rightarrow> unit client" where
  "in_play_reset m =
     bindIO (getS cl_role) (\<lambda>role.
     if role \<noteq> ROLE_PLAY then failS (Errorf ''state play_reset role not math:%s'') else
     bindIO (liftIO (handlePlayResponseStart m)) (\<lambda>status.
     if status \<noteq> 0 then client_status status else retIO ()))"

definition in_stream_begin :: "Message \<Rightarrow> unit client" where
  "in_stream_begin m =
     bindIO (getS cl_role) (\<lambda>role.
     if role \<noteq> ROLE_PLAY then failS (Errorf ''state stream_begin role not math:%s'') else
     bindIO (errS (liftIO (handlePlayResponseReset m))) (\<lambda>err.
     bindIO (client_status rtmp_state_play_reset) (\<lambda>_.
     in_play_reset m)))"

definition in_publish_send :: "Message \<Rightarrow> unit client" where
  "in_publish_send m =
     bindIO (getS cl_role) (\<lambda>role.
     if role \<noteq> ROLE_PUBLISH then failS (Errorf ''state publish_send role not math:%s'') else
     bindIO (liftIO (handlePublishResponse m)) (\<lambda>_.
     client_status rtmp_state_publish_success))"

definition client_handleCommandMessage :: "Message \<Rightarrow> unit client" where
  "client_handleCommandMessage m =
     (if MessageType m \<in> {17, 20} then
        bindIO (getS cl_status) (\<lambda>status.
        if status = rtmp_state_connect_send then after_connect m
        else if status = rtmp_state_crtstm_send then after_createStream m
        else if status = rtmp_state_stream_begin then in_stream_begin m
        else if status = rtmp_state_play_reset then in_play_reset m
        else if status = rtmp_state_publish_send then in_publish_send m
        else if status = rtmp_state_publish_success then
          bindIO (getS cl_role) (\<lambda>role.
          if role \<noteq> ROLE_PUBLISH then failS (Errorf ''state publish_success role not math:%s'') else retIO ())
        else retIO ())
      else retIO ())"

definition handleReceiveMessage :: "Message \<Rightarrow> unit client" where
  "handleReceiveMessage msg =
     (let t = MessageType msg in
      if t \<in> {1, 2, 3, 5, 6} then client_handleProtocolControlMessaage msg
      else if t = 4 then client_handleUserControlMessage msg
      else if t \<in> {17, 20} then client_handleCommandMessage msg
      else if t \<in> {16, 19} then client_handleSharedObjectMessage msg
      else if t = 22 then client_handleAggregateMessage msg
      else if t = TYPE_AUDIO then call_player (OnAudioMessage msg)
      else if t = TYPE_VIDEO then call_player (OnVideoMessage msg)
      else if t \<in> {15, 18} then call_player (OnDataMessage msg)
      else retIO ())"

section \<open>The life of a client\<close>

text \<open>The loop \<open>CONNOK\<close>: messages are handled until publishing was accepted.\<close>

function connok :: "bytes \<Rightarrow> unit client" where
  "connok r h =
     (case getRtmpMessage (cl_unpacker h) r of
        Inl e \<Rightarrow> (Inl e, h)
      | Inr (rxmsg, u, r') \<Rightarrow>
          (case handleReceiveMessage rxmsg (h\<lparr>cl_unpacker := u, cl_rw := (cl_rw h)\<lparr>w_in := r'\<rparr>\<rparr>) of
             (Inl e, h') \<Rightarrow> (Inl e, h')
           | (Inr _, h') \<Rightarrow>
               if cl_status h' = rtmp_state_publish_success
               then (Inr (), h'\<lparr>cl_connectResult := cl_connectResult h' @ [True]\<rparr>)
               else connok r' h'))"
  by pat_completeness auto
termination
  by (relation "measure (\<lambda>(r, h). length r)") (auto dest: getRtmpMessage_Inr)

declare connok.simps [simp del]

definition sendMessage :: "Message \<Rightarrow> unit client" where
  "sendMessage m =
     bindIO (getS cl_status) (\<lambda>status.
     if status \<noteq> rtmp_state_publish_success then failS (Errorf ''not in publish start state'') else
     bindIO (getS cl_functionalStreamId) (\<lambda>sid.
     client_WriteMessage
       (if MessageType m \<in> {TYPE_AUDIO, TYPE_VIDEO, TYPE_DATA_AMF0, TYPE_DATA_AMF3}
        then m\<lparr>StreamID := sid\<rparr> else m)))"

text \<open>The sending loop: the first failure sets the status, drops what waits and ends the client.\<close>

fun send_loop :: "Message list \<Rightarrow> unit client" where
  "send_loop [] h = (Inr (), h)"
| "send_loop (txmsg # ms) h =
     (case sendMessage txmsg h of
        (Inl e, h') \<Rightarrow> (Inl e, h'\<lparr>cl_status := rtmp_state_send_fail\<rparr>)
      | (Inr _, h') \<Rightarrow> send_loop ms h')"

definition SendAudioMessage :: "bytes \<Rightarrow> u32 \<Rightarrow> RtmpClientHandler \<Rightarrow> Message res" where
  "SendAudioMessage data timestamp h =
     failIf (cl_status h \<noteq> rtmp_state_publish_success) (Errorf ''not in publish start state'')
     (Inr \<lparr>MessageType = TYPE_AUDIO, Timestamp = timestamp, StreamID = 0, Payload = data\<rparr>)"

definition SendVideoMessage :: "bytes \<Rightarrow> u32 \<Rightarrow> RtmpClientHandler \<Rightarrow> Message res" where
  "SendVideoMessage data timestamp h =
     failIf (cl_status h \<noteq> rtmp_state_publish_success) (Errorf ''not in publish start state'')
     (Inr \<lparr>MessageType = TYPE_VIDEO, Timestamp = timestamp, StreamID = 0, Payload = data\<rparr>)"

text \<open>
  \<open>Start\<close>: \<open>start_body\<close> is the body with the messages to be sent, up to the return or to the point
  where it waits for more of them; the deferred function reports the end.
\<close>

definition client_handshake :: "unit client" where
  "client_handshake h = (let (r, w) = HandshakeClient (cl_rw h) in (r, h\<lparr>cl_rw := w\<rparr>))"

definition send_connect :: "unit client" where
  "send_connect =
     bindIO (getS (\<lambda>h. getConnectCmdObj (cl_rtmpUrl h))) (\<lambda>cmdObj.
     bindIO (client_send (\<lambda>p. sendConnectMessage p (Some cmdObj))) (\<lambda>_.
     client_status rtmp_state_connect_send))"

definition start_body :: "Message list \<Rightarrow> unit client" where
  "start_body txmsgs =
     bindIO client_handshake (\<lambda>_.
     bindIO send_connect (\<lambda>_.
     bindIO (getS (\<lambda>h. w_in (cl_rw h))) (\<lambda>r.
     bindIO (connok r) (\<lambda>_. send_loop txmsgs))))"

definition start_end :: "go_error option \<Rightarrow> RtmpClientHandler \<Rightarrow> unit res \<times> RtmpClientHandler" where
  "start_end err =
     bindIO (getS cl_status) (\<lambda>status.
     bindIO (if status \<noteq> rtmp_state_publish_success
             then modS (\<lambda>h. h\<lparr>cl_connectResult := cl_connectResult h @ [False]\<rparr>) else retIO ()) (\<lambda>_.
     bindIO (getS cl_role) (\<lambda>role.
     case err of
       Some e \<Rightarrow> if role = ROLE_PLAY then call_player (OnError e) else retIO ()
     | None \<Rightarrow> retIO ())))"

definition client_Start :: "Message list \<Rightarrow> unit client" where
  "client_Start txmsgs h =
     (case start_body txmsgs h of
        (Inl e, h') \<Rightarrow> if is_fault e then (Inl e, h') else start_end (Some e) h'
      | (Inr _, h') \<Rightarrow> (Inr (), h'))"

definition client_Cancel :: "RtmpClientHandler \<Rightarrow> RtmpClientHandler" where
  "client_Cancel h = h\<lparr>cl_status := rtmp_state_stop\<rparr>"

end
