(* ===== verification/Dialogue.thy ===== *)
theory Dialogue
  imports Client
begin

text \<open>
  Client and server together: what one side has written and the other has not read yet, the steps of
  the two handlers on the messages in order of arrival, and the dialogues that end in publishing and
  in playing.
\<close>

section \<open>The length of commands\<close>

definition within :: "nat \<Rightarrow> written \<Rightarrow> bool" where
  "within n r \<longleftrightarrow> (\<forall>k w. r = Inr (k, w) \<longrightarrow> length w \<le> n)"

fun leaf_size :: "gvalue \<Rightarrow> nat" where
  "leaf_size (VString s) = length s + 5"
| "leaf_size (VInt i) = 9"
| "leaf_size (VUint i) = 9"
| "leaf_size v = 1"

definition leaf :: "gvalue \<Rightarrow> bool" where
  "leaf v \<longleftrightarrow> (case v of VString _ \<Rightarrow> True | VInt _ \<Rightarrow> True | VUint _ \<Rightarrow> True | VNil \<Rightarrow> True | _ \<Rightarrow> False)"

fun arg_size :: "gvalue \<Rightarrow> nat" where
  "arg_size (VArray kvs) = 4 + sum_list (map leaf_size kvs)"
| "arg_size (VObject kvs) = 4 + sum_list (map (\<lambda>(k, v). length k + 5 + leaf_size v) kvs)"
| "arg_size v = leaf_size v"

definition simple_arg :: "gvalue \<Rightarrow> bool" where
  "simple_arg v \<longleftrightarrow> (case v of VArray kvs \<Rightarrow> list_all leaf kvs | VObject kvs \<Rightarrow> list_all (leaf \<circ> snd) kvs | _ \<Rightarrow> leaf v)"

lemma within_wcat: "within a x \<Longrightarrow> within b y \<Longrightarrow> within (a + b) (wcat x y)"
  by (fastforce simp: within_def dest: wcat_parts)

lemma within_names: "within (length s + 5) (WriteObjectName s)" "within (length s + 5) (WriteString s)"
  by (auto simp: within_def WriteObjectName_def WriteString_def WriteUTF8_def WriteUTF8Long_def Let_def bytes_of_string_def
      split: if_splits)

lemma within_leaf: "leaf v \<Longrightarrow> within (leaf_size v) (WriteValue v)"
  using within_names(2) by (cases v) (auto simp: leaf_def within_def WriteDouble_def WriteNull_def)

lemma within_entries: "list_all (leaf \<circ> snd) kvs \<Longrightarrow>
    within (sum_list (map (\<lambda>(k, v). length k + 5 + leaf_size v) kvs)) (writeEntries kvs)"
proof (induction kvs)
  case (Cons e kvs)
  obtain k v where e: "e = (k, v)" by fastforce
  have "within (length k + 5 + (leaf_size v + sum_list (map (\<lambda>(k, v). length k + 5 + leaf_size v) kvs)))
      (writeEntries ((k, v) # kvs))"
    unfolding WriteValue.simps writeEntries.simps using Cons
    by (intro within_wcat within_names within_leaf) (simp_all add: e)
  then show ?case by (simp add: e add.assoc)
qed (simp add: within_def)

lemma within_pairs: "list_all leaf kvs \<Longrightarrow> within (sum_list (map leaf_size kvs)) (writePairs kvs)"
proof (induction kvs rule: writePairs.induct)
  case (2 k)
  then show ?case by (cases k) (auto simp: within_def dest: wcat_parts)
next
  case (3 k v kvs)
  show ?case
  proof (cases "\<exists>s. k = VString s")
    case True
    then obtain s where k: "k = VString s" by blast
    have "within (length s + 5 + (leaf_size v + sum_list (map leaf_size kvs))) (writePairs (k # v # kvs))"
      unfolding k writePairs.simps gvalue.case using 3 k
      by (intro within_wcat within_names within_leaf) simp_all
    then show ?thesis by (simp add: k add.assoc)
  next
    case False
    then show ?thesis by (cases k) (auto simp: within_def)
  qed
qed (simp add: within_def)

lemma within_object: "within n x \<Longrightarrow> within (4 + n) (wcat WriteObjectMarker (wcat x WriteObjectEndMarker))"
  using within_wcat[of 1 WriteObjectMarker "n + 3" "wcat x WriteObjectEndMarker"] within_wcat[of n x 3 WriteObjectEndMarker]
  by (simp add: within_def WriteObjectMarker_def WriteMarker_def WriteObjectEndMarker_def)

lemma within_wrap: "within n x \<Longrightarrow> within n (wrapWriteValue x)"
  by (auto simp: within_def wrapWriteValue_def split: sum.splits go_error.splits)

lemma within_sibling: "simple_arg c \<Longrightarrow> within (arg_size c) (writeSibling c)"
proof (cases c)
  case (VArray kvs)
  then show "simple_arg c \<Longrightarrow> ?thesis" by (simp add: simple_arg_def writeSibling_def within_object within_pairs)
next
  case (VObject kvs)
  assume "simple_arg c"
  then have "list_all (leaf \<circ> snd) (sort_entries kvs)" by (simp add: VObject simple_arg_def list_all_iff)
  from within_object[OF within_entries[OF this]] have
    "within (4 + sum_list (map (\<lambda>(k, v). length k + 5 + leaf_size v) (sort_entries kvs))) (WriteValue c)"
    by (simp add: VObject)
  moreover have "sum_list (map f (sort_entries kvs)) = sum_list (map f kvs)" for f :: "string \<times> gvalue \<Rightarrow> nat"
    unfolding sort_entries_def by (metis mset_map mset_sort sum_mset_sum_list)
  ultimately show ?thesis using within_wrap by (simp add: VObject writeSibling_def)
qed (use within_wrap[OF within_leaf[of c]] in \<open>auto simp: simple_arg_def leaf_def writeSibling_def\<close>)

lemma within_command:
  assumes "command_as_object sid args = Inr m" "\<forall>c\<in>set args. simple_arg c"
  shows "length (Payload m) \<le> sum_list (map arg_size args)"
proof -
  have "within (sum_list (map arg_size args)) (write_list writeSibling args)"
    using assms(2) by (induction args) (auto simp: within_sibling intro!: within_wcat, simp add: within_def)
  with assms(1) show ?thesis
    by (auto simp: command_as_object_def WriteArrayAsSiblingButElemArrayAsObject_def bindE_eq_Inr within_def new_message_def)
qed

section \<open>Messages on the way\<close>

text \<open>
  Both handlers apply a chunk size message to their unpacker and leave it alone otherwise.
  \<open>pending u b ms p\<close>: the bytes \<open>b\<close>, read by the unpacker \<open>u\<close> of a handler, are the messages \<open>ms\<close>, and
  once they are handled the unpacker is in step with the packer \<open>p\<close> that wrote them.
\<close>

definition react :: "Message \<Rightarrow> ChunkUnpacker \<Rightarrow> ChunkUnpacker" where
  "react m u =
     (if MessageType m = TYPE_PRTCTRL_SET_CHUNK_SIZE
      then (case U32BE (Payload m) of Inr n \<Rightarrow> ChunkUnpacker_SetChunkSize u n | Inl e \<Rightarrow> u) else u)"

fun pending :: "ChunkUnpacker \<Rightarrow> bytes \<Rightarrow> Message list \<Rightarrow> ChunkPacker \<Rightarrow> bool" where
  "pending u b [] p \<longleftrightarrow> b = [] \<and> in_step p u"
| "pending u b (m # ms) p \<longleftrightarrow> (\<exists>b1 b2. b = b1 @ b2 \<and>
     (\<forall>r. \<exists>m' u'. getRtmpMessage u (b1 @ r) = Inr (m', u', r) \<and> same_message m m' \<and> pending (react m u') b2 ms p))"

lemma pending_append:
  "pending u b ms p \<Longrightarrow> (\<And>u. in_step p u \<Longrightarrow> pending u w ms' p') \<Longrightarrow> pending u (b @ w) (ms @ ms') p'"
proof (induction ms arbitrary: u b)
  case (Cons m ms)
  from Cons.prems(1) obtain b1 b2 where b: "b = b1 @ b2" and
    r: "\<And>r. \<exists>m' u'. getRtmpMessage u (b1 @ r) = Inr (m', u', r) \<and> same_message m m' \<and> pending (react m u') b2 ms p"
    by auto
  have "\<exists>m' u'. getRtmpMessage u (b1 @ r) = Inr (m', u', r) \<and> same_message m m' \<and>
      pending (react m u') (b2 @ w) (ms @ ms') p'" for r
    using r[of r] Cons.IH Cons.prems(2) by blast
  then have "b @ w = b1 @ (b2 @ w) \<and> (\<forall>r. \<exists>m' u'. getRtmpMessage u (b1 @ r) = Inr (m', u', r) \<and>
      same_message m m' \<and> pending (react m u') (b2 @ w) (ms @ ms') p')" by (simp add: b)
  then show ?case unfolding append_Cons pending.simps by blast
qed auto

lemma pending_read:
  assumes "pending u b (m # ms) p"
  obtains m' u' b' where "getRtmpMessage u b = Inr (m', u', b')" "same_message m m'" "pending (react m u') b' ms p"
  using assms by fastforce

text \<open>\<open>sent p ms w p'\<close>: from \<open>p\<close> the messages were written as the bytes \<open>w\<close>, leaving \<open>p'\<close>.\<close>

definition sent :: "ChunkPacker \<Rightarrow> Message list \<Rightarrow> bytes \<Rightarrow> ChunkPacker \<Rightarrow> bool" where
  "sent p ms w p' \<longleftrightarrow> (timeless p \<longrightarrow> timeless p') \<and> (\<forall>u. in_step p u \<longrightarrow> pending u w ms p')"

lemma sent_Nil [simp]: "sent p [] [] p"
  by (simp add: sent_def)

lemma sent_append: "sent p ms w p' \<Longrightarrow> sent p' ms' w' p'' \<Longrightarrow> sent p (ms @ ms') (w @ w') p''"
  unfolding sent_def by (blast intro: pending_append)

lemma pending_sent: "pending u b ms p \<Longrightarrow> sent p ms' w p' \<Longrightarrow> pending u (b @ w) (ms @ ms') p'"
  unfolding sent_def by (blast intro: pending_append)

lemma pending_single:
  "(\<And>r. \<exists>m' u'. getRtmpMessage u (w @ r) = Inr (m', u', r) \<and> same_message m m' \<and> in_step p (react m u')) \<Longrightarrow>
    pending u w [m] p"
  unfolding pending.simps by (rule exI[of _ w]) auto

lemma in_step_resize:
  "in_step p u \<Longrightarrow> 0 < n \<Longrightarrow> in_step (ChunkPacker_SetChunkSize p n) (ChunkUnpacker_SetChunkSize u n)"
  by (simp add: in_step_def ChunkPacker_SetChunkSize_def ChunkUnpacker_SetChunkSize_def)

lemma timeless_resize [simp]: "timeless (ChunkPacker_SetChunkSize p n) = timeless p"
  by (simp add: timeless_def ChunkPacker_SetChunkSize_def)

text \<open>A command or control message other than a chunk size, and a chunk size that takes effect first.\<close>

lemma plain_written:
  assumes "0 < sendChunkSize p" "timeless p" "plain m"
  obtains w p' where "WriteMessage p m = Inr (w, p')" "timeless p'" "sendChunkSize p' = sendChunkSize p"
    "\<And>u r. in_step p u \<Longrightarrow> \<exists>m' u'. getRtmpMessage u (w @ r) = Inr (m', u', r) \<and> same_message m m' \<and> in_step p' u'"
proof -
  from WriteMessage_bytes[of p m] assms(1,3) obtain w s' where
    w: "WriteMessage p m = Inr (w, set_stream p (csid_m m) s')" "cs_hdr s' = next_hdr (sendStreams p (csid_m m)) m"
    by (auto simp: plain_def)
  have "mh_timestamp (cs_hdr s') = 0"
    using next_hdr_timestamp[of "sendStreams p (csid_m m)" m] assms(2,3) plain_csid[OF assms(3)]
    by (auto simp: w(2) timeless_def plain_def)
  then have t: "timeless (set_stream p (csid_m m) s')" using assms(2) by (auto simp: timeless_def)
  show thesis
  proof (rule that[OF w(1) t])
    fix u r assume "in_step p u"
    from plain_arrives[OF this assms(2,3)] w(1)
    show "\<exists>m' u'. getRtmpMessage u (w @ r) = Inr (m', u', r) \<and> same_message m m' \<and> in_step (set_stream p (csid_m m) s') u'"
      by (auto simp: arrives_def)
  qed simp
qed

lemma sent_plain:
  assumes "0 < sendChunkSize p" "timeless p" "plain m" "MessageType m \<noteq> 1"
  shows "\<exists>w p'. WriteMessage p m = Inr (w, p') \<and> sent p [m] w p' \<and> sendChunkSize p' = sendChunkSize p"
proof -
  obtain w p' where w: "WriteMessage p m = Inr (w, p')" "timeless p'" "sendChunkSize p' = sendChunkSize p"
    and r: "\<And>u r. in_step p u \<Longrightarrow> \<exists>m' u'. getRtmpMessage u (w @ r) = Inr (m', u', r) \<and> same_message m m' \<and> in_step p' u'"
    using plain_written[OF assms(1-3)] by metis
  have "pending u w [m] p'" if "in_step p u" for u
    using r[OF that] assms(4) by (intro pending_single) (simp add: react_def)
  with w show ?thesis by (auto simp: sent_def)
qed

lemma resize_streams:
  "ChunkPacker_SetChunkSize (s\<lparr>sendStreams := f\<rparr>) n = (ChunkPacker_SetChunkSize s n)\<lparr>sendStreams := f\<rparr>"
  by (cases s) (simp add: ChunkPacker_SetChunkSize_def)

lemma SerializerChunk_resize:
  "SerializerChunk p cs = Inr (w, p') \<Longrightarrow>
    SerializerChunk (ChunkPacker_SetChunkSize p n) cs = Inr (w, ChunkPacker_SetChunkSize p' n)"
proof (induction p cs arbitrary: w p' rule: SerializerChunk.induct)
  case (2 s chunk chunkArray)
  let ?c = "bh_chunkStreamID (ch_basic chunk)"
  from 2(2) obtain w1 st d w2 where 1: "serializeOne (sendStreams s ?c) chunk = Inr (w1, st, d)"
    and t2: "SerializerChunk (s\<lparr>sendStreams := (sendStreams s)(?c \<mapsto> st)\<rparr>)
      (case d of None \<Rightarrow> chunkArray | Some d \<Rightarrow> map (set_timeDelta d) chunkArray) = Inr (w2, p')" "w = w1 @ w2"
    by (auto simp: Let_def bindE_eq_Inr)
  from 2(1)[OF refl 1 refl refl t2(1)]
  have "SerializerChunk (ChunkPacker_SetChunkSize s n\<lparr>sendStreams := (sendStreams s)(?c \<mapsto> st)\<rparr>)
      (case d of None \<Rightarrow> chunkArray | Some d \<Rightarrow> map (set_timeDelta d) chunkArray) = Inr (w2, ChunkPacker_SetChunkSize p' n)"
    by (simp only: resize_streams)
  moreover have "sendStreams (ChunkPacker_SetChunkSize s n) = sendStreams s"
    by (simp add: ChunkPacker_SetChunkSize_def)
  ultimately show ?case using 1 t2(2) by (simp add: Let_def)
qed (simp add: ChunkPacker_SetChunkSize_def)

lemma pieces_one:
  assumes "xs \<noteq> []" "length xs \<le> n"
  shows "pieces n xs = [xs]"
proof -
  have "0 < n" using assms by (cases xs) auto
  then show ?thesis using assms by (simp add: pieces_step)
qed

lemma WriteMessage_resize:
  assumes "WriteMessage p m = Inr (w, p')" "Payload m \<noteq> []"
    and "length (Payload m) \<le> unat (sendChunkSize p)" "length (Payload m) \<le> unat n"
  shows "WriteMessage (ChunkPacker_SetChunkSize p n) m = Inr (w, ChunkPacker_SetChunkSize p' n)"
proof -
  have "0 < sendChunkSize p" "0 < n" using assms(2-4) by (auto simp: word_gt_0)
  then have "ToType0Chunk m c n = ToType0Chunk m c (sendChunkSize p)" for c
    using ToType0Chunk_pieces[of n m c] ToType0Chunk_pieces[of "sendChunkSize p" m c] assms(2-4)
    by (simp add: pieces_one)
  then have "MessageToChunk (ChunkPacker_SetChunkSize p n) m = MessageToChunk p m"
    by (simp add: MessageToChunk_def ChunkPacker_SetChunkSize_def)
  with assms(1) show ?thesis
    by (auto simp: WriteMessage_def bindE_eq_Inr intro: SerializerChunk_resize)
qed

lemma sent_resize:
  assumes "4 \<le> unat (sendChunkSize p)" "timeless p" "4 \<le> unat n" "NewSetChunkSizeMessage n = Inr m"
  shows "\<exists>w p'. WriteMessage (ChunkPacker_SetChunkSize p n) m = Inr (w, p') \<and> sent p [m] w p' \<and> sendChunkSize p' = n"
proof -
  have m: "plain m" "U32BE (Payload m) = Inr n" "MessageType m = 1" "length (Payload m) = 4"
    using assms(4) by (auto simp: control_plain, auto simp: NewSetChunkSizeMessage_def PutU32BE_def overwrite_def new_message_def)
  have sz: "0 < sendChunkSize p" "0 < n" using assms(1,3) by (auto simp: word_gt_0)
  have pl: "Payload m \<noteq> []" using m(4) by auto
  obtain w p' where e: "WriteMessage p m = Inr (w, p')" "timeless p'"
    and r: "\<And>u r. in_step p u \<Longrightarrow> \<exists>m' u'. getRtmpMessage u (w @ r) = Inr (m', u', r) \<and> same_message m m' \<and> in_step p' u'"
    using plain_written[OF sz(1) assms(2) m(1)] by metis
  let ?p = "ChunkPacker_SetChunkSize p' n"
  have "pending u w [m] ?p" if "in_step p u" for u
    using r[OF that] m(2,3) sz(2) by (intro pending_single) (fastforce simp: react_def intro: in_step_resize)
  then have "sent p [m] w ?p" using e(2) by (simp add: sent_def)
  moreover have "WriteMessage (ChunkPacker_SetChunkSize p n) m = Inr (w, ?p)"
    using WriteMessage_resize[OF e(1) pl] m(4) assms by simp
  ultimately show ?thesis by (auto simp: ChunkPacker_SetChunkSize_def)
qed

section \<open>What the handlers say\<close>

lemma more_control_plain:
  "NewSetPeerBandwidthMessage n l = Inr m \<Longrightarrow> plain m \<and> MessageType m = 6"
  "NewUserControlCommandStreamBegin s = Inr m \<Longrightarrow> plain m \<and> MessageType m = 4"
  "NewUserControlCommandStreamIsRecorded s = Inr m \<Longrightarrow> plain m \<and> MessageType m = 4"
  by (auto simp: NewSetPeerBandwidthMessage_def NewUserControlCommandStreamBegin_def
      NewUserControlCommandStreamIsRecorded_def plain_def new_message_def PutU32BE_def overwrite_def put_at_def
      bindE_eq_Inr failIf_eq_Inr)

lemma command_is_plain:
  assumes "command_as_object sid (VString c # args) = Inr m" "\<forall>c\<in>set args. simple_arg c"
    "sum_list (map arg_size (VString c # args)) < 2 ^ 24"
  shows "plain m \<and> MessageType m = 0x14"
proof
  have "simple_arg (VString c)" by (simp add: simple_arg_def leaf_def)
  with within_command[OF assms(1)] assms(2,3) have "length (Payload m) < 2 ^ 24" by simp
  with command_plain[OF assms(1)] show "plain m" by simp
  show "MessageType m = 0x14" using assms(1) by (auto simp: command_as_object_def new_message_def bindE_eq_Inr)
qed

lemma server_messages_plain:
  "NewConnectSuccessMessage = Inr m \<Longrightarrow> plain m \<and> MessageType m = 0x14"
  "NewCreateStreamSuccessMessage i = Inr m \<Longrightarrow> plain m \<and> MessageType m = 0x14"
  "NewPublishSuccessMessage = Inr m \<Longrightarrow> plain m \<and> MessageType m = 0x14"
  "NewPlayResetMessage sid = Inr m \<Longrightarrow> plain m \<and> MessageType m = 0x14"
  "NewPlayStartMessage sid = Inr m \<Longrightarrow> plain m \<and> MessageType m = 0x14"
  "NewDataStartMessage sid = Inr m \<Longrightarrow> plain m \<and> MessageType m = 0x14"
  "NewPlayPublishNotifyMessage sid = Inr m \<Longrightarrow> plain m \<and> MessageType m = 0x14"
proof -
  have "NewCreateStreamSuccessMessage i = command_as_object 0 [VString ''_result'', VInt i, VNil, VInt 1]"
    by (simp add: NewCreateStreamSuccessMessage_def command_as_object_def WriteArrayAsSiblingButElemArrayAsArray_def
        WriteArrayAsSiblingButElemArrayAsObject_def writeSibling_def)
  then show "NewCreateStreamSuccessMessage i = Inr m \<Longrightarrow> plain m \<and> MessageType m = 0x14"
    using command_is_plain[of 0 "''_result''" "[VInt i, VNil, VInt 1]"] by (simp add: simple_arg_def leaf_def)
qed (unfold NewConnectSuccessMessage_def NewPublishSuccessMessage_def NewPlayResetMessage_def NewPlayStartMessage_def
    NewDataStartMessage_def NewPlayPublishNotifyMessage_def NewNetStreamOnStatusMessageWithCodeLevelDesc_def,
    (erule command_is_plain; simp add: simple_arg_def leaf_def)+)

lemma client_messages_plain:
  assumes "length s < 2 ^ 20" "length a < 2 ^ 20"
  shows "NewReleaseStreamMessage t s = Inr m \<Longrightarrow> plain m \<and> MessageType m = 0x14"
    "NewFCPublishMessage t s = Inr m \<Longrightarrow> plain m \<and> MessageType m = 0x14"
    "NewCreateStreamMessage t None = Inr m \<Longrightarrow> plain m \<and> MessageType m = 0x14"
    "NewPublishMessage t a s = Inr m \<Longrightarrow> plain m \<and> MessageType m = 0x14"
    "NewGetStreamLengthMessage t s = Inr m \<Longrightarrow> plain m \<and> MessageType m = 0x14"
    "NewPlayMessage t s n = Inr m \<Longrightarrow> plain m \<and> MessageType m = 0x14"
  unfolding command_defs append.simps
  by (erule command_is_plain; use assms in \<open>simp add: simple_arg_def leaf_def\<close>)+

definition ready :: "ChunkPacker \<Rightarrow> bool" where
  "ready p \<longleftrightarrow> 4 \<le> unat (sendChunkSize p) \<and> timeless p"

lemma put_new_sent:
  assumes "ready p" "plain m" "MessageType m \<noteq> 1"
  shows "\<exists>b p'. (\<forall>w h. sv_packer h = p \<longrightarrow> put_new (Inr m) w h = (Inr (w @ b), h\<lparr>sv_packer := p'\<rparr>) \<and>
      put_unchecked (Inr m) w h = (Inr (w @ b), h\<lparr>sv_packer := p'\<rparr>)) \<and>
    sent p [m] b p' \<and> ready p' \<and> sendChunkSize p' = sendChunkSize p"
proof -
  have "0 < sendChunkSize p" using assms(1) by (auto simp: ready_def word_gt_0)
  with sent_plain[OF this _ assms(2,3)] assms(1) obtain b p' where
    b: "WriteMessage p m = Inr (b, p')" "sent p [m] b p'" "sendChunkSize p' = sendChunkSize p"
    by (auto simp: ready_def)
  then have "sv_packer h = p \<Longrightarrow> put_message m w h = (Inr (w @ b), h\<lparr>sv_packer := p'\<rparr>)" for w h
    by (simp add: put_message_def WriteMessage_def[symmetric])
  moreover have "ready p'" using b(2,3) assms(1) by (simp add: ready_def sent_def)
  ultimately show ?thesis using b(2,3) by (auto simp: put_new_def put_unchecked_def bindIO_lift)
qed

lemma put_resize_sent:
  assumes "ready p" "4 \<le> unat n" "NewSetChunkSizeMessage n = Inr m"
  shows "\<exists>b p'. (\<forall>w h. sv_packer h = ChunkPacker_SetChunkSize p n \<longrightarrow>
      put_new (Inr m) w h = (Inr (w @ b), h\<lparr>sv_packer := p'\<rparr>)) \<and>
    sent p [m] b p' \<and> ready p' \<and> sendChunkSize p' = n"
proof -
  from sent_resize[of p, OF _ _ assms(2,3)] assms(1) obtain b p' where
    b: "WriteMessage (ChunkPacker_SetChunkSize p n) m = Inr (b, p')" "sent p [m] b p'" "sendChunkSize p' = n"
    by (auto simp: ready_def)
  then have "sv_packer h = ChunkPacker_SetChunkSize p n \<Longrightarrow>
      put_message m w h = (Inr (w @ b), h\<lparr>sv_packer := p'\<rparr>)" for w h
    by (simp add: put_message_def WriteMessage_def[symmetric])
  moreover have "ready p'" using b(2,3) assms(1,2) by (simp add: ready_def sent_def)
  ultimately show ?thesis using b(2,3) by (auto simp: put_new_def bindIO_lift)
qed

definition out :: "bytes \<Rightarrow> 'x RtmpHandler \<Rightarrow> 'x RtmpHandler" where
  "out b h = h\<lparr>sv_rw := (sv_rw h)\<lparr>w_out := w_out (sv_rw h) @ b\<rparr>\<rparr>"

lemma conn_Write_out: "w_werr (sv_rw h) = None \<Longrightarrow> conn_Write b h = (Inr (), out b h)"
  by (simp add: conn_Write_def rw_Write_def out_def)

text \<open>The constructors of the server never fail.\<close>

lemma constructors_total:
  "\<exists>m. NewAckMessage n = Inr m" "\<exists>m. NewSetPeerBandwidthMessage n l = Inr m" "\<exists>m. NewSetChunkSizeMessage n = Inr m"
  "\<exists>m. NewUserControlCommandStreamBegin n = Inr m" "\<exists>m. NewUserControlCommandStreamIsRecorded n = Inr m"
  by (simp_all add: NewAckMessage_def NewSetPeerBandwidthMessage_def NewSetChunkSizeMessage_def
      NewUserControlCommandStreamBegin_def NewUserControlCommandStreamIsRecorded_def PutU32BE_def put_at_def overwrite_def)

text \<open>The arguments that follow the name of a command.\<close>

definition reads_as :: "bytes \<Rightarrow> gvalue list \<Rightarrow> bool" where
  "reads_as r vs \<longleftrightarrow> read_list ReadValue (length vs) r = Inr (vs, [])"

lemma reads_as_Nil [simp]: "reads_as r [] \<longleftrightarrow> r = []"
  by (simp add: reads_as_def)

lemma reads_as_Cons: "reads_as r (v # vs) \<longleftrightarrow> (\<exists>r'. ReadValue r = Inr (v, r') \<and> reads_as r' vs)"
  unfolding reads_as_def by (rule read_list_cons)

lemma ReadValue_Nil [simp]: "ReadValue [] = Inl EOF"
  by (simp add: ReadValue_def ReadMarker_def ReadByte_def)

lemma args_loop_steps:
  "\<not> cont i \<Longrightarrow> args_loop cont wrap body i r a s = (Inr a, s)"
  "cont i \<Longrightarrow> args_loop cont wrap body i [] a s = (Inr a, s)"
  "cont i \<Longrightarrow> ReadValue r = Inr (v, r') \<Longrightarrow> body i v a s = (Inr a', s') \<Longrightarrow>
    args_loop cont wrap body i r a s = args_loop cont wrap body (Suc i) r' a' s'"
  by (subst args_loop.simps, simp)+

text \<open>What a handler method says: it succeeds in the state \<open>h'\<close> but for the packer and the bytes written, which are \<open>ms\<close>.\<close>

definition says :: "('x, unit) handling \<Rightarrow> 'x RtmpHandler \<Rightarrow> Message list \<Rightarrow> 'x RtmpHandler \<Rightarrow> u32 \<Rightarrow> bool" where
  "says f h ms h' sz \<longleftrightarrow> (\<exists>b p'. f h = (Inr (), out b (h'\<lparr>sv_packer := p'\<rparr>)) \<and>
     sent (sv_packer h) ms b p' \<and> ready p' \<and> sendChunkSize p' = sz)"

definition connect_replies :: "Message list" where
  "connect_replies = map projr [NewAckMessage 2500000, NewSetPeerBandwidthMessage 2500000 2,
     NewSetChunkSizeMessage 1024, NewConnectSuccessMessage]"

lemma connect_says:
  fixes h :: "'x RtmpHandler"
  assumes "ready (sv_packer h)" "w_werr (sv_rw h) = None" "sv_status h = 3" "reads_as r [VNumber f, VObject obj]"
  shows "says (handleConnectCommand r) h connect_replies (h\<lparr>sv_connetCmdObj := obj\<rparr>) 1024"
proof -
  let ?h = "h\<lparr>sv_connetCmdObj := obj\<rparr>"
  obtain r1 where r: "ReadValue r = Inr (VNumber f, r1)" "ReadValue r1 = Inr (VObject obj, [])"
    using assms(4) by (auto simp: reads_as_Cons)
  have args: "args_loop (\<lambda>i. i < 2) wrap connect_arg 0 r () h = (Inr (), ?h)" for wrap
    by (subst args_loop_steps(3)[OF _ r(1)], simp, simp add: connect_arg_def retIO_def,
        subst args_loop_steps(3)[OF _ r(2)], simp, simp add: connect_arg_def modS_def, rule args_loop_steps(1), simp)
  obtain m1 m2 m3 where m: "NewAckMessage 2500000 = Inr m1" "NewSetPeerBandwidthMessage 2500000 2 = Inr m2"
    "NewSetChunkSizeMessage 1024 = Inr m3" using constructors_total by metis
  obtain m4 where m4: "NewConnectSuccessMessage = Inr m4" using server_reply_bodies(1) by (rule carries_reads)
  have t1: "MessageType m1 \<noteq> 1" using m(1) by (auto simp: NewAckMessage_def new_message_def bindE_eq_Inr)
  obtain b1 p1 where 1: "\<And>w (h' :: 'x RtmpHandler). sv_packer h' = sv_packer h \<Longrightarrow> put_new (Inr m1) w h' = (Inr (w @ b1), h'\<lparr>sv_packer := p1\<rparr>)"
    "sent (sv_packer h) [m1] b1 p1" "ready p1"
    using put_new_sent[OF assms(1) control_plain(1)[OF m(1)] t1] by blast
  obtain b2 p2 where 2: "\<And>w (h' :: 'x RtmpHandler). sv_packer h' = p1 \<Longrightarrow> put_new (Inr m2) w h' = (Inr (w @ b2), h'\<lparr>sv_packer := p2\<rparr>)"
    "sent p1 [m2] b2 p2" "ready p2"
    using put_new_sent[OF 1(3), of m2] more_control_plain(1)[OF m(2)] by fastforce
  obtain b3 p3 where 3: "\<And>w (h' :: 'x RtmpHandler). sv_packer h' = ChunkPacker_SetChunkSize p2 1024 \<Longrightarrow>
      put_new (Inr m3) w h' = (Inr (w @ b3), h'\<lparr>sv_packer := p3\<rparr>)"
    "sent p2 [m3] b3 p3" "ready p3" "sendChunkSize p3 = 1024"
    using put_resize_sent[OF 2(3) _ m(3)] by fastforce
  obtain b4 p4 where 4: "\<And>w (h' :: 'x RtmpHandler). sv_packer h' = p3 \<Longrightarrow> put_new (Inr m4) w h' = (Inr (w @ b4), h'\<lparr>sv_packer := p4\<rparr>)"
    "sent p3 [m4] b4 p4" "ready p4" "sendChunkSize p4 = 1024"
    using put_new_sent[OF 3(3), of m4] 3(4) server_messages_plain(1)[OF m4] by fastforce
  have sz: "GetChunkSize (ChunkPacker_SetChunkSize p2 1024) = 1024"
    by (simp add: GetChunkSize_def ChunkPacker_SetChunkSize_def)
  have "handleConnectCommand r h = (Inr (), out (b1 @ b2 @ b3 @ b4) (?h\<lparr>sv_packer := p4\<rparr>))"
    using assms(2,3)
    by (simp add: handleConnectCommand_def bindIO_getS bindIO_simps(1)[where m = "args_loop _ _ _ _ _ _", OF args]
        m m4 bindIO_simps(1)[OF 1(1)] bindIO_simps(1)[OF 2(1)] bindIO_errS(1) bindIO_modS sz
        bindIO_simps(1)[OF 3(1)] bindIO_simps(1)[OF 4(1)] conn_Write_out retIO_def)
  moreover have "sent (sv_packer h) connect_replies (b1 @ b2 @ b3 @ b4) p4"
    using sent_append[OF 1(2) sent_append[OF 2(2) sent_append[OF 3(2) 4(2)]]] by (simp add: connect_replies_def m m4)
  ultimately show ?thesis using 4 unfolding says_def by blast
qed

lemma out_fields [simp]:
  "sv_packer (out b h) = sv_packer h" "sv_status (out b h) = sv_status h" "sv_ptr (out b h) = sv_ptr h"
  "sv_appStreamKey (out b h) = sv_appStreamKey h"
  "sv_pad (out b h) = sv_pad h" "sv_unpacker (out b h) = sv_unpacker h" "w_werr (sv_rw (out b h)) = w_werr (sv_rw h)"
  "out b h\<lparr>sv_status := s\<rparr> = out b (h\<lparr>sv_status := s\<rparr>)" "out b h\<lparr>sv_packer := q\<rparr> = out b (h\<lparr>sv_packer := q\<rparr>)"
  "out b h\<lparr>sv_putMsg := n, sv_role := s', sv_pad := x\<rparr> = out b (h\<lparr>sv_putMsg := n, sv_role := s', sv_pad := x\<rparr>)"
  "out b h\<lparr>sv_role := s', sv_pad := x\<rparr> = out b (h\<lparr>sv_role := s', sv_pad := x\<rparr>)"
  "out b' (out b h) = out (b @ b') h"
  by (simp_all add: out_def)

lemma says_reply:
  fixes h :: "'x RtmpHandler"
  assumes "mk = Inr m" "plain m" "MessageType m \<noteq> 1" "ready (sv_packer h)" "w_werr (sv_rw h) = None"
  shows "says (bindIO (put_new mk []) conn_Write) h [m] h (sendChunkSize (sv_packer h))"
proof -
  obtain b p' where b: "\<And>w (h' :: 'x RtmpHandler). sv_packer h' = sv_packer h \<Longrightarrow> put_new (Inr m) w h' = (Inr (w @ b), h'\<lparr>sv_packer := p'\<rparr>)"
    "sent (sv_packer h) [m] b p'" "ready p'" "sendChunkSize p' = sendChunkSize (sv_packer h)"
    using put_new_sent[OF assms(4,2,3)] by blast
  with assms(1,5) show ?thesis unfolding says_def
    by (intro exI[of _ b] exI[of _ p']) (simp add: bindIO_simps(1)[OF b(1)] conn_Write_out)
qed

lemma says_after:
  assumes "f h = (Inr x, h1)" "says (g x) h1 ms h' sz" "sv_packer h1 = sv_packer h"
  shows "says (bindIO f g) h ms h' sz"
  using assms unfolding says_def by (simp add: bindIO_def)

lemma createStream_says:
  assumes "ready (sv_packer h)" "w_werr (sv_rw h) = None" "sv_status h = 11" "reads_as r [VNumber f, VNil]"
  shows "says (handleCreateStreamCommand r) h [projr (NewCreateStreamSuccessMessage (float_trunc f))] h (sendChunkSize (sv_packer h))"
proof -
  obtain r1 where r: "ReadValue r = Inr (VNumber f, r1)" "ReadValue r1 = Inr (VNil, [])"
    using assms(4) by (auto simp: reads_as_Cons)
  have args: "args_loop (\<lambda>i. True) (\<lambda>e. e) createStream_arg 0 r 0 h = (Inr (float_trunc f), h)"
    by (subst args_loop_steps(3)[OF _ r(1)], simp, simp add: createStream_arg_def retIO_def,
        subst args_loop_steps(3)[OF _ r(2)], simp, simp add: createStream_arg_def retIO_def, rule args_loop_steps(2), simp)
  obtain m where m: "NewCreateStreamSuccessMessage (float_trunc f) = Inr m"
    using server_reply_bodies(2) by (rule carries_reads)
  have "says (bindIO (args_loop (\<lambda>i. True) (\<lambda>e. e) createStream_arg 0 r 0)
      (\<lambda>t. bindIO (put_new (NewCreateStreamSuccessMessage t) []) conn_Write)) h [m] h (sendChunkSize (sv_packer h))"
    using says_reply[OF m _ _ assms(1,2)] server_messages_plain(2)[OF m] 
    by (intro says_after[where f = "args_loop _ _ _ _ _ _", OF args]) auto
  then show ?thesis using assms(3) m
    by (simp add: handleCreateStreamCommand_def says_def bindIO_getS)
qed

lemma publish_says:
  assumes "ready (sv_packer h)" "w_werr (sv_rw h) = None" "reads_as r [VNumber f, VNil, VString name, VString ptype]"
    and "map_of (sv_connetCmdObj h) ''app'' = Some (VString app)"
  shows "says (handlePublishCommand r) h [projr NewPublishSuccessMessage]
    (h\<lparr>sv_publishCmdObj := \<lparr>PublishName = name, PublishType = ptype\<rparr>, sv_appStreamKey := app @ ''-'' @ name\<rparr>)
    (sendChunkSize (sv_packer h))" (is "says _ h _ ?h _")
proof -
  obtain r1 r2 r3 where r: "ReadValue r = Inr (VNumber f, r1)" "ReadValue r1 = Inr (VNil, r2)"
    "ReadValue r2 = Inr (VString name, r3)" "ReadValue r3 = Inr (VString ptype, [])"
    using assms(3) by (auto simp: reads_as_Cons)
  have args: "args_loop (\<lambda>i. i < 4) wrap publish_arg 0 r () h = (Inr (), ?h)" for wrap
    by (subst args_loop_steps(3)[OF _ r(1)], simp, simp add: publish_arg_def retIO_def,
        subst args_loop_steps(3)[OF _ r(2)], simp, simp add: publish_arg_def retIO_def,
        subst args_loop_steps(3)[OF _ r(3)], simp,
        simp add: publish_arg_def bindIO_modS bindIO_def stream_key_def assms(4) modS_def,
        subst args_loop_steps(3)[OF _ r(4)], simp, simp add: publish_arg_def modS_def,
        subst args_loop_steps(1), simp, simp)
  obtain m where m: "NewPublishSuccessMessage = Inr m" using server_reply_bodies(3) by (rule carries_reads)
  have "says (handlePublishCommand r) h [m] ?h (sendChunkSize (sv_packer ?h))"
    unfolding handlePublishCommand_def
    by (intro says_after[where f = "args_loop _ _ _ _ _ _", OF args] says_reply[OF m]) (use server_messages_plain(3)[OF m] assms(1,2) in auto)
  then show ?thesis by (simp add: m)
qed

definition play_replies :: "u32 \<Rightarrow> Message list" where
  "play_replies sid = map projr [NewUserControlCommandStreamIsRecorded sid, NewUserControlCommandStreamBegin sid,
     NewPlayResetMessage sid, NewPlayStartMessage sid, NewDataStartMessage sid, NewPlayPublishNotifyMessage sid]"

lemma play_bodies:
  "carries (NewPlayResetMessage sid) sid [VString ''onStatus'', VNumber 0, VNil,
      VObject [(''code'', VString ''NetStream.Play.Reset''), (''level'', VString ''status''),
        (''description'', VString ''Playing and resetting stream.'')]]"
  "carries (NewPlayStartMessage sid) sid [VString ''onStatus'', VNumber 0, VNil,
      VObject [(''code'', VString ''NetStream.Play.Start''), (''level'', VString ''status''),
        (''description'', VString ''Started playing stream.'')]]"
  "carries (NewDataStartMessage sid) sid [VString ''onStatus'', VNumber 0, VNil,
      VObject [(''code'', VString ''NetStream.Data.Start''), (''level'', VString ''status''),
        (''description'', VString ''Started playing stream.'')]]"
  "carries (NewPlayPublishNotifyMessage sid) sid [VString ''onStatus'', VNumber 0, VNil,
      VObject [(''code'', VString ''NetStream.Play.PublishNotify''), (''level'', VString ''status''),
        (''description'', VString ''Started playing notify.'')]]"
  unfolding NewPlayStartMessage_def NewPlayResetMessage_def NewDataStartMessage_def NewPlayPublishNotifyMessage_def
    NewNetStreamOnStatusMessageWithCodeLevelDesc_def
  by (rule command_carries'; simp add: arg_simps float_of_int_samples)+

lemma play_says:
  fixes h :: "'x RtmpHandler"
  assumes "ready (sv_packer h)" "w_werr (sv_rw h) = None" "reads_as r [VNumber f, VNil, VString name, d]"
    and "map_of (sv_connetCmdObj h) ''app'' = Some (VString app)"
  shows "says (handlePlayCommand r m) h (play_replies (StreamID m))
    (h\<lparr>sv_playCmdObj := (sv_playCmdObj h)\<lparr>StreamName := name\<rparr>, sv_appStreamKey := app @ ''-'' @ name,
       sv_functionalStreamId := StreamID m\<rparr>) (sendChunkSize (sv_packer h))" (is "says _ h _ ?h _")
proof -
  let ?k = "h\<lparr>sv_playCmdObj := (sv_playCmdObj h)\<lparr>StreamName := name\<rparr>, sv_appStreamKey := app @ ''-'' @ name\<rparr>"
  obtain r1 r2 r3 where r: "ReadValue r = Inr (VNumber f, r1)" "ReadValue r1 = Inr (VNil, r2)"
    "ReadValue r2 = Inr (VString name, r3)" "ReadValue r3 = Inr (d, [])"
    using assms(3) by (auto simp: reads_as_Cons)
  have args: "args_loop (\<lambda>i. True) wrap play_arg 0 r () h = (Inr (), ?k)" for wrap
    by (subst args_loop_steps(3)[OF _ r(1)], simp, simp add: play_arg_def retIO_def,
        subst args_loop_steps(3)[OF _ r(2)], simp, simp add: play_arg_def retIO_def,
        subst args_loop_steps(3)[OF _ r(3)], simp,
        simp add: play_arg_def bindIO_modS bindIO_def stream_key_def assms(4) modS_def,
        subst args_loop_steps(3)[OF _ r(4)], simp, simp add: play_arg_def retIO_def,
        subst args_loop_steps(2), simp, simp)
  let ?sid = "StreamID m"
  obtain m1 m2 where m: "NewUserControlCommandStreamIsRecorded ?sid = Inr m1" "NewUserControlCommandStreamBegin ?sid = Inr m2"
    using constructors_total by metis
  obtain m3 where m3: "NewPlayResetMessage ?sid = Inr m3" using play_bodies(1) by (rule carries_reads)
  obtain m4 where m4: "NewPlayStartMessage ?sid = Inr m4" using play_bodies(2) by (rule carries_reads)
  obtain m5 where m5: "NewDataStartMessage ?sid = Inr m5" using play_bodies(3) by (rule carries_reads)
  obtain m6 where m6: "NewPlayPublishNotifyMessage ?sid = Inr m6" using play_bodies(4) by (rule carries_reads)
  note pl = more_control_plain(3)[OF m(1)] more_control_plain(2)[OF m(2)] server_messages_plain(4)[OF m3]
    server_messages_plain(5)[OF m4] server_messages_plain(6)[OF m5] server_messages_plain(7)[OF m6]
  have put: "\<exists>b p'. (\<forall>w (h :: 'x RtmpHandler). sv_packer h = p \<longrightarrow> put_new (Inr m) w h = (Inr (w @ b), h\<lparr>sv_packer := p'\<rparr>) \<and>
      put_unchecked (Inr m) w h = (Inr (w @ b), h\<lparr>sv_packer := p'\<rparr>)) \<and>
    sent p [m] b p' \<and> ready p' \<and> sendChunkSize p' = sendChunkSize p"
    if "ready p" "plain m \<and> (MessageType m = 4 \<or> MessageType m = 0x14)" for p m
    by (rule put_new_sent[OF that(1)]) (use that(2) in auto)
  obtain b1 p1 where 1: "\<And>w (h' :: 'x RtmpHandler). sv_packer h' = sv_packer h \<Longrightarrow> put_new (Inr m1) w h' = (Inr (w @ b1), h'\<lparr>sv_packer := p1\<rparr>)"
    "sent (sv_packer h) [m1] b1 p1" "ready p1" "sendChunkSize p1 = sendChunkSize (sv_packer h)"
    using put[OF assms(1), of m1] pl(1) by blast
  obtain b2 p2 where 2: "\<And>w (h' :: 'x RtmpHandler). sv_packer h' = p1 \<Longrightarrow> put_new (Inr m2) w h' = (Inr (w @ b2), h'\<lparr>sv_packer := p2\<rparr>)"
    "sent p1 [m2] b2 p2" "ready p2" "sendChunkSize p2 = sendChunkSize p1"
    using put[OF 1(3), of m2] pl(2) by blast
  obtain b3 p3 where 3: "\<And>w (h' :: 'x RtmpHandler). sv_packer h' = p2 \<Longrightarrow> put_unchecked (Inr m3) w h' = (Inr (w @ b3), h'\<lparr>sv_packer := p3\<rparr>)"
    "sent p2 [m3] b3 p3" "ready p3" "sendChunkSize p3 = sendChunkSize p2"
    using put[OF 2(3), of m3] pl(3) by blast
  obtain b4 p4 where 4: "\<And>w (h' :: 'x RtmpHandler). sv_packer h' = p3 \<Longrightarrow> put_unchecked (Inr m4) w h' = (Inr (w @ b4), h'\<lparr>sv_packer := p4\<rparr>)"
    "sent p3 [m4] b4 p4" "ready p4" "sendChunkSize p4 = sendChunkSize p3"
    using put[OF 3(3), of m4] pl(4) by blast
  obtain b5 p5 where 5: "\<And>w (h' :: 'x RtmpHandler). sv_packer h' = p4 \<Longrightarrow> put_unchecked (Inr m5) w h' = (Inr (w @ b5), h'\<lparr>sv_packer := p5\<rparr>)"
    "sent p4 [m5] b5 p5" "ready p5" "sendChunkSize p5 = sendChunkSize p4"
    using put[OF 4(3), of m5] pl(5) by blast
  obtain b6 p6 where 6: "\<And>w (h' :: 'x RtmpHandler). sv_packer h' = p5 \<Longrightarrow> put_unchecked (Inr m6) w h' = (Inr (w @ b6), h'\<lparr>sv_packer := p6\<rparr>)"
    "sent p5 [m6] b6 p6" "ready p6" "sendChunkSize p6 = sendChunkSize p5"
    using put[OF 5(3), of m6] pl(6) by blast
  have "handlePlayCommand r m h = (Inr (), out (b1 @ b2 @ b3 @ b4 @ b5 @ b6) (?h\<lparr>sv_packer := p6\<rparr>))"
    using assms(2)
    by (simp add: handlePlayCommand_def bindIO_getS bindIO_modS bindIO_simps(1)[where m = "args_loop _ _ _ _ _ _", OF args]
        m m3 m4 m5 m6 bindIO_simps(1)[OF 1(1)] bindIO_simps(1)[OF 2(1)] bindIO_simps(1)[OF 3(1)] bindIO_simps(1)[OF 4(1)]
        bindIO_simps(1)[OF 5(1)] bindIO_simps(1)[OF 6(1)] bindIO_simps(1)[OF conn_Write_out] conn_Write_out)
  moreover have "sent (sv_packer h) (play_replies ?sid) (b1 @ b2 @ b3 @ b4 @ b5 @ b6) p6"
    using sent_append[OF 1(2) sent_append[OF 2(2) sent_append[OF 3(2) sent_append[OF 4(2) sent_append[OF 5(2) 6(2)]]]]]
    by (simp add: play_replies_def m m3 m4 m5 m6)
  ultimately show ?thesis using 1(4) 2(4) 3(4) 4(4) 5(4) 6(3,4) unfolding says_def by metis
qed

lemma says_errS:
  assumes "says f h ms h' sz"
    and "\<And>b p'. g None (out b (h'\<lparr>sv_packer := p'\<rparr>)) = (Inr (), out b (h''\<lparr>sv_packer := p'\<rparr>))"
  shows "says (bindIO (errS f) g) h ms h'' sz"
  using assms unfolding says_def by (auto simp: bindIO_errS(1)) blast

lemma packer_last [simp]:
  "h\<lparr>sv_packer := p, sv_status := s\<rparr> = h\<lparr>sv_status := s, sv_packer := p\<rparr>"
  "h\<lparr>sv_packer := p, sv_putMsg := n, sv_role := s', sv_pad := x, sv_status := s\<rparr> =
    h\<lparr>sv_putMsg := n, sv_role := s', sv_pad := x, sv_status := s, sv_packer := p\<rparr>"
  "h\<lparr>sv_packer := p, sv_role := s', sv_pad := x, sv_status := s\<rparr> =
    h\<lparr>sv_role := s', sv_pad := x, sv_status := s, sv_packer := p\<rparr>"
  by (cases h; simp)+

text \<open>A command message to the server, by the name it starts with.\<close>

lemma command_cases:
  assumes "MessageType m = 20" "ReadValue (Payload m) = Inr (VString c, r)"
  shows "c = ''connect'' \<Longrightarrow> handle_message P m =
      bindIO (errS (handleConnectCommand r)) (\<lambda>err. set_status (if err = None then 11 else 1019))"
    "c = ''createStream'' \<Longrightarrow> handle_message P m =
      bindIO (errS (handleCreateStreamCommand r)) (\<lambda>err. bindIO (set_status (if err = None then 21 else 1029)) (\<lambda>_. retErr err))"
    "c = ''publish'' \<Longrightarrow> handle_message P m =
      bindIO (errS (handlePublishCommand r)) (\<lambda>err. bindIO (if err = None then OnSource P else retIO err) (\<lambda>err.
          bindIO (set_status (if err = None then 31 else 1039)) (\<lambda>_. retErr err)))"
    "c = ''play'' \<Longrightarrow> handle_message P m =
      bindIO (errS (handlePlayCommand r m)) (\<lambda>err. bindIO (if err = None then OnSink P else retIO err) (\<lambda>err.
          bindIO (set_status (if err = None then 44 else 1049)) (\<lambda>_. retErr err)))"
    "c \<notin> {''connect'', ''createStream'', ''publish'', ''play''} \<Longrightarrow> handle_message P m = retIO ()"
  using assms by (auto simp: handle_message_def handleCommandMessage_def bindIO_lift)

lemma connect_handled:
  assumes "MessageType m = 20" "reads_as (Payload m) [VString ''connect'', VNumber f, VObject obj]"
    "ready (sv_packer h)" "w_werr (sv_rw h) = None" "sv_status h = 3"
  shows "says (handle_message P m) h connect_replies (h\<lparr>sv_connetCmdObj := obj, sv_status := 11\<rparr>) 1024"
proof -
  obtain r where r: "ReadValue (Payload m) = Inr (VString ''connect'', r)" "reads_as r [VNumber f, VObject obj]"
    using assms(2) reads_as_Cons by blast
  show ?thesis unfolding command_cases(1)[OF assms(1) r(1) refl]
    by (rule says_errS[OF connect_says[OF assms(3-5) r(2)]]) (simp add: set_status_def modS_def)
qed

lemma createStream_handled:
  assumes "MessageType m = 20" "reads_as (Payload m) [VString ''createStream'', VNumber f, VNil]"
    "ready (sv_packer h)" "w_werr (sv_rw h) = None" "sv_status h = 11"
  shows "says (handle_message P m) h [projr (NewCreateStreamSuccessMessage (float_trunc f))] (h\<lparr>sv_status := 21\<rparr>)
    (sendChunkSize (sv_packer h))"
proof -
  obtain r where r: "ReadValue (Payload m) = Inr (VString ''createStream'', r)" "reads_as r [VNumber f, VNil]"
    using assms(2) reads_as_Cons by blast
  show ?thesis unfolding command_cases(2)[OF assms(1) r(1) refl]
    by (rule says_errS[OF createStream_says[OF assms(3-5) r(2)]]) (simp add: set_status_def bindIO_modS retErr_simps retIO_def)
qed

lemma publish_handled:
  fixes h :: "'x RtmpHandler"
  assumes "MessageType m = 20" "reads_as (Payload m) [VString ''publish'', VNumber f, VNil, VString name, VString ptype]"
    "ready (sv_packer h)" "w_werr (sv_rw h) = None" "map_of (sv_connetCmdObj h) ''app'' = Some (VString app)"
    "pad_OnSourceDetermined P \<lparr>h_ptr = sv_ptr h, h_key = app @ ''-'' @ name\<rparr> (sv_pad h) = Inr ((n, None), x)"
  shows "says (handle_message P m) h [projr NewPublishSuccessMessage]
    (h\<lparr>sv_publishCmdObj := \<lparr>PublishName = name, PublishType = ptype\<rparr>, sv_appStreamKey := app @ ''-'' @ name,
       sv_putMsg := Some n, sv_role := ''source'', sv_pad := x, sv_status := 31\<rparr>) (sendChunkSize (sv_packer h))"
proof -
  obtain r where r: "ReadValue (Payload m) = Inr (VString ''publish'', r)"
    "reads_as r [VNumber f, VNil, VString name, VString ptype]" using assms(2) reads_as_Cons by blast
  let ?h = "h\<lparr>sv_publishCmdObj := \<lparr>PublishName = name, PublishType = ptype\<rparr>, sv_appStreamKey := app @ ''-'' @ name\<rparr>"
  have "OnSource P (out b (?h\<lparr>sv_packer := p'\<rparr>)) =
      (Inr None, out b (?h\<lparr>sv_packer := p', sv_putMsg := Some n, sv_role := ''source'', sv_pad := x\<rparr>))" for b p'
    using assms(6) by (simp add: OnSource_def as_handler_def GetAppStreamKey_def)
  then show ?thesis unfolding command_cases(3)[OF assms(1) r(1) refl]
    by (intro says_errS[OF publish_says[OF assms(3,4) r(2) assms(5)]])
      (simp add: bindIO_simps(1)[of "OnSource P"] set_status_def bindIO_modS retErr_simps retIO_def)
qed

lemma play_handled:
  fixes h :: "'x RtmpHandler"
  assumes "MessageType m = 20" "reads_as (Payload m) [VString ''play'', VNumber f, VNil, VString name, d]"
    "ready (sv_packer h)" "w_werr (sv_rw h) = None" "map_of (sv_connetCmdObj h) ''app'' = Some (VString app)"
    "pad_OnSinkDetermined P \<lparr>h_ptr = sv_ptr h, h_key = app @ ''-'' @ name\<rparr> (sv_pad h) = Inr (None, x)"
  shows "says (handle_message P m) h (play_replies (StreamID m))
    (h\<lparr>sv_playCmdObj := (sv_playCmdObj h)\<lparr>StreamName := name\<rparr>, sv_appStreamKey := app @ ''-'' @ name,
       sv_functionalStreamId := StreamID m, sv_role := ''sink'', sv_pad := x, sv_status := 44\<rparr>) (sendChunkSize (sv_packer h))"
proof -
  obtain r where r: "ReadValue (Payload m) = Inr (VString ''play'', r)"
    "reads_as r [VNumber f, VNil, VString name, d]" using assms(2) reads_as_Cons by blast
  let ?h = "h\<lparr>sv_playCmdObj := (sv_playCmdObj h)\<lparr>StreamName := name\<rparr>, sv_appStreamKey := app @ ''-'' @ name,
       sv_functionalStreamId := StreamID m\<rparr>"
  have "OnSink P (out b (?h\<lparr>sv_packer := p'\<rparr>)) =
      (Inr None, out b (?h\<lparr>sv_packer := p', sv_role := ''sink'', sv_pad := x\<rparr>))" for b p'
    using assms(6) by (simp add: OnSink_def as_handler_def GetAppStreamKey_def)
  then show ?thesis unfolding command_cases(4)[OF assms(1) r(1) refl]
    by (intro says_errS[OF play_says[OF assms(3,4) r(2) assms(5)]])
      (simp add: bindIO_simps(1)[of "OnSink P"] set_status_def bindIO_modS retErr_simps retIO_def)
qed

section \<open>What the client says\<close>

definition cout :: "bytes \<Rightarrow> RtmpClientHandler \<Rightarrow> RtmpClientHandler" where
  "cout b c = c\<lparr>cl_rw := (cl_rw c)\<lparr>w_out := w_out (cl_rw c) @ b\<rparr>\<rparr>"

lemma cout_fields [simp]:
  "cl_packer (cout b c) = cl_packer c" "cl_status (cout b c) = cl_status c" "cl_role (cout b c) = cl_role c"
  "cl_unpacker (cout b c) = cl_unpacker c" "cl_transactionId (cout b c) = cl_transactionId c"
  "cl_rtmpUrl (cout b c) = cl_rtmpUrl c" "w_werr (cl_rw (cout b c)) = w_werr (cl_rw c)"
  "cout b c\<lparr>cl_status := s\<rparr> = cout b (c\<lparr>cl_status := s\<rparr>)" "cout b c\<lparr>cl_packer := q\<rparr> = cout b (c\<lparr>cl_packer := q\<rparr>)"
  "cout b c\<lparr>cl_transactionId := t\<rparr> = cout b (c\<lparr>cl_transactionId := t\<rparr>)"
  "cout b' (cout b c) = cout (b @ b') c"
  by (simp_all add: cout_def)

lemma cpacker_last [simp]:
  "c\<lparr>cl_packer := p, cl_status := s\<rparr> = c\<lparr>cl_status := s, cl_packer := p\<rparr>"
  "c\<lparr>cl_packer := p, cl_transactionId := t\<rparr> = c\<lparr>cl_transactionId := t, cl_packer := p\<rparr>"
  "c\<lparr>cl_status := s, cl_transactionId := t\<rparr> = c\<lparr>cl_transactionId := t, cl_status := s\<rparr>"
  by (cases c; simp)+

definition csays :: "unit client \<Rightarrow> RtmpClientHandler \<Rightarrow> Message list \<Rightarrow> RtmpClientHandler \<Rightarrow> bool" where
  "csays f c ms c' \<longleftrightarrow> (\<exists>b p'. f c = (Inr (), cout b (c'\<lparr>cl_packer := p'\<rparr>)) \<and>
     sent (cl_packer c) ms b p' \<and> ready p')"

text \<open>A send function writes the same bytes whatever the rest of the handler is.\<close>

definition utters :: "(ChunkPacker \<Rightarrow> (bytes \<times> ChunkPacker) res) \<Rightarrow> ChunkPacker \<Rightarrow> bytes \<Rightarrow> ChunkPacker \<Rightarrow> bool" where
  "utters f p b p' \<longleftrightarrow> (\<forall>c. cl_packer c = p \<longrightarrow> w_werr (cl_rw c) = None \<longrightarrow> client_send f c = (Inr (), cout b (c\<lparr>cl_packer := p'\<rparr>)))"

lemma utters_send: "f p = Inr (b, p') \<Longrightarrow> utters f p b p'"
  by (simp add: utters_def client_send_def client_Write_def rw_Write_def cout_def)

lemma bind_utters [simp]:
  "utters f p b p' \<Longrightarrow> cl_packer c = p \<Longrightarrow> w_werr (cl_rw c) = None \<Longrightarrow>
    bindIO (client_send f) g c = g () (cout b (c\<lparr>cl_packer := p'\<rparr>))"
  by (simp add: utters_def bindIO_def)

lemma command_uttered:
  assumes "ready p" "mk = Inr m" "plain m" "MessageType m \<noteq> 1"
  shows "\<exists>b p'. utters (\<lambda>p. bindE mk (WriteMessage p)) p b p' \<and> sent p [m] b p' \<and> ready p'"
proof -
  have "0 < sendChunkSize p" using assms(1) by (auto simp: ready_def word_gt_0)
  with sent_plain[OF this, of m] assms(1,3,4) obtain b p' where
    b: "WriteMessage p m = Inr (b, p')" "sent p [m] b p'" "sendChunkSize p' = sendChunkSize p"
    by (auto simp: ready_def)
  moreover have "ready p'" using b assms(1) by (simp add: ready_def sent_def)
  ultimately show ?thesis using assms(2) utters_send[of "\<lambda>p. bindE mk (WriteMessage p)" p b p'] by auto
qed

lemma resize_uttered:
  assumes "ready p" "NewSetChunkSizeMessage 1024 = Inr m"
  shows "\<exists>b p'. utters (\<lambda>p. sendSetChunkMessage p 1024) (ChunkPacker_SetChunkSize p 1024) b p' \<and> sent p [m] b p' \<and> ready p'"
proof -
  from sent_resize[of p 1024, OF _ _ _ assms(2)] assms(1) obtain b p' where
    b: "WriteMessage (ChunkPacker_SetChunkSize p 1024) m = Inr (b, p')" "sent p [m] b p'" "sendChunkSize p' = 1024"
    by (auto simp: ready_def)
  moreover have "ready p'" using b assms(1) by (simp add: ready_def sent_def)
  ultimately show ?thesis using assms(2)
      utters_send[of "\<lambda>p. sendSetChunkMessage p 1024" "ChunkPacker_SetChunkSize p 1024" b p']
    by (auto simp: sendSetChunkMessage_def)
qed

lemma carries_Inr:
  "carries res sid vs \<Longrightarrow> res = Inr m \<Longrightarrow> reads_as (Payload m) vs \<and> MessageType m = 0x14 \<and> StreamID m = sid"
  unfolding carries_def reads_as_def by (metis sum.inject(2))

lemma handleConnectResponse_success:
  "NewConnectSuccessMessage = Inr m \<Longrightarrow> Payload m' = Payload m \<Longrightarrow> handleConnectResponse m' = Inr ()"
proof -
  assume m: "NewConnectSuccessMessage = Inr m" "Payload m' = Payload m"
  from server_reply_bodies(1) m have "reads_as (Payload m') [VString ''_result'', VNumber 0x3FF0000000000000,
      VObject [(''fmsVer'', VString ''FMS/3,0,1,123''), (''capabilities'', VNumber 0x403F000000000000)],
      VObject [(''level'', VString ''status''), (''code'', VString ''NetConnection.Connect.Success''),
        (''description'', VString ''Connection succeeded.''), (''objectEncoding'', VNumber 0)]]"
    using carries_Inr by metis
  then show ?thesis
    by (auto simp: reads_as_Cons handleConnectResponse_def float_trunc_samples connect_loop.simps)
qed

lemma handleCreateStreamResponse_success:
  "NewCreateStreamSuccessMessage i = Inr m \<Longrightarrow> Payload m' = Payload m \<Longrightarrow> handleCreateStreamResponse m' 0 = Inr 1"
proof -
  assume m: "NewCreateStreamSuccessMessage i = Inr m" "Payload m' = Payload m"
  from server_reply_bodies(2) m have "reads_as (Payload m') [VString ''_result'', VNumber (float_of_int i), VNil, VNumber 0x3FF0000000000000]"
    using carries_Inr by metis
  then show ?thesis
    by (auto simp: reads_as_Cons handleCreateStreamResponse_def float_u32_def float_trunc_samples)
qed

lemma handlePublishResponse_success:
  "NewPublishSuccessMessage = Inr m \<Longrightarrow> Payload m' = Payload m \<Longrightarrow> handlePublishResponse m' = Inr ()"
proof -
  assume m: "NewPublishSuccessMessage = Inr m" "Payload m' = Payload m"
  from server_reply_bodies(3) m have "reads_as (Payload m') [VString ''onStatus'', VNumber 0, VNil,
      VObject [(''description'', VString ''publishing''), (''level'', VString ''status''),
        (''code'', VString ''NetStream.Publish.Start'')]]"
    using carries_Inr by metis
  then show ?thesis
    by (auto simp: reads_as_Cons handlePublishResponse_def float_u32_def float_trunc_samples)
qed

definition publisher_setup :: "u32 \<Rightarrow> string \<Rightarrow> Message list" where
  "publisher_setup t name = map projr [NewSetChunkSizeMessage 1024, NewReleaseStreamMessage t name,
     NewFCPublishMessage (t + 1) name, NewCreateStreamMessage (t + 2) None]"

definition player_setup :: "u32 \<Rightarrow> Message list" where
  "player_setup t = map projr [NewSetChunkSizeMessage 1024, NewAckMessage 2500000, NewCreateStreamMessage t None]"

lemma commands_exist:
  assumes "length s < 2 ^ 20" "length a < 2 ^ 20"
  shows "carries (NewReleaseStreamMessage t s) 0 [VString ''releaseStream'', VNumber (float_of_int (uint t)), VNil, VString s]"
    "carries (NewFCPublishMessage t s) 0 [VString ''FCPublish'', VNumber (float_of_int (uint t)), VNil, VString s]"
    "carries (NewCreateStreamMessage t None) 0 [VString ''createStream'', VNumber (float_of_int (uint t)), VNil]"
    "carries (NewPublishMessage t a s) 0 [VString ''publish'', VNumber (float_of_int (uint t)), VNil, VString s, VString a]"
    "carries (NewGetStreamLengthMessage t s) 0 [VString ''getStreamLength'', VNumber (float_of_int (uint t)), VNil, VString s]"
    "carries (NewPlayMessage t s n) 1 [VString ''play'', VNumber (float_of_int (uint t)), VNil, VString s, VNumber (float_of_int n)]"
  unfolding command_defs
  by (rule command_carries'; use assms in \<open>simp add: arg_simps\<close>)+

lemma command_reply: "MessageType m = 20 \<Longrightarrow> handleReceiveMessage m = client_handleCommandMessage m"
  by (simp add: handleReceiveMessage_def)

lemma publisher_connected:
  assumes "cl_status c = 10" "cl_role c = ''publish''" "MessageType m' = 20" "handleConnectResponse m' = Inr ()"
    "ready (cl_packer c)" "w_werr (cl_rw c) = None" "cl_transactionId c = t" "streamName (cl_rtmpUrl c) = name" "length name < 2 ^ 20"
  shows "csays (handleReceiveMessage m') c (publisher_setup t name) (c\<lparr>cl_transactionId := t + 3, cl_status := 20\<rparr>)"
proof -
  note ex = commands_exist[OF assms(9), of "[]"] and pl = client_messages_plain[OF assms(9), of "[]"]
  obtain m1 where m1: "NewSetChunkSizeMessage 1024 = Inr m1" using constructors_total(3) by blast
  obtain m2 where m2: "NewReleaseStreamMessage t name = Inr m2" using ex(1) by (auto simp: carries_def)
  obtain m3 where m3: "NewFCPublishMessage (t + 1) name = Inr m3" using ex(2) by (auto simp: carries_def)
  obtain m4 where m4: "NewCreateStreamMessage (t + 2) None = Inr m4" using ex(3) by (auto simp: carries_def)
  obtain b1 p1 where 1: "utters (\<lambda>p. sendSetChunkMessage p 1024) (ChunkPacker_SetChunkSize (cl_packer c) 1024) b1 p1"
    "sent (cl_packer c) [m1] b1 p1" "ready p1" using resize_uttered[OF assms(5) m1] by blast
  obtain b2 p2 where 2: "utters (\<lambda>p. sendReleaseStreamMessage p t name) p1 b2 p2" "sent p1 [m2] b2 p2" "ready p2"
    using command_uttered[OF 1(3) m2] pl(1)[OF _ m2] unfolding sendReleaseStreamMessage_def by auto
  obtain b3 p3 where 3: "utters (\<lambda>p. sendFCPublishMessage p (t + 1) name) p2 b3 p3" "sent p2 [m3] b3 p3" "ready p3"
    using command_uttered[OF 2(3) m3] pl(2)[OF _ m3] unfolding sendFCPublishMessage_def by auto
  obtain b4 p4 where 4: "utters (\<lambda>p. sendCreateStreamMessage p (t + 2) None) p3 b4 p4" "sent p3 [m4] b4 p4" "ready p4"
    using command_uttered[OF 3(3) m4] pl(3)[OF _ m4] unfolding sendCreateStreamMessage_def by auto
  have "handleReceiveMessage m' c = (Inr (), cout (b1 @ b2 @ b3 @ b4) (c\<lparr>cl_transactionId := t + 3, cl_status := 20, cl_packer := p4\<rparr>))"
    using assms(1-4,6-8) 1(1) 2(1) 3(1) 4(1)
    by (simp add: command_reply client_handleCommandMessage_def after_connect_def bindIO_getS bindIO_lift bindIO_modS
        bindIO_assoc client_status_def next_transaction_def modS_def add.assoc)
  moreover have "sent (cl_packer c) (publisher_setup t name) (b1 @ b2 @ b3 @ b4) p4"
    using sent_append[OF 1(2) sent_append[OF 2(2) sent_append[OF 3(2) 4(2)]]] by (simp add: publisher_setup_def m1 m2 m3 m4)
  ultimately show ?thesis using 4(3) unfolding csays_def by blast
qed

lemma player_connected:
  assumes "cl_status c = 10" "cl_role c = ''play''" "MessageType m' = 20" "handleConnectResponse m' = Inr ()"
    "ready (cl_packer c)" "w_werr (cl_rw c) = None" "cl_transactionId c = t"
  shows "csays (handleReceiveMessage m') c (player_setup t) (c\<lparr>cl_transactionId := t + 1, cl_status := 20\<rparr>)"
proof -
  obtain m1 m2 where m: "NewSetChunkSizeMessage 1024 = Inr m1" "NewAckMessage 2500000 = Inr m2" using constructors_total by metis
  obtain m3 where m3: "NewCreateStreamMessage t None = Inr m3" using commands_exist(3)[of "[]" "[]"] by (auto simp: carries_def)
  have t2: "MessageType m2 \<noteq> 1" using m(2) by (auto simp: NewAckMessage_def new_message_def bindE_eq_Inr)
  obtain b1 p1 where 1: "utters (\<lambda>p. sendSetChunkMessage p 1024) (ChunkPacker_SetChunkSize (cl_packer c) 1024) b1 p1"
    "sent (cl_packer c) [m1] b1 p1" "ready p1" using resize_uttered[OF assms(5) m(1)] by blast
  obtain b2 p2 where 2: "utters (\<lambda>p. sendWidowAckMessage p 2500000) p1 b2 p2" "sent p1 [m2] b2 p2" "ready p2"
    using command_uttered[OF 1(3) m(2) control_plain(1)[OF m(2)] t2] unfolding sendWidowAckMessage_def by auto
  obtain b3 p3 where 3: "utters (\<lambda>p. sendCreateStreamMessage p t None) p2 b3 p3" "sent p2 [m3] b3 p3" "ready p3"
    using command_uttered[OF 2(3) m3] client_messages_plain(3)[of "[]" "[]", OF _ _ m3] unfolding sendCreateStreamMessage_def by auto
  have "handleReceiveMessage m' c = (Inr (), cout (b1 @ b2 @ b3) (c\<lparr>cl_transactionId := t + 1, cl_status := 20, cl_packer := p3\<rparr>))"
    using assms(1-4,6-7) 1(1) 2(1) 3(1)
    by (simp add: command_reply client_handleCommandMessage_def after_connect_def bindIO_getS bindIO_lift bindIO_modS
        bindIO_assoc client_status_def next_transaction_def modS_def add.assoc)
  moreover have "sent (cl_packer c) (player_setup t) (b1 @ b2 @ b3) p3"
    using sent_append[OF 1(2) sent_append[OF 2(2) 3(2)]] by (simp add: player_setup_def m m3)
  ultimately show ?thesis using 3(3) unfolding csays_def by blast
qed

lemma cout_stream [simp]:
  "c\<lparr>cl_packer := p, cl_functionalStreamId := sid\<rparr> = c\<lparr>cl_functionalStreamId := sid, cl_packer := p\<rparr>"
  "c\<lparr>cl_status := s, cl_functionalStreamId := sid\<rparr> = c\<lparr>cl_functionalStreamId := sid, cl_status := s\<rparr>"
  by (cases c; simp)+

lemma publisher_created:
  assumes "cl_status c = 20" "cl_role c = ''publish''" "MessageType m' = 20" "handleCreateStreamResponse m' 0 = Inr sid"
    "ready (cl_packer c)" "w_werr (cl_rw c) = None" "cl_transactionId c = t" "streamName (cl_rtmpUrl c) = name"
    "appName (cl_rtmpUrl c) = app" "length name < 2 ^ 20" "length app < 2 ^ 20"
  shows "csays (handleReceiveMessage m') c [projr (NewPublishMessage t app name)]
    (c\<lparr>cl_functionalStreamId := sid, cl_transactionId := t + 1, cl_status := 30\<rparr>)"
proof -
  obtain m where m: "NewPublishMessage t app name = Inr m" using commands_exist(4)[OF assms(10,11)] by (auto simp: carries_def)
  obtain b p where 1: "utters (\<lambda>p. sendPublishMessage p t app name) (cl_packer c) b p" "sent (cl_packer c) [m] b p" "ready p"
    using command_uttered[OF assms(5) m] client_messages_plain(4)[OF assms(10,11) m] unfolding sendPublishMessage_def by auto
  have "handleReceiveMessage m' c = (Inr (), cout b (c\<lparr>cl_functionalStreamId := sid, cl_transactionId := t + 1, cl_status := 30, cl_packer := p\<rparr>))"
    using assms(1-4,6-9) 1(1)
    by (simp add: command_reply client_handleCommandMessage_def after_createStream_def bindIO_getS bindIO_lift bindIO_modS
        client_status_def next_transaction_def modS_def)
  then show ?thesis using 1 m unfolding csays_def by auto
qed

definition player_request :: "u32 \<Rightarrow> string \<Rightarrow> Message list" where
  "player_request t name = map projr [NewGetStreamLengthMessage t name, NewPlayMessage (t + 1) name (- 2000),
     NewSetBufferLengthMessage (t + 2) 1000]"

lemma player_created:
  assumes "cl_status c = 20" "cl_role c = ''play''" "MessageType m' = 20" "handleCreateStreamResponse m' 0 = Inr sid"
    "ready (cl_packer c)" "w_werr (cl_rw c) = None" "cl_transactionId c = t" "streamName (cl_rtmpUrl c) = name" "length name < 2 ^ 20"
  shows "csays (handleReceiveMessage m') c (player_request t name)
    (c\<lparr>cl_functionalStreamId := sid, cl_transactionId := t + 3, cl_status := 40\<rparr>)"
proof -
  note ex = commands_exist[OF assms(9), of "[]"] and pl = client_messages_plain[OF assms(9), of "[]"]
  obtain m1 where m1: "NewGetStreamLengthMessage t name = Inr m1" using ex(5) by (auto simp: carries_def)
  obtain m2 where m2: "NewPlayMessage (t + 1) name (- 2000) = Inr m2" using ex(6) by (auto simp: carries_def)
  have r: "replicate 10 (0 :: byte) = [0, 0, 0, 0, 0, 0, 0, 0, 0, 0]" by (simp add: eval_nat_numeral)
  obtain m3 where m3: "NewSetBufferLengthMessage (t + 2) 1000 = Inr m3"
    by (auto simp: NewSetBufferLengthMessage_def put_at_def PutU32BE_def overwrite_def r)
  have t3: "MessageType m3 \<noteq> 1" using m3 by (auto simp: NewSetBufferLengthMessage_def new_message_def bindE_eq_Inr)
  obtain b1 p1 where 1: "utters (\<lambda>p. sendGetStreamLengthMessage p t name) (cl_packer c) b1 p1" "sent (cl_packer c) [m1] b1 p1" "ready p1"
    using command_uttered[OF assms(5) m1] pl(5)[OF _ m1] unfolding sendGetStreamLengthMessage_def by auto
  obtain b2 p2 where 2: "utters (\<lambda>p. sendPlayMessage p (t + 1) (- 2000) name) p1 b2 p2" "sent p1 [m2] b2 p2" "ready p2"
    using command_uttered[OF 1(3) m2] pl(6)[OF _ m2] unfolding sendPlayMessage_def by auto
  obtain b3 p3 where 3: "utters (\<lambda>p. sendSetBufferLengthMessage p (t + 2) 1000) p2 b3 p3" "sent p2 [m3] b3 p3" "ready p3"
    using command_uttered[OF 2(3) m3 control_plain(3)[OF m3] t3] unfolding sendSetBufferLengthMessage_def by auto
  have "handleReceiveMessage m' c = (Inr (), cout (b1 @ b2 @ b3) (c\<lparr>cl_functionalStreamId := sid, cl_transactionId := t + 3,
      cl_status := 40, cl_packer := p3\<rparr>))"
    using assms(1-4,6-8) 1(1) 2(1) 3(1)
    by (simp add: command_reply client_handleCommandMessage_def after_createStream_def bindIO_getS bindIO_lift bindIO_modS
        bindIO_assoc client_status_def next_transaction_def modS_def add.assoc)
  moreover have "sent (cl_packer c) (player_request t name) (b1 @ b2 @ b3) p3"
    using sent_append[OF 1(2) sent_append[OF 2(2) 3(2)]] by (simp add: player_request_def m1 m2 m3)
  ultimately show ?thesis using 3(3) unfolding csays_def by blast
qed

end
