(* ===== verification/Session.thy ===== *)
theory Session
  imports Dialogue
begin

text \<open>
  A client and a server connected to each other, after the handshake: the bytes one side has written
  and the other has not read yet are the \<open>w_out\<close> of the writer.  A step of the dialogue is one side
  reading a whole message and handling it, as in the loops of \<open>Start\<close> on both sides.
\<close>

inductive dialogue :: "'x Pad \<Rightarrow> RtmpClientHandler \<times> 'x RtmpHandler \<Rightarrow> RtmpClientHandler \<times> 'x RtmpHandler \<Rightarrow> bool" for P where
  server_reads: "getRtmpMessage (sv_unpacker h) (w_out (cl_rw c)) = Inr (m, u, r) \<Longrightarrow>
    handle_message P m (h\<lparr>sv_unpacker := u\<rparr>) = (Inr (), h') \<Longrightarrow>
    dialogue P (c, h) (c\<lparr>cl_rw := (cl_rw c)\<lparr>w_out := r\<rparr>\<rparr>, h')"
| client_reads: "getRtmpMessage (cl_unpacker c) (w_out (sv_rw h)) = Inr (m, u, r) \<Longrightarrow>
    handleReceiveMessage m (c\<lparr>cl_unpacker := u\<rparr>) = (Inr (), c') \<Longrightarrow>
    dialogue P (c, h) (c', h\<lparr>sv_rw := (sv_rw h)\<lparr>w_out := r\<rparr>\<rparr>)"

section \<open>One step\<close>

definition link :: "RtmpClientHandler \<Rightarrow> 'x RtmpHandler \<Rightarrow> Message list \<Rightarrow> Message list \<Rightarrow> bool" where
  "link c h cs sc \<longleftrightarrow> pending (sv_unpacker h) (w_out (cl_rw c)) cs (cl_packer c) \<and>
     pending (cl_unpacker c) (w_out (sv_rw h)) sc (sv_packer h) \<and> ready (cl_packer c) \<and> ready (sv_packer h) \<and>
     w_werr (cl_rw c) = None \<and> w_werr (sv_rw h) = None"

text \<open>The handlers without what the link accounts for.\<close>

definition no_world :: world where
  "no_world = \<lparr>w_in = [], w_out = [], w_werr = None, w_rand = (\<lambda>_. 0)\<rparr>"

definition hview :: "'x RtmpHandler \<Rightarrow> 'x RtmpHandler" where
  "hview h = h\<lparr>sv_unpacker := NewChunkUnpacker, sv_packer := NewChunkPacker, sv_rw := no_world\<rparr>"

definition cview :: "RtmpClientHandler \<Rightarrow> RtmpClientHandler" where
  "cview c = c\<lparr>cl_unpacker := NewChunkUnpacker, cl_packer := NewChunkPacker, cl_rw := no_world\<rparr>"

lemma hview_fields:
  "hview h = hview h' \<Longrightarrow> sv_status h = sv_status h' \<and> sv_ptr h = sv_ptr h' \<and> sv_connetCmdObj h = sv_connetCmdObj h' \<and>
    sv_pad h = sv_pad h' \<and> sv_role h = sv_role h' \<and> sv_appStreamKey h = sv_appStreamKey h' \<and> sv_putMsg h = sv_putMsg h' \<and>
    sv_functionalStreamId h = sv_functionalStreamId h'"
  by (cases h; cases h') (simp add: hview_def)

lemma cview_fields:
  "cview c = cview c' \<Longrightarrow> cl_status c = cl_status c' \<and> cl_role c = cl_role c' \<and> cl_rtmpUrl c = cl_rtmpUrl c' \<and>
    cl_transactionId c = cl_transactionId c' \<and> cl_functionalStreamId c = cl_functionalStreamId c' \<and> cl_player c = cl_player c'"
  by (cases c; cases c') (simp add: cview_def)

lemma hview_simps [simp]:
  "hview (h\<lparr>sv_unpacker := u\<rparr>) = hview h" "hview (h\<lparr>sv_packer := p\<rparr>) = hview h" "hview (h\<lparr>sv_rw := w\<rparr>) = hview h"
  "hview (out b h) = hview h"
  by (cases h; simp add: hview_def out_def)+

lemma cview_simps [simp]:
  "cview (c\<lparr>cl_unpacker := u\<rparr>) = cview c" "cview (c\<lparr>cl_packer := p\<rparr>) = cview c" "cview (c\<lparr>cl_rw := w\<rparr>) = cview c"
  "cview (cout b c) = cview c"
  by (cases c; simp add: cview_def cout_def)+

lemma server_step:
  assumes "link c h (m # cs) sc"
    and "\<And>m' u. same_message m m' \<Longrightarrow> ready (sv_packer h) \<Longrightarrow> w_werr (sv_rw h) = None \<Longrightarrow>
      \<exists>sz. says (handle_message P m') (h\<lparr>sv_unpacker := u\<rparr>) ms (h'\<lparr>sv_unpacker := react m u\<rparr>) sz"
    and "sv_rw h' = sv_rw h"
  shows "\<exists>c1 h1. dialogue P (c, h) (c1, h1) \<and> link c1 h1 cs (sc @ ms) \<and> cview c1 = cview c \<and> hview h1 = hview h'"
proof -
  note l = assms(1)[unfolded link_def]
  obtain m' u r where g: "getRtmpMessage (sv_unpacker h) (w_out (cl_rw c)) = Inr (m', u, r)" "same_message m m'"
    "pending (react m u) r cs (cl_packer c)" using l pending_read by blast
  obtain b p' where b: "handle_message P m' (h\<lparr>sv_unpacker := u\<rparr>) = (Inr (), out b (h'\<lparr>sv_unpacker := react m u, sv_packer := p'\<rparr>))"
    "sent (sv_packer h) ms b p'" "ready p'" using assms(2)[OF g(2), of u] l unfolding says_def by auto
  let ?c = "c\<lparr>cl_rw := (cl_rw c)\<lparr>w_out := r\<rparr>\<rparr>" and ?h = "out b (h'\<lparr>sv_unpacker := react m u, sv_packer := p'\<rparr>)"
  have "dialogue P (c, h) (?c, ?h)" by (rule server_reads[OF g(1) b(1)])
  moreover have "pending (cl_unpacker c) (w_out (sv_rw h) @ b) (sc @ ms) p'" using l b(2) pending_sent by blast
  then have "link ?c ?h cs (sc @ ms)" using l g(3) b(3) by (simp add: link_def out_def assms(3))
  ultimately show ?thesis by fastforce
qed

lemma client_step:
  assumes "link c h cs (m # sc)"
    and "\<And>m' u. same_message m m' \<Longrightarrow> ready (cl_packer c) \<Longrightarrow> w_werr (cl_rw c) = None \<Longrightarrow>
      csays (handleReceiveMessage m') (c\<lparr>cl_unpacker := u\<rparr>) ms (c'\<lparr>cl_unpacker := react m u\<rparr>)"
    and "cl_rw c' = cl_rw c"
  shows "\<exists>c1 h1. dialogue P (c, h) (c1, h1) \<and> link c1 h1 (cs @ ms) sc \<and> cview c1 = cview c' \<and> hview h1 = hview h"
proof -
  note l = assms(1)[unfolded link_def]
  obtain m' u r where g: "getRtmpMessage (cl_unpacker c) (w_out (sv_rw h)) = Inr (m', u, r)" "same_message m m'"
    "pending (react m u) r sc (sv_packer h)" using l pending_read by blast
  obtain b p' where b: "handleReceiveMessage m' (c\<lparr>cl_unpacker := u\<rparr>) = (Inr (), cout b (c'\<lparr>cl_unpacker := react m u, cl_packer := p'\<rparr>))"
    "sent (cl_packer c) ms b p'" "ready p'" using assms(2)[OF g(2), of u] l unfolding csays_def by auto
  let ?h = "h\<lparr>sv_rw := (sv_rw h)\<lparr>w_out := r\<rparr>\<rparr>" and ?c = "cout b (c'\<lparr>cl_unpacker := react m u, cl_packer := p'\<rparr>)"
  have "dialogue P (c, h) (?c, ?h)" by (rule client_reads[OF g(1) b(1)])
  moreover have "pending (sv_unpacker h) (w_out (cl_rw c) @ b) (cs @ ms) p'" using l b(2) pending_sent by blast
  then have "link ?c ?h (cs @ ms) sc" using l g(3) b(3) by (simp add: link_def cout_def assms(3))
  ultimately show ?thesis by fastforce
qed

section \<open>Where a dialogue leads\<close>

definition at_point :: "Message list \<Rightarrow> Message list \<Rightarrow> RtmpClientHandler \<Rightarrow> 'x RtmpHandler \<Rightarrow> RtmpClientHandler \<times> 'x RtmpHandler \<Rightarrow> bool" where
  "at_point cs sc cv hv s \<longleftrightarrow> link (fst s) (snd s) cs sc \<and> cview (fst s) = cv \<and> hview (snd s) = hv"

definition leads :: "'x Pad \<Rightarrow> (RtmpClientHandler \<times> 'x RtmpHandler \<Rightarrow> bool) \<Rightarrow> (RtmpClientHandler \<times> 'x RtmpHandler \<Rightarrow> bool) \<Rightarrow> bool" where
  "leads P A B \<longleftrightarrow> (\<forall>s. A s \<longrightarrow> (\<exists>s'. (dialogue P)\<^sup>*\<^sup>* s s' \<and> B s'))"

lemma leads_trans [trans]: "leads P A B \<Longrightarrow> leads P B C \<Longrightarrow> leads P A C"
  unfolding leads_def by (meson rtranclp_trans)

lemma leads_server:
  fixes F :: "'x RtmpHandler \<Rightarrow> 'x RtmpHandler"
  assumes says: "\<And>h m' u. hview h = hv \<Longrightarrow> same_message m m' \<Longrightarrow> ready (sv_packer h) \<Longrightarrow> w_werr (sv_rw h) = None \<Longrightarrow>
      \<exists>sz. says (handle_message P m') (h\<lparr>sv_unpacker := u\<rparr>) ms ((F h)\<lparr>sv_unpacker := react m u\<rparr>) sz"
    and F: "\<And>h. hview (F h) = F (hview h)" "\<And>h. sv_rw (F h) = sv_rw h"
  shows "leads P (at_point (m # cs) sc cv hv) (at_point cs (sc @ ms) cv (F hv))"
  unfolding leads_def
proof (intro allI impI)
  fix s assume "at_point (m # cs) sc cv hv s"
  then obtain c h where s: "s = (c, h)" "link c h (m # cs) sc" "cview c = cv" "hview h = hv"
    by (cases s) (auto simp: at_point_def)
  from server_step[OF s(2) says[OF s(4)] F(2)] obtain c1 h1 where
    1: "dialogue P (c, h) (c1, h1)" "link c1 h1 cs (sc @ ms)" "cview c1 = cview c" "hview h1 = hview (F h)"
    by blast
  have "at_point cs (sc @ ms) cv (F hv) (c1, h1)" using 1(2-4) s(3,4) F(1)[of h] by (simp add: at_point_def)
  with 1(1) s(1) show "\<exists>s'. (dialogue P)\<^sup>*\<^sup>* s s' \<and> at_point cs (sc @ ms) cv (F hv) s'"
    by blast
qed

lemma leads_client:
  assumes says: "\<And>c m' u. cview c = cv \<Longrightarrow> same_message m m' \<Longrightarrow> ready (cl_packer c) \<Longrightarrow> w_werr (cl_rw c) = None \<Longrightarrow>
      csays (handleReceiveMessage m') (c\<lparr>cl_unpacker := u\<rparr>) ms ((F c)\<lparr>cl_unpacker := react m u\<rparr>)"
    and F: "\<And>c. cview (F c) = F (cview c)" "\<And>c. cl_rw (F c) = cl_rw c"
  shows "leads P (at_point cs (m # sc) cv hv) (at_point (cs @ ms) sc (F cv) hv)"
  unfolding leads_def
proof (intro allI impI)
  fix s assume "at_point cs (m # sc) cv hv s"
  then obtain c h where s: "s = (c, h)" "link c h cs (m # sc)" "cview c = cv" "hview h = hv"
    by (cases s) (auto simp: at_point_def)
  from client_step[OF s(2) says[OF s(3)] F(2)] obtain c1 h1 where
    1: "dialogue P (c, h) (c1, h1)" "link c1 h1 (cs @ ms) sc" "cview c1 = cview (F c)" "hview h1 = hview h"
    by blast
  have "at_point (cs @ ms) sc (F cv) hv (c1, h1)" using 1(2-4) s(3,4) F(1)[of c] by (simp add: at_point_def)
  with 1(1) s(1) show "\<exists>s'. (dialogue P)\<^sup>*\<^sup>* s s' \<and> at_point (cs @ ms) sc (F cv) hv s'"
    by blast
qed

lemma says_nothing: "f h = (Inr (), h') \<Longrightarrow> sv_packer h' = sv_packer h \<Longrightarrow> ready (sv_packer h) \<Longrightarrow>
    says f h [] h' (sendChunkSize (sv_packer h))"
  unfolding says_def by (intro exI[of _ "[]"] exI[of _ "sv_packer h"]) (cases h', simp add: out_def)

lemma csays_nothing: "f c = (Inr (), c') \<Longrightarrow> cl_packer c' = cl_packer c \<Longrightarrow> ready (cl_packer c) \<Longrightarrow> csays f c [] c'"
  unfolding csays_def by (intro exI[of _ "[]"] exI[of _ "cl_packer c"]) (cases c', simp add: cout_def)

section \<open>The server's steps\<close>

lemma server_connect:
  assumes "MessageType m = 20" "reads_as (Payload m) [VString ''connect'', VNumber f, VObject obj]" "sv_status hv = 3"
  shows "leads P (at_point (m # cs) sc cv hv) (at_point cs (sc @ connect_replies) cv (hv\<lparr>sv_connetCmdObj := obj, sv_status := 11\<rparr>))"
proof (rule leads_server[where F = "\<lambda>h. h\<lparr>sv_connetCmdObj := obj, sv_status := 11\<rparr>"])
  fix h :: "'a RtmpHandler" and m' u
  assume h: "hview h = hv" "same_message m m'" "ready (sv_packer h)" "w_werr (sv_rw h) = None"
  then have "sv_status h = 3" using assms(3) by (auto simp: hview_def)
  moreover have "h\<lparr>sv_connetCmdObj := obj, sv_status := 11, sv_unpacker := react m u\<rparr> =
      h\<lparr>sv_unpacker := u, sv_connetCmdObj := obj, sv_status := 11\<rparr>" using assms(1) by (cases h) (simp add: react_def)
  ultimately show "\<exists>sz. says (handle_message P m') (h\<lparr>sv_unpacker := u\<rparr>) connect_replies
      (h\<lparr>sv_connetCmdObj := obj, sv_status := 11, sv_unpacker := react m u\<rparr>) sz"
    using connect_handled[of m' f obj "h\<lparr>sv_unpacker := u\<rparr>" P] h assms(1,2) by (auto simp: same_message_def)
qed (simp_all add: hview_def)

lemma server_createStream:
  assumes "MessageType m = 20" "reads_as (Payload m) [VString ''createStream'', VNumber f, VNil]" "sv_status hv = 11"
  shows "leads P (at_point (m # cs) sc cv hv)
    (at_point cs (sc @ [projr (NewCreateStreamSuccessMessage (float_trunc f))]) cv (hv\<lparr>sv_status := 21\<rparr>))"
proof (rule leads_server[where F = "\<lambda>h. h\<lparr>sv_status := 21\<rparr>"])
  fix h :: "'a RtmpHandler" and m' u
  assume h: "hview h = hv" "same_message m m'" "ready (sv_packer h)" "w_werr (sv_rw h) = None"
  then have "sv_status h = 11" using assms(3) by (auto simp: hview_def)
  moreover have "h\<lparr>sv_status := 21, sv_unpacker := react m u\<rparr> = h\<lparr>sv_unpacker := u, sv_status := 21\<rparr>"
    using assms(1) by (cases h) (simp add: react_def)
  ultimately show "\<exists>sz. says (handle_message P m') (h\<lparr>sv_unpacker := u\<rparr>)
      [projr (NewCreateStreamSuccessMessage (float_trunc f))] (h\<lparr>sv_status := 21, sv_unpacker := react m u\<rparr>) sz"
    using createStream_handled[of m' f "h\<lparr>sv_unpacker := u\<rparr>" P] h assms(1,2) by (auto simp: same_message_def)
qed (simp_all add: hview_def)

lemma server_ignores:
  assumes "\<And>m' h. same_message m m' \<Longrightarrow> handle_message P m' h = (Inr (), h)" "MessageType m \<noteq> 1"
  shows "leads P (at_point (m # cs) sc cv hv) (at_point cs sc cv hv)"
proof -
  have "says (handle_message P m') (h\<lparr>sv_unpacker := u\<rparr>) [] (h\<lparr>sv_unpacker := react m u\<rparr>) (sendChunkSize (sv_packer (h\<lparr>sv_unpacker := u\<rparr>)))"
    if "same_message m m'" "ready (sv_packer h)" for h m' u
    using that assms by (intro says_nothing) (simp_all add: react_def)
  then have "leads P (at_point (m # cs) sc cv hv) (at_point cs (sc @ []) cv ((\<lambda>h. h) hv))"
    by (intro leads_server) blast+
  then show ?thesis by simp
qed

lemma server_ignores_command:
  assumes "MessageType m = 20" "reads_as (Payload m) (VString c # vs)" "c \<notin> {''connect'', ''createStream'', ''publish'', ''play''}"
  shows "leads P (at_point (m # cs) sc cv hv) (at_point cs sc cv hv)"
proof (rule server_ignores)
  fix m' h assume s: "same_message m m'"
  obtain r where "ReadValue (Payload m') = Inr (VString c, r)"
    using assms(2) s reads_as_Cons by (auto simp: same_message_def)
  then show "handle_message P m' h = (Inr (), h)"
    using s assms(1) by (simp add: command_cases(5)[OF _ _ assms(3)] same_message_def retIO_def)
qed (simp add: assms(1))

lemma server_ignores_control:
  assumes "MessageType m \<in> {2, 3, 5, 6} \<or> MessageType m = 4 \<and> 2 \<le> length (Payload m)"
  shows "leads P (at_point (m # cs) sc cv hv) (at_point cs sc cv hv)"
  by (rule server_ignores) (use assms in \<open>auto simp: same_message_def handle_message_def
      handleProtocolControlMessaage_def handleUserControlMessage_def retIO_def\<close>)

lemma server_chunk_size:
  assumes "NewSetChunkSizeMessage n = Inr m"
  shows "leads P (at_point (m # cs) sc cv hv) (at_point cs sc cv hv)"
proof -
  have m: "MessageType m = 1" "U32BE (Payload m) = Inr n"
    using assms by (auto simp: NewSetChunkSizeMessage_def PutU32BE_def overwrite_def new_message_def)
  have "says (handle_message P m') (h\<lparr>sv_unpacker := u\<rparr>) [] (h\<lparr>sv_unpacker := react m u\<rparr>) (sendChunkSize (sv_packer (h\<lparr>sv_unpacker := u\<rparr>)))"
    if "same_message m m'" "ready (sv_packer h)" for h m' u
    using that m by (intro says_nothing)
      (simp_all add: same_message_def handle_message_def handleProtocolControlMessaage_def bindIO_lift modS_def react_def)
  then have "leads P (at_point (m # cs) sc cv hv) (at_point cs (sc @ []) cv ((\<lambda>h. h) hv))"
    by (intro leads_server) blast+
  then show ?thesis by simp
qed

lemma server_publish:
  assumes "MessageType m = 20" "reads_as (Payload m) [VString ''publish'', VNumber f, VNil, VString name, VString ptype]"
    "map_of (sv_connetCmdObj hv) ''app'' = Some (VString app)"
    "pad_OnSourceDetermined P \<lparr>h_ptr = sv_ptr hv, h_key = app @ ''-'' @ name\<rparr> (sv_pad hv) = Inr ((n, None), x)"
  shows "leads P (at_point (m # cs) sc cv hv) (at_point cs (sc @ [projr NewPublishSuccessMessage]) cv
    (hv\<lparr>sv_publishCmdObj := \<lparr>PublishName = name, PublishType = ptype\<rparr>, sv_appStreamKey := app @ ''-'' @ name,
       sv_putMsg := Some n, sv_role := ''source'', sv_pad := x, sv_status := 31\<rparr>))" (is "leads P _ (at_point _ _ _ (?F hv))")
proof (rule leads_server[where F = "\<lambda>h. ?F h"])
  fix h :: "'a RtmpHandler" and m' u
  assume h: "hview h = hv" "same_message m m'" "ready (sv_packer h)" "w_werr (sv_rw h) = None"
  then have "sv_connetCmdObj h = sv_connetCmdObj hv" "sv_ptr h = sv_ptr hv" "sv_pad h = sv_pad hv" by (auto simp: hview_def)
  moreover have "(?F h)\<lparr>sv_unpacker := react m u\<rparr> = ?F (h\<lparr>sv_unpacker := u\<rparr>)" using assms(1) by (cases h) (simp add: react_def)
  ultimately show "\<exists>sz. says (handle_message P m') (h\<lparr>sv_unpacker := u\<rparr>) [projr NewPublishSuccessMessage]
      ((?F h)\<lparr>sv_unpacker := react m u\<rparr>) sz"
    using publish_handled[of m' f name ptype "h\<lparr>sv_unpacker := u\<rparr>" app P n x] h assms by (auto simp: same_message_def)
qed (simp_all add: hview_def)

lemma server_play:
  assumes "MessageType m = 20" "reads_as (Payload m) [VString ''play'', VNumber f, VNil, VString name, d]"
    "map_of (sv_connetCmdObj hv) ''app'' = Some (VString app)"
    "pad_OnSinkDetermined P \<lparr>h_ptr = sv_ptr hv, h_key = app @ ''-'' @ name\<rparr> (sv_pad hv) = Inr (None, x)"
  shows "leads P (at_point (m # cs) sc cv hv) (at_point cs (sc @ play_replies (StreamID m)) cv
    (hv\<lparr>sv_playCmdObj := (sv_playCmdObj hv)\<lparr>StreamName := name\<rparr>, sv_appStreamKey := app @ ''-'' @ name,
       sv_functionalStreamId := StreamID m, sv_role := ''sink'', sv_pad := x, sv_status := 44\<rparr>))" (is "leads P _ (at_point _ _ _ (?F hv))")
proof (rule leads_server[where F = "\<lambda>h. h\<lparr>sv_playCmdObj := (sv_playCmdObj h)\<lparr>StreamName := name\<rparr>, sv_appStreamKey := app @ ''-'' @ name,
       sv_functionalStreamId := StreamID m, sv_role := ''sink'', sv_pad := x, sv_status := 44\<rparr>"])
  fix h :: "'a RtmpHandler" and m' u
  let ?G = "\<lambda>h. h\<lparr>sv_playCmdObj := (sv_playCmdObj h)\<lparr>StreamName := name\<rparr>, sv_appStreamKey := app @ ''-'' @ name,
       sv_functionalStreamId := StreamID m, sv_role := ''sink'', sv_pad := x, sv_status := 44\<rparr>"
  assume h: "hview h = hv" "same_message m m'" "ready (sv_packer h)" "w_werr (sv_rw h) = None"
  then have "sv_connetCmdObj h = sv_connetCmdObj hv" "sv_ptr h = sv_ptr hv" "sv_pad h = sv_pad hv" by (auto simp: hview_def)
  moreover have "(?G h)\<lparr>sv_unpacker := react m u\<rparr> = ?G (h\<lparr>sv_unpacker := u\<rparr>)" using assms(1) by (cases h) (simp add: react_def)
  ultimately show "\<exists>sz. says (handle_message P m') (h\<lparr>sv_unpacker := u\<rparr>) (play_replies (StreamID m))
      ((?G h)\<lparr>sv_unpacker := react m u\<rparr>) sz"
    using play_handled[of m' f name d "h\<lparr>sv_unpacker := u\<rparr>" app P x] h assms by (auto simp: same_message_def)
qed (simp_all add: hview_def)

section \<open>The client's steps\<close>

lemma client_ignores:
  assumes "\<And>m' c. same_message m m' \<Longrightarrow> cview c = cv \<Longrightarrow> handleReceiveMessage m' c = (Inr (), c)" "MessageType m \<noteq> 1"
  shows "leads P (at_point cs (m # sc) cv hv) (at_point cs sc cv hv)"
proof -
  have "csays (handleReceiveMessage m') (c\<lparr>cl_unpacker := u\<rparr>) [] (c\<lparr>cl_unpacker := react m u\<rparr>)"
    if "same_message m m'" "ready (cl_packer c)" "cview c = cv" for c m' u
    using that assms by (intro csays_nothing) (simp_all add: react_def)
  then have "leads P (at_point cs (m # sc) cv hv) (at_point (cs @ []) sc ((\<lambda>c. c) cv) hv)"
    by (intro leads_client) blast+
  then show ?thesis by simp
qed

lemma client_ignores_control:
  "MessageType m \<in> {2, 3, 5, 6} \<Longrightarrow> leads P (at_point cs (m # sc) cv hv) (at_point cs sc cv hv)"
  by (rule client_ignores) (auto simp: same_message_def handleReceiveMessage_def client_handleProtocolControlMessaage_def retIO_def)

lemma client_chunk_size:
  assumes "NewSetChunkSizeMessage n = Inr m"
  shows "leads P (at_point cs (m # sc) cv hv) (at_point cs sc cv hv)"
proof -
  have m: "MessageType m = 1" "U32BE (Payload m) = Inr n"
    using assms by (auto simp: NewSetChunkSizeMessage_def PutU32BE_def overwrite_def new_message_def)
  have "csays (handleReceiveMessage m') (c\<lparr>cl_unpacker := u\<rparr>) [] (c\<lparr>cl_unpacker := react m u\<rparr>)"
    if "same_message m m'" "ready (cl_packer c)" for c m' u
    using that m by (intro csays_nothing)
      (simp_all add: same_message_def handleReceiveMessage_def client_handleProtocolControlMessaage_def bindIO_lift modS_def react_def)
  then have "leads P (at_point cs (m # sc) cv hv) (at_point (cs @ []) sc ((\<lambda>c. c) cv) hv)"
    by (intro leads_client) blast+
  then show ?thesis by simp
qed

lemma leads_client_reply:
  assumes "MessageType m \<noteq> 1"
    and says: "\<And>c m'. cview c = cv \<Longrightarrow> same_message m m' \<Longrightarrow> ready (cl_packer c) \<Longrightarrow> w_werr (cl_rw c) = None \<Longrightarrow>
      csays (handleReceiveMessage m') c ms (F c)"
    and F: "\<And>c u. F (c\<lparr>cl_unpacker := u\<rparr>) = (F c)\<lparr>cl_unpacker := u\<rparr>" "\<And>c. cview (F c) = F (cview c)" "\<And>c. cl_rw (F c) = cl_rw c"
  shows "leads P (at_point cs (m # sc) cv hv) (at_point (cs @ ms) sc (F cv) hv)"
proof (rule leads_client[OF _ F(2,3)])
  fix c m' u assume c: "cview c = cv" "same_message m m'" "ready (cl_packer c)" "w_werr (cl_rw c) = None"
  have "react m u = u" using assms(1) by (simp add: react_def)
  then show "csays (handleReceiveMessage m') (c\<lparr>cl_unpacker := u\<rparr>) ms ((F c)\<lparr>cl_unpacker := react m u\<rparr>)"
    using says[of "c\<lparr>cl_unpacker := u\<rparr>" m'] c F(1)[of u c] by simp
qed

lemma client_connected:
  assumes "NewConnectSuccessMessage = Inr m" "cl_status cv = 10" "cl_transactionId cv = t"
    "streamName (cl_rtmpUrl cv) = name" "length name < 2 ^ 20"
  shows "cl_role cv = ''publish'' \<Longrightarrow> leads P (at_point cs (m # sc) cv hv)
      (at_point (cs @ publisher_setup t name) sc (cv\<lparr>cl_transactionId := t + 3, cl_status := 20\<rparr>) hv)"
    "cl_role cv = ''play'' \<Longrightarrow> leads P (at_point cs (m # sc) cv hv)
      (at_point (cs @ player_setup t) sc (cv\<lparr>cl_transactionId := t + 1, cl_status := 20\<rparr>) hv)"
proof -
  note m = server_messages_plain(1)[OF assms(1)] handleConnectResponse_success[OF assms(1)]
  show "cl_role cv = ''publish'' \<Longrightarrow> leads P (at_point cs (m # sc) cv hv)
      (at_point (cs @ publisher_setup t name) sc (cv\<lparr>cl_transactionId := t + 3, cl_status := 20\<rparr>) hv)"
    using assms m by (intro leads_client_reply[where F = "\<lambda>c. c\<lparr>cl_transactionId := t + 3, cl_status := 20\<rparr>"] publisher_connected)
      (auto simp: same_message_def cview_def)
  show "cl_role cv = ''play'' \<Longrightarrow> leads P (at_point cs (m # sc) cv hv)
      (at_point (cs @ player_setup t) sc (cv\<lparr>cl_transactionId := t + 1, cl_status := 20\<rparr>) hv)"
    using assms m by (intro leads_client_reply[where F = "\<lambda>c. c\<lparr>cl_transactionId := t + 1, cl_status := 20\<rparr>"] player_connected)
      (auto simp: same_message_def cview_def)
qed

lemma client_created:
  assumes "NewCreateStreamSuccessMessage i = Inr m" "cl_status cv = 20" "cl_transactionId cv = t"
    "streamName (cl_rtmpUrl cv) = name" "appName (cl_rtmpUrl cv) = app" "length name < 2 ^ 20" "length app < 2 ^ 20"
  shows "cl_role cv = ''publish'' \<Longrightarrow> leads P (at_point cs (m # sc) cv hv)
      (at_point (cs @ [projr (NewPublishMessage t app name)]) sc
        (cv\<lparr>cl_functionalStreamId := 1, cl_transactionId := t + 1, cl_status := 30\<rparr>) hv)"
    "cl_role cv = ''play'' \<Longrightarrow> leads P (at_point cs (m # sc) cv hv)
      (at_point (cs @ player_request t name) sc (cv\<lparr>cl_functionalStreamId := 1, cl_transactionId := t + 3, cl_status := 40\<rparr>) hv)"
proof -
  note m = server_messages_plain(2)[OF assms(1)] handleCreateStreamResponse_success[OF assms(1)]
  show "cl_role cv = ''publish'' \<Longrightarrow> leads P (at_point cs (m # sc) cv hv)
      (at_point (cs @ [projr (NewPublishMessage t app name)]) sc
        (cv\<lparr>cl_functionalStreamId := 1, cl_transactionId := t + 1, cl_status := 30\<rparr>) hv)"
    using assms m by (intro leads_client_reply[where F = "\<lambda>c. c\<lparr>cl_functionalStreamId := 1, cl_transactionId := t + 1, cl_status := 30\<rparr>"]
        publisher_created) (auto simp: same_message_def cview_def)
  show "cl_role cv = ''play'' \<Longrightarrow> leads P (at_point cs (m # sc) cv hv)
      (at_point (cs @ player_request t name) sc (cv\<lparr>cl_functionalStreamId := 1, cl_transactionId := t + 3, cl_status := 40\<rparr>) hv)"
    using assms m by (intro leads_client_reply[where F = "\<lambda>c. c\<lparr>cl_functionalStreamId := 1, cl_transactionId := t + 3, cl_status := 40\<rparr>"]
        player_created) (auto simp: same_message_def cview_def)
qed

text \<open>A reply that only moves the client on.\<close>

lemma client_moves:
  assumes "MessageType m \<noteq> 1"
    and "\<And>c m'. cview c = cv \<Longrightarrow> same_message m m' \<Longrightarrow> handleReceiveMessage m' c = (Inr (), c\<lparr>cl_status := s\<rparr>)"
  shows "leads P (at_point cs (m # sc) cv hv) (at_point cs sc (cv\<lparr>cl_status := s\<rparr>) hv)"
proof -
  have "leads P (at_point cs (m # sc) cv hv) (at_point (cs @ []) sc ((\<lambda>c. c\<lparr>cl_status := s\<rparr>) cv) hv)"
    by (rule leads_client_reply[where F = "\<lambda>c. c\<lparr>cl_status := s\<rparr>"])
      (use assms in \<open>simp_all add: csays_nothing cview_def\<close>)
  then show ?thesis by simp
qed

lemma client_published:
  assumes "NewPublishSuccessMessage = Inr m" "cl_status cv = 30" "cl_role cv = ''publish''"
  shows "leads P (at_point cs (m # sc) cv hv) (at_point cs sc (cv\<lparr>cl_status := 31\<rparr>) hv)"
proof (rule client_moves)
  note m = server_messages_plain(3)[OF assms(1)] handlePublishResponse_success[OF assms(1)]
  show "MessageType m \<noteq> 1" using m by simp
  fix c m' assume "cview c = cv" "same_message m m'"
  then show "handleReceiveMessage m' c = (Inr (), c\<lparr>cl_status := 31\<rparr>)" using assms(2,3) m
    by (auto simp: same_message_def cview_def command_reply client_handleCommandMessage_def bindIO_getS
        in_publish_send_def bindIO_lift client_status_def modS_def)
qed

lemma play_code_of:
  assumes "carries mk sid [VString ''onStatus'', VNumber 0, VNil, VObject ((''code'', VString code) # props)]" "mk = Inr m" "same_message m m'"
  shows "play_code m' = Inr (Some code)"
  using carries_Inr[OF assms(1,2)] assms(3)
  by (auto simp: reads_as_Cons play_code_def same_message_def is_zero_def)

lemma player_told:
  assumes "cl_role cv = ''play''"
  shows "NewUserControlCommandStreamIsRecorded sid = Inr m \<Longrightarrow> cl_status cv = 40 \<Longrightarrow>
      leads P (at_point cs (m # sc) cv hv) (at_point cs sc (cv\<lparr>cl_status := 41\<rparr>) hv)"
    "NewUserControlCommandStreamBegin sid = Inr m \<Longrightarrow> cl_status cv = 41 \<Longrightarrow>
      leads P (at_point cs (m # sc) cv hv) (at_point cs sc (cv\<lparr>cl_status := 42\<rparr>) hv)"
    "NewPlayResetMessage sid = Inr m \<Longrightarrow> cl_status cv = 42 \<Longrightarrow>
      leads P (at_point cs (m # sc) cv hv) (at_point cs sc (cv\<lparr>cl_status := 43\<rparr>) hv)"
    "NewPlayStartMessage sid = Inr m \<Longrightarrow> cl_status cv = 43 \<Longrightarrow>
      leads P (at_point cs (m # sc) cv hv) (at_point cs sc (cv\<lparr>cl_status := 44\<rparr>) hv)"
    "MessageType m = 20 \<Longrightarrow> cl_status cv = 44 \<Longrightarrow> leads P (at_point cs (m # sc) cv hv) (at_point cs sc cv hv)"
proof -
  have r: "replicate 6 (0 :: byte) = [0, 0, 0, 0, 0, 0]" by (simp add: eval_nat_numeral)
  have u: "length (Payload m) = 6 \<and> MessageType m = 4 \<and> Payload m ! 0 = 0 \<and> Payload m ! 1 = x"
    if "(x = 4 \<and> NewUserControlCommandStreamIsRecorded sid = Inr m) \<or> (x = 0 \<and> NewUserControlCommandStreamBegin sid = Inr m)" for x m
    using that by (auto simp: NewUserControlCommandStreamIsRecorded_def NewUserControlCommandStreamBegin_def put_at_def
        PutU32BE_def overwrite_def new_message_def r nth_append)
  note h = same_message_def cview_def handleReceiveMessage_def client_handleUserControlMessage_def bindIO_lift bindIO_getS
    nth_byte_def client_status_def modS_def
  show "leads P (at_point cs (m # sc) cv hv) (at_point cs sc (cv\<lparr>cl_status := 41\<rparr>) hv)"
    if "NewUserControlCommandStreamIsRecorded sid = Inr m" "cl_status cv = 40"
    using u[of 4 m] that by (intro client_moves) (auto simp: h)
  show "leads P (at_point cs (m # sc) cv hv) (at_point cs sc (cv\<lparr>cl_status := 42\<rparr>) hv)"
    if "NewUserControlCommandStreamBegin sid = Inr m" "cl_status cv = 41"
    using u[of 0 m] that by (intro client_moves) (auto simp: h)
  note k = same_message_def cview_def command_reply client_handleCommandMessage_def bindIO_getS bindIO_lift bindIO_modS
    in_stream_begin_def in_play_reset_def client_status_def modS_def handlePlayResponseReset_def handlePlayResponseStart_def
    bindIO_errS liftIO_def retIO_def
  show "leads P (at_point cs (m # sc) cv hv) (at_point cs sc (cv\<lparr>cl_status := 43\<rparr>) hv)"
    if m: "NewPlayResetMessage sid = Inr m" "cl_status cv = 42"
    using play_code_of[OF play_bodies(1) m(1)] server_messages_plain(4)[OF m(1)] that assms
    by (intro client_moves) (auto simp: k)
  show "leads P (at_point cs (m # sc) cv hv) (at_point cs sc (cv\<lparr>cl_status := 44\<rparr>) hv)"
    if m: "NewPlayStartMessage sid = Inr m" "cl_status cv = 43"
    using play_code_of[OF play_bodies(2) m(1)] server_messages_plain(5)[OF m(1)] that assms
    by (intro client_moves) (auto simp: k)
  show "leads P (at_point cs (m # sc) cv hv) (at_point cs sc cv hv)" if "MessageType m = 20" "cl_status cv = 44"
    by (rule client_ignores) (use that assms in \<open>auto simp: k\<close>)
qed

section \<open>Publishing and playing\<close>

text \<open>Both sides right after the handshake, everything it wrote being read.\<close>

definition fresh_client :: "RtmpUrl \<Rightarrow> string \<Rightarrow> RtmpClientHandler \<Rightarrow> bool" where
  "fresh_client url role c \<longleftrightarrow> cl_unpacker c = NewChunkUnpacker \<and> cl_packer c = NewChunkPacker \<and> w_out (cl_rw c) = [] \<and>
     w_werr (cl_rw c) = None \<and> cl_rtmpUrl c = url \<and> cl_transactionId c = 1 \<and> cl_role c = role"

definition fresh_server :: "'x RtmpHandler \<Rightarrow> bool" where
  "fresh_server h \<longleftrightarrow> sv_unpacker h = NewChunkUnpacker \<and> sv_packer h = NewChunkPacker \<and> w_out (sv_rw h) = [] \<and>
     w_werr (sv_rw h) = None \<and> sv_status h = rtmp_state_hand_success"

definition short_url :: "RtmpUrl \<Rightarrow> bool" where
  "short_url u \<longleftrightarrow> length (appName u) < 2 ^ 20 \<and> length (streamName u) < 2 ^ 20 \<and> length (tcurl u) < 2 ^ 20"

lemma ready_new: "ready NewChunkPacker"
  by (simp add: ready_def NewChunkPacker_def timeless_def)

lemma connect_sent:
  fixes h :: "'x RtmpHandler"
  assumes "fresh_client url role c0" "fresh_server h" "short_url url"
  obtains c m obj where "send_connect c0 = (Inr (), c)" "at_point [m] [] ((cview c0)\<lparr>cl_status := 10\<rparr>) (hview h) (c, h)"
    "MessageType m = 20" "reads_as (Payload m) [VString ''connect'', VNumber 0x3FF0000000000000, VObject obj]"
    "map_of obj ''app'' = Some (VString (appName url))"
proof -
  let ?kvs = "getConnectCmdObj url" and ?args = "[VInt 1, VObject (getConnectCmdObj url)]"
  have d: "distinct (map fst ?kvs)" by (simp add: getConnectCmdObj_def)
  have ok: "\<forall>a\<in>set (VString ''connect'' # ?args). arg_ok a"
    using assms(3) by (simp add: arg_simps getConnectCmdObj_def short_url_def)
  have "carries (NewConnectMessage (Some ?kvs)) 0 (map canon_arg (VString ''connect'' # ?args))"
    unfolding NewConnectMessage_def object_arg_def option.case by (rule command_carries[OF ok])
  then obtain m where m: "NewConnectMessage (Some ?kvs) = Inr m" "MessageType m = 20"
    "reads_as (Payload m) (map canon_arg (VString ''connect'' # ?args))"
    unfolding carries_def reads_as_def by auto
  have c: "map canon_arg (VString ''connect'' # ?args) = [VString ''connect'', VNumber 0x3FF0000000000000,
      VObject (map (\<lambda>(k, v). (k, canon0 v)) (sort_entries ?kvs))]"
    by (simp add: canon_arg_def float_of_int_samples sort_entries_map_value)
  have app: "map_of (map (\<lambda>(k, v). (k, canon0 v)) (sort_entries ?kvs)) ''app'' = Some (VString (appName url))"
    by (simp add: map_of_map map_of_sort_entries[OF d] getConnectCmdObj_def)
  have "plain m" "MessageType m \<noteq> 1"
    using command_is_plain[of 0 "''connect''" ?args m] m assms(3)
    by (simp_all add: NewConnectMessage_def object_arg_def simple_arg_def leaf_def getConnectCmdObj_def short_url_def)
  then obtain b p where b: "utters (\<lambda>p. sendConnectMessage p (Some ?kvs)) NewChunkPacker b p" "sent NewChunkPacker [m] b p" "ready p"
    using command_uttered[OF ready_new m(1)] unfolding sendConnectMessage_def by blast
  have "send_connect c0 = (Inr (), cout b (c0\<lparr>cl_packer := p, cl_status := 10\<rparr>))"
    using assms(1) b(1) by (simp add: send_connect_def fresh_client_def bindIO_getS client_status_def modS_def)
  moreover have "at_point [m] [] ((cview c0)\<lparr>cl_status := 10\<rparr>) (hview h) (cout b (c0\<lparr>cl_packer := p, cl_status := 10\<rparr>), h)"
    using assms(1,2) b(2,3) in_step_new
    by (auto simp: at_point_def link_def fresh_client_def fresh_server_def sent_def ready_new cout_def cview_def)
  ultimately show thesis using m(2,3) c app that by simp
qed

lemma told_connected:
  assumes "cl_status cv = 10" "cl_transactionId cv = t" "streamName (cl_rtmpUrl cv) = name" "length name < 2 ^ 20"
  shows "cl_role cv = ''publish'' \<Longrightarrow> leads P (at_point cs connect_replies cv hv)
      (at_point (cs @ publisher_setup t name) [] (cv\<lparr>cl_transactionId := t + 3, cl_status := 20\<rparr>) hv)"
    "cl_role cv = ''play'' \<Longrightarrow> leads P (at_point cs connect_replies cv hv)
      (at_point (cs @ player_setup t) [] (cv\<lparr>cl_transactionId := t + 1, cl_status := 20\<rparr>) hv)"
proof -
  obtain m1 m2 m3 where m: "NewAckMessage 2500000 = Inr m1" "NewSetPeerBandwidthMessage 2500000 2 = Inr m2"
    "NewSetChunkSizeMessage 1024 = Inr m3" using constructors_total by metis
  obtain m4 where m4: "NewConnectSuccessMessage = Inr m4" using server_reply_bodies(1) by (rule carries_reads)
  have t: "MessageType m1 = 5" "MessageType m2 = 6"
    using m(1) more_control_plain(1)[OF m(2)] by (auto simp: NewAckMessage_def new_message_def bindE_eq_Inr)
  have e: "connect_replies = [m1, m2, m3, m4]" by (simp add: connect_replies_def m m4)
  have "leads P (at_point cs connect_replies cv hv) (at_point cs [m4] cv hv)"
    unfolding e by (intro leads_trans[OF client_ignores_control] leads_trans[OF client_ignores_control] client_chunk_size[OF m(3)])
      (simp_all add: t)
  with client_connected[OF m4 assms] show
    "cl_role cv = ''publish'' \<Longrightarrow> leads P (at_point cs connect_replies cv hv)
      (at_point (cs @ publisher_setup t name) [] (cv\<lparr>cl_transactionId := t + 3, cl_status := 20\<rparr>) hv)"
    "cl_role cv = ''play'' \<Longrightarrow> leads P (at_point cs connect_replies cv hv)
      (at_point (cs @ player_setup t) [] (cv\<lparr>cl_transactionId := t + 1, cl_status := 20\<rparr>) hv)"
    by (blast intro: leads_trans)+
qed

text \<open>The server answers the setup messages with the createStream result for the transaction asked.\<close>

lemma setup_answered:
  assumes "sv_status hv = 11" "length name < 2 ^ 20"
  obtains i m where "NewCreateStreamSuccessMessage i = Inr m"
    "leads P (at_point (publisher_setup t name) [] cv hv) (at_point [] [m] cv (hv\<lparr>sv_status := 21\<rparr>))"
    "i = float_trunc (float_of_int (uint (t + 2)))"
proof -
  note ex = commands_exist[OF assms(2), of "[]"]
  obtain m1 where m1: "NewSetChunkSizeMessage 1024 = Inr m1" using constructors_total(3) by blast
  obtain m2 where m2: "NewReleaseStreamMessage t name = Inr m2" using ex(1) by (auto simp: carries_def)
  obtain m3 where m3: "NewFCPublishMessage (t + 1) name = Inr m3" using ex(2) by (auto simp: carries_def)
  obtain m4 where m4: "NewCreateStreamMessage (t + 2) None = Inr m4" using ex(3) by (auto simp: carries_def)
  let ?i = "float_trunc (float_of_int (uint (t + 2)))"
  obtain m where m: "NewCreateStreamSuccessMessage ?i = Inr m" using server_reply_bodies(2) by (rule carries_reads)
  have c2: "reads_as (Payload m2) [VString ''releaseStream'', VNumber (float_of_int (uint t)), VNil, VString name]"
    "MessageType m2 = 20" using carries_Inr[OF ex(1) m2] by simp_all
  have c3: "reads_as (Payload m3) [VString ''FCPublish'', VNumber (float_of_int (uint (t + 1))), VNil, VString name]"
    "MessageType m3 = 20" using carries_Inr[OF ex(2) m3] by simp_all
  have c4: "reads_as (Payload m4) [VString ''createStream'', VNumber (float_of_int (uint (t + 2))), VNil]"
    "MessageType m4 = 20" using carries_Inr[OF ex(3) m4] by simp_all
  have "leads P (at_point [m1, m2, m3, m4] [] cv hv) (at_point [m2, m3, m4] [] cv hv)" by (rule server_chunk_size[OF m1])
  also have "leads P \<dots> (at_point [m3, m4] [] cv hv)" by (rule server_ignores_command[OF c2(2,1)]) simp
  also have "leads P \<dots> (at_point [m4] [] cv hv)" by (rule server_ignores_command[OF c3(2,1)]) simp
  also have "leads P \<dots> (at_point [] [m] cv (hv\<lparr>sv_status := 21\<rparr>))"
    using server_createStream[OF c4(2,1) assms(1), of P "[]" "[]" cv] m by simp
  finally show thesis using m that by (simp add: publisher_setup_def m1 m2 m3 m4)
qed

lemma player_setup_answered:
  assumes "sv_status hv = 11"
  obtains i m where "NewCreateStreamSuccessMessage i = Inr m"
    "leads P (at_point (player_setup t) [] cv hv) (at_point [] [m] cv (hv\<lparr>sv_status := 21\<rparr>))"
proof -
  obtain m1 m2 where m12: "NewSetChunkSizeMessage 1024 = Inr m1" "NewAckMessage 2500000 = Inr m2" using constructors_total by metis
  have ex: "carries (NewCreateStreamMessage t None) 0 [VString ''createStream'', VNumber (float_of_int (uint t)), VNil]"
    using commands_exist(3)[of "[]" "[]"] by simp
  then obtain m3 where m3: "NewCreateStreamMessage t None = Inr m3" by (auto simp: carries_def)
  let ?i = "float_trunc (float_of_int (uint t))"
  obtain m where m: "NewCreateStreamSuccessMessage ?i = Inr m" using server_reply_bodies(2) by (rule carries_reads)
  have c2: "MessageType m2 = 5" using m12(2) by (auto simp: NewAckMessage_def new_message_def bindE_eq_Inr)
  have c3: "reads_as (Payload m3) [VString ''createStream'', VNumber (float_of_int (uint t)), VNil]"
    "MessageType m3 = 20" using carries_Inr[OF ex m3] by simp_all
  have "leads P (at_point [m1, m2, m3] [] cv hv) (at_point [m2, m3] [] cv hv)" by (rule server_chunk_size[OF m12(1)])
  also have "leads P \<dots> (at_point [m3] [] cv hv)" by (rule server_ignores_control) (simp add: c2)
  also have "leads P \<dots> (at_point [] [m] cv (hv\<lparr>sv_status := 21\<rparr>))"
    using server_createStream[OF c3(2,1) assms, of P "[]" "[]" cv] m by simp
  finally show thesis using m that by (simp add: player_setup_def m12 m3)
qed

lemma play_told:
  assumes "cl_status cv = 40" "cl_role cv = ''play''"
  shows "leads P (at_point cs (play_replies sid) cv hv) (at_point cs [] (cv\<lparr>cl_status := 44\<rparr>) hv)"
proof -
  obtain m1 m2 where m: "NewUserControlCommandStreamIsRecorded sid = Inr m1" "NewUserControlCommandStreamBegin sid = Inr m2"
    using constructors_total by metis
  obtain m3 where m3: "NewPlayResetMessage sid = Inr m3" using play_bodies(1) by (rule carries_reads)
  obtain m4 where m4: "NewPlayStartMessage sid = Inr m4" using play_bodies(2) by (rule carries_reads)
  obtain m5 where m5: "NewDataStartMessage sid = Inr m5" using play_bodies(3) by (rule carries_reads)
  obtain m6 where m6: "NewPlayPublishNotifyMessage sid = Inr m6" using play_bodies(4) by (rule carries_reads)
  have "leads P (at_point cs [m1, m2, m3, m4, m5, m6] cv hv) (at_point cs [m2, m3, m4, m5, m6] (cv\<lparr>cl_status := 41\<rparr>) hv)"
    by (rule player_told(1)[OF _ m(1)]) (simp_all add: assms)
  also have "leads P \<dots> (at_point cs [m3, m4, m5, m6] (cv\<lparr>cl_status := 41, cl_status := 42\<rparr>) hv)"
    by (rule player_told(2)[OF _ m(2)]) (simp_all add: assms)
  also have "leads P \<dots> (at_point cs [m4, m5, m6] (cv\<lparr>cl_status := 42, cl_status := 43\<rparr>) hv)"
    using player_told(3)[OF _ m3, of "cv\<lparr>cl_status := 42\<rparr>"] by (simp add: assms)
  also have "leads P \<dots> (at_point cs [m5, m6] (cv\<lparr>cl_status := 43, cl_status := 44\<rparr>) hv)"
    using player_told(4)[OF _ m4, of "cv\<lparr>cl_status := 43\<rparr>"] by (simp add: assms)
  also have "leads P \<dots> (at_point cs [m6] (cv\<lparr>cl_status := 44\<rparr>) hv)"
    using player_told(5)[of "cv\<lparr>cl_status := 44\<rparr>" m5] server_messages_plain(6)[OF m5] by (simp add: assms)
  also have "leads P \<dots> (at_point cs [] (cv\<lparr>cl_status := 44\<rparr>) hv)"
    using player_told(5)[of "cv\<lparr>cl_status := 44\<rparr>" m6] server_messages_plain(7)[OF m6] by (simp add: assms)
  finally show ?thesis by (simp add: play_replies_def m m3 m4 m5 m6)
qed

lemma player_request_answered:
  assumes "map_of (sv_connetCmdObj hv) ''app'' = Some (VString app)" "length name < 2 ^ 20"
    "pad_OnSinkDetermined P \<lparr>h_ptr = sv_ptr hv, h_key = app @ ''-'' @ name\<rparr> (sv_pad hv) = Inr (None, x)"
  shows "leads P (at_point (player_request t name) [] cv hv) (at_point [] (play_replies 1) cv
    (hv\<lparr>sv_playCmdObj := (sv_playCmdObj hv)\<lparr>StreamName := name\<rparr>, sv_appStreamKey := app @ ''-'' @ name,
       sv_functionalStreamId := 1, sv_role := ''sink'', sv_pad := x, sv_status := 44\<rparr>))"
proof -
  note ex = commands_exist[OF assms(2), of "[]"]
  obtain m1 where m1: "NewGetStreamLengthMessage t name = Inr m1" using ex(5) by (auto simp: carries_def)
  obtain m2 where m2: "NewPlayMessage (t + 1) name (- 2000) = Inr m2" using ex(6) by (auto simp: carries_def)
  have r: "replicate 10 (0 :: byte) = [0, 0, 0, 0, 0, 0, 0, 0, 0, 0]" by (simp add: eval_nat_numeral)
  obtain m3 where m3: "NewSetBufferLengthMessage (t + 2) 1000 = Inr m3" "MessageType m3 = 4" "2 \<le> length (Payload m3)"
    by (auto simp: NewSetBufferLengthMessage_def put_at_def PutU32BE_def overwrite_def r new_message_def)
  have c1: "reads_as (Payload m1) [VString ''getStreamLength'', VNumber (float_of_int (uint t)), VNil, VString name]"
    "MessageType m1 = 20" using carries_Inr[OF ex(5) m1] by simp_all
  have c2: "reads_as (Payload m2) [VString ''play'', VNumber (float_of_int (uint (t + 1))), VNil, VString name, VNumber (float_of_int (- 2000))]"
    "MessageType m2 = 20" "StreamID m2 = 1" using carries_Inr[OF ex(6) m2] by simp_all
  let ?h = "hv\<lparr>sv_playCmdObj := (sv_playCmdObj hv)\<lparr>StreamName := name\<rparr>, sv_appStreamKey := app @ ''-'' @ name,
       sv_functionalStreamId := StreamID m2, sv_role := ''sink'', sv_pad := x, sv_status := 44\<rparr>"
  have "leads P (at_point [m1, m2, m3] [] cv hv) (at_point [m2, m3] [] cv hv)" by (rule server_ignores_command[OF c1(2,1)]) simp
  also have "leads P \<dots> (at_point [m3] ([] @ play_replies (StreamID m2)) cv ?h)"
    by (rule server_play[OF c2(2,1) assms(1,3)])
  also have "leads P \<dots> (at_point [] ([] @ play_replies (StreamID m2)) cv ?h)"
    by (rule server_ignores_control) (simp add: m3)
  finally show ?thesis by (simp add: player_request_def m1 m2 m3(1) c2(3))
qed

text \<open>Everything said and read: both sides idle.\<close>

definition idle :: "RtmpClientHandler \<Rightarrow> 'x RtmpHandler \<Rightarrow> bool" where
  "idle c h \<longleftrightarrow> link c h [] []"

lemma leadsD: "leads P A B \<Longrightarrow> A s \<Longrightarrow> \<exists>s'. (dialogue P)\<^sup>*\<^sup>* s s' \<and> B s'"
  unfolding leads_def by blast

lemma url_views:
  "fresh_client url role c \<Longrightarrow> cl_rtmpUrl (cview c) = url \<and> cl_transactionId (cview c) = 1 \<and> cl_role (cview c) = role"
  "fresh_server h \<Longrightarrow> sv_status (hview h) = 3 \<and> sv_pad (hview h) = sv_pad h \<and> sv_ptr (hview h) = sv_ptr h"
  by (auto simp: fresh_client_def cview_def fresh_server_def hview_def)

lemma ends_view:
  assumes "cview c = cv" "hview h = hv"
  shows "cl_status c = cl_status cv" "cl_functionalStreamId c = cl_functionalStreamId cv" "sv_status h = sv_status hv"
    "sv_role h = sv_role hv" "sv_appStreamKey h = sv_appStreamKey hv" "sv_putMsg h = sv_putMsg hv" "sv_pad h = sv_pad hv"
    "sv_functionalStreamId h = sv_functionalStreamId hv"
  unfolding assms[symmetric] by (simp_all add: cview_def hview_def)

context pad begin

lemma publish_session:
  assumes start: "fresh_client url ''publish'' c0" "fresh_server h0" "short_url url"
    and pad: "settled (sv_pad h0)" "free key (sv_pad h0)" and key: "key = appName url @ ''-'' @ streamName url"
  shows "\<exists>c. send_connect c0 = (Inr (), c) \<and> (\<exists>c' h'. (dialogue P)\<^sup>*\<^sup>* (c, h0) (c', h') \<and> idle c' h' \<and>
    cl_status c' = rtmp_state_publish_success \<and> cl_functionalStreamId c' = 1 \<and>
    sv_status h' = rtmp_state_publish_success \<and> sv_role h' = ''source'' \<and> sv_appStreamKey h' = key \<and> sv_putMsg h' \<noteq> None \<and>
    settled (sv_pad h') \<and> (\<forall>k. free k (sv_pad h') \<longleftrightarrow> free k (sv_pad h0) \<and> k \<noteq> key))"
proof -
  let ?cv = "(cview c0)\<lparr>cl_status := 10\<rparr>" and ?hv = "hview h0" and ?name = "streamName url" and ?app = "appName url"
  have len: "length ?name < 2 ^ 20" "length ?app < 2 ^ 20" using start(3) by (simp_all add: short_url_def)
  note v = url_views(1)[OF start(1)] url_views(2)[OF start(2)]
  obtain c m obj where c: "send_connect c0 = (Inr (), c)" "at_point [m] [] ?cv ?hv (c, h0)" "MessageType m = 20"
    "reads_as (Payload m) [VString ''connect'', VNumber 0x3FF0000000000000, VObject obj]" "map_of obj ''app'' = Some (VString ?app)"
    by (rule connect_sent[OF start])
  obtain n x where x: "pad_OnSourceDetermined P \<lparr>h_ptr = sv_ptr h0, h_key = key\<rparr> (sv_pad h0) = Inr ((n, None), x)"
    "settled x" "\<forall>k. free k x \<longleftrightarrow> free k (sv_pad h0) \<and> k \<noteq> key" using source_accepted[OF pad(1), of "\<lparr>h_ptr = sv_ptr h0, h_key = key\<rparr>"] pad(2) by auto
  let ?h1 = "?hv\<lparr>sv_connetCmdObj := obj, sv_status := 11\<rparr>" and ?c1 = "?cv\<lparr>cl_transactionId := 1 + 3, cl_status := 20\<rparr>"
  have h1: "sv_status ?h1 = 11" by simp
  obtain i m1 where m1: "NewCreateStreamSuccessMessage i = Inr m1"
    "leads P (at_point (publisher_setup 1 ?name) [] ?c1 ?h1) (at_point [] [m1] ?c1 (?h1\<lparr>sv_status := 21\<rparr>))"
    by (rule setup_answered[OF h1 len(1)])
  let ?h2 = "?h1\<lparr>sv_status := 21\<rparr>" and ?c2 = "?c1\<lparr>cl_functionalStreamId := 1, cl_transactionId := 4 + 1, cl_status := 30\<rparr>"
  obtain m2 where m2: "NewPublishMessage 4 ?app ?name = Inr m2" using commands_exist(4)[OF len] by (auto simp: carries_def)
  have r2: "reads_as (Payload m2) [VString ''publish'', VNumber (float_of_int (uint (4 :: u32))), VNil, VString ?name, VString ?app]"
    "MessageType m2 = 20" using carries_Inr[OF commands_exist(4)[OF len] m2] by simp_all
  obtain m3 where m3: "NewPublishSuccessMessage = Inr m3" using server_reply_bodies(3) by (rule carries_reads)
  let ?h3 = "?h2\<lparr>sv_publishCmdObj := \<lparr>PublishName = ?name, PublishType = ?app\<rparr>, sv_appStreamKey := ?app @ ''-'' @ ?name,
       sv_putMsg := Some n, sv_role := ''source'', sv_pad := x, sv_status := 31\<rparr>" and ?c3 = "?c2\<lparr>cl_status := 31\<rparr>"
  have pub: "leads P (at_point [m2] [] ?c2 ?h2) (at_point [] ([] @ [projr NewPublishSuccessMessage]) ?c2 ?h3)"
    by (rule server_publish[OF r2(2,1)]) (use c(5) v x(1) key in simp_all)
  have "leads P (at_point [m] [] ?cv ?hv) (at_point [] connect_replies ?cv ?h1)"
    using server_connect[OF c(3,4), of ?hv P "[]" "[]" ?cv] v by simp
  also have "leads P \<dots> (at_point (publisher_setup 1 ?name) [] ?c1 ?h1)"
    using told_connected(1)[of ?cv 1 ?name P "[]" ?h1] v len by simp
  also note m1(2)
  also have "leads P (at_point [] [m1] ?c1 ?h2) (at_point [m2] [] ?c2 ?h2)"
    using client_created(1)[OF m1(1), of ?c1 4 ?name ?app P "[]" "[]" ?h2] v len m2 by simp
  also have "leads P \<dots> (at_point [] [m3] ?c2 ?h3)"
    using pub unfolding m3 append_Nil sum.sel .
  also have "leads P \<dots> (at_point [] [] ?c3 ?h3)"
    by (rule client_published[OF m3]) (simp_all add: v)
  finally have "leads P (at_point [m] [] ?cv ?hv) (at_point [] [] ?c3 ?h3)" .
  from leadsD[OF this c(2)] obtain c' h' where run: "(dialogue P)\<^sup>*\<^sup>* (c, h0) (c', h')" "at_point [] [] ?c3 ?h3 (c', h')"
    by (elim exE conjE) (metis surj_pair)
  have "cview c' = ?c3" "hview h' = ?h3" using run(2) by (simp_all add: at_point_def)
  note e = ends_view[OF this]
  have "cl_status c' = 31 \<and> cl_functionalStreamId c' = 1 \<and> sv_status h' = 31 \<and> sv_role h' = ''source'' \<and>
      sv_appStreamKey h' = key \<and> sv_putMsg h' = Some n \<and> sv_pad h' = x"
    unfolding e by (simp add: key)
  with c(1) run x(2,3) show ?thesis by (auto simp: idle_def at_point_def)
qed

end

context pad begin

lemma play_session:
  assumes start: "fresh_client url ''play'' c0" "fresh_server h0" "short_url url"
    and key: "key = appName url @ ''-'' @ streamName url"
    and pad: "settled (sv_pad h0)" "absent \<lparr>h_ptr = sv_ptr h0, h_key = key\<rparr> (sv_pad h0)"
  shows "\<exists>c. send_connect c0 = (Inr (), c) \<and> (\<exists>c' h'. (dialogue P)\<^sup>*\<^sup>* (c, h0) (c', h') \<and> idle c' h' \<and>
    cl_status c' = rtmp_state_play_start \<and> cl_functionalStreamId c' = 1 \<and>
    sv_status h' = rtmp_state_play_start \<and> sv_role h' = ''sink'' \<and> sv_appStreamKey h' = key \<and> sv_functionalStreamId h' = 1 \<and>
    settled (sv_pad h') \<and> joined \<lparr>h_ptr = sv_ptr h0, h_key = key\<rparr> (sv_pad h') \<and> (\<forall>k. free k (sv_pad h') \<longleftrightarrow> free k (sv_pad h0)))"
proof -
  let ?cv = "(cview c0)\<lparr>cl_status := 10\<rparr>" and ?hv = "hview h0" and ?name = "streamName url" and ?app = "appName url"
  have len: "length ?name < 2 ^ 20" "length ?app < 2 ^ 20" using start(3) by (simp_all add: short_url_def)
  note v = url_views(1)[OF start(1)] url_views(2)[OF start(2)]
  obtain c m obj where c: "send_connect c0 = (Inr (), c)" "at_point [m] [] ?cv ?hv (c, h0)" "MessageType m = 20"
    "reads_as (Payload m) [VString ''connect'', VNumber 0x3FF0000000000000, VObject obj]" "map_of obj ''app'' = Some (VString ?app)"
    by (rule connect_sent[OF start])
  obtain x where x: "pad_OnSinkDetermined P \<lparr>h_ptr = sv_ptr h0, h_key = key\<rparr> (sv_pad h0) = Inr (None, x)"
    "settled x" "joined \<lparr>h_ptr = sv_ptr h0, h_key = key\<rparr> x" "\<forall>k. free k x \<longleftrightarrow> free k (sv_pad h0)" using sink_accepted[OF pad] by auto
  let ?h1 = "?hv\<lparr>sv_connetCmdObj := obj, sv_status := 11\<rparr>" and ?c1 = "?cv\<lparr>cl_transactionId := 1 + 1, cl_status := 20\<rparr>"
  have h1: "sv_status ?h1 = 11" by simp
  obtain i m1 where m1: "NewCreateStreamSuccessMessage i = Inr m1"
    "leads P (at_point (player_setup 1) [] ?c1 ?h1) (at_point [] [m1] ?c1 (?h1\<lparr>sv_status := 21\<rparr>))"
    by (rule player_setup_answered[OF h1])
  let ?h2 = "?h1\<lparr>sv_status := 21\<rparr>" and ?c2 = "?c1\<lparr>cl_functionalStreamId := 1, cl_transactionId := 2 + 3, cl_status := 40\<rparr>"
  let ?h3 = "?h2\<lparr>sv_playCmdObj := (sv_playCmdObj ?h2)\<lparr>StreamName := ?name\<rparr>, sv_appStreamKey := ?app @ ''-'' @ ?name,
       sv_functionalStreamId := 1, sv_role := ''sink'', sv_pad := x, sv_status := 44\<rparr>" and ?c3 = "?c2\<lparr>cl_status := 44\<rparr>"
  have req: "leads P (at_point (player_request 2 ?name) [] ?c2 ?h2) (at_point [] (play_replies 1) ?c2 ?h3)"
    by (rule player_request_answered) (use c(5) v x(1) key len in simp_all)
  have "leads P (at_point [m] [] ?cv ?hv) (at_point [] connect_replies ?cv ?h1)"
    using server_connect[OF c(3,4), of ?hv P "[]" "[]" ?cv] v by simp
  also have "leads P \<dots> (at_point (player_setup 1) [] ?c1 ?h1)"
    using told_connected(2)[of ?cv 1 ?name P "[]" ?h1] v len by simp
  also note m1(2)
  also have "leads P (at_point [] [m1] ?c1 ?h2) (at_point (player_request 2 ?name) [] ?c2 ?h2)"
    using client_created(2)[OF m1(1), of ?c1 2 ?name ?app P "[]" "[]" ?h2] v len by simp
  also note req
  also have "leads P (at_point [] (play_replies 1) ?c2 ?h3) (at_point [] [] ?c3 ?h3)"
    by (rule play_told) (simp_all add: v)
  finally have "leads P (at_point [m] [] ?cv ?hv) (at_point [] [] ?c3 ?h3)" .
  from leadsD[OF this c(2)] obtain c' h' where run: "(dialogue P)\<^sup>*\<^sup>* (c, h0) (c', h')" "at_point [] [] ?c3 ?h3 (c', h')"
    by (elim exE conjE) (metis surj_pair)
  have "cview c' = ?c3" "hview h' = ?h3" using run(2) by (simp_all add: at_point_def)
  note e = ends_view[OF this]
  have "cl_status c' = 44 \<and> cl_functionalStreamId c' = 1 \<and> sv_status h' = 44 \<and> sv_role h' = ''sink'' \<and>
      sv_appStreamKey h' = key \<and> sv_functionalStreamId h' = 1 \<and> sv_pad h' = x"
    unfolding e by (simp add: key)
  with c(1) run x(2-4) show ?thesis by (auto simp: idle_def at_point_def)
qed

end

end
