(* ===== verification/Exchange_Run.thy ===== *)
theory Exchange_Run
  imports Exchange
begin

text \<open>
  Runs of the exchange: every interleaving of the handlers, the pairing goroutine, the sources and the
  sinks as a step relation, its reachable states and what holds in them; the fate of a second publisher;
  and the order in which a player that joins gets its data.

  A handler waits for the answer to a registration, so making the object and registering it is one
  step; a handler may leave at any time, also one that never registered, and its key may change at any
  time, also after it has registered.
\<close>

section \<open>Steps\<close>

inductive xstep :: "exchange \<Rightarrow> exchange \<Rightarrow> bool" where
  publish: "x_src x n = None \<Longrightarrow> OnSourceDetermined n h x = Inr (err, x') \<Longrightarrow> xstep x x'"
| play: "x_snk x n = None \<Longrightarrow> OnSinkDetermined n h x = Inr (err, x') \<Longrightarrow> xstep x x'"
| unpublish: "pairPad (OnDestroySource h) x = Inr (err, x') \<Longrightarrow> xstep x x'"
| stop: "pairPad (OnDestroySink h) x = Inr (err, x') \<Longrightarrow> xstep x x'"
| put: "putData n d x = Inr (err, x') \<Longrightarrow> xstep x x'"
| serve: "source_work n x = Inr x' \<Longrightarrow> xstep x x'"
| finish: "source_done n x = Inr x' \<Longrightarrow> xstep x x'"
| deliver: "sink_work n x = Inr (d, x') \<Longrightarrow> xstep x x'"
| rename: "xstep x (rekey p key x)"

inductive reachable :: "exchange \<Rightarrow> bool" where
  start: "reachable new_exchange"
| step: "reachable x \<Longrightarrow> xstep x x' \<Longrightarrow> reachable x'"

lemma exchange_ok_new_exchange: "exchange_ok new_exchange"
proof -
  have "held new_exchange p = []" for p by (cases p) (simp_all add: held_cases new_exchange_def)
  then show ?thesis by (simp add: exchange_ok_def owned_def) (simp add: new_exchange_def)
qed

text \<open>What the calls of a handler that registers do in a well-formed exchange.\<close>

lemma OnSourceDetermined_ok:
  assumes "exchange_ok x" "x_src x n = None"
  shows "\<exists>x'. OnSourceDetermined n h x =
      Inr (if receivers (x_pool x) (h_key h) = None then None else Some (Errorf ''is already exits''), x') \<and> exchange_ok x' \<and>
    receivers (x_pool x') = (if receivers (x_pool x) (h_key h) = None then (receivers (x_pool x))(h_key h \<mapsto> n) else receivers (x_pool x)) \<and>
    x_src x' n = Some (new_Source h\<lparr>s_srcChan := if receivers (x_pool x) (h_key h) = None then
      map (RegisterSink \<circ> snd) (case waitingSenders (x_pool x) (h_key h) of None \<Rightarrow> [] | Some ws \<Rightarrow> ws) else []\<rparr>)"
proof -
  let ?y = "set_src n (new_Source h) x"
  have y: "x_src ?y n = Some (new_Source h)" "s_handler (new_Source h) = h" "s_srcChan (new_Source h) = []" "x_pool ?y = x_pool x"
    by (simp_all add: new_Source_def)
  have e: "new_Source h\<lparr>s_srcChan := []\<rparr> = new_Source h" by (simp add: new_Source_def)
  have fresh: "receivers (x_pool ?y) k \<noteq> Some n" for k using exchange_ok_new(3)[OF assms] by simp
  from handleRegisterSource_ok[OF exchange_ok_new(1)[OF assms] y(1) fresh] show ?thesis
    unfolding y(2-4) using e y(1) by (cases "receivers (x_pool x) (h_key h)") (auto simp: OnSourceDetermined_def)
qed

lemma OnSinkDetermined_ok:
  assumes "exchange_ok x" "x_snk x n = None"
  shows "if \<exists>ws. waitingSenders (x_pool x) (h_key h) = Some ws \<and> keyInSrc h \<in> fst ` set ws
    then OnSinkDetermined n h x = Inl (Panic (keyInSrc h @ '' has waited''))
    else \<exists>x'. OnSinkDetermined n h x = Inr (None, x') \<and> exchange_ok x' \<and> receivers (x_pool x') = receivers (x_pool x) \<and>
      (\<exists>sink. x_snk x' n = Some sink \<and> k_handler sink = h) \<and>
      (case receivers (x_pool x) (h_key h) of
         None \<Rightarrow> \<exists>ws. waitingSenders (x_pool x') (h_key h) = Some ws \<and> (keyInSrc h, n) \<in> set ws
       | Some i \<Rightarrow> \<exists>s. x_src x' i = Some s \<and> RegisterSink n \<in> set (s_srcChan s))"
proof -
  have k: "x_snk (set_snk n (new_Sink h) x) n = Some (new_Sink h)" "k_handler (new_Sink h) = h" "x_pool (set_snk n (new_Sink h) x) = x_pool x"
    by (simp_all add: new_Sink_def)
  from handleRegisterSink_ok[OF exchange_ok_new(2)[OF assms] k(1) exchange_ok_new(4)[OF assms]] show ?thesis
    unfolding k(2,3) by (simp add: OnSinkDetermined_def)
qed

lemma xstep_ok:
  assumes "xstep x x'" "exchange_ok x"
  shows "exchange_ok x'"
  using assms
proof (induction rule: xstep.induct)
  case (publish x n h err x')
  from OnSourceDetermined_ok[OF publish(3,1), of h] publish(2) show ?case by auto
next
  case (play x n h err x')
  from OnSinkDetermined_ok[OF play(3,1), of h] play(2) show ?case by (auto split: if_splits)
next
  case (unpublish h x err x')
  with handleUnregisterSource_ok[of x h] show ?case
    by (auto simp: OnDestroySource_def bindE_eq_Inr split: if_splits)
next
  case (stop h x err x')
  with handleUnregisterSink_ok[of x h] show ?case by (auto simp: OnDestroySink_def bindE_eq_Inr)
next
  case (put n d x err x')
  then show ?case by (blast intro: putData_ok)
next
  case (serve n x x')
  then obtain s where "x_src x n = Some s" by (auto simp: source_work_def bindE_eq_Inr the_Inr)
  from source_work_ok[OF serve(2) this] serve(1) show ?case by auto
next
  case (finish n x x')
  then obtain s where s: "x_src x n = Some s" by (auto simp: source_done_def bindE_eq_Inr the_Inr)
  have "\<forall>e\<in>set (s_sinks s). \<exists>key. named_sink x key e"
    using exchange_okD(3)[OF finish(2) s] by (simp add: source_ok_def)
  from cancelSinks_ok[OF finish(2) this] finish(1) s show ?case by (auto simp: source_done_def)
next
  case (deliver n x d x')
  then show ?case by (blast intro: sink_work_ok)
next
  case (rename x p key)
  then show ?case by (rule rekey_ok[rotated -1])
qed

lemma reachable_ok: "reachable x \<Longrightarrow> exchange_ok x"
  by (induction rule: reachable.induct) (auto intro: exchange_ok_new_exchange xstep_ok)


text \<open>C27: When the pairing goroutine crashes (and with it the server): on any message about existing objects,
  in any reachable state, exactly when a source is unregistered whose key is not registered, or when a
  player registers that is waiting already.\<close>

theorem pairing_crash_iff:
  assumes "reachable x" and "\<And>n. m = RegisterSource n \<Longrightarrow> x_src x n \<noteq> None" and "\<And>j. m = RegisterSink j \<Longrightarrow> x_snk x j \<noteq> None"
  shows "(\<exists>e. pairPad m x = Inl e) \<longleftrightarrow>
    (\<exists>h. m = UnregisterSource h \<and> receivers (x_pool x) (h_key h) = None) \<or>
    (\<exists>j k ws. m = RegisterSink j \<and> x_snk x j = Some k \<and> waitingSenders (x_pool x) (h_key (k_handler k)) = Some ws \<and>
       keyInSrc (k_handler k) \<in> fst ` set ws)"
proof -
  note ok = reachable_ok[OF assms(1)]
  show ?thesis
  proof (cases m)
    case (RegisterSource n)
    then obtain s where "x_src x n = Some s" using assms(2) by blast
    from handleRegisterSource_runs[OF this] RegisterSource show ?thesis by simp
  next
    case (RegisterSink j)
    then obtain k where "x_snk x j = Some k" using assms(3) by blast
    from handleRegisterSink_runs[OF ok this] this RegisterSink show ?thesis by auto
  next
    case (UnregisterSource h)
    with handleUnregisterSource_ok[OF ok, of h] show ?thesis by (auto split: if_splits)
  next
    case (UnregisterSink h)
    with handleUnregisterSink_ok[OF ok, of h] show ?thesis by auto
  qed simp
qed

text \<open>A run: a player asks for a key, a publisher comes, the player is connected.\<close>

definition demo_pub :: StreamHandler where "demo_pub = \<lparr>h_ptr = 1, h_key = ''live-a''\<rparr>"
definition demo_player :: StreamHandler where "demo_player = \<lparr>h_ptr = 2, h_key = ''live-a''\<rparr>"

definition demo_run :: "exchange res" where
  "demo_run =
     bindE (OnSinkDetermined 0 demo_player new_exchange) (\<lambda>(e, x).
     bindE (OnSourceDetermined 0 demo_pub x) (\<lambda>(e, x). source_work 0 x))"

lemma reachable_bind:
  assumes "reachable x"
  shows "x_src x n = None \<Longrightarrow> OnSourceDetermined n h x = Inr (e, x') \<Longrightarrow> reachable x'"
    and "x_snk x n = None \<Longrightarrow> OnSinkDetermined n h x = Inr (e, x') \<Longrightarrow> reachable x'"
    and "source_work n x = Inr x' \<Longrightarrow> reachable x'"
  using assms by (blast intro: reachable.step xstep.intros)+

lemma demo_run_reachable:
  obtains x s where "demo_run = Inr x" "reachable x" "x_src x 0 = Some s" "map snd (s_sinks s) = [0]"
    "receivers (x_pool x) ''live-a'' = Some 0"
proof -
  obtain x1 where x1: "OnSinkDetermined 0 demo_player new_exchange = Inr (None, x1)"
    "x_src x1 0 = None" "receivers (x_pool x1) ''live-a'' = None"
    by (auto simp: OnSinkDetermined_def handleRegisterSink_def addObserver_def new_exchange_def demo_player_def
        new_Sink_def Let_def the_snk_def)
  have r1: "reachable x1" by (rule reachable_bind(2)[OF reachable.start _ x1(1)]) (simp add: new_exchange_def)
  have "bindE demo_run (\<lambda>x. Inr (map_option (\<lambda>s. map snd (s_sinks s)) (x_src x 0), receivers (x_pool x) ''live-a'')) = Inr (Some [0], Some 0)"
    by code_simp
  then obtain x where x: "demo_run = Inr x" "map_option (\<lambda>s. map snd (s_sinks s)) (x_src x 0) = Some [0]"
    "receivers (x_pool x) ''live-a'' = Some 0" by (auto simp: bindE_eq_Inr)
  then obtain e2 x2 where x2: "OnSourceDetermined 0 demo_pub x1 = Inr (e2, x2)" "source_work 0 x2 = Inr x"
    using x1(1) by (auto simp: demo_run_def bindE_eq_Inr)
  have "reachable x" by (rule reachable_bind(3)[OF reachable_bind(1)[OF r1 x1(2) x2(1)] x2(2)])
  with x that show ?thesis by auto
qed


theorem pairing_crash_iff_witness:
  "\<exists>e. pairPad (UnregisterSource demo_pub) new_exchange = Inl e"
  using pairing_crash_iff [OF reachable.start, of "UnregisterSource demo_pub"]
  by (simp add: new_exchange_def)

section \<open>A second publisher\<close>

text \<open>C28: A second publisher of a key takes down the first: its registration is refused, but when its
  handler stops (which it does at once, as a source) it unregisters the key of the first.  From then on
  new players of the key wait although the first publisher is still sending, and when the first one
  leaves the pairing goroutine panics.\<close>

theorem second_publisher_crash:
  assumes "reachable x" and "receivers (x_pool x) (h_key h1) = None" and "h_key h2 = h_key h1"
    and "x_src x n1 = None" and "x_src x n2 = None" and "n1 \<noteq> n2"
  shows "\<exists>x1 x2 x3. OnSourceDetermined n1 h1 x = Inr (None, x1) \<and>
    OnSourceDetermined n2 h2 x1 = Inr (Some (Errorf ''is already exits''), x2) \<and>
    pairPad (OnDestroySource h2) x2 = Inr (None, x3) \<and>
    receivers (x_pool x3) (h_key h1) = None \<and> x_src x3 n1 \<noteq> None \<and>
    pairPad (OnDestroySource h1) x3 = Inl (Panic (h_key h1 @ '' source not registerd''))"
proof -
  from OnSourceDetermined_ok[OF reachable_ok[OF assms(1)] assms(4), of h1] assms(2)
  obtain x1 where x1: "OnSourceDetermined n1 h1 x = Inr (None, x1)"
    "receivers (x_pool x1) (h_key h1) = Some n1" "x_src x1 n1 \<noteq> None" by auto
  have r1: "reachable x1" by (rule reachable_bind(1)[OF assms(1,4) x1(1)])
  let ?x1 = "set_src n2 (new_Source h2) x1"
  have x2: "OnSourceDetermined n2 h2 x1 = Inr (Some (Errorf ''is already exits''), ?x1)"
    using x1(2) assms(3) by (simp add: OnSourceDetermined_def handleRegisterSource_def new_Source_def Let_def)
  define x3 where "x3 = upd_pool (\<lambda>p. p\<lparr>receivers := (receivers p)(h_key h2 := None)\<rparr>) ?x1"
  have "pairPad (OnDestroySource h2) ?x1 = Inr (None, x3)"
    using x1(2) assms(3) by (simp add: OnDestroySource_def handleUnregisterSource_def Let_def x3_def)
  moreover have "receivers (x_pool x3) (h_key h1) = None" "x_src x3 n1 \<noteq> None"
    using assms(3,6) x1(3) by (simp_all add: x3_def)
  moreover from this(1) have "pairPad (OnDestroySource h1) x3 = Inl (Panic (h_key h1 @ '' source not registerd''))"
    by (simp add: OnDestroySource_def handleUnregisterSource_def)
  ultimately show ?thesis using x1(1) x2 by blast
qed

theorem second_publisher_crash_witness:
  "\<exists>x1 x2 x3. OnSourceDetermined 0 demo_pub new_exchange = Inr (None, x1) \<and>
     OnSourceDetermined 1 demo_player x1 = Inr (Some (Errorf ''is already exits''), x2) \<and>
     pairPad (OnDestroySource demo_player) x2 = Inr (None, x3) \<and>
     pairPad (OnDestroySource demo_pub) x3 = Inl (Panic ''live-a source not registerd'')"
  using second_publisher_crash [OF reachable.start, of demo_pub demo_player 0 1]
  by (auto simp: new_exchange_def demo_pub_def demo_player_def)

section \<open>Delivery\<close>

lemma kept_sinks:
  assumes "source_ok x s"
  shows "filter (\<lambda>e. \<not> (\<exists>j. (fst e, j) \<in> set (s_sinks s) \<and> \<not> room x j)) (s_sinks s) =
    filter (\<lambda>e. room x (snd e)) (s_sinks s)"
proof (rule filter_cong[OF refl])
  fix e assume e: "e \<in> set (s_sinks s)"
  have "inj_on fst (set (s_sinks s))" using assms by (simp add: source_ok_def distinct_map)
  then have "j = snd e" if "(fst e, j) \<in> set (s_sinks s)" for j
    using inj_onD[of fst "set (s_sinks s)" "(fst e, j)" e] that e by (metis fst_conv snd_conv)
  then show "(\<not> (\<exists>j. (fst e, j) \<in> set (s_sinks s) \<and> \<not> room x j)) = room x (snd e)"
    using e by (metis prod.collapse)
qed

text \<open>C25: One frame reaches every player: when a source of a reachable exchange handles a message that is
  not a data message, each connected player with room for it gets it, with its time, type and payload, at
  the end of its channel; each player that has 50 messages waiting is cancelled and leaves the source;
  every other player and every other source is as before.\<close>

theorem frame_fan_out:
  assumes "reachable x" and "x_src x i = Some s" and "ex_DataType m \<notin> {DataTypeDataAMF0, DataTypeDataAMF3}"
  shows "\<exists>x' s'. handleRtmpMessage i m x = Inr x' \<and> x_src x' i = Some s' \<and>
    s_sinks s' = filter (\<lambda>e. room x (snd e)) (s_sinks s) \<and> (\<forall>n. n \<noteq> i \<longrightarrow> x_src x' n = x_src x n) \<and>
    (\<forall>j. x_snk x' j = (if j \<in> snd ` set (s_sinks s) \<and> room x j
       then map_option (\<lambda>k. k\<lparr>k_msgChan := k_msgChan k @
         [\<lparr>ex_Timestamp = ex_Timestamp m, ex_DataType = ex_DataType m, ex_AvFormat = 0, ex_OriginProtocol = 0,
           ex_Payload = ex_Payload m\<rparr>]\<rparr>) (x_snk x j)
       else x_snk x j)) \<and>
    set (x_cancelled x') = set (x_cancelled x) \<union>
      (\<lambda>e. h_ptr (k_handler (the (x_snk x (snd e))))) ` {e \<in> set (s_sinks s). \<not> room x (snd e)}"
proof -
  have so: "source_ok x s" using exchange_okD(3)[OF reachable_ok[OF assms(1)] assms(2)] .
  obtain s' m' x' where h: "handleRtmpMessage i m x = Inr x'" "s_sinks s' = s_sinks s"
    "fanned_out i (s_sinks s) m' (set_src i s' x) x'" "m' = m"
    using handleRtmpMessage_fans[OF assms(2) so, of m] assms(3) by auto
  have r: "room (set_src i s' x) j = room x j" for j by (simp add: room_def)
  have "x_src x' = (x_src x)(i \<mapsto> s'\<lparr>s_sinks := filter (\<lambda>e. room x (snd e)) (s_sinks s)\<rparr>)"
    using h(2,3) kept_sinks[OF so] by (simp add: fanned_out_def r)
  then show ?thesis using h(1,3,4) unfolding fanned_out_def r
    by (auto simp: push_chan_def[abs_def] toSinkMsg_def overrun_def r)
qed

definition demo_keyframe :: ExData where
  "demo_keyframe = \<lparr>ex_Timestamp = 40, ex_DataType = 4, ex_AvFormat = 0, ex_OriginProtocol = 1, ex_Payload = [0x17, 1]\<rparr>"

theorem frame_fan_out_witness:
  "\<exists>x x' k. demo_run = Inr x \<and> handleRtmpMessage 0 demo_keyframe x = Inr x' \<and>
     x_snk x' 0 = Some k \<and> map ex_Payload (k_msgChan k) = [[0x17, 1]]"
proof -
  obtain x s where x: "demo_run = Inr x" "reachable x" "x_src x 0 = Some s" "map snd (s_sinks s) = [0]"
    by (rule demo_run_reachable)
  have "bindE demo_run (\<lambda>x. Inr (map_option k_msgChan (x_snk x 0))) = Inr (Some [])" by code_simp
  then have "map_option k_msgChan (x_snk x 0) = Some []" unfolding x(1) bindE.simps by (rule sum.inject(2)[THEN iffD1])
  then obtain k where k: "x_snk x 0 = Some k" "k_msgChan k = []" by auto
  have "0 \<in> snd ` set (s_sinks s)" using x(4) by (metis list.set_map list.set_intros(1))
  moreover have "room x 0" using k by (simp add: room_def)
  moreover have "ex_DataType demo_keyframe \<notin> {7, 8}" by (simp add: demo_keyframe_def)
  from frame_fan_out [OF x(2,3) this] obtain x' where "handleRtmpMessage 0 demo_keyframe x = Inr x'"
    and "\<forall>j. x_snk x' j = (if j \<in> snd ` set (s_sinks s) \<and> room x j
       then map_option (\<lambda>k. k\<lparr>k_msgChan := k_msgChan k @
         [\<lparr>ex_Timestamp = ex_Timestamp demo_keyframe, ex_DataType = ex_DataType demo_keyframe, ex_AvFormat = 0,
           ex_OriginProtocol = 0, ex_Payload = ex_Payload demo_keyframe\<rparr>]\<rparr>) (x_snk x j)
       else x_snk x j)" by blast
  ultimately have "handleRtmpMessage 0 demo_keyframe x = Inr x'" "x_snk x' 0 = Some (k\<lparr>k_msgChan := [toSinkMsg demo_keyframe]\<rparr>)"
    using k by (simp_all add: toSinkMsg_def)
  then show ?thesis using x(1) by (auto simp: toSinkMsg_def demo_keyframe_def)
qed

text \<open>Rounds of the goroutine of a source.\<close>

fun source_works :: "nat \<Rightarrow> nat \<Rightarrow> exchange \<Rightarrow> exchange res" where
  "source_works 0 i x = Inr x"
| "source_works (Suc n) i x = bindE (source_work i x) (source_works n i)"

lemma frames_delivered:
  assumes "exchange_ok x" "x_src x i = Some s" "s_srcChan s = map DataMessage fs"
    and "j \<in> snd ` set (s_sinks s)" "x_snk x j = Some k" "length (k_msgChan k) + length fs \<le> 50"
    and "\<forall>f\<in>set fs. ex_DataType f \<notin> {DataTypeDataAMF0, DataTypeDataAMF3}"
  shows "\<exists>x' k'. source_works (length fs) i x = Inr x' \<and> x_snk x' j = Some k' \<and>
    k_msgChan k' = k_msgChan k @ map toSinkMsg fs"
  using assms
proof (induction fs arbitrary: x s k)
  case Nil
  then show ?case by simp
next
  case (Cons f fs)
  let ?s = "s\<lparr>s_srcChan := map DataMessage fs\<rparr>" and ?x = "set_src i (s\<lparr>s_srcChan := map DataMessage fs\<rparr>) x"
  have so: "source_ok x ?s" using exchange_okD(3)[OF Cons.prems(1,2)] Cons.prems(3) by (auto simp: source_ok_def)
  have ok: "exchange_ok ?x" by (rule exchange_ok_same_holds[OF Cons.prems(1,2)]) (simp_all add: Cons.prems(3))
  have sox: "source_ok ?x ?s" using exchange_okD(3)[OF ok, of i ?s] by simp
  obtain s1 m1 x1 where h: "handleRtmpMessage i f ?x = Inr x1" "s_handler s1 = s_handler s" "s_sinks s1 = s_sinks s"
    "s_srcChan s1 = map DataMessage fs" "fanned_out i (s_sinks s) m1 (set_src i s1 ?x) x1" "m1 = f"
    using handleRtmpMessage_fans[of ?x i ?s f, OF _ sox] Cons.prems(7) by auto
  have ok1: "exchange_ok x1" using handleRtmpMessage_ok[OF ok, of i ?s f] h(1) by auto
  have r: "room (set_src i s1 ?x) j' = room x j'" for j' by (simp add: room_def)
  have rj: "room x j" using Cons.prems(5,6) by (simp add: room_def)
  have k1: "x_snk x1 j = Some (push_chan (toSinkMsg f) k)"
    using h(5,6) Cons.prems(4,5) rj unfolding fanned_out_def r by simp
  define s2 where "s2 = s1\<lparr>s_sinks := filter (\<lambda>e. room x (snd e)) (s_sinks s)\<rparr>"
  have "source_ok x s1" using so h(2-4) by (simp add: source_ok_def)
  then have s2: "x_src x1 i = Some s2"
    using h(3,5) kept_sinks[of x s1] unfolding fanned_out_def r by (simp add: s2_def)
  have "j \<in> snd ` set (s_sinks s2)" using Cons.prems(4) rj by (auto simp: s2_def)
  from Cons.IH[OF ok1 s2 _ this k1] obtain x' k' where
    "source_works (length fs) i x1 = Inr x'" "x_snk x' j = Some k'" "k_msgChan k' = k_msgChan k @ map toSinkMsg (f # fs)"
    using h(4) Cons.prems(6,7) by (auto simp: s2_def push_chan_def)
  moreover have "source_work i x = Inr x1"
    using Cons.prems(2,3) h(1) by (simp add: source_work_def Let_def)
  ultimately show ?case by simp
qed

text \<open>C26: A player that joins gets the stream in order: once the source has worked off its registration and
  the frames queued behind it (as many as fit in its channel), the player's channel holds the video and
  audio configuration the source has seen and then exactly these frames, in the order they were put.\<close>

theorem joining_player_order:
  assumes "reachable x" and "x_src x i = Some s" and "s_srcChan s = RegisterSink j # map DataMessage fs"
    and "x_snk x j = Some k" and "k_msgChan k = []" and "keyInSrc (k_handler k) \<notin> fst ` set (s_sinks s)"
    and "\<forall>f\<in>set fs. ex_DataType f \<notin> {DataTypeDataAMF0, DataTypeDataAMF3}"
    and "length (config_messages s) + length fs \<le> 50"
  shows "\<exists>x' k'. source_works (Suc (length fs)) i x = Inr x' \<and> x_snk x' j = Some k' \<and>
    k_msgChan k' = config_messages s @ map toSinkMsg fs"
proof -
  note ok = reachable_ok[OF assms(1)]
  let ?s = "s\<lparr>s_srcChan := map DataMessage fs\<rparr>" and ?x = "set_src i (s\<lparr>s_srcChan := map DataMessage fs\<rparr>) x"
  have ok1: "exchange_ok ?x" by (rule exchange_ok_fewer[OF ok assms(2), where P = "\<lambda>_. True" and js = "[j]"]) (simp_all add: assms(3))
  have here: "nowhere ?x j" by (rule taken_nowhere(1)[OF exchange_okD(5)[OF ok] assms(2,3)])
  let ?k = "k\<lparr>k_keyInSrc := keyInSrc (k_handler k), k_msgChan := config_messages s\<rparr>"
  let ?s2 = "s\<lparr>s_srcChan := map DataMessage fs, s_sinks := s_sinks s @ [(keyInSrc (k_handler k), j)]\<rparr>"
  let ?x2 = "set_snk j ?k (set_src i ?s2 ?x)"
  have c: "config_messages ?s = config_messages s" by (simp add: config_messages_def)
  have work: "source_work i x = Inr ?x2" "connectSink i j ?x = Inr ?x2"
    using assms(2-6) c by (simp_all add: source_work_def connectSink_def Let_def failIf_def)
  have ok2: "exchange_ok ?x2" using connectSink_ok[OF ok1, of i ?s j k] assms(4,6) here work(2) by simp
  have "\<exists>x' k'. source_works (length fs) i ?x2 = Inr x' \<and> x_snk x' j = Some k' \<and>
      k_msgChan k' = k_msgChan ?k @ map toSinkMsg fs"
    by (rule frames_delivered[OF ok2, where s = ?s2]) (use assms(7,8) in simp_all)
  then show ?thesis using work(1) by simp
qed

definition demo_join :: "exchange res" where
  "demo_join =
     bindE (OnSinkDetermined 0 demo_player new_exchange) (\<lambda>(e, x).
     bindE (OnSourceDetermined 0 demo_pub x) (\<lambda>(e, x).
     bindE (putData 0 demo_keyframe x) (\<lambda>(e, x). Inr x)))"

theorem joining_player_order_witness:
  "\<exists>x x' k'. demo_join = Inr x \<and> source_works 2 0 x = Inr x' \<and> x_snk x' 0 = Some k' \<and>
     k_msgChan k' = [toSinkMsg demo_keyframe]"
proof -
  have "bindE demo_join (\<lambda>x. Inr (map_option (\<lambda>s. (s_srcChan s, s_sinks s, config_messages s)) (x_src x 0),
      map_option k_msgChan (x_snk x 0))) =
      Inr (Some ([RegisterSink 0, DataMessage demo_keyframe], [], []), Some [])" by code_simp
  then obtain x s k where x: "demo_join = Inr x" "x_src x 0 = Some s" "s_srcChan s = RegisterSink 0 # map DataMessage [demo_keyframe]"
    "s_sinks s = []" "config_messages s = []" "x_snk x 0 = Some k" "k_msgChan k = []"
    by (auto simp: bindE_eq_Inr)
  obtain e1 x1 e2 x2 e3 where r: "OnSinkDetermined 0 demo_player new_exchange = Inr (e1, x1)"
    "OnSourceDetermined 0 demo_pub x1 = Inr (e2, x2)" "putData 0 demo_keyframe x2 = Inr (e3, x)"
    using x(1) by (auto simp: demo_join_def bindE_eq_Inr)
  have "bindE (OnSinkDetermined 0 demo_player new_exchange) (\<lambda>(e, x). Inr (x_src x 0 = None)) = Inr True" by code_simp
  then have "x_src x1 0 = None" unfolding r(1) by simp
  then have "reachable x"
    using reachable_bind(1)[OF reachable_bind(2)[OF reachable.start _ r(1)] _ r(2)] r(3)
    by (auto simp: new_exchange_def intro: reachable.step xstep.put)
  moreover have "\<forall>f\<in>set [demo_keyframe]. ex_DataType f \<notin> {7, 8}" by (simp add: demo_keyframe_def)
  ultimately have "\<exists>x' k'. source_works (Suc (length [demo_keyframe])) 0 x = Inr x' \<and> x_snk x' 0 = Some k' \<and>
      k_msgChan k' = config_messages s @ map toSinkMsg [demo_keyframe]"
    using joining_player_order [OF _ x(2,3,6,7)] x(4,5) by simp
  moreover have "Suc (length [demo_keyframe]) = 2" by simp
  ultimately show ?thesis using x(1,5) by (metis append_Nil list.simps(8,9))
qed

end
