(* ===== verification/Pool.thy ===== *)
theory Pool
  imports Session Exchange_Run
begin

text \<open>
  The exchange as the \<open>Pad\<close> of the RTMP handlers: the operations of \<open>ConnPool\<close> as a record over the
  state of the pool with its pipe.  A handler that goes away only puts its message into the pipe; a
  handler that registers waits for its answer, so the pairing goroutine has handled all that was in
  the pipe before.  \<open>pl_next\<close> is the number of the next object.
  The objects of the pool hold a handler with the key it registered under; a handler that changes its key
  later shows in the exchange as the step \<open>rekey\<close>, on which no command drained here depends: the pairing
  goroutine takes the key from the handler of the command, which the stop of a connection sends last.
\<close>

record pool =
  pl_pipe :: "PadMessage list"
  pl_x :: exchange
  pl_next :: nat

fun drain :: "PadMessage list \<Rightarrow> exchange \<Rightarrow> exchange res" where
  "drain [] x = Inr x"
| "drain (m # ms) x = bindE (pairPad m x) (\<lambda>(err, x). drain ms x)"

definition pool_OnSourceDetermined :: "StreamHandler \<Rightarrow> pool \<Rightarrow> ((nat \<times> go_error option) \<times> pool) res" where
  "pool_OnSourceDetermined h s =
     bindE (drain (pl_pipe s) (pl_x s)) (\<lambda>x.
     bindE (OnSourceDetermined (pl_next s) h x) (\<lambda>(err, x).
     Inr ((pl_next s, err), \<lparr>pl_pipe = [], pl_x = x, pl_next = Suc (pl_next s)\<rparr>)))"

definition pool_OnSinkDetermined :: "StreamHandler \<Rightarrow> pool \<Rightarrow> (go_error option \<times> pool) res" where
  "pool_OnSinkDetermined h s =
     bindE (drain (pl_pipe s) (pl_x s)) (\<lambda>x.
     bindE (OnSinkDetermined (pl_next s) h x) (\<lambda>(err, x).
     Inr (err, \<lparr>pl_pipe = [], pl_x = x, pl_next = Suc (pl_next s)\<rparr>)))"

definition pool_PutData :: "nat \<Rightarrow> ExData \<Rightarrow> pool \<Rightarrow> (go_error option \<times> pool) res" where
  "pool_PutData n d s = bindE (putData n d (pl_x s)) (\<lambda>(err, x). Inr (err, s\<lparr>pl_x := x\<rparr>))"

definition ConnPool_pad :: "pool Pad" where
  "ConnPool_pad =
     \<lparr>pad_OnSourceDetermined = pool_OnSourceDetermined,
      pad_OnSinkDetermined = pool_OnSinkDetermined,
      pad_OnDestroySource = (\<lambda>h s. s\<lparr>pl_pipe := pl_pipe s @ [OnDestroySource h]\<rparr>),
      pad_OnDestroySink = (\<lambda>h s. s\<lparr>pl_pipe := pl_pipe s @ [OnDestroySink h]\<rparr>),
      pad_PutData = pool_PutData\<rparr>"

section \<open>The pool keeps the contract of the interface\<close>

definition pool_settled :: "pool \<Rightarrow> bool" where
  "pool_settled s \<longleftrightarrow> pl_pipe s = [] \<and> exchange_ok (pl_x s) \<and>
     (\<forall>n\<ge>pl_next s. x_src (pl_x s) n = None \<and> x_snk (pl_x s) n = None)"

definition pool_free :: "string \<Rightarrow> pool \<Rightarrow> bool" where
  "pool_free k s \<longleftrightarrow> receivers (x_pool (pl_x s)) k = None"

definition pool_absent :: "StreamHandler \<Rightarrow> pool \<Rightarrow> bool" where
  "pool_absent h s \<longleftrightarrow> (case waitingSenders (x_pool (pl_x s)) (h_key h) of None \<Rightarrow> True | Some ws \<Rightarrow> keyInSrc h \<notin> fst ` set ws)"

text \<open>
  The handler \<open>h\<close> has a sink in the exchange that is registered for its key: it waits for the key under its
  name, or, if the key has a source, is in the channel of that source.
\<close>

definition pool_joined :: "StreamHandler \<Rightarrow> pool \<Rightarrow> bool" where
  "pool_joined h s \<longleftrightarrow> (\<exists>j sink. x_snk (pl_x s) j = Some sink \<and> k_handler sink = h \<and>
     (case receivers (x_pool (pl_x s)) (h_key h) of
        None \<Rightarrow> \<exists>ws. waitingSenders (x_pool (pl_x s)) (h_key h) = Some ws \<and> (keyInSrc h, j) \<in> set ws
      | Some i \<Rightarrow> \<exists>src. x_src (pl_x s) i = Some src \<and> RegisterSink j \<in> set (s_srcChan src)))"

text \<open>Registering makes no other objects than the new one.\<close>

definition same_objects :: "exchange \<Rightarrow> exchange \<Rightarrow> bool" where
  "same_objects x x' \<longleftrightarrow> (\<forall>i. x_src x' i = None \<longleftrightarrow> x_src x i = None) \<and> (\<forall>i. x_snk x' i = None \<longleftrightarrow> x_snk x i = None)"

lemma same_objects_refl [simp]: "same_objects x x"
  by (simp add: same_objects_def)

lemma same_objects_trans: "same_objects x y \<Longrightarrow> same_objects y z \<Longrightarrow> same_objects x z"
  by (simp add: same_objects_def)

lemma same_objects_pool [simp]:
  "same_objects x (upd_pool f y) = same_objects x y" "same_objects (upd_pool f x) y = same_objects x y"
  by (simp_all add: same_objects_def)

lemma same_objects_send: "send_src i m x = Inr x' \<Longrightarrow> same_objects x x'"
  by (auto simp: send_src_def bindE_eq_Inr the_Inr same_objects_def split: if_splits)

lemma same_objects_send_all: "send_all_src i ws x = Inr x' \<Longrightarrow> same_objects x x'"
  by (induction i ws x arbitrary: x' rule: send_all_src.induct)
    (auto simp: bindE_eq_Inr intro: same_objects_trans same_objects_send)

lemma same_objects_register:
  "handleRegisterSource i x = Inr (err, x') \<Longrightarrow> same_objects x x'"
  "handleRegisterSink j x = Inr (err, x') \<Longrightarrow> same_objects x x'"
proof -
  assume "handleRegisterSource i x = Inr (err, x')"
  then show "same_objects x x'"
    by (auto simp: handleRegisterSource_def notifyWaitSenders_def Let_def bindE_eq_Inr
        split: if_splits option.splits dest!: same_objects_send_all)
next
  assume a: "handleRegisterSink j x = Inr (err, x')"
  have "same_objects x (set_snk j k x)" if "x_snk x j = Some s" for k s
    using that by (auto simp: same_objects_def set_snk_def)
  with a show "same_objects x x'"
    by (auto simp: handleRegisterSink_def addObserver_def Let_def bindE_eq_Inr the_Inr failIf_eq_Inr
        split: option.splits dest!: same_objects_send)
qed

interpretation pool: pad ConnPool_pad pool_settled pool_free pool_absent pool_joined
proof
  fix s :: pool and h
  assume s: "pool_settled s"
  let ?n = "pl_next s" and ?x = "pl_x s"
  have ok: "exchange_ok ?x" and new: "x_src ?x ?n = None" "x_snk ?x ?n = None" and pipe: "pl_pipe s = []"
    using s by (simp_all add: pool_settled_def)
  let ?y = "set_src ?n (new_Source h) ?x"
  from OnSourceDetermined_ok[OF ok new(1), of h] obtain x' where
    x': "OnSourceDetermined ?n h ?x = Inr (if pool_free (h_key h) s then None else Some (Errorf ''is already exits''), x')"
      "exchange_ok x'" "receivers (x_pool x') = (if pool_free (h_key h) s then (receivers (x_pool ?x))(h_key h \<mapsto> ?n) else receivers (x_pool ?x))"
    unfolding pool_free_def by blast
  let ?s = "\<lparr>pl_pipe = [], pl_x = x', pl_next = Suc ?n\<rparr>"
  have p: "pad_OnSourceDetermined ConnPool_pad h s = Inr ((?n, if pool_free (h_key h) s then None else Some (Errorf ''is already exits'')), ?s)"
    by (simp add: ConnPool_pad_def pool_OnSourceDetermined_def pipe x'(1))
  have "same_objects ?y x'" using x'(1) same_objects_register(1) by (simp add: OnSourceDetermined_def)
  then have st: "pool_settled ?s" using s x'(2) by (auto simp: pool_settled_def same_objects_def)
  show "\<exists>n x'. pad_OnSourceDetermined ConnPool_pad h s = Inr ((n, None), x') \<and> pool_settled x' \<and>
      (\<forall>k. pool_free k x' \<longleftrightarrow> pool_free k s \<and> k \<noteq> h_key h)" if "pool_free (h_key h) s"
    using p st x'(3) that by (intro exI[of _ ?n] exI[of _ ?s]) (auto simp: pool_free_def)
  show "\<exists>n e x'. pad_OnSourceDetermined ConnPool_pad h s = Inr ((n, Some e), x') \<and> \<not> is_fault e \<and> pool_settled x' \<and>
      (\<forall>k. pool_free k x' \<longleftrightarrow> pool_free k s)" if "\<not> pool_free (h_key h) s"
    using p st x'(3) that by (intro exI[of _ ?n] exI[of _ "Errorf ''is already exits''"] exI[of _ ?s]) (auto simp: pool_free_def)
next
  fix s :: pool and h
  assume s: "pool_settled s" and a: "pool_absent h s"
  let ?n = "pl_next s" and ?x = "pl_x s"
  have ok: "exchange_ok ?x" and new: "x_src ?x ?n = None" "x_snk ?x ?n = None" and pipe: "pl_pipe s = []"
    using s by (simp_all add: pool_settled_def)
  let ?y = "set_snk ?n (new_Sink h) ?x"
  from OnSinkDetermined_ok[OF ok new(2), of h] a obtain x' where
    x': "OnSinkDetermined ?n h ?x = Inr (None, x')" "exchange_ok x'" "receivers (x_pool x') = receivers (x_pool ?x)"
    and "\<exists>sink. x_snk x' ?n = Some sink \<and> k_handler sink = h"
    and "case receivers (x_pool ?x) (h_key h) of
         None \<Rightarrow> \<exists>ws. waitingSenders (x_pool x') (h_key h) = Some ws \<and> (keyInSrc h, ?n) \<in> set ws
       | Some i \<Rightarrow> \<exists>src. x_src x' i = Some src \<and> RegisterSink ?n \<in> set (s_srcChan src)"
    by (auto simp: pool_absent_def split: if_splits)
  then have j: "pool_joined h \<lparr>pl_pipe = [], pl_x = x', pl_next = Suc ?n\<rparr>" unfolding pool_joined_def x'(3)[symmetric] pool.select_convs by blast
  let ?s = "\<lparr>pl_pipe = [], pl_x = x', pl_next = Suc ?n\<rparr>"
  have "same_objects ?y x'" using x'(1) same_objects_register(2) by (simp add: OnSinkDetermined_def)
  then have st: "pool_settled ?s" using s x'(2) by (auto simp: pool_settled_def same_objects_def)
  show "\<exists>x'. pad_OnSinkDetermined ConnPool_pad h s = Inr (None, x') \<and> pool_settled x' \<and> pool_joined h x' \<and> (\<forall>k. pool_free k x' \<longleftrightarrow> pool_free k s)"
    using st j x' by (intro exI[of _ ?s]) (simp add: ConnPool_pad_def pool_OnSinkDetermined_def pipe pool_free_def)
qed

section \<open>Sessions on the pool\<close>

text \<open>C3: A client that publishes and a handler of the server on the exchange, connected right after the
  handshake: the client sends its connect command, and reading each other's messages in turn they come
  to rest with the client in state publish success on stream 1 and the handler registered in the
  exchange as the source of the key made of application and stream name, every other key being
  untouched; this for every URL and whenever the key has no source.\<close>

theorem publish_session_completes:
  assumes "fresh_client url ''publish'' c0" and "fresh_server h0" and "short_url url"
    and "pool_settled (sv_pad h0)" and "pool_free (appName url @ ''-'' @ streamName url) (sv_pad h0)"
  shows "\<exists>c. send_connect c0 = (Inr (), c) \<and> (\<exists>c' h'. (dialogue ConnPool_pad)\<^sup>*\<^sup>* (c, h0) (c', h') \<and> idle c' h' \<and>
    cl_status c' = rtmp_state_publish_success \<and> cl_functionalStreamId c' = 1 \<and>
    sv_status h' = rtmp_state_publish_success \<and> sv_role h' = ''source'' \<and>
    sv_appStreamKey h' = appName url @ ''-'' @ streamName url \<and> sv_putMsg h' \<noteq> None \<and>
    pool_settled (sv_pad h') \<and> (\<forall>k. pool_free k (sv_pad h') \<longleftrightarrow> pool_free k (sv_pad h0) \<and> k \<noteq> appName url @ ''-'' @ streamName url))"
  by (rule pool.publish_session[OF assms refl])

text \<open>C4: A client that plays: the dialogue comes to rest with the client in state play start, having been
  told the stream is recorded, has begun, is reset and started, on stream 1, and the handler is registered
  in the exchange as a player of the key made of application and stream name: a sink of it waits for that
  key, or is in the channel of the source that publishes it; no key is taken or set free.\<close>

theorem play_session_completes:
  assumes "fresh_client url ''play'' c0" and "fresh_server h0" and "short_url url"
    and "pool_settled (sv_pad h0)"
    and "pool_absent \<lparr>h_ptr = sv_ptr h0, h_key = appName url @ ''-'' @ streamName url\<rparr> (sv_pad h0)"
  shows "\<exists>c. send_connect c0 = (Inr (), c) \<and> (\<exists>c' h'. (dialogue ConnPool_pad)\<^sup>*\<^sup>* (c, h0) (c', h') \<and> idle c' h' \<and>
    cl_status c' = rtmp_state_play_start \<and> cl_functionalStreamId c' = 1 \<and>
    sv_status h' = rtmp_state_play_start \<and> sv_role h' = ''sink'' \<and>
    sv_appStreamKey h' = appName url @ ''-'' @ streamName url \<and> sv_functionalStreamId h' = 1 \<and>
    pool_settled (sv_pad h') \<and> pool_joined \<lparr>h_ptr = sv_ptr h0, h_key = appName url @ ''-'' @ streamName url\<rparr> (sv_pad h') \<and>
    (\<forall>k. pool_free k (sv_pad h') \<longleftrightarrow> pool_free k (sv_pad h0)))"
  by (rule pool.play_session[OF assms(1-3) refl assms(4,5)])

definition demo_url :: RtmpUrl where
  "demo_url = \<lparr>appName = ''live'', streamName = ''room1'', tcurl = ''rtmp://h/live'', originUrl = ''rtmp://h/live/room1''\<rparr>"

definition demo_world :: world where
  "demo_world = \<lparr>w_in = [], w_out = [], w_werr = None, w_rand = (\<lambda>_. 0)\<rparr>"

definition demo_client :: "string \<Rightarrow> RtmpClientHandler" where
  "demo_client role = \<lparr>cl_unpacker = NewChunkUnpacker, cl_packer = NewChunkPacker, cl_rw = demo_world, cl_connectResult = [],
     cl_rtmpUrl = demo_url, cl_status = rtmp_state_init, cl_transactionId = 1, cl_functionalStreamId = 0,
     cl_player = Some [], cl_role = role\<rparr>"

definition demo_pool :: pool where
  "demo_pool = \<lparr>pl_pipe = [], pl_x = new_exchange, pl_next = 0\<rparr>"

definition demo_server :: "pool RtmpHandler" where
  "demo_server = (NewRtmpHandler 77 demo_world demo_pool 3)\<lparr>sv_status := rtmp_state_hand_success\<rparr>"

lemma demo_facts:
  "fresh_client demo_url role (demo_client role)" "fresh_server demo_server" "short_url demo_url"
  "sv_pad demo_server = demo_pool" "pool_settled demo_pool" "pool_free k demo_pool" "pool_absent h demo_pool"
  by (simp_all add: fresh_client_def demo_client_def fresh_server_def demo_server_def NewRtmpHandler_def demo_world_def
      short_url_def demo_url_def demo_pool_def pool_settled_def pool_free_def pool_absent_def exchange_ok_new_exchange) (simp_all add: new_exchange_def)

theorem publish_session_completes_witness:
  "\<exists>c. send_connect (demo_client ''publish'') = (Inr (), c) \<and> (\<exists>c' h'. (dialogue ConnPool_pad)\<^sup>*\<^sup>* (c, demo_server) (c', h') \<and>
     cl_status c' = rtmp_state_publish_success \<and> sv_appStreamKey h' = ''live-room1'' \<and> \<not> pool_free ''live-room1'' (sv_pad h'))"
proof -
  have e: "appName demo_url @ ''-'' @ streamName demo_url = ''live-room1''" by (simp add: demo_url_def)
  from publish_session_completes [OF demo_facts(1-3), unfolded demo_facts(4) e, OF demo_facts(5,6)] show ?thesis by fastforce
qed

theorem play_session_completes_witness:
  "\<exists>c. send_connect (demo_client ''play'') = (Inr (), c) \<and> (\<exists>c' h'. (dialogue ConnPool_pad)\<^sup>*\<^sup>* (c, demo_server) (c', h') \<and>
     cl_status c' = rtmp_state_play_start \<and> sv_appStreamKey h' = ''live-room1'' \<and> sv_role h' = ''sink'' \<and>
     pool_joined \<lparr>h_ptr = 77, h_key = ''live-room1''\<rparr> (sv_pad h'))"
proof -
  have e: "appName demo_url @ ''-'' @ streamName demo_url = ''live-room1''" by (simp add: demo_url_def)
  have p: "sv_ptr demo_server = 77" by (simp add: demo_server_def NewRtmpHandler_def)
  from play_session_completes [OF demo_facts(1-3), unfolded demo_facts(4) e p, OF demo_facts(5,7)] show ?thesis by fastforce
qed

end
