(* ===== verification/Relay.thy ===== *)
theory Relay
  imports Pool
begin

text \<open>
  From the publisher to the player: a media message read by the handler of a publisher, put into the
  exchange, fanned out by the goroutine of the source, taken by the goroutine of a sink and written by
  the handler of the player; what the codec checks let through; how a handler that changes its
  role leaves its source behind, and how one whose publish command fails unregisters a key it only named.
\<close>

section \<open>Into the exchange\<close>

text \<open>The checks of the audio and video handlers.\<close>

definition codec_fits :: "'x RtmpHandler \<Rightarrow> Message \<Rightarrow> bool" where
  "codec_fits h m \<longleftrightarrow>
     (if MessageType m = TYPE_AUDIO
      then sv_audioCodecID h \<in> {- 1, uint (drop_bit 4 (Payload m ! 0 AND 0xF0))}
      else sv_videoCodecID h \<in> {- 1, uint (Payload m ! 0 AND 0x0F)} \<and>
        (Payload m ! 1 = 0 \<longrightarrow> drop_bit 4 (Payload m ! 0) = 1))"

definition media :: "Message \<Rightarrow> bool" where
  "media m \<longleftrightarrow> MessageType m \<in> {TYPE_AUDIO, TYPE_VIDEO} \<and> 2 \<le> length (Payload m)"

lemma toExData_media:
  assumes "media m"
  obtains d where "toExData m = Inr d" "ex_Payload d = Payload m" "ex_Timestamp d = ucast (Timestamp m)"
    "message_type_of (ex_DataType d) = Inr (MessageType m)" "ex_DataType d \<notin> {DataTypeDataAMF0, DataTypeDataAMF3}"
proof -
  have l: "0 < length (Payload m)" "1 < length (Payload m)" using assms by (auto simp: media_def)
  show thesis
  proof (cases "MessageType m = 8")
    case True
    with l show thesis by (intro that) (auto simp: toExData_def nth_byte_def message_type_of_def Let_def split: if_splits)
  next
    case False
    then have "MessageType m = 9" using assms by (simp add: media_def)
    with l show thesis by (intro that) (auto simp: toExData_def nth_byte_def message_type_of_def Let_def split: if_splits)
  qed
qed

lemma media_checked:
  assumes "media m" "codec_fits h m"
  shows "handle_message P m h = rtmpMessageToExData P m h"
proof -
  have l: "0 < length (Payload m)" "1 < length (Payload m)" using assms by (auto simp: media_def)
  show ?thesis
  proof (cases "MessageType m = 8")
    case True
    with l assms(2) show ?thesis
      by (auto simp: handle_message_def handleAudioMessage_def nth_byte_def bindIO_lift bindIO_getS codec_fits_def Let_def)
  next
    case False
    then have "MessageType m = 9" using assms(1) by (simp add: media_def)
    with l assms(2) show ?thesis
      by (auto simp: handle_message_def handleVideoMessage_def nth_byte_def bindIO_lift bindIO_getS codec_fits_def Let_def)
  qed
qed

lemma media_put:
  assumes "media m" "codec_fits h m" "sv_putMsg h = Some n" "toExData m = Inr d"
    and "x_src (pl_x (sv_pad h)) n = Some s" "s_err s = None" "length (s_srcChan s) < 100"
  shows "handle_message ConnPool_pad m h = (Inr (), h\<lparr>sv_pad := (sv_pad h)\<lparr>pl_x :=
    set_src n (s\<lparr>s_srcChan := s_srcChan s @ [DataMessage d]\<rparr>) (pl_x (sv_pad h))\<rparr>\<rparr>)"
proof -
  have "putData n d (pl_x (sv_pad h)) = Inr (None, set_src n (s\<lparr>s_srcChan := s_srcChan s @ [DataMessage d]\<rparr>) (pl_x (sv_pad h)))"
    using assms(5-7) by (simp add: putData_def)
  then have "pad_PutData ConnPool_pad n d (sv_pad h) = Inr (None, (sv_pad h)\<lparr>pl_x :=
      set_src n (s\<lparr>s_srcChan := s_srcChan s @ [DataMessage d]\<rparr>) (pl_x (sv_pad h))\<rparr>)"
    by (simp add: ConnPool_pad_def pool_PutData_def)
  then show ?thesis using assms(3,4)
    by (simp add: media_checked[OF assms(1,2)] rtmpMessageToExData_def bindIO_lift call_putMsg_def retErr_simps retIO_def)
qed

section \<open>Out of the exchange\<close>

lemma source_fans:
  assumes "reachable x" "x_src x n = Some s" "s_err s = None" "s_srcChan s = []"
    and "e \<in> set (s_sinks s)" "x_snk x (snd e) = Some k" "length (k_msgChan k) < 50"
    and "ex_DataType d \<notin> {DataTypeDataAMF0, DataTypeDataAMF3}"
  shows "\<exists>x'. source_work n (set_src n (s\<lparr>s_srcChan := [DataMessage d]\<rparr>) x) = Inr x' \<and>
    x_snk x' (snd e) = Some (push_chan (toSinkMsg d) k)"
proof -
  have "s\<lparr>s_srcChan := []\<rparr> = s" using assms(4) by (cases s) simp
  then have w: "source_work n (set_src n (s\<lparr>s_srcChan := [DataMessage d]\<rparr>) x) = handleRtmpMessage n d (set_src n s x)"
    by (simp add: source_work_def set_src_def)
  have same: "set_src n s x = x" using assms(2) by (cases x) (simp add: set_src_def fun_upd_idem)
  have so: "source_ok x s" by (rule exchange_okD(3)[OF reachable_ok[OF assms(1)] assms(2)])
  obtain s' x' where h: "handleRtmpMessage n d x = Inr x'" "fanned_out n (s_sinks s) d (set_src n s' x) x'"
    using handleRtmpMessage_fans[OF assms(2) so, of d] assms(8) by blast
  have "room (set_src n s' x) (snd e)" using assms(6,7) by (simp add: room_def)
  moreover have "snd e \<in> snd ` set (s_sinks s)" using assms(5) by (rule imageI)
  ultimately have "x_snk x' (snd e) = Some (push_chan (toSinkMsg d) k)"
    using h(2) assms(6) unfolding fanned_out_def by simp
  with h(1) show ?thesis by (simp add: w same)
qed

lemma written_to_player:
  assumes "message_type_of (ex_DataType d) = Inr (MessageType m)" "ex_Payload d = Payload m" "ex_Timestamp d = ucast (Timestamp m)"
    and "in_step (sv_packer p) u" "sendable (sv_packer p) (m\<lparr>StreamID := 0\<rparr>)" "w_werr (sv_rw p) = None"
  shows "\<exists>b q. handler_WriteData d p = (Inr (), out b (p\<lparr>sv_packer := q\<rparr>)) \<and>
    (\<forall>r. \<exists>m' u'. getRtmpMessage u (b @ r) = Inr (m', u', r) \<and> same_message (m\<lparr>StreamID := 0\<rparr>) m' \<and> in_step q u')"
proof -
  have m: "\<lparr>MessageType = MessageType m, Timestamp = ucast (ex_Timestamp d), StreamID = 0, Payload = ex_Payload d\<rparr> = m\<lparr>StreamID := 0\<rparr>"
    using assms(2,3) by (cases m) (simp add: ucast_up_ucast_id is_up)
  from rtmp.carry[OF assms(4,5)] obtain b q where b: "WriteMessage (sv_packer p) (m\<lparr>StreamID := 0\<rparr>) = Inr (b, q)"
    and r: "\<forall>r. \<exists>m' u'. getRtmpMessage u (b @ r) = Inr (m', u', r) \<and> same_message (m\<lparr>StreamID := 0\<rparr>) m' \<and> in_step q u'"
    by blast
  have "put_message (m\<lparr>StreamID := 0\<rparr>) [] p = (Inr b, p\<lparr>sv_packer := q\<rparr>)"
    using b by (simp add: put_message_def WriteMessage_def)
  then have "handler_WriteData d p = (Inr (), out b (p\<lparr>sv_packer := q\<rparr>))"
    using assms(1,6) by (simp add: handler_WriteData_def bindIO_lift m bindIO_simps(1) conn_Write_out)
  with r show ?thesis by blast
qed

text \<open>C5: A frame gets from the publisher to the player: an audio or video message of at least two bytes that
  passes the codec checks of a publisher's handler is put into the exchange; the source passes it on, a
  connected player takes it, and what the player's handler writes to its connection is read back there
  as a message of the same type and with the same payload, on message stream 0, whatever stream the
  publisher used.\<close>

theorem frame_relayed:
  assumes "media m" and "codec_fits h m" and "sv_putMsg h = Some n"
    and "reachable (pl_x (sv_pad h))" and "x_src (pl_x (sv_pad h)) n = Some s" and "s_err s = None" and "s_srcChan s = []"
    and "e \<in> set (s_sinks s)" and "x_snk (pl_x (sv_pad h)) (snd e) = Some k" and "k_msgChan k = []"
    and "in_step (sv_packer p) u" and "sendable (sv_packer p) (m\<lparr>StreamID := 0\<rparr>)" and "w_werr (sv_rw p) = None"
  shows "\<exists>h' x1 d x2 b q. handle_message ConnPool_pad m h = (Inr (), h') \<and>
    source_work n (pl_x (sv_pad h')) = Inr x1 \<and> sink_work (snd e) x1 = Inr (Some d, x2) \<and>
    handler_WriteData d p = (Inr (), p\<lparr>sv_packer := q, sv_rw := (sv_rw p)\<lparr>w_out := w_out (sv_rw p) @ b\<rparr>\<rparr>) \<and>
    (\<forall>r. \<exists>m' u'. getRtmpMessage u (b @ r) = Inr (m', u', r) \<and> MessageType m' = MessageType m \<and>
       StreamID m' = 0 \<and> Payload m' = Payload m \<and> in_step q u')"
proof -
  obtain d where d: "toExData m = Inr d" "ex_Payload d = Payload m" "ex_Timestamp d = ucast (Timestamp m)"
    "message_type_of (ex_DataType d) = Inr (MessageType m)" "ex_DataType d \<notin> {DataTypeDataAMF0, DataTypeDataAMF3}"
    by (rule toExData_media[OF assms(1)])
  let ?x = "pl_x (sv_pad h)" and ?y = "set_src n (s\<lparr>s_srcChan := [DataMessage d]\<rparr>) (pl_x (sv_pad h))"
  have put: "handle_message ConnPool_pad m h = (Inr (), h\<lparr>sv_pad := (sv_pad h)\<lparr>pl_x := ?y\<rparr>\<rparr>)"
    using media_put[OF assms(1-3) d(1) assms(5,6)] assms(7) by simp
  obtain x1 where x1: "source_work n ?y = Inr x1" "x_snk x1 (snd e) = Some (push_chan (toSinkMsg d) k)"
    using source_fans[OF assms(4-9) _ d(5)] assms(10) by auto
  then have snk: "sink_work (snd e) x1 = Inr (Some (toSinkMsg d), set_snk (snd e) (k\<lparr>k_msgChan := []\<rparr>) x1)"
    using assms(10) by (simp add: sink_work_def push_chan_def)
  have "\<exists>b q. handler_WriteData (toSinkMsg d) p = (Inr (), out b (p\<lparr>sv_packer := q\<rparr>)) \<and>
    (\<forall>r. \<exists>m' u'. getRtmpMessage u (b @ r) = Inr (m', u', r) \<and> same_message (m\<lparr>StreamID := 0\<rparr>) m' \<and> in_step q u')"
    by (rule written_to_player) (use d assms(11-13) in \<open>simp_all add: toSinkMsg_def\<close>)
  then obtain b q where "handler_WriteData (toSinkMsg d) p = (Inr (), out b (p\<lparr>sv_packer := q\<rparr>))"
    "\<forall>r. \<exists>m' u'. getRtmpMessage u (b @ r) = Inr (m', u', r) \<and> same_message (m\<lparr>StreamID := 0\<rparr>) m' \<and> in_step q u'" by blast
  then have w: "handler_WriteData (toSinkMsg d) p = (Inr (), p\<lparr>sv_packer := q, sv_rw := (sv_rw p)\<lparr>w_out := w_out (sv_rw p) @ b\<rparr>\<rparr>)"
    and r: "\<forall>r. \<exists>m' u'. getRtmpMessage u (b @ r) = Inr (m', u', r) \<and> MessageType m' = MessageType m \<and>
       StreamID m' = 0 \<and> Payload m' = Payload m \<and> in_step q u'"
    by (auto simp: out_def same_message_def)
  have src: "source_work n (pl_x (sv_pad (h\<lparr>sv_pad := (sv_pad h)\<lparr>pl_x := ?y\<rparr>\<rparr>))) = Inr x1" using x1(1) by simp
  show ?thesis by (intro exI conjI) (rule put, rule src, rule snk, rule w, rule r)
qed

definition demo_video :: Message where
  "demo_video = \<lparr>MessageType = 9, Timestamp = 40, StreamID = 1, Payload = [0x17, 1]\<rparr>"

theorem frame_relayed_witness:
  "\<exists>x h' x1 d x2 b q. demo_run = Inr x \<and>
     handle_message ConnPool_pad demo_video (demo_server\<lparr>sv_pad := \<lparr>pl_pipe = [], pl_x = x, pl_next = 2\<rparr>, sv_putMsg := Some 0\<rparr>) = (Inr (), h') \<and>
     source_work 0 (pl_x (sv_pad h')) = Inr x1 \<and> sink_work 0 x1 = Inr (Some d, x2) \<and>
     handler_WriteData d demo_server = (Inr (), demo_server\<lparr>sv_packer := q, sv_rw := (sv_rw demo_server)\<lparr>w_out := b\<rparr>\<rparr>) \<and>
     (\<exists>m' u'. getRtmpMessage NewChunkUnpacker (b @ [1]) = Inr (m', u', [1]) \<and> MessageType m' = 9 \<and> Payload m' = [0x17, 1])"
proof -
  obtain x s where x: "demo_run = Inr x" "reachable x" "x_src x 0 = Some s" "map snd (s_sinks s) = [0]"
    by (rule demo_run_reachable)
  have "bindE demo_run (\<lambda>x. Inr (map_option k_msgChan (x_snk x 0), map_option s_err (x_src x 0), map_option s_srcChan (x_src x 0))) =
      Inr (Some [], Some None, Some [])" by code_simp
  then have "map_option k_msgChan (x_snk x 0) = Some []" and s: "s_err s = None" "s_srcChan s = []"
    using x(3) unfolding x(1) by auto
  then obtain k where k: "x_snk x 0 = Some k" "k_msgChan k = []" by auto
  obtain nm where nm: "s_sinks s = [(nm, 0)]" using x(4) by auto
  let ?h = "demo_server\<lparr>sv_pad := \<lparr>pl_pipe = [], pl_x = x, pl_next = 2\<rparr>, sv_putMsg := Some 0\<rparr>"
  have d: "sv_rw demo_server = demo_world" "sv_packer demo_server = NewChunkPacker" "sv_videoCodecID demo_server = - 1"
    by (simp_all add: demo_server_def NewRtmpHandler_def)
  have 1: "media demo_video" "codec_fits ?h demo_video" by (simp_all add: media_def codec_fits_def demo_video_def d)
  have 2: "sendable (sv_packer demo_server) (demo_video\<lparr>StreamID := 0\<rparr>)"
    by (simp add: d sendable_def demo_video_def sent_delta_def NewChunkPacker_def)
  have 3: "in_step (sv_packer demo_server) NewChunkUnpacker" by (simp add: d in_step_new)
  have "\<exists>h' x1 d x2 b q. handle_message ConnPool_pad demo_video ?h = (Inr (), h') \<and>
    source_work 0 (pl_x (sv_pad h')) = Inr x1 \<and> sink_work (snd (nm, 0)) x1 = Inr (Some d, x2) \<and>
    handler_WriteData d demo_server = (Inr (), demo_server\<lparr>sv_packer := q, sv_rw := (sv_rw demo_server)\<lparr>w_out := w_out (sv_rw demo_server) @ b\<rparr>\<rparr>) \<and>
    (\<forall>r. \<exists>m' u'. getRtmpMessage NewChunkUnpacker (b @ r) = Inr (m', u', r) \<and> MessageType m' = MessageType demo_video \<and>
       StreamID m' = 0 \<and> Payload m' = Payload demo_video \<and> in_step q u')"
    by (rule frame_relayed [OF 1 _ _ _ s, where e = "(nm, 0)", OF _ _ _ _ _ k(2) 3 2]) (use x k nm in \<open>simp_all add: d demo_world_def\<close>)
  then show ?thesis using x(1) by (fastforce simp: d demo_world_def demo_video_def)
qed

section \<open>Changing the role\<close>

text \<open>C6: A connection that publishes and then plays leaves its source behind: playing makes it a sink, so when
  it ends only the sink is unregistered; the key it published stays taken by a source nobody feeds,
  whatever the exchange still has to do, and no other connection can publish it.\<close>

theorem role_change_leaks:
  assumes "MessageType m = 20" and "reads_as (Payload m) [VString ''play'', VNumber f, VNil, VString name, d]"
    and "ready (sv_packer h)" and "w_werr (sv_rw h) = None" and "map_of (sv_connetCmdObj h) ''app'' = Some (VString app)"
    and "pool_settled (sv_pad h)" and "pool_absent \<lparr>h_ptr = sv_ptr h, h_key = app @ ''-'' @ name\<rparr> (sv_pad h)"
    and "sv_role h = ''source''" and "\<not> pool_free key (sv_pad h)"
  shows "\<exists>h' x. handle_message ConnPool_pad m h = (Inr (), h') \<and> sv_role h' = ''sink'' \<and>
    pl_pipe (sv_pad (stop ConnPool_pad h')) = [UnregisterSink \<lparr>h_ptr = sv_ptr h, h_key = app @ ''-'' @ name\<rparr>] \<and>
    drain (pl_pipe (sv_pad (stop ConnPool_pad h'))) (pl_x (sv_pad (stop ConnPool_pad h'))) = Inr x \<and>
    (\<forall>n h2. h_key h2 = key \<longrightarrow> x_src x n = None \<longrightarrow>
       (\<exists>x2. OnSourceDetermined n h2 x = Inr (Some (Errorf ''is already exits''), x2)))"
proof -
  let ?k = "\<lparr>h_ptr = sv_ptr h, h_key = app @ ''-'' @ name\<rparr>"
  obtain s where s: "pad_OnSinkDetermined ConnPool_pad ?k (sv_pad h) = Inr (None, s)" "pool_settled s"
    "\<forall>k. pool_free k s \<longleftrightarrow> pool_free k (sv_pad h)" using pool.sink_accepted[OF assms(6,7)] by blast
  let ?h = "h\<lparr>sv_playCmdObj := (sv_playCmdObj h)\<lparr>StreamName := name\<rparr>, sv_appStreamKey := app @ ''-'' @ name,
       sv_functionalStreamId := StreamID m, sv_role := ''sink'', sv_pad := s, sv_status := 44\<rparr>"
  obtain b p where b: "handle_message ConnPool_pad m h = (Inr (), out b (?h\<lparr>sv_packer := p\<rparr>))"
    using play_handled[OF assms(1-5) s(1)] unfolding says_def by blast
  let ?h' = "out b (?h\<lparr>sv_packer := p\<rparr>)"
  have st: "sv_pad (stop ConnPool_pad ?h') = s\<lparr>pl_pipe := [UnregisterSink ?k]\<rparr>"
    using s(2) by (simp add: stop_def Let_def handler_Cancel_def ConnPool_pad_def out_def as_handler_def GetAppStreamKey_def
        OnDestroySink_def pool_settled_def)
  have ok: "exchange_ok (pl_x s)" using s(2) by (simp add: pool_settled_def)
  from handleUnregisterSink_ok[OF ok, of ?k] obtain x where
    x: "handleUnregisterSink ?k (pl_x s) = Inr x" "receivers (x_pool x) = receivers (x_pool (pl_x s))" by blast
  have taken: "receivers (x_pool x) key \<noteq> None" using assms(9) s(3) x(2) by (simp add: pool_free_def)
  have "OnSourceDetermined n h2 x = Inr (Some (Errorf ''is already exits''), set_src n (new_Source h2) x)" if "h_key h2 = key" for n h2
    using taken that by (simp add: OnSourceDetermined_def handleRegisterSource_def new_Source_def Let_def)
  then have refused: "\<forall>n h2. h_key h2 = key \<longrightarrow> x_src x n = None \<longrightarrow>
       (\<exists>x2. OnSourceDetermined n h2 x = Inr (Some (Errorf ''is already exits''), x2))" by blast
  have dr: "drain (pl_pipe (sv_pad (stop ConnPool_pad ?h'))) (pl_x (sv_pad (stop ConnPool_pad ?h'))) = Inr x"
    unfolding st using x(1) by simp
  have pipe: "pl_pipe (sv_pad (stop ConnPool_pad ?h')) = [UnregisterSink ?k]" unfolding st by simp
  have role: "sv_role ?h' = ''sink''" by (simp add: out_def)
  show ?thesis by (intro exI conjI) (rule b, rule role, rule pipe, rule dr, rule refused)
qed

theorem role_change_leaks_witness:
  "\<exists>m s h' x. pool_OnSourceDetermined \<lparr>h_ptr = 77, h_key = ''live-a''\<rparr> demo_pool = Inr ((0, None), s) \<and>
     NewPlayMessage 4 ''b'' 0 = Inr m \<and>
     handle_message ConnPool_pad m (demo_server\<lparr>sv_connetCmdObj := [(''app'', VString ''live'')], sv_role := ''source'', sv_pad := s\<rparr>) = (Inr (), h') \<and>
     drain (pl_pipe (sv_pad (stop ConnPool_pad h'))) (pl_x (sv_pad (stop ConnPool_pad h'))) = Inr x \<and>
     (x_src x 9 = None \<longrightarrow> (\<exists>x2. OnSourceDetermined 9 \<lparr>h_ptr = 5, h_key = ''live-a''\<rparr> x = Inr (Some (Errorf ''is already exits''), x2)))"
proof -
  obtain n s where s: "pad_OnSourceDetermined ConnPool_pad \<lparr>h_ptr = 77, h_key = ''live-a''\<rparr> demo_pool = Inr ((n, None), s)"
    "pool_settled s" "\<not> pool_free ''live-a'' s"
    using pool.source_accepted[OF demo_facts(5), of "\<lparr>h_ptr = 77, h_key = ''live-a''\<rparr>"] demo_facts(6) by auto
  then have s': "pool_OnSourceDetermined \<lparr>h_ptr = 77, h_key = ''live-a''\<rparr> demo_pool = Inr ((0, None), s)"
    by (auto simp: ConnPool_pad_def pool_OnSourceDetermined_def demo_pool_def bindE_eq_Inr)
  have c: "carries (NewPlayMessage 4 ''b'' 0) 1 [VString ''play'', VNumber (float_of_int (uint (4 :: u32))), VNil, VString ''b'', VNumber (float_of_int 0)]"
    by (rule commands_exist(6)[of _ "[]"]) simp_all
  then obtain m where m: "NewPlayMessage 4 ''b'' 0 = Inr m" by (auto simp: carries_def)
  note rm = carries_Inr[OF c m]
  let ?h = "demo_server\<lparr>sv_connetCmdObj := [(''app'', VString ''live'')], sv_role := ''source'', sv_pad := s\<rparr>"
  have "x_snk (pl_x s) i = None \<and> waitingSenders (x_pool (pl_x s)) k = None" for i k
    using s' by (auto simp: pool_OnSourceDetermined_def demo_pool_def bindE_eq_Inr OnSourceDetermined_def handleRegisterSource_def
        notifyWaitSenders_def new_exchange_def Let_def the_src_def)
  then have a: "pool_absent k s" for k by (simp add: pool_absent_def)
  have "\<exists>h' x. handle_message ConnPool_pad m ?h = (Inr (), h') \<and> sv_role h' = ''sink'' \<and>
    pl_pipe (sv_pad (stop ConnPool_pad h')) = [UnregisterSink \<lparr>h_ptr = sv_ptr ?h, h_key = ''live'' @ ''-'' @ ''b''\<rparr>] \<and>
    drain (pl_pipe (sv_pad (stop ConnPool_pad h'))) (pl_x (sv_pad (stop ConnPool_pad h'))) = Inr x \<and>
    (\<forall>n h2. h_key h2 = ''live-a'' \<longrightarrow> x_src x n = None \<longrightarrow>
       (\<exists>x2. OnSourceDetermined n h2 x = Inr (Some (Errorf ''is already exits''), x2)))"
    by (rule role_change_leaks [where name = "''b''" and app = "''live''"])
      (use rm s a in \<open>auto simp: demo_server_def NewRtmpHandler_def demo_world_def ready_new\<close>)
  then show ?thesis using m s' by fastforce
qed

section \<open>A publish command that fails\<close>

lemma args_loop_fails:
  "cont i \<Longrightarrow> ReadValue r = Inl e \<Longrightarrow> e \<noteq> EOF \<Longrightarrow> args_loop cont wrap body i r a s = (Inl (wrap e), s)"
  by (subst args_loop.simps) simp

lemma publish_cut:
  assumes "MessageType m = 20" and "read_list ReadValue 4 (Payload m) = Inr ([VString ''publish'', VNumber f, VNil, VString name], rest)"
    and "ReadValue rest = Inl e" and "e \<noteq> EOF" and "map_of (sv_connetCmdObj h) ''app'' = Some (VString app)"
  shows "handle_message P m h = (Inl (Errorf ''handlePublish amf:%s''),
    h\<lparr>sv_publishCmdObj := (sv_publishCmdObj h)\<lparr>PublishName := name\<rparr>, sv_appStreamKey := app @ ''-'' @ name, sv_status := 1039\<rparr>)"
proof -
  have four: "4 = Suc (Suc (Suc (Suc 0)))" by simp
  obtain r0 r1 r2 where r: "ReadValue (Payload m) = Inr (VString ''publish'', r0)" "ReadValue r0 = Inr (VNumber f, r1)"
    "ReadValue r1 = Inr (VNil, r2)" "ReadValue r2 = Inr (VString name, rest)"
    using assms(2) unfolding four read_list_step by auto
  let ?h = "h\<lparr>sv_publishCmdObj := (sv_publishCmdObj h)\<lparr>PublishName := name\<rparr>, sv_appStreamKey := app @ ''-'' @ name\<rparr>"
  have "args_loop (\<lambda>i. i < 4) wrap publish_arg 0 r0 () h = (Inl (wrap e), ?h)" for wrap
    by (subst args_loop_steps(3)[OF _ r(2)], simp, simp add: publish_arg_def retIO_def,
        subst args_loop_steps(3)[OF _ r(3)], simp, simp add: publish_arg_def retIO_def,
        subst args_loop_steps(3)[OF _ r(4)], simp,
        simp add: publish_arg_def bindIO_modS bindIO_def stream_key_def assms(5) modS_def,
        subst args_loop_fails[OF _ assms(3,4)], simp_all)
  then have p: "handlePublishCommand r0 h = (Inl (Errorf ''handlePublish amf:%s''), ?h)"
    by (simp add: handlePublishCommand_def bindIO_def)
  show ?thesis unfolding command_cases(3)[OF assms(1) r(1) refl]
    by (subst bindIO_errS(2)[where m = "handlePublishCommand r0", OF p]) (simp_all add: bindIO_def retIO_def set_status_def modS_def retErr_def failS_def)
qed

text \<open>C8: A publisher can be made to crash the server or to take down another one: when it sends a second publish
  command whose arguments cannot be read after the new stream name, the handler has already taken the new
  key but registers nothing; the loop of the connection ends with the error, and the stop that follows
  unregisters the new key.  If nobody publishes that key, the pairing goroutine panics; if somebody does,
  that publisher loses it, and every other key, so also the key the handler did publish, stays as it was.\<close>

theorem failed_publish_unregisters:
  assumes "getRtmpMessage (sv_unpacker h) b = Inr (m, u, b')" and "MessageType m = 20"
    and "read_list ReadValue 4 (Payload m) = Inr ([VString ''publish'', VNumber f, VNil, VString name], rest)"
    and "ReadValue rest = Inl e" and "e \<noteq> EOF" and "map_of (sv_connetCmdObj h) ''app'' = Some (VString app)"
    and "sv_role h = ''source''" and "pool_settled (sv_pad h)"
  shows "\<exists>h'. serve ConnPool_pad b h = (Inl (Errorf ''handlePublish amf:%s''), h') \<and>
    (let key = app @ ''-'' @ name; end = drain (pl_pipe (sv_pad (stop ConnPool_pad h'))) (pl_x (sv_pad (stop ConnPool_pad h'))) in
     if pool_free key (sv_pad h) then end = Inl (Panic (key @ '' source not registerd''))
     else \<exists>x. end = Inr x \<and> receivers (x_pool x) = (receivers (x_pool (pl_x (sv_pad h))))(key := None))"
proof -
  let ?key = "app @ ''-'' @ name" and ?g = "h\<lparr>sv_unpacker := u, sv_rw := (sv_rw h)\<lparr>w_in := b'\<rparr>\<rparr>"
  let ?h = "?g\<lparr>sv_publishCmdObj := (sv_publishCmdObj h)\<lparr>PublishName := name\<rparr>, sv_appStreamKey := ?key, sv_status := 1039\<rparr>"
  have "handle_message ConnPool_pad m ?g = (Inl (Errorf ''handlePublish amf:%s''), ?h)"
    using publish_cut[OF assms(2-5), of ?g app ConnPool_pad] assms(6) by simp
  then have s: "serve ConnPool_pad b h = (Inl (Errorf ''handlePublish amf:%s''), ?h)"
    using assms(1) by (subst serve.simps) simp
  let ?u = "\<lparr>h_ptr = sv_ptr h, h_key = ?key\<rparr>"
  have st: "sv_pad (stop ConnPool_pad ?h) = (sv_pad h)\<lparr>pl_pipe := [UnregisterSource ?u]\<rparr>"
    using assms(7,8) by (simp add: stop_def Let_def handler_Cancel_def ConnPool_pad_def as_handler_def GetAppStreamKey_def
        OnDestroySource_def pool_settled_def)
  have ok: "exchange_ok (pl_x (sv_pad h))" using assms(8) by (simp add: pool_settled_def)
  have d: "drain (pl_pipe (sv_pad (stop ConnPool_pad ?h))) (pl_x (sv_pad (stop ConnPool_pad ?h))) =
      handleUnregisterSource ?u (pl_x (sv_pad h))"
    unfolding st by (cases "handleUnregisterSource ?u (pl_x (sv_pad h))") simp_all
  have "if pool_free ?key (sv_pad h) then handleUnregisterSource ?u (pl_x (sv_pad h)) = Inl (Panic (?key @ '' source not registerd''))
      else \<exists>x. handleUnregisterSource ?u (pl_x (sv_pad h)) = Inr x \<and>
        receivers (x_pool x) = (receivers (x_pool (pl_x (sv_pad h))))(?key := None)"
    using handleUnregisterSource_ok[OF ok, of ?u] unfolding pool_free_def StreamHandler.select_convs by (auto split: if_splits)
  then show ?thesis unfolding Let_def by (intro exI[of _ ?h] conjI s) (unfold d)
qed

definition demo_cut :: Message where
  "demo_cut = \<lparr>MessageType = 20, Timestamp = 0, StreamID = 1,
     Payload = [2, 0, 7, 112, 117, 98, 108, 105, 115, 104, 0, 0, 0, 0, 0, 0, 0, 0, 0, 5, 2, 0, 1, 98, 4]\<rparr>"

theorem failed_publish_unregisters_witness:
  "\<exists>s b p h'. pool_OnSourceDetermined \<lparr>h_ptr = 77, h_key = ''live-a''\<rparr> demo_pool = Inr ((0, None), s) \<and>
     WriteMessage NewChunkPacker demo_cut = Inr (b, p) \<and>
     serve ConnPool_pad b (demo_server\<lparr>sv_connetCmdObj := [(''app'', VString ''live'')], sv_role := ''source'', sv_pad := s\<rparr>) =
       (Inl (Errorf ''handlePublish amf:%s''), h') \<and>
     drain (pl_pipe (sv_pad (stop ConnPool_pad h'))) (pl_x (sv_pad (stop ConnPool_pad h'))) =
       Inl (Panic ''live-b source not registerd'')"
proof -
  obtain n s where s: "pad_OnSourceDetermined ConnPool_pad \<lparr>h_ptr = 77, h_key = ''live-a''\<rparr> demo_pool = Inr ((n, None), s)"
    "pool_settled s" "\<forall>k. pool_free k s \<longleftrightarrow> pool_free k demo_pool \<and> k \<noteq> ''live-a''"
    using pool.source_accepted[OF demo_facts(5), of "\<lparr>h_ptr = 77, h_key = ''live-a''\<rparr>"] demo_facts(6) by auto
  then have s': "pool_OnSourceDetermined \<lparr>h_ptr = 77, h_key = ''live-a''\<rparr> demo_pool = Inr ((0, None), s)"
    by (auto simp: ConnPool_pad_def pool_OnSourceDetermined_def demo_pool_def bindE_eq_Inr)
  have free: "pool_free (''live'' @ ''-'' @ ''b'') s" using s(3) demo_facts(6) by simp
  have "sendable NewChunkPacker demo_cut" by (simp add: sendable_def demo_cut_def sent_delta_def NewChunkPacker_def)
  from rtmp.carry[OF in_step_new this] obtain b p where b: "WriteMessage NewChunkPacker demo_cut = Inr (b, p)"
    and "\<forall>r. \<exists>m' u'. getRtmpMessage NewChunkUnpacker (b @ r) = Inr (m', u', r) \<and> same_message demo_cut m' \<and> in_step p u'" by blast
  then obtain m' u' where m': "getRtmpMessage NewChunkUnpacker b = Inr (m', u', [])" "same_message demo_cut m'"
    by (metis append_Nil2)
  have r: "read_list ReadValue 4 (Payload demo_cut) = Inr ([VString ''publish'', VNumber 0, VNil, VString ''b''], [4])"
    by code_simp
  have "case ReadValue [4] of Inl e \<Rightarrow> e \<noteq> EOF | Inr _ \<Rightarrow> False" by code_simp
  then obtain e where e: "ReadValue [4] = Inl e" "e \<noteq> EOF" by (cases "ReadValue [4]") auto
  let ?h = "demo_server\<lparr>sv_connetCmdObj := [(''app'', VString ''live'')], sv_role := ''source'', sv_pad := s\<rparr>"
  have "\<exists>h'. serve ConnPool_pad b ?h = (Inl (Errorf ''handlePublish amf:%s''), h') \<and>
    (let key = ''live'' @ ''-'' @ ''b''; end = drain (pl_pipe (sv_pad (stop ConnPool_pad h'))) (pl_x (sv_pad (stop ConnPool_pad h'))) in
     if pool_free key (sv_pad ?h) then end = Inl (Panic (key @ '' source not registerd''))
     else \<exists>x. end = Inr x \<and> receivers (x_pool x) = (receivers (x_pool (pl_x (sv_pad ?h))))(key := None))"
    by (rule failed_publish_unregisters[where m = m' and rest = "[4]" and f = 0, OF _ _ _ e])
      (use m' r s(2) in \<open>simp_all add: demo_server_def NewRtmpHandler_def same_message_def demo_cut_def\<close>)
  then show ?thesis using s' b free by (auto simp: Let_def)
qed

end
