(* ===== verification/Handler_Safety.thy ===== *)
theory Handler_Safety
  imports Relay
begin

text \<open>
  What holds of a connection of the server whatever the peer sends and whatever the pad answers: the
  invariant of the handler over messages and whole connections, and which messages crash the process.
\<close>

section \<open>Invariants of methods\<close>

definition keeps :: "('s \<Rightarrow> bool) \<Rightarrow> ('s, 'a) st \<Rightarrow> bool" where
  "keeps Q f \<longleftrightarrow> (\<forall>s. Q s \<longrightarrow> Q (snd (f s)))"

named_theorems keeping \<open>introduction rules for invariants of methods\<close>

lemma keeps_basic [keeping]:
  "keeps Q (retIO x)" "keeps Q (liftIO r)" "keeps Q (getS g)" "keeps Q (failS e)" "keeps Q (retErr err)"
  by (auto simp: keeps_def retIO_def liftIO_def getS_def failS_def retErr_def split: option.split)

lemma keeps_modS: "(\<And>s. Q s \<Longrightarrow> Q (g s)) \<Longrightarrow> keeps Q (modS g)"
  by (simp add: keeps_def modS_def)

lemma keeps_bind [keeping]: "keeps Q m \<Longrightarrow> (\<And>x. keeps Q (f x)) \<Longrightarrow> keeps Q (bindIO m f)"
  unfolding keeps_def bindIO_def by (fastforce split: prod.splits sum.splits)

lemma keeps_errS [keeping]: "keeps Q m \<Longrightarrow> keeps Q (errS m)"
  unfolding keeps_def errS_def by (fastforce split: prod.splits sum.splits)

lemma keeps_if [keeping]: "(c \<Longrightarrow> keeps Q f) \<Longrightarrow> (\<not> c \<Longrightarrow> keeps Q g) \<Longrightarrow> keeps Q (if c then f else g)"
  by simp

lemma keeps_args_loop:
  assumes "\<And>i v a. keeps Q (body i v a)"
  shows "keeps Q (args_loop cont wrap body i r a)"
proof -
  have "Q s \<Longrightarrow> Q (snd (args_loop cont wrap body i r a s))" for s
  proof (induction r arbitrary: i a s rule: length_induct)
    case (1 r)
    show ?case
    proof (cases "cont i \<and> (\<exists>v r'. ReadValue r = Inr (v, r'))")
      case True
      then obtain v r' where v: "cont i" "ReadValue r = Inr (v, r')" by blast
      have "Q (snd (body i v a s))" using assms 1(2) by (simp add: keeps_def)
      then show ?thesis using 1(1) v ReadValue_shrinks[OF v(2)]
        by (subst args_loop.simps) (auto split: prod.splits sum.splits)
    next
      case False
      then show ?thesis using 1(2) by (subst args_loop.simps) (auto split: sum.split)
    qed
  qed
  then show ?thesis by (simp add: keeps_def)
qed

text \<open>A property that does not look at the connection, the packer or the unpacker.\<close>

definition inner :: "('x RtmpHandler \<Rightarrow> bool) \<Rightarrow> bool" where
  "inner Q \<longleftrightarrow> (\<forall>h p u w. Q (h\<lparr>sv_packer := p\<rparr>) = Q h \<and> Q (h\<lparr>sv_unpacker := u\<rparr>) = Q h \<and> Q (h\<lparr>sv_rw := w\<rparr>) = Q h)"

lemma keeps_talk:
  assumes "inner Q"
  shows "keeps Q (put_message m b)" "keeps Q (put_new mk b)" "keeps Q (put_unchecked mk b)" "keeps Q (conn_Write b)"
proof -
  show m: "keeps Q (put_message m b)" for m b
    using assms by (auto simp: keeps_def put_message_def inner_def split: sum.split)
  show "keeps Q (put_new mk b)" unfolding put_new_def by (intro keeping m)
  show "keeps Q (put_unchecked mk b)" using m by (auto simp: put_unchecked_def intro: keeping split: sum.split)
  show "keeps Q (conn_Write b)" using assms by (auto simp: keeps_def conn_Write_def inner_def split: prod.split)
qed

section \<open>The invariant of a handler\<close>

definition handler_ok :: "'x RtmpHandler \<Rightarrow> bool" where
  "handler_ok h \<longleftrightarrow> sv_videoCodecID h \<in> {- 1, rtmp_codec_h264, rtmp_codec_h265} \<and> sv_audioCodecID h \<in> {- 1, rtmp_codec_aac} \<and>
     sv_role h \<in> {[], ''source'', ''sink''} \<and> (sv_role h = ''source'' \<longrightarrow> sv_putMsg h \<noteq> None) \<and>
     sv_status h \<in> {3, 11, 1019, 21, 1029, 31, 1039, 44, 1049}"

lemma inner_handler_ok: "inner handler_ok"
  by (simp add: inner_def handler_ok_def)

lemmas talks = keeps_talk[OF inner_handler_ok]

lemma keeps_stream_key: "keeps Q (stream_key str)"
  by (auto simp: keeps_def stream_key_def split: option.split gvalue.split)

lemma keeps_arguments:
  "keeps handler_ok (connect_arg i v a)" "keeps handler_ok (publish_arg i v a)" "keeps handler_ok (play_arg i v a)"
  "keeps handler_ok (createStream_arg i v n)" "keeps handler_ok (setDataFrame_arg i v a)"
proof -
  show "keeps handler_ok (connect_arg i v a)"
    unfolding connect_arg_def by (cases v) (auto intro!: keeping keeps_modS simp: handler_ok_def)
  show "keeps handler_ok (publish_arg i v a)"
    unfolding publish_arg_def by (cases v) (auto intro!: keeping keeps_modS keeps_stream_key simp: handler_ok_def)
  show "keeps handler_ok (play_arg i v a)"
    unfolding play_arg_def by (cases v) (auto intro!: keeping keeps_modS keeps_stream_key simp: handler_ok_def)
  show "keeps handler_ok (createStream_arg i v n)"
    unfolding createStream_arg_def by (cases v) (auto intro!: keeping)
  show "keeps handler_ok (setDataFrame_arg i v a)"
    unfolding setDataFrame_arg_def Let_def by (cases v) (auto intro!: keeping keeps_modS simp: handler_ok_def)
qed

section \<open>Every handler keeps the invariant\<close>

named_theorems kept \<open>the methods that keep the invariant of a handler\<close>

lemmas [kept] = keeping talks keeps_stream_key keeps_arguments keeps_args_loop

lemma keeps_case_option: "(\<And>x. keeps Q (f x)) \<Longrightarrow> keeps Q g \<Longrightarrow> keeps Q (case e of None \<Rightarrow> g | Some x \<Rightarrow> f x)"
  by (simp split: option.split)

lemma keeps_control [kept]:
  "keeps handler_ok (handleProtocolControlMessaage m)" "keeps handler_ok (handleUserControlMessage m)"
  "keeps handler_ok (handleSharedObjectMessage m)" "keeps handler_ok (handleAggregateMessage m)"
proof -
  show "keeps handler_ok (handleProtocolControlMessaage m)"
    unfolding handleProtocolControlMessaage_def by (intro kept keeps_modS) (simp add: handler_ok_def)
  show "keeps handler_ok (handleUserControlMessage m)" "keeps handler_ok (handleSharedObjectMessage m)"
    "keeps handler_ok (handleAggregateMessage m)"
    unfolding handleUserControlMessage_def handleSharedObjectMessage_def handleAggregateMessage_def by (intro kept)+
qed

lemma keeps_commands [kept]:
  "keeps handler_ok (handleConnectCommand r)" "keeps handler_ok (handleCreateStreamCommand r)"
  "keeps handler_ok (handlePublishCommand r)" "keeps handler_ok (handlePlayCommand r m)"
proof -
  show "keeps handler_ok (handleConnectCommand r)"
    unfolding handleConnectCommand_def by (intro kept keeps_modS) (simp_all add: handler_ok_def)
  show "keeps handler_ok (handlePlayCommand r m)"
    unfolding handlePlayCommand_def by (intro kept keeps_modS) (simp_all add: handler_ok_def)
  show "keeps handler_ok (handleCreateStreamCommand r)" unfolding handleCreateStreamCommand_def by (intro kept)
  show "keeps handler_ok (handlePublishCommand r)" unfolding handlePublishCommand_def by (intro kept)
qed

lemma keeps_media [kept]: 
  "keeps handler_ok (handleVideoMessage P m)" "keeps handler_ok (handleAudioMessage P m)" "keeps handler_ok (handleDataMessage P m)"
proof -
  have "keeps handler_ok (call_putMsg P d)" for d
    by (auto simp: keeps_def call_putMsg_def handler_ok_def retErr_def retIO_def failS_def split: option.split sum.split)
  then have r [kept]: "keeps handler_ok (rtmpMessageToExData P m)"
    unfolding rtmpMessageToExData_def by (intro kept)
  show "keeps handler_ok (handleVideoMessage P m)" "keeps handler_ok (handleAudioMessage P m)"
    unfolding handleVideoMessage_def handleAudioMessage_def Let_def by (intro kept r)+
  have "keeps handler_ok (handleSetDataFrame r)" for r unfolding handleSetDataFrame_def by (intro kept)
  then show "keeps handler_ok (handleDataMessage P m)"
    unfolding handleDataMessage_def by (auto intro!: kept r split: sum.split)
qed

lemma keeps_handleCommandMessage [kept]: "keeps handler_ok (handleCommandMessage P m)"
proof -
  have s: "keeps handler_ok (set_status s)" if "s \<in> {11, 1019, 21, 1029, 31, 1039, 44, 1049}" for s
    unfolding set_status_def using that by (intro keeps_modS) (auto simp: handler_ok_def)
  have o: "keeps handler_ok (OnSource P)" "keeps handler_ok (OnSink P)"
    by (auto simp: keeps_def OnSource_def OnSink_def handler_ok_def split: sum.split)
  show ?thesis
    unfolding handleCommandMessage_def case_prod_beta by (intro kept o s) simp_all
qed

lemma keeps_handle_message: "keeps handler_ok (handle_message P m)"
  unfolding handle_message_def Let_def by (intro kept)

lemma keeps_serve: "keeps handler_ok (serve P r)"
proof -
  have "handler_ok h \<Longrightarrow> handler_ok (snd (serve P r h))" for h
  proof (induction r arbitrary: h rule: length_induct)
    case (1 r)
    show ?case
    proof (cases "getRtmpMessage (sv_unpacker h) r")
      case (Inr x)
      then obtain msg u r' where x: "getRtmpMessage (sv_unpacker h) r = Inr (msg, u, r')" by (cases x) auto
      let ?h = "h\<lparr>sv_unpacker := u, sv_rw := (sv_rw h)\<lparr>w_in := r'\<rparr>\<rparr>"
      have "handler_ok ?h" using 1(2) by (simp add: handler_ok_def)
      then have "handler_ok (snd (handle_message P msg ?h))" using keeps_handle_message[of P msg] by (simp add: keeps_def)
      then show ?thesis using 1(1) x getRtmpMessage_Inr[OF x]
        by (subst serve.simps) (auto split: prod.splits sum.splits)
    qed (use 1(2) in \<open>subst serve.simps, simp\<close>)
  qed
  then show ?thesis by (simp add: keeps_def)
qed

text \<open>C7: Whatever the peer sends and whatever the pad answers, a handler of the server keeps its invariant:
  the codecs it announces are none or the supported ones, its role is none, source or sink and never
  source without the function that takes the data, and its state is one a server can be in; so it is
  with each message and with a whole connection, also when they fail.\<close>

theorem handler_invariant:
  assumes "handler_ok h"
  shows "handler_ok (snd (handle_message P m h)) \<and> handler_ok (snd (serve P r h))"
  using keeps_handle_message[of P m] keeps_serve[of P r] assms by (auto simp: keeps_def)

theorem handler_invariant_witness:
  "handler_ok (snd (handle_message ConnPool_pad demo_video (demo_server\<lparr>sv_status := 3\<rparr>)))"
  using handler_invariant[of "demo_server\<lparr>sv_status := 3\<rparr>" ConnPool_pad demo_video "[]"]
  by (simp add: handler_ok_def demo_server_def NewRtmpHandler_def)

section \<open>Messages that crash the process\<close>

definition same_codec :: "'x RtmpHandler \<Rightarrow> Message \<Rightarrow> bool" where
  "same_codec h m \<longleftrightarrow>
     (if MessageType m = TYPE_AUDIO then sv_audioCodecID h \<in> {- 1, uint (drop_bit 4 (Payload m ! 0 AND 0xF0))}
      else sv_videoCodecID h \<in> {- 1, uint (Payload m ! 0 AND 0x0F)})"

definition takes_data :: "'x Pad \<Rightarrow> 'x RtmpHandler \<Rightarrow> bool" where
  "takes_data P h \<longleftrightarrow> (\<forall>n d. sv_putMsg h = Some n \<longrightarrow>
     (\<exists>err x. pad_PutData P n d (sv_pad h) = Inr (err, x) \<and> (\<forall>e. err = Some e \<longrightarrow> \<not> is_fault e)))"

definition panics :: "('s, 'a) st \<Rightarrow> 's \<Rightarrow> bool" where
  "panics f s \<longleftrightarrow> (case fst (f s) of Inl (Panic p) \<Rightarrow> True | _ \<Rightarrow> False)"

lemma panics_simps:
  "panics (retIO x) s \<longleftrightarrow> False" "panics (failS (Errorf q)) s \<longleftrightarrow> False" "panics (failS (Panic p)) s \<longleftrightarrow> True"
  "panics (bindIO (liftIO (Inr y)) f) s \<longleftrightarrow> panics (f y) s" "panics (bindIO (liftIO (Inl (Panic p))) f) s \<longleftrightarrow> True"
  "panics (bindIO (getS g) f) s \<longleftrightarrow> panics (f (g s)) s"
  by (simp_all add: panics_def retIO_def failS_def bindIO_def liftIO_def getS_def)

lemma panics_put:
  assumes "takes_data P h" "2 \<le> length (Payload m)" "MessageType m \<in> {TYPE_AUDIO, TYPE_VIDEO}"
  shows "panics (rtmpMessageToExData P m) h \<longleftrightarrow> sv_putMsg h = None"
proof -
  obtain d where "toExData m = Inr d" using toExData_media[of m] assms(2,3) by (auto simp: media_def)
  then have "panics (rtmpMessageToExData P m) h = panics (call_putMsg P d) h"
    by (simp add: rtmpMessageToExData_def panics_simps)
  also have "\<dots> \<longleftrightarrow> sv_putMsg h = None"
  proof (cases "sv_putMsg h")
    case (Some n)
    then obtain err x where "pad_PutData P n d (sv_pad h) = Inr (err, x)" "\<forall>e. err = Some e \<longrightarrow> \<not> is_fault e"
      using assms(1) unfolding takes_data_def by blast
    then show ?thesis using Some
      by (auto simp: panics_def call_putMsg_def retErr_def retIO_def failS_def split: option.splits go_error.splits)
  qed (simp add: panics_def call_putMsg_def)
  finally show ?thesis .
qed

text \<open>C9: Exactly these messages crash the process, other than through the AMF commands and metadata: a
  set chunk size message of fewer than four bytes, a user control message of fewer than two, an empty
  audio or video message, and an audio or video message of the announced codec that has one byte or
  that passes the checks before anything was published on the connection.\<close>

theorem server_crash_iff:
  assumes "takes_data P h" and "MessageType m \<notin> {15, 17, 18, 20}"
  shows "panics (handle_message P m) h \<longleftrightarrow>
    MessageType m = 1 \<and> length (Payload m) < 4 \<or> MessageType m = 4 \<and> length (Payload m) < 2 \<or>
    MessageType m \<in> {8, 9} \<and> (Payload m = [] \<or>
      same_codec h m \<and> (length (Payload m) = 1 \<or> codec_fits h m \<and> sv_putMsg h = None))"
proof -
  have modS: "\<not> panics (modS g) s" for g :: "'a RtmpHandler \<Rightarrow> 'a RtmpHandler" and s by (simp add: panics_def modS_def)
  have put: "panics (rtmpMessageToExData P m) h \<longleftrightarrow> sv_putMsg h = None" if "2 \<le> length (Payload m)" "MessageType m \<in> {8, 9}"
    using panics_put[OF assms(1) that(1)] that(2) by simp
  have toolong: "toExData m = Inl index_panic" if "length (Payload m) = 1" "MessageType m \<in> {8, 9}"
    using that by (auto simp: toExData_def nth_byte_def Let_def)
  have size: "Payload m = [] \<or> length (Payload m) = 1 \<or> 2 \<le> length (Payload m)" by (cases "Payload m" rule: remdups_adj.cases) auto
  consider (size) "MessageType m = 1" | (user) "MessageType m = 4" | (audio) "MessageType m = 8" | (video) "MessageType m = 9"
    | (other) "MessageType m \<notin> {1, 4, 8, 9}" by blast
  then show ?thesis
  proof cases
    case size
    then show ?thesis
      by (auto simp: handle_message_def handleProtocolControlMessaage_def U32BE_def failIf_def panics_simps modS Let_def)
  next
    case user
    then show ?thesis by (auto simp: handle_message_def handleUserControlMessage_def panics_simps)
  next
    case audio
    then have m: "handle_message P m = handleAudioMessage P m" by (simp add: handle_message_def)
    show ?thesis using size audio put toolong unfolding m handleAudioMessage_def
      by (auto simp: nth_byte_def panics_simps same_codec_def codec_fits_def rtmpMessageToExData_def Let_def)
  next
    case video
    then have m: "handle_message P m = handleVideoMessage P m" by (simp add: handle_message_def)
    show ?thesis using size video put unfolding m handleVideoMessage_def
      by (auto simp: nth_byte_def panics_simps same_codec_def codec_fits_def Let_def)
  next
    case other
    then show ?thesis using assms(2)
      by (auto simp: handle_message_def handleProtocolControlMessaage_def handleSharedObjectMessage_def
          handleAggregateMessage_def panics_simps Let_def)
  qed
qed

theorem server_crash_iff_witness:
  "panics (handle_message ConnPool_pad demo_video) demo_server \<and>
   \<not> panics (handle_message ConnPool_pad (demo_video\<lparr>Payload := [0x27, 0]\<rparr>)) demo_server"
proof -
  have t: "takes_data ConnPool_pad demo_server" by (simp add: takes_data_def demo_server_def NewRtmpHandler_def)
  show ?thesis using server_crash_iff[OF t, of demo_video] server_crash_iff[OF t, of "demo_video\<lparr>Payload := [0x27, 0]\<rparr>"]
    by (simp add: demo_video_def same_codec_def codec_fits_def demo_server_def NewRtmpHandler_def)
qed

end
