(* ===== verification/FlvLive.thy ===== *)
theory FlvLive
  imports Relay
begin

text \<open>
  FLV over a connection: \<open>container/flv/flv.go\<close>, \<open>protocol/flvlive/tag.go\<close> and
  \<open>protocol/flvlive/flvlive.go\<close>.  A publisher sends FLV tags; the first script tag names the
  stream, the others become frames of the exchange.  The handler's fields are the state of its
  operations, as for the RTMP handlers.
\<close>

section \<open>Tags\<close>

record FlvTag =
  TagType :: byte
  DataSize24 :: u32
  Timestamp24 :: u32
  TimestampExt :: byte
  tag_Timestamp :: u32
  tag_StreamID :: u32
  tag_Data :: bytes

abbreviation (input) FlvTagAudio :: byte where "FlvTagAudio \<equiv> 8"
abbreviation (input) FlvTagVideo :: byte where "FlvTagVideo \<equiv> 9"
abbreviation (input) FlvTagAMF0 :: byte where "FlvTagAMF0 \<equiv> 18"
abbreviation (input) FlvTagAMF3 :: byte where "FlvTagAMF3 \<equiv> 0xf"

definition ParseTag :: "bytes \<Rightarrow> (FlvTag \<times> bytes) res" where
  "ParseTag r =
     bindE (ReadFull 11 r) (\<lambda>(bin, r).
     bindE (U24BE (subslice 1 4 bin)) (\<lambda>size.
     bindE (U24BE (subslice 4 7 bin)) (\<lambda>ts.
     bindE (U24BE (subslice 8 11 bin)) (\<lambda>sid.
     let ext = bin ! 7 in
     bindE (ReadFull (unat size) r) (\<lambda>(data, r).
     bindE (ReadFull 4 r) (\<lambda>(bin4, r).
     bindE (U32BE bin4) (\<lambda>expectLen.
     failIf (expectLen \<noteq> size + 11) (Errorf ''previous tag len:%d:%d'')
       (Inr (\<lparr>TagType = bin ! 0, DataSize24 = size, Timestamp24 = ts, TimestampExt = ext,
              tag_Timestamp = ts OR push_bit 24 (ucast ext), tag_StreamID = sid, tag_Data = data\<rparr>, r)))))))))"

text \<open>The frame of a tag.\<close>

definition flv_ExData :: "FlvTag \<Rightarrow> byte \<Rightarrow> byte \<Rightarrow> ExData" where
  "flv_ExData tag t f =
     \<lparr>ex_Timestamp = ucast (tag_Timestamp tag), ex_DataType = t, ex_AvFormat = f,
      ex_OriginProtocol = ProtocolFLVLIVE, ex_Payload = tag_Data tag\<rparr>"

definition getAudioExData :: "FlvTag \<Rightarrow> ExData res" where
  "getAudioExData tag =
     bindE (nth_byte (tag_Data tag) 0) (\<lambda>b0.
     failIf (drop_bit 4 (b0 AND 0xF0) \<noteq> 10) (Errorf ''just support aac:%d'')
     (bindE (nth_byte (tag_Data tag) 1) (\<lambda>b1.
      Inr (flv_ExData tag (if b1 = 0 then DataTypeAudioConfig else DataTypeAudio) AvFormatAAC))))"

definition getVideoExData :: "FlvTag \<Rightarrow> ExData res" where
  "getVideoExData tag =
     bindE (nth_byte (tag_Data tag) 0) (\<lambda>b0.
     let vfmt = drop_bit 4 (b0 AND 0xF0); vCodecID = b0 AND 0x0F in
     failIf (vCodecID \<noteq> 7) (Errorf ''just support avc:%d'')
     (bindE (nth_byte (tag_Data tag) 1) (\<lambda>b1.
      Inr (flv_ExData tag
        (if b1 = 0 then DataTypeVideoConfig
         else if b1 = 1 \<and> vfmt = 1 then DataTypeVideoKeyFrame else DataTypeVideoNonKeyFrame) AvFormatAVC))))"

definition getScriptExData :: "FlvTag \<Rightarrow> byte \<Rightarrow> ExData res" where
  "getScriptExData tag dataType = Inr (flv_ExData tag dataType AvFormatData)"

text \<open>The error text of the default branch reads a field of the nil \<open>d\<close>.\<close>

definition tag_ExData :: "FlvTag \<Rightarrow> ExData res" where
  "tag_ExData tag =
     (if TagType tag = FlvTagAudio then getAudioExData tag
      else if TagType tag = FlvTagVideo then getVideoExData tag
      else if TagType tag = FlvTagAMF0 then getScriptExData tag DataTypeDataAMF0
      else if TagType tag = FlvTagAMF3 then getScriptExData tag DataTypeDataAMF3
      else Inl nil_panic)"

definition GetNextExData :: "bytes \<Rightarrow> (ExData \<times> bytes) res" where
  "GetNextExData r = bindE (ParseTag r) (\<lambda>(tag, r). bindE (tag_ExData tag) (\<lambda>d. Inr (d, r)))"

section \<open>The key of a stream\<close>

text \<open>
  The regular expression \<open>/(\w+)/(\w+)\<close>: a run of word characters never contains a slash, so a match at
  a position takes the longest runs, and the first match is the leftmost position that has one.
\<close>

definition word_char :: "char \<Rightarrow> bool" where
  "word_char c \<longleftrightarrow> (let n = of_char c :: nat in
     48 \<le> n \<and> n \<le> 57 \<or> 65 \<le> n \<and> n \<le> 90 \<or> n = 95 \<or> 97 \<le> n \<and> n \<le> 122)"

definition match_here :: "string \<Rightarrow> (string \<times> string) option" where
  "match_here s =
     (case s of [] \<Rightarrow> None
      | c # s1 \<Rightarrow>
          if c \<noteq> CHR ''/'' then None
          else let m1 = takeWhile word_char s1; s2 = dropWhile word_char s1 in
            (case s2 of [] \<Rightarrow> None
             | c2 # s3 \<Rightarrow>
                 let m2 = takeWhile word_char s3 in
                 if m1 \<noteq> [] \<and> c2 = CHR ''/'' \<and> m2 \<noteq> [] then Some (m1, m2) else None))"

fun first_match :: "string \<Rightarrow> (string \<times> string) option" where
  "first_match [] = None"
| "first_match (c # s) = (case match_here (c # s) of Some m \<Rightarrow> Some m | None \<Rightarrow> first_match s)"

definition getAppStreamKey :: "string \<Rightarrow> string res" where
  "getAppStreamKey rtmpUrl =
     failIf (take 7 rtmpUrl \<noteq> ''rtmp://'') (Errorf ''wrong url:%s'')
     (case first_match rtmpUrl of
        None \<Rightarrow> Inl (Errorf ''wrong url:%s'')
      | Some (m1, m2) \<Rightarrow> Inr (m1 @ ''-'' @ m2))"

section \<open>The handler\<close>

record 'x FlvLiveHandler =
  fl_ptr :: nat
  fl_pad :: 'x
  fl_MagicNumber :: byte
  fl_appStreamKey :: string
  fl_inited :: bool
  fl_cancelled :: bool
  fl_putData :: "nat option"

definition NewFlvLiveHandler :: "nat \<Rightarrow> 'x \<Rightarrow> 'x FlvLiveHandler" where
  "NewFlvLiveHandler ptr x =
     \<lparr>fl_ptr = ptr, fl_pad = x, fl_MagicNumber = 0, fl_appStreamKey = [], fl_inited = False,
      fl_cancelled = False, fl_putData = None\<rparr>"

type_synonym ('x, 'a) flv = "('x FlvLiveHandler, 'a) st"

definition flv_stream :: "'x FlvLiveHandler \<Rightarrow> StreamHandler" where
  "flv_stream f = \<lparr>h_ptr = fl_ptr f, h_key = fl_appStreamKey f\<rparr>"

definition flv_OnSource :: "'x Pad \<Rightarrow> ('x, unit) flv" where
  "flv_OnSource P f =
     (case pad_OnSourceDetermined P (flv_stream f) (fl_pad f) of
        Inl e \<Rightarrow> (Inl e, f)
      | Inr ((n, err), x) \<Rightarrow> retErr err (f\<lparr>fl_putData := Some n, fl_pad := x\<rparr>))"

definition flv_OnSink :: "'x Pad \<Rightarrow> ('x, unit) flv" where
  "flv_OnSink P f =
     (case pad_OnSinkDetermined P (flv_stream f) (fl_pad f) of
        Inl e \<Rightarrow> (Inl e, f)
      | Inr (err, x) \<Rightarrow> retErr err (f\<lparr>fl_pad := x\<rparr>))"

text \<open>
  The error of \<open>getAppStreamKey\<close> is assigned and then overwritten: a wrong URL leaves the empty key
  it returns and registers with it.
\<close>

definition handleScriptData :: "'x Pad \<Rightarrow> ExData \<Rightarrow> ('x, unit) flv" where
  "handleScriptData P d =
     bindIO (liftIO (ReadObject (ex_Payload d))) (\<lambda>(objRead, r).
     bindIO (getS fl_inited) (\<lambda>inited.
     if \<not> inited then
       (case map_of objRead ''url'' of
          Some (VString rtmpUrl) \<Rightarrow>
            bindIO (modS (\<lambda>f. f\<lparr>fl_appStreamKey := (case getAppStreamKey rtmpUrl of Inr k \<Rightarrow> k | Inl e \<Rightarrow> [])\<rparr>)) (\<lambda>_.
            case map_of objRead ''publish'' of
              Some (VBool isPublish) \<Rightarrow> if isPublish then flv_OnSource P else flv_OnSink P
            | _ \<Rightarrow> failS (Errorf ''publish is not bool''))
        | _ \<Rightarrow> failS (Errorf ''url not a string''))
     else retIO ()))"

text \<open>The error of \<open>putData\<close> is ignored, a panic is not.\<close>

definition flv_put :: "'x Pad \<Rightarrow> ExData \<Rightarrow> ('x, unit) flv" where
  "flv_put P d f =
     (case fl_putData f of
        None \<Rightarrow> (Inl (Errorf ''source not registered''), f)
      | Some n \<Rightarrow>
          (case pad_PutData P n d (fl_pad f) of
             Inl e \<Rightarrow> (Inl e, f)
           | Inr (err, x) \<Rightarrow> (Inr (), f\<lparr>fl_pad := x\<rparr>)))"

definition flv_data :: "'x Pad \<Rightarrow> ExData \<Rightarrow> ('x, unit) flv" where
  "flv_data P d = (if ex_DataType d = DataTypeDataAMF0 then handleScriptData P d else flv_put P d)"

definition flv_Cancel :: "'x Pad \<Rightarrow> 'x FlvLiveHandler \<Rightarrow> 'x FlvLiveHandler" where
  "flv_Cancel P f = f\<lparr>fl_pad := pad_OnDestroySource P (flv_stream f) (fl_pad f), fl_cancelled := True\<rparr>"

lemma ParseTag_shrinks: "ParseTag r = Inr (tag, r') \<Longrightarrow> length r' < length r"
  by (auto simp: ParseTag_def bindE_eq_Inr failIf_eq_Inr Let_def ReadFull_Inr)

lemma GetNextExData_shrinks: "GetNextExData r = Inr (d, r') \<Longrightarrow> length r' < length r"
  by (auto simp: GetNextExData_def bindE_eq_Inr dest: ParseTag_shrinks)

function flv_loop :: "'x Pad \<Rightarrow> bytes \<Rightarrow> ('x, unit) flv" where
  "flv_loop P r f =
     (case GetNextExData r of
        Inl e \<Rightarrow> (Inl e, f)
      | Inr (d, r') \<Rightarrow>
          (case flv_data P d f of
             (Inl e, f') \<Rightarrow> (Inl e, f')
           | (Inr _, f') \<Rightarrow> flv_loop P r' f'))"
  by pat_completeness auto
termination
  by (relation "measure (\<lambda>(P, r, f). length r)") (auto dest: GetNextExData_shrinks)

declare flv_loop.simps [simp del]

text \<open>\<open>Start\<close>: the loop over the input of the connection, with the deferred \<open>Cancel\<close>.\<close>

definition flv_Start :: "'x Pad \<Rightarrow> bytes \<Rightarrow> ('x, unit) flv" where
  "flv_Start P r f = (let (e, f') = flv_loop P r f in (e, flv_Cancel P f'))"

definition flv_GetAppStreamKey :: "'x FlvLiveHandler \<Rightarrow> string" where
  "flv_GetAppStreamKey f = fl_appStreamKey f"

definition flv_WriteData :: "ExData \<Rightarrow> unit res" where
  "flv_WriteData m = Inl (Errorf ''flv live must be source'')"

section \<open>Reading what a publisher writes\<close>

text \<open>The bytes of a tag, as the FLV format has them, and the tags that can be written.\<close>

definition flv_bytes :: "FlvTag \<Rightarrow> bytes" where
  "flv_bytes t = TagType t # u24be (DataSize24 t) @ u24be (Timestamp24 t) @ TimestampExt t # u24be (tag_StreamID t) @
     tag_Data t @ u32be (DataSize24 t + 11)"

definition wf_tag :: "FlvTag \<Rightarrow> bool" where
  "wf_tag t \<longleftrightarrow> take_bit 24 (DataSize24 t) = DataSize24 t \<and> take_bit 24 (Timestamp24 t) = Timestamp24 t \<and>
     take_bit 24 (tag_StreamID t) = tag_StreamID t \<and> unat (DataSize24 t) = length (tag_Data t) \<and>
     tag_Timestamp t = Timestamp24 t OR push_bit 24 (ucast (TimestampExt t))"

lemma ParseTag_written:
  assumes "wf_tag t"
  shows "ParseTag (flv_bytes t @ r) = Inr (t, r)"
proof -
  let ?bin = "TagType t # u24be (DataSize24 t) @ u24be (Timestamp24 t) @ TimestampExt t # u24be (tag_StreamID t)"
  have l: "length (u24be v) = 3" "length (u32be w) = 4" for v w by (rule c24.length_enc c32.length_enc)+
  have bin: "flv_bytes t @ r = ?bin @ tag_Data t @ u32be (DataSize24 t + 11) @ r" by (simp add: flv_bytes_def)
  have 1: "ReadFull 11 (flv_bytes t @ r) = Inr (?bin, tag_Data t @ u32be (DataSize24 t + 11) @ r)"
    unfolding bin by (rule ReadFull_append) (simp add: l)
  have 2: "U24BE (subslice 1 4 ?bin) = Inr (DataSize24 t)"
    using c24.dec_subslice[of "DataSize24 t" "[TagType t]" 1 4] assms by (simp add: wf_tag_def)
  have 3: "U24BE (subslice 4 7 ?bin) = Inr (Timestamp24 t)"
    using c24.dec_subslice[of "Timestamp24 t" "TagType t # u24be (DataSize24 t)" 4 7] assms by (simp add: wf_tag_def l)
  have 4: "U24BE (subslice 8 11 ?bin) = Inr (tag_StreamID t)"
    using c24.dec_subslice[of "tag_StreamID t" "TagType t # u24be (DataSize24 t) @ u24be (Timestamp24 t) @ [TimestampExt t]" 8 11 "[]"] assms
    by (simp add: wf_tag_def l)
  have 5: "?bin ! 7 = TimestampExt t" by (simp add: nth_append l)
  have 6: "ReadFull (unat (DataSize24 t)) (tag_Data t @ u32be (DataSize24 t + 11) @ r) = Inr (tag_Data t, u32be (DataSize24 t + 11) @ r)"
    using assms by (intro ReadFull_append) (simp add: wf_tag_def)
  have 7: "ReadFull 4 (u32be (DataSize24 t + 11) @ r) = Inr (u32be (DataSize24 t + 11), r)" by (rule ReadFull_append) (rule l)
  have 8: "U32BE (u32be (DataSize24 t + 11)) = Inr (DataSize24 t + 11)" using c32.dec_enc[OF TrueI, of _ "[]"] by simp
  have 9: "?bin ! 0 = TagType t" by simp
  show ?thesis using assms 1 2 3 4 5 6 7 8 9
    by (simp add: ParseTag_def Let_def wf_tag_def del: One_nat_def nth_Cons_0)
qed

lemma GetNextExData_written:
  "wf_tag t \<Longrightarrow> tag_ExData t = Inr d \<Longrightarrow> GetNextExData (flv_bytes t @ r) = Inr (d, r)"
  by (simp add: GetNextExData_def ParseTag_written)

lemma GetNextExData_end: "GetNextExData [] = Inl EOF"
  by (simp add: GetNextExData_def ParseTag_def ReadFull_def)

lemma tag_ExData_type: "tag_ExData t = Inr d \<Longrightarrow> TagType t \<noteq> FlvTagAMF0 \<Longrightarrow> ex_DataType d \<noteq> DataTypeDataAMF0"
  by (auto simp: tag_ExData_def getAudioExData_def getVideoExData_def getScriptExData_def flv_ExData_def bindE_eq_Inr
      failIf_eq_Inr Let_def split: if_splits)

lemma flv_frames:
  assumes "\<forall>t \<in> set ts. wf_tag t \<and> TagType t \<noteq> FlvTagAMF0" and "list_all2 (\<lambda>t d. tag_ExData t = Inr d) ts ds"
    and "fl_putData f = Some n" and "x_src (pl_x (fl_pad f)) n = Some s" and "s_err s = None"
    and "length (s_srcChan s) + length ts \<le> 100"
  shows "flv_loop ConnPool_pad (concat (map flv_bytes ts)) f =
    (Inl EOF, f\<lparr>fl_pad := (fl_pad f)\<lparr>pl_x := set_src n (s\<lparr>s_srcChan := s_srcChan s @ map DataMessage ds\<rparr>) (pl_x (fl_pad f))\<rparr>\<rparr>)"
  using assms
proof (induction ts arbitrary: ds f s)
  case Nil
  have "set_src n s (pl_x (fl_pad f)) = pl_x (fl_pad f)" using Nil.prems(4) by (simp add: set_src_def fun_upd_idem)
  then show ?case using Nil.prems(2) by (subst flv_loop.simps) (simp add: GetNextExData_end)
next
  case (Cons t ts)
  obtain d ds' where ds: "ds = d # ds'" "tag_ExData t = Inr d" "list_all2 (\<lambda>t d. tag_ExData t = Inr d) ts ds'"
    using Cons.prems(2) by (auto simp: list_all2_Cons1)
  let ?s = "s\<lparr>s_srcChan := s_srcChan s @ [DataMessage d]\<rparr>" and ?f = "f\<lparr>fl_pad := (fl_pad f)\<lparr>pl_x := set_src n (s\<lparr>s_srcChan := s_srcChan s @ [DataMessage d]\<rparr>) (pl_x (fl_pad f))\<rparr>\<rparr>"
  have "flv_data ConnPool_pad d f = (Inr (), ?f)"
    using tag_ExData_type[OF ds(2)] Cons.prems(1,3-6)
    by (simp add: flv_data_def flv_put_def ConnPool_pad_def pool_PutData_def putData_def the_src_def)
  then have "flv_loop ConnPool_pad (concat (map flv_bytes (t # ts))) f = flv_loop ConnPool_pad (concat (map flv_bytes ts)) ?f"
    using GetNextExData_written[OF _ ds(2)] Cons.prems(1) by (subst flv_loop.simps) simp
  also have "\<dots> = (Inl EOF, ?f\<lparr>fl_pad := (fl_pad ?f)\<lparr>pl_x := set_src n (?s\<lparr>s_srcChan := s_srcChan ?s @ map DataMessage ds'\<rparr>) (pl_x (fl_pad ?f))\<rparr>\<rparr>)"
    using Cons.prems ds(3) by (intro Cons.IH) simp_all
  finally show ?case by (simp add: ds(1) set_src_def)
qed

section \<open>Publishing over FLV\<close>

definition waiting :: "string \<Rightarrow> pool \<Rightarrow> nat list" where
  "waiting k s = (case waitingSenders (x_pool (pl_x s)) k of None \<Rightarrow> [] | Some ws \<Rightarrow> map snd ws)"

lemma pool_source_registered:
  assumes "pool_settled s" and "pool_free (h_key h) s"
  obtains s' src where "pad_OnSourceDetermined ConnPool_pad h s = Inr ((pl_next s, None), s')"
    "pl_pipe s' = []" "receivers (x_pool (pl_x s')) (h_key h) = Some (pl_next s)"
    "x_src (pl_x s') (pl_next s) = Some src" "s_err src = None" "s_srcChan src = map RegisterSink (waiting (h_key h) s)"
proof -
  let ?n = "pl_next s" and ?x = "pl_x s"
  have ok: "exchange_ok ?x" and new: "x_src ?x ?n = None" and pipe: "pl_pipe s = []"
    using assms(1) by (simp_all add: pool_settled_def)
  have y: "s_err (new_Source h) = None" by (simp add: new_Source_def)
  have free: "receivers (x_pool ?x) (h_key h) = None" using assms(2) by (simp add: pool_free_def)
  from OnSourceDetermined_ok[OF ok new, of h] free obtain x' where
    x': "OnSourceDetermined ?n h ?x = Inr (None, x')" "receivers (x_pool x') = (receivers (x_pool ?x))(h_key h \<mapsto> ?n)"
    "x_src x' ?n = Some (new_Source h\<lparr>s_srcChan := map (RegisterSink \<circ> snd)
       (case waitingSenders (x_pool ?x) (h_key h) of None \<Rightarrow> [] | Some ws \<Rightarrow> ws)\<rparr>)" by auto
  show thesis
  proof (rule that)
    show "pad_OnSourceDetermined ConnPool_pad h s = Inr ((?n, None), \<lparr>pl_pipe = [], pl_x = x', pl_next = Suc ?n\<rparr>)"
      using x'(1) by (simp add: ConnPool_pad_def pool_OnSourceDetermined_def pipe)
    show "x_src (pl_x \<lparr>pl_pipe = [], pl_x = x', pl_next = Suc ?n\<rparr>) ?n = Some (new_Source h\<lparr>s_srcChan := map (RegisterSink \<circ> snd)
       (case waitingSenders (x_pool ?x) (h_key h) of None \<Rightarrow> [] | Some ws \<Rightarrow> ws)\<rparr>)" using x'(3) by simp
  qed (use x'(2) y in \<open>simp_all add: waiting_def split: option.split\<close>)
qed

definition publishes :: "FlvTag \<Rightarrow> string \<Rightarrow> bool" where
  "publishes t url \<longleftrightarrow> (\<exists>obj rest. ReadObject (tag_Data t) = Inr (obj, rest) \<and>
     map_of obj ''url'' = Some (VString url) \<and> map_of obj ''publish'' = Some (VBool True))"

lemma script_publishes:
  assumes "publishes t url" and "getAppStreamKey url = Inr key" and "fl_inited f = False"
    and "pad_OnSourceDetermined P \<lparr>h_ptr = fl_ptr f, h_key = key\<rparr> (fl_pad f) = Inr ((n, None), x)"
  shows "handleScriptData P (flv_ExData t DataTypeDataAMF0 AvFormatData) f =
    (Inr (), f\<lparr>fl_appStreamKey := key, fl_putData := Some n, fl_pad := x\<rparr>)"
proof -
  obtain obj rest where "ReadObject (tag_Data t) = Inr (obj, rest)" "map_of obj ''url'' = Some (VString url)"
    "map_of obj ''publish'' = Some (VBool True)" using assms(1) unfolding publishes_def by blast
  then show ?thesis using assms(2-4)
    by (simp add: handleScriptData_def flv_ExData_def bindIO_lift bindIO_getS bindIO_modS flv_OnSource_def flv_stream_def
        retErr_def retIO_def)
qed

text \<open>C10: Publishing over FLV: a connection whose first tag is a script tag that names a URL and asks to
  publish, followed by audio, video and AMF3 tags, registers the source under the key of the URL when it
  is free, puts the frame of every tag into the source in order, after the players that were waiting,
  and ends with the end of the input, having told the pad that the source is gone.\<close>

theorem flv_publishes:
  assumes "wf_tag t0" and "TagType t0 = FlvTagAMF0" and "publishes t0 url" and "getAppStreamKey url = Inr key"
    and "\<forall>t \<in> set ts. wf_tag t \<and> TagType t \<noteq> FlvTagAMF0" and "list_all2 (\<lambda>t d. tag_ExData t = Inr d) ts ds"
    and "pool_settled x" and "pool_free key x" and "length (waiting key x) + length ts \<le> 100"
  shows "\<exists>f s. flv_Start ConnPool_pad (flv_bytes t0 @ concat (map flv_bytes ts)) (NewFlvLiveHandler ptr x) = (Inl EOF, f) \<and>
    pl_pipe (fl_pad f) = [UnregisterSource \<lparr>h_ptr = ptr, h_key = key\<rparr>] \<and>
    receivers (x_pool (pl_x (fl_pad f))) key = Some (pl_next x) \<and> x_src (pl_x (fl_pad f)) (pl_next x) = Some s \<and>
    s_srcChan s = map RegisterSink (waiting key x) @ map DataMessage ds"
proof -
  let ?h = "\<lparr>h_ptr = ptr, h_key = key\<rparr>" and ?f = "NewFlvLiveHandler ptr x"
  obtain x1 src where x1: "pad_OnSourceDetermined ConnPool_pad ?h x = Inr ((pl_next x, None), x1)" "pl_pipe x1 = []"
    "receivers (x_pool (pl_x x1)) key = Some (pl_next x)" "x_src (pl_x x1) (pl_next x) = Some src" "s_err src = None"
    "s_srcChan src = map RegisterSink (waiting key x)"
    using pool_source_registered[OF assms(7), of ?h] assms(8) by auto
  let ?f1 = "?f\<lparr>fl_appStreamKey := key, fl_putData := Some (pl_next x), fl_pad := x1\<rparr>"
  let ?s = "src\<lparr>s_srcChan := s_srcChan src @ map DataMessage ds\<rparr>"
  have f: "fl_ptr ?f = ptr" "fl_pad ?f = x" "fl_inited ?f = False" by (simp_all add: NewFlvLiveHandler_def)
  have "handleScriptData ConnPool_pad (flv_ExData t0 DataTypeDataAMF0 AvFormatData) ?f = (Inr (), ?f1)"
    by (rule script_publishes[OF assms(3,4)]) (simp_all add: f x1(1))
  then have 1: "flv_data ConnPool_pad (flv_ExData t0 DataTypeDataAMF0 AvFormatData) ?f = (Inr (), ?f1)"
    by (simp add: flv_data_def flv_ExData_def)
  have "tag_ExData t0 = Inr (flv_ExData t0 DataTypeDataAMF0 AvFormatData)"
    using assms(2) by (simp add: tag_ExData_def getScriptExData_def)
  then have "flv_loop ConnPool_pad (flv_bytes t0 @ concat (map flv_bytes ts)) ?f = flv_loop ConnPool_pad (concat (map flv_bytes ts)) ?f1"
    using GetNextExData_written[OF assms(1)] 1 by (subst flv_loop.simps) simp
  also have "\<dots> = (Inl EOF, ?f1\<lparr>fl_pad := x1\<lparr>pl_x := set_src (pl_next x) ?s (pl_x x1)\<rparr>\<rparr>)"
    using flv_frames[OF assms(5,6), of ?f1 "pl_next x" src] x1 assms(9) by simp
  finally have st: "flv_Start ConnPool_pad (flv_bytes t0 @ concat (map flv_bytes ts)) ?f =
      (Inl EOF, flv_Cancel ConnPool_pad (?f1\<lparr>fl_pad := x1\<lparr>pl_x := set_src (pl_next x) ?s (pl_x x1)\<rparr>\<rparr>))"
    by (simp add: flv_Start_def)
  have pad: "fl_pad (flv_Cancel ConnPool_pad (?f1\<lparr>fl_pad := x1\<lparr>pl_x := set_src (pl_next x) ?s (pl_x x1)\<rparr>\<rparr>)) =
      x1\<lparr>pl_x := set_src (pl_next x) ?s (pl_x x1), pl_pipe := [UnregisterSource ?h]\<rparr>"
    using x1(2) by (simp add: flv_Cancel_def flv_stream_def ConnPool_pad_def OnDestroySource_def f)
  show ?thesis
    by (rule exI[of _ "flv_Cancel ConnPool_pad (?f1\<lparr>fl_pad := x1\<lparr>pl_x := set_src (pl_next x) ?s (pl_x x1)\<rparr>\<rparr>)"],
        rule exI[of _ ?s]) (unfold st pad, simp add: x1)
qed

text \<open>As long as no source was registered, the exchange has the sources it had.\<close>

lemma pool_sink_keeps:
  assumes "pool_settled s" and "pad_OnSinkDetermined ConnPool_pad h s = Inr (err, s')"
  shows "err = None \<and> pool_settled s' \<and> receivers (x_pool (pl_x s')) = receivers (x_pool (pl_x s))"
proof -
  let ?n = "pl_next s"
  have ok: "exchange_ok (pl_x s)" "x_snk (pl_x s) ?n = None" "pl_pipe s = []" using assms(1) by (simp_all add: pool_settled_def)
  then obtain x' where x': "OnSinkDetermined ?n h (pl_x s) = Inr (err, x')" "s' = \<lparr>pl_pipe = [], pl_x = x', pl_next = Suc ?n\<rparr>"
    using assms(2) by (auto simp: ConnPool_pad_def pool_OnSinkDetermined_def bindE_eq_Inr)
  then have same: "same_objects (set_snk ?n (new_Sink h) (pl_x s)) x'" using same_objects_register(2) by (simp add: OnSinkDetermined_def)
  from OnSinkDetermined_ok[OF ok(1,2), of h] x'(1) have "err = None" "exchange_ok x'" "receivers (x_pool x') = receivers (x_pool (pl_x s))"
    by (auto split: if_splits)
  then show ?thesis using same assms(1) x'(2) by (auto simp: pool_settled_def same_objects_def)
qed

definition unregistered :: "pool \<Rightarrow> pool FlvLiveHandler \<Rightarrow> bool" where
  "unregistered x f \<longleftrightarrow> fl_putData f = None \<and> pool_settled (fl_pad f) \<and>
     receivers (x_pool (pl_x (fl_pad f))) = receivers (x_pool (pl_x x))"

lemma retErr_Pair: "retErr e s = (case e of None \<Rightarrow> Inr () | Some x \<Rightarrow> Inl x, s)"
  by (cases e) (simp_all add: retErr_def retIO_def failS_def)

lemma handleScriptData_unregistered:
  assumes "handleScriptData ConnPool_pad d f = (res, f')" and "unregistered x f"
  shows "fl_putData f' \<noteq> None \<or> (\<exists>e. res = Inl e \<and> is_fault e) \<or> unregistered x f'"
proof -
  let ?f = "\<lambda>k. f\<lparr>fl_appStreamKey := k\<rparr>"
  have snk: "(\<exists>e. fst (flv_OnSink ConnPool_pad (?f k)) = Inl e \<and> is_fault e) \<or> unregistered x (snd (flv_OnSink ConnPool_pad (?f k)))" for k
  proof (cases "pad_OnSinkDetermined ConnPool_pad (flv_stream (?f k)) (fl_pad f)")
    case (Inl e)
    have ok: "exchange_ok (pl_x (fl_pad f))" "x_snk (pl_x (fl_pad f)) (pl_next (fl_pad f)) = None" "pl_pipe (fl_pad f) = []"
      using assms(2) by (simp_all add: pool_settled_def unregistered_def)
    have "is_fault e" using Inl OnSinkDetermined_ok[OF ok(1,2), of "flv_stream (?f k)"] ok(3)
      by (auto simp: ConnPool_pad_def pool_OnSinkDetermined_def bindE_eq_Inl split: if_splits)
    then show ?thesis using Inl by (simp add: flv_OnSink_def)
  next
    case (Inr y)
    obtain err s' where y: "y = (err, s')" by (cases y)
    from pool_sink_keeps[of "fl_pad f" "flv_stream (?f k)" err s'] assms(2) Inr y
    have "err = None" "pool_settled s'" "receivers (x_pool (pl_x s')) = receivers (x_pool (pl_x (fl_pad f)))" by (auto simp: unregistered_def)
    then show ?thesis using Inr y assms(2) by (simp add: flv_OnSink_def unregistered_def retErr_Pair)
  qed
  have src: "fl_putData (snd (flv_OnSource ConnPool_pad (?f k))) \<noteq> None \<or> (\<exists>e. fst (flv_OnSource ConnPool_pad (?f k)) = Inl e \<and> is_fault e)" for k
  proof (cases "pad_OnSourceDetermined ConnPool_pad (flv_stream (?f k)) (fl_pad f)")
    case (Inl e)
    have "pool_settled (fl_pad f)" using assms(2) by (simp add: unregistered_def)
    then show ?thesis using Inl pool.source_accepted[of "fl_pad f" "flv_stream (?f k)"] pool.source_refused[of "fl_pad f" "flv_stream (?f k)"]
      by (metis sum.distinct(1))
  next
    case (Inr y)
    then show ?thesis by (cases y) (auto simp: flv_OnSource_def retErr_Pair)
  qed
  have u: "unregistered x (?f k)" for k using assms(2) by (simp add: unregistered_def)
  have snk': "(\<exists>e. res = Inl e \<and> is_fault e) \<or> unregistered x f'" if "flv_OnSink ConnPool_pad (?f k) = (res, f')" for k
    using snk[of k] that by simp
  have src': "fl_putData f' \<noteq> None \<or> (\<exists>e. res = Inl e \<and> is_fault e)" if "flv_OnSource ConnPool_pad (?f k) = (res, f')" for k
    using src[of k] that by simp
  show ?thesis using assms(1) u assms(2)
    unfolding handleScriptData_def bindIO_def liftIO_def getS_def modS_def failS_def retIO_def
    by (auto simp del: not_None_eq split: sum.splits option.splits gvalue.splits if_splits prod.splits dest!: snk' src')
qed

text \<open>A source that was registered stays known to the handler.\<close>

lemma flv_data_registered:
  assumes "fl_putData f \<noteq> None"
  shows "fl_putData (snd (flv_data ConnPool_pad d f)) \<noteq> None"
proof -
  have "fl_putData (snd (flv_OnSource ConnPool_pad g)) \<noteq> None \<and> fl_putData (snd (flv_OnSink ConnPool_pad g)) \<noteq> None"
    if "fl_putData g \<noteq> None" for g
    using that by (auto simp: flv_OnSource_def flv_OnSink_def retErr_Pair split: sum.split)
  then have "fl_putData (snd (handleScriptData ConnPool_pad d f)) \<noteq> None" using assms
    unfolding handleScriptData_def bindIO_def liftIO_def getS_def modS_def failS_def retIO_def
    by (auto simp del: not_None_eq split: sum.split option.split gvalue.split)
  then show ?thesis using assms by (auto simp: flv_data_def flv_put_def split: option.split sum.split)
qed

lemma flv_loop_registered: "fl_putData f \<noteq> None \<Longrightarrow> fl_putData (snd (flv_loop ConnPool_pad r f)) \<noteq> None"
proof (induction r arbitrary: f rule: length_induct)
  case (1 r)
  show ?case
  proof (cases "GetNextExData r")
    case (Inl e)
    then show ?thesis using 1(2) by (subst flv_loop.simps) simp
  next
    case (Inr y)
    obtain d r' where y: "GetNextExData r = Inr (d, r')" using Inr by (cases y) auto
    obtain res f1 where f1: "flv_data ConnPool_pad d f = (res, f1)" by fastforce
    have put: "fl_putData f1 \<noteq> None" using flv_data_registered[OF 1(2), of d] f1 by simp
    then have rest: "fl_putData (snd (flv_loop ConnPool_pad r' f1)) \<noteq> None" using 1(1) GetNextExData_shrinks[OF y] by blast
    show ?thesis
    proof (cases res)
      case (Inl e)
      then show ?thesis using y f1 put by (subst flv_loop.simps) simp
    next
      case (Inr u)
      then show ?thesis using y f1 rest by (subst flv_loop.simps) simp
    qed
  qed
qed

lemma flv_loop_unregistered:
  assumes "flv_loop ConnPool_pad r f = (Inl e, f')" and "\<not> is_fault e" and "fl_putData f' = None" and "unregistered x f"
  shows "unregistered x f'"
  using assms
proof (induction r arbitrary: f rule: length_induct)
  case (1 r)
  show ?case
  proof (cases "GetNextExData r")
    case (Inl e')
    have "f' = f" using 1(2) Inl by (subst (asm) flv_loop.simps) simp
    then show ?thesis using 1(5) by simp
  next
    case (Inr y)
    obtain d r' where y: "GetNextExData r = Inr (d, r')" using Inr by (cases y) auto
    obtain res f1 where f1: "flv_data ConnPool_pad d f = (res, f1)" by fastforce
    have put: "fl_putData f = None" using 1(5) by (simp add: unregistered_def)
    have loop: "(case res of Inl e \<Rightarrow> (Inl e, f1) | Inr _ \<Rightarrow> flv_loop ConnPool_pad r' f1) = (Inl e, f')"
      using 1(2) y f1 by (subst (asm) flv_loop.simps) (simp split: sum.splits)
    have f1': "fl_putData f1 \<noteq> None \<or> (\<exists>e. res = Inl e \<and> is_fault e) \<or> unregistered x f1"
    proof (cases "ex_DataType d = DataTypeDataAMF0")
      case True
      then show ?thesis using f1 handleScriptData_unregistered[OF _ 1(5)] by (simp add: flv_data_def)
    next
      case False
      then show ?thesis using f1 put 1(5) by (simp add: flv_data_def flv_put_def)
    qed
    show ?thesis
    proof (cases res)
      case (Inl e')
      then show ?thesis using loop f1' 1(3,4) by auto
    next
      case (Inr u)
      then have l: "flv_loop ConnPool_pad r' f1 = (Inl e, f')" using loop by simp
      then have "fl_putData f1 = None" using flv_loop_registered[of f1 r'] 1(4) by (metis snd_conv)
      then have "unregistered x f1" using f1' Inr by simp
      then show ?thesis using 1(1) GetNextExData_shrinks[OF y] l 1(3,4) by blast
    qed
  qed
qed

text \<open>C11: The end of an FLV connection that has not registered a source, because no script tag came or it could
  not be read, or because it asked to play: the deferred Cancel unregisters the key the handler has then
  (the empty key when no script tag named a URL) all the same.  If nobody publishes that key the pairing
  goroutine panics; if somebody does, that publisher loses the key, and every other key stays as it was.\<close>

theorem flv_unregistered_end:
  assumes "flv_loop ConnPool_pad r (NewFlvLiveHandler ptr x) = (Inl e, f)" and "\<not> is_fault e"
    and "fl_putData f = None" and "pool_settled x"
  shows "\<exists>g. flv_Start ConnPool_pad r (NewFlvLiveHandler ptr x) = (Inl e, g) \<and>
    (let key = fl_appStreamKey f; end = drain (pl_pipe (fl_pad g)) (pl_x (fl_pad g)) in
     if pool_free key x then end = Inl (Panic (key @ '' source not registerd''))
     else \<exists>y. end = Inr y \<and> receivers (x_pool y) = (receivers (x_pool (pl_x x)))(key := None))"
proof -
  have "unregistered x (NewFlvLiveHandler ptr x)" using assms(4) by (simp add: unregistered_def NewFlvLiveHandler_def)
  from flv_loop_unregistered[OF assms(1-3) this] have f: "pool_settled (fl_pad f)"
    "receivers (x_pool (pl_x (fl_pad f))) = receivers (x_pool (pl_x x))" by (simp_all add: unregistered_def)
  let ?h = "flv_stream f" and ?g = "flv_Cancel ConnPool_pad f"
  have key: "h_key ?h = fl_appStreamKey f" by (simp add: flv_stream_def)
  have d: "drain (pl_pipe (fl_pad ?g)) (pl_x (fl_pad ?g)) = handleUnregisterSource ?h (pl_x (fl_pad f))"
    using f(1) by (cases "handleUnregisterSource ?h (pl_x (fl_pad f))")
      (simp_all add: flv_Cancel_def ConnPool_pad_def pool_settled_def OnDestroySource_def)
  have ok: "exchange_ok (pl_x (fl_pad f))" using f(1) by (simp add: pool_settled_def)
  have "if pool_free (fl_appStreamKey f) x then handleUnregisterSource ?h (pl_x (fl_pad f)) = Inl (Panic (fl_appStreamKey f @ '' source not registerd''))
    else \<exists>y. handleUnregisterSource ?h (pl_x (fl_pad f)) = Inr y \<and>
      receivers (x_pool y) = (receivers (x_pool (pl_x x)))(fl_appStreamKey f := None)"
    using handleUnregisterSource_ok[OF ok, of ?h] unfolding key f(2) pool_free_def by (auto split: if_splits)
  moreover have "flv_Start ConnPool_pad r (NewFlvLiveHandler ptr x) = (Inl e, ?g)" using assms(1) by (simp add: flv_Start_def)
  ultimately show ?thesis unfolding Let_def d[symmetric] by blast
qed

section \<open>Keys\<close>

lemma takeWhile_word:
  "\<forall>c \<in> set w. word_char c \<Longrightarrow> takeWhile word_char (w @ CHR ''/'' # r) = w \<and> dropWhile word_char (w @ CHR ''/'' # r) = CHR ''/'' # r"
  by (simp add: takeWhile_tail dropWhile_append3 word_char_def)

lemma takeWhile_end:
  "\<forall>c \<in> set w. word_char c \<Longrightarrow> r = [] \<or> \<not> word_char (hd r) \<Longrightarrow> takeWhile word_char (w @ r) = w"
  by (cases r) (auto simp: takeWhile_append)

lemma match_two:
  assumes "\<forall>c \<in> set v. word_char c" "\<forall>c \<in> set w. word_char c" "w \<noteq> []" "r = [] \<or> \<not> word_char (hd r)"
  shows "match_here (''/'' @ v @ ''/'' @ w @ r) = (if v = [] then None else Some (v, w))"
  using takeWhile_word[OF assms(1), of "w @ r"] takeWhile_end[OF assms(2,4)] assms(3) by (simp add: match_here_def)

lemma match_blocked:
  assumes "\<exists>c \<in> set h. \<not> word_char c" "CHR ''/'' \<notin> set h"
  shows "match_here (CHR ''/'' # h @ r) = None"
proof -
  obtain c h' where d: "dropWhile word_char h = c # h'" using assms(1) by (cases "dropWhile word_char h") (auto simp: dropWhile_eq_Nil_conv)
  then have "dropWhile word_char (h @ r) = c # h' @ r" using assms(1) by (auto simp: dropWhile_append)
  moreover have "c \<noteq> CHR ''/''" using d assms(2) by (metis list.set_intros(1) set_dropWhileD)
  ultimately show ?thesis by (simp add: match_here_def)
qed

lemma first_match_skip: "CHR ''/'' \<notin> set h \<Longrightarrow> first_match (h @ r) = first_match r"
  by (induction h) (auto simp: match_here_def)

lemma first_match_scheme:
  "first_match (''rtmp://'' @ u) = (case match_here (CHR ''/'' # u) of Some m \<Rightarrow> Some m | None \<Rightarrow> first_match u)"
proof -
  have "match_here (CHR ''/'' # CHR ''/'' # u) = None" by (simp add: match_here_def word_char_def)
  then show ?thesis using first_match_skip[of "''rtmp:''" "''//'' @ u"] by simp
qed

text \<open>The key of an FLV publisher for an address \<open>rtmp://host/app/name\<close>, whatever follows the name:
  application and stream name joined by a dash, as for an RTMP publisher, unless the host is itself made
  of word characters, such as localhost: then it is the host joined with the application, and the
  stream name does not count.\<close>

theorem getAppStreamKey_exact:
  assumes "CHR ''/'' \<notin> set host" and "app \<noteq> []" and "name \<noteq> []"
    and "\<forall>c \<in> set app. word_char c" and "\<forall>c \<in> set name. word_char c" and "rest = [] \<or> \<not> word_char (hd rest)"
  shows "getAppStreamKey (''rtmp://'' @ host @ ''/'' @ app @ ''/'' @ name @ rest) =
    Inr (if host \<noteq> [] \<and> (\<forall>c \<in> set host. word_char c) then host @ ''-'' @ app else app @ ''-'' @ name)"
proof -
  let ?u = "host @ ''/'' @ app @ ''/'' @ name @ rest"
  have an: "match_here (''/'' @ app @ ''/'' @ name @ rest) = Some (app, name)"
    using match_two[OF assms(4,5,3,6)] assms(2) by simp
  have pre: "first_match (''rtmp://'' @ ?u) = (case match_here (CHR ''/'' # ?u) of Some m \<Rightarrow> Some m | None \<Rightarrow> first_match ?u)"
    by (rule first_match_scheme)
  have tail: "first_match ?u = Some (app, name)" using first_match_skip[OF assms(1)] an by simp
  have m: "match_here (CHR ''/'' # ?u) = (if host \<noteq> [] \<and> (\<forall>c \<in> set host. word_char c) then Some (host, app) else None)"
  proof (cases "host = [] \<or> (\<forall>c \<in> set host. word_char c)")
    case True
    then show ?thesis using match_two[of host app "''/'' @ name @ rest"] assms(2,4) by (auto simp: word_char_def)
  next
    case False
    then show ?thesis using match_blocked[of host] assms(1) by auto
  qed
  have "first_match (''rtmp://'' @ ?u) =
      Some (if host \<noteq> [] \<and> (\<forall>c \<in> set host. word_char c) then (host, app) else (app, name))"
    unfolding pre m tail by simp
  then show ?thesis by (simp add: getAppStreamKey_def del: first_match.simps)
qed

theorem getAppStreamKey_exact_witness:
  "getAppStreamKey ''rtmp://localhost/live/x?t=1'' = Inr ''localhost-live'' \<and>
   getAppStreamKey ''rtmp://a.b/live/x?t=1'' = Inr ''live-x''"
  using getAppStreamKey_exact[of "''localhost''" "''live''" "''x''" "''?t=1''"]
    getAppStreamKey_exact[of "''a.b''" "''live''" "''x''" "''?t=1''"]
  by (simp add: word_char_def)

definition demo_script :: FlvTag where
  "demo_script =
     (let d = [3, 0, 7] @ bytes_of_string ''publish'' @ [1, 1, 0, 3] @ bytes_of_string ''url'' @ [2, 0, 17] @
            bytes_of_string ''rtmp://a.b/live/x'' @ [0, 0, 9] in
      \<lparr>TagType = 18, DataSize24 = of_nat (length d), Timestamp24 = 0, TimestampExt = 0, tag_Timestamp = 0, tag_StreamID = 0,
       tag_Data = d\<rparr>)"

definition demo_audio :: FlvTag where
  "demo_audio = \<lparr>TagType = 8, DataSize24 = 3, Timestamp24 = 0x23, TimestampExt = 1, tag_Timestamp = 0x1000023, tag_StreamID = 0,
     tag_Data = [0xAF, 1, 7]\<rparr>"

lemma demo_script_publishes: "publishes demo_script ''rtmp://a.b/live/x''"
proof -
  have "bindE (ReadObject (tag_Data demo_script)) (\<lambda>(obj, rest). Inr (map_of obj ''url'', map_of obj ''publish'')) =
      Inr (Some (VString ''rtmp://a.b/live/x''), Some (VBool True))" by code_simp
  then show ?thesis by (auto simp: publishes_def bindE_eq_Inr)
qed

theorem flv_publishes_witness:
  "\<exists>f s. flv_Start ConnPool_pad (flv_bytes demo_script @ flv_bytes demo_audio) (NewFlvLiveHandler 7 demo_pool) = (Inl EOF, f) \<and>
     receivers (x_pool (pl_x (fl_pad f))) ''live-x'' = Some 0 \<and> x_src (pl_x (fl_pad f)) 0 = Some s \<and>
     s_srcChan s = [DataMessage (flv_ExData demo_audio DataTypeAudio AvFormatAAC)]"
proof -
  have "wf_tag demo_script" "wf_tag demo_audio" "getAppStreamKey ''rtmp://a.b/live/x'' = Inr ''live-x''"
    "tag_ExData demo_audio = Inr (flv_ExData demo_audio DataTypeAudio AvFormatAAC)"
    "TagType demo_script = 18" "TagType demo_audio \<noteq> 18" "waiting ''live-x'' demo_pool = []"
    by code_simp+
  then show ?thesis
    using flv_publishes[OF _ _ demo_script_publishes, of "''live-x''" "[demo_audio]" "[flv_ExData demo_audio DataTypeAudio AvFormatAAC]" demo_pool 7]
      demo_facts(5,6) by (fastforce simp: demo_pool_def)
qed

definition demo_viewer :: FlvTag where
  "demo_viewer =
     (let d = [3, 0, 7] @ bytes_of_string ''publish'' @ [1, 0, 0, 3] @ bytes_of_string ''url'' @ [2, 0, 17] @
            bytes_of_string ''rtmp://a.b/live/x'' @ [0, 0, 9] in
      \<lparr>TagType = 18, DataSize24 = of_nat (length d), Timestamp24 = 0, TimestampExt = 0, tag_Timestamp = 0, tag_StreamID = 0,
       tag_Data = d\<rparr>)"

lemma demo_viewer_plays:
  "\<exists>obj rest. ReadObject (tag_Data demo_viewer) = Inr (obj, rest) \<and> map_of obj ''url'' = Some (VString ''rtmp://a.b/live/x'') \<and>
     map_of obj ''publish'' = Some (VBool False)"
proof -
  have "bindE (ReadObject (tag_Data demo_viewer)) (\<lambda>(obj, rest). Inr (map_of obj ''url'', map_of obj ''publish'')) =
      Inr (Some (VString ''rtmp://a.b/live/x''), Some (VBool False))" by code_simp
  then show ?thesis by (auto simp: bindE_eq_Inr)
qed

theorem flv_unregistered_end_witness:
  "(\<exists>g. flv_Start ConnPool_pad [1, 2, 3] (NewFlvLiveHandler 7 demo_pool) = (Inl ErrUnexpectedEOF, g) \<and>
     drain (pl_pipe (fl_pad g)) (pl_x (fl_pad g)) = Inl (Panic '' source not registerd'')) \<and>
   (\<exists>x g y. \<not> pool_free ''live-x'' x \<and> flv_Start ConnPool_pad (flv_bytes demo_viewer) (NewFlvLiveHandler 8 x) = (Inl EOF, g) \<and>
     drain (pl_pipe (fl_pad g)) (pl_x (fl_pad g)) = Inr y \<and> receivers (x_pool y) ''live-x'' = None)"
proof (rule conjI)
  have "GetNextExData [1, 2, 3] = Inl ErrUnexpectedEOF"
    by (simp add: GetNextExData_def ParseTag_def ReadFull_def)
  then have "flv_loop ConnPool_pad [1, 2, 3] (NewFlvLiveHandler 7 demo_pool) = (Inl ErrUnexpectedEOF, NewFlvLiveHandler 7 demo_pool)"
    by (subst flv_loop.simps) simp
  from flv_unregistered_end[OF this _ _ demo_facts(5)] demo_facts(6)
  show "\<exists>g. flv_Start ConnPool_pad [1, 2, 3] (NewFlvLiveHandler 7 demo_pool) = (Inl ErrUnexpectedEOF, g) \<and>
     drain (pl_pipe (fl_pad g)) (pl_x (fl_pad g)) = Inl (Panic '' source not registerd'')"
    by (auto simp: NewFlvLiveHandler_def Let_def)
next
  let ?h = "\<lparr>h_ptr = 8, h_key = ''live-x''\<rparr>" and ?d = "flv_ExData demo_viewer DataTypeDataAMF0 AvFormatData"
  obtain n x where x: "pad_OnSourceDetermined ConnPool_pad \<lparr>h_ptr = 7, h_key = ''live-x''\<rparr> demo_pool = Inr ((n, None), x)"
    "pool_settled x" "\<not> pool_free ''live-x'' x"
    using pool.source_accepted[of demo_pool "\<lparr>h_ptr = 7, h_key = ''live-x''\<rparr>"] demo_facts(5,6) by auto
  have absent: "pool_absent ?h x"
    using exchange_okD(2)[of "pl_x x" "''live-x''"] x(2,3)
    by (auto simp: pool_absent_def pool_free_def pool_settled_def split: option.split)
  obtain x1 where x1: "pad_OnSinkDetermined ConnPool_pad ?h x = Inr (None, x1)" using pool.sink_accepted[OF x(2) absent] by blast
  let ?f = "NewFlvLiveHandler 8 x"
  let ?f1 = "?f\<lparr>fl_appStreamKey := ''live-x'', fl_pad := x1\<rparr>"
  have wf: "wf_tag demo_viewer" "getAppStreamKey ''rtmp://a.b/live/x'' = Inr ''live-x''" "TagType demo_viewer = 18" by code_simp+
  have "tag_ExData demo_viewer = Inr ?d" using wf(3) by (simp add: tag_ExData_def getScriptExData_def)
  then have get: "GetNextExData (flv_bytes demo_viewer @ []) = Inr (?d, [])" by (rule GetNextExData_written[OF wf(1)])
  have "flv_data ConnPool_pad ?d ?f = (Inr (), ?f1)"
    using demo_viewer_plays wf(2) x1
    by (auto simp: flv_data_def flv_ExData_def handleScriptData_def bindIO_def liftIO_def getS_def modS_def NewFlvLiveHandler_def
        flv_OnSink_def flv_stream_def retErr_def retIO_def)
  moreover have "GetNextExData [] = Inl EOF" by code_simp
  ultimately have "flv_loop ConnPool_pad (flv_bytes demo_viewer) ?f = (Inl EOF, ?f1)"
    using get by (subst flv_loop.simps) (simp add: flv_loop.simps)
  from flv_unregistered_end[OF this _ _ x(2)] x(3)
  show "\<exists>x g y. \<not> pool_free ''live-x'' x \<and> flv_Start ConnPool_pad (flv_bytes demo_viewer) (NewFlvLiveHandler 8 x) = (Inl EOF, g) \<and>
     drain (pl_pipe (fl_pad g)) (pl_x (fl_pad g)) = Inr y \<and> receivers (x_pool y) ''live-x'' = None"
    by (fastforce simp: NewFlvLiveHandler_def Let_def)
qed

end
