(* ===== verification/Mp4_Box.thy ===== *)
theory Mp4_Box
  imports ByteIO
begin

text \<open>
  \<open>container/mp4/box.go\<close>: the headers of ISO media boxes, and what the parsers of the single boxes share.
  A \<open>Parse\<close> method reads from an \<open>io.Reader\<close> and returns how many bytes it read; \<open>'a rd\<close> is such a
  method: the value, the count and the bytes left, and \<open>bindR\<close> adds the counts up as the methods do in
  \<open>totalReadLen\<close>.  The writer of \<open>Serialize\<close> never fails, so \<open>Serialize\<close> is the bytes it writes, whose
  number it returns.  The name of a box is a function of its type and is left out, as is the extended
  type, which nothing uses.
\<close>

section \<open>Reading with a count\<close>

type_synonym 'a rd = "bytes \<Rightarrow> ('a \<times> nat \<times> bytes) res"

definition retR :: "'a \<Rightarrow> 'a rd" where
  "retR x r = Inr (x, 0, r)"

definition failR :: "go_error \<Rightarrow> 'a rd" where
  "failR e r = Inl e"

definition bindR :: "'a rd \<Rightarrow> ('a \<Rightarrow> 'b rd) \<Rightarrow> 'b rd" where
  "bindR m f r = bindE (m r) (\<lambda>(x, n, r). bindE (f x r) (\<lambda>(y, k, r). Inr (y, n + k, r)))"

text \<open>
  \<open>io.ReadFull\<close> into a buffer of \<open>n\<close> bytes; \<open>make\<close> of a slice panics for a negative length and for a length
  above the limit of the allocator, \<open>2 ^ 48\<close> bytes on a 64-bit machine.
\<close>

definition rdBuf :: "nat \<Rightarrow> bytes rd" where
  "rdBuf n r = bindE (ReadFull n r) (\<lambda>(b, r). Inr (b, n, r))"

definition makeslice_panic :: go_error where
  "makeslice_panic = Panic ''runtime error: makeslice: len out of range''"

definition rdMake :: "int \<Rightarrow> bytes rd" where
  "rdMake n = (if n < 0 \<or> 0x1000000000000 < n then failR makeslice_panic else rdBuf (nat n))"

text \<open>\<open>for i := 0; i < n; i++\<close> with one element read in each round.\<close>

fun rd_times :: "nat \<Rightarrow> 'a rd \<Rightarrow> 'a list rd" where
  "rd_times 0 m = retR []"
| "rd_times (Suc n) m = bindR m (\<lambda>x. bindR (rd_times n m) (\<lambda>xs. retR (x # xs)))"

text \<open>
  The big-endian fields of a buffer at fixed offsets.  The buffers are long enough for them, so the
  decoders of byteio do not panic there (\<open>at_exact\<close>).
\<close>

definition at16 :: "bytes \<Rightarrow> nat \<Rightarrow> u16" where
  "at16 b i = (case U16BE (subslice i (i + 2) b) of Inr v \<Rightarrow> v | Inl e \<Rightarrow> 0)"

definition at24 :: "bytes \<Rightarrow> nat \<Rightarrow> u32" where
  "at24 b i = (case U24BE (subslice i (i + 3) b) of Inr v \<Rightarrow> v | Inl e \<Rightarrow> 0)"

definition at32 :: "bytes \<Rightarrow> nat \<Rightarrow> u32" where
  "at32 b i = (case U32BE (subslice i (i + 4) b) of Inr v \<Rightarrow> v | Inl e \<Rightarrow> 0)"

definition at64 :: "bytes \<Rightarrow> nat \<Rightarrow> u64" where
  "at64 b i = (case U64BE (subslice i (i + 8) b) of Inr v \<Rightarrow> v | Inl e \<Rightarrow> 0)"

definition at16s :: "bytes \<Rightarrow> nat \<Rightarrow> nat \<Rightarrow> u16 list" where
  "at16s b i n = map (\<lambda>k. at16 b (i + 2 * k)) [0..<n]"

definition at32s :: "bytes \<Rightarrow> nat \<Rightarrow> nat \<Rightarrow> u32 list" where
  "at32s b i n = map (\<lambda>k. at32 b (i + 4 * k)) [0..<n]"

section \<open>Headers\<close>

record Box =
  Size :: u64
  BoxType :: u32

record FullBox =
  fb_Box :: Box
  version :: byte
  flags24Bit :: u32

record UnsupporttedBox =
  ub_Box :: Box
  RawData :: bytes

abbreviation (input) BOX_SIZE :: int where "BOX_SIZE \<equiv> 8"
abbreviation (input) FULL_BOX_SIZE :: int where "FULL_BOX_SIZE \<equiv> 12"
abbreviation (input) FULLBOX_ANY_FLAG :: u32 where "FULLBOX_ANY_FLAG \<equiv> 0xffffffff"
abbreviation (input) FULLBOX_ANY_VERSION :: bool where "FULLBOX_ANY_VERSION \<equiv> True"
abbreviation (input) BoxTypeMDAT :: u32 where "BoxTypeMDAT \<equiv> 0x6d646174"

abbreviation fb_Size :: "FullBox \<Rightarrow> u64" where "fb_Size f \<equiv> Size (fb_Box f)"

definition NewTypeBox :: "u32 \<Rightarrow> Box" where
  "NewTypeBox boxType = \<lparr>Size = 8, BoxType = boxType\<rparr>"

definition NewTypeFullBox :: "u32 \<Rightarrow> byte \<Rightarrow> u32 \<Rightarrow> FullBox" where
  "NewTypeFullBox boxType ver flags =
     \<lparr>fb_Box = (NewTypeBox boxType)\<lparr>Size := 12\<rparr>, version = ver, flags24Bit = flags\<rparr>"

definition ParseBox :: "Box rd" where
  "ParseBox =
     bindR (rdBuf 8) (\<lambda>buf.
     let b = \<lparr>Size = ucast (at32 buf 0), BoxType = at32 buf 4\<rparr> in
     if Size b = 1 \<and> BoxType b \<noteq> BoxTypeMDAT then failR (Errorf ''large size in %s box'') else retR b)"

definition Box_Serialize :: "Box \<Rightarrow> bytes" where
  "Box_Serialize b =
     (if 0xffffffff < Size b then u32be 1 @ u32be (BoxType b) @ u64be (Size b)
      else u32be (ucast (Size b)) @ u32be (BoxType b))"

definition FullBox_Parse :: "Box \<Rightarrow> byte \<Rightarrow> bool \<Rightarrow> u32 \<Rightarrow> FullBox rd" where
  "FullBox_Parse b expectVer isAnyVer expectFlag =
     bindR (rdBuf 4) (\<lambda>buf.
     let ver = buf ! 0; flags = at24 buf 1 in
     if \<not> isAnyVer \<and> ver \<noteq> expectVer then failR (Errorf ''fullbox expectVer:%d but:%d'')
     else if expectFlag \<noteq> FULLBOX_ANY_FLAG \<and> flags \<noteq> expectFlag
       then failR (Errorf ''fullbox expectFlags:%d but:%d'')
     else retR \<lparr>fb_Box = b, version = ver, flags24Bit = flags\<rparr>)"

definition FullBox_Serialize :: "FullBox \<Rightarrow> bytes" where
  "FullBox_Serialize f =
     Box_Serialize (fb_Box f) @ u32be (push_bit 24 (ucast (version f)) OR flags24Bit f)"

definition UnsupporttedBox_Parse :: "Box \<Rightarrow> UnsupporttedBox rd" where
  "UnsupporttedBox_Parse b =
     bindR (rdMake (uint (Size b) - BOX_SIZE)) (\<lambda>raw. retR \<lparr>ub_Box = b, RawData = raw\<rparr>)"

definition UnsupporttedBox_Serialize :: "UnsupporttedBox \<Rightarrow> bytes" where
  "UnsupporttedBox_Serialize u = Box_Serialize (ub_Box u) @ RawData u"

definition uint32Serialize :: "u32 list \<Rightarrow> bytes" where
  "uint32Serialize nums = concat (map u32be nums)"

section \<open>Reading fields from what was written\<close>

named_theorems field_simps \<open>fields of a buffer and the bytes they were written as\<close>

lemma at_exact:
  "i + 2 \<le> length b \<Longrightarrow> U16BE (subslice i (i + 2) b) = Inr (at16 b i)"
  "i + 3 \<le> length b \<Longrightarrow> U24BE (subslice i (i + 3) b) = Inr (at24 b i)"
  "i + 4 \<le> length b \<Longrightarrow> U32BE (subslice i (i + 4) b) = Inr (at32 b i)"
  "i + 8 \<le> length b \<Longrightarrow> U64BE (subslice i (i + 8) b) = Inr (at64 b i)"
  using c16.dec_total[of "subslice i (i + 2) b"] c24.dec_total[of "subslice i (i + 3) b"]
    c32.dec_total[of "subslice i (i + 4) b"] c64.dec_total[of "subslice i (i + 8) b"]
  by (auto simp: at16_def at24_def at32_def at64_def)

lemma at_skip [field_simps]:
  "length xs \<le> i \<Longrightarrow> at16 (xs @ r) i = at16 r (i - length xs)"
  "length xs \<le> i \<Longrightarrow> at24 (xs @ r) i = at24 r (i - length xs)"
  "length xs \<le> i \<Longrightarrow> at32 (xs @ r) i = at32 r (i - length xs)"
  "length xs \<le> i \<Longrightarrow> at64 (xs @ r) i = at64 r (i - length xs)"
  "length xs \<le> i \<Longrightarrow> (xs @ r) ! i = r ! (i - length xs)"
  by (simp_all add: at16_def at24_def at32_def at64_def subslice_append_right nth_append Suc_diff_le)

lemma at_skip_byte [field_simps]:
  "0 < i \<Longrightarrow> at16 (x # r) i = at16 r (i - 1)" "0 < i \<Longrightarrow> at24 (x # r) i = at24 r (i - 1)"
  "0 < i \<Longrightarrow> at32 (x # r) i = at32 r (i - 1)" "0 < i \<Longrightarrow> at64 (x # r) i = at64 r (i - 1)"
  using at_skip(1-4)[of "[x]" i r] by simp_all

lemma at_here [field_simps]:
  "at16 (u16be a @ r) 0 = a" "at32 (u32be v @ r) 0 = v" "at64 (u64be w @ r) 0 = w"
  "take_bit 24 v = v \<Longrightarrow> at24 (u24be v @ r) 0 = v"
  using c16.dec_subslice[OF TrueI, of "[]" 0 2 a] c32.dec_subslice[OF TrueI, of "[]" 0 4 v]
    c64.dec_subslice[OF TrueI, of "[]" 0 8 w] c24.dec_subslice[of v "[]" 0 3]
  by (simp_all add: numeral_2_eq_2 at16_def at24_def at32_def at64_def)

lemma at_last [field_simps]:
  "at16 (u16be a) 0 = a" "at32 (u32be v) 0 = v" "at64 (u64be w) 0 = w"
  using at_here(1-3)[of _ "[]"] by simp_all

lemma length_enc [simp]:
  "length (u16be a) = 2" "length (u32be v) = 4" "length (u64be w) = 8" "length (u24be v) = 3"
  by (rule c16.length_enc c32.length_enc c64.length_enc c24.length_enc)+

lemma length_concat_u32 [simp]: "length (concat (map u32be vs)) = 4 * length vs"
  by (induction vs) simp_all

lemma length_concat_u16 [simp]: "length (concat (map u16be vs)) = 2 * length vs"
  by (induction vs) simp_all

lemma length_uint32Serialize [simp]: "length (uint32Serialize vs) = 4 * length vs"
  by (simp add: uint32Serialize_def)

lemma at32s_skip [field_simps]: "length xs \<le> i \<Longrightarrow> at32s (xs @ r) i n = at32s r (i - length xs) n"
  by (simp add: at32s_def at_skip)

lemma at32s_skip_byte [field_simps]: "0 < i \<Longrightarrow> at32s (x # r) i n = at32s r (i - 1) n"
  using at32s_skip[of "[x]" i r n] by simp

lemma at16s_skip [field_simps]: "length xs \<le> i \<Longrightarrow> at16s (xs @ r) i n = at16s r (i - length xs) n"
  by (simp add: at16s_def at_skip)

lemma at32s_here [field_simps]: "length vs = n \<Longrightarrow> at32s (concat (map u32be vs) @ r) 0 n = vs"
proof (induction vs arbitrary: n)
  case (Cons v vs)
  then obtain k where k: "n = Suc k" "length vs = k" by auto
  have "at32s (concat (map u32be (v # vs)) @ r) 0 n = v # at32s (u32be v @ concat (map u32be vs) @ r) 4 k"
    unfolding at32s_def k(1) upt_conv_Cons[OF zero_less_Suc] map_Suc_upt[symmetric]
    by (simp add: at_here algebra_simps)
  then show ?case using Cons.IH[OF k(2)] by (simp add: at32s_skip)
qed (simp add: at32s_def)

lemma at32s_last [field_simps]: "length vs = n \<Longrightarrow> at32s (concat (map u32be vs)) 0 n = vs"
  using at32s_here[of vs n "[]"] by simp

lemma at16s_here [field_simps]: "length vs = n \<Longrightarrow> at16s (concat (map u16be vs) @ r) 0 n = vs"
proof (induction vs arbitrary: n)
  case (Cons v vs)
  then obtain k where k: "n = Suc k" "length vs = k" by auto
  have "at16s (concat (map u16be (v # vs)) @ r) 0 n = v # at16s (u16be v @ concat (map u16be vs) @ r) 2 k"
    unfolding at16s_def k(1) upt_conv_Cons[OF zero_less_Suc] map_Suc_upt[symmetric]
    by (simp add: at_here algebra_simps)
  then show ?case using Cons.IH[OF k(2)] by (simp add: at16s_skip)
qed (simp add: at16s_def)

lemma at16s_last [field_simps]: "length vs = n \<Longrightarrow> at16s (concat (map u16be vs)) 0 n = vs"
  using at16s_here[of vs n "[]"] by simp

section \<open>Methods that read back what was written\<close>

definition reads :: "'a rd \<Rightarrow> bytes \<Rightarrow> 'a \<Rightarrow> bool" where
  "reads m w x \<longleftrightarrow> (\<forall>r. m (w @ r) = Inr (x, length w, r))"

named_theorems reading \<open>introduction rules for \<open>reads\<close>\<close>

lemma readsD: "reads m w x \<Longrightarrow> m (w @ r) = Inr (x, length w, r)"
  by (simp add: reads_def)

lemma reads_ret [reading]: "x = y \<Longrightarrow> reads (retR x) [] y"
  by (simp add: reads_def retR_def)

lemma reads_buf [reading]: "length w = n \<Longrightarrow> reads (rdBuf n) w w"
  by (simp add: reads_def rdBuf_def ReadFull_append)

lemma reads_make [reading]: "int (length w) = n \<Longrightarrow> n \<le> 0x1000000000000 \<Longrightarrow> reads (rdMake n) w w"
  using reads_buf[of w "nat n"] by (auto simp: rdMake_def)

lemma reads_bind: "reads m w x \<Longrightarrow> reads (f x) v y \<Longrightarrow> reads (bindR m f) (w @ v) y"
  by (auto simp: reads_def bindR_def)

lemma reads_bind_last: "reads m w x \<Longrightarrow> reads (f x) [] y \<Longrightarrow> reads (bindR m f) w y"
  using reads_bind[of m w x f "[]" y] by simp

lemma reads_buf_bind: "length w = n \<Longrightarrow> reads (f w) v y \<Longrightarrow> reads (bindR (rdBuf n) f) (w @ v) y"
  by (rule reads_bind[OF reads_buf])

lemma reads_buf_last: "length w = n \<Longrightarrow> reads (f w) [] y \<Longrightarrow> reads (bindR (rdBuf n) f) w y"
  by (rule reads_bind_last[OF reads_buf])

lemma reads_make_last:
  "int (length w) = n \<Longrightarrow> n \<le> 0x1000000000000 \<Longrightarrow> reads (f w) [] y \<Longrightarrow> reads (bindR (rdMake n) f) w y"
  by (rule reads_bind_last[OF reads_make])

lemma reads_depending: "(\<And>k. reads (F k) w x) \<Longrightarrow> reads (\<lambda>r. F (g r) r) w x"
  by (simp add: reads_def)

lemma reads_if [reading]:
  "(c \<Longrightarrow> reads f w x) \<Longrightarrow> (\<not> c \<Longrightarrow> reads g w x) \<Longrightarrow> reads (if c then f else g) w x"
  by simp

lemma reads_times:
  assumes "\<forall>x \<in> set xs. reads m (enc x) x" and "length xs = n"
  shows "reads (rd_times n m) (concat (map enc xs)) xs"
  using assms
proof (induction xs arbitrary: n)
  case (Cons x xs)
  then obtain k where k: "n = Suc k" "length xs = k" by auto
  have "reads (bindR (rd_times k m) (\<lambda>xs. retR (x # xs))) (concat (map enc xs)) (x # xs)"
    using Cons k(2) by (intro reads_bind_last) (auto intro: reads_ret)
  then show ?case using Cons.prems(1) by (auto simp: k(1) intro: reads_bind)
qed (simp add: reads_ret)

lemma reads_FullBox:
  assumes "flags24Bit f = take_bit 24 (flags24Bit f)" and "isAny \<or> version f = ver" and "flag = FULLBOX_ANY_FLAG \<or> flags24Bit f = flag"
  shows "reads (FullBox_Parse (fb_Box f) ver isAny flag) (u32be (push_bit 24 (ucast (version f)) OR flags24Bit f)) f"
proof -
  let ?v = "push_bit 24 (ucast (version f)) OR flags24Bit f"
  have b: "u32be ?v = version f # u24be (flags24Bit f)"
  proof -
    have "ucast (drop_bit 24 ?v) = version f"
      by (subst assms(1)) (auto intro!: bit_word_eqI simp: bit_simps)
    moreover have "take_bit 24 ?v = flags24Bit f"
      by (subst (2) assms(1)) (auto intro!: bit_word_eqI simp: bit_simps)
    moreover have "u32be ?v = ucast (drop_bit 24 ?v) # u24be (take_bit 24 ?v)"
      unfolding u32be_def u24be_def by (auto intro!: bit_word_eqI simp: bit_simps)
    ultimately show ?thesis by simp
  qed
  have t: "take_bit 24 (flags24Bit f) = flags24Bit f" using assms(1) by simp
  have l: "at24 (version f # u24be (flags24Bit f)) 1 = flags24Bit f"
    using at_here(4)[OF t, of "[]"] at_skip_byte(2)[of 1 "version f" "u24be (flags24Bit f)"] by simp
  show ?thesis unfolding FullBox_Parse_def b Let_def nth_Cons_0 l
    by (rule reads_buf_last, simp) (use assms(2,3) l in \<open>auto simp: reads_ret\<close>)
qed

definition wf_flags :: "FullBox \<Rightarrow> bool" where
  "wf_flags f \<longleftrightarrow> take_bit 24 (flags24Bit f) = flags24Bit f"

text \<open>A body that is read after the version and the flags.\<close>

lemma reads_full:
  assumes "wf_flags f" "isAny \<or> version f = ver" "flag = FULLBOX_ANY_FLAG \<or> flags24Bit f = flag" "reads (g f) v y"
  shows "reads (bindR (FullBox_Parse (fb_Box f) ver isAny flag) g) (u32be (push_bit 24 (ucast (version f)) OR flags24Bit f) @ v) y"
  using assms by (intro reads_bind[OF reads_FullBox]) (auto simp: wf_flags_def)

section \<open>The interface of a box\<close>

text \<open>
  What containers rely on: the bytes of a box begin with its header, and its parser, given that header
  and the bytes after it, takes exactly them and returns the box.  The header is not the large form.
\<close>

definition small_box :: "Box \<Rightarrow> bool" where
  "small_box b \<longleftrightarrow> Size b \<le> 0xffffffff \<and> (Size b = 1 \<longrightarrow> BoxType b = BoxTypeMDAT)"

lemma reads_ParseBox: "small_box b \<Longrightarrow> reads ParseBox (Box_Serialize b) b"
proof -
  assume b: "small_box b"
  then have s: "Box_Serialize b = u32be (ucast (Size b)) @ u32be (BoxType b)"
    by (simp add: small_box_def Box_Serialize_def not_less[symmetric])
  have "uint (Size b) \<le> 0xffffffff" using b by (simp add: small_box_def word_le_def)
  then have u: "ucast (ucast (Size b) :: u32) = Size b"
    by (simp add: word_uint_eq_iff unsigned_ucast_eq unsigned_take_bit_eq take_bit_int_eq_self)
  show "reads ParseBox (Box_Serialize b) b"
    unfolding ParseBox_def s Let_def
    by (rule reads_buf_last) (use b in \<open>auto simp: field_simps u small_box_def intro!: reads_ret\<close>)
qed

locale box_codec =
  fixes ser :: "'b \<Rightarrow> bytes"
    and parse :: "Box \<Rightarrow> 'b rd"
    and hdr :: "'b \<Rightarrow> Box"
    and ok :: "'b \<Rightarrow> bool"
  assumes small: "ok b \<Longrightarrow> small_box (hdr b)"
    and body: "ok b \<Longrightarrow> \<exists>w. ser b = Box_Serialize (hdr b) @ w \<and> reads (parse (hdr b)) w b"
begin

lemma child: "ok b \<Longrightarrow> reads (bindR ParseBox parse) (ser b) b"
proof -
  assume b: "ok b"
  obtain w where "ser b = Box_Serialize (hdr b) @ w" "reads (parse (hdr b)) w b" using body[OF b] by blast
  then show ?thesis using reads_bind[OF reads_ParseBox[OF small[OF b]]] by simp
qed

lemma ser_length: "ok b \<Longrightarrow> 8 \<le> length (ser b)"
  using body[of b] by (auto simp: Box_Serialize_def)

lemma prefix_free: "ok a \<Longrightarrow> ok b \<Longrightarrow> ser a @ r = ser b @ s \<Longrightarrow> a = b \<and> r = s"
proof -
  assume a: "ok a" and b: "ok b" and e: "ser a @ r = ser b @ s"
  have "Inr (a, length (ser a), r) = bindR ParseBox parse (ser b @ s)"
    unfolding e[symmetric] by (rule readsD[OF child[OF a], symmetric])
  also have "\<dots> = Inr (b, length (ser b), s)" by (rule readsD[OF child[OF b]])
  finally show ?thesis by simp
qed

end

interpretation unsupported: box_codec UnsupporttedBox_Serialize UnsupporttedBox_Parse ub_Box
  "\<lambda>u. small_box (ub_Box u) \<and> uint (Size (ub_Box u)) = int (length (RawData u)) + 8"
proof
  fix u :: UnsupporttedBox assume u: "small_box (ub_Box u) \<and> uint (Size (ub_Box u)) = int (length (RawData u)) + 8"
  have "reads (UnsupporttedBox_Parse (ub_Box u)) (RawData u) u"
    unfolding UnsupporttedBox_Parse_def by (rule reads_make_last) (use u in \<open>simp_all add: reads_ret small_box_def word_le_def\<close>)
  then show "\<exists>w. UnsupporttedBox_Serialize u = Box_Serialize (ub_Box u) @ w \<and> reads (UnsupporttedBox_Parse (ub_Box u)) w u"
    by (auto simp: UnsupporttedBox_Serialize_def)
qed simp

end
