(* ===== verification/Mp4_Fragment.thy ===== *)
theory Mp4_Fragment
  imports Mp4_Box Conn
begin

text \<open>
  The boxes of fragments and of their index: \<open>container/mp4/moofBox.go\<close>, \<open>sidxBox.go\<close>,
  \<open>mfraBox.go\<close>, and the leaves \<open>ftypBox.go\<close> and \<open>mdatBox.go\<close>.  Each box is a record with its header,
  its \<open>Parse\<close> (with the \<open>ParseXBox\<close> function that calls it on a new box) and its \<open>Serialize\<close>, and an
  interpretation of \<open>box_codec\<close> for the boxes whose optional fields agree with their flags.  A signed
  32-bit field is the word of its bits.
\<close>

definition has_flag :: "FullBox \<Rightarrow> u32 \<Rightarrow> bool" where
  "has_flag f m \<longleftrightarrow> flags24Bit f AND m = m"

text \<open>A field of four bytes that is there when its flag is set, and keeps its zero otherwise.\<close>

definition rdOpt :: "bool \<Rightarrow> u32 rd" where
  "rdOpt c = (if c then bindR (rdBuf 4) (\<lambda>buf. retR (at32 buf 0)) else retR 0)"

definition opt :: "bool \<Rightarrow> u32 \<Rightarrow> u32 list" where
  "opt c v = (if c then [v] else [])"

lemma uint32Serialize_simps [simp]:
  "uint32Serialize [] = []" "uint32Serialize (v # vs) = u32be v @ uint32Serialize vs"
  "uint32Serialize (vs @ ws) = uint32Serialize vs @ uint32Serialize ws"
  by (simp_all add: uint32Serialize_def)

lemma reads_opt [reading]: "(\<not> c \<Longrightarrow> v = 0) \<Longrightarrow> reads (rdOpt c) (uint32Serialize (opt c v)) v"
  unfolding rdOpt_def opt_def by (auto intro!: reads_buf_last reads_ret simp: field_simps)

lemma reads_opt_bind:
  "(\<not> c \<Longrightarrow> v = 0) \<Longrightarrow> reads (f v) w y \<Longrightarrow> reads (bindR (rdOpt c) f) (uint32Serialize (opt c v) @ w) y"
  by (rule reads_bind[OF reads_opt])

lemma reads_opt_last:
  "(\<not> c \<Longrightarrow> v = 0) \<Longrightarrow> reads (f v) [] y \<Longrightarrow> reads (bindR (rdOpt c) f) (uint32Serialize (opt c v)) y"
  by (rule reads_bind_last[OF reads_opt])

section \<open>Movie fragment header\<close>

record MfhdBox =
  mfhd_FullBox :: FullBox
  SequenceNumber :: u32

definition MfhdBox_Parse :: "Box \<Rightarrow> MfhdBox rd" where
  "MfhdBox_Parse b =
     bindR (FullBox_Parse b 0 (\<not> FULLBOX_ANY_VERSION) 0) (\<lambda>f.
     bindR (rdBuf 4) (\<lambda>buf. retR \<lparr>mfhd_FullBox = f, SequenceNumber = at32 buf 0\<rparr>))"

definition MfhdBox_Serialize :: "MfhdBox \<Rightarrow> bytes" where
  "MfhdBox_Serialize b = FullBox_Serialize (mfhd_FullBox b) @ u32be (SequenceNumber b)"

section \<open>Track fragment header\<close>

record TfhdBox =
  tfhd_FullBox :: FullBox
  tfhd_TrackID :: u32
  BaseDataOffset :: u64
  SampleDescriptionIndex :: u32
  DefaultSampleDuration :: u32
  DefaultSampleSize :: u32
  DefaultSampleFlags :: u32

definition TfhdBox_Parse :: "Box \<Rightarrow> TfhdBox rd" where
  "TfhdBox_Parse b =
     bindR (FullBox_Parse b 0 (\<not> FULLBOX_ANY_VERSION) FULLBOX_ANY_FLAG) (\<lambda>f.
     bindR (rdBuf 4) (\<lambda>buf. let track = at32 buf 0 in
     bindR (if has_flag f 1 then bindR (rdBuf 8) (\<lambda>buf. retR (at64 buf 0)) else retR 0) (\<lambda>base.
     bindR (rdOpt (has_flag f 2)) (\<lambda>index.
     bindR (rdOpt (has_flag f 8)) (\<lambda>duration.
     bindR (rdOpt (has_flag f 0x10)) (\<lambda>size.
     bindR (rdOpt (has_flag f 0x20)) (\<lambda>flags.
     retR \<lparr>tfhd_FullBox = f, tfhd_TrackID = track, BaseDataOffset = base, SampleDescriptionIndex = index,
           DefaultSampleDuration = duration, DefaultSampleSize = size, DefaultSampleFlags = flags\<rparr>)))))))"

definition TfhdBox_Serialize :: "TfhdBox \<Rightarrow> bytes" where
  "TfhdBox_Serialize b =
     (let f = tfhd_FullBox b in
      FullBox_Serialize f @ uint32Serialize
        ([tfhd_TrackID b] @
         (if has_flag f 1 then [ucast (drop_bit 32 (BaseDataOffset b)), ucast (BaseDataOffset b AND 0xFFFFFFFF)] else []) @
         opt (has_flag f 2) (SampleDescriptionIndex b) @ opt (has_flag f 8) (DefaultSampleDuration b) @
         opt (has_flag f 0x10) (DefaultSampleSize b) @ opt (has_flag f 0x20) (DefaultSampleFlags b)))"

section \<open>Track fragment decode time\<close>

record TfdtBox =
  tfdt_FullBox :: FullBox
  BaseMediaDecodeTime :: u64

definition TfdtBox_Parse :: "Box \<Rightarrow> TfdtBox rd" where
  "TfdtBox_Parse b =
     bindR (FullBox_Parse b 0 FULLBOX_ANY_VERSION 0) (\<lambda>f.
     if version f = 1 then bindR (rdBuf 8) (\<lambda>buf. retR \<lparr>tfdt_FullBox = f, BaseMediaDecodeTime = at64 buf 0\<rparr>)
     else bindR (rdBuf 4) (\<lambda>buf. retR \<lparr>tfdt_FullBox = f, BaseMediaDecodeTime = ucast (at32 buf 0)\<rparr>))"

definition TfdtBox_Serialize :: "TfdtBox \<Rightarrow> bytes" where
  "TfdtBox_Serialize b =
     FullBox_Serialize (tfdt_FullBox b) @
       (if version (tfdt_FullBox b) = 0 then u32be (ucast (BaseMediaDecodeTime b)) else u64be (BaseMediaDecodeTime b))"

section \<open>Track run\<close>

record TrunBoxSample =
  SampleDuration :: u32
  SampleSize :: u32
  SampleFlags :: u32
  SampleCompositionTimeOffset :: u32
  SSampleCompositionTimeOffset :: u32

record TrunBox =
  trun_FullBox :: FullBox
  SampleCount :: u32
  DataOffset :: u32
  FirstSampleFlags :: u32
  BoxSamples :: "TrunBoxSample list"

definition trun_flags :: "FullBox \<Rightarrow> bool list" where
  "trun_flags f = [has_flag f 0x100, has_flag f 0x200, has_flag f 0x400, has_flag f 0x800]"

text \<open>The fields of a sample are at the offsets the fields before them leave.\<close>

fun at_opts :: "bytes \<Rightarrow> nat \<Rightarrow> bool list \<Rightarrow> u32 list" where
  "at_opts buf i [] = []"
| "at_opts buf i (c # cs) = (if c then at32 buf i # at_opts buf (i + 4) cs else 0 # at_opts buf i cs)"

definition item_len :: "bool list \<Rightarrow> nat" where
  "item_len cs = 4 * length (filter id cs)"

definition trun_sample :: "FullBox \<Rightarrow> TrunBoxSample rd" where
  "trun_sample f =
     bindR (rdBuf (item_len (trun_flags f))) (\<lambda>buf.
     let v = at_opts buf 0 (trun_flags f) in
     retR \<lparr>SampleDuration = v ! 0, SampleSize = v ! 1, SampleFlags = v ! 2, SampleCompositionTimeOffset = v ! 3,
           SSampleCompositionTimeOffset = v ! 3\<rparr>)"

definition TrunBox_Parse :: "Box \<Rightarrow> TrunBox rd" where
  "TrunBox_Parse b =
     bindR (FullBox_Parse b 0 FULLBOX_ANY_VERSION FULLBOX_ANY_FLAG) (\<lambda>f.
     bindR (rdBuf 4) (\<lambda>buf. let count = at32 buf 0 in
     bindR (rdOpt (has_flag f 1)) (\<lambda>offset.
     bindR (rdOpt (has_flag f 4)) (\<lambda>first.
     bindR (rd_times (unat count) (trun_sample f)) (\<lambda>samples.
     retR \<lparr>trun_FullBox = f, SampleCount = count, DataOffset = offset, FirstSampleFlags = first, BoxSamples = samples\<rparr>)))))"

definition sample_nums :: "FullBox \<Rightarrow> TrunBoxSample \<Rightarrow> u32 list" where
  "sample_nums f s =
     opt (has_flag f 0x100) (SampleDuration s) @ opt (has_flag f 0x200) (SampleSize s) @
     opt (has_flag f 0x400) (SampleFlags s) @ opt (has_flag f 0x800) (SampleCompositionTimeOffset s)"

definition TrunBox_Serialize :: "TrunBox \<Rightarrow> bytes" where
  "TrunBox_Serialize b =
     (let f = trun_FullBox b in
      FullBox_Serialize f @ uint32Serialize
        ([SampleCount b] @ opt (has_flag f 1) (DataOffset b) @ opt (has_flag f 4) (FirstSampleFlags b) @
         concat (map (sample_nums f) (BoxSamples b))))"

section \<open>File type, media data\<close>

record FtypBox =
  ftyp_Box :: Box
  MajorBrand :: u32
  MinorBrand :: u32
  CompatibleBrands :: "u32 list"

text \<open>
  \<open>for i := uint32(16); i < uint32(b.Size); i += 4\<close>: the rounds of the loop with \<open>n\<close> bytes left to
  read.  For a size above \<open>0xFFFFFFFC\<close> the counter goes from there to zero and never reaches the size:
  the loop goes on until there are no four bytes left, which one more round than bytes makes sure of.
\<close>

definition brand_rounds :: "u64 \<Rightarrow> nat \<Rightarrow> nat" where
  "brand_rounds sz n =
     (let size = ucast sz :: u32 in if 0xFFFFFFFC < size then Suc n else (unat size - 16 + 3) div 4)"

definition brand_loop :: "u64 \<Rightarrow> u32 list rd" where
  "brand_loop sz r = rd_times (brand_rounds sz (length r)) (bindR (rdBuf 4) (\<lambda>buf. retR (at32 buf 0))) r"

definition FtypBox_Parse :: "Box \<Rightarrow> FtypBox rd" where
  "FtypBox_Parse b =
     bindR (rdBuf 8) (\<lambda>buf.
     bindR (brand_loop (Size b)) (\<lambda>brands.
     retR \<lparr>ftyp_Box = b, MajorBrand = at32 buf 0, MinorBrand = at32 buf 4, CompatibleBrands = brands\<rparr>))"

definition FtypBox_Serialize :: "FtypBox \<Rightarrow> bytes" where
  "FtypBox_Serialize b =
     Box_Serialize (ftyp_Box b) @ u32be (MajorBrand b) @ u32be (MinorBrand b) @ concat (map u32be (CompatibleBrands b))"

record MdatBox =
  mdat_Box :: Box
  mdat_Data :: bytes

text \<open>The size is unsigned: a size below that of the header wraps around to a slice that cannot be made.\<close>

definition MdatBox_Parse :: "Box \<Rightarrow> MdatBox rd" where
  "MdatBox_Parse b =
     bindR (if Size b = 1 then bindR (rdBuf 8) (\<lambda>buf. retR (b\<lparr>Size := at64 buf 0\<rparr>, 16)) else retR (b, 8)) (\<lambda>(b, boxLen).
     let dataLen = Size b - boxLen in
     bindR (rdMake (uint dataLen)) (\<lambda>d.
     retR \<lparr>mdat_Box = b, mdat_Data = d\<rparr>))"

definition MdatBox_Serialize :: "MdatBox \<Rightarrow> bytes" where
  "MdatBox_Serialize b = Box_Serialize (mdat_Box b) @ mdat_Data b"

section \<open>Segment index\<close>

record SidxReference =
  ReferenceType :: byte
  ReferencedSize :: u32
  SubsegmentDuration :: u32
  StartsWithSAP :: byte
  SAPType :: byte
  SAPDeltaTime :: u32

record SidxBox =
  sidx_FullBox :: FullBox
  ReferenceID :: u32
  sidx_Timescale :: u32
  EarliestPresentationTime :: u64
  FirstOffset :: u64
  sidx_Reserved :: u16
  ReferenceCount :: u16
  Refs :: "SidxReference list"

definition sidx_ref :: "SidxReference rd" where
  "sidx_ref =
     bindR (rdBuf 12) (\<lambda>buf.
     retR \<lparr>ReferenceType = drop_bit 7 (buf ! 0), ReferencedSize = at32 buf 0 AND 0x7FFFFFFF,
           SubsegmentDuration = at32 buf 4, StartsWithSAP = drop_bit 7 (buf ! 8),
           SAPType = drop_bit 4 (buf ! 8 AND 0x70), SAPDeltaTime = at32 buf 8 AND 0xFFFFFFF\<rparr>)"

definition SidxBox_Parse :: "Box \<Rightarrow> SidxBox rd" where
  "SidxBox_Parse b =
     bindR (FullBox_Parse b 0 FULLBOX_ANY_VERSION 0) (\<lambda>f.
     bindR (rdBuf (if version f = 0 then 20 else 28)) (\<lambda>buf.
     let s = (if version f = 0
       then \<lparr>sidx_FullBox = f, ReferenceID = at32 buf 0, sidx_Timescale = at32 buf 4,
             EarliestPresentationTime = ucast (at32 buf 8), FirstOffset = ucast (at32 buf 12),
             sidx_Reserved = at16 buf 16, ReferenceCount = at16 buf 18, Refs = []\<rparr>
       else \<lparr>sidx_FullBox = f, ReferenceID = at32 buf 0, sidx_Timescale = at32 buf 4,
             EarliestPresentationTime = at64 buf 8, FirstOffset = at64 buf 16,
             sidx_Reserved = at16 buf 24, ReferenceCount = at16 buf 26, Refs = []\<rparr>) in
     bindR (rd_times (unat (ReferenceCount s)) sidx_ref) (\<lambda>refs. retR (s\<lparr>Refs := refs\<rparr>))))"

definition sidx_ref_bytes :: "SidxReference \<Rightarrow> bytes" where
  "sidx_ref_bytes r =
     u32be (push_bit 31 (ucast (ReferenceType r)) OR ReferencedSize r) @ u32be (SubsegmentDuration r) @
     u32be ((push_bit 31 (ucast (StartsWithSAP r)) OR push_bit 28 (ucast (SAPType r))) OR SAPDeltaTime r)"

definition SidxBox_Serialize :: "SidxBox \<Rightarrow> bytes" where
  "SidxBox_Serialize b =
     FullBox_Serialize (sidx_FullBox b) @
     (if version (sidx_FullBox b) = 0
      then uint32Serialize [ReferenceID b, sidx_Timescale b, ucast (EarliestPresentationTime b), ucast (FirstOffset b)]
      else uint32Serialize [ReferenceID b, sidx_Timescale b] @ u64be (EarliestPresentationTime b) @ u64be (FirstOffset b)) @
     u16be (sidx_Reserved b) @ u16be (ReferenceCount b) @ concat (map sidx_ref_bytes (Refs b))"

section \<open>Round trips\<close>

lemma small_Box_Serialize: "small_box b \<Longrightarrow> Box_Serialize b = u32be (ucast (Size b)) @ u32be (BoxType b)"
  by (simp add: small_box_def Box_Serialize_def not_less[symmetric])

lemmas full_ser = FullBox_Serialize_def append_assoc

interpretation mfhd: box_codec MfhdBox_Serialize MfhdBox_Parse "\<lambda>b. fb_Box (mfhd_FullBox b)"
  "\<lambda>b. small_box (fb_Box (mfhd_FullBox b)) \<and> version (mfhd_FullBox b) = 0 \<and> flags24Bit (mfhd_FullBox b) = 0"
proof
  fix b :: MfhdBox assume b: "small_box (fb_Box (mfhd_FullBox b)) \<and> version (mfhd_FullBox b) = 0 \<and> flags24Bit (mfhd_FullBox b) = 0"
  show "\<exists>w. MfhdBox_Serialize b = Box_Serialize (fb_Box (mfhd_FullBox b)) @ w \<and> reads (MfhdBox_Parse (fb_Box (mfhd_FullBox b))) w b"
    unfolding MfhdBox_Serialize_def MfhdBox_Parse_def full_ser
    by (intro exI conjI, rule refl, intro reads_full reads_buf_last reads_ret) (use b in \<open>simp_all add: wf_flags_def field_simps\<close>)
qed simp

lemma halves: "u32be (ucast (drop_bit 32 v)) @ u32be (ucast (v AND 0xFFFFFFFF)) = u64be (v :: u64)"
proof -
  have "v AND 0xFFFFFFFF = take_bit 32 v" by (simp add: take_bit_eq_mask mask_eq_exp_minus_1)
  then show ?thesis unfolding u32be_def u64be_def by (auto intro!: bit_word_eqI simp: bit_simps)
qed

definition tfhd_ok :: "TfhdBox \<Rightarrow> bool" where
  "tfhd_ok b \<longleftrightarrow> (let f = tfhd_FullBox b in
     small_box (fb_Box f) \<and> version f = 0 \<and> wf_flags f \<and> (has_flag f 1 \<or> BaseDataOffset b = 0) \<and>
     (has_flag f 2 \<or> SampleDescriptionIndex b = 0) \<and> (has_flag f 8 \<or> DefaultSampleDuration b = 0) \<and>
     (has_flag f 0x10 \<or> DefaultSampleSize b = 0) \<and> (has_flag f 0x20 \<or> DefaultSampleFlags b = 0))"

interpretation tfhd: box_codec TfhdBox_Serialize TfhdBox_Parse "\<lambda>b. fb_Box (tfhd_FullBox b)" tfhd_ok
proof
  fix b :: TfhdBox assume b: "tfhd_ok b"
  let ?f = "tfhd_FullBox b"
  have base: "reads (if has_flag ?f 1 then bindR (rdBuf 8) (\<lambda>buf. retR (at64 buf 0)) else retR 0)
      (if has_flag ?f 1 then u64be (BaseDataOffset b) else []) (BaseDataOffset b)"
    using b by (auto simp: tfhd_ok_def Let_def field_simps intro!: reads_buf_last reads_ret)
  have s: "TfhdBox_Serialize b = FullBox_Serialize ?f @ u32be (tfhd_TrackID b) @
      (if has_flag ?f 1 then u64be (BaseDataOffset b) else []) @ uint32Serialize (opt (has_flag ?f 2) (SampleDescriptionIndex b)) @
      uint32Serialize (opt (has_flag ?f 8) (DefaultSampleDuration b)) @ uint32Serialize (opt (has_flag ?f 0x10) (DefaultSampleSize b)) @
      uint32Serialize (opt (has_flag ?f 0x20) (DefaultSampleFlags b))"
    using halves[of "BaseDataOffset b"] by (simp add: TfhdBox_Serialize_def Let_def)
  show "\<exists>w. TfhdBox_Serialize b = Box_Serialize (fb_Box ?f) @ w \<and> reads (TfhdBox_Parse (fb_Box ?f)) w b"
    unfolding s TfhdBox_Parse_def full_ser Let_def
    by (intro exI conjI, rule refl, intro reads_full reads_buf_bind reads_bind[OF base] reads_opt_bind reads_opt_last reads_ret)
      (use b in \<open>auto simp: tfhd_ok_def Let_def field_simps\<close>)
qed (simp add: tfhd_ok_def Let_def)

lemma u64_low: "v \<le> 0xFFFFFFFF \<Longrightarrow> ucast (ucast v :: u32) = (v :: u64)"
proof -
  assume "v \<le> 0xFFFFFFFF"
  then have "uint v \<le> 0xFFFFFFFF" by (simp add: word_le_def)
  then show ?thesis by (simp add: word_uint_eq_iff unsigned_ucast_eq unsigned_take_bit_eq take_bit_int_eq_self)
qed

definition tfdt_ok :: "TfdtBox \<Rightarrow> bool" where
  "tfdt_ok b \<longleftrightarrow> small_box (fb_Box (tfdt_FullBox b)) \<and> flags24Bit (tfdt_FullBox b) = 0 \<and>
     (version (tfdt_FullBox b) = 0 \<and> BaseMediaDecodeTime b \<le> 0xFFFFFFFF \<or> version (tfdt_FullBox b) = 1)"

interpretation tfdt: box_codec TfdtBox_Serialize TfdtBox_Parse "\<lambda>b. fb_Box (tfdt_FullBox b)" tfdt_ok
proof
  fix b :: TfdtBox assume b: "tfdt_ok b"
  show "\<exists>w. TfdtBox_Serialize b = Box_Serialize (fb_Box (tfdt_FullBox b)) @ w \<and> reads (TfdtBox_Parse (fb_Box (tfdt_FullBox b))) w b"
    unfolding TfdtBox_Serialize_def TfdtBox_Parse_def full_ser
    by (intro exI conjI, rule refl, intro reads_full)
      (use b in \<open>auto simp: tfdt_ok_def wf_flags_def field_simps u64_low intro!: reads_buf_last reads_ret\<close>)
qed (simp add: tfdt_ok_def)

lemma at_opts_written:
  assumes "list_all2 (\<lambda>c v. c \<or> v = 0) cs vs"
  shows "at_opts (pre @ uint32Serialize (concat (map2 opt cs vs))) (length pre) cs = vs"
    and "length (uint32Serialize (concat (map2 opt cs vs))) = item_len cs"
proof -
  from assms show "at_opts (pre @ uint32Serialize (concat (map2 opt cs vs))) (length pre) cs = vs"
  proof (induction arbitrary: pre rule: list_all2_induct)
    case (Cons c cs v vs)
    show ?case
    proof (cases c)
      case True
      then show ?thesis using Cons.IH[of "pre @ u32be v"] by (simp add: opt_def field_simps add.commute)
    next
      case False
      then show ?thesis using Cons by (simp add: opt_def)
    qed
  qed simp
  from assms show "length (uint32Serialize (concat (map2 opt cs vs))) = item_len cs"
    by (induction rule: list_all2_induct) (auto simp: item_len_def opt_def)
qed

definition sample_ok :: "FullBox \<Rightarrow> TrunBoxSample \<Rightarrow> bool" where
  "sample_ok f s \<longleftrightarrow> (has_flag f 0x100 \<or> SampleDuration s = 0) \<and> (has_flag f 0x200 \<or> SampleSize s = 0) \<and>
     (has_flag f 0x400 \<or> SampleFlags s = 0) \<and> (has_flag f 0x800 \<or> SampleCompositionTimeOffset s = 0) \<and>
     SSampleCompositionTimeOffset s = SampleCompositionTimeOffset s"

lemma reads_sample:
  assumes "sample_ok f s"
  shows "reads (trun_sample f) (uint32Serialize (sample_nums f s)) s"
proof -
  let ?v = "[SampleDuration s, SampleSize s, SampleFlags s, SampleCompositionTimeOffset s]"
  have ok: "list_all2 (\<lambda>c v. c \<or> v = 0) (trun_flags f) ?v" using assms by (simp add: sample_ok_def trun_flags_def)
  have n: "sample_nums f s = concat (map2 opt (trun_flags f) ?v)" by (simp add: sample_nums_def trun_flags_def)
  have v: "at_opts (uint32Serialize (sample_nums f s)) 0 (trun_flags f) = ?v"
    using at_opts_written(1)[OF ok, of "[]"] by (simp only: n append_Nil list.size(3))
  show ?thesis unfolding trun_sample_def Let_def
    by (rule reads_buf_last, simp only: n at_opts_written(2)[OF ok], unfold v)
      (use assms in \<open>auto simp: sample_ok_def intro!: reads_ret\<close>)
qed

definition trun_ok :: "TrunBox \<Rightarrow> bool" where
  "trun_ok b \<longleftrightarrow> (let f = trun_FullBox b in
     small_box (fb_Box f) \<and> wf_flags f \<and> (has_flag f 1 \<or> DataOffset b = 0) \<and> (has_flag f 4 \<or> FirstSampleFlags b = 0) \<and>
     unat (SampleCount b) = length (BoxSamples b) \<and> (\<forall>s \<in> set (BoxSamples b). sample_ok f s))"

lemma uint32Serialize_concat: "uint32Serialize (concat (map g xs)) = concat (map (\<lambda>x. uint32Serialize (g x)) xs)"
  by (induction xs) simp_all

interpretation trun: box_codec TrunBox_Serialize TrunBox_Parse "\<lambda>b. fb_Box (trun_FullBox b)" trun_ok
proof
  fix b :: TrunBox assume b: "trun_ok b"
  let ?f = "trun_FullBox b"
  have samples: "reads (rd_times (unat (SampleCount b)) (trun_sample ?f))
      (concat (map (\<lambda>s. uint32Serialize (sample_nums ?f s)) (BoxSamples b))) (BoxSamples b)"
    by (rule reads_times) (use b in \<open>auto simp: trun_ok_def Let_def intro: reads_sample\<close>)
  have rest: "reads (bindR (rdOpt (has_flag ?f 1)) (\<lambda>offset. bindR (rdOpt (has_flag ?f 4)) (\<lambda>first.
      bindR (rd_times (unat (SampleCount b)) (trun_sample ?f)) (\<lambda>samples.
      retR \<lparr>trun_FullBox = ?f, SampleCount = SampleCount b, DataOffset = offset, FirstSampleFlags = first, BoxSamples = samples\<rparr>))))
      (uint32Serialize (opt (has_flag ?f 1) (DataOffset b)) @ uint32Serialize (opt (has_flag ?f 4) (FirstSampleFlags b)) @
        concat (map (\<lambda>s. uint32Serialize (sample_nums ?f s)) (BoxSamples b))) b"
    by (intro reads_opt_bind reads_bind_last[OF samples] reads_ret) (use b in \<open>auto simp: trun_ok_def Let_def\<close>)
  have v: "at32 (u32be (SampleCount b)) 0 = SampleCount b" by (rule at_last)
  show "\<exists>w. TrunBox_Serialize b = Box_Serialize (fb_Box ?f) @ w \<and> reads (TrunBox_Parse (fb_Box ?f)) w b"
    unfolding TrunBox_Serialize_def TrunBox_Parse_def full_ser Let_def uint32Serialize_simps uint32Serialize_concat append_Nil append_assoc
    by (intro exI conjI, rule refl, intro reads_full reads_buf_bind)
      (use b rest in \<open>simp_all add: trun_ok_def Let_def v\<close>)
qed (simp add: trun_ok_def Let_def)

definition ftyp_ok :: "FtypBox \<Rightarrow> bool" where
  "ftyp_ok b \<longleftrightarrow> small_box (ftyp_Box b) \<and> uint (Size (ftyp_Box b)) = 16 + 4 * int (length (CompatibleBrands b))"

lemma brand_rounds_exact:
  assumes "uint sz = 16 + 4 * int n" "sz \<le> 0xFFFFFFFF"
  shows "brand_rounds sz k = n"
proof -
  have u: "uint sz \<le> 0xFFFFFFFF" using assms(2) by (simp add: word_le_def)
  then have c: "uint (ucast sz :: u32) = uint sz" by (simp add: unsigned_ucast_eq unsigned_take_bit_eq take_bit_int_eq_self)
  then have "unat (ucast sz :: u32) = 16 + 4 * n" using assms(1) by (simp add: unat_eq_nat_uint nat_add_distrib nat_mult_distrib)
  moreover have "\<not> 0xFFFFFFFC < 16 + 4 * int n" using assms(1) u by presburger
  ultimately show ?thesis using c assms(1) by (simp add: brand_rounds_def word_less_def)
qed

interpretation ftyp: box_codec FtypBox_Serialize FtypBox_Parse ftyp_Box ftyp_ok
proof
  fix b :: FtypBox assume b: "ftyp_ok b"
  have n: "brand_rounds (Size (ftyp_Box b)) k = length (CompatibleBrands b)" for k
    by (rule brand_rounds_exact) (use b in \<open>auto simp: ftyp_ok_def small_box_def\<close>)
  have brands: "reads (brand_loop (Size (ftyp_Box b))) (concat (map u32be (CompatibleBrands b))) (CompatibleBrands b)"
    unfolding brand_loop_def[abs_def] by (rule reads_depending, rule reads_times) (auto simp: n field_simps intro!: reads_buf_last reads_ret)
  have "FtypBox_Serialize b = Box_Serialize (ftyp_Box b) @ (u32be (MajorBrand b) @ u32be (MinorBrand b)) @ concat (map u32be (CompatibleBrands b))"
    by (simp add: FtypBox_Serialize_def)
  moreover have "reads (FtypBox_Parse (ftyp_Box b)) ((u32be (MajorBrand b) @ u32be (MinorBrand b)) @ concat (map u32be (CompatibleBrands b))) b"
    unfolding FtypBox_Parse_def by (intro reads_buf_bind reads_bind_last[OF brands] reads_ret) (simp_all add: field_simps)
  ultimately show "\<exists>w. FtypBox_Serialize b = Box_Serialize (ftyp_Box b) @ w \<and> reads (FtypBox_Parse (ftyp_Box b)) w b" by blast
qed (simp add: ftyp_ok_def)

definition mdat_ok :: "MdatBox \<Rightarrow> bool" where
  "mdat_ok b \<longleftrightarrow> small_box (mdat_Box b) \<and> uint (Size (mdat_Box b)) = 8 + int (length (mdat_Data b))"

interpretation mdat: box_codec MdatBox_Serialize MdatBox_Parse mdat_Box mdat_ok
proof
  fix b :: MdatBox assume b: "mdat_ok b"
  have s: "uint (Size (mdat_Box b)) = 8 + int (length (mdat_Data b))" "uint (Size (mdat_Box b)) \<le> 0xFFFFFFFF"
    using b by (auto simp: mdat_ok_def small_box_def word_le_def)
  have ne: "Size (mdat_Box b) \<noteq> 1" using s(1) by auto
  have "uint (Size (mdat_Box b) - 8) = int (length (mdat_Data b))"
    using s by (simp add: uint_word_ariths mod_pos_pos_trivial)
  then have d: "int (length (mdat_Data b)) = uint (Size (mdat_Box b) - 8)" "uint (Size (mdat_Box b) - 8) \<le> 0x1000000000000"
    using s by simp_all
  have "reads (MdatBox_Parse (mdat_Box b)) ([] @ mdat_Data b) b"
    unfolding MdatBox_Parse_def
    by (rule reads_bind[of _ _ "(mdat_Box b, 8)"])
      (use ne d in \<open>auto simp: Let_def intro!: reads_ret reads_make_last\<close>)
  then show "\<exists>w. MdatBox_Serialize b = Box_Serialize (mdat_Box b) @ w \<and> reads (MdatBox_Parse (mdat_Box b)) w b"
    by (auto simp: MdatBox_Serialize_def)
qed (simp add: mdat_ok_def)

definition sidx_ref_ok :: "SidxReference \<Rightarrow> bool" where
  "sidx_ref_ok r \<longleftrightarrow> ReferenceType r = take_bit 1 (ReferenceType r) \<and> ReferencedSize r = take_bit 31 (ReferencedSize r) \<and>
     StartsWithSAP r = take_bit 1 (StartsWithSAP r) \<and> SAPType r = take_bit 3 (SAPType r) \<and> SAPDeltaTime r = take_bit 28 (SAPDeltaTime r)"

lemma masks: "(v :: u32) AND 0x7FFFFFFF = take_bit 31 v" "v AND 0xFFFFFFF = take_bit 28 v" "(w :: byte) AND 0x70 = push_bit 4 (take_bit 3 (drop_bit 4 w))"
proof -
  show "v AND 0x7FFFFFFF = take_bit 31 v" "v AND 0xFFFFFFF = take_bit 28 v" by (simp_all add: take_bit_eq_mask mask_eq_exp_minus_1)
  have "w AND push_bit 4 (mask 3) = push_bit 4 (take_bit 3 (drop_bit 4 w))" by (rule bit_word_eqI) (auto simp: bit_simps)
  then show "w AND 0x70 = push_bit 4 (take_bit 3 (drop_bit 4 w))" by (simp add: mask_eq_exp_minus_1 push_bit_eq_mult)
qed

lemma u32be_hd: "u32be v ! 0 = ucast (drop_bit 24 v)"
  by (simp add: u32be_def)

lemma bit_low: "x = take_bit k x \<Longrightarrow> bit x n \<Longrightarrow> n < k"
  for x :: "'a::len word"
  by (metis bit_take_bit_iff)

lemma reads_sidx_ref:
  assumes "sidx_ref_ok r"
  shows "reads sidx_ref (sidx_ref_bytes r) r"
proof -
  define a where "a = push_bit 31 (ucast (ReferenceType r)) OR ReferencedSize r"
  define c where "c = (push_bit 31 (ucast (StartsWithSAP r)) OR push_bit 28 (ucast (SAPType r))) OR SAPDeltaTime r"
  have rt: "ReferenceType r = take_bit 1 (ReferenceType r)" and rs: "ReferencedSize r = take_bit 31 (ReferencedSize r)"
    and ss: "StartsWithSAP r = take_bit 1 (StartsWithSAP r)" and st: "SAPType r = take_bit 3 (SAPType r)" and sd: "SAPDeltaTime r = take_bit 28 (SAPDeltaTime r)"
    using assms by (simp_all add: sidx_ref_ok_def)
  note low = bit_low[OF rt] bit_low[OF rs] bit_low[OF ss] bit_low[OF st] bit_low[OF sd]
  have 1: "drop_bit 7 (ucast (drop_bit 24 a) :: byte) = ReferenceType r"
    by (rule bit_word_eqI) (auto simp: a_def c_def bit_simps dest: low)
  have 2: "take_bit 31 a = ReferencedSize r"
    by (rule bit_word_eqI) (auto simp: a_def c_def bit_simps dest: low)
  have 3: "drop_bit 7 (ucast (drop_bit 24 c) :: byte) = StartsWithSAP r"
    by (rule bit_word_eqI) (auto simp: a_def c_def bit_simps dest: low)
  have 4: "drop_bit 4 (push_bit 4 (take_bit 3 (drop_bit 4 (ucast (drop_bit 24 c) :: byte)))) = SAPType r"
    by (rule bit_word_eqI) (auto simp: a_def c_def bit_simps dest: low)
  have 5: "take_bit 28 c = SAPDeltaTime r"
    by (rule bit_word_eqI) (auto simp: a_def c_def bit_simps dest: low)
  have s: "sidx_ref_bytes r = u32be a @ u32be (SubsegmentDuration r) @ u32be c" by (simp add: a_def c_def sidx_ref_bytes_def)
  show ?thesis unfolding sidx_ref_def s
    by (rule reads_buf_last) (simp_all add: field_simps masks u32be_hd nth_append 1 2 3 4 5 reads_ret)
qed

definition sidx_ok :: "SidxBox \<Rightarrow> bool" where
  "sidx_ok b \<longleftrightarrow> (let f = sidx_FullBox b in
     small_box (fb_Box f) \<and> flags24Bit f = 0 \<and> unat (ReferenceCount b) = length (Refs b) \<and> (\<forall>r \<in> set (Refs b). sidx_ref_ok r) \<and>
     (version f = 0 \<longrightarrow> EarliestPresentationTime b \<le> 0xFFFFFFFF \<and> FirstOffset b \<le> 0xFFFFFFFF))"

interpretation sidx: box_codec SidxBox_Serialize SidxBox_Parse "\<lambda>b. fb_Box (sidx_FullBox b)" sidx_ok
proof
  fix b :: SidxBox assume b: "sidx_ok b"
  let ?f = "sidx_FullBox b"
  have refs: "reads (rd_times (length (Refs b)) sidx_ref) (concat (map sidx_ref_bytes (Refs b))) (Refs b)"
    by (rule reads_times) (use b in \<open>auto simp: sidx_ok_def Let_def intro: reads_sidx_ref\<close>)
  define w where "w = (if version ?f = 0
      then uint32Serialize [ReferenceID b, sidx_Timescale b, ucast (EarliestPresentationTime b), ucast (FirstOffset b)]
      else uint32Serialize [ReferenceID b, sidx_Timescale b] @ u64be (EarliestPresentationTime b) @ u64be (FirstOffset b)) @
     u16be (sidx_Reserved b) @ u16be (ReferenceCount b)"
  have s: "SidxBox_Serialize b = FullBox_Serialize ?f @ w @ concat (map sidx_ref_bytes (Refs b))"
    by (simp add: SidxBox_Serialize_def w_def)
  have l: "length w = (if version ?f = 0 then 20 else 28)" by (simp add: w_def)
  have h: "(if version ?f = 0
       then \<lparr>sidx_FullBox = ?f, ReferenceID = at32 w 0, sidx_Timescale = at32 w 4,
             EarliestPresentationTime = ucast (at32 w 8), FirstOffset = ucast (at32 w 12),
             sidx_Reserved = at16 w 16, ReferenceCount = at16 w 18, Refs = []\<rparr>
       else \<lparr>sidx_FullBox = ?f, ReferenceID = at32 w 0, sidx_Timescale = at32 w 4,
             EarliestPresentationTime = at64 w 8, FirstOffset = at64 w 16,
             sidx_Reserved = at16 w 24, ReferenceCount = at16 w 26, Refs = []\<rparr>) = b\<lparr>Refs := []\<rparr>"
    using b by (cases "version ?f = 0") (auto simp: w_def field_simps u64_low sidx_ok_def Let_def)
  have "reads (SidxBox_Parse (fb_Box ?f)) (u32be (push_bit 24 (ucast (version ?f)) OR flags24Bit ?f) @ w @ concat (map sidx_ref_bytes (Refs b))) b"
    unfolding SidxBox_Parse_def
    by (intro reads_full reads_buf_bind, unfold h Let_def, goal_cases)
      (use b l in \<open>auto simp: sidx_ok_def Let_def wf_flags_def intro!: reads_bind_last[OF refs] reads_ret\<close>)
  then show "\<exists>w. SidxBox_Serialize b = Box_Serialize (fb_Box ?f) @ w \<and> reads (SidxBox_Parse (fb_Box ?f)) w b"
    by (auto simp: s full_ser)
qed (simp add: sidx_ok_def Let_def)

section \<open>Movie fragment random access\<close>

record TfraEntry =
  tfra_Time :: u64
  MoofOffset :: u64
  TrafNumber :: u32
  TrunNumber :: u32
  SampleNumber :: u32

record TfraBox =
  tfra_FullBox :: FullBox
  tfra_TrackID :: u32
  Reserved26Bit :: u32
  LengthOfTrafNum2Bit :: byte
  LengthOfTrunNum2Bit :: byte
  LengthOfSampleNum2Bit :: byte
  NumberOfEntry :: u32
  tfra_Entries :: "TfraEntry list"

definition liftR :: "'a res \<Rightarrow> 'a rd" where
  "liftR m r = bindE m (\<lambda>x. Inr (x, 0, r))"

abbreviation slice_panic :: go_error where
  "slice_panic \<equiv> Panic ''slice bounds out of range''"

definition tail_from :: "bytes \<Rightarrow> nat \<Rightarrow> bytes res" where
  "tail_from b i = (if i \<le> length b then Inr (drop i b) else Inl slice_panic)"

definition getValueByByteLength :: "bytes \<Rightarrow> byte \<Rightarrow> u32 res" where
  "getValueByByteLength buf n =
     (if n = 1 then failIf (buf = []) index_panic (Inr (ucast (buf ! 0)))
      else if n = 2 then bindE (U16BE buf) (\<lambda>v. Inr (ucast v))
      else if n = 3 then U24BE buf
      else if n = 4 then U32BE buf
      else Inr 0)"

text \<open>The length of the run number is not counted, that of the fragment number twice.\<close>

definition tfra_entryLen :: "FullBox \<Rightarrow> byte \<Rightarrow> byte \<Rightarrow> byte" where
  "tfra_entryLen f traf sample =
     (let entryLen = 8 + traf + traf + sample + 3 in if version f = 1 then entryLen + 8 else entryLen)"

definition tfra_entry :: "FullBox \<Rightarrow> byte \<Rightarrow> byte \<Rightarrow> byte \<Rightarrow> bytes \<Rightarrow> TfraEntry res" where
  "tfra_entry f traf trun sample buf =
     (let v1 = (version f = 1); offset = (if v1 then 16 else 8 :: byte);
          t = (if v1 then at64 buf 0 else ucast (at32 buf 0)); m = (if v1 then at64 buf 8 else ucast (at32 buf 4)) in
      bindE (tail_from buf (unat offset)) (\<lambda>b1. bindE (getValueByByteLength b1 (traf + 1)) (\<lambda>n1.
      let offset = offset + (traf + 1) in
      bindE (tail_from buf (unat offset)) (\<lambda>b2. bindE (getValueByByteLength b2 (trun + 1)) (\<lambda>n2.
      let offset = offset + (trun + 1) in
      bindE (tail_from buf (unat offset)) (\<lambda>b3. bindE (getValueByByteLength b3 (sample + 1)) (\<lambda>n3.
      Inr \<lparr>tfra_Time = t, MoofOffset = m, TrafNumber = n1, TrunNumber = n2, SampleNumber = n3\<rparr>)))))))"

definition TfraBox_Parse :: "Box \<Rightarrow> TfraBox rd" where
  "TfraBox_Parse b =
     bindR (FullBox_Parse b 0 FULLBOX_ANY_VERSION 0) (\<lambda>f.
     bindR (rdBuf 12) (\<lambda>buf.
     let traf = drop_bit 4 (buf ! 7 AND 0x30); trun = drop_bit 2 (buf ! 7 AND 0x0C); sample = buf ! 7 AND 0x03;
         count = at32 buf 8 in
     bindR (rd_times (unat count)
         (bindR (rdBuf (unat (tfra_entryLen f traf sample))) (\<lambda>buf. liftR (tfra_entry f traf trun sample buf)))) (\<lambda>es.
     retR \<lparr>tfra_FullBox = f, tfra_TrackID = at32 buf 0, Reserved26Bit = at32 buf 4 AND 0xffffffC0,
           LengthOfTrafNum2Bit = traf, LengthOfTrunNum2Bit = trun, LengthOfSampleNum2Bit = sample,
           NumberOfEntry = count, tfra_Entries = es\<rparr>)))"

text \<open>Writing puts the numbers into the buffer of 28 bytes that the header was in, and writes its front.\<close>

definition put_at :: "nat \<Rightarrow> bytes \<Rightarrow> bytes \<Rightarrow> bytes res" where
  "put_at i bs buf =
     (if length buf < i then Inl slice_panic else if length buf < i + length bs then Inl index_panic
      else Inr (store_at i bs buf))"

definition value_bytes :: "byte \<Rightarrow> u32 \<Rightarrow> bytes" where
  "value_bytes n v =
     (if n = 1 then [ucast v] else if n = 2 then u16be (ucast v) else if n = 3 then u24be v else if n = 4 then u32be v else [])"

definition putValueByByteLength :: "nat \<Rightarrow> byte \<Rightarrow> u32 \<Rightarrow> bytes \<Rightarrow> bytes res" where
  "putValueByByteLength i n v buf = put_at i (value_bytes n v) buf"

definition tfra_put :: "TfraBox \<Rightarrow> TfraEntry \<Rightarrow> bytes \<Rightarrow> bytes res" where
  "tfra_put b e buf =
     (let v1 = (version (tfra_FullBox b) = 1); offset = (if v1 then 16 else 8 :: byte);
          head = (if v1 then u64be (tfra_Time e) @ u64be (MoofOffset e)
                  else u32be (ucast (tfra_Time e)) @ u32be (ucast (MoofOffset e))) in
      bindE (put_at 0 head buf) (\<lambda>buf.
      bindE (putValueByByteLength (unat offset) (LengthOfTrafNum2Bit b + 1) (TrafNumber e) buf) (\<lambda>buf.
      let offset = offset + (LengthOfTrafNum2Bit b + 1) in
      bindE (putValueByByteLength (unat offset) (LengthOfTrunNum2Bit b + 1) (TrunNumber e) buf) (\<lambda>buf.
      let offset = offset + (LengthOfTrunNum2Bit b + 1) in
      putValueByByteLength (unat offset) (LengthOfSampleNum2Bit b + 1) (SampleNumber e) buf))))"

fun tfra_puts :: "TfraBox \<Rightarrow> nat \<Rightarrow> TfraEntry list \<Rightarrow> bytes \<Rightarrow> bytes res" where
  "tfra_puts b 0 es buf = Inr []"
| "tfra_puts b (Suc n) [] buf = Inl index_panic"
| "tfra_puts b (Suc n) (e # es) buf =
     bindE (tfra_put b e buf) (\<lambda>buf. bindE (tfra_puts b n es buf) (\<lambda>w. Inr (buf @ w)))"

definition TfraBox_Serialize :: "TfraBox \<Rightarrow> bytes res" where
  "TfraBox_Serialize b =
     (let num = Reserved26Bit b OR ucast (push_bit 4 (LengthOfTrafNum2Bit b)) OR ucast (LengthOfTrunNum2Bit b) OR
            ucast (LengthOfSampleNum2Bit b);
          head = u32be (tfra_TrackID b) @ u32be num @ u32be (NumberOfEntry b);
          entryLen = unat (tfra_entryLen (tfra_FullBox b) (LengthOfTrafNum2Bit b) (LengthOfSampleNum2Bit b)) in
      failIf (28 < entryLen) slice_panic
      (bindE (tfra_puts b (unat (NumberOfEntry b)) (tfra_Entries b) (take entryLen (head @ replicate 16 0)))
        (\<lambda>w. Inr (FullBox_Serialize (tfra_FullBox b) @ head @ w))))"

record MfroBox =
  mfro_FullBox :: FullBox
  mfro_Size :: u32

definition MfroBox_Parse :: "Box \<Rightarrow> MfroBox rd" where
  "MfroBox_Parse b =
     bindR (FullBox_Parse b 0 FULLBOX_ANY_VERSION 0) (\<lambda>f.
     bindR (rdBuf 4) (\<lambda>buf. retR \<lparr>mfro_FullBox = f, mfro_Size = at32 buf 0\<rparr>))"

definition MfroBox_Serialize :: "MfroBox \<Rightarrow> bytes" where
  "MfroBox_Serialize b = FullBox_Serialize (mfro_FullBox b) @ u32be (mfro_Size b)"

interpretation mfro: box_codec MfroBox_Serialize MfroBox_Parse "\<lambda>b. fb_Box (mfro_FullBox b)"
  "\<lambda>b. small_box (fb_Box (mfro_FullBox b)) \<and> flags24Bit (mfro_FullBox b) = 0"
proof
  fix b :: MfroBox assume b: "small_box (fb_Box (mfro_FullBox b)) \<and> flags24Bit (mfro_FullBox b) = 0"
  show "\<exists>w. MfroBox_Serialize b = Box_Serialize (fb_Box (mfro_FullBox b)) @ w \<and> reads (MfroBox_Parse (fb_Box (mfro_FullBox b))) w b"
    unfolding MfroBox_Serialize_def MfroBox_Parse_def full_ser
    by (intro exI conjI, rule refl, intro reads_full reads_buf_last reads_ret) (use b in \<open>simp_all add: wf_flags_def field_simps\<close>)
qed simp

section \<open>Where the random access box goes wrong\<close>

lemma length_at: "n \<le> 4 \<Longrightarrow> getValueByByteLength b n = Inl e \<Longrightarrow> e = index_panic"
  by (auto simp: getValueByByteLength_def failIf_def U16BE_def U24BE_def U32BE_def Let_def bindE_eq_Inl split: if_splits)

lemma getValue_iff: "1 \<le> n \<Longrightarrow> n \<le> 4 \<Longrightarrow> (\<exists>v. getValueByByteLength b (of_nat n) = Inr v) \<longleftrightarrow> n \<le> length b"
proof -
  assume "1 \<le> n" "n \<le> 4"
  then consider "n = 1" | "n = 2" | "n = 3" | "n = 4" by linarith
  then show ?thesis
    by cases (auto simp: getValueByByteLength_def failIf_def U16BE_def U24BE_def U32BE_def Let_def Suc_le_eq)
qed

lemma of_nat_plus_byte: "n < 256 \<Longrightarrow> unat (of_nat n :: byte) = n"
  by (simp add: unat_of_nat)

lemma tfra_entry_iff:
  assumes "a \<le> 3" "b \<le> 3" "c \<le> 3" and "length buf = unat (tfra_entryLen f (of_nat a) (of_nat c))"
  shows "(\<exists>e. tfra_entry f (of_nat a) (of_nat b) (of_nat c) buf = Inr e) \<longleftrightarrow> b \<le> a"
    and "tfra_entry f (of_nat a) (of_nat b) (of_nat c) buf = Inl e \<Longrightarrow> is_fault e"
proof -
  define k :: nat where "k = (if version f = 1 then 16 else 8)"
  have k: "k \<le> 16" "8 \<le> k" "(if version f = 1 then 16 else 8 :: byte) = of_nat k" by (auto simp: k_def)
  have "tfra_entryLen f (of_nat a) (of_nat c) = of_nat (k + 2 * a + c + 3)"
    by (simp add: tfra_entryLen_def k_def Let_def)
  then have l: "length buf = k + 2 * a + c + 3" using assms k of_nat_plus_byte[of "k + 2 * a + c + 3"] by simp
  have w: "(of_nat i :: byte) + 1 = of_nat (i + 1)" "(of_nat i :: byte) + of_nat j = of_nat (i + j)" for i j by simp_all
  have u1: "unat (of_nat k :: byte) = k" "unat (of_nat k + (of_nat a + 1) :: byte) = k + a + 1"
    "unat (of_nat k + (of_nat a + 1) + (of_nat b + 1) :: byte) = k + a + b + 2"
    using of_nat_plus_byte[of k] of_nat_plus_byte[of "k + a + 1"] of_nat_plus_byte[of "k + a + b + 2"] k assms(1,2)
    by (simp_all add: algebra_simps)
  note v = getValue_iff[of "a + 1", simplified of_nat_add of_nat_1] getValue_iff[of "b + 1", simplified of_nat_add of_nat_1]
    getValue_iff[of "c + 1", simplified of_nat_add of_nat_1]
  have v1: "\<exists>x. getValueByByteLength (drop k buf) (of_nat a + 1) = Inr x"
    using v(1)[of "drop k buf"] assms(1) l by simp
  then obtain x1 where x1: "getValueByByteLength (drop k buf) (of_nat a + 1) = Inr x1" by blast
  have v2: "(\<exists>x. getValueByByteLength (drop (k + a + 1) buf) (of_nat b + 1) = Inr x) \<longleftrightarrow> b \<le> a + c + 1"
    using v(2)[of "drop (k + a + 1) buf"] assms(2) l by auto
  have v3: "(\<exists>x. getValueByByteLength (drop (k + a + b + 2) buf) (of_nat c + 1) = Inr x) \<longleftrightarrow> b \<le> a"
    if "b \<le> a + c + 1" using v(3)[of "drop (k + a + b + 2) buf"] assms(3) l that by auto
  have e: "tfra_entry f (of_nat a) (of_nat b) (of_nat c) buf =
      bindE (getValueByByteLength (drop (k + a + 1) buf) (of_nat b + 1)) (\<lambda>n2.
      bindE (tail_from buf (k + a + b + 2)) (\<lambda>b3. bindE (getValueByByteLength b3 (of_nat c + 1)) (\<lambda>n3.
      Inr \<lparr>tfra_Time = (if version f = 1 then at64 buf 0 else ucast (at32 buf 0)),
           MoofOffset = (if version f = 1 then at64 buf 8 else ucast (at32 buf 4)),
           TrafNumber = x1, TrunNumber = n2, SampleNumber = n3\<rparr>)))"
    using x1 l unfolding tfra_entry_def Let_def k(3) u1 by (simp add: tail_from_def)
  show "(\<exists>e. tfra_entry f (of_nat a) (of_nat b) (of_nat c) buf = Inr e) \<longleftrightarrow> b \<le> a"
    unfolding e using v2 v3 l by (auto simp: bindE_eq_Inr tail_from_def split: if_splits)
  have p: "getValueByByteLength d (of_nat n + 1) = Inl e \<Longrightarrow> is_fault e" if "n \<le> 3" for d n
  proof -
    have "n = 0 \<or> n = 1 \<or> n = 2 \<or> n = 3" using that by linarith
    then have "(of_nat n + 1 :: byte) \<le> 4" by auto
    then show "getValueByByteLength d (of_nat n + 1) = Inl e \<Longrightarrow> is_fault e" using length_at by fastforce
  qed
  show "tfra_entry f (of_nat a) (of_nat b) (of_nat c) buf = Inl e \<Longrightarrow> is_fault e"
    unfolding e using p assms(2,3) by (auto simp: bindE_eq_Inl tail_from_def split: if_splits)
qed

lemma low_bits:
  "drop_bit 4 ((v :: byte) AND 0x30) = take_bit 2 (drop_bit 4 v)"
  "drop_bit 2 (v AND 0x0C) = take_bit 2 (drop_bit 2 v)"
  "v AND 0x03 = take_bit 2 v"
  "unat (take_bit 2 v) \<le> 3"
proof -
  have m: "0x30 = (push_bit 4 (mask 2) :: byte)" "0x0C = (push_bit 2 (mask 2) :: byte)"
    by (simp_all add: mask_eq_exp_minus_1 push_bit_eq_mult)
  show "drop_bit 4 (v AND 0x30) = take_bit 2 (drop_bit 4 v)" "drop_bit 2 (v AND 0x0C) = take_bit 2 (drop_bit 2 v)"
    unfolding m by (rule bit_word_eqI, auto simp: bit_simps)+
  show "v AND 0x03 = take_bit 2 v" by (simp add: take_bit_eq_mask mask_eq_exp_minus_1)
  have "take_bit 2 (unat v) < 2 ^ 2" by (rule take_bit_nat_less_exp)
  then show "unat (take_bit 2 v) \<le> 3" by (simp add: unsigned_take_bit_eq)
qed

text \<open>C40: A random access box that gives the number of a run more bytes than the number of a fragment crashes the
  parser: once the header and one entry are there to be read, the slice of the entry is too short for its
  last number, since its length counts the bytes of the fragment number twice and those of the run
  number not at all.\<close>

theorem tfra_parse_panics:
  assumes "length hdr = 4" and "hdr ! 0 = ver" and "at24 hdr 1 = 0" and "length head = 12" and "at32 head 8 \<noteq> 0"
    and "take_bit 2 (drop_bit 4 (head ! 7)) < take_bit 2 (drop_bit 2 (head ! 7))" and "32 \<le> length rest"
  shows "\<exists>e. TfraBox_Parse box (hdr @ head @ rest) = Inl e \<and> is_fault e"
proof -
  define f where "f = \<lparr>fb_Box = box, version = ver, flags24Bit = 0\<rparr>"
  define a b c where abc: "a = unat (take_bit 2 (drop_bit 4 (head ! 7)))" "b = unat (take_bit 2 (drop_bit 2 (head ! 7)))" "c = unat (take_bit 2 (head ! 7))"
  have abc': "take_bit 2 (drop_bit 4 (head ! 7)) = of_nat a" "take_bit 2 (drop_bit 2 (head ! 7)) = of_nat b" "take_bit 2 (head ! 7) = of_nat c"
    by (simp_all add: abc)
  have le: "a \<le> 3" "b \<le> 3" "c \<le> 3" unfolding abc by (rule low_bits(4))+
  have ab: "\<not> b \<le> a" using assms(6) by (simp add: abc word_less_nat_alt)
  let ?n = "unat (tfra_entryLen f (of_nat a) (of_nat c))"
  have "tfra_entryLen f (of_nat a) (of_nat c) = of_nat ((if version f = 1 then 16 else 8) + 2 * a + c + 3)"
    by (simp add: tfra_entryLen_def Let_def)
  then have n: "?n \<le> 32" using le of_nat_plus_byte[of "(if version f = 1 then 16 else 8) + 2 * a + c + 3"] by (auto split: if_splits)
  let ?buf = "take ?n rest"
  have "length ?buf = ?n" using n assms(7) by simp
  note t = tfra_entry_iff[OF le this]
  from t(1) ab obtain e where e: "tfra_entry f (of_nat a) (of_nat b) (of_nat c) ?buf = Inl e" by (cases "tfra_entry f (of_nat a) (of_nat b) (of_nat c) ?buf") auto
  have fault: "is_fault e" by (rule t(2)[OF e])
  let ?m = "bindR (rdBuf ?n) (\<lambda>buf. liftR (tfra_entry f (of_nat a) (of_nat b) (of_nat c) buf))"
  have m: "?m rest = Inl e" using n assms(7) e by (simp add: bindR_def rdBuf_def ReadFull_def liftR_def)
  obtain k where k: "unat (at32 head 8) = Suc k" using assms(5) by (metis not0_implies_Suc unat_eq_zero)
  have times: "rd_times (unat (at32 head 8)) ?m rest = Inl e" unfolding k rd_times.simps using m by (simp add: bindR_def)
  have hd: "FullBox_Parse box 0 True 0 (hdr @ head @ rest) = Inr (f, 4, head @ rest)"
    using readsD[OF reads_buf[OF assms(1)], of "head @ rest"] assms(1-3) by (simp add: FullBox_Parse_def bindR_def retR_def f_def Let_def)
  have body: "rdBuf 12 (head @ rest) = Inr (head, 12, rest)" using readsD[OF reads_buf[OF assms(4)], of rest] assms(4) by simp
  show ?thesis using fault times
    by (intro exI[of _ e]) (simp add: TfraBox_Parse_def bindR_def hd body Let_def low_bits(1-3) abc')
qed

theorem tfra_parse_panics_witness:
  "\<exists>e. TfraBox_Parse \<lparr>Size = 43, BoxType = 0x74667261\<rparr>
     ([0, 0, 0, 0] @ [0, 0, 0, 1, 0, 0, 0, 0x04, 0, 0, 0, 1] @ replicate 32 0) = Inl e \<and> is_fault e"
  by (rule tfra_parse_panics [where ver = 0]) code_simp+

end
