(* ===== verification/Mp4_Movie.thy ===== *)
theory Mp4_Movie
  imports Mp4_Fragment
begin

text \<open>
  The boxes of the movie header that have no children: \<open>container/mp4/moovBox.go\<close>.  A constant array of the
  source is a list of its length, a signed field the word of its bits.
\<close>

definition at4s :: "bytes \<Rightarrow> nat \<Rightarrow> nat \<Rightarrow> bytes list" where
  "at4s b i n = map (\<lambda>k. subslice (i + 4 * k) (i + 4 * k + 4) b) [0..<n]"

section \<open>Headers of movie, track and media\<close>

record MvhdBox =
  mvhd_FullBox :: FullBox
  mvhd_CreationTime :: u64
  mvhd_ModificationTime :: u64
  mvhd_Timescale :: u32
  mvhd_Duration :: u64
  TemplateRate :: u32
  mvhd_TemplateVolume :: u16
  mvhd_Reserved1 :: bytes
  mvhd_Reserved2 :: "u32 list"
  mvhd_TemplateMatrix :: "u32 list"
  mvhd_PreDefined :: "bytes list"
  NextTrackID :: u32

definition MvhdBox_Parse :: "Box \<Rightarrow> MvhdBox rd" where
  "MvhdBox_Parse b =
     bindR (FullBox_Parse b 0 FULLBOX_ANY_VERSION 0) (\<lambda>f.
     let v1 = (version f = 1) in
     bindR (rdBuf (if v1 then 108 else 96)) (\<lambda>buf.
     let i = (if v1 then 28 else 16) in
     retR \<lparr>mvhd_FullBox = f,
           mvhd_CreationTime = (if v1 then at64 buf 0 else ucast (at32 buf 0)),
           mvhd_ModificationTime = (if v1 then at64 buf 8 else ucast (at32 buf 4)),
           mvhd_Timescale = (if v1 then at32 buf 16 else at32 buf 8),
           mvhd_Duration = (if v1 then at64 buf 20 else ucast (at32 buf 12)),
           TemplateRate = at32 buf i, mvhd_TemplateVolume = at16 buf (i + 4),
           mvhd_Reserved1 = [buf ! (i + 6), buf ! (i + 7)], mvhd_Reserved2 = at32s buf (i + 8) 2,
           mvhd_TemplateMatrix = at32s buf (i + 16) 9,
           mvhd_PreDefined = at4s buf (i + 52) 6,
           NextTrackID = at32 buf (i + 76)\<rparr>))"

definition times_bytes :: "bool \<Rightarrow> u64 \<Rightarrow> u64 \<Rightarrow> bytes \<Rightarrow> u64 \<Rightarrow> bytes" where
  "times_bytes v1 c m mid d =
     (if v1 then u64be c @ u64be m @ mid @ u64be d else u32be (ucast c) @ u32be (ucast m) @ mid @ u32be (ucast d))"

definition MvhdBox_Serialize :: "MvhdBox \<Rightarrow> bytes" where
  "MvhdBox_Serialize b =
     FullBox_Serialize (mvhd_FullBox b) @
     times_bytes (version (mvhd_FullBox b) = 1) (mvhd_CreationTime b) (mvhd_ModificationTime b)
       (u32be (mvhd_Timescale b)) (mvhd_Duration b) @
     u32be (TemplateRate b) @ u16be (mvhd_TemplateVolume b) @ mvhd_Reserved1 b @
     concat (map u32be (mvhd_Reserved2 b)) @ concat (map u32be (mvhd_TemplateMatrix b)) @
     concat (mvhd_PreDefined b) @ u32be (NextTrackID b)"

record TkhdBox =
  tkhd_FullBox :: FullBox
  tkhd_CreationTime :: u64
  tkhd_ModificationTime :: u64
  tkhd_TrackID :: u32
  tkhd_Reserved1 :: u32
  tkhd_Duration :: u64
  tkhd_Reserved2 :: "u32 list"
  TemplateLayer :: u16
  TemplatealTernateGroup :: u16
  tkhd_TemplateVolume :: u16
  tkhd_Reserved3 :: u16
  tkhd_TemplateMatrix :: "u32 list"
  tkhd_Width :: u32
  tkhd_Height :: u32

definition TkhdBox_Parse :: "Box \<Rightarrow> TkhdBox rd" where
  "TkhdBox_Parse b =
     bindR (FullBox_Parse b 0 FULLBOX_ANY_VERSION FULLBOX_ANY_FLAG) (\<lambda>f.
     let v1 = (version f = 1) in
     bindR (rdBuf (if v1 then 92 else 80)) (\<lambda>buf.
     let i = (if v1 then 32 else 20) in
     retR \<lparr>tkhd_FullBox = f,
           tkhd_CreationTime = (if v1 then at64 buf 0 else ucast (at32 buf 0)),
           tkhd_ModificationTime = (if v1 then at64 buf 8 else ucast (at32 buf 4)),
           tkhd_TrackID = (if v1 then at32 buf 16 else at32 buf 8),
           tkhd_Reserved1 = (if v1 then at32 buf 20 else at32 buf 12),
           tkhd_Duration = (if v1 then at64 buf 24 else ucast (at32 buf 16)),
           tkhd_Reserved2 = at32s buf i 2, TemplateLayer = at16 buf (i + 8),
           TemplatealTernateGroup = at16 buf (i + 10), tkhd_TemplateVolume = at16 buf (i + 12),
           tkhd_Reserved3 = at16 buf (i + 14), tkhd_TemplateMatrix = at32s buf (i + 16) 9,
           tkhd_Width = at32 buf (i + 52), tkhd_Height = at32 buf (i + 56)\<rparr>))"

definition TkhdBox_Serialize :: "TkhdBox \<Rightarrow> bytes" where
  "TkhdBox_Serialize b =
     FullBox_Serialize (tkhd_FullBox b) @
     times_bytes (version (tkhd_FullBox b) = 1) (tkhd_CreationTime b) (tkhd_ModificationTime b)
       (u32be (tkhd_TrackID b) @ u32be (tkhd_Reserved1 b)) (tkhd_Duration b) @
     concat (map u32be (tkhd_Reserved2 b)) @ u16be (TemplateLayer b) @ u16be (TemplatealTernateGroup b) @
     u16be (tkhd_TemplateVolume b) @ u16be (tkhd_Reserved3 b) @ concat (map u32be (tkhd_TemplateMatrix b)) @
     u32be (tkhd_Width b) @ u32be (tkhd_Height b)"

record MdhdBox =
  mdhd_FullBox :: FullBox
  mdhd_CreationTime :: u64
  mdhd_ModificationTime :: u64
  mdhd_Timescale :: u32
  mdhd_Duration :: u64
  Pad :: byte
  Language :: "byte list"
  mdhd_PreDefined :: u16

text \<open>The buffer is the long one for every version but 0, the fields are the long ones for version 1 only.\<close>

definition MdhdBox_Parse :: "Box \<Rightarrow> MdhdBox rd" where
  "MdhdBox_Parse b =
     bindR (FullBox_Parse b 0 FULLBOX_ANY_VERSION 0) (\<lambda>f.
     bindR (rdBuf (if version f = 0 then 20 else 32)) (\<lambda>buf.
     let v1 = (version f = 1); i = (if v1 then 28 else 16) in
     retR \<lparr>mdhd_FullBox = f,
           mdhd_CreationTime = (if v1 then at64 buf 0 else ucast (at32 buf 0)),
           mdhd_ModificationTime = (if v1 then at64 buf 8 else ucast (at32 buf 4)),
           mdhd_Timescale = (if v1 then at32 buf 16 else at32 buf 8),
           mdhd_Duration = (if v1 then at64 buf 20 else ucast (at32 buf 12)),
           Pad = drop_bit 7 (buf ! i),
           Language = [drop_bit 2 (buf ! i AND 0x7c),
                       push_bit 3 (buf ! i AND 0x03) OR drop_bit 5 (buf ! (i + 1) AND 0xE0),
                       buf ! (i + 1) AND 0x1F],
           mdhd_PreDefined = at16 buf (i + 2)\<rparr>))"

definition MdhdBox_Serialize :: "MdhdBox \<Rightarrow> bytes" where
  "MdhdBox_Serialize b =
     (let v = version (mdhd_FullBox b); v1 = (v = 1);
          pl = push_bit 15 (ucast (Pad b)) OR push_bit 10 (scast (Language b ! 0)) OR
               push_bit 5 (scast (Language b ! 1)) OR scast (Language b ! 2) in
      FullBox_Serialize (mdhd_FullBox b) @
      times_bytes v1 (mdhd_CreationTime b) (mdhd_ModificationTime b) (u32be (mdhd_Timescale b)) (mdhd_Duration b) @
      u16be pl @ u16be (mdhd_PreDefined b) @ (if v = 0 \<or> v1 then [] else replicate 12 0))"

section \<open>Edit list, handler, media headers\<close>

record ElstEntry =
  SegmentDuration :: u64
  MediaFrame :: u64
  MediaRateInteger :: u16
  MediaRateFraction :: u16

record ElstBox =
  elst_FullBox :: FullBox
  elst_EntryCount :: u32
  elst_Entries :: "ElstEntry list"

definition elst_entry :: "byte \<Rightarrow> ElstEntry rd" where
  "elst_entry v =
     bindR (rdBuf (if v = 0 then 12 else 20)) (\<lambda>buf.
     retR (if v = 1
       then \<lparr>SegmentDuration = at64 buf 0, MediaFrame = at64 buf 8, MediaRateInteger = at16 buf 16, MediaRateFraction = at16 buf 18\<rparr>
       else \<lparr>SegmentDuration = ucast (at32 buf 0), MediaFrame = ucast (at32 buf 4),
             MediaRateInteger = at16 buf 8, MediaRateFraction = at16 buf 10\<rparr>))"

definition ElstBox_Parse :: "Box \<Rightarrow> ElstBox rd" where
  "ElstBox_Parse b =
     bindR (FullBox_Parse b 0 FULLBOX_ANY_VERSION 0) (\<lambda>f.
     bindR (rdBuf 4) (\<lambda>buf. let count = at32 buf 0 in
     bindR (rd_times (unat count) (elst_entry (version f))) (\<lambda>es.
     retR \<lparr>elst_FullBox = f, elst_EntryCount = count, elst_Entries = es\<rparr>)))"

definition elst_entry_bytes :: "byte \<Rightarrow> ElstEntry \<Rightarrow> bytes" where
  "elst_entry_bytes v e =
     (if v = 1 then u64be (SegmentDuration e) @ u64be (MediaFrame e) @ u16be (MediaRateInteger e) @ u16be (MediaRateFraction e)
      else u32be (ucast (SegmentDuration e)) @ u32be (ucast (MediaFrame e)) @ u16be (MediaRateInteger e) @
           u16be (MediaRateFraction e) @ (if v = 0 then [] else replicate 8 0))"

definition ElstBox_Serialize :: "ElstBox \<Rightarrow> bytes res" where
  "ElstBox_Serialize b =
     failIf (elst_EntryCount b \<noteq> of_nat (length (elst_Entries b))) (Errorf ''elst not consistent:%d %d'')
     (Inr (FullBox_Serialize (elst_FullBox b) @ u32be (elst_EntryCount b) @
        concat (map (elst_entry_bytes (version (elst_FullBox b))) (elst_Entries b))))"

record HdlrBox =
  hdlr_FullBox :: FullBox
  hdlr_PreDefined :: u32
  handlerType :: u32
  hdlr_Reserved :: "u32 list"
  hdlr_Name :: bytes

text \<open>The check of a name of length 0 only builds an error; a negative length panics in \<open>make\<close>.\<close>

definition HdlrBox_Parse :: "Box \<Rightarrow> HdlrBox rd" where
  "HdlrBox_Parse b =
     bindR (FullBox_Parse b 0 (\<not> FULLBOX_ANY_VERSION) 0) (\<lambda>f.
     bindR (rdBuf 20) (\<lambda>buf.
     let nameLen = uint (Size b) - 24 - BOX_SIZE in
     bindR (rdMake nameLen) (\<lambda>nm.
     retR \<lparr>hdlr_FullBox = f, hdlr_PreDefined = at32 buf 0, handlerType = at32 buf 4, hdlr_Reserved = at32s buf 8 3,
           hdlr_Name = nm\<rparr>)))"

definition HdlrBox_Serialize :: "HdlrBox \<Rightarrow> bytes" where
  "HdlrBox_Serialize b =
     FullBox_Serialize (hdlr_FullBox b) @
     uint32Serialize ([hdlr_PreDefined b, handlerType b] @ hdlr_Reserved b) @ hdlr_Name b"

record VmhdBox =
  vmhd_FullBox :: FullBox
  TemplateGraphicsMode :: u16
  TemplateOpcolor :: "u16 list"

definition VmhdBox_Parse :: "Box \<Rightarrow> VmhdBox rd" where
  "VmhdBox_Parse b =
     bindR (FullBox_Parse b 0 (\<not> FULLBOX_ANY_VERSION) 1) (\<lambda>f.
     bindR (rdBuf 8) (\<lambda>buf.
     retR \<lparr>vmhd_FullBox = f, TemplateGraphicsMode = at16 buf 0, TemplateOpcolor = at16s buf 2 3\<rparr>))"

definition VmhdBox_Serialize :: "VmhdBox \<Rightarrow> bytes" where
  "VmhdBox_Serialize b =
     FullBox_Serialize (vmhd_FullBox b) @ u16be (TemplateGraphicsMode b) @ concat (map u16be (TemplateOpcolor b))"

record SmhdBox =
  smhd_FullBox :: FullBox
  TmeplateBalance :: u16
  smhd_Reserved :: u16

definition SmhdBox_Parse :: "Box \<Rightarrow> SmhdBox rd" where
  "SmhdBox_Parse b =
     bindR (FullBox_Parse b 0 (\<not> FULLBOX_ANY_VERSION) FULLBOX_ANY_FLAG) (\<lambda>f.
     bindR (rdBuf 4) (\<lambda>buf. retR \<lparr>smhd_FullBox = f, TmeplateBalance = at16 buf 0, smhd_Reserved = at16 buf 2\<rparr>))"

definition SmhdBox_Serialize :: "SmhdBox \<Rightarrow> bytes" where
  "SmhdBox_Serialize b = FullBox_Serialize (smhd_FullBox b) @ u16be (TmeplateBalance b) @ u16be (smhd_Reserved b)"

section \<open>Data references\<close>

record UrlBox =
  url_FullBox :: FullBox
  url_Location :: bytes

text \<open>The count that is returned is the one of the last read: without it the flags, else the location only.\<close>

definition UrlBox_Parse :: "Box \<Rightarrow> UrlBox rd" where
  "UrlBox_Parse b r =
     bindE (FullBox_Parse b 0 (\<not> FULLBOX_ANY_VERSION) FULLBOX_ANY_FLAG r) (\<lambda>(f, n, r).
     if flags24Bit f = 1 then Inr (\<lparr>url_FullBox = f, url_Location = []\<rparr>, n, r)
     else bindE (rdMake (uint (Size b) - int n - BOX_SIZE) r) (\<lambda>(loc, n, r).
       Inr (\<lparr>url_FullBox = f, url_Location = loc\<rparr>, n, r)))"

definition UrlBox_Serialize :: "UrlBox \<Rightarrow> bytes" where
  "UrlBox_Serialize b = FullBox_Serialize (url_FullBox b) @ url_Location b"

record UrnBox =
  urn_FullBox :: FullBox
  urn_Name :: bytes
  urn_Location :: bytes

text \<open>The index of the first byte that is not 0 (0 when there is none).\<close>

definition first_nonzero :: "bytes \<Rightarrow> nat" where
  "first_nonzero buf = (let k = length (takeWhile (\<lambda>x. x = 0) buf) in if k < length buf then k else 0)"

definition UrnBox_Parse :: "Box \<Rightarrow> UrnBox rd" where
  "UrnBox_Parse b =
     bindR (FullBox_Parse b 0 (\<not> FULLBOX_ANY_VERSION) FULLBOX_ANY_FLAG) (\<lambda>f.
     if flags24Bit f = 1 then retR \<lparr>urn_FullBox = f, urn_Name = [], urn_Location = []\<rparr>
     else bindR (rdMake (uint (Size b) - FULL_BOX_SIZE)) (\<lambda>buf.
       let idx = first_nonzero buf in
       if length buf < idx + 1 then failR slice_panic
       else retR \<lparr>urn_FullBox = f, urn_Name = take (idx + 1) buf, urn_Location = drop (idx + 1) buf\<rparr>))"

definition UrnBox_Serialize :: "UrnBox \<Rightarrow> bytes" where
  "UrnBox_Serialize b = Box_Serialize (fb_Box (urn_FullBox b)) @ urn_Name b @ urn_Location b"

section \<open>Sample tables\<close>

text \<open>
  \<open>for i := 0; i < n && remainSize > 0; i++\<close> with an element of \<open>k\<close> bytes read in each round; the
  elements and what remains of the size.
\<close>

fun rd_upto :: "nat \<Rightarrow> int \<Rightarrow> nat \<Rightarrow> (bytes \<Rightarrow> 'a) \<Rightarrow> ('a list \<times> int) rd" where
  "rd_upto 0 remain k g = retR ([], remain)"
| "rd_upto (Suc n) remain k g =
     (if remain \<le> 0 then retR ([], remain)
      else bindR (rdBuf k) (\<lambda>buf. bindR (rd_upto n (remain - int k) k g) (\<lambda>(xs, rem). retR (g buf # xs, rem))))"

definition rd_table :: "Box \<Rightarrow> nat \<Rightarrow> (bytes \<Rightarrow> 'a) \<Rightarrow> string \<Rightarrow> (u32 \<times> 'a list) rd" where
  "rd_table b k g msg =
     bindR (rdBuf 4) (\<lambda>buf. let count = at32 buf 0 in
     bindR (rd_upto (unat count) (uint (Size b) - FULL_BOX_SIZE - 4) k g) (\<lambda>(xs, remain).
     if 0 < remain then failR (Errorf msg) else retR (count, xs)))"

record SttsEntry =
  stts_SampleCount :: u32
  SampleDelta :: u32

record SttsBox =
  stts_FullBox :: FullBox
  stts_EntryCount :: u32
  stts_Entries :: "SttsEntry list"

definition SttsBox_Parse :: "Box \<Rightarrow> SttsBox rd" where
  "SttsBox_Parse b =
     bindR (FullBox_Parse b 0 (\<not> FULLBOX_ANY_VERSION) 0) (\<lambda>f.
     bindR (rd_table b 8 (\<lambda>buf. \<lparr>stts_SampleCount = at32 buf 0, SampleDelta = at32 buf 4\<rparr>) ''sttsbox remainsize:%d'') (\<lambda>(count, es).
     retR \<lparr>stts_FullBox = f, stts_EntryCount = count, stts_Entries = es\<rparr>))"

definition SttsBox_Serialize :: "SttsBox \<Rightarrow> bytes" where
  "SttsBox_Serialize b =
     FullBox_Serialize (stts_FullBox b) @
     uint32Serialize (stts_EntryCount b # concat (map (\<lambda>e. [stts_SampleCount e, SampleDelta e]) (stts_Entries b)))"

record StscEntry =
  FirstChunk :: u32
  SamplePerChunk :: u32
  stsc_SampleDescriptionIndex :: u32

record StscBox =
  stsc_FullBox :: FullBox
  stsc_EntryCount :: u32
  stsc_Entries :: "StscEntry list"

definition StscBox_Parse :: "Box \<Rightarrow> StscBox rd" where
  "StscBox_Parse b =
     bindR (FullBox_Parse b 0 (\<not> FULLBOX_ANY_VERSION) 0) (\<lambda>f.
     bindR (rd_table b 12 (\<lambda>buf. \<lparr>FirstChunk = at32 buf 0, SamplePerChunk = at32 buf 4, stsc_SampleDescriptionIndex = at32 buf 8\<rparr>)
       ''stscbox remainsize:%d'') (\<lambda>(count, es).
     retR \<lparr>stsc_FullBox = f, stsc_EntryCount = count, stsc_Entries = es\<rparr>))"

definition StscBox_Serialize :: "StscBox \<Rightarrow> bytes" where
  "StscBox_Serialize b =
     FullBox_Serialize (stsc_FullBox b) @
     uint32Serialize (stsc_EntryCount b # concat (map (\<lambda>e. [FirstChunk e, SamplePerChunk e, stsc_SampleDescriptionIndex e]) (stsc_Entries b)))"

record StcoBox =
  stco_FullBox :: FullBox
  stco_EntryCount :: u32
  ChunkOffset :: "u32 list"

definition StcoBox_Parse :: "Box \<Rightarrow> StcoBox rd" where
  "StcoBox_Parse b =
     bindR (FullBox_Parse b 0 (\<not> FULLBOX_ANY_VERSION) 0) (\<lambda>f.
     bindR (rd_table b 4 (\<lambda>buf. at32 buf 0) ''sctobox remainsize:%d'') (\<lambda>(count, es).
     retR \<lparr>stco_FullBox = f, stco_EntryCount = count, ChunkOffset = es\<rparr>))"

definition StcoBox_Serialize :: "StcoBox \<Rightarrow> bytes" where
  "StcoBox_Serialize b = FullBox_Serialize (stco_FullBox b) @ uint32Serialize (stco_EntryCount b # ChunkOffset b)"

record StszBox =
  stsz_FullBox :: FullBox
  stsz_SampleSize :: u32
  stsz_SampleCount :: u32
  EnriesSize :: "u32 list"

definition StszBox_Parse :: "Box \<Rightarrow> StszBox rd" where
  "StszBox_Parse b =
     bindR (FullBox_Parse b 0 (\<not> FULLBOX_ANY_VERSION) 0) (\<lambda>f.
     bindR (rdBuf 8) (\<lambda>buf. let sz = at32 buf 0; count = at32 buf 4 in
     bindR (if sz = 0 then rd_times (unat count) (bindR (rdBuf 4) (\<lambda>buf. retR (at32 buf 0))) else retR []) (\<lambda>es.
     retR \<lparr>stsz_FullBox = f, stsz_SampleSize = sz, stsz_SampleCount = count, EnriesSize = es\<rparr>)))"

definition StszBox_Serialize :: "StszBox \<Rightarrow> bytes" where
  "StszBox_Serialize b =
     FullBox_Serialize (stsz_FullBox b) @
     uint32Serialize ([stsz_SampleSize b, stsz_SampleCount b] @ (if stsz_SampleSize b = 0 then EnriesSize b else []))"

record TrexBox =
  trex_FullBox :: FullBox
  trex_TrackID :: u32
  DefaultSampleDescriptionIndex :: u32
  trex_DefaultSampleDuration :: u32
  trex_DefaultSampleSize :: u32
  trex_DefaultSampleFlags :: u32

definition TrexBox_Parse :: "Box \<Rightarrow> TrexBox rd" where
  "TrexBox_Parse b =
     bindR (FullBox_Parse b 0 (\<not> FULLBOX_ANY_VERSION) 0) (\<lambda>f.
     bindR (rdBuf 20) (\<lambda>buf.
     retR \<lparr>trex_FullBox = f, trex_TrackID = at32 buf 0, DefaultSampleDescriptionIndex = at32 buf 4,
           trex_DefaultSampleDuration = at32 buf 8, trex_DefaultSampleSize = at32 buf 12, trex_DefaultSampleFlags = at32 buf 16\<rparr>))"

definition TrexBox_Serialize :: "TrexBox \<Rightarrow> bytes" where
  "TrexBox_Serialize b =
     FullBox_Serialize (trex_FullBox b) @
     uint32Serialize [trex_TrackID b, DefaultSampleDescriptionIndex b, trex_DefaultSampleDuration b,
       trex_DefaultSampleSize b, trex_DefaultSampleFlags b]"

record PaspBox =
  pasp_Box :: Box
  HSpacing :: u32
  VSpacing :: u32

definition PaspBox_Parse :: "Box \<Rightarrow> PaspBox rd" where
  "PaspBox_Parse b = bindR (rdBuf 8) (\<lambda>buf. retR \<lparr>pasp_Box = b, HSpacing = at32 buf 0, VSpacing = at32 buf 4\<rparr>)"

definition PaspBox_Serialize :: "PaspBox \<Rightarrow> bytes" where
  "PaspBox_Serialize b = Box_Serialize (pasp_Box b) @ uint32Serialize [HSpacing b, VSpacing b]"

section \<open>Sample entries\<close>

record SampleEntry =
  se_Reserved :: bytes
  DataReferenceIndex :: u16

definition SampleEntry_parse :: "SampleEntry rd" where
  "SampleEntry_parse = bindR (rdBuf 8) (\<lambda>buf. retR \<lparr>se_Reserved = take 6 buf, DataReferenceIndex = at16 buf 6\<rparr>)"

definition SampleEntry_serialize :: "SampleEntry \<Rightarrow> bytes" where
  "SampleEntry_serialize e = se_Reserved e @ u16be (DataReferenceIndex e)"

record VisualSampleEntry =
  vse_SampleEntry :: SampleEntry
  PreDefined1 :: u16
  vse_Reserved1 :: u16
  PreDefined2 :: "u32 list"
  vse_Width :: u16
  vse_Height :: u16
  TemplateHorizResolution :: u32
  TemplateVertResolution :: u32
  vse_Reserved3 :: u32
  TemplateFrameCount :: u16
  CompressorName :: bytes
  TemplateDepth :: u16
  PreDefined3 :: u16

definition VisualSampleEntry_parse :: "VisualSampleEntry rd" where
  "VisualSampleEntry_parse =
     bindR SampleEntry_parse (\<lambda>se.
     bindR (rdBuf 70) (\<lambda>buf.
     retR \<lparr>vse_SampleEntry = se, PreDefined1 = at16 buf 0, vse_Reserved1 = at16 buf 2, PreDefined2 = at32s buf 4 3,
           vse_Width = at16 buf 16, vse_Height = at16 buf 18, TemplateHorizResolution = at32 buf 20,
           TemplateVertResolution = at32 buf 24, vse_Reserved3 = at32 buf 28, TemplateFrameCount = at16 buf 32,
           CompressorName = subslice 34 66 buf, TemplateDepth = at16 buf 66, PreDefined3 = at16 buf 68\<rparr>))"

definition VisualSampleEntry_serialize :: "VisualSampleEntry \<Rightarrow> bytes" where
  "VisualSampleEntry_serialize e =
     SampleEntry_serialize (vse_SampleEntry e) @ u16be (PreDefined1 e) @ u16be (vse_Reserved1 e) @
     concat (map u32be (PreDefined2 e)) @ u16be (vse_Width e) @ u16be (vse_Height e) @
     u32be (TemplateHorizResolution e) @ u32be (TemplateVertResolution e) @ u32be (vse_Reserved3 e) @
     u16be (TemplateFrameCount e) @ CompressorName e @ u16be (TemplateDepth e) @ u16be (PreDefined3 e)"

record AudioSampleEntry =
  ase_SampleEntry :: SampleEntry
  ase_Reserved1 :: "u32 list"
  TemplateChannelCount :: u16
  TemplateSampleSize :: u16
  ase_PreDefined :: u16
  ase_Reserved2 :: u16
  TemplateSampleRate :: u32

definition AudioSampleEntry_parse :: "AudioSampleEntry rd" where
  "AudioSampleEntry_parse =
     bindR SampleEntry_parse (\<lambda>se.
     bindR (rdBuf 20) (\<lambda>buf.
     retR \<lparr>ase_SampleEntry = se, ase_Reserved1 = at32s buf 0 2, TemplateChannelCount = at16 buf 8,
           TemplateSampleSize = at16 buf 10, ase_PreDefined = at16 buf 12, ase_Reserved2 = at16 buf 14,
           TemplateSampleRate = at32 buf 16\<rparr>))"

definition AudioSampleEntry_serialize :: "AudioSampleEntry \<Rightarrow> bytes" where
  "AudioSampleEntry_serialize e =
     SampleEntry_serialize (ase_SampleEntry e) @
     uint32Serialize (ase_Reserved1 e @
       [push_bit 16 (ucast (TemplateChannelCount e)) OR ucast (TemplateSampleSize e),
        push_bit 16 (ucast (ase_PreDefined e)) OR ucast (ase_Reserved2 e), TemplateSampleRate e])"

section \<open>Round trips\<close>

lemma at4s_skip [field_simps]: "length xs \<le> i \<Longrightarrow> at4s (xs @ r) i n = at4s r (i - length xs) n"
  by (simp add: at4s_def subslice_append_right)

lemma at4s_here [field_simps]: "\<forall>v \<in> set vs. length v = 4 \<Longrightarrow> length vs = n \<Longrightarrow> at4s (concat vs @ r) 0 n = vs"
proof (induction vs arbitrary: n)
  case (Cons v vs)
  then obtain k where k: "n = Suc k" "length vs = k" by auto
  have "at4s (concat (v # vs) @ r) 0 n = v # at4s (v @ concat vs @ r) 4 k"
    unfolding at4s_def k(1) upt_conv_Cons[OF zero_less_Suc] map_Suc_upt[symmetric]
    using Cons.prems(1) by (simp add: algebra_simps subslice_append[of "[]", simplified])
  then show ?case using Cons k(2) by (simp add: at4s_skip)
qed (simp add: at4s_def)

lemma length_concat4: "\<forall>v \<in> set vs. length v = 4 \<Longrightarrow> length (concat vs) = 4 * length vs"
  by (induction vs) simp_all

lemma slice_fields [field_simps]:
  "length xs \<le> i \<Longrightarrow> subslice i j (xs @ r) = subslice (i - length xs) (j - length xs) r"
  "length xs = j \<Longrightarrow> subslice 0 j (xs @ r) = xs"
  by (simp_all add: subslice_def)

lemma nth_here [field_simps]: "i < length xs \<Longrightarrow> (xs @ r) ! i = xs ! i"
  by (simp add: nth_append)

lemma list2: "length xs = 2 \<Longrightarrow> [xs ! 0, xs ! Suc 0] = xs"
  by (cases xs rule: remdups_adj.cases) auto

lemma length_times_bytes [simp]:
  "length (times_bytes v1 c m mid d) = (if v1 then 24 else 12) + length mid"
  by (simp add: times_bytes_def)

definition times_fit :: "bool \<Rightarrow> u64 \<Rightarrow> u64 \<Rightarrow> u64 \<Rightarrow> bool" where
  "times_fit v1 c m d \<longleftrightarrow> v1 \<or> c \<le> 0xFFFFFFFF \<and> m \<le> 0xFFFFFFFF \<and> d \<le> 0xFFFFFFFF"

definition mvhd_ok :: "MvhdBox \<Rightarrow> bool" where
  "mvhd_ok b \<longleftrightarrow> (let f = mvhd_FullBox b in
     small_box (fb_Box f) \<and> flags24Bit f = 0 \<and>
     times_fit (version f = 1) (mvhd_CreationTime b) (mvhd_ModificationTime b) (mvhd_Duration b) \<and>
     length (mvhd_Reserved1 b) = 2 \<and> length (mvhd_Reserved2 b) = 2 \<and> length (mvhd_TemplateMatrix b) = 9 \<and>
     length (mvhd_PreDefined b) = 6 \<and> (\<forall>v \<in> set (mvhd_PreDefined b). length v = 4))"

lemma FullBox_part: "FullBox_Serialize f @ w = Box_Serialize (fb_Box f) @ u32be (push_bit 24 (ucast (version f)) OR flags24Bit f) @ w"
  by (simp add: full_ser)

lemma reads_fixed:
  assumes "wf_flags f" "isAny \<or> version f = ver" "flag = FULLBOX_ANY_FLAG \<or> flags24Bit f = flag" "length w = n" "g f w = y"
  shows "reads (bindR (FullBox_Parse (fb_Box f) ver isAny flag) (\<lambda>f. bindR (rdBuf n) (\<lambda>buf. retR (g f buf))))
    (u32be (push_bit 24 (ucast (version f)) OR flags24Bit f) @ w) y"
  using assms by (intro reads_full reads_buf_last reads_ret) auto

interpretation mvhd: box_codec MvhdBox_Serialize MvhdBox_Parse "\<lambda>b. fb_Box (mvhd_FullBox b)" mvhd_ok
proof
  fix b :: MvhdBox assume b: "mvhd_ok b"
  let ?f = "mvhd_FullBox b"
  note ok = b[unfolded mvhd_ok_def Let_def]
  have l: "length (concat (mvhd_PreDefined b)) = 24" using ok length_concat4[of "mvhd_PreDefined b"] by simp
  show "\<exists>w. MvhdBox_Serialize b = Box_Serialize (fb_Box ?f) @ w \<and> reads (MvhdBox_Parse (fb_Box ?f)) w b"
    unfolding MvhdBox_Serialize_def MvhdBox_Parse_def FullBox_part Let_def
  proof (intro exI conjI, rule refl, intro reads_full, goal_cases)
    case 4
    show ?case
      by (rule reads_buf_last; cases "version ?f = 1")
        (use ok l in \<open>simp_all add: times_bytes_def field_simps u64_low list2 times_fit_def reads_ret\<close>)
  qed (use ok in \<open>simp_all add: wf_flags_def\<close>)
qed (simp add: mvhd_ok_def Let_def)

definition tkhd_ok :: "TkhdBox \<Rightarrow> bool" where
  "tkhd_ok b \<longleftrightarrow> (let f = tkhd_FullBox b in
     small_box (fb_Box f) \<and> wf_flags f \<and>
     times_fit (version f = 1) (tkhd_CreationTime b) (tkhd_ModificationTime b) (tkhd_Duration b) \<and>
     length (tkhd_Reserved2 b) = 2 \<and> length (tkhd_TemplateMatrix b) = 9)"

interpretation tkhd: box_codec TkhdBox_Serialize TkhdBox_Parse "\<lambda>b. fb_Box (tkhd_FullBox b)" tkhd_ok
proof
  fix b :: TkhdBox assume b: "tkhd_ok b"
  let ?f = "tkhd_FullBox b"
  note ok = b[unfolded tkhd_ok_def Let_def]
  show "\<exists>w. TkhdBox_Serialize b = Box_Serialize (fb_Box ?f) @ w \<and> reads (TkhdBox_Parse (fb_Box ?f)) w b"
    unfolding TkhdBox_Serialize_def TkhdBox_Parse_def FullBox_part Let_def
  proof (intro exI conjI, rule refl, intro reads_full, goal_cases)
    case 4
    show ?case
      by (rule reads_buf_last; cases "version ?f = 1")
        (use ok in \<open>simp_all add: times_bytes_def field_simps u64_low times_fit_def reads_ret\<close>)
  qed (use ok in \<open>simp_all add: wf_flags_def\<close>)
qed (simp add: tkhd_ok_def Let_def)

definition lang_ok :: "byte \<Rightarrow> byte list \<Rightarrow> bool" where
  "lang_ok pad l \<longleftrightarrow> pad = take_bit 1 pad \<and> length l = 3 \<and> (\<forall>c \<in> set l. c = take_bit 5 c)"

lemma language_bits:
  assumes "lang_ok pad l"
  defines "pl \<equiv> push_bit 15 (ucast pad) OR push_bit 10 (scast (l ! 0)) OR push_bit 5 (scast (l ! 1)) OR scast (l ! 2) :: u16"
  shows "drop_bit 7 (u16be pl ! 0) = pad" and "drop_bit 2 (u16be pl ! 0 AND 0x7c) = l ! 0"
    and "push_bit 3 (u16be pl ! 0 AND 0x03) OR drop_bit 5 (u16be pl ! 1 AND 0xE0) = l ! 1" and "u16be pl ! 1 AND 0x1F = l ! 2"
proof -
  have l: "l ! i = take_bit 5 (l ! i)" if "i < 3" for i using assms(1) that by (auto simp: lang_ok_def)
  have p: "pad = take_bit 1 pad" using assms(1) by (simp add: lang_ok_def)
  have sc: "scast (l ! i) = (ucast (l ! i) :: u16)" if "i < 3" for i
    by (rule bit_word_eqI) (auto simp: bit_simps min_def split: if_splits dest: bit_low[OF l[OF that]])
  have pl: "pl = push_bit 15 (ucast pad) OR push_bit 10 (ucast (l ! 0)) OR push_bit 5 (ucast (l ! 1)) OR ucast (l ! 2)"
    by (simp add: pl_def sc)
  have u: "u16be pl ! 0 = ucast (drop_bit 8 pl)" "u16be pl ! 1 = ucast pl" by (simp_all add: u16be_def)
  have m: "0x7c = (push_bit 2 (mask 5) :: byte)" "0x03 = (mask 2 :: byte)" "0xE0 = (push_bit 5 (mask 3) :: byte)" "0x1F = (mask 5 :: byte)"
    by (simp_all add: mask_eq_exp_minus_1 push_bit_eq_mult)
  note low = bit_low[OF p] bit_low[OF l[of 0, simplified]] bit_low[OF l[of 1, simplified]] bit_low[OF l[of 2, simplified]]
  show "drop_bit 7 (u16be pl ! 0) = pad" unfolding u unfolding pl
    by (rule bit_word_eqI) (auto simp: bit_simps dest: low)
  show "drop_bit 2 (u16be pl ! 0 AND 0x7c) = l ! 0" unfolding u m unfolding pl
    by (rule bit_word_eqI) (auto simp: bit_simps dest: low)
  show "push_bit 3 (u16be pl ! 0 AND 0x03) OR drop_bit 5 (u16be pl ! 1 AND 0xE0) = l ! 1" unfolding u m unfolding pl
    by (rule bit_word_eqI) (auto simp: bit_simps dest: low)
  show "u16be pl ! 1 AND 0x1F = l ! 2" unfolding u m unfolding pl
    by (rule bit_word_eqI) (auto simp: bit_simps dest: low)
qed

definition mdhd_ok :: "MdhdBox \<Rightarrow> bool" where
  "mdhd_ok b \<longleftrightarrow> (let f = mdhd_FullBox b in
     small_box (fb_Box f) \<and> flags24Bit f = 0 \<and> lang_ok (Pad b) (Language b) \<and>
     times_fit (version f = 1) (mdhd_CreationTime b) (mdhd_ModificationTime b) (mdhd_Duration b))"

lemma list3: "length xs = 3 \<Longrightarrow> [xs ! 0, xs ! 1, xs ! 2] = xs"
  by (auto simp: numeral_3_eq_3 length_Suc_conv)

interpretation mdhd: box_codec MdhdBox_Serialize MdhdBox_Parse "\<lambda>b. fb_Box (mdhd_FullBox b)" mdhd_ok
proof
  fix b :: MdhdBox assume b: "mdhd_ok b"
  let ?f = "mdhd_FullBox b"
  note ok = b[unfolded mdhd_ok_def Let_def]
  define pl :: u16 where "pl = push_bit 15 (ucast (Pad b)) OR push_bit 10 (scast (Language b ! 0)) OR
      push_bit 5 (scast (Language b ! 1)) OR scast (Language b ! 2)"
  define t where "t = times_bytes (version ?f = 1) (mdhd_CreationTime b) (mdhd_ModificationTime b) (u32be (mdhd_Timescale b)) (mdhd_Duration b)"
  define z :: bytes where "z = (if version ?f = 0 \<or> version ?f = 1 then [] else replicate 12 0)"
  have lang: "lang_ok (Pad b) (Language b)" using ok by simp
  note bits = language_bits[OF lang, folded pl_def]
  have l3: "length (Language b) = 3" using lang by (simp add: lang_ok_def)
  have at: "(u16be pl @ r) ! 0 = u16be pl ! 0" "(u16be pl @ r) ! Suc 0 = u16be pl ! 1" for r by (simp_all add: nth_append)
  have ser: "MdhdBox_Serialize b = FullBox_Serialize ?f @ t @ u16be pl @ u16be (mdhd_PreDefined b) @ z"
    by (simp add: MdhdBox_Serialize_def Let_def pl_def t_def z_def)
  have lt: "length t = (if version ?f = 1 then 28 else 16)" by (simp add: t_def)
  show "\<exists>w. MdhdBox_Serialize b = Box_Serialize (fb_Box ?f) @ w \<and> reads (MdhdBox_Parse (fb_Box ?f)) w b"
    unfolding ser MdhdBox_Parse_def FullBox_part Let_def
  proof (intro exI conjI, rule refl, intro reads_full, goal_cases)
    case 4
    have len: "length (t @ u16be pl @ u16be (mdhd_PreDefined b) @ z) = (if version ?f = 0 then 20 else 32)"
      using lt by (simp add: z_def)
    have v: "Pad b = drop_bit 7 (u16be pl ! 0)" "Language b = [drop_bit 2 (u16be pl ! 0 AND 0x7c),
        push_bit 3 (u16be pl ! 0 AND 0x03) OR drop_bit 5 (u16be pl ! 1 AND 0xE0), u16be pl ! 1 AND 0x1F]"
      using bits list3[OF l3] by simp_all
    have tm: "(if version ?f = 1 then at64 (t @ r) 0 else ucast (at32 (t @ r) 0)) = mdhd_CreationTime b"
      "(if version ?f = 1 then at64 (t @ r) 8 else ucast (at32 (t @ r) 4)) = mdhd_ModificationTime b"
      "(if version ?f = 1 then at32 (t @ r) 16 else at32 (t @ r) 8) = mdhd_Timescale b"
      "(if version ?f = 1 then at64 (t @ r) 20 else ucast (at32 (t @ r) 12)) = mdhd_Duration b" for r
      using ok by (auto simp: t_def times_bytes_def field_simps u64_low times_fit_def)
    have i: "(t @ r) ! (if version ?f = 1 then 28 else 16) = r ! 0" "(t @ r) ! ((if version ?f = 1 then 28 else 16) + 1) = r ! 1"
      "at16 (t @ r) ((if version ?f = 1 then 28 else 16) + 2) = at16 r 2" for r
      using lt by (simp_all add: at_skip nth_append)
    show ?case
      by (rule reads_buf_last[OF len], unfold tm i) (rule reads_ret, use v in \<open>simp add: at field_simps\<close>)
  qed (use ok in \<open>simp_all add: wf_flags_def\<close>)
qed (simp add: mdhd_ok_def Let_def)

definition elst_entry_ok :: "byte \<Rightarrow> ElstEntry \<Rightarrow> bool" where
  "elst_entry_ok v e \<longleftrightarrow> v = 1 \<or> SegmentDuration e \<le> 0xFFFFFFFF \<and> MediaFrame e \<le> 0xFFFFFFFF"

definition elst_ok :: "ElstBox \<Rightarrow> bool" where
  "elst_ok b \<longleftrightarrow> (let f = elst_FullBox b in
     small_box (fb_Box f) \<and> flags24Bit f = 0 \<and> unat (elst_EntryCount b) = length (elst_Entries b) \<and>
     (\<forall>e \<in> set (elst_Entries b). elst_entry_ok (version f) e))"

lemma reads_elst_entry: "elst_entry_ok v e \<Longrightarrow> reads (elst_entry v) (elst_entry_bytes v e) e"
  unfolding elst_entry_def
  by (rule reads_buf_last) (auto simp: elst_entry_bytes_def elst_entry_ok_def field_simps u64_low intro!: reads_ret)

lemma elst_consistent: "elst_ok b \<Longrightarrow> ElstBox_Serialize b = Inr (FullBox_Serialize (elst_FullBox b) @ u32be (elst_EntryCount b) @
    concat (map (elst_entry_bytes (version (elst_FullBox b))) (elst_Entries b)))"
proof -
  assume "elst_ok b"
  then have "length (elst_Entries b) = unat (elst_EntryCount b)" by (simp add: elst_ok_def Let_def)
  then show ?thesis by (simp add: ElstBox_Serialize_def)
qed

interpretation elst: box_codec "\<lambda>b. case ElstBox_Serialize b of Inr w \<Rightarrow> w | Inl e \<Rightarrow> []" ElstBox_Parse "\<lambda>b. fb_Box (elst_FullBox b)" elst_ok
proof
  fix b :: ElstBox assume b: "elst_ok b"
  let ?f = "elst_FullBox b"
  note ok = b[unfolded elst_ok_def Let_def]
  have es: "reads (rd_times (unat (elst_EntryCount b)) (elst_entry (version ?f))) (concat (map (elst_entry_bytes (version ?f)) (elst_Entries b))) (elst_Entries b)"
    by (rule reads_times) (use ok in \<open>auto intro: reads_elst_entry\<close>)
  have "reads (ElstBox_Parse (fb_Box ?f)) (u32be (push_bit 24 (ucast (version ?f)) OR flags24Bit ?f) @ u32be (elst_EntryCount b) @
      concat (map (elst_entry_bytes (version ?f)) (elst_Entries b))) b"
    unfolding ElstBox_Parse_def Let_def
  proof (intro reads_full reads_buf_bind, goal_cases)
    case 5
    show ?case unfolding at_last by (rule reads_bind_last[OF es]) (simp add: reads_ret)
  qed (use ok in \<open>simp_all add: wf_flags_def\<close>)
  then show "\<exists>w. (case ElstBox_Serialize b of Inr w \<Rightarrow> w | Inl e \<Rightarrow> []) = Box_Serialize (fb_Box ?f) @ w \<and> reads (ElstBox_Parse (fb_Box ?f)) w b"
    by (auto simp: elst_consistent[OF b] full_ser)
qed (simp add: elst_ok_def Let_def)

definition hdlr_ok :: "HdlrBox \<Rightarrow> bool" where
  "hdlr_ok b \<longleftrightarrow> (let f = hdlr_FullBox b in
     small_box (fb_Box f) \<and> version f = 0 \<and> flags24Bit f = 0 \<and> length (hdlr_Reserved b) = 3 \<and>
     uint (fb_Size f) = 32 + int (length (hdlr_Name b)))"

interpretation hdlr: box_codec HdlrBox_Serialize HdlrBox_Parse "\<lambda>b. fb_Box (hdlr_FullBox b)" hdlr_ok
proof
  fix b :: HdlrBox assume b: "hdlr_ok b"
  let ?f = "hdlr_FullBox b"
  note ok = b[unfolded hdlr_ok_def Let_def]
  let ?h = "u32be (hdlr_PreDefined b) @ u32be (handlerType b) @ concat (map u32be (hdlr_Reserved b))"
  have ser: "HdlrBox_Serialize b = FullBox_Serialize ?f @ ?h @ hdlr_Name b"
    by (simp add: HdlrBox_Serialize_def uint32Serialize_def)
  show "\<exists>w. HdlrBox_Serialize b = Box_Serialize (fb_Box ?f) @ w \<and> reads (HdlrBox_Parse (fb_Box ?f)) w b"
    unfolding ser HdlrBox_Parse_def FullBox_part Let_def
    by (intro exI conjI, rule refl, intro reads_full reads_buf_bind[of ?h] reads_make_last)
      (use ok in \<open>simp_all add: wf_flags_def field_simps reads_ret small_box_def word_le_def\<close>)
qed (simp add: hdlr_ok_def Let_def)

interpretation vmhd: box_codec VmhdBox_Serialize VmhdBox_Parse "\<lambda>b. fb_Box (vmhd_FullBox b)"
  "\<lambda>b. small_box (fb_Box (vmhd_FullBox b)) \<and> version (vmhd_FullBox b) = 0 \<and> flags24Bit (vmhd_FullBox b) = 1 \<and> length (TemplateOpcolor b) = 3"
proof
  fix b :: VmhdBox assume b: "small_box (fb_Box (vmhd_FullBox b)) \<and> version (vmhd_FullBox b) = 0 \<and> flags24Bit (vmhd_FullBox b) = 1 \<and> length (TemplateOpcolor b) = 3"
  show "\<exists>w. VmhdBox_Serialize b = Box_Serialize (fb_Box (vmhd_FullBox b)) @ w \<and> reads (VmhdBox_Parse (fb_Box (vmhd_FullBox b))) w b"
    unfolding VmhdBox_Serialize_def VmhdBox_Parse_def FullBox_part
    by (intro exI conjI, rule refl, intro reads_full reads_buf_last reads_ret) (use b in \<open>simp_all add: wf_flags_def field_simps\<close>)
qed simp

interpretation smhd: box_codec SmhdBox_Serialize SmhdBox_Parse "\<lambda>b. fb_Box (smhd_FullBox b)"
  "\<lambda>b. small_box (fb_Box (smhd_FullBox b)) \<and> version (smhd_FullBox b) = 0 \<and> wf_flags (smhd_FullBox b)"
proof
  fix b :: SmhdBox assume b: "small_box (fb_Box (smhd_FullBox b)) \<and> version (smhd_FullBox b) = 0 \<and> wf_flags (smhd_FullBox b)"
  show "\<exists>w. SmhdBox_Serialize b = Box_Serialize (fb_Box (smhd_FullBox b)) @ w \<and> reads (SmhdBox_Parse (fb_Box (smhd_FullBox b))) w b"
    unfolding SmhdBox_Serialize_def SmhdBox_Parse_def FullBox_part
    by (intro exI conjI, rule refl, intro reads_full reads_buf_last reads_ret) (use b in \<open>simp_all add: field_simps\<close>)
qed simp

interpretation trex: box_codec TrexBox_Serialize TrexBox_Parse "\<lambda>b. fb_Box (trex_FullBox b)"
  "\<lambda>b. small_box (fb_Box (trex_FullBox b)) \<and> version (trex_FullBox b) = 0 \<and> flags24Bit (trex_FullBox b) = 0"
proof
  fix b :: TrexBox assume b: "small_box (fb_Box (trex_FullBox b)) \<and> version (trex_FullBox b) = 0 \<and> flags24Bit (trex_FullBox b) = 0"
  show "\<exists>w. TrexBox_Serialize b = Box_Serialize (fb_Box (trex_FullBox b)) @ w \<and> reads (TrexBox_Parse (fb_Box (trex_FullBox b))) w b"
    unfolding TrexBox_Serialize_def TrexBox_Parse_def FullBox_part
    by (intro exI conjI, rule refl, intro reads_full reads_buf_last reads_ret) (use b in \<open>simp_all add: wf_flags_def field_simps\<close>)
qed simp

interpretation pasp: box_codec PaspBox_Serialize PaspBox_Parse pasp_Box "\<lambda>b. small_box (pasp_Box b)"
proof
  fix b :: PaspBox assume b: "small_box (pasp_Box b)"
  show "\<exists>w. PaspBox_Serialize b = Box_Serialize (pasp_Box b) @ w \<and> reads (PaspBox_Parse (pasp_Box b)) w b"
    unfolding PaspBox_Serialize_def PaspBox_Parse_def
    by (intro exI conjI, rule refl, intro reads_buf_last reads_ret) (simp_all add: field_simps)
qed

text \<open>A data entry without a location round trips; with one, the count is four bytes short.\<close>

interpretation url: box_codec UrlBox_Serialize UrlBox_Parse "\<lambda>b. fb_Box (url_FullBox b)"
  "\<lambda>b. small_box (fb_Box (url_FullBox b)) \<and> version (url_FullBox b) = 0 \<and> flags24Bit (url_FullBox b) = 1 \<and> url_Location b = []"
proof
  fix b :: UrlBox assume b: "small_box (fb_Box (url_FullBox b)) \<and> version (url_FullBox b) = 0 \<and> flags24Bit (url_FullBox b) = 1 \<and> url_Location b = []"
  have "reads (FullBox_Parse (fb_Box (url_FullBox b)) 0 (\<not> FULLBOX_ANY_VERSION) FULLBOX_ANY_FLAG)
      (u32be (push_bit 24 (ucast (version (url_FullBox b))) OR flags24Bit (url_FullBox b))) (url_FullBox b)"
    by (rule reads_FullBox) (use b in simp_all)
  then have "reads (UrlBox_Parse (fb_Box (url_FullBox b))) (u32be (push_bit 24 (ucast (version (url_FullBox b))) OR flags24Bit (url_FullBox b)) @ []) b"
    using b by (auto simp: reads_def UrlBox_Parse_def)
  then show "\<exists>w. UrlBox_Serialize b = Box_Serialize (fb_Box (url_FullBox b)) @ w \<and> reads (UrlBox_Parse (fb_Box (url_FullBox b))) w b"
    using b unfolding UrlBox_Serialize_def FullBox_part by auto
qed simp

lemma url_count_short:
  assumes "version (url_FullBox b) = 0" "flags24Bit (url_FullBox b) \<noteq> 1" "wf_flags (url_FullBox b)" "small_box (fb_Box (url_FullBox b))"
    and "uint (fb_Size (url_FullBox b)) = 12 + int (length (url_Location b))"
  shows "\<exists>w. UrlBox_Serialize b = Box_Serialize (fb_Box (url_FullBox b)) @ w \<and>
    UrlBox_Parse (fb_Box (url_FullBox b)) (w @ r) = Inr (b, length w - 4, r)"
proof -
  let ?f = "url_FullBox b" and ?h = "u32be (push_bit 24 (ucast (version (url_FullBox b))) OR flags24Bit (url_FullBox b))"
  have "reads (FullBox_Parse (fb_Box ?f) 0 (\<not> FULLBOX_ANY_VERSION) FULLBOX_ANY_FLAG) ?h ?f"
    by (rule reads_FullBox) (use assms in \<open>simp_all add: wf_flags_def\<close>)
  then have "FullBox_Parse (fb_Box ?f) 0 (\<not> FULLBOX_ANY_VERSION) FULLBOX_ANY_FLAG (?h @ url_Location b @ r) = Inr (?f, 4, url_Location b @ r)"
    using readsD by fastforce
  moreover have "rdMake (int (length (url_Location b))) (url_Location b @ r) = Inr (url_Location b, length (url_Location b), r)"
    by (rule readsD[OF reads_make]) (use assms(4,5) in \<open>simp_all add: small_box_def word_le_def\<close>)
  ultimately have "UrlBox_Parse (fb_Box ?f) ((?h @ url_Location b) @ r) = Inr (b, length (?h @ url_Location b) - 4, r)"
    using assms by (simp add: UrlBox_Parse_def)
  then show ?thesis unfolding UrlBox_Serialize_def FullBox_part by blast
qed

lemma reads_upto:
  assumes "\<forall>x \<in> set xs. length (enc x) = k \<and> g (enc x) = x" "0 < k" "length xs = n" "remain = int k * int (length xs)"
  shows "reads (rd_upto n remain k g) (concat (map enc xs)) (xs, 0)"
  using assms
proof (induction xs arbitrary: n remain)
  case (Cons x xs)
  then obtain m where m: "n = Suc m" "length xs = m" by auto
  have "reads (rd_upto m (remain - int k) k g) (concat (map enc xs)) (xs, 0)"
    by (rule Cons.IH) (use Cons.prems m in \<open>auto simp: algebra_simps\<close>)
  then have rec: "reads (bindR (rd_upto m (remain - int k) k g) (\<lambda>(xs, rem). retR (g (enc x) # xs, rem))) (concat (map enc xs)) (x # xs, 0)"
    by (rule reads_bind_last) (use Cons.prems in \<open>auto intro: reads_ret\<close>)
  have "0 < int k * int (length (x # xs))" using assms(2) by (simp add: algebra_simps add_pos_nonneg)
  then have "\<not> remain \<le> 0" using Cons.prems(4) by linarith
  then show ?case using rec Cons.prems(1) by (auto simp: m(1) intro!: reads_buf_bind)
qed (simp add: reads_ret)

lemma reads_table:
  assumes "\<forall>x \<in> set xs. length (enc x) = k \<and> g (enc x) = x" "0 < k" "unat count = length xs" "uint (Size b) = 16 + int k * int (length xs)"
  shows "reads (rd_table b k g msg) (u32be count @ concat (map enc xs)) (count, xs)"
proof -
  have "reads (rd_upto (unat count) (uint (Size b) - 12 - 4) k g) (concat (map enc xs)) (xs, 0)"
    by (rule reads_upto) (use assms in simp_all)
  then show ?thesis unfolding rd_table_def Let_def
    by (intro reads_buf_bind) (auto simp: field_simps intro!: reads_bind_last reads_ret)
qed

lemma concat_map_u32: "uint32Serialize (concat (map h es)) = concat (map (\<lambda>e. uint32Serialize (h e)) es)"
  by (rule uint32Serialize_concat)

definition table_ok :: "FullBox \<Rightarrow> nat \<Rightarrow> u32 \<Rightarrow> 'a list \<Rightarrow> bool" where
  "table_ok f k count es \<longleftrightarrow> small_box (fb_Box f) \<and> version f = 0 \<and> flags24Bit f = 0 \<and> unat count = length es \<and>
     uint (fb_Size f) = 16 + int k * int (length es)"

interpretation stts: box_codec SttsBox_Serialize SttsBox_Parse "\<lambda>b. fb_Box (stts_FullBox b)"
  "\<lambda>b. table_ok (stts_FullBox b) 8 (stts_EntryCount b) (stts_Entries b)"
proof
  fix b :: SttsBox assume b: "table_ok (stts_FullBox b) 8 (stts_EntryCount b) (stts_Entries b)"
  note ok = b[unfolded table_ok_def]
  show "\<exists>w. SttsBox_Serialize b = Box_Serialize (fb_Box (stts_FullBox b)) @ w \<and> reads (SttsBox_Parse (fb_Box (stts_FullBox b))) w b"
    unfolding SttsBox_Serialize_def SttsBox_Parse_def FullBox_part uint32Serialize_simps concat_map_u32
    by (intro exI conjI, rule refl, intro reads_full reads_bind_last[OF reads_table])
      (use ok in \<open>auto simp: wf_flags_def field_simps intro!: reads_ret\<close>)
qed (simp add: table_ok_def)

interpretation stsc: box_codec StscBox_Serialize StscBox_Parse "\<lambda>b. fb_Box (stsc_FullBox b)"
  "\<lambda>b. table_ok (stsc_FullBox b) 12 (stsc_EntryCount b) (stsc_Entries b)"
proof
  fix b :: StscBox assume b: "table_ok (stsc_FullBox b) 12 (stsc_EntryCount b) (stsc_Entries b)"
  note ok = b[unfolded table_ok_def]
  show "\<exists>w. StscBox_Serialize b = Box_Serialize (fb_Box (stsc_FullBox b)) @ w \<and> reads (StscBox_Parse (fb_Box (stsc_FullBox b))) w b"
    unfolding StscBox_Serialize_def StscBox_Parse_def FullBox_part uint32Serialize_simps concat_map_u32
    by (intro exI conjI, rule refl, intro reads_full reads_bind_last[OF reads_table])
      (use ok in \<open>auto simp: wf_flags_def field_simps intro!: reads_ret\<close>)
qed (simp add: table_ok_def)

interpretation stco: box_codec StcoBox_Serialize StcoBox_Parse "\<lambda>b. fb_Box (stco_FullBox b)"
  "\<lambda>b. table_ok (stco_FullBox b) 4 (stco_EntryCount b) (ChunkOffset b)"
proof
  fix b :: StcoBox assume b: "table_ok (stco_FullBox b) 4 (stco_EntryCount b) (ChunkOffset b)"
  note ok = b[unfolded table_ok_def]
  show "\<exists>w. StcoBox_Serialize b = Box_Serialize (fb_Box (stco_FullBox b)) @ w \<and> reads (StcoBox_Parse (fb_Box (stco_FullBox b))) w b"
    unfolding StcoBox_Serialize_def StcoBox_Parse_def FullBox_part uint32Serialize_def list.map concat.simps
    by (intro exI conjI, rule refl, intro reads_full reads_bind_last[OF reads_table])
      (use ok in \<open>auto simp: wf_flags_def field_simps intro!: reads_ret\<close>)
qed (simp add: table_ok_def)

definition stsz_ok :: "StszBox \<Rightarrow> bool" where
  "stsz_ok b \<longleftrightarrow> (let f = stsz_FullBox b in
     small_box (fb_Box f) \<and> version f = 0 \<and> flags24Bit f = 0 \<and>
     (if stsz_SampleSize b = 0 then unat (stsz_SampleCount b) = length (EnriesSize b) else EnriesSize b = []))"

interpretation stsz: box_codec StszBox_Serialize StszBox_Parse "\<lambda>b. fb_Box (stsz_FullBox b)" stsz_ok
proof
  fix b :: StszBox assume b: "stsz_ok b"
  let ?f = "stsz_FullBox b" and ?z = "stsz_SampleSize b = 0"
  note ok = b[unfolded stsz_ok_def Let_def]
  have es: "reads (if ?z then rd_times (unat (stsz_SampleCount b)) (bindR (rdBuf 4) (\<lambda>buf. retR (at32 buf 0))) else retR [])
      (concat (map u32be (if ?z then EnriesSize b else []))) (EnriesSize b)"
    using ok by (auto intro!: reads_times reads_buf_last reads_ret simp: field_simps)
  have ser: "StszBox_Serialize b = FullBox_Serialize ?f @ (u32be (stsz_SampleSize b) @ u32be (stsz_SampleCount b)) @
      concat (map u32be (if ?z then EnriesSize b else []))"
    by (simp add: StszBox_Serialize_def uint32Serialize_def)
  have at: "at32 (u32be v @ u32be w) 0 = v" "at32 (u32be v @ u32be w) 4 = w" for v w by (simp_all add: field_simps)
  show "\<exists>w. StszBox_Serialize b = Box_Serialize (fb_Box ?f) @ w \<and> reads (StszBox_Parse (fb_Box ?f)) w b"
    unfolding ser StszBox_Parse_def FullBox_part Let_def
  proof (intro exI conjI, rule refl, intro reads_full reads_buf_bind, goal_cases)
    case 5
    show ?case unfolding at by (rule reads_bind_last[OF es]) (simp add: reads_ret)
  qed (use ok in \<open>simp_all add: wf_flags_def\<close>)
qed (simp add: stsz_ok_def Let_def)

lemma reads_SampleEntry:
  "length (se_Reserved e) = 6 \<Longrightarrow> reads SampleEntry_parse (SampleEntry_serialize e) e"
  unfolding SampleEntry_parse_def SampleEntry_serialize_def
  by (intro reads_buf_last reads_ret) (simp_all add: field_simps)

definition vse_ok :: "VisualSampleEntry \<Rightarrow> bool" where
  "vse_ok e \<longleftrightarrow> length (se_Reserved (vse_SampleEntry e)) = 6 \<and> length (PreDefined2 e) = 3 \<and> length (CompressorName e) = 32"

lemma reads_VisualSampleEntry: "vse_ok e \<Longrightarrow> reads VisualSampleEntry_parse (VisualSampleEntry_serialize e) e"
  unfolding VisualSampleEntry_parse_def VisualSampleEntry_serialize_def
  by (intro reads_bind[OF reads_SampleEntry] reads_buf_last reads_ret) (simp_all add: vse_ok_def field_simps)

definition ase_ok :: "AudioSampleEntry \<Rightarrow> bool" where
  "ase_ok e \<longleftrightarrow> length (se_Reserved (ase_SampleEntry e)) = 6 \<and> length (ase_Reserved1 e) = 2"

lemma u32_pair: "u32be (push_bit 16 (ucast (a :: u16)) OR ucast (b :: u16)) = u16be a @ u16be b"
proof -
  have high: "\<not> bit b (16 + k)" "\<not> bit b (24 + k)" for k
    using bit_imp_le_length[of b "16 + k"] bit_imp_le_length[of b "24 + k"] by auto
  show ?thesis
    unfolding u32be_def u16be_def by (auto intro!: bit_word_eqI simp: bit_simps high)
qed

lemma reads_AudioSampleEntry: "ase_ok e \<Longrightarrow> reads AudioSampleEntry_parse (AudioSampleEntry_serialize e) e"
proof -
  assume e: "ase_ok e"
  have ser: "AudioSampleEntry_serialize e = SampleEntry_serialize (ase_SampleEntry e) @ concat (map u32be (ase_Reserved1 e)) @
      u16be (TemplateChannelCount e) @ u16be (TemplateSampleSize e) @ u16be (ase_PreDefined e) @ u16be (ase_Reserved2 e) @ u32be (TemplateSampleRate e)"
    by (simp add: AudioSampleEntry_serialize_def uint32Serialize_def u32_pair)
  show ?thesis unfolding AudioSampleEntry_parse_def ser
    by (intro reads_bind[OF reads_SampleEntry] reads_buf_last reads_ret) (use e in \<open>simp_all add: ase_ok_def field_simps\<close>)
qed

end
