(* ===== verification/Mp4_Config.thy ===== *)
theory Mp4_Config
  imports Mp4_Movie
begin

text \<open>
  The decoder configuration records inside the sample entries: \<open>container/mp4/decoderConfig.go\<close>, and the
  boxes avcC and hvcC of \<open>moovBox.go\<close> that hold them.  The four NALU types of the source have the
  same two fields and are one record.  A \<open>Serialize\<close> that fails is its error; what it has written
  before that is not kept, for no caller goes on after it.
\<close>

section \<open>AVC\<close>

record HevcConfigNalu =
  NaluLength :: u16
  Nalu :: bytes

record AVCDecoderConfigurationRecord =
  avc_ConfigurationVersion :: byte
  AVCProfileIndication :: byte
  ProfileCompatibility :: byte
  AVCLevelIndication :: byte
  Reserved6Bit1 :: byte
  avc_LengthSizeMinusOne2Bit :: byte
  Reserved3Bit2 :: byte
  NumOfSequenceParameterSets5Bit :: byte
  Sps :: "HevcConfigNalu list"
  NumOfPictureParameterSets :: byte
  Pps :: "HevcConfigNalu list"
  Reserved6Bit3 :: byte
  ChromaFormat :: byte
  Reserved5Bit4 :: byte
  avc_BitDepthLumaMinus83Bit :: byte
  Reserved5Bit5 :: byte
  avc_BitDepthChromaMinus83Bit :: byte
  NumOfSequenceParameterSetExt :: byte
  SpsExt :: "HevcConfigNalu list"

definition rd_nalu :: "HevcConfigNalu rd" where
  "rd_nalu = bindR (rdBuf 2) (\<lambda>buf. bindR (rdBuf (unat (at16 buf 0))) (\<lambda>d. retR \<lparr>NaluLength = at16 buf 0, Nalu = d\<rparr>))"

definition nalu_bytes :: "HevcConfigNalu \<Rightarrow> bytes" where
  "nalu_bytes n = u16be (NaluLength n) @ Nalu n"

definition avc_high :: "byte \<Rightarrow> bool" where
  "avc_high level \<longleftrightarrow> level = 100 \<or> level = 110 \<or> level = 122 \<or> level = 144"

text \<open>The loop over the PPS runs to the number of SPS.\<close>

definition pps_bytes :: "HevcConfigNalu list \<Rightarrow> nat \<Rightarrow> bytes res" where
  "pps_bytes pps n = (if length pps < n then Inl index_panic else Inr (concat (map nalu_bytes (take n pps))))"

definition AVCDecoderConfigurationRecord_Serialize :: "AVCDecoderConfigurationRecord \<Rightarrow> bytes res" where
  "AVCDecoderConfigurationRecord_Serialize c =
     bindE (pps_bytes (Pps c) (length (Sps c))) (\<lambda>pps.
     Inr ([avc_ConfigurationVersion c, AVCProfileIndication c, ProfileCompatibility c, AVCLevelIndication c,
           push_bit 2 (Reserved6Bit1 c) OR avc_LengthSizeMinusOne2Bit c,
           push_bit 5 (Reserved3Bit2 c) OR NumOfSequenceParameterSets5Bit c] @
          concat (map nalu_bytes (Sps c)) @ [NumOfPictureParameterSets c] @ pps @
          (if avc_high (AVCLevelIndication c)
           then [push_bit 2 (Reserved6Bit3 c) OR ChromaFormat c, Reserved5Bit4 c OR avc_BitDepthLumaMinus83Bit c,
                 Reserved5Bit5 c OR avc_BitDepthChromaMinus83Bit c, NumOfSequenceParameterSetExt c] @
                concat (map nalu_bytes (SpsExt c))
           else [])))"

definition avc_ext_parse :: "AVCDecoderConfigurationRecord \<Rightarrow> AVCDecoderConfigurationRecord rd" where
  "avc_ext_parse c =
     bindR (rdBuf 4) (\<lambda>buf.
     if buf ! 0 AND 0xFC \<noteq> 0xFC then failR (Errorf ''resver1 :%d'')
     else if buf ! 1 AND 0x1F \<noteq> 0x1F then failR (Errorf ''reserved:%d'')
     else if buf ! 2 AND 0x1F \<noteq> 0x1F then failR (Errorf ''reserved:%d'')
     else bindR (rd_times (unat (buf ! 3)) rd_nalu) (\<lambda>ext.
       retR (c\<lparr>Reserved6Bit3 := 0x3F, ChromaFormat := buf ! 0 AND 0x03,
               avc_BitDepthLumaMinus83Bit := drop_bit 5 (buf ! 1 AND 0xC0), Reserved5Bit4 := 0x1F,
               avc_BitDepthChromaMinus83Bit := drop_bit 5 (buf ! 2 AND 0xC0), Reserved5Bit5 := 0x1F,
               NumOfSequenceParameterSetExt := buf ! 3, SpsExt := ext\<rparr>)))"

definition avc_record :: "bytes \<Rightarrow> HevcConfigNalu list \<Rightarrow> byte \<Rightarrow> HevcConfigNalu list \<Rightarrow> AVCDecoderConfigurationRecord" where
  "avc_record buf sps npps pps =
     \<lparr>avc_ConfigurationVersion = 1, AVCProfileIndication = buf ! 1, ProfileCompatibility = buf ! 2,
      AVCLevelIndication = buf ! 3, Reserved6Bit1 = 0x3F, avc_LengthSizeMinusOne2Bit = buf ! 4 AND 0x03,
      Reserved3Bit2 = 7, NumOfSequenceParameterSets5Bit = buf ! 5 AND 0x1F, Sps = sps,
      NumOfPictureParameterSets = npps, Pps = pps, Reserved6Bit3 = 0, ChromaFormat = 0,
      Reserved5Bit4 = 0, avc_BitDepthLumaMinus83Bit = 0, Reserved5Bit5 = 0,
      avc_BitDepthChromaMinus83Bit = 0, NumOfSequenceParameterSetExt = 0, SpsExt = []\<rparr>"

definition avc_sets_parse :: "bytes \<Rightarrow> AVCDecoderConfigurationRecord rd" where
  "avc_sets_parse buf =
     bindR (rd_times (unat (buf ! 5 AND 0x1F)) rd_nalu) (\<lambda>sps.
     bindR (rdBuf 1) (\<lambda>nbuf.
     bindR (rd_times (unat (nbuf ! 0)) rd_nalu) (\<lambda>pps.
     if avc_high (buf ! 3) then avc_ext_parse (avc_record buf sps (nbuf ! 0) pps)
     else retR (avc_record buf sps (nbuf ! 0) pps))))"

definition AVCDecoderConfigurationRecord_Parse :: "AVCDecoderConfigurationRecord rd" where
  "AVCDecoderConfigurationRecord_Parse =
     bindR (rdBuf 6) (\<lambda>buf.
     if buf ! 0 \<noteq> 1 then failR (Errorf ''ConfigurationVersion:%d'')
     else if buf ! 4 AND 0xFC \<noteq> 0xFC then failR (Errorf ''resver1 :%d'')
     else if drop_bit 5 (buf ! 5 AND 0xE0) \<noteq> 7 then failR (Errorf ''reserve2 :%d'')
     else avc_sets_parse buf)"

section \<open>HEVC\<close>

record HevcArrayItem =
  ArrayCompleteness1Bit :: byte
  Reserved1Bit :: byte
  NalType6Bit :: byte
  NumNalus :: u16
  Nalus :: "HevcConfigNalu list"

record HevcDecoderConfigurationRecord =
  hevc_ConfigurationVersion :: byte
  GeneralProfileSpace2Bit :: byte
  GeneralTierGlag1Bit :: byte
  GeneralProfileIdc5Bit :: byte
  GeneralProfileCompatibilityFlags :: u32
  GeneralConstraintIndicatorFlags48Bit :: u64
  GeneralLevelIdc :: byte
  Reserve4Bit1 :: byte
  MinSpatialSegmentationIdc12Bit :: u16
  Reserve6Bit2 :: byte
  ParallelismType2Bit :: byte
  Reserve6Bit3 :: byte
  ChromaFormat2Bit :: byte
  Reserve5Bit4 :: byte
  BitDepthLumaMinus83Bit :: byte
  Reserve5Bit5 :: byte
  BitDepthChromaMinus83Bit :: byte
  AvgFrameRate :: u16
  ConstantFrameRate2Bit :: byte
  NumTemporalLayers3Bit :: byte
  TemporalIdNested1Bit :: byte
  LengthSizeMinusOne2Bit :: byte
  NumOfArrays :: byte
  Items :: "HevcArrayItem list"

definition HevcArrayItem_parse :: "HevcArrayItem rd" where
  "HevcArrayItem_parse =
     bindR (rdBuf 3) (\<lambda>buf.
     bindR (rd_times (unat (at16 buf 1)) rd_nalu) (\<lambda>ns.
     retR \<lparr>ArrayCompleteness1Bit = drop_bit 7 (buf ! 0 AND 0x80), Reserved1Bit = drop_bit 6 (buf ! 0 AND 0x40),
           NalType6Bit = buf ! 0 AND 0x3F, NumNalus = at16 buf 1, Nalus = ns\<rparr>))"

definition at48 :: "bytes \<Rightarrow> nat \<Rightarrow> u64" where
  "at48 b i = (case U48BE (subslice i (i + 6) b) of Inr v \<Rightarrow> v | Inl e \<Rightarrow> 0)"

text \<open>The last of the reserved fields that is not all ones sets the error, and the checks go on.\<close>

definition hevc_reserved_error :: "bytes \<Rightarrow> go_error option" where
  "hevc_reserved_error buf =
     (if buf ! 18 AND 0xF8 \<noteq> 0xF8 \<or> buf ! 17 AND 0xF8 \<noteq> 0xF8 then Some (Errorf ''reserved 5bit:%d'')
      else if buf ! 16 AND 0xFC \<noteq> 0xFC \<or> buf ! 15 AND 0xFC \<noteq> 0xFC then Some (Errorf ''reserved 6bit:%d'')
      else if buf ! 13 AND 0xF0 \<noteq> 0xF0 then Some (Errorf ''reserved 4bit:%d'')
      else None)"

definition hevc_record :: "bytes \<Rightarrow> HevcArrayItem list \<Rightarrow> HevcDecoderConfigurationRecord" where
  "hevc_record buf items =
     \<lparr>hevc_ConfigurationVersion = 1, GeneralProfileSpace2Bit = drop_bit 6 (buf ! 1 AND 0xC0),
      GeneralTierGlag1Bit = drop_bit 5 (buf ! 1 AND 0x20), GeneralProfileIdc5Bit = buf ! 1 AND 0x1F,
      GeneralProfileCompatibilityFlags = at32 buf 2, GeneralConstraintIndicatorFlags48Bit = at48 buf 6,
      GeneralLevelIdc = buf ! 12, Reserve4Bit1 = 0x0F,
      MinSpatialSegmentationIdc12Bit = ucast (buf ! 13 AND 0x0F) * 256 + ucast (buf ! 14),
      Reserve6Bit2 = 0x3F, ParallelismType2Bit = buf ! 15 AND 0x03,
      Reserve6Bit3 = 0x3F, ChromaFormat2Bit = buf ! 16 AND 0x03,
      Reserve5Bit4 = 0x1F, BitDepthLumaMinus83Bit = buf ! 17 AND 0x07,
      Reserve5Bit5 = 0x1F, BitDepthChromaMinus83Bit = buf ! 18 AND 0x07,
      AvgFrameRate = at16 buf 19, ConstantFrameRate2Bit = drop_bit 6 (buf ! 21 AND 0xC0),
      NumTemporalLayers3Bit = drop_bit 3 (buf ! 21 AND 0x38), TemporalIdNested1Bit = drop_bit 2 (buf ! 21 AND 0x04),
      LengthSizeMinusOne2Bit = buf ! 21 AND 0x03, NumOfArrays = buf ! 22, Items = items\<rparr>"

text \<open>That error is returned when there is no array, and overwritten by the first array otherwise.\<close>

definition HevcDecoderConfigurationRecord_Parse :: "HevcDecoderConfigurationRecord rd" where
  "HevcDecoderConfigurationRecord_Parse =
     bindR (rdBuf 23) (\<lambda>buf.
     if buf ! 0 \<noteq> 1 then failR (Errorf ''ConfigurationVersion:%d'')
     else bindR (rd_times (unat (buf ! 22)) HevcArrayItem_parse) (\<lambda>items.
       case (if buf ! 22 = 0 then hevc_reserved_error buf else None) of
         Some e \<Rightarrow> failR e
       | None \<Rightarrow> retR (hevc_record buf items)))"

definition hevc_item_bytes :: "HevcArrayItem \<Rightarrow> bytes res" where
  "hevc_item_bytes it =
     failIf (unat (NumNalus it) \<noteq> length (Nalus it)) (Errorf ''not consistent nalu:%d %d'')
     (Inr ((push_bit 7 (ArrayCompleteness1Bit it) OR push_bit 6 (Reserved1Bit it) OR NalType6Bit it) #
        u16be (NumNalus it) @ concat (map nalu_bytes (Nalus it))))"

fun hevc_items_bytes :: "HevcArrayItem list \<Rightarrow> bytes res" where
  "hevc_items_bytes [] = Inr []"
| "hevc_items_bytes (it # its) =
     bindE (hevc_item_bytes it) (\<lambda>w. bindE (hevc_items_bytes its) (\<lambda>v. Inr (w @ v)))"

definition hevc_head_bytes :: "HevcDecoderConfigurationRecord \<Rightarrow> bytes" where
  "hevc_head_bytes c =
     [hevc_ConfigurationVersion c,
      push_bit 6 (GeneralProfileSpace2Bit c) OR push_bit 5 (GeneralTierGlag1Bit c) OR GeneralProfileIdc5Bit c] @
     u32be (GeneralProfileCompatibilityFlags c) @ u48be (GeneralConstraintIndicatorFlags48Bit c) @
     [GeneralLevelIdc c,
      push_bit 4 (Reserve4Bit1 c) OR ucast (drop_bit 8 (MinSpatialSegmentationIdc12Bit c)),
      ucast (MinSpatialSegmentationIdc12Bit c),
      push_bit 2 (Reserve6Bit2 c) OR ParallelismType2Bit c,
      push_bit 2 (Reserve6Bit3 c) OR ChromaFormat2Bit c,
      push_bit 3 (Reserve5Bit4 c) OR BitDepthLumaMinus83Bit c,
      push_bit 3 (Reserve5Bit5 c) OR BitDepthChromaMinus83Bit c] @
     u16be (AvgFrameRate c) @
     [push_bit 6 (ConstantFrameRate2Bit c) OR push_bit 3 (NumTemporalLayers3Bit c) OR
        push_bit 2 (TemporalIdNested1Bit c) OR LengthSizeMinusOne2Bit c,
      NumOfArrays c]"

definition HevcDecoderConfigurationRecord_Serialize :: "HevcDecoderConfigurationRecord \<Rightarrow> bytes res" where
  "HevcDecoderConfigurationRecord_Serialize c =
     failIf (unat (NumOfArrays c) \<noteq> length (Items c)) (Errorf ''not consistent item:%d %d'')
     (bindE (hevc_items_bytes (Items c)) (\<lambda>w. Inr (hevc_head_bytes c @ w)))"

section \<open>The configuration boxes\<close>

record AVCCConfigurationBox =
  avcC_Box :: Box
  AVCConfig :: AVCDecoderConfigurationRecord

record HVCCConfigurationBox =
  hvcC_Box :: Box
  HEVCConfig :: HevcDecoderConfigurationRecord

definition AVCCConfigurationBox_Parse :: "Box \<Rightarrow> AVCCConfigurationBox rd" where
  "AVCCConfigurationBox_Parse b = bindR AVCDecoderConfigurationRecord_Parse (\<lambda>c. retR \<lparr>avcC_Box = b, AVCConfig = c\<rparr>)"

definition AVCCConfigurationBox_Serialize :: "AVCCConfigurationBox \<Rightarrow> bytes res" where
  "AVCCConfigurationBox_Serialize b =
     bindE (AVCDecoderConfigurationRecord_Serialize (AVCConfig b)) (\<lambda>w. Inr (Box_Serialize (avcC_Box b) @ w))"

definition HVCCConfigurationBox_Parse :: "Box \<Rightarrow> HVCCConfigurationBox rd" where
  "HVCCConfigurationBox_Parse b = bindR HevcDecoderConfigurationRecord_Parse (\<lambda>c. retR \<lparr>hvcC_Box = b, HEVCConfig = c\<rparr>)"

definition HVCCConfigurationBox_Serialize :: "HVCCConfigurationBox \<Rightarrow> bytes res" where
  "HVCCConfigurationBox_Serialize b =
     bindE (HevcDecoderConfigurationRecord_Serialize (HEVCConfig b)) (\<lambda>w. Inr (Box_Serialize (hvcC_Box b) @ w))"

section \<open>Fields that share a byte\<close>

lemma byte_below: "x < of_nat n \<Longrightarrow> n < 256 \<Longrightarrow> x \<in> set (map of_nat [0..<n])" for x :: byte
proof -
  assume x: "x < of_nat n" "n < 256"
  then have "unat x < n" by (simp add: word_less_nat_alt unat_of_nat take_bit_eq_mod)
  then show "x \<in> set (map of_nat [0..<n])" by (auto intro!: image_eqI[of _ _ "unat x"])
qed

lemma reserved6:
  assumes "x < 4"
  shows "(push_bit 2 0x3F OR x) AND 0xFC = (0xFC :: byte)" and "(push_bit 2 0x3F OR x) AND 0x03 = x"
proof -
  have "\<forall>x \<in> set (map of_nat [0..<4]). (push_bit 2 0x3F OR x) AND 0xFC = (0xFC :: byte) \<and> (push_bit 2 0x3F OR x) AND 0x03 = x"
    by code_simp
  then show "(push_bit 2 0x3F OR x) AND 0xFC = (0xFC :: byte)" "(push_bit 2 0x3F OR x) AND 0x03 = x"
    using byte_below[of x 4] assms by auto
qed

lemma reserved5:
  assumes "x < 8"
  shows "(push_bit 3 0x1F OR x) AND 0xF8 = (0xF8 :: byte)" and "(push_bit 3 0x1F OR x) AND 0x07 = x"
    and "(0x1F OR x) AND 0x1F = (0x1F :: byte)" and "drop_bit 5 ((0x1F OR x) AND 0xC0) = 0"
proof -
  have "\<forall>x \<in> set (map of_nat [0..<8]). (push_bit 3 0x1F OR x) AND 0xF8 = (0xF8 :: byte) \<and> (push_bit 3 0x1F OR x) AND 0x07 = x \<and>
      (0x1F OR x) AND 0x1F = (0x1F :: byte) \<and> drop_bit 5 ((0x1F OR x) AND 0xC0) = 0"
    by code_simp
  then show "(push_bit 3 0x1F OR x) AND 0xF8 = (0xF8 :: byte)" "(push_bit 3 0x1F OR x) AND 0x07 = x"
    "(0x1F OR x) AND 0x1F = (0x1F :: byte)" "drop_bit 5 ((0x1F OR x) AND 0xC0) = 0"
    using byte_below[of x 8] assms by auto
qed

lemma reserved3:
  assumes "x < 32"
  shows "drop_bit 5 ((push_bit 5 7 OR x) AND 0xE0) = (7 :: byte)" and "(push_bit 5 7 OR x) AND 0x1F = x"
proof -
  have "\<forall>x \<in> set (map of_nat [0..<32]). drop_bit 5 ((push_bit 5 7 OR x) AND 0xE0) = (7 :: byte) \<and> (push_bit 5 7 OR x) AND 0x1F = x"
    by code_simp
  then show "drop_bit 5 ((push_bit 5 7 OR x) AND 0xE0) = (7 :: byte)" "(push_bit 5 7 OR x) AND 0x1F = x"
    using byte_below[of x 32] assms by auto
qed

lemma reserved4:
  assumes "x < 16"
  shows "(push_bit 4 0x0F OR x) AND 0xF0 = (0xF0 :: byte)" and "(push_bit 4 0x0F OR x) AND 0x0F = x"
proof -
  have "\<forall>x \<in> set (map of_nat [0..<16]). (push_bit 4 0x0F OR x) AND 0xF0 = (0xF0 :: byte) \<and> (push_bit 4 0x0F OR x) AND 0x0F = x"
    by code_simp
  then show "(push_bit 4 0x0F OR x) AND 0xF0 = (0xF0 :: byte)" "(push_bit 4 0x0F OR x) AND 0x0F = x"
    using byte_below[of x 16] assms by auto
qed

text \<open>A byte of up to four fields, each within its bits.\<close>

lemma joined_bits:
  fixes a b c :: byte
  assumes "a < 4" "b < 2" "c < 32"
  shows "drop_bit 6 ((push_bit 6 a OR push_bit 5 b OR c) AND 0xC0) = a"
    and "drop_bit 5 ((push_bit 6 a OR push_bit 5 b OR c) AND 0x20) = b"
    and "(push_bit 6 a OR push_bit 5 b OR c) AND 0x1F = c"
proof -
  have "\<forall>a \<in> set (map of_nat [0..<4]). \<forall>b \<in> set (map of_nat [0..<2]). \<forall>c \<in> set (map of_nat [0..<32]).
      drop_bit 6 ((push_bit 6 a OR push_bit 5 b OR c) AND 0xC0) = (a :: byte) \<and>
      drop_bit 5 ((push_bit 6 a OR push_bit 5 b OR c) AND 0x20) = b \<and> (push_bit 6 a OR push_bit 5 b OR c) AND 0x1F = c"
    by code_simp
  then show "drop_bit 6 ((push_bit 6 a OR push_bit 5 b OR c) AND 0xC0) = a"
    "drop_bit 5 ((push_bit 6 a OR push_bit 5 b OR c) AND 0x20) = b" "(push_bit 6 a OR push_bit 5 b OR c) AND 0x1F = c"
    using byte_below[of a 4] byte_below[of b 2] byte_below[of c 32] assms by auto
qed

lemma joined_bits4:
  fixes a b c d :: byte
  assumes "a < 4" "b < 8" "c < 2" "d < 4"
  defines "v \<equiv> push_bit 6 a OR push_bit 3 b OR push_bit 2 c OR d"
  shows "drop_bit 6 (v AND 0xC0) = a" and "drop_bit 3 (v AND 0x38) = b" and "drop_bit 2 (v AND 0x04) = c" and "v AND 0x03 = d"
proof -
  have "\<forall>a \<in> set (map of_nat [0..<4]). \<forall>b \<in> set (map of_nat [0..<8]). \<forall>c \<in> set (map of_nat [0..<2]). \<forall>d \<in> set (map of_nat [0..<4]).
      let v = push_bit 6 a OR push_bit 3 b OR push_bit 2 c OR d :: byte in
      drop_bit 6 (v AND 0xC0) = a \<and> drop_bit 3 (v AND 0x38) = b \<and> drop_bit 2 (v AND 0x04) = c \<and> v AND 0x03 = d"
    by code_simp
  then show "drop_bit 6 (v AND 0xC0) = a" "drop_bit 3 (v AND 0x38) = b" "drop_bit 2 (v AND 0x04) = c" "v AND 0x03 = d"
    unfolding v_def using byte_below[of a 4] byte_below[of b 8] byte_below[of c 2] byte_below[of d 4] assms(1-4) by (auto simp: Let_def)
qed

lemma item_bits:
  fixes a b c :: byte
  assumes "a < 2" "b < 2" "c < 64"
  defines "v \<equiv> push_bit 7 a OR push_bit 6 b OR c"
  shows "drop_bit 7 (v AND 0x80) = a" and "drop_bit 6 (v AND 0x40) = b" and "v AND 0x3F = c"
proof -
  have "\<forall>a \<in> set (map of_nat [0..<2]). \<forall>b \<in> set (map of_nat [0..<2]). \<forall>c \<in> set (map of_nat [0..<64]).
      let v = push_bit 7 a OR push_bit 6 b OR c :: byte in drop_bit 7 (v AND 0x80) = a \<and> drop_bit 6 (v AND 0x40) = b \<and> v AND 0x3F = c"
    by code_simp
  then show "drop_bit 7 (v AND 0x80) = a" "drop_bit 6 (v AND 0x40) = b" "v AND 0x3F = c"
    unfolding v_def using byte_below[of a 2] byte_below[of b 2] byte_below[of c 64] assms(1-3) by (auto simp: Let_def)
qed

lemma split16: "ucast (ucast (drop_bit 8 v) :: byte) * 256 + ucast (ucast v :: byte) = (v :: u16)"
proof (rule word_unat_eq_iff[THEN iffD2])
  have l: "unat v < 65536" by (rule order.strict_trans2[OF unsigned_less]) simp
  then have "unat v div 256 * 256 + unat v mod 256 < 65536" by simp
  moreover have "unat v div 256 < 256" using l by (simp add: less_mult_imp_div_less)
  ultimately show "unat (ucast (ucast (drop_bit 8 v) :: byte) * 256 + ucast (ucast v :: byte) :: u16) = unat v"
    by (simp add: unat_word_ariths unsigned_ucast_eq unsigned_take_bit_eq take_bit_eq_mod unat_drop_bit_eq drop_bit_eq_div)
qed

section \<open>Reading configurations back\<close>

definition nalu_ok :: "HevcConfigNalu \<Rightarrow> bool" where
  "nalu_ok n \<longleftrightarrow> unat (NaluLength n) = length (Nalu n)"

lemma reads_nalu: "nalu_ok n \<Longrightarrow> reads rd_nalu (nalu_bytes n) n"
  unfolding rd_nalu_def nalu_bytes_def
  by (intro reads_buf_bind reads_buf_last reads_ret) (simp_all add: nalu_ok_def field_simps)

lemma reads_nalus: "\<forall>n \<in> set ns. nalu_ok n \<Longrightarrow> length ns = k \<Longrightarrow> reads (rd_times k rd_nalu) (concat (map nalu_bytes ns)) ns"
  by (intro reads_times) (auto intro: reads_nalu)

definition avc_ok :: "AVCDecoderConfigurationRecord \<Rightarrow> bool" where
  "avc_ok c \<longleftrightarrow> avc_ConfigurationVersion c = 1 \<and> Reserved6Bit1 c = 0x3F \<and> avc_LengthSizeMinusOne2Bit c < 4 \<and>
     Reserved3Bit2 c = 7 \<and> NumOfSequenceParameterSets5Bit c < 32 \<and>
     unat (NumOfSequenceParameterSets5Bit c) = length (Sps c) \<and> unat (NumOfPictureParameterSets c) = length (Pps c) \<and>
     (\<forall>n \<in> set (Sps c) \<union> set (Pps c) \<union> set (SpsExt c). nalu_ok n) \<and>
     (if avc_high (AVCLevelIndication c)
      then Reserved6Bit3 c = 0x3F \<and> ChromaFormat c < 4 \<and> Reserved5Bit4 c = 0x1F \<and> Reserved5Bit5 c = 0x1F \<and>
        avc_BitDepthLumaMinus83Bit c < 8 \<and> avc_BitDepthChromaMinus83Bit c < 8 \<and>
        unat (NumOfSequenceParameterSetExt c) = length (SpsExt c)
      else Reserved6Bit3 c = 0 \<and> ChromaFormat c = 0 \<and> Reserved5Bit4 c = 0 \<and> Reserved5Bit5 c = 0 \<and>
        avc_BitDepthLumaMinus83Bit c = 0 \<and> avc_BitDepthChromaMinus83Bit c = 0 \<and>
        NumOfSequenceParameterSetExt c = 0 \<and> SpsExt c = [])"

definition no_depth :: "AVCDecoderConfigurationRecord \<Rightarrow> AVCDecoderConfigurationRecord" where
  "no_depth c = c\<lparr>avc_BitDepthLumaMinus83Bit := 0, avc_BitDepthChromaMinus83Bit := 0\<rparr>"

lemma reads_avc_ext:
  assumes "ChromaFormat c < 4" "avc_BitDepthLumaMinus83Bit c < 8" "avc_BitDepthChromaMinus83Bit c < 8"
    and "Reserved6Bit3 c = 0x3F" "Reserved5Bit4 c = 0x1F" "Reserved5Bit5 c = 0x1F"
    and "unat (NumOfSequenceParameterSetExt c) = length (SpsExt c)" "\<forall>n \<in> set (SpsExt c). nalu_ok n"
    and "c0\<lparr>Reserved6Bit3 := 0x3F, ChromaFormat := ChromaFormat c, avc_BitDepthLumaMinus83Bit := 0, Reserved5Bit4 := 0x1F,
            avc_BitDepthChromaMinus83Bit := 0, Reserved5Bit5 := 0x1F,
            NumOfSequenceParameterSetExt := NumOfSequenceParameterSetExt c, SpsExt := SpsExt c\<rparr> = d"
  shows "reads (avc_ext_parse c0)
    ([push_bit 2 (Reserved6Bit3 c) OR ChromaFormat c, Reserved5Bit4 c OR avc_BitDepthLumaMinus83Bit c,
      Reserved5Bit5 c OR avc_BitDepthChromaMinus83Bit c, NumOfSequenceParameterSetExt c] @ concat (map nalu_bytes (SpsExt c))) d"
proof -
  note r6 = reserved6[OF assms(1)] and l = reserved5(3,4)[OF assms(2)] and k = reserved5(3,4)[OF assms(3)]
  show ?thesis unfolding avc_ext_parse_def assms(4-6)
    by (rule reads_buf_bind, simp, simp only: nth_Cons_0 nth_Cons_Suc nth_Cons_numeral One_nat_def numeral_2_eq_2 numeral_3_eq_3 r6 l k)
      (use assms(7,8,9) r6(2)[simplified] in \<open>auto intro!: reads_bind_last[OF reads_nalus] reads_ret\<close>)
qed

definition avc_head :: "AVCDecoderConfigurationRecord \<Rightarrow> bytes" where
  "avc_head c = [1, AVCProfileIndication c, ProfileCompatibility c, AVCLevelIndication c,
     push_bit 2 0x3F OR avc_LengthSizeMinusOne2Bit c, push_bit 5 7 OR NumOfSequenceParameterSets5Bit c]"

lemma avc_head_nth:
  "avc_head c ! 0 = 1" "avc_head c ! 1 = AVCProfileIndication c" "avc_head c ! 2 = ProfileCompatibility c"
  "avc_head c ! 3 = AVCLevelIndication c" "avc_head c ! 4 = push_bit 2 0x3F OR avc_LengthSizeMinusOne2Bit c"
  "avc_head c ! 5 = push_bit 5 7 OR NumOfSequenceParameterSets5Bit c"
  unfolding avc_head_def by simp_all

lemma AVC_written:
  assumes "avc_ok c"
  shows "length (Pps c) < length (Sps c) \<Longrightarrow> AVCDecoderConfigurationRecord_Serialize c = Inl index_panic"
    and "length (Pps c) = length (Sps c) \<Longrightarrow>
      \<exists>w. AVCDecoderConfigurationRecord_Serialize c = Inr w \<and> reads AVCDecoderConfigurationRecord_Parse w (no_depth c)"
proof -
  note ok = assms[unfolded avc_ok_def]
  show "AVCDecoderConfigurationRecord_Serialize c = Inl index_panic" if "length (Pps c) < length (Sps c)"
    using that by (simp add: AVCDecoderConfigurationRecord_Serialize_def pps_bytes_def)
  assume eq: "length (Pps c) = length (Sps c)"
  let ?ext = "if avc_high (AVCLevelIndication c)
     then [push_bit 2 (Reserved6Bit3 c) OR ChromaFormat c, Reserved5Bit4 c OR avc_BitDepthLumaMinus83Bit c,
           Reserved5Bit5 c OR avc_BitDepthChromaMinus83Bit c, NumOfSequenceParameterSetExt c] @ concat (map nalu_bytes (SpsExt c)) else []"
  have fixed: "avc_ConfigurationVersion c = 1" "Reserved6Bit1 c = 0x3F" "Reserved3Bit2 c = 7" using ok by auto
  have w: "AVCDecoderConfigurationRecord_Serialize c = Inr (avc_head c @ concat (map nalu_bytes (Sps c)) @
      [NumOfPictureParameterSets c] @ concat (map nalu_bytes (Pps c)) @ ?ext)"
    using eq by (simp add: AVCDecoderConfigurationRecord_Serialize_def pps_bytes_def avc_head_def fixed)
  have small: "avc_LengthSizeMinusOne2Bit c < 4" "NumOfSequenceParameterSets5Bit c < 32" using ok by auto
  note bits = reserved6[OF small(1)] reserved3[OF small(2)]
  have sets: "reads (avc_sets_parse (avc_head c)) (concat (map nalu_bytes (Sps c)) @ [NumOfPictureParameterSets c] @
      concat (map nalu_bytes (Pps c)) @ ?ext) (no_depth c)"
    unfolding avc_sets_parse_def avc_head_nth bits avc_record_def
    by (intro reads_bind[OF reads_nalus] reads_buf_bind reads_if)
      (use ok in \<open>auto simp: no_depth_def intro!: reads_ret reads_avc_ext[of c, simplified]\<close>)
  have "reads AVCDecoderConfigurationRecord_Parse (avc_head c @ concat (map nalu_bytes (Sps c)) @ [NumOfPictureParameterSets c] @
      concat (map nalu_bytes (Pps c)) @ ?ext) (no_depth c)"
    unfolding AVCDecoderConfigurationRecord_Parse_def
    by (rule reads_buf_bind, simp add: avc_head_def) (simp only: avc_head_nth bits simp_thms if_False sets)
  then show "\<exists>w. AVCDecoderConfigurationRecord_Serialize c = Inr w \<and> reads AVCDecoderConfigurationRecord_Parse w (no_depth c)"
    using w by blast
qed

lemma at48_skip [field_simps]:
  "length xs \<le> i \<Longrightarrow> at48 (xs @ r) i = at48 r (i - length xs)" "0 < i \<Longrightarrow> at48 (x # r) i = at48 r (i - 1)"
  using subslice_append_right[of "[x]" i "i + 6" r]
  by (simp_all add: at48_def subslice_append_right Suc_diff_le)

lemma at48_here [field_simps]: "take_bit 48 v = v \<Longrightarrow> at48 (u48be v @ r) 0 = v"
  using c48.dec_subslice[of v "[]" 0 6] by (simp add: at48_def)

lemma length_u48be [simp]: "length (u48be v) = 6"
  by (rule c48.length_enc)

definition hevc_item_ok :: "HevcArrayItem \<Rightarrow> bool" where
  "hevc_item_ok it \<longleftrightarrow> ArrayCompleteness1Bit it < 2 \<and> Reserved1Bit it < 2 \<and> NalType6Bit it < 64 \<and>
     unat (NumNalus it) = length (Nalus it) \<and> (\<forall>n \<in> set (Nalus it). nalu_ok n)"

lemma reads_item:
  assumes "hevc_item_ok it"
  shows "\<exists>w. hevc_item_bytes it = Inr w \<and> reads HevcArrayItem_parse w it"
proof -
  note ok = assms[unfolded hevc_item_ok_def]
  let ?v = "push_bit 7 (ArrayCompleteness1Bit it) OR push_bit 6 (Reserved1Bit it) OR NalType6Bit it"
  note bits = item_bits[OF ok[THEN conjunct1] ok[THEN conjunct2, THEN conjunct1] ok[THEN conjunct2, THEN conjunct2, THEN conjunct1]]
  have w: "hevc_item_bytes it = Inr ((?v # u16be (NumNalus it)) @ concat (map nalu_bytes (Nalus it)))"
    using ok by (simp add: hevc_item_bytes_def)
  have n: "at16 (?v # u16be (NumNalus it)) 1 = NumNalus it"
    using at_skip_byte(1)[of 1 ?v "u16be (NumNalus it)"] by (simp add: at_last)
  show ?thesis unfolding w
  proof (intro exI conjI, rule refl, unfold HevcArrayItem_parse_def, rule reads_buf_bind)
    show "reads (bindR (rd_times (unat (at16 (?v # u16be (NumNalus it)) 1)) rd_nalu) (\<lambda>ns.
       retR \<lparr>ArrayCompleteness1Bit = drop_bit 7 ((?v # u16be (NumNalus it)) ! 0 AND 0x80),
         Reserved1Bit = drop_bit 6 ((?v # u16be (NumNalus it)) ! 0 AND 0x40),
         NalType6Bit = (?v # u16be (NumNalus it)) ! 0 AND 0x3F, NumNalus = at16 (?v # u16be (NumNalus it)) 1, Nalus = ns\<rparr>))
       (concat (map nalu_bytes (Nalus it))) it"
      unfolding n nth_Cons_0 bits
      by (rule reads_bind_last[OF reads_nalus]) (use ok in \<open>simp_all add: reads_ret\<close>)
  qed simp
qed

lemma reads_items:
  "\<forall>it \<in> set its. hevc_item_ok it \<Longrightarrow> \<exists>w. hevc_items_bytes its = Inr w \<and> reads (rd_times (length its) HevcArrayItem_parse) w its"
proof (induction its)
  case (Cons it its)
  obtain w where w: "hevc_item_bytes it = Inr w" "reads HevcArrayItem_parse w it" using reads_item Cons.prems by force
  obtain v where v: "hevc_items_bytes its = Inr v" "reads (rd_times (length its) HevcArrayItem_parse) v its"
    using Cons by force
  have "reads (rd_times (length (it # its)) HevcArrayItem_parse) (w @ v) (it # its)"
    by (simp add: reads_bind[OF w(2)] reads_bind_last[OF v(2)] reads_ret)
  then show ?case using w(1) v(1) by simp
qed (simp add: reads_ret)

definition hevc_ok :: "HevcDecoderConfigurationRecord \<Rightarrow> bool" where
  "hevc_ok c \<longleftrightarrow> hevc_ConfigurationVersion c = 1 \<and>
     GeneralProfileSpace2Bit c < 4 \<and> GeneralTierGlag1Bit c < 2 \<and> GeneralProfileIdc5Bit c < 32 \<and>
     take_bit 48 (GeneralConstraintIndicatorFlags48Bit c) = GeneralConstraintIndicatorFlags48Bit c \<and>
     Reserve4Bit1 c = 0x0F \<and> MinSpatialSegmentationIdc12Bit c < 0x1000 \<and>
     Reserve6Bit2 c = 0x3F \<and> ParallelismType2Bit c < 4 \<and> Reserve6Bit3 c = 0x3F \<and> ChromaFormat2Bit c < 4 \<and>
     Reserve5Bit4 c = 0x1F \<and> BitDepthLumaMinus83Bit c < 8 \<and> Reserve5Bit5 c = 0x1F \<and> BitDepthChromaMinus83Bit c < 8 \<and>
     ConstantFrameRate2Bit c < 4 \<and> NumTemporalLayers3Bit c < 8 \<and> TemporalIdNested1Bit c < 2 \<and> LengthSizeMinusOne2Bit c < 4 \<and>
     unat (NumOfArrays c) = length (Items c) \<and> (\<forall>it \<in> set (Items c). hevc_item_ok it)"

lemma hevc_head_nth:
  assumes "take_bit 48 (GeneralConstraintIndicatorFlags48Bit c) = GeneralConstraintIndicatorFlags48Bit c"
  defines "h \<equiv> hevc_head_bytes c"
  shows "h ! 0 = hevc_ConfigurationVersion c"
    and "h ! 1 = push_bit 6 (GeneralProfileSpace2Bit c) OR push_bit 5 (GeneralTierGlag1Bit c) OR GeneralProfileIdc5Bit c"
    and "at32 h 2 = GeneralProfileCompatibilityFlags c" and "at48 h 6 = GeneralConstraintIndicatorFlags48Bit c"
    and "h ! 12 = GeneralLevelIdc c"
    and "h ! 13 = push_bit 4 (Reserve4Bit1 c) OR ucast (drop_bit 8 (MinSpatialSegmentationIdc12Bit c))"
    and "h ! 14 = ucast (MinSpatialSegmentationIdc12Bit c)"
    and "h ! 15 = push_bit 2 (Reserve6Bit2 c) OR ParallelismType2Bit c"
    and "h ! 16 = push_bit 2 (Reserve6Bit3 c) OR ChromaFormat2Bit c"
    and "h ! 17 = push_bit 3 (Reserve5Bit4 c) OR BitDepthLumaMinus83Bit c"
    and "h ! 18 = push_bit 3 (Reserve5Bit5 c) OR BitDepthChromaMinus83Bit c"
    and "at16 h 19 = AvgFrameRate c"
    and "h ! 21 = push_bit 6 (ConstantFrameRate2Bit c) OR push_bit 3 (NumTemporalLayers3Bit c) OR
      push_bit 2 (TemporalIdNested1Bit c) OR LengthSizeMinusOne2Bit c"
    and "h ! 22 = NumOfArrays c" and "length h = 23"
  unfolding h_def hevc_head_bytes_def using assms(1) by (simp_all add: field_simps nth_append)

lemma HEVC_roundtrip:
  assumes "hevc_ok c"
  shows "\<exists>w. HevcDecoderConfigurationRecord_Serialize c = Inr w \<and> reads HevcDecoderConfigurationRecord_Parse w c"
proof -
  note ok = assms[unfolded hevc_ok_def]
  obtain w where w: "hevc_items_bytes (Items c) = Inr w" "reads (rd_times (length (Items c)) HevcArrayItem_parse) w (Items c)"
    using reads_items ok by blast
  have "ucast (drop_bit 8 (MinSpatialSegmentationIdc12Bit c)) < (16 :: byte)"
  proof -
    have "unat (MinSpatialSegmentationIdc12Bit c) < 4096" using ok by (simp add: word_less_nat_alt)
    then show ?thesis
      by (simp add: word_less_nat_alt unsigned_ucast_eq unsigned_take_bit_eq take_bit_eq_mod unat_drop_bit_eq drop_bit_eq_div unat_div less_mult_imp_div_less)
  qed
  note r4 = reserved4[OF this]
  have lt: "ParallelismType2Bit c < 4" "ChromaFormat2Bit c < 4" "BitDepthLumaMinus83Bit c < 8" "BitDepthChromaMinus83Bit c < 8"
    "GeneralProfileSpace2Bit c < 4" "GeneralTierGlag1Bit c < 2" "GeneralProfileIdc5Bit c < 32"
    "ConstantFrameRate2Bit c < 4" "NumTemporalLayers3Bit c < 8" "TemporalIdNested1Bit c < 2" "LengthSizeMinusOne2Bit c < 4"
    using ok by auto
  have fixed: "hevc_ConfigurationVersion c = 1" "Reserve4Bit1 c = 0x0F" "Reserve6Bit2 c = 0x3F" "Reserve6Bit3 c = 0x3F"
    "Reserve5Bit4 c = 0x1F" "Reserve5Bit5 c = 0x1F" using ok by auto
  have h48: "take_bit 48 (GeneralConstraintIndicatorFlags48Bit c) = GeneralConstraintIndicatorFlags48Bit c" using ok by simp
  note h = hevc_head_nth[OF h48, unfolded fixed]
  note bits = r4 reserved6[OF lt(1)] reserved6[OF lt(2)] reserved5(1,2)[OF lt(3)] reserved5(1,2)[OF lt(4)]
    joined_bits[OF lt(5-7)] joined_bits4[OF lt(8-11)] split16
  have none: "hevc_reserved_error (hevc_head_bytes c) = None" unfolding hevc_reserved_error_def h bits by simp
  have rec: "hevc_record (hevc_head_bytes c) (Items c) = c"
    unfolding hevc_record_def h bits using fixed by simp
  have "reads HevcDecoderConfigurationRecord_Parse (hevc_head_bytes c @ w) c"
    unfolding HevcDecoderConfigurationRecord_Parse_def
    by (rule reads_buf_bind[OF h(15)]) (use ok none rec w(2) in \<open>auto simp: h(1,14) intro!: reads_bind_last reads_ret\<close>)
  then show ?thesis using w(1) ok by (simp add: HevcDecoderConfigurationRecord_Serialize_def)
qed

lemmas config_box_defs = AVCCConfigurationBox_Serialize_def AVCCConfigurationBox_Parse_def
  HVCCConfigurationBox_Serialize_def HVCCConfigurationBox_Parse_def

interpretation avcC: box_codec "\<lambda>b. case AVCCConfigurationBox_Serialize b of Inr w \<Rightarrow> w | Inl e \<Rightarrow> []" AVCCConfigurationBox_Parse avcC_Box
  "\<lambda>b. small_box (avcC_Box b) \<and> avc_ok (AVCConfig b) \<and> length (Pps (AVCConfig b)) = length (Sps (AVCConfig b)) \<and>
     no_depth (AVCConfig b) = AVCConfig b"
proof
  fix b :: AVCCConfigurationBox
  assume b: "small_box (avcC_Box b) \<and> avc_ok (AVCConfig b) \<and> length (Pps (AVCConfig b)) = length (Sps (AVCConfig b)) \<and>
     no_depth (AVCConfig b) = AVCConfig b"
  then obtain w where w: "AVCDecoderConfigurationRecord_Serialize (AVCConfig b) = Inr w" "reads AVCDecoderConfigurationRecord_Parse w (AVCConfig b)"
    using AVC_written(2)[of "AVCConfig b"] by auto
  then have "reads (AVCCConfigurationBox_Parse (avcC_Box b)) w b"
    unfolding config_box_defs by (intro reads_bind_last) (auto intro: reads_ret)
  then show "\<exists>w. (case AVCCConfigurationBox_Serialize b of Inr w \<Rightarrow> w | Inl e \<Rightarrow> []) = Box_Serialize (avcC_Box b) @ w \<and>
      reads (AVCCConfigurationBox_Parse (avcC_Box b)) w b"
    using w(1) by (auto simp: AVCCConfigurationBox_Serialize_def)
qed simp

interpretation hvcC: box_codec "\<lambda>b. case HVCCConfigurationBox_Serialize b of Inr w \<Rightarrow> w | Inl e \<Rightarrow> []" HVCCConfigurationBox_Parse hvcC_Box
  "\<lambda>b. small_box (hvcC_Box b) \<and> hevc_ok (HEVCConfig b)"
proof
  fix b :: HVCCConfigurationBox
  assume "small_box (hvcC_Box b) \<and> hevc_ok (HEVCConfig b)"
  then obtain w where w: "HevcDecoderConfigurationRecord_Serialize (HEVCConfig b) = Inr w" "reads HevcDecoderConfigurationRecord_Parse w (HEVCConfig b)"
    using HEVC_roundtrip[of "HEVCConfig b"] by auto
  then have "reads (HVCCConfigurationBox_Parse (hvcC_Box b)) w b"
    unfolding config_box_defs by (intro reads_bind_last) (auto intro: reads_ret)
  then show "\<exists>w. (case HVCCConfigurationBox_Serialize b of Inr w \<Rightarrow> w | Inl e \<Rightarrow> []) = Box_Serialize (hvcC_Box b) @ w \<and>
      reads (HVCCConfigurationBox_Parse (hvcC_Box b)) w b"
    using w(1) by (auto simp: HVCCConfigurationBox_Serialize_def)
qed simp

text \<open>C37: An AVC decoder configuration that is well formed (its counts are those of its lists and its fields fit) and
  has as many picture as sequence parameter sets is read back as it was written, but for the bit depths
  of a high level, which come back as 0.  The writer counts to the number of sequence parameter sets: with
  fewer picture parameter sets it panics, and with more it leaves the rest out, so that the bytes are
  those of a configuration that lacks them (under the count it still has) and the sets cannot be read back.\<close>

theorem avc_config_written:
  assumes "avc_ok c"
  shows "(length (Pps c) < length (Sps c) \<longrightarrow> AVCDecoderConfigurationRecord_Serialize c = Inl index_panic) \<and>
    (length (Pps c) = length (Sps c) \<longrightarrow> (\<exists>w. AVCDecoderConfigurationRecord_Serialize c = Inr w \<and>
      (\<forall>r. AVCDecoderConfigurationRecord_Parse (w @ r) =
        Inr (c\<lparr>avc_BitDepthLumaMinus83Bit := 0, avc_BitDepthChromaMinus83Bit := 0\<rparr>, length w, r)))) \<and>
    (length (Sps c) < length (Pps c) \<longrightarrow> (\<exists>w. AVCDecoderConfigurationRecord_Serialize c = Inr w \<and>
      AVCDecoderConfigurationRecord_Serialize (c\<lparr>Pps := take (length (Sps c)) (Pps c)\<rparr>) = Inr w))"
proof (intro conjI impI)
  assume "length (Sps c) < length (Pps c)"
  then show "\<exists>w. AVCDecoderConfigurationRecord_Serialize c = Inr w \<and>
      AVCDecoderConfigurationRecord_Serialize (c\<lparr>Pps := take (length (Sps c)) (Pps c)\<rparr>) = Inr w"
    by (simp add: AVCDecoderConfigurationRecord_Serialize_def pps_bytes_def)
qed (use AVC_written[OF assms] in \<open>auto simp: reads_def no_depth_def\<close>)

theorem avc_config_written_witness:
  "\<exists>w. AVCDecoderConfigurationRecord_Serialize
      \<lparr>avc_ConfigurationVersion = 1, AVCProfileIndication = 100, ProfileCompatibility = 0, AVCLevelIndication = 110, Reserved6Bit1 = 0x3F,
       avc_LengthSizeMinusOne2Bit = 3, Reserved3Bit2 = 7, NumOfSequenceParameterSets5Bit = 1, Sps = [\<lparr>NaluLength = 2, Nalu = [0x67, 100]\<rparr>],
       NumOfPictureParameterSets = 1, Pps = [\<lparr>NaluLength = 1, Nalu = [0x68]\<rparr>], Reserved6Bit3 = 0x3F, ChromaFormat = 1,
       Reserved5Bit4 = 0x1F, avc_BitDepthLumaMinus83Bit = 2, Reserved5Bit5 = 0x1F, avc_BitDepthChromaMinus83Bit = 2,
       NumOfSequenceParameterSetExt = 0, SpsExt = []\<rparr> = Inr w \<and>
    (\<forall>r. AVCDecoderConfigurationRecord_Parse (w @ r) = Inr
      (\<lparr>avc_ConfigurationVersion = 1, AVCProfileIndication = 100, ProfileCompatibility = 0, AVCLevelIndication = 110, Reserved6Bit1 = 0x3F,
       avc_LengthSizeMinusOne2Bit = 3, Reserved3Bit2 = 7, NumOfSequenceParameterSets5Bit = 1, Sps = [\<lparr>NaluLength = 2, Nalu = [0x67, 100]\<rparr>],
       NumOfPictureParameterSets = 1, Pps = [\<lparr>NaluLength = 1, Nalu = [0x68]\<rparr>], Reserved6Bit3 = 0x3F, ChromaFormat = 1,
       Reserved5Bit4 = 0x1F, avc_BitDepthLumaMinus83Bit = 0, Reserved5Bit5 = 0x1F, avc_BitDepthChromaMinus83Bit = 0,
       NumOfSequenceParameterSetExt = 0, SpsExt = []\<rparr>, length w, r))"
  (is "\<exists>w. AVCDecoderConfigurationRecord_Serialize ?c = _ \<and> _")
proof -
  have "avc_ok ?c" by code_simp
  from avc_config_written[OF this] show ?thesis by simp
qed

text \<open>C38: The HEVC decoder configuration of a track whose counts agree with its lists and whose fields fit their
  bits is read back as it was written.\<close>

theorem hevc_config_roundtrip:
  assumes "hevc_ok c"
  shows "\<exists>w. HevcDecoderConfigurationRecord_Serialize c = Inr w \<and>
    (\<forall>r. HevcDecoderConfigurationRecord_Parse (w @ r) = Inr (c, length w, r))"
  using HEVC_roundtrip[OF assms] by (simp add: reads_def)

theorem hevc_config_roundtrip_witness:
  "\<exists>w. HevcDecoderConfigurationRecord_Serialize
      \<lparr>hevc_ConfigurationVersion = 1, GeneralProfileSpace2Bit = 0, GeneralTierGlag1Bit = 1, GeneralProfileIdc5Bit = 1,
       GeneralProfileCompatibilityFlags = 0x60000000, GeneralConstraintIndicatorFlags48Bit = 0x900000000000, GeneralLevelIdc = 93,
       Reserve4Bit1 = 0xF, MinSpatialSegmentationIdc12Bit = 0x123, Reserve6Bit2 = 0x3F, ParallelismType2Bit = 0, Reserve6Bit3 = 0x3F,
       ChromaFormat2Bit = 1, Reserve5Bit4 = 0x1F, BitDepthLumaMinus83Bit = 2, Reserve5Bit5 = 0x1F, BitDepthChromaMinus83Bit = 2,
       AvgFrameRate = 25, ConstantFrameRate2Bit = 0, NumTemporalLayers3Bit = 1, TemporalIdNested1Bit = 1, LengthSizeMinusOne2Bit = 3,
       NumOfArrays = 1, Items = [\<lparr>ArrayCompleteness1Bit = 1, Reserved1Bit = 0, NalType6Bit = 32, NumNalus = 1, Nalus = [\<lparr>NaluLength = 1, Nalu = [7]\<rparr>]\<rparr>]\<rparr> = Inr w"
  (is "\<exists>w. HevcDecoderConfigurationRecord_Serialize ?c = _")
proof -
  have "hevc_ok ?c" by code_simp
  from hevc_config_roundtrip[OF this] show ?thesis by blast
qed

end
