(* ===== verification/Mp4_Loop.thy ===== *)
theory Mp4_Loop
  imports Mp4_Box "HOL-Library.Sublist"
begin

text \<open>
  Loops of the mp4 parsers over a remaining size, and when they end: every round of such a loop reads
  something, so a number of rounds above the length of the input is never used up.
\<close>

section \<open>Loops over a remaining size\<close>

text \<open>\<open>for remainSize > 0\<close>: a step reads, changes the state and returns its count.\<close>

fun rd_loop :: "nat \<Rightarrow> ('s \<Rightarrow> 's rd) \<Rightarrow> int \<Rightarrow> 's \<Rightarrow> 's rd" where
  "rd_loop 0 step remain s r = (if remain \<le> 0 then Inr (s, 0, r) else Inl Hang)"
| "rd_loop (Suc n) step remain s r =
     (if remain \<le> 0 then Inr (s, 0, r)
      else bindE (step s r) (\<lambda>(s, k, r).
        bindE (rd_loop n step (remain - int k) s r) (\<lambda>(s, j, r). Inr (s, k + j, r))))"

section \<open>What a parser takes, and that it ends\<close>

text \<open>
  What a parser has read is a prefix of the input, of at least \<open>k\<close> bytes.  A parser ends on inputs of fewer
  than \<open>n\<close> bytes that do not contain the string \<open>a\<close>, if one is given.
\<close>

definition eats :: "nat \<Rightarrow> 'a rd \<Rightarrow> bool" where
  "eats k m \<longleftrightarrow> (\<forall>r x n r'. m r = Inr (x, n, r') \<longrightarrow> (\<exists>w. r = w @ r' \<and> k \<le> length w))"

fun avoids :: "bytes option \<Rightarrow> bytes \<Rightarrow> bool" where
  "avoids None r = True"
| "avoids (Some x) r = (\<not> sublist x r)"

definition ends :: "bytes option \<Rightarrow> nat \<Rightarrow> 'a rd \<Rightarrow> bool" where
  "ends a n m \<longleftrightarrow> (\<forall>r. length r < n \<longrightarrow> avoids a r \<longrightarrow> m r \<noteq> Inl Hang)"

lemma avoids_suffix: "avoids a (w @ r) \<Longrightarrow> avoids a r"
  by (cases a) (auto simp: sublist_append)

named_theorems eating \<open>what parsers take\<close>
named_theorems ending \<open>parsers that end\<close>

lemma eatsE:
  assumes "eats k m" "m r = Inr (x, n, r')"
  obtains w where "r = w @ r'" "k \<le> length w"
  using assms unfolding eats_def by blast

lemma eatsI: "(\<And>r x n r'. m r = Inr (x, n, r') \<Longrightarrow> \<exists>w. r = w @ r' \<and> k \<le> length w) \<Longrightarrow> eats k m"
  by (auto simp: eats_def)

lemma eats_less: "eats k m \<Longrightarrow> j \<le> k \<Longrightarrow> eats j m"
  by (meson eats_def order_trans)

lemma endsD: "ends a n m \<Longrightarrow> length r < n \<Longrightarrow> avoids a r \<Longrightarrow> m r \<noteq> Inl Hang"
  by (simp add: ends_def)

lemma ends_less: "ends a n m \<Longrightarrow> j \<le> n \<Longrightarrow> ends a j m"
  by (simp add: ends_def)

lemma eats_ret [eating]: "eats 0 (retR x)" by (simp add: eats_def retR_def)
lemma eats_fail [eating]: "eats k (failR e)" by (simp add: eats_def failR_def)

lemma eats_buf [eating]: "eats n (rdBuf n)"
  by (rule eatsI, rule exI[of _ "take n _"]) (auto simp: rdBuf_def ReadFull_def split: if_splits)

lemma eats_bind: "eats j m \<Longrightarrow> (\<And>x. eats k (f x)) \<Longrightarrow> eats (j + k) (bindR m f)"
proof (rule eatsI)
  fix r y n r' assume m: "eats j m" and f: "\<And>x. eats k (f x)" and h: "bindR m f r = Inr (y, n, r')"
  then obtain x i r1 l where "m r = Inr (x, i, r1)" "f x r1 = Inr (y, l, r')"
    by (auto simp: bindR_def bindE_eq_Inr)
  then obtain v w where "r = v @ r1" "j \<le> length v" "r1 = w @ r'" "k \<le> length w" using eatsE[OF m] eatsE[OF f] by metis
  then show "\<exists>w. r = w @ r' \<and> j + k \<le> length w" by (intro exI[of _ "v @ w"]) simp
qed

lemma eats_bind_first: "eats k m \<Longrightarrow> (\<And>x. eats 0 (f x)) \<Longrightarrow> eats k (bindR m f)"
  using eats_bind[of k m 0 f] by simp

lemma eats_bind0 [eating]: "eats 0 m \<Longrightarrow> (\<And>x. eats 0 (f x)) \<Longrightarrow> eats 0 (bindR m f)"
  by (rule eats_bind_first)

lemma eats_buf0 [eating]: "eats 0 (rdBuf n)" by (rule eats_less[OF eats_buf]) simp

lemma eats_make [eating]: "eats 0 (rdMake n)"
  by (simp add: rdMake_def eats_fail eats_buf0)

lemma eats_if [eating]: "(c \<Longrightarrow> eats k f) \<Longrightarrow> (\<not> c \<Longrightarrow> eats k g) \<Longrightarrow> eats k (if c then f else g)"
  by simp

lemma eats_times [eating]: "eats 0 m \<Longrightarrow> eats 0 (rd_times n m)"
  by (induction n) (simp_all add: eats_ret eats_bind0)

lemma eats_depending: "(\<And>k. eats n (F k)) \<Longrightarrow> eats n (\<lambda>r. F (g r) r)"
  by (auto simp: eats_def)

lemma eats_loop [eating]: "(\<And>s. eats 0 (step s)) \<Longrightarrow> eats 0 (rd_loop n step remain s)"
proof (induction n arbitrary: remain s)
  case 0
  show ?case by (auto simp: eats_def)
next
  case (Suc n)
  show ?case
  proof (rule eatsI)
    fix r x k r' assume "rd_loop (Suc n) step remain s r = Inr (x, k, r')"
    then consider "r' = r" | s1 j r1 i where "step s r = Inr (s1, j, r1)" "rd_loop n step (remain - int j) s1 r1 = Inr (x, i, r')"
      by (auto simp: bindE_eq_Inr split: if_splits)
    then show "\<exists>w. r = w @ r' \<and> 0 \<le> length w"
    proof cases
      case 2
      then obtain v w where "r = v @ r1" "r1 = w @ r'" using eatsE[OF Suc.prems] eatsE[OF Suc.IH[OF Suc.prems]] by metis
      then show ?thesis by simp
    qed simp
  qed
qed

lemma ends_ret [ending]: "ends a n (retR x)" by (simp add: ends_def retR_def)
lemma ends_fail [ending]: "e \<noteq> Hang \<Longrightarrow> ends a n (failR e)" by (simp add: ends_def failR_def)

lemma ends_buf [ending]: "ends a n (rdBuf k)"
  by (auto simp: ends_def rdBuf_def ReadFull_def)

lemma ends_depending: "(\<And>k. ends a n (F k)) \<Longrightarrow> ends a n (\<lambda>r. F (g r) r)"
  by (auto simp: ends_def)

lemma ends_make [ending]: "ends a n (rdMake k)"
  by (simp add: rdMake_def ends_buf ends_fail makeslice_panic_def)

lemma ends_bind_eats: "ends a n m \<Longrightarrow> eats k m \<Longrightarrow> (\<And>x. ends a (n - k) (f x)) \<Longrightarrow> ends a n (bindR m f)"
  unfolding ends_def[of a n "bindR m f"]
proof (intro allI impI notI)
  fix r assume m: "ends a n m" "eats k m" and f: "\<And>x. ends a (n - k) (f x)"
    and r: "length r < n" "avoids a r" and h: "bindR m f r = Inl Hang"
  then obtain x i r1 where x: "m r = Inr (x, i, r1)" "f x r1 = Inl Hang"
    using endsD[OF m(1) r] by (auto simp: bindR_def bindE_eq_Inl)
  then obtain w where "r = w @ r1" "k \<le> length w" using eatsE[OF m(2)] by metis
  then have "length r1 < n - k" "avoids a r1" using r avoids_suffix by auto
  then show False using endsD[OF f] x(2) by blast
qed

lemma ends_bind [ending]: "ends a n m \<Longrightarrow> eats 0 m \<Longrightarrow> (\<And>x. ends a n (f x)) \<Longrightarrow> ends a n (bindR m f)"
  using ends_bind_eats[of a n m 0 f] by simp

lemma ends_if [ending]: "(c \<Longrightarrow> ends a n f) \<Longrightarrow> (\<not> c \<Longrightarrow> ends a n g) \<Longrightarrow> ends a n (if c then f else g)"
  by simp

lemma ends_times [ending]: "ends a n m \<Longrightarrow> eats 0 m \<Longrightarrow> ends a n (rd_times k m)"
  by (induction k) (auto intro!: ends_ret ends_bind eating)

lemma ends_loop [ending]:
  "(\<And>s. ends a n (step s)) \<Longrightarrow> (\<And>s. eats 1 (step s)) \<Longrightarrow> n \<le> k \<Longrightarrow> ends a n (rd_loop k step remain s)"
proof (induction k arbitrary: n remain s)
  case (Suc k)
  show ?case unfolding ends_def
  proof (intro allI impI notI)
    fix r assume r: "length r < n" "avoids a r" and h: "rd_loop (Suc k) step remain s r = Inl Hang"
    then obtain s1 j r1 where s1: "step s r = Inr (s1, j, r1)" and l: "rd_loop k step (remain - int j) s1 r1 = Inl Hang"
      using endsD[OF Suc.prems(1) r] by (auto simp: bindE_eq_Inl split: if_splits)
    have "ends a (n - 1) (rd_loop k step (remain - int j) s1)"
      by (rule Suc.IH[OF ends_less[OF Suc.prems(1)] Suc.prems(2)]) (use Suc.prems(3) in simp_all)
    moreover obtain w where "r = w @ r1" "1 \<le> length w" using eatsE[OF Suc.prems(2) s1] by metis
    then have "length r1 < n - 1" "avoids a r1" using r avoids_suffix by auto
    ultimately show False using l endsD by blast
  qed
qed (simp add: ends_def)

section \<open>Loops that read back what was written\<close>

fun loop_reads :: "('s \<Rightarrow> 's rd) \<Rightarrow> 's \<Rightarrow> bytes list \<Rightarrow> 's \<Rightarrow> bool" where
  "loop_reads step s [] s' \<longleftrightarrow> s' = s"
| "loop_reads step s (w # ws) s' \<longleftrightarrow> w \<noteq> [] \<and> (\<exists>s1. reads (step s) w s1 \<and> loop_reads step s1 ws s')"

text \<open>The rounds each take their part, and the last of them uses up the size.\<close>

lemma reads_loop:
  "loop_reads step s ws s' \<Longrightarrow> remain = int (length (concat ws)) \<Longrightarrow> length ws \<le> n \<Longrightarrow> reads (rd_loop n step remain s) (concat ws) s'"
proof (induction ws arbitrary: s remain n)
  case Nil
  then show ?case by (cases n) (simp_all add: reads_def)
next
  case (Cons w ws)
  then obtain s1 where s1: "w \<noteq> []" "reads (step s) w s1" "loop_reads step s1 ws s'" by auto
  obtain m where m: "n = Suc m" using Cons.prems(3) by (cases n) auto
  have rec: "reads (rd_loop m step (remain - int (length w)) s1) (concat ws) s'"
    by (rule Cons.IH[OF s1(3)]) (use Cons.prems m in auto)
  have "0 < int (length w)" using s1(1) by simp
  moreover have "remain = int (length w) + int (length (concat ws))" using Cons.prems(2) by simp
  ultimately have pos: "\<not> remain \<le> 0" by linarith
  show ?case unfolding reads_def
  proof
    fix r
    show "rd_loop n step remain s (concat (w # ws) @ r) = Inr (s', length (concat (w # ws)), r)"
      using readsD[OF s1(2), of "concat ws @ r"] readsD[OF rec, of r] pos by (simp add: m)
  qed
qed

end
