(* ===== verification/Mp4_Tag.thy ===== *)
theory Mp4_Tag
  imports Mp4_Config Mp4_Loop
begin

text \<open>
  The descriptors of an elementary stream: \<open>container/mp4/tag.go\<close>, and the box esds of \<open>moovBox.go\<close>.  A
  descriptor is a tag, a length in four bytes of seven bits and a body; \<open>parseOneTag\<close> reads one of any
  kind by the table of tags, and the bodies of two kinds hold descriptors themselves.  The recursion has
  fuel; it is enough that it exceeds the length of the input (\<open>parseOneTag_no_hang\<close>), since every
  descriptor takes five bytes.
\<close>

text \<open>A value with the count of the bytes it took.\<close>

definition counted :: "'a rd \<Rightarrow> ('a \<times> nat) rd" where
  "counted m r = bindE (m r) (\<lambda>(x, k, r). Inr ((x, k), k, r))"

section \<open>Base descriptor\<close>

record BaseDescriptor =
  Tag :: byte
  bd_Size :: u32

definition getTagLength :: "bytes \<Rightarrow> u32" where
  "getTagLength buf =
     foldl (\<lambda>len b. if b AND 0x80 \<noteq> 0 then len OR push_bit 7 (ucast (b AND 0x7F)) else len OR ucast (b AND 0x7F)) 0 (take 4 buf)"

definition tag_length_word :: "u32 \<Rightarrow> u32" where
  "tag_length_word sz =
     ((push_bit 3 sz OR 0x80000000) AND 0xFF000000) OR ((push_bit 2 sz OR 0x800000) AND 0xFF0000) OR
     ((push_bit 1 sz OR 0x8000) AND 0xFF00) OR (sz AND 0x7F)"

definition BaseDescriptor_Serialize :: "BaseDescriptor \<Rightarrow> bytes" where
  "BaseDescriptor_Serialize d = Tag d # u32be (tag_length_word (bd_Size d))"

definition BaseDescriptor_Parse :: "BaseDescriptor rd" where
  "BaseDescriptor_Parse = bindR (rdBuf 5) (\<lambda>buf. retR \<lparr>Tag = buf ! 0, bd_Size = getTagLength (drop 1 buf)\<rparr>)"

section \<open>Descriptors without descriptors\<close>

record DecoderSpecificInfo =
  dsi_Base :: BaseDescriptor
  dsi_RawData :: bytes

definition DecoderSpecificInfo_Parse :: "BaseDescriptor \<Rightarrow> DecoderSpecificInfo rd" where
  "DecoderSpecificInfo_Parse d = bindR (rdBuf (unat (bd_Size d))) (\<lambda>raw. retR \<lparr>dsi_Base = d, dsi_RawData = raw\<rparr>)"

definition DecoderSpecificInfo_Serialize :: "DecoderSpecificInfo \<Rightarrow> bytes" where
  "DecoderSpecificInfo_Serialize d = BaseDescriptor_Serialize (dsi_Base d) @ dsi_RawData d"

record ProfileLevelIndicationIndexDescriptor =
  plii_Base :: BaseDescriptor
  ProfileLevelIndicationIndex :: byte

definition ProfileLevelIndicationIndexDescriptor_Parse :: "BaseDescriptor \<Rightarrow> ProfileLevelIndicationIndexDescriptor rd" where
  "ProfileLevelIndicationIndexDescriptor_Parse d =
     bindR (rdBuf 1) (\<lambda>buf. retR \<lparr>plii_Base = d, ProfileLevelIndicationIndex = buf ! 0\<rparr>)"

definition ProfileLevelIndicationIndexDescriptor_Serialize :: "ProfileLevelIndicationIndexDescriptor \<Rightarrow> bytes" where
  "ProfileLevelIndicationIndexDescriptor_Serialize d = BaseDescriptor_Serialize (plii_Base d) @ [ProfileLevelIndicationIndex d]"

record IPI_DescrPointer =
  ipi_Base :: BaseDescriptor
  IPI_ES_Id :: u16

definition IPI_DescrPointer_Parse :: "BaseDescriptor \<Rightarrow> IPI_DescrPointer rd" where
  "IPI_DescrPointer_Parse d = bindR (rdBuf 2) (\<lambda>buf. retR \<lparr>ipi_Base = d, IPI_ES_Id = at16 buf 0\<rparr>)"

definition IPI_DescrPointer_Serialize :: "IPI_DescrPointer \<Rightarrow> bytes" where
  "IPI_DescrPointer_Serialize d = BaseDescriptor_Serialize (ipi_Base d) @ u16be (IPI_ES_Id d)"

record IPMP_DescriptorPointer =
  ipmp_Base :: BaseDescriptor
  IPMP_DescriptorID :: byte
  IPMP_DescriptorIDEx :: u16
  IPMP_ES_ID :: u16

text \<open>The buffer has four bytes, so that the slice from 3 to 5 panics.\<close>

definition IPMP_DescriptorPointer_Parse :: "BaseDescriptor \<Rightarrow> IPMP_DescriptorPointer rd" where
  "IPMP_DescriptorPointer_Parse d =
     bindR (rdBuf 1) (\<lambda>buf.
     if buf ! 0 = 0 then bindR (rdBuf 4) (\<lambda>buf. failR slice_panic)
     else retR \<lparr>ipmp_Base = d, IPMP_DescriptorID = buf ! 0, IPMP_DescriptorIDEx = 0, IPMP_ES_ID = 0\<rparr>)"

definition IPMP_DescriptorPointer_Serialize :: "IPMP_DescriptorPointer \<Rightarrow> bytes" where
  "IPMP_DescriptorPointer_Serialize d =
     BaseDescriptor_Serialize (ipmp_Base d) @ [IPMP_DescriptorID d] @
     (if IPMP_DescriptorID d = 0 then u16be (IPMP_DescriptorIDEx d) @ u16be (IPMP_ES_ID d) else [])"

record LanguageDescriptor =
  lang_Base :: BaseDescriptor
  LanguageCode24Bit :: u32

definition LanguageDescriptor_Parse :: "BaseDescriptor \<Rightarrow> LanguageDescriptor rd" where
  "LanguageDescriptor_Parse d = bindR (rdBuf 3) (\<lambda>buf. retR \<lparr>lang_Base = d, LanguageCode24Bit = at24 buf 0\<rparr>)"

definition LanguageDescriptor_Serialize :: "LanguageDescriptor \<Rightarrow> bytes" where
  "LanguageDescriptor_Serialize d = BaseDescriptor_Serialize (lang_Base d) @ u24be (LanguageCode24Bit d)"

record RegistrationDescriptor =
  reg_Base :: BaseDescriptor
  FormatIdentifier :: u32
  AdditionalIdentificationInfo :: bytes

text \<open>The length of the rest is unsigned: below 4 it wraps around to almost \<open>2 ^ 32\<close> bytes.\<close>

definition RegistrationDescriptor_Parse :: "BaseDescriptor \<Rightarrow> RegistrationDescriptor rd" where
  "RegistrationDescriptor_Parse d =
     bindR (rdBuf 4) (\<lambda>buf.
     bindR (rdBuf (unat (bd_Size d - 4))) (\<lambda>info.
     retR \<lparr>reg_Base = d, FormatIdentifier = at32 buf 0, AdditionalIdentificationInfo = info\<rparr>))"

definition RegistrationDescriptor_Serialize :: "RegistrationDescriptor \<Rightarrow> bytes" where
  "RegistrationDescriptor_Serialize d =
     BaseDescriptor_Serialize (reg_Base d) @ u32be (FormatIdentifier d) @ AdditionalIdentificationInfo d"

record QoS_Qualifier =
  qq_Base :: BaseDescriptor
  SpecificValue :: u32

record QoS_Descriptor =
  qos_Base :: BaseDescriptor
  Predefined :: byte
  Qualifiers :: "QoS_Qualifier list"

definition qos_qualifier :: "QoS_Qualifier rd" where
  "qos_qualifier =
     bindR BaseDescriptor_Parse (\<lambda>dd.
     if Tag dd = 0x44 then bindR (rdBuf 1) (\<lambda>buf. retR \<lparr>qq_Base = dd, SpecificValue = ucast (buf ! 0)\<rparr>)
     else bindR (rdBuf 4) (\<lambda>buf. retR \<lparr>qq_Base = dd, SpecificValue = at32 buf 0\<rparr>))"

definition QoS_Descriptor_Parse :: "nat \<Rightarrow> BaseDescriptor \<Rightarrow> QoS_Descriptor rd" where
  "QoS_Descriptor_Parse n d =
     bindR (rdBuf 1) (\<lambda>buf.
     bindR (if buf ! 0 = 0 then rd_loop n (\<lambda>qs. bindR qos_qualifier (\<lambda>q. retR (qs @ [q]))) (uint (bd_Size d) - 1) [] else retR []) (\<lambda>qs.
     retR \<lparr>qos_Base = d, Predefined = buf ! 0, Qualifiers = qs\<rparr>))"

text \<open>Each round writes the first qualifier, its value by one byte, and looks at the tag of the descriptor.\<close>

definition QoS_Descriptor_Serialize :: "QoS_Descriptor \<Rightarrow> bytes" where
  "QoS_Descriptor_Serialize d =
     BaseDescriptor_Serialize (qos_Base d) @ [Predefined d] @
     concat (map (\<lambda>q. let q = Qualifiers d ! 0 in
       BaseDescriptor_Serialize (qq_Base q) @
       (if Tag (qos_Base d) = 0x44 then [ucast (SpecificValue q)] else take 1 (u32be (SpecificValue q)))) (Qualifiers d))"

section \<open>Synchronisation layer\<close>

record SLConfigDescriptor =
  sl_Base :: BaseDescriptor
  sl_PreDefined :: byte
  UseAccessUnitStartFlag1Bit :: byte
  UseAccessUnitEndFlag1Bit :: byte
  UseRandomAccessPointFlag1Bit :: byte
  HasRandomAccessUnitsOnlyFlag1Bit :: byte
  UsePaddingFlag1Bit :: byte
  UseTimeStampsFlag1Bit :: byte
  UseIdleFlag1Bit :: byte
  DurationFlag1Bit :: byte
  TimeStampResolution :: u32
  OCRResolution :: u32
  TimeStampLength :: byte
  OCRLength :: byte
  AU_Length :: byte
  InstantBitrateLength :: byte
  DegradationPriorityLength4Bit :: byte
  AU_seqNumLength5Bit :: byte
  PacketSeqNumLength5Bit :: byte
  sl_Reserved2Bit :: byte
  TimeScale :: u32
  AccessUnitDuration :: u16
  CompositionUnitDuration :: u16
  StartDecodingTimeStamp :: u64
  StartCompositionTimeStamp :: u64

definition new_SLConfig :: "BaseDescriptor \<Rightarrow> byte \<Rightarrow> SLConfigDescriptor" where
  "new_SLConfig d pre =
     \<lparr>sl_Base = d, sl_PreDefined = pre, UseAccessUnitStartFlag1Bit = 0, UseAccessUnitEndFlag1Bit = 0,
      UseRandomAccessPointFlag1Bit = 0, HasRandomAccessUnitsOnlyFlag1Bit = 0, UsePaddingFlag1Bit = 0,
      UseTimeStampsFlag1Bit = 0, UseIdleFlag1Bit = 0, DurationFlag1Bit = 0, TimeStampResolution = 0, OCRResolution = 0,
      TimeStampLength = 0, OCRLength = 0, AU_Length = 0, InstantBitrateLength = 0, DegradationPriorityLength4Bit = 0,
      AU_seqNumLength5Bit = 0, PacketSeqNumLength5Bit = 0, sl_Reserved2Bit = 0, TimeScale = 0, AccessUnitDuration = 0,
      CompositionUnitDuration = 0, StartDecodingTimeStamp = 0, StartCompositionTimeStamp = 0\<rparr>"

definition sl_flags :: "bytes \<Rightarrow> SLConfigDescriptor \<Rightarrow> SLConfigDescriptor" where
  "sl_flags buf d =
     d\<lparr>UseAccessUnitStartFlag1Bit := buf ! 0 AND 0x80, UseAccessUnitEndFlag1Bit := buf ! 0 AND 0x40,
       UseRandomAccessPointFlag1Bit := buf ! 0 AND 0x20, HasRandomAccessUnitsOnlyFlag1Bit := buf ! 0 AND 0x10,
       UsePaddingFlag1Bit := buf ! 0 AND 0x08, UseTimeStampsFlag1Bit := buf ! 0 AND 0x04,
       UseIdleFlag1Bit := buf ! 0 AND 0x02, DurationFlag1Bit := buf ! 0 AND 0x01,
       TimeStampResolution := at32 buf 1, OCRResolution := at32 buf 5, TimeStampLength := buf ! 9, OCRLength := buf ! 10,
       AU_Length := buf ! 11, InstantBitrateLength := buf ! 12,
       DegradationPriorityLength4Bit := drop_bit 4 (buf ! 13 AND 0xF0),
       AU_seqNumLength5Bit := push_bit 1 (buf ! 13 AND 0x0F) OR drop_bit 7 (buf ! 14 AND 0x80),
       PacketSeqNumLength5Bit := drop_bit 2 (buf ! 14 AND 0x7C), sl_Reserved2Bit := buf ! 14 AND 0x03\<rparr>"

text \<open>The buffer has fifteen bytes: a longer time stamp is a slice out of range.\<close>

definition rd_stamp :: "byte \<Rightarrow> u64 rd" where
  "rd_stamp len =
     (if 15 < len then failR slice_panic else bindR (rdBuf (unat len)) (\<lambda>buf. liftR (UVarBE buf)))"

definition SLConfigDescriptor_Parse :: "BaseDescriptor \<Rightarrow> SLConfigDescriptor rd" where
  "SLConfigDescriptor_Parse d =
     bindR (rdBuf 1) (\<lambda>buf.
     let s = new_SLConfig d (buf ! 0) in
     if buf ! 0 \<noteq> 0 then retR s
     else
       bindR (rdBuf 15) (\<lambda>buf. let s = sl_flags buf s in
       bindR (if 0 < DurationFlag1Bit s
              then bindR (rdBuf 8) (\<lambda>buf. retR (s\<lparr>TimeScale := at32 buf 0, AccessUnitDuration := at16 buf 4, CompositionUnitDuration := at16 buf 6\<rparr>))
              else retR s) (\<lambda>s.
       if UseTimeStampsFlag1Bit s = 0
       then bindR (rd_stamp (TimeStampLength s)) (\<lambda>a. bindR (rd_stamp (TimeStampLength s)) (\<lambda>b.
         retR (s\<lparr>StartDecodingTimeStamp := a, StartCompositionTimeStamp := b\<rparr>)))
       else retR s)))"

definition sl_head :: "SLConfigDescriptor \<Rightarrow> bytes" where
  "sl_head d =
     [UseAccessUnitStartFlag1Bit d OR UseAccessUnitEndFlag1Bit d OR UseRandomAccessPointFlag1Bit d OR
      HasRandomAccessUnitsOnlyFlag1Bit d OR UsePaddingFlag1Bit d OR UseTimeStampsFlag1Bit d OR UseIdleFlag1Bit d OR DurationFlag1Bit d] @
     u32be (TimeStampResolution d) @ u32be (OCRResolution d) @
     [TimeStampLength d, OCRLength d, AU_Length d, InstantBitrateLength d,
      push_bit 4 (DegradationPriorityLength4Bit d) OR drop_bit 1 (AU_seqNumLength5Bit d),
      push_bit 7 (AU_seqNumLength5Bit d) OR push_bit 2 (PacketSeqNumLength5Bit d) OR sl_Reserved2Bit d]"

text \<open>The bytes of a time stamp of a length, none for a length that the switch does not list.\<close>

definition stamp_bytes :: "byte \<Rightarrow> u64 \<Rightarrow> bytes" where
  "stamp_bytes len ts =
     (if len = 1 then [ucast ts] else if len = 2 then u16be (ucast ts) else if len = 3 then u24be (ucast ts)
      else if len = 4 then u32be (ucast ts) else if len = 5 then u40be ts else if len = 6 then u48be ts
      else if len = 7 then u56be ts else if len = 8 then u64be ts else [])"

definition put_stamp :: "byte \<Rightarrow> byte \<Rightarrow> u64 \<Rightarrow> bytes \<Rightarrow> bytes res" where
  "put_stamp i len ts buf =
     (let at = unat (i * len) in
      failIf (stamp_bytes len ts \<noteq> [] \<and> length buf < at + length (stamp_bytes len ts)) slice_panic
      (Inr (if stamp_bytes len ts = [] then buf else store_at at (stamp_bytes len ts) buf)))"

text \<open>
  Both time stamps are overwritten with the variable-length number in the buffer (the header, or the
  duration over its front) before they are written.
\<close>

definition sl_stamps :: "SLConfigDescriptor \<Rightarrow> bytes \<Rightarrow> bytes res" where
  "sl_stamps d buf =
     (let len = TimeStampLength d in
      bindE (UVarBE buf) (\<lambda>ts.
      bindE (put_stamp 0 len ts buf) (\<lambda>buf.
      bindE (put_stamp 1 len ts buf) (\<lambda>buf.
      failIf (15 < len * 2) slice_panic (Inr (take (unat (len * 2)) buf))))))"

definition SLConfigDescriptor_Serialize :: "SLConfigDescriptor \<Rightarrow> bytes res" where
  "SLConfigDescriptor_Serialize d =
     (if sl_PreDefined d \<noteq> 0 then Inr (BaseDescriptor_Serialize (sl_Base d) @ [sl_PreDefined d])
      else
        let duration = u32be (TimeScale d) @ u16be (AccessUnitDuration d) @ u16be (CompositionUnitDuration d);
            timed = 0 < DurationFlag1Bit d;
            buf = (if timed then store_at 0 duration (sl_head d) else sl_head d) in
        bindE (if UseTimeStampsFlag1Bit d = 0 then sl_stamps d buf else Inr []) (\<lambda>stamps.
        Inr (BaseDescriptor_Serialize (sl_Base d) @ [sl_PreDefined d] @ sl_head d @ (if timed then duration else []) @ stamps)))"

section \<open>Decoder configuration, elementary stream, and descriptors of any kind\<close>

record DecoderConfigDescriptor =
  dc_Base :: BaseDescriptor
  ObjectTypeIndication :: byte
  StreamType :: byte
  UpStream :: byte
  dc_Reserved :: byte
  BufferSizeDB :: u32
  MaxBitrate :: u32
  AvgBitrate :: u32
  DecoderConfig :: "DecoderSpecificInfo option"
  ProfileLevelIdcIdxDescr :: "ProfileLevelIndicationIndexDescriptor list"

record ES_Descriptor =
  es_Base :: BaseDescriptor
  ES_ID :: u16
  StreamDependenceFlag :: byte
  URLFlag :: byte
  OCRstreamFlag :: byte
  StreamPriority :: byte
  es_DecoderConfig :: DecoderConfigDescriptor
  SlConfigDescr :: "SLConfigDescriptor option"
  IpiPtr :: "IPI_DescrPointer option"
  IpIDS :: "DecoderSpecificInfo list"
  IpmpDescrPtr :: "IPMP_DescriptorPointer list"
  LangDescr :: "LanguageDescriptor list"
  QosDescr :: "QoS_Descriptor option"
  RegDescr :: "RegistrationDescriptor option"
  ExtDescr :: "DecoderSpecificInfo list"

datatype iTag =
    TagSpecific DecoderSpecificInfo
  | TagProfile ProfileLevelIndicationIndexDescriptor
  | TagDecoder DecoderConfigDescriptor
  | TagIPI IPI_DescrPointer
  | TagIPMP IPMP_DescriptorPointer
  | TagLanguage LanguageDescriptor
  | TagRegistration RegistrationDescriptor
  | TagQoS QoS_Descriptor
  | TagSL SLConfigDescriptor
  | TagES ES_Descriptor

definition conversion_panic :: go_error where
  "conversion_panic = Panic ''interface conversion: interface is not the type''"

fun GetTag :: "iTag \<Rightarrow> byte" where
  "GetTag (TagSpecific d) = Tag (dsi_Base d)"
| "GetTag (TagProfile d) = Tag (plii_Base d)"
| "GetTag (TagDecoder d) = Tag (dc_Base d)"
| "GetTag (TagIPI d) = Tag (ipi_Base d)"
| "GetTag (TagIPMP d) = Tag (ipmp_Base d)"
| "GetTag (TagLanguage d) = Tag (lang_Base d)"
| "GetTag (TagRegistration d) = Tag (reg_Base d)"
| "GetTag (TagQoS d) = Tag (qos_Base d)"
| "GetTag (TagSL d) = Tag (sl_Base d)"
| "GetTag (TagES d) = Tag (es_Base d)"

definition dc_add :: "DecoderConfigDescriptor \<Rightarrow> iTag \<Rightarrow> DecoderConfigDescriptor res" where
  "dc_add d t =
     (if GetTag t = 0x14 then (case t of TagProfile p \<Rightarrow> Inr (d\<lparr>ProfileLevelIdcIdxDescr := ProfileLevelIdcIdxDescr d @ [p]\<rparr>) | _ \<Rightarrow> Inl conversion_panic)
      else if GetTag t = 0x05 then (case t of TagSpecific p \<Rightarrow> Inr (d\<lparr>DecoderConfig := Some p\<rparr>) | _ \<Rightarrow> Inl conversion_panic)
      else Inr d)"

definition es_add :: "ES_Descriptor \<Rightarrow> iTag \<Rightarrow> ES_Descriptor res" where
  "es_add d t =
     (let g = GetTag t in
      if g = 0x06 then (case t of TagSL p \<Rightarrow> Inr (d\<lparr>SlConfigDescr := Some p\<rparr>) | _ \<Rightarrow> Inl conversion_panic)
      else if g = 0x09 then (case t of TagIPI p \<Rightarrow> Inr (d\<lparr>IpiPtr := Some p\<rparr>) | _ \<Rightarrow> Inl conversion_panic)
      else if g = 0x07 \<or> g = 0x08 then (case t of TagSpecific p \<Rightarrow> Inr (d\<lparr>IpIDS := IpIDS d @ [p]\<rparr>) | _ \<Rightarrow> Inl conversion_panic)
      else if g = 0x0A then (case t of TagIPMP p \<Rightarrow> Inr (d\<lparr>IpmpDescrPtr := IpmpDescrPtr d @ [p]\<rparr>) | _ \<Rightarrow> Inl conversion_panic)
      else if g = 0x43 then (case t of TagLanguage p \<Rightarrow> Inr (d\<lparr>LangDescr := LangDescr d @ [p]\<rparr>) | _ \<Rightarrow> Inl conversion_panic)
      else if g = 0x0C then (case t of TagQoS p \<Rightarrow> Inr (d\<lparr>QosDescr := Some p\<rparr>) | _ \<Rightarrow> Inl conversion_panic)
      else if g = 0x0D then (case t of TagRegistration p \<Rightarrow> Inr (d\<lparr>RegDescr := Some p\<rparr>) | _ \<Rightarrow> Inl conversion_panic)
      else if g = 0x13 then (case t of TagSpecific p \<Rightarrow> Inr (d\<lparr>ExtDescr := ExtDescr d @ [p]\<rparr>) | _ \<Rightarrow> Inl conversion_panic)
      else Inr d)"

text \<open>\<open>one\<close> is \<open>parseOneTag\<close>, \<open>n\<close> the fuel of the loop.\<close>

definition DecoderConfigDescriptor_Parse :: "nat \<Rightarrow> iTag rd \<Rightarrow> BaseDescriptor \<Rightarrow> DecoderConfigDescriptor rd" where
  "DecoderConfigDescriptor_Parse n one d =
     bindR (rdBuf 13) (\<lambda>buf.
     rd_loop n (\<lambda>d. bindR one (\<lambda>t. liftR (dc_add d t))) (uint (bd_Size d) - 13)
       \<lparr>dc_Base = d, ObjectTypeIndication = buf ! 0, StreamType = drop_bit 2 (buf ! 1), UpStream = drop_bit 1 (buf ! 1 AND 0x02),
        dc_Reserved = buf ! 1 AND 0x01, BufferSizeDB = at24 buf 2, MaxBitrate = at32 buf 5, AvgBitrate = at32 buf 9,
        DecoderConfig = None, ProfileLevelIdcIdxDescr = []\<rparr>)"

definition ES_Descriptor_Parse :: "nat \<Rightarrow> iTag rd \<Rightarrow> BaseDescriptor \<Rightarrow> ES_Descriptor rd" where
  "ES_Descriptor_Parse n one d =
     bindR (rdBuf 3) (\<lambda>buf.
     if Tag d \<noteq> 0x03 then failR (Errorf ''expect ES_DescrTag:%d but:%d'')
     else bindR (counted (bindR BaseDescriptor_Parse (DecoderConfigDescriptor_Parse n one))) (\<lambda>(dc, k).
       rd_loop n (\<lambda>d. bindR one (\<lambda>t. liftR (es_add d t))) (uint (bd_Size d) - int (3 + k))
         \<lparr>es_Base = d, ES_ID = at16 buf 0, StreamDependenceFlag = buf ! 2 AND 0x80, URLFlag = buf ! 2 AND 0x40,
          OCRstreamFlag = buf ! 2 AND 0x20, StreamPriority = buf ! 2 AND 0x1F, es_DecoderConfig = dc, SlConfigDescr = None,
          IpiPtr = None, IpIDS = [], IpmpDescrPtr = [], LangDescr = [], QosDescr = None, RegDescr = None, ExtDescr = []\<rparr>))"

definition parse_body :: "nat \<Rightarrow> iTag rd \<Rightarrow> BaseDescriptor \<Rightarrow> iTag rd" where
  "parse_body n one d =
     (let g = Tag d in
      if g = 0x03 then bindR (ES_Descriptor_Parse n one d) (retR \<circ> TagES)
      else if g = 0x04 \<or> g = 0x07 \<or> g = 0x08 \<or> g = 0x13 then bindR (DecoderConfigDescriptor_Parse n one d) (retR \<circ> TagDecoder)
      else if g = 0x14 then bindR (ProfileLevelIndicationIndexDescriptor_Parse d) (retR \<circ> TagProfile)
      else if g = 0x09 then bindR (IPI_DescrPointer_Parse d) (retR \<circ> TagIPI)
      else if g = 0x0A then bindR (IPMP_DescriptorPointer_Parse d) (retR \<circ> TagIPMP)
      else if g = 0x43 then bindR (LanguageDescriptor_Parse d) (retR \<circ> TagLanguage)
      else if g = 0x0D then bindR (RegistrationDescriptor_Parse d) (retR \<circ> TagRegistration)
      else if g = 0x0C then bindR (QoS_Descriptor_Parse n d) (retR \<circ> TagQoS)
      else if g = 0x06 then bindR (SLConfigDescriptor_Parse d) (retR \<circ> TagSL)
      else bindR (DecoderSpecificInfo_Parse d) (retR \<circ> TagSpecific))"

fun parseOneTag :: "nat \<Rightarrow> iTag rd" where
  "parseOneTag 0 r = Inl Hang"
| "parseOneTag (Suc n) r = bindR BaseDescriptor_Parse (parse_body n (parseOneTag n)) r"

definition DecoderConfigDescriptor_Serialize :: "DecoderConfigDescriptor \<Rightarrow> bytes" where
  "DecoderConfigDescriptor_Serialize d =
     BaseDescriptor_Serialize (dc_Base d) @
     [ObjectTypeIndication d, push_bit 2 (StreamType d) OR push_bit 1 (UpStream d) OR dc_Reserved d] @
     u24be (BufferSizeDB d) @ u32be (MaxBitrate d) @ u32be (AvgBitrate d) @
     (case DecoderConfig d of Some c \<Rightarrow> DecoderSpecificInfo_Serialize c | None \<Rightarrow> []) @
     concat (map ProfileLevelIndicationIndexDescriptor_Serialize (ProfileLevelIdcIdxDescr d))"

definition ser_opt :: "('a \<Rightarrow> bytes) \<Rightarrow> 'a option \<Rightarrow> bytes" where
  "ser_opt f x = (case x of Some v \<Rightarrow> f v | None \<Rightarrow> [])"

definition ES_Descriptor_Serialize :: "ES_Descriptor \<Rightarrow> bytes res" where
  "ES_Descriptor_Serialize d =
     bindE (case SlConfigDescr d of Some s \<Rightarrow> SLConfigDescriptor_Serialize s | None \<Rightarrow> Inr []) (\<lambda>sl.
     Inr (BaseDescriptor_Serialize (es_Base d) @ u16be (ES_ID d) @
       [StreamDependenceFlag d OR URLFlag d OR OCRstreamFlag d OR StreamPriority d] @
       DecoderConfigDescriptor_Serialize (es_DecoderConfig d) @ sl @ ser_opt IPI_DescrPointer_Serialize (IpiPtr d) @
       concat (map DecoderSpecificInfo_Serialize (IpIDS d)) @ concat (map IPMP_DescriptorPointer_Serialize (IpmpDescrPtr d)) @
       concat (map LanguageDescriptor_Serialize (LangDescr d)) @ ser_opt QoS_Descriptor_Serialize (QosDescr d) @
       ser_opt RegistrationDescriptor_Serialize (RegDescr d) @ concat (map DecoderSpecificInfo_Serialize (ExtDescr d))))"

section \<open>The box of an elementary stream\<close>

record EsdsBox =
  esds_FullBox :: FullBox
  EsDescr :: ES_Descriptor

definition tag_fuel :: "bytes \<Rightarrow> nat" where
  "tag_fuel r = Suc (length r)"

definition EsdsBox_Parse :: "Box \<Rightarrow> EsdsBox rd" where
  "EsdsBox_Parse b r =
     (let n = tag_fuel r in
      bindR (FullBox_Parse b 0 (\<not> FULLBOX_ANY_VERSION) 0) (\<lambda>f.
      bindR BaseDescriptor_Parse (\<lambda>bd.
      bindR (ES_Descriptor_Parse n (parseOneTag n) bd) (\<lambda>es. retR \<lparr>esds_FullBox = f, EsDescr = es\<rparr>))) r)"

definition EsdsBox_Serialize :: "EsdsBox \<Rightarrow> bytes res" where
  "EsdsBox_Serialize b = bindE (ES_Descriptor_Serialize (EsDescr b)) (\<lambda>w. Inr (FullBox_Serialize (esds_FullBox b) @ w))"

section \<open>The length of a descriptor\<close>

lemma bit_consts:
  "bit (0x80000000 :: u32) n \<longleftrightarrow> n = 31" "bit (0x800000 :: u32) n \<longleftrightarrow> n = 23" "bit (0x8000 :: u32) n \<longleftrightarrow> n = 15"
  "bit (0x80 :: byte) n \<longleftrightarrow> n = 7"
  "bit (0xFF000000 :: u32) n \<longleftrightarrow> 24 \<le> n \<and> n < 32" "bit (0xFF0000 :: u32) n \<longleftrightarrow> 16 \<le> n \<and> n < 24"
  "bit (0xFF00 :: u32) n \<longleftrightarrow> 8 \<le> n \<and> n < 16" "bit (0x7F :: u32) n \<longleftrightarrow> n < 7" "bit (0x7F :: byte) n \<longleftrightarrow> n < 7"
proof -
  have m: "(0x80000000 :: u32) = push_bit 31 1" "(0xFF000000 :: u32) = push_bit 24 (mask 8)" "(0x800000 :: u32) = push_bit 23 1"
    "(0xFF0000 :: u32) = push_bit 16 (mask 8)" "(0x8000 :: u32) = push_bit 15 1" "(0xFF00 :: u32) = push_bit 8 (mask 8)"
    "(0x7F :: u32) = mask 7" "(0x7F :: byte) = mask 7" "(0x80 :: byte) = push_bit 7 1"
    by (simp_all add: mask_eq_exp_minus_1)
  note bits = bit_push_bit_iff bit_mask_iff bit_1_iff possible_bit_word
  show "bit (0x80000000 :: u32) n \<longleftrightarrow> n = 31" "bit (0x800000 :: u32) n \<longleftrightarrow> n = 23" "bit (0x8000 :: u32) n \<longleftrightarrow> n = 15"
    "bit (0x80 :: byte) n \<longleftrightarrow> n = 7"
    unfolding m bits by auto
  show "bit (0xFF000000 :: u32) n \<longleftrightarrow> 24 \<le> n \<and> n < 32" "bit (0xFF0000 :: u32) n \<longleftrightarrow> 16 \<le> n \<and> n < 24"
    "bit (0xFF00 :: u32) n \<longleftrightarrow> 8 \<le> n \<and> n < 16" "bit (0x7F :: u32) n \<longleftrightarrow> n < 7" "bit (0x7F :: byte) n \<longleftrightarrow> n < 7"
    unfolding m bits by auto
qed

lemma tag_length_bytes:
  "u32be (tag_length_word s) = [0x80 OR ucast (take_bit 7 (drop_bit 21 s)), 0x80 OR ucast (take_bit 7 (drop_bit 14 s)),
     0x80 OR ucast (take_bit 7 (drop_bit 7 s)), ucast (take_bit 7 s)]"
proof -
  define d where "d = push_bit 1 s"
  have d: "bit d n \<longleftrightarrow> 1 \<le> n \<and> n < 32 \<and> bit s (n - 1)" for n unfolding d_def bit_push_bit_iff possible_bit_word by auto
  have s: "bit s n \<Longrightarrow> n < 32" for n by (drule bit_imp_le_length) simp
  note bits = bit_unsigned_iff bit_drop_bit_eq comp_def bit_and_iff bit_or_iff bit_take_bit_iff bit_consts bit_push_bit_iff possible_bit_word d
  show ?thesis unfolding u32be_def tag_length_word_def d_def[symmetric] list.inject
    by (intro conjI refl; rule bit_word_eqI; simp only: bits) (auto dest: s)
qed

lemma tag_length_byte:
  "(0x80 OR ucast (take_bit 7 x)) AND 0x80 \<noteq> (0 :: byte)" "ucast (take_bit 7 x) AND 0x80 = (0 :: byte)"
  "(ucast ((0x80 OR ucast (take_bit 7 x)) AND 0x7F :: byte) :: u32) = take_bit 7 x"
  "(ucast (ucast (take_bit 7 x) AND 0x7F :: byte) :: u32) = take_bit 7 x" for x :: u32
proof -
  have "bit ((0x80 OR ucast (take_bit 7 x)) AND 0x80 :: byte) 7" by (simp only: bit_and_iff bit_or_iff bit_consts simp_thms)
  then show "(0x80 OR ucast (take_bit 7 x)) AND 0x80 \<noteq> (0 :: byte)" by (metis bit_0_eq bot_apply bot_bool_def)
qed (rule bit_word_eqI; simp only: bit_unsigned_iff bit_and_iff bit_or_iff bit_take_bit_iff bit_consts possible_bit_word bit_0_eq bot_apply bot_bool_def; auto)+

lemma getTagLength_written:
  "getTagLength (u32be (tag_length_word s)) = push_bit 7 (take_bit 7 (drop_bit 21 s OR drop_bit 14 s OR drop_bit 7 s)) OR take_bit 7 s"
  unfolding tag_length_bytes getTagLength_def
  by (simp add: tag_length_byte del: or_numerals push_bit_or) (simp add: ac_simps)

lemma small_iff_take_bit: "s < 0x4000 \<longleftrightarrow> take_bit 14 s = s" for s :: u32
  by (simp add: word_less_nat_alt word_unat_eq_iff unsigned_take_bit_eq take_bit_nat_eq_self_iff)

lemma tag_length_small: "push_bit 7 (take_bit 7 (drop_bit 21 s OR drop_bit 14 s OR drop_bit 7 s)) OR take_bit 7 s = s \<longleftrightarrow> s < 0x4000" (is "?x = s \<longleftrightarrow> _") for s :: u32
proof
  have "take_bit 14 ?x = ?x" by (rule bit_word_eqI) (auto simp: bit_simps)
  then show "s < 0x4000" if "?x = s" using that small_iff_take_bit by metis
next
  assume "s < 0x4000"
  then have t: "take_bit 14 s = s" by (simp add: small_iff_take_bit)
  have s: "bit s n \<Longrightarrow> n < 14" for n using t by (metis bit_take_bit_iff)
  show "?x = s"
  proof (rule bit_word_eqI)
    fix n
    show "bit ?x n = bit s n"
      using s[of "14 + n"] s[of "21 + n"] s[of "14 + (n - 7)"] s[of "21 + (n - 7)"] s[of n] by (cases "n < 7") (auto simp: bit_simps)
  qed
qed

lemma BaseDescriptor_written:
  "BaseDescriptor_Parse (BaseDescriptor_Serialize d @ r) = Inr
     (d\<lparr>bd_Size := push_bit 7 (take_bit 7 (drop_bit 21 (bd_Size d) OR drop_bit 14 (bd_Size d) OR drop_bit 7 (bd_Size d))) OR take_bit 7 (bd_Size d)\<rparr>, 5, r)"
proof -
  have "rdBuf 5 ((Tag d # u32be (tag_length_word (bd_Size d))) @ r) = Inr (Tag d # u32be (tag_length_word (bd_Size d)), 5, r)"
    using readsD[OF reads_buf[of "Tag d # u32be (tag_length_word (bd_Size d))" 5]] by simp
  then show ?thesis
    by (simp add: BaseDescriptor_Parse_def BaseDescriptor_Serialize_def bindR_def retR_def getTagLength_written)
qed

text \<open>C39: The length of a descriptor survives being written and read exactly when it is below 16384: the reader
  keeps only two groups of seven bits and merges the higher ones into them.\<close>

theorem descriptor_length_iff:
  "BaseDescriptor_Parse (BaseDescriptor_Serialize d @ r) = Inr (d, 5, r) \<longleftrightarrow> bd_Size d < 0x4000"
  unfolding BaseDescriptor_written tag_length_small[symmetric] by (cases d) simp

lemma reads_BaseDescriptor: "bd_Size d < 0x4000 \<Longrightarrow> reads BaseDescriptor_Parse (BaseDescriptor_Serialize d) d"
  using BaseDescriptor_written[of d] tag_length_small[of "bd_Size d"] by (simp add: reads_def BaseDescriptor_Serialize_def)

section \<open>Every descriptor is read in finitely many rounds\<close>

lemma eats_counted [eating]: "eats k m \<Longrightarrow> eats k (counted m)"
  by (fastforce simp: eats_def counted_def bindE_eq_Inr)

lemma ends_counted [ending]: "ends a n m \<Longrightarrow> ends a n (counted m)"
  by (auto simp: ends_def counted_def bindE_eq_Inl)

lemma reads_counted: "reads m w x \<Longrightarrow> reads (counted m) w (x, length w)"
  by (simp add: reads_def counted_def)

lemma eats_lift [eating]: "eats 0 (liftR m)"
  by (auto simp: eats_def liftR_def bindE_eq_Inr)

lemma ends_lift [ending]: "m \<noteq> Inl Hang \<Longrightarrow> ends a n (liftR m)"
  by (auto simp: ends_def liftR_def bindE_eq_Inl)

lemma eats_BaseDescriptor: "eats 5 BaseDescriptor_Parse"
  unfolding BaseDescriptor_Parse_def by (intro eats_bind_first eating)

lemma eats_BaseDescriptor0 [eating]: "eats 0 BaseDescriptor_Parse"
  by (rule eats_less[OF eats_BaseDescriptor]) simp

lemma ends_BaseDescriptor [ending]: "ends a n BaseDescriptor_Parse"
  unfolding BaseDescriptor_Parse_def by (intro ending eating)

lemma add_no_hang: "dc_add d t \<noteq> Inl Hang" "es_add e t \<noteq> Inl Hang"
  by (cases t; simp add: dc_add_def es_add_def conversion_panic_def Let_def)+

lemma UVarBE_no_hang: "UVarBE b \<noteq> Inl Hang"
proof -
  have "UVarBE_loop b i \<noteq> Inl Hang" for i by (induction b i rule: UVarBE_loop.induct) auto
  then show ?thesis by (simp add: UVarBE_def)
qed

lemmas tag_parse_defs = DecoderSpecificInfo_Parse_def ProfileLevelIndicationIndexDescriptor_Parse_def IPI_DescrPointer_Parse_def
  IPMP_DescriptorPointer_Parse_def LanguageDescriptor_Parse_def RegistrationDescriptor_Parse_def SLConfigDescriptor_Parse_def
  rd_stamp_def qos_qualifier_def QoS_Descriptor_Parse_def DecoderConfigDescriptor_Parse_def parse_body_def Let_def comp_def

lemma eats_prod [eating]: "(\<And>a b. eats k (f a b)) \<Longrightarrow> eats k (case p of (a, b) \<Rightarrow> f a b)"
  by (cases p) simp

lemma ends_prod [ending]: "(\<And>x y. ends a k (f x y)) \<Longrightarrow> ends a k (case p of (x, y) \<Rightarrow> f x y)"
  by (cases p) simp

lemma eats_step: "eats 5 one \<Longrightarrow> (\<And>x. eats 0 (f x)) \<Longrightarrow> eats 1 (bindR one f)"
  by (rule eats_less[OF eats_bind_first[of 5]]) auto

lemma eats_body [eating]: "eats 0 one \<Longrightarrow> eats 0 (parse_body n one d)"
  unfolding tag_parse_defs ES_Descriptor_Parse_def by (intro eating)

lemma eats_qualifier: "eats 5 qos_qualifier"
  unfolding qos_qualifier_def by (intro eats_bind_first[OF eats_BaseDescriptor] eating)

lemma ends_body: "ends a n one \<Longrightarrow> eats 5 one \<Longrightarrow> ends a n (parse_body n one d)"
proof -
  assume one: "ends a n one" "eats 5 one"
  have one0: "eats 0 one" by (rule eats_less[OF one(2)]) simp
  have q: "ends a n qos_qualifier" unfolding qos_qualifier_def by (intro ending eating)
  have q0: "eats 0 qos_qualifier" by (rule eats_less[OF eats_qualifier]) simp
  have loops: "ends a n (rd_loop n (\<lambda>d. bindR one (\<lambda>t. liftR (dc_add d t))) k s)"
    "ends a n (rd_loop n (\<lambda>d. bindR one (\<lambda>t. liftR (es_add d t))) k e)"
    "ends a n (rd_loop n (\<lambda>qs. bindR qos_qualifier (\<lambda>q. retR (qs @ [q]))) k qs)" for k s e qs
    by (intro ending one one0 q q0 eats_step[OF one(2)] eats_step[OF eats_qualifier] eating add_no_hang order_refl)+
  show ?thesis
    unfolding parse_body_def Let_def comp_def ES_Descriptor_Parse_def DecoderConfigDescriptor_Parse_def QoS_Descriptor_Parse_def
      DecoderSpecificInfo_Parse_def ProfileLevelIndicationIndexDescriptor_Parse_def IPI_DescrPointer_Parse_def
      IPMP_DescriptorPointer_Parse_def LanguageDescriptor_Parse_def RegistrationDescriptor_Parse_def SLConfigDescriptor_Parse_def rd_stamp_def
    by (intro loops ending eating one0 q0 UVarBE_no_hang go_error.distinct)
qed

lemma eats_parseOneTag: "eats 5 (parseOneTag n)"
proof (induction n)
  case 0
  show ?case by (simp add: eats_def)
next
  case (Suc n)
  have "eats 0 (parseOneTag n)" by (rule eats_less[OF Suc]) simp
  then have "eats 5 (bindR BaseDescriptor_Parse (parse_body n (parseOneTag n)))"
    by (intro eats_bind_first[OF eats_BaseDescriptor] eating)
  then show ?case by (simp add: eats_def)
qed

lemma parseOneTag_no_hang: "ends a n (parseOneTag n)"
proof (induction n)
  case (Suc n)
  have "ends a (Suc n) (bindR BaseDescriptor_Parse (parse_body n (parseOneTag n)))"
    by (rule ends_bind_eats[OF ends_BaseDescriptor eats_BaseDescriptor])
      (rule ends_less[OF ends_body[OF Suc eats_parseOneTag]], simp)
  then show ?case by (simp add: ends_def)
qed (simp add: ends_def)

lemma eats_FullBox0 [eating]: "eats 0 (FullBox_Parse b v isAny fl)"
  unfolding FullBox_Parse_def Let_def by (intro eating)

lemma ends_FullBox [ending]: "ends a n (FullBox_Parse b v isAny fl)"
  unfolding FullBox_Parse_def Let_def by (intro ending eating go_error.distinct)

lemma eats_Esds [eating]: "eats 0 (EsdsBox_Parse b)"
proof -
  have "eats 0 (bindR (FullBox_Parse b 0 (\<not> FULLBOX_ANY_VERSION) 0) (\<lambda>f. bindR BaseDescriptor_Parse (\<lambda>bd.
      bindR (ES_Descriptor_Parse n (parseOneTag n) bd) (\<lambda>es. retR \<lparr>esds_FullBox = f, EsDescr = es\<rparr>))))" for n
    unfolding ES_Descriptor_Parse_def DecoderConfigDescriptor_Parse_def
    by (intro eating eats_less[OF eats_parseOneTag]) simp_all
  then show ?thesis by (simp add: eats_def EsdsBox_Parse_def Let_def)
qed

lemma ends_Esds [ending]: "ends a n (EsdsBox_Parse b)"
  unfolding ends_def
proof (intro allI impI)
  fix r assume r: "avoids a r"
  let ?n = "tag_fuel r"
  have one0: "eats 0 (parseOneTag ?n)" by (rule eats_less[OF eats_parseOneTag]) simp
  have loops: "ends a ?n (rd_loop ?n (\<lambda>d. bindR (parseOneTag ?n) (\<lambda>t. liftR (dc_add d t))) k s)"
    "ends a ?n (rd_loop ?n (\<lambda>d. bindR (parseOneTag ?n) (\<lambda>t. liftR (es_add d t))) k e)" for k s e
    by (intro ending parseOneTag_no_hang one0 eats_step[OF eats_parseOneTag] eating add_no_hang order_refl)+
  have "ends a ?n (bindR (FullBox_Parse b 0 (\<not> FULLBOX_ANY_VERSION) 0) (\<lambda>f. bindR BaseDescriptor_Parse (\<lambda>bd.
      bindR (ES_Descriptor_Parse ?n (parseOneTag ?n) bd) (\<lambda>es. retR \<lparr>esds_FullBox = f, EsDescr = es\<rparr>))))"
    unfolding ES_Descriptor_Parse_def DecoderConfigDescriptor_Parse_def
    by (intro loops ending eating one0 go_error.distinct)
  from endsD[OF this, of r] r show "EsdsBox_Parse b r \<noteq> Inl Hang" by (simp add: EsdsBox_Parse_def Let_def tag_fuel_def)
qed

section \<open>An elementary stream as the muxer writes it\<close>

definition dsi_ok :: "DecoderSpecificInfo \<Rightarrow> bool" where
  "dsi_ok c \<longleftrightarrow> Tag (dsi_Base c) = 5 \<and> bd_Size (dsi_Base c) < 0x4000 \<and> unat (bd_Size (dsi_Base c)) = length (dsi_RawData c)"

definition sl_ok :: "SLConfigDescriptor \<Rightarrow> bool" where
  "sl_ok s \<longleftrightarrow> Tag (sl_Base s) = 6 \<and> bd_Size (sl_Base s) < 0x4000 \<and> sl_PreDefined s \<noteq> 0 \<and>
     new_SLConfig (sl_Base s) (sl_PreDefined s) = s"

lemma reads_body:
  assumes "reads (parse_body n (parseOneTag n) d) w t" "bd_Size d < 0x4000"
  shows "reads (parseOneTag (Suc n)) (BaseDescriptor_Serialize d @ w) t"
proof -
  have "reads (bindR BaseDescriptor_Parse (parse_body n (parseOneTag n))) (BaseDescriptor_Serialize d @ w) t"
    by (rule reads_bind[OF reads_BaseDescriptor[OF assms(2)]]) (rule assms(1))
  then show ?thesis by (simp only: reads_def parseOneTag.simps simp_thms)
qed

lemma reads_dsi:
  assumes "dsi_ok c"
  shows "reads (parseOneTag (Suc n)) (DecoderSpecificInfo_Serialize c) (TagSpecific c)"
proof -
  note ok = assms[unfolded dsi_ok_def]
  have "reads (DecoderSpecificInfo_Parse (dsi_Base c)) (dsi_RawData c) c"
    unfolding DecoderSpecificInfo_Parse_def by (intro reads_buf_last reads_ret) (use ok in simp_all)
  then have "reads (parse_body n (parseOneTag n) (dsi_Base c)) (dsi_RawData c) (TagSpecific c)"
    using ok by (auto simp: parse_body_def intro!: reads_bind_last reads_ret)
  then show ?thesis unfolding DecoderSpecificInfo_Serialize_def by (rule reads_body) (use ok in simp)
qed

lemma reads_sl:
  assumes "sl_ok s"
  shows "SLConfigDescriptor_Serialize s = Inr (BaseDescriptor_Serialize (sl_Base s) @ [sl_PreDefined s]) \<and>
    reads (parseOneTag (Suc n)) (BaseDescriptor_Serialize (sl_Base s) @ [sl_PreDefined s]) (TagSL s)"
proof -
  note ok = assms[unfolded sl_ok_def]
  have "reads (SLConfigDescriptor_Parse (sl_Base s)) [sl_PreDefined s] s"
    unfolding SLConfigDescriptor_Parse_def by (intro reads_buf_last) (use ok in \<open>auto simp: Let_def intro: reads_ret\<close>)
  then have "reads (parse_body n (parseOneTag n) (sl_Base s)) [sl_PreDefined s] (TagSL s)"
    using ok by (auto simp: parse_body_def intro!: reads_bind_last reads_ret)
  then have "reads (parseOneTag (Suc n)) (BaseDescriptor_Serialize (sl_Base s) @ [sl_PreDefined s]) (TagSL s)"
    by (rule reads_body) (use ok in simp)
  then show ?thesis using ok by (simp add: SLConfigDescriptor_Serialize_def)
qed

definition dc_ok :: "DecoderConfigDescriptor \<Rightarrow> bool" where
  "dc_ok d \<longleftrightarrow> (case DecoderConfig d of Some c \<Rightarrow> dsi_ok c \<and> unat (bd_Size (dc_Base d)) = 18 + length (dsi_RawData c) | None \<Rightarrow> False) \<and>
     ProfileLevelIdcIdxDescr d = [] \<and> bd_Size (dc_Base d) < 0x4000 \<and>
     StreamType d < 64 \<and> UpStream d < 2 \<and> dc_Reserved d < 2 \<and> take_bit 24 (BufferSizeDB d) = BufferSizeDB d"

lemma stream_bits:
  fixes a b c :: byte
  assumes "a < 64" "b < 2" "c < 2"
  shows "drop_bit 2 (push_bit 2 a OR push_bit 1 b OR c) = a" and "drop_bit 1 ((push_bit 2 a OR push_bit 1 b OR c) AND 0x02) = b"
    and "(push_bit 2 a OR push_bit 1 b OR c) AND 0x01 = c"
proof -
  have "\<forall>a \<in> set (map of_nat [0..<64]). \<forall>b \<in> set (map of_nat [0..<2]). \<forall>c \<in> set (map of_nat [0..<2]).
      let v = push_bit 2 a OR push_bit 1 b OR c :: byte in drop_bit 2 v = a \<and> drop_bit 1 (v AND 0x02) = b \<and> v AND 0x01 = c"
    by code_simp
  then show "drop_bit 2 (push_bit 2 a OR push_bit 1 b OR c) = a" "drop_bit 1 ((push_bit 2 a OR push_bit 1 b OR c) AND 0x02) = b"
    "(push_bit 2 a OR push_bit 1 b OR c) AND 0x01 = c"
    using byte_below[of a 64] byte_below[of b 2] byte_below[of c 2] assms by (auto simp: Let_def)
qed

lemma unat_uint: "uint x = int (unat x)" for x :: "'a::len word"
  by simp

lemma reads_dc:
  assumes "dc_ok d"
  shows "reads (bindR BaseDescriptor_Parse (DecoderConfigDescriptor_Parse (Suc n) (parseOneTag (Suc n)))) (DecoderConfigDescriptor_Serialize d) d"
proof -
  obtain c where c: "DecoderConfig d = Some c" "dsi_ok c" "unat (bd_Size (dc_Base d)) = 18 + length (dsi_RawData c)"
    and ok: "ProfileLevelIdcIdxDescr d = []" "bd_Size (dc_Base d) < 0x4000" "StreamType d < 64" "UpStream d < 2" "dc_Reserved d < 2"
      "take_bit 24 (BufferSizeDB d) = BufferSizeDB d"
    using assms by (auto simp: dc_ok_def split: option.splits)
  note bits = stream_bits[OF ok(3-5)]
  let ?v = "push_bit 2 (StreamType d) OR push_bit 1 (UpStream d) OR dc_Reserved d"
  let ?h = "[ObjectTypeIndication d, ?v] @ u24be (BufferSizeDB d) @ u32be (MaxBitrate d) @ u32be (AvgBitrate d)"
  have h: "?h ! 0 = ObjectTypeIndication d" "?h ! 1 = ?v" "at24 ?h 2 = BufferSizeDB d" "at32 ?h 5 = MaxBitrate d" "at32 ?h 9 = AvgBitrate d" "length ?h = 13"
    using ok(6) by (simp_all add: field_simps)
  have w: "DecoderConfigDescriptor_Serialize d = BaseDescriptor_Serialize (dc_Base d) @ ?h @ DecoderSpecificInfo_Serialize c"
    using c(1) ok(1) by (simp add: DecoderConfigDescriptor_Serialize_def)
  let ?d0 = "\<lparr>dc_Base = dc_Base d, ObjectTypeIndication = ObjectTypeIndication d, StreamType = StreamType d, UpStream = UpStream d,
    dc_Reserved = dc_Reserved d, BufferSizeDB = BufferSizeDB d, MaxBitrate = MaxBitrate d, AvgBitrate = AvgBitrate d,
    DecoderConfig = None, ProfileLevelIdcIdxDescr = []\<rparr>"
  have add: "dc_add ?d0 (TagSpecific c) = Inr d" using c(1,2) ok(1) by (cases d) (simp add: dc_add_def dsi_ok_def)
  have step: "reads (bindR (parseOneTag (Suc n)) (\<lambda>t. liftR (dc_add ?d0 t))) (DecoderSpecificInfo_Serialize c) d"
    by (rule reads_bind_last[OF reads_dsi[OF c(2)]]) (simp add: add liftR_def reads_def)
  have "reads (rd_loop (Suc n) (\<lambda>d. bindR (parseOneTag (Suc n)) (\<lambda>t. liftR (dc_add d t))) (uint (bd_Size (dc_Base d)) - 13) ?d0)
      (concat [DecoderSpecificInfo_Serialize c]) d"
    by (rule reads_loop) (use step c(3) in \<open>simp_all add: unat_uint DecoderSpecificInfo_Serialize_def BaseDescriptor_Serialize_def\<close>)
  then have "reads (DecoderConfigDescriptor_Parse (Suc n) (parseOneTag (Suc n)) (dc_Base d)) (?h @ DecoderSpecificInfo_Serialize c) d"
    unfolding DecoderConfigDescriptor_Parse_def by (intro reads_buf_bind h(6)) (simp only: h bits concat.simps append_Nil2)
  then show ?thesis unfolding w by (rule reads_bind[OF reads_BaseDescriptor[OF ok(2)]])
qed

definition es_ok :: "ES_Descriptor \<Rightarrow> bool" where
  "es_ok e \<longleftrightarrow> Tag (es_Base e) = 3 \<and> bd_Size (es_Base e) < 0x4000 \<and> dc_ok (es_DecoderConfig e) \<and>
     unat (bd_Size (es_Base e)) = 3 + length (DecoderConfigDescriptor_Serialize (es_DecoderConfig e)) + 6 \<and>
     StreamDependenceFlag e \<in> {0, 0x80} \<and> URLFlag e \<in> {0, 0x40} \<and> OCRstreamFlag e \<in> {0, 0x20} \<and> StreamPriority e < 32 \<and>
     (case SlConfigDescr e of Some s \<Rightarrow> sl_ok s | None \<Rightarrow> False) \<and> IpiPtr e = None \<and> IpIDS e = [] \<and> IpmpDescrPtr e = [] \<and> LangDescr e = [] \<and>
     QosDescr e = None \<and> RegDescr e = None \<and> ExtDescr e = []"

lemma es_flag_bits:
  fixes a b c p :: byte
  assumes "a \<in> {0, 0x80}" "b \<in> {0, 0x40}" "c \<in> {0, 0x20}" "p < 32"
  shows "(a OR b OR c OR p) AND 0x80 = a" and "(a OR b OR c OR p) AND 0x40 = b" and "(a OR b OR c OR p) AND 0x20 = c"
    and "(a OR b OR c OR p) AND 0x1F = p"
proof -
  have "\<forall>a \<in> set [0, 0x80]. \<forall>b \<in> set [0, 0x40]. \<forall>c \<in> set [0, 0x20]. \<forall>p \<in> set (map of_nat [0..<32]).
      let v = a OR b OR c OR p :: byte in v AND 0x80 = a \<and> v AND 0x40 = b \<and> v AND 0x20 = c \<and> v AND 0x1F = p"
    by code_simp
  then show "(a OR b OR c OR p) AND 0x80 = a" "(a OR b OR c OR p) AND 0x40 = b" "(a OR b OR c OR p) AND 0x20 = c" "(a OR b OR c OR p) AND 0x1F = p"
    using byte_below[of p 32] assms by (auto simp: Let_def)
qed

lemma reads_es:
  assumes "es_ok e"
  shows "\<exists>w. ES_Descriptor_Serialize e = Inr (BaseDescriptor_Serialize (es_Base e) @ w) \<and>
    reads (ES_Descriptor_Parse (Suc n) (parseOneTag (Suc n)) (es_Base e)) w e"
proof -
  note ok = assms[unfolded es_ok_def]
  obtain s where s: "SlConfigDescr e = Some s" "sl_ok s" using ok by (auto split: option.splits)
  let ?dc = "DecoderConfigDescriptor_Serialize (es_DecoderConfig e)" and ?sl = "BaseDescriptor_Serialize (sl_Base s) @ [sl_PreDefined s]"
  let ?v = "StreamDependenceFlag e OR URLFlag e OR OCRstreamFlag e OR StreamPriority e"
  let ?h = "u16be (ES_ID e) @ [?v]"
  note bits = es_flag_bits[of "StreamDependenceFlag e" "URLFlag e" "OCRstreamFlag e" "StreamPriority e"]
  have h: "at16 ?h 0 = ES_ID e" "?h ! 2 = ?v" "length ?h = 3" by (simp_all add: field_simps nth_append)
  have w: "ES_Descriptor_Serialize e = Inr (BaseDescriptor_Serialize (es_Base e) @ (?h @ ?dc @ ?sl))"
    using ok s(1) reads_sl[OF s(2)] by (simp add: ES_Descriptor_Serialize_def ser_opt_def)
  let ?e0 = "\<lparr>es_Base = es_Base e, ES_ID = ES_ID e, StreamDependenceFlag = StreamDependenceFlag e, URLFlag = URLFlag e,
    OCRstreamFlag = OCRstreamFlag e, StreamPriority = StreamPriority e, es_DecoderConfig = es_DecoderConfig e, SlConfigDescr = None,
    IpiPtr = None, IpIDS = [], IpmpDescrPtr = [], LangDescr = [], QosDescr = None, RegDescr = None, ExtDescr = []\<rparr>"
  have add: "es_add ?e0 (TagSL s) = Inr e" using ok s by (cases e) (simp add: es_add_def sl_ok_def Let_def)
  have step: "reads (bindR (parseOneTag (Suc n)) (\<lambda>t. liftR (es_add ?e0 t))) ?sl e"
    by (rule reads_bind_last[OF conjunct2[OF reads_sl[OF s(2)]]]) (simp add: add liftR_def reads_def)
  have "reads (rd_loop (Suc n) (\<lambda>d. bindR (parseOneTag (Suc n)) (\<lambda>t. liftR (es_add d t))) (uint (bd_Size (es_Base e)) - int (3 + length ?dc)) ?e0)
      (concat [?sl]) e"
    by (rule reads_loop) (use step ok in \<open>simp_all add: unat_uint BaseDescriptor_Serialize_def\<close>)
  then have loop: "reads (rd_loop (Suc n) (\<lambda>d. bindR (parseOneTag (Suc n)) (\<lambda>t. liftR (es_add d t))) (uint (bd_Size (es_Base e)) - int (3 + length ?dc)) ?e0)
      ?sl e" by simp
  have "reads (ES_Descriptor_Parse (Suc n) (parseOneTag (Suc n)) (es_Base e)) (?h @ ?dc @ ?sl) e"
    unfolding ES_Descriptor_Parse_def
  proof (rule reads_buf_bind[OF h(3)], rule reads_if, goal_cases)
    case 2
    have dc: "reads (counted (bindR BaseDescriptor_Parse (DecoderConfigDescriptor_Parse (Suc n) (parseOneTag (Suc n))))) ?dc (es_DecoderConfig e, length ?dc)"
      by (rule reads_counted, rule reads_dc) (use ok in simp)
    show ?case
      by (rule reads_bind[OF dc]) (use loop ok bits in \<open>simp only: prod.case h simp_thms\<close>)
  qed (use ok in simp)
  then show ?thesis using w by blast
qed

definition esds_ok :: "EsdsBox \<Rightarrow> bool" where
  "esds_ok b \<longleftrightarrow> small_box (fb_Box (esds_FullBox b)) \<and> version (esds_FullBox b) = 0 \<and> flags24Bit (esds_FullBox b) = 0 \<and> es_ok (EsDescr b)"

interpretation esds: box_codec "\<lambda>b. case EsdsBox_Serialize b of Inr w \<Rightarrow> w | Inl e \<Rightarrow> []" EsdsBox_Parse "\<lambda>b. fb_Box (esds_FullBox b)" esds_ok
proof
  fix b :: EsdsBox assume b: "esds_ok b"
  let ?f = "esds_FullBox b"
  note ok = b[unfolded esds_ok_def]
  have es: "es_ok (EsDescr b)" using ok by simp
  then have bd: "bd_Size (es_Base (EsDescr b)) < 0x4000" by (simp add: es_ok_def)
  obtain w where w: "ES_Descriptor_Serialize (EsDescr b) = Inr (BaseDescriptor_Serialize (es_Base (EsDescr b)) @ w)"
    "\<And>n. reads (ES_Descriptor_Parse (Suc n) (parseOneTag (Suc n)) (es_Base (EsDescr b))) w (EsDescr b)"
    using reads_es[OF es] by (metis Inr_inject append_same_eq same_append_eq)
  let ?h = "u32be (push_bit 24 (ucast (version ?f)) OR flags24Bit ?f)"
  have "reads (bindR (FullBox_Parse (fb_Box ?f) 0 (\<not> FULLBOX_ANY_VERSION) 0) (\<lambda>f. bindR BaseDescriptor_Parse (\<lambda>bd.
      bindR (ES_Descriptor_Parse (Suc n) (parseOneTag (Suc n)) bd) (\<lambda>es. retR \<lparr>esds_FullBox = f, EsDescr = es\<rparr>))))
      (?h @ BaseDescriptor_Serialize (es_Base (EsDescr b)) @ w) b" for n
    by (intro reads_full reads_bind[OF reads_BaseDescriptor[OF bd]] reads_bind_last[OF w(2)] reads_ret)
      (use ok in \<open>simp_all add: wf_flags_def\<close>)
  then have "reads (EsdsBox_Parse (fb_Box ?f)) (?h @ BaseDescriptor_Serialize (es_Base (EsDescr b)) @ w) b"
    unfolding reads_def EsdsBox_Parse_def Let_def tag_fuel_def by blast
  then show "\<exists>w. (case EsdsBox_Serialize b of Inr w \<Rightarrow> w | Inl e \<Rightarrow> []) = Box_Serialize (fb_Box ?f) @ w \<and> reads (EsdsBox_Parse (fb_Box ?f)) w b"
    using w(1) by (auto simp: EsdsBox_Serialize_def full_ser)
qed (simp add: esds_ok_def)

end
