(* ===== verification/Mp4_Tree.thy ===== *)
theory Mp4_Tree
  imports Mp4_Tag
begin

text \<open>
  Trees of boxes: the interface \<open>IBox\<close> with the boxes that implement it, the table of parsers and
  \<open>Box.Parse\<close> of \<open>container/mp4/box.go\<close>, \<open>commonContainer.go\<close>, \<open>metaBox.go\<close>, and the boxes of \<open>moovBox.go\<close>
  that hold boxes.  \<open>parseChildBox\<close> has fuel; a number above the length of the input is enough, since
  every box takes eight bytes, unless a box stsd with no entry is there, whose loop never ends
  (\<open>tree_parse_ends\<close>, \<open>stsd_hangs\<close>).
\<close>

section \<open>Boxes\<close>

abbreviation (input) BoxTypeSTYP :: u32 where "BoxTypeSTYP \<equiv> 0x73747970"
abbreviation (input) BoxTypeFTYP :: u32 where "BoxTypeFTYP \<equiv> 0x66747970"
abbreviation (input) BoxTypeSIDX :: u32 where "BoxTypeSIDX \<equiv> 0x73696478"
abbreviation (input) BoxTypeMOOF :: u32 where "BoxTypeMOOF \<equiv> 0x6d6f6f66"
abbreviation (input) BoxTypeMFHD :: u32 where "BoxTypeMFHD \<equiv> 0x6d666864"
abbreviation (input) BoxTypeTRAF :: u32 where "BoxTypeTRAF \<equiv> 0x74726166"
abbreviation (input) BoxTypeTFHD :: u32 where "BoxTypeTFHD \<equiv> 0x74666864"
abbreviation (input) BoxTypeTFDT :: u32 where "BoxTypeTFDT \<equiv> 0x74666474"
abbreviation (input) BoxTypeTRUN :: u32 where "BoxTypeTRUN \<equiv> 0x7472756e"
abbreviation (input) BoxTypeMFRA :: u32 where "BoxTypeMFRA \<equiv> 0x6d667261"
abbreviation (input) BoxTypeTFRA :: u32 where "BoxTypeTFRA \<equiv> 0x74667261"
abbreviation (input) BoxTypeMFRO :: u32 where "BoxTypeMFRO \<equiv> 0x6d66726f"
abbreviation (input) BoxTypeMOOV :: u32 where "BoxTypeMOOV \<equiv> 0x6d6f6f76"
abbreviation (input) BoxTypeMVEX :: u32 where "BoxTypeMVEX \<equiv> 0x6d766578"
abbreviation (input) BoxTypeTREX :: u32 where "BoxTypeTREX \<equiv> 0x74726578"
abbreviation (input) BoxTypeMVHD :: u32 where "BoxTypeMVHD \<equiv> 0x6d766864"
abbreviation (input) BoxTypeTRAK :: u32 where "BoxTypeTRAK \<equiv> 0x7472616b"
abbreviation (input) BoxTypeUDTA :: u32 where "BoxTypeUDTA \<equiv> 0x75647461"
abbreviation (input) BoxTypeTKHD :: u32 where "BoxTypeTKHD \<equiv> 0x746b6864"
abbreviation (input) BoxTypeEDTS :: u32 where "BoxTypeEDTS \<equiv> 0x65647473"
abbreviation (input) BoxTypeELST :: u32 where "BoxTypeELST \<equiv> 0x656c7374"
abbreviation (input) BoxTypeMDIA :: u32 where "BoxTypeMDIA \<equiv> 0x6d646961"
abbreviation (input) BoxTypeMDHD :: u32 where "BoxTypeMDHD \<equiv> 0x6d646864"
abbreviation (input) BoxTypeHDLR :: u32 where "BoxTypeHDLR \<equiv> 0x68646c72"
abbreviation (input) BoxTypeMINF :: u32 where "BoxTypeMINF \<equiv> 0x6d696e66"
abbreviation (input) BoxTypeVMHD :: u32 where "BoxTypeVMHD \<equiv> 0x766d6864"
abbreviation (input) BoxTypeSMHD :: u32 where "BoxTypeSMHD \<equiv> 0x736d6864"
abbreviation (input) BoxTypeDINF :: u32 where "BoxTypeDINF \<equiv> 0x64696e66"
abbreviation (input) BoxTypeDREF :: u32 where "BoxTypeDREF \<equiv> 0x64726566"
abbreviation (input) BoxTypeURL :: u32 where "BoxTypeURL \<equiv> 0x75726c20"
abbreviation (input) BoxTypeURN :: u32 where "BoxTypeURN \<equiv> 0x75726e20"
abbreviation (input) BoxTypeSTBL :: u32 where "BoxTypeSTBL \<equiv> 0x7374626c"
abbreviation (input) BoxTypeSTSD :: u32 where "BoxTypeSTSD \<equiv> 0x73747364"
abbreviation (input) BoxTypeAVC1 :: u32 where "BoxTypeAVC1 \<equiv> 0x61766331"
abbreviation (input) BoxTypeHEV1 :: u32 where "BoxTypeHEV1 \<equiv> 0x68657631"
abbreviation (input) BoxTypeSTTS :: u32 where "BoxTypeSTTS \<equiv> 0x73747473"
abbreviation (input) BoxTypeSTSC :: u32 where "BoxTypeSTSC \<equiv> 0x73747363"
abbreviation (input) BoxTypeSTCO :: u32 where "BoxTypeSTCO \<equiv> 0x7374636f"
abbreviation (input) BoxTypeSTSZ :: u32 where "BoxTypeSTSZ \<equiv> 0x7374737a"
abbreviation (input) BoxTypeSTZ2 :: u32 where "BoxTypeSTZ2 \<equiv> 0x73747a32"
abbreviation (input) BoxTypePASP :: u32 where "BoxTypePASP \<equiv> 0x70617370"
abbreviation (input) BoxTypeMETA :: u32 where "BoxTypeMETA \<equiv> 0x6d657461"
abbreviation (input) BoxTypeAVCC :: u32 where "BoxTypeAVCC \<equiv> 0x61766343"
abbreviation (input) BoxTypeHVCC :: u32 where "BoxTypeHVCC \<equiv> 0x68766343"
abbreviation (input) BoxTypeMP4A :: u32 where "BoxTypeMP4A \<equiv> 0x6d703461"
abbreviation (input) BoxTypeESDS :: u32 where "BoxTypeESDS \<equiv> 0x65736473"

text \<open>
  A box without boxes is its record; the others are their fields and their sub-boxes.  The entry of an avc1
  box has its configuration apart (nil until one is read), that of a hev1 box is never set and left out.
\<close>

datatype IBox =
    FtypB FtypBox | SidxB SidxBox | MfhdB MfhdBox | TfhdB TfhdBox | TfdtB TfdtBox | TrunB TrunBox | MvhdB MvhdBox
  | TkhdB TkhdBox | MdhdB MdhdBox | HdlrB HdlrBox | VmhdB VmhdBox | SmhdB SmhdBox | SttsB SttsBox | StscB StscBox
  | StszB StszBox | StcoB StcoBox | ElstB ElstBox | TrexB TrexBox | UrlB UrlBox | UrnB UrnBox | PaspB PaspBox
  | EsdsB EsdsBox | TfraB TfraBox | MfroB MfroBox | MdatB MdatBox | HvcCB HVCCConfigurationBox | UnsupportedB UnsupporttedBox
  | SimpleBoxContainer Box "IBox list"
  | DrefBox FullBox u32 "IBox list"
  | StsdBox FullBox u32 "IBox list"
  | MetaBox FullBox "IBox list"
  | Avc1Box Box VisualSampleEntry "AVCCConfigurationBox option" "IBox list"
  | Hev1Box Box VisualSampleEntry "IBox list"
  | Mp4aBox Box AudioSampleEntry "IBox list"

section \<open>Serialisers\<close>

text \<open>The writers of the boxes that hold boxes take the result \<open>ws\<close> of writing the children in order.\<close>

definition SimpleBoxContainer_Serialize :: "Box \<Rightarrow> bytes res \<Rightarrow> bytes res" where
  [simp]: "SimpleBoxContainer_Serialize b ws = bindE ws (\<lambda>w. Inr (Box_Serialize b @ w))"

definition DrefBox_Serialize :: "FullBox \<Rightarrow> u32 \<Rightarrow> nat \<Rightarrow> bytes res \<Rightarrow> bytes res" where
  [simp]: "DrefBox_Serialize f n k ws =
     failIf (n \<noteq> of_nat k) (Errorf ''dref not consistent:%d %d'')
     (bindE ws (\<lambda>w. Inr (FullBox_Serialize f @ u32be n @ w)))"

definition StsdBox_Serialize :: "FullBox \<Rightarrow> u32 \<Rightarrow> bytes res \<Rightarrow> bytes res" where
  [simp]: "StsdBox_Serialize f n ws = bindE ws (\<lambda>w. Inr (FullBox_Serialize f @ u32be n @ w))"

definition MetaBox_Serialize :: "FullBox \<Rightarrow> bytes res \<Rightarrow> bytes res" where
  [simp]: "MetaBox_Serialize f ws = bindE ws (\<lambda>w. Inr (FullBox_Serialize f @ w))"

definition Avc1Box_Serialize :: "Box \<Rightarrow> VisualSampleEntry \<Rightarrow> AVCCConfigurationBox option \<Rightarrow> bytes res \<Rightarrow> bytes res" where
  [simp]: "Avc1Box_Serialize b e c ws =
     (case c of None \<Rightarrow> Inl (Errorf ''AVCCConfigurationBox is nil'')
      | Some a \<Rightarrow> bindE (AVCCConfigurationBox_Serialize a) (\<lambda>w. bindE ws (\<lambda>v.
          Inr (Box_Serialize b @ VisualSampleEntry_serialize e @ w @ v))))"

definition Hev1Box_Serialize :: "Box \<Rightarrow> VisualSampleEntry \<Rightarrow> bytes res \<Rightarrow> bytes res" where
  [simp]: "Hev1Box_Serialize b e ws = bindE ws (\<lambda>w. Inr (Box_Serialize b @ VisualSampleEntry_serialize e @ w))"

definition Mp4aBox_Serialize :: "Box \<Rightarrow> AudioSampleEntry \<Rightarrow> bytes res \<Rightarrow> bytes res" where
  [simp]: "Mp4aBox_Serialize b e ws = bindE ws (\<lambda>w. Inr (Box_Serialize b @ AudioSampleEntry_serialize e @ w))"

fun IBox_Serialize :: "IBox \<Rightarrow> bytes res"
  and IBoxes_Serialize :: "IBox list \<Rightarrow> bytes res" where
  "IBox_Serialize (FtypB b) = Inr (FtypBox_Serialize b)"
| "IBox_Serialize (SidxB b) = Inr (SidxBox_Serialize b)"
| "IBox_Serialize (MfhdB b) = Inr (MfhdBox_Serialize b)"
| "IBox_Serialize (TfhdB b) = Inr (TfhdBox_Serialize b)"
| "IBox_Serialize (TfdtB b) = Inr (TfdtBox_Serialize b)"
| "IBox_Serialize (TrunB b) = Inr (TrunBox_Serialize b)"
| "IBox_Serialize (MvhdB b) = Inr (MvhdBox_Serialize b)"
| "IBox_Serialize (TkhdB b) = Inr (TkhdBox_Serialize b)"
| "IBox_Serialize (MdhdB b) = Inr (MdhdBox_Serialize b)"
| "IBox_Serialize (HdlrB b) = Inr (HdlrBox_Serialize b)"
| "IBox_Serialize (VmhdB b) = Inr (VmhdBox_Serialize b)"
| "IBox_Serialize (SmhdB b) = Inr (SmhdBox_Serialize b)"
| "IBox_Serialize (SttsB b) = Inr (SttsBox_Serialize b)"
| "IBox_Serialize (StscB b) = Inr (StscBox_Serialize b)"
| "IBox_Serialize (StszB b) = Inr (StszBox_Serialize b)"
| "IBox_Serialize (StcoB b) = Inr (StcoBox_Serialize b)"
| "IBox_Serialize (ElstB b) = ElstBox_Serialize b"
| "IBox_Serialize (TrexB b) = Inr (TrexBox_Serialize b)"
| "IBox_Serialize (UrlB b) = Inr (UrlBox_Serialize b)"
| "IBox_Serialize (UrnB b) = Inr (UrnBox_Serialize b)"
| "IBox_Serialize (PaspB b) = Inr (PaspBox_Serialize b)"
| "IBox_Serialize (EsdsB b) = EsdsBox_Serialize b"
| "IBox_Serialize (TfraB b) = TfraBox_Serialize b"
| "IBox_Serialize (MfroB b) = Inr (MfroBox_Serialize b)"
| "IBox_Serialize (MdatB b) = Inr (MdatBox_Serialize b)"
| "IBox_Serialize (HvcCB b) = HVCCConfigurationBox_Serialize b"
| "IBox_Serialize (UnsupportedB b) = Inr (UnsupporttedBox_Serialize b)"
| "IBox_Serialize (SimpleBoxContainer b bs) = SimpleBoxContainer_Serialize b (IBoxes_Serialize bs)"
| "IBox_Serialize (DrefBox f n bs) = DrefBox_Serialize f n (length bs) (IBoxes_Serialize bs)"
| "IBox_Serialize (StsdBox f n bs) = StsdBox_Serialize f n (IBoxes_Serialize bs)"
| "IBox_Serialize (MetaBox f bs) = MetaBox_Serialize f (IBoxes_Serialize bs)"
| "IBox_Serialize (Avc1Box b e c bs) = Avc1Box_Serialize b e c (IBoxes_Serialize bs)"
| "IBox_Serialize (Hev1Box b e bs) = Hev1Box_Serialize b e (IBoxes_Serialize bs)"
| "IBox_Serialize (Mp4aBox b e bs) = Mp4aBox_Serialize b e (IBoxes_Serialize bs)"
| "IBoxes_Serialize [] = Inr []"
| "IBoxes_Serialize (b # bs) = bindE (IBox_Serialize b) (\<lambda>w. bindE (IBoxes_Serialize bs) (\<lambda>v. Inr (w @ v)))"

section \<open>Parsers\<close>

definition mapR :: "('a \<Rightarrow> 'b) \<Rightarrow> 'a rd \<Rightarrow> 'b rd" where
  "mapR f m = bindR m (\<lambda>x. retR (f x))"

definition push :: "IBox rd \<Rightarrow> IBox list \<Rightarrow> IBox list rd" where
  "push child bs = mapR (\<lambda>b. bs @ [b]) child"

text \<open>The parsers of the boxes that hold boxes: \<open>n\<close> is the fuel of their loop, \<open>child\<close> is \<open>parseChildBox\<close>.\<close>

definition SimpleBoxContainer_Parse :: "nat \<Rightarrow> IBox rd \<Rightarrow> Box \<Rightarrow> IBox rd" where
  "SimpleBoxContainer_Parse n child b =
     mapR (SimpleBoxContainer b) (rd_loop n (push child) (uint (Size b) - BOX_SIZE) [])"

definition DrefBox_Parse :: "IBox rd \<Rightarrow> Box \<Rightarrow> IBox rd" where
  "DrefBox_Parse child b =
     bindR (FullBox_Parse b 0 (\<not> FULLBOX_ANY_VERSION) 0) (\<lambda>f.
     bindR (rdBuf 4) (\<lambda>buf. let count = at32 buf 0 in
     mapR (DrefBox f count) (rd_times (unat count) child)))"

text \<open>Each round of the outer loop reads as many boxes as there are entries.\<close>

definition StsdBox_Parse :: "nat \<Rightarrow> IBox rd \<Rightarrow> Box \<Rightarrow> IBox rd" where
  "StsdBox_Parse n child b =
     bindR (FullBox_Parse b 0 FULLBOX_ANY_VERSION 0) (\<lambda>f.
     bindR (rdBuf 4) (\<lambda>buf. let count = at32 buf 0 in
     mapR (StsdBox f count)
       (rd_loop n (\<lambda>bs. mapR (\<lambda>cs. bs @ cs) (rd_times (unat count) child)) (uint (Size b) - FULL_BOX_SIZE - 4) [])))"

definition meta_child :: "IBox rd" where
  "meta_child =
     bindR ParseBox (\<lambda>bb.
     if BoxType bb = BoxTypeHDLR then mapR HdlrB (HdlrBox_Parse bb) else mapR UnsupportedB (UnsupporttedBox_Parse bb))"

definition MetaBox_Parse :: "nat \<Rightarrow> Box \<Rightarrow> IBox rd" where
  "MetaBox_Parse n b =
     bindR (FullBox_Parse b 0 (\<not> FULLBOX_ANY_VERSION) 0) (\<lambda>f.
     mapR (MetaBox f) (rd_loop n (push meta_child) (uint (Size b) - FULL_BOX_SIZE) []))"

definition Avc1Box_Parse :: "Box \<Rightarrow> IBox rd" where
  "Avc1Box_Parse b =
     bindR VisualSampleEntry_parse (\<lambda>e.
     bindR ParseBox (\<lambda>bb.
     if BoxType bb = BoxTypeAVCC then mapR (\<lambda>a. Avc1Box b e (Some a) []) (AVCCConfigurationBox_Parse bb)
     else mapR (\<lambda>u. Avc1Box b e None [UnsupportedB u]) (UnsupporttedBox_Parse bb)))"

definition Hev1Box_Parse :: "Box \<Rightarrow> IBox rd" where
  "Hev1Box_Parse b =
     bindR VisualSampleEntry_parse (\<lambda>e.
     bindR ParseBox (\<lambda>bb.
     if BoxType bb = BoxTypeHVCC then mapR (\<lambda>a. Hev1Box b e [HvcCB a]) (HVCCConfigurationBox_Parse bb)
     else mapR (\<lambda>u. Hev1Box b e [UnsupportedB u]) (UnsupporttedBox_Parse bb)))"

definition Mp4aBox_Parse :: "nat \<Rightarrow> IBox rd \<Rightarrow> Box \<Rightarrow> IBox rd" where
  "Mp4aBox_Parse n child b =
     bindR (counted AudioSampleEntry_parse) (\<lambda>(e, k).
     mapR (Mp4aBox b e) (rd_loop n (push child) (uint (Size b) - BOX_SIZE - int k) []))"

definition container_type :: "u32 \<Rightarrow> bool" where
  "container_type t \<longleftrightarrow> t \<in> set [BoxTypeMOOF, BoxTypeTRAF, BoxTypeTRAK, BoxTypeEDTS, BoxTypeMDIA, BoxTypeMINF, BoxTypeDINF,
     BoxTypeMVEX, BoxTypeUDTA, BoxTypeSTBL, BoxTypeMFRA]"

definition getParser :: "nat \<Rightarrow> IBox rd \<Rightarrow> u32 \<Rightarrow> Box \<Rightarrow> IBox rd" where
  "getParser n child t b =
     (if t = BoxTypeFTYP \<or> t = BoxTypeSTYP then mapR FtypB (FtypBox_Parse b)
      else if t = BoxTypeSIDX then mapR SidxB (SidxBox_Parse b)
      else if container_type t then SimpleBoxContainer_Parse n child b
      else if t = BoxTypeMFHD then mapR MfhdB (MfhdBox_Parse b)
      else if t = BoxTypeTFHD then mapR TfhdB (TfhdBox_Parse b)
      else if t = BoxTypeTFDT then mapR TfdtB (TfdtBox_Parse b)
      else if t = BoxTypeTRUN then mapR TrunB (TrunBox_Parse b)
      else if t = BoxTypeMVHD then mapR MvhdB (MvhdBox_Parse b)
      else if t = BoxTypeTKHD then mapR TkhdB (TkhdBox_Parse b)
      else if t = BoxTypeMDHD then mapR MdhdB (MdhdBox_Parse b)
      else if t = BoxTypeHDLR then mapR HdlrB (HdlrBox_Parse b)
      else if t = BoxTypeVMHD then mapR VmhdB (VmhdBox_Parse b)
      else if t = BoxTypeDREF then DrefBox_Parse child b
      else if t = BoxTypeSTSD then StsdBox_Parse n child b
      else if t = BoxTypeSTTS then mapR SttsB (SttsBox_Parse b)
      else if t = BoxTypeSTSC then mapR StscB (StscBox_Parse b)
      else if t = BoxTypeSTSZ \<or> t = BoxTypeSTZ2 then mapR StszB (StszBox_Parse b)
      else if t = BoxTypeSTCO then mapR StcoB (StcoBox_Parse b)
      else if t = BoxTypeELST then mapR ElstB (ElstBox_Parse b)
      else if t = BoxTypeTREX then mapR TrexB (TrexBox_Parse b)
      else if t = BoxTypeMETA then MetaBox_Parse n b
      else if t = BoxTypeURL then mapR UrlB (UrlBox_Parse b)
      else if t = BoxTypeURN then mapR UrnB (UrnBox_Parse b)
      else if t = BoxTypeAVC1 then Avc1Box_Parse b
      else if t = BoxTypeMP4A then Mp4aBox_Parse n child b
      else if t = BoxTypeHEV1 then Hev1Box_Parse b
      else if t = BoxTypePASP then mapR PaspB (PaspBox_Parse b)
      else if t = BoxTypeESDS then mapR EsdsB (EsdsBox_Parse b)
      else if t = BoxTypeSMHD then mapR SmhdB (SmhdBox_Parse b)
      else if t = BoxTypeTFRA then mapR TfraB (TfraBox_Parse b)
      else if t = BoxTypeMFRO then mapR MfroB (MfroBox_Parse b)
      else mapR UnsupportedB (UnsupporttedBox_Parse b))"

fun parseChildBox :: "nat \<Rightarrow> IBox rd" where
  "parseChildBox 0 r = Inl Hang"
| "parseChildBox (Suc n) r = bindR ParseBox (\<lambda>b. getParser n (parseChildBox n) (BoxType b) b) r"

definition top_parser :: "nat \<Rightarrow> Box \<Rightarrow> IBox rd" where
  "top_parser n b =
     (let t = BoxType b in
      if t = BoxTypeFTYP \<or> t = BoxTypeSTYP then mapR FtypB (FtypBox_Parse b)
      else if t = BoxTypeSIDX then mapR SidxB (SidxBox_Parse b)
      else if t = BoxTypeMDAT then mapR MdatB (MdatBox_Parse b)
      else if t = BoxTypeMOOF \<or> t = BoxTypeMOOV \<or> t = BoxTypeMFRA then SimpleBoxContainer_Parse n (parseChildBox n) b
      else failR (Errorf ''no such box:%s''))"

definition Box_Parse :: "IBox rd" where
  "Box_Parse r =
     bindR (rdBuf 8) (\<lambda>buf. top_parser (Suc (length r)) \<lparr>Size = ucast (at32 buf 0), BoxType = at32 buf 4\<rparr>) r"

section \<open>Every box ends, unless a description table is empty\<close>

lemma eats_mapR [eating]: "eats k m \<Longrightarrow> eats k (mapR f m)"
  unfolding mapR_def by (intro eats_bind_first eating)

lemma ends_mapR [ending]: "ends a n m \<Longrightarrow> eats 0 m \<Longrightarrow> ends a n (mapR f m)"
  unfolding mapR_def by (intro ending eating)

lemma eats_ParseBox: "eats 8 ParseBox"
  unfolding ParseBox_def Let_def by (intro eats_bind_first eating)

lemma eats_ParseBox0 [eating]: "eats 0 ParseBox"
  by (rule eats_less[OF eats_ParseBox]) simp

lemma ends_ParseBox [ending]: "ends a n ParseBox"
  unfolding ParseBox_def Let_def by (intro ending eating go_error.distinct)

lemma eats_upto [eating]: "eats 0 (rd_upto n k w g)"
  by (induction n arbitrary: k) (auto intro!: eating)

lemma ends_upto [ending]: "ends a m (rd_upto n k w g)"
  by (induction n arbitrary: k) (auto intro!: ending eating)

lemma eats_rdOpt [eating]: "eats 0 (rdOpt c)" and ends_rdOpt [ending]: "ends a n (rdOpt c)"
  unfolding rdOpt_def by (intro eating ending)+

lemma entry_no_hang: "tfra_entry f x y z buf \<noteq> Inl Hang"
proof -
  have t: "tail_from b i \<noteq> Inl Hang" for b i by (simp add: tail_from_def)
  have v: "getValueByByteLength b k \<noteq> Inl Hang" for b k
    by (auto simp: getValueByByteLength_def U16BE_def U24BE_def U32BE_def Let_def bindE_eq_Inl failIf_def)
  show ?thesis by (simp add: tfra_entry_def Let_def bindE_eq_Inl t v)
qed

lemmas box_parse_defs = FtypBox_Parse_def SidxBox_Parse_def sidx_ref_def MfhdBox_Parse_def TfhdBox_Parse_def TfdtBox_Parse_def
  TrunBox_Parse_def trun_sample_def MvhdBox_Parse_def TkhdBox_Parse_def MdhdBox_Parse_def HdlrBox_Parse_def VmhdBox_Parse_def
  SmhdBox_Parse_def SttsBox_Parse_def StscBox_Parse_def StszBox_Parse_def StcoBox_Parse_def rd_table_def ElstBox_Parse_def elst_entry_def
  TrexBox_Parse_def UrnBox_Parse_def PaspBox_Parse_def TfraBox_Parse_def MfroBox_Parse_def MdatBox_Parse_def
  UnsupporttedBox_Parse_def Let_def

lemmas sub_parse_defs = AVCCConfigurationBox_Parse_def HVCCConfigurationBox_Parse_def AVCDecoderConfigurationRecord_Parse_def
  avc_sets_parse_def avc_ext_parse_def HevcDecoderConfigurationRecord_Parse_def HevcArrayItem_parse_def rd_nalu_def
  VisualSampleEntry_parse_def SampleEntry_parse_def AudioSampleEntry_parse_def meta_child_def

lemma eats_option [eating]: "(\<And>x. eats k (f x)) \<Longrightarrow> eats k g \<Longrightarrow> eats k (case c of Some x \<Rightarrow> f x | None \<Rightarrow> g)"
  by (cases c) simp_all

lemma ends_reserved [ending]: "ends a n g \<Longrightarrow> ends a n (case (if c then hevc_reserved_error buf else None) of Some e \<Rightarrow> failR e | None \<Rightarrow> g)"
  by (auto simp: hevc_reserved_error_def intro: ending split: option.splits if_splits)

lemma eats_brands [eating]: "eats 0 (brand_loop sz)"
  unfolding brand_loop_def[abs_def]
  by (rule eats_depending[where F = "\<lambda>k. rd_times (brand_rounds sz k) (bindR (rdBuf 4) (\<lambda>buf. retR (at32 buf 0)))"]) (intro eating)

lemma ends_brands [ending]: "ends a n (brand_loop sz)"
  unfolding brand_loop_def[abs_def]
  by (rule ends_depending[where F = "\<lambda>k. rd_times (brand_rounds sz k) (bindR (rdBuf 4) (\<lambda>buf. retR (at32 buf 0)))"]) (intro ending eating)

lemma eats_Url [eating]: "eats 0 (UrlBox_Parse b)"
proof (rule eatsI)
  fix r x n r' assume "UrlBox_Parse b r = Inr (x, n, r')"
  then obtain f k r1 where f: "FullBox_Parse b 0 (\<not> FULLBOX_ANY_VERSION) FULLBOX_ANY_FLAG r = Inr (f, k, r1)"
    and "r' = r1 \<or> (\<exists>loc j. rdMake (uint (Size b) - int k - BOX_SIZE) r1 = Inr (loc, j, r'))"
    by (auto simp: UrlBox_Parse_def bindE_eq_Inr split: if_splits)
  moreover obtain w where "r = w @ r1" using eatsE[OF eats_FullBox0 f] by metis
  ultimately show "\<exists>w. r = w @ r' \<and> 0 \<le> length w" using eatsE[OF eats_make] by (metis append.assoc le0)
qed

lemma ends_Url [ending]: "ends a n (UrlBox_Parse b)"
  unfolding ends_def
proof (intro allI impI notI)
  fix r assume r: "length r < n" "avoids a r" and "UrlBox_Parse b r = Inl Hang"
  then obtain k r1 where "rdMake k r1 = Inl Hang"
    using endsD[OF ends_FullBox r] by (auto simp: UrlBox_Parse_def bindE_eq_Inl split: if_splits)
  then show False by (auto simp: rdMake_def failR_def rdBuf_def ReadFull_def bindE_eq_Inl makeslice_panic_def split: if_splits)
qed

lemma eats_boxes [eating]:
  "eats 0 (FtypBox_Parse b)" "eats 0 (SidxBox_Parse b)" "eats 0 (MfhdBox_Parse b)" "eats 0 (TfhdBox_Parse b)" "eats 0 (TfdtBox_Parse b)"
  "eats 0 (TrunBox_Parse b)" "eats 0 (MvhdBox_Parse b)" "eats 0 (TkhdBox_Parse b)" "eats 0 (MdhdBox_Parse b)" "eats 0 (HdlrBox_Parse b)"
  "eats 0 (VmhdBox_Parse b)" "eats 0 (SmhdBox_Parse b)" "eats 0 (SttsBox_Parse b)" "eats 0 (StscBox_Parse b)" "eats 0 (StszBox_Parse b)"
  "eats 0 (StcoBox_Parse b)" "eats 0 (ElstBox_Parse b)" "eats 0 (TrexBox_Parse b)" "eats 0 (UrnBox_Parse b)" "eats 0 (PaspBox_Parse b)"
  "eats 0 (TfraBox_Parse b)" "eats 0 (MfroBox_Parse b)" "eats 0 (MdatBox_Parse b)" "eats 0 (UnsupporttedBox_Parse b)"
  unfolding box_parse_defs by (intro eating)+

lemma ends_boxes [ending]:
  "ends a n (FtypBox_Parse b)" "ends a n (SidxBox_Parse b)" "ends a n (MfhdBox_Parse b)" "ends a n (TfhdBox_Parse b)" "ends a n (TfdtBox_Parse b)"
  "ends a n (TrunBox_Parse b)" "ends a n (MvhdBox_Parse b)" "ends a n (TkhdBox_Parse b)" "ends a n (MdhdBox_Parse b)" "ends a n (HdlrBox_Parse b)"
  "ends a n (VmhdBox_Parse b)" "ends a n (SmhdBox_Parse b)" "ends a n (SttsBox_Parse b)" "ends a n (StscBox_Parse b)" "ends a n (StszBox_Parse b)"
  "ends a n (StcoBox_Parse b)" "ends a n (ElstBox_Parse b)" "ends a n (TrexBox_Parse b)" "ends a n (UrnBox_Parse b)" "ends a n (PaspBox_Parse b)"
  "ends a n (TfraBox_Parse b)" "ends a n (MfroBox_Parse b)" "ends a n (MdatBox_Parse b)" "ends a n (UnsupporttedBox_Parse b)"
  unfolding box_parse_defs makeslice_panic_def by (intro ending eating entry_no_hang go_error.distinct)+

lemma eats_parts [eating]:
  "eats 0 (AVCCConfigurationBox_Parse b)" "eats 0 (HVCCConfigurationBox_Parse b)" "eats 0 VisualSampleEntry_parse" "eats 0 AudioSampleEntry_parse"
  unfolding sub_parse_defs by (intro eating)+

lemma ends_parts [ending]:
  "ends a n (AVCCConfigurationBox_Parse b)" "ends a n (HVCCConfigurationBox_Parse b)" "ends a n VisualSampleEntry_parse" "ends a n AudioSampleEntry_parse"
  unfolding sub_parse_defs by (intro ending eating go_error.distinct)+

lemma eats_push: "eats k child \<Longrightarrow> eats k (push child bs)"
  unfolding push_def by (intro eating)

lemma eats_child_parser [eating]: "eats 0 child \<Longrightarrow> eats 0 (getParser n child t b)"
  unfolding getParser_def SimpleBoxContainer_Parse_def DrefBox_Parse_def StsdBox_Parse_def MetaBox_Parse_def Avc1Box_Parse_def
    Hev1Box_Parse_def Mp4aBox_Parse_def meta_child_def Let_def
  by (intro eating eats_push)

lemma eats_parseChildBox: "eats 8 (parseChildBox n)"
proof (induction n)
  case 0
  show ?case by (simp add: eats_def)
next
  case (Suc n)
  have "eats 0 (parseChildBox n)" by (rule eats_less[OF Suc]) simp
  then have "eats 8 (bindR ParseBox (\<lambda>b. getParser n (parseChildBox n) (BoxType b) b))"
    by (intro eats_bind_first[OF eats_ParseBox] eating)
  then show ?case by (simp add: eats_def)
qed

lemma eats_parseChildBox0 [eating]: "eats 0 (parseChildBox n)"
  by (rule eats_less[OF eats_parseChildBox]) simp

definition stsd_name :: bytes where
  "stsd_name = [0x73, 0x74, 0x73, 0x64]"

lemma ends_getParser:
  assumes "ends a n child" "eats 8 child" "t \<noteq> BoxTypeSTSD"
  shows "ends a n (getParser n child t b)"
proof -
  have c0: "eats 0 child" by (rule eats_less[OF assms(2)]) simp
  have p: "ends a n (push child bs)" for bs unfolding push_def by (intro ending assms c0)
  have p1: "eats 1 (push child bs)" for bs by (rule eats_less[OF eats_push[OF assms(2)]]) simp
  have m: "ends a n (push meta_child bs)" for bs unfolding push_def meta_child_def by (intro ending eating)
  have m8: "eats 8 meta_child" unfolding meta_child_def by (intro eats_bind_first[OF eats_ParseBox] eating)
  have m1: "eats 1 (push meta_child bs)" for bs by (rule eats_less[OF eats_push[OF m8]]) simp
  have loops: "ends a n (rd_loop n (push child) k bs)" "ends a n (rd_loop n (push meta_child) k bs)" for k bs
    by (intro ending p p1 m m1 order_refl)+
  have l0: "eats 0 (rd_loop n (push child) k bs)" "eats 0 (rd_loop n (push meta_child) k bs)" for k bs
    by (intro eating eats_less[OF p1] eats_less[OF m1] zero_le)+
  show ?thesis
    unfolding getParser_def SimpleBoxContainer_Parse_def DrefBox_Parse_def MetaBox_Parse_def Avc1Box_Parse_def
      Hev1Box_Parse_def Mp4aBox_Parse_def Let_def
    using assms(3) by (simp only: if_False) (intro loops l0 ending eating assms(1) c0)
qed

text \<open>The name of a box is in the input when its header is read.\<close>

lemma ParseBox_type:
  assumes "ParseBox r = Inr (b, n, r')"
  obtains h where "r = h @ r'" "length h = 8" "BoxType b = at32 h 4"
proof -
  obtain h k r1 where h: "rdBuf 8 r = Inr (h, k, r1)" and "r1 = r'" "BoxType b = at32 h 4"
    using assms by (auto simp: ParseBox_def bindR_def bindE_eq_Inr Let_def retR_def failR_def split: if_splits)
  moreover have "r = h @ r1" "length h = 8"
    using h by (auto simp: rdBuf_def ReadFull_def bindE_eq_Inr split: if_splits)
  ultimately show ?thesis using that by blast
qed

lemma at32_inv: "length h = 8 \<Longrightarrow> u32be (at32 h 4) = drop 4 h"
  using c32.dec_total[of "drop 4 h"] by (auto simp: at32_def subslice_def)

lemma not_stsd:
  assumes "ParseBox r = Inr (b, n, r')" "avoids (Some stsd_name) r"
  shows "BoxType b \<noteq> BoxTypeSTSD"
proof
  assume t: "BoxType b = BoxTypeSTSD"
  obtain h where h: "r = h @ r'" "length h = 8" "BoxType b = at32 h 4" using ParseBox_type[OF assms(1)] .
  have "drop 4 h = u32be BoxTypeSTSD" using at32_inv[OF h(2)] h(3) t by simp
  moreover have "u32be BoxTypeSTSD = stsd_name" by code_simp
  ultimately have "h = take 4 h @ stsd_name" by (metis append_take_drop_id)
  then have "r = take 4 h @ stsd_name @ r'" using h(1) by (metis append.assoc)
  then show False using assms(2) by (auto simp: sublist_def)
qed

lemma ends_parseChildBox: "ends (Some stsd_name) n (parseChildBox n)"
proof (induction n)
  case (Suc n)
  show ?case unfolding ends_def
  proof (intro allI impI notI)
    fix r assume r: "length r < Suc n" "avoids (Some stsd_name) r" and h: "parseChildBox (Suc n) r = Inl Hang"
    then obtain b k r1 where b: "ParseBox r = Inr (b, k, r1)" and g: "getParser n (parseChildBox n) (BoxType b) b r1 = Inl Hang"
      using endsD[OF ends_ParseBox r] by (auto simp: bindR_def bindE_eq_Inl)
    obtain w where w: "r = w @ r1" "8 \<le> length w" using eatsE[OF eats_ParseBox b] .
    then have "length r1 < n" "avoids (Some stsd_name) r1" using r avoids_suffix[of "Some stsd_name" w r1] by simp_all
    then show False using endsD[OF ends_getParser[OF Suc eats_parseChildBox not_stsd[OF b r(2)]]] g by blast
  qed
qed (simp add: ends_def)

text \<open>C30: Reading a file box ends on every input that has no box of sample descriptions: the loops over a
  remaining size all make progress, also when a size in the file is wrong.\<close>

theorem tree_parse_ends:
  assumes "\<not> sublist stsd_name r"
  shows "Box_Parse r \<noteq> Inl Hang"
proof -
  let ?n = "Suc (length r)"
  have p: "ends (Some stsd_name) ?n (push (parseChildBox ?n) bs)" for bs
    unfolding push_def by (intro ending eating ends_parseChildBox)
  have p1: "eats 1 (push (parseChildBox ?n) bs)" for bs by (rule eats_less[OF eats_push[OF eats_parseChildBox]]) simp
  have l: "ends (Some stsd_name) ?n (rd_loop ?n (push (parseChildBox ?n)) k bs)" "eats 0 (rd_loop ?n (push (parseChildBox ?n)) k bs)" for k bs
    by (intro ending p p1 order_refl eating eats_less[OF p1] zero_le)+
  have "ends (Some stsd_name) ?n (bindR (rdBuf 8) (\<lambda>buf. top_parser ?n \<lparr>Size = ucast (at32 buf 0), BoxType = at32 buf 4\<rparr>))"
    unfolding top_parser_def SimpleBoxContainer_Parse_def Let_def by (intro l ending eating go_error.distinct)
  from endsD[OF this, of r] show ?thesis using assms by (simp add: Box_Parse_def)
qed

theorem tree_parse_ends_witness: "Box_Parse [0, 0, 0, 16, 0x6d, 0x6f, 0x6f, 0x66, 0, 0, 0, 8, 0x66, 0x72, 0x65, 0x65] \<noteq> Inl Hang"
  by (rule tree_parse_ends) code_simp

lemma empty_rounds_hang: "0 < remain \<Longrightarrow> rd_loop n (\<lambda>bs. mapR (\<lambda>cs. bs @ cs) (rd_times 0 child)) remain bs r = Inl Hang"
  by (induction n arbitrary: remain bs r) (simp_all add: mapR_def bindR_def retR_def)

text \<open>C31: A box of sample descriptions with no entry and something left in its size is never read to its end,
  whatever follows and however many rounds are granted: the inner loop reads nothing and the outer one
  goes on.\<close>

theorem stsd_hangs:
  assumes "16 < s"
  shows "parseChildBox n (u32be s @ u32be BoxTypeSTSD @ u32be 0 @ u32be 0 @ r) = Inl Hang"
proof (cases n)
  case (Suc m)
  define f where "f = \<lparr>fb_Box = \<lparr>Size = ucast s, BoxType = BoxTypeSTSD\<rparr>, version = 0, flags24Bit = 0\<rparr>"
  have lt: "uint s < 2 ^ 32" using uint_bounded[of s] by simp
  then have u: "uint (ucast s :: u64) = uint s"
    by (simp add: unsigned_ucast_eq take_bit_int_eq_self)
  then have s: "16 < uint (Size (fb_Box f))" using assms by (simp add: f_def word_less_def)
  have "Size (fb_Box f) \<noteq> 1" using s by auto
  then have small: "small_box (fb_Box f)" using lt u by (simp add: small_box_def f_def word_le_def)
  have ser: "Box_Serialize (fb_Box f) = u32be s @ u32be BoxTypeSTSD"
  proof -
    have "ucast (ucast s :: u64) = s" by (rule bit_word_eqI) (auto simp: bit_simps)
    then show ?thesis using small_Box_Serialize[OF small] by (simp add: f_def)
  qed
  have p: "ParseBox ((u32be s @ u32be BoxTypeSTSD) @ u32be 0 @ u32be 0 @ r) = Inr (fb_Box f, 8, u32be 0 @ u32be 0 @ r)"
    using readsD[OF reads_ParseBox[OF small], of "u32be 0 @ u32be 0 @ r"] by (simp add: ser)
  have fb: "FullBox_Parse (fb_Box f) 0 True 0 (u32be 0 @ u32be 0 @ r) = Inr (f, 4, u32be 0 @ r)"
    using readsD[OF reads_FullBox[of f True 0 0], of "u32be 0 @ r"] by (simp add: f_def)
  have buf: "rdBuf 4 (u32be 0 @ r) = Inr (u32be 0, 4, r)" using readsD[OF reads_buf[of "u32be 0" 4]] by simp
  have at: "at32 (u32be 0) 0 = 0" by (simp add: at_last)
  have "StsdBox_Parse m child (fb_Box f) (u32be 0 @ u32be 0 @ r) = Inl Hang" for child
    using s by (simp add: StsdBox_Parse_def bindR_def fb buf at mapR_def[of "StsdBox f 0"] empty_rounds_hang[simplified])
  then show ?thesis using p Suc by (simp add: bindR_def f_def getParser_def container_type_def)
qed simp

theorem stsd_hangs_witness: "parseChildBox 1000 (u32be 17 @ u32be BoxTypeSTSD @ u32be 0 @ u32be 0 @ [7]) = Inl Hang"
  by (rule stsd_hangs) simp

section \<open>Trees are read back\<close>

definition known_type :: "u32 \<Rightarrow> bool" where
  "known_type t \<longleftrightarrow> container_type t \<or> t \<in> set [BoxTypeFTYP, BoxTypeSTYP, BoxTypeSIDX, BoxTypeMFHD, BoxTypeTFHD, BoxTypeTFDT,
     BoxTypeTRUN, BoxTypeMVHD, BoxTypeTKHD, BoxTypeMDHD, BoxTypeHDLR, BoxTypeVMHD, BoxTypeDREF, BoxTypeSTSD, BoxTypeSTTS, BoxTypeSTSC,
     BoxTypeSTSZ, BoxTypeSTZ2, BoxTypeSTCO, BoxTypeELST, BoxTypeTREX, BoxTypeMETA, BoxTypeURL, BoxTypeURN, BoxTypeAVC1, BoxTypeMP4A,
     BoxTypeHEV1, BoxTypePASP, BoxTypeESDS, BoxTypeSMHD, BoxTypeTFRA, BoxTypeMFRO]"

definition sized :: "Box \<Rightarrow> nat \<Rightarrow> bytes res \<Rightarrow> bool" where
  "sized b k m \<longleftrightarrow> (case m of Inr w \<Rightarrow> uint (Size b) = int (k + length w) | Inl e \<Rightarrow> False)"

definition is_box :: "FullBox \<Rightarrow> u32 \<Rightarrow> bool" where
  "is_box f t \<longleftrightarrow> BoxType (fb_Box f) = t"

definition plain_full :: "FullBox \<Rightarrow> bool" where
  "plain_full f \<longleftrightarrow> small_box (fb_Box f) \<and> version f = 0 \<and> flags24Bit f = 0"

text \<open>
  Trees that have a size the code can write and read: the sizes count the bytes, the types are those of
  the table, tables agree with their counts, a url box has no location, and an avc1 or hev1 box has its
  configuration and nothing else.
\<close>

fun meta_ok :: "IBox \<Rightarrow> bool" where
  "meta_ok (HdlrB h) \<longleftrightarrow> hdlr_ok h \<and> is_box (hdlr_FullBox h) BoxTypeHDLR"
| "meta_ok (UnsupportedB u) \<longleftrightarrow> small_box (ub_Box u) \<and> uint (Size (ub_Box u)) = int (length (RawData u)) + 8 \<and> BoxType (ub_Box u) \<noteq> BoxTypeHDLR"
| "meta_ok _ \<longleftrightarrow> False"

fun box_ok :: "IBox \<Rightarrow> bool" where
  "box_ok (FtypB b) \<longleftrightarrow> ftyp_ok b \<and> BoxType (ftyp_Box b) \<in> {BoxTypeFTYP, BoxTypeSTYP}"
| "box_ok (SidxB b) \<longleftrightarrow> sidx_ok b \<and> is_box (sidx_FullBox b) BoxTypeSIDX"
| "box_ok (MfhdB b) \<longleftrightarrow> plain_full (mfhd_FullBox b) \<and> is_box (mfhd_FullBox b) BoxTypeMFHD"
| "box_ok (TfhdB b) \<longleftrightarrow> tfhd_ok b \<and> is_box (tfhd_FullBox b) BoxTypeTFHD"
| "box_ok (TfdtB b) \<longleftrightarrow> tfdt_ok b \<and> is_box (tfdt_FullBox b) BoxTypeTFDT"
| "box_ok (TrunB b) \<longleftrightarrow> trun_ok b \<and> is_box (trun_FullBox b) BoxTypeTRUN"
| "box_ok (MvhdB b) \<longleftrightarrow> mvhd_ok b \<and> is_box (mvhd_FullBox b) BoxTypeMVHD"
| "box_ok (TkhdB b) \<longleftrightarrow> tkhd_ok b \<and> is_box (tkhd_FullBox b) BoxTypeTKHD"
| "box_ok (MdhdB b) \<longleftrightarrow> mdhd_ok b \<and> is_box (mdhd_FullBox b) BoxTypeMDHD"
| "box_ok (HdlrB b) \<longleftrightarrow> hdlr_ok b \<and> is_box (hdlr_FullBox b) BoxTypeHDLR"
| "box_ok (VmhdB b) \<longleftrightarrow> small_box (fb_Box (vmhd_FullBox b)) \<and> version (vmhd_FullBox b) = 0 \<and> flags24Bit (vmhd_FullBox b) = 1 \<and>
     length (TemplateOpcolor b) = 3 \<and> is_box (vmhd_FullBox b) BoxTypeVMHD"
| "box_ok (ElstB b) \<longleftrightarrow> elst_ok b \<and> is_box (elst_FullBox b) BoxTypeELST"
| "box_ok (TrexB b) \<longleftrightarrow> plain_full (trex_FullBox b) \<and> is_box (trex_FullBox b) BoxTypeTREX"
| "box_ok (StszB b) \<longleftrightarrow> stsz_ok b \<and> BoxType (fb_Box (stsz_FullBox b)) \<in> {BoxTypeSTSZ, BoxTypeSTZ2}"
| "box_ok (PaspB b) \<longleftrightarrow> small_box (pasp_Box b) \<and> BoxType (pasp_Box b) = BoxTypePASP"
| "box_ok (EsdsB b) \<longleftrightarrow> esds_ok b \<and> is_box (esds_FullBox b) BoxTypeESDS"
| "box_ok (MfroB b) \<longleftrightarrow> small_box (fb_Box (mfro_FullBox b)) \<and> flags24Bit (mfro_FullBox b) = 0 \<and> is_box (mfro_FullBox b) BoxTypeMFRO"
| "box_ok (UnsupportedB u) \<longleftrightarrow> small_box (ub_Box u) \<and> uint (Size (ub_Box u)) = int (length (RawData u)) + 8 \<and> \<not> known_type (BoxType (ub_Box u))"
| "box_ok (SimpleBoxContainer b bs) \<longleftrightarrow> small_box b \<and> container_type (BoxType b) \<and> sized b 8 (IBoxes_Serialize bs) \<and> (\<forall>x \<in> set bs. box_ok x)"
| "box_ok (DrefBox f n bs) \<longleftrightarrow> plain_full f \<and> is_box f BoxTypeDREF \<and> unat n = length bs \<and> (\<forall>x \<in> set bs. box_ok x)"
| "box_ok (StsdBox f n bs) \<longleftrightarrow> small_box (fb_Box f) \<and> flags24Bit f = 0 \<and> is_box f BoxTypeSTSD \<and> unat n = length bs \<and>
     sized (fb_Box f) 16 (IBoxes_Serialize bs) \<and> (\<forall>x \<in> set bs. box_ok x)"
| "box_ok (MetaBox f bs) \<longleftrightarrow> plain_full f \<and> is_box f BoxTypeMETA \<and> sized (fb_Box f) 12 (IBoxes_Serialize bs) \<and> (\<forall>x \<in> set bs. meta_ok x)"
| "box_ok (Avc1Box b e c bs) \<longleftrightarrow> small_box b \<and> BoxType b = BoxTypeAVC1 \<and> vse_ok e \<and> bs = [] \<and>
     (case c of None \<Rightarrow> False | Some a \<Rightarrow> small_box (avcC_Box a) \<and> BoxType (avcC_Box a) = BoxTypeAVCC \<and> avc_ok (AVCConfig a) \<and>
        length (Pps (AVCConfig a)) = length (Sps (AVCConfig a)) \<and> no_depth (AVCConfig a) = AVCConfig a)"
| "box_ok (Hev1Box b e bs) \<longleftrightarrow> small_box b \<and> BoxType b = BoxTypeHEV1 \<and> vse_ok e \<and>
     (case bs of [HvcCB a] \<Rightarrow> small_box (hvcC_Box a) \<and> BoxType (hvcC_Box a) = BoxTypeHVCC \<and> hevc_ok (HEVCConfig a) | _ \<Rightarrow> False)"
| "box_ok (Mp4aBox b e bs) \<longleftrightarrow> small_box b \<and> BoxType b = BoxTypeMP4A \<and> ase_ok e \<and> sized b 36 (IBoxes_Serialize bs) \<and> (\<forall>x \<in> set bs. box_ok x)"
| "box_ok (SmhdB b) \<longleftrightarrow> small_box (fb_Box (smhd_FullBox b)) \<and> version (smhd_FullBox b) = 0 \<and> wf_flags (smhd_FullBox b) \<and> is_box (smhd_FullBox b) BoxTypeSMHD"
| "box_ok (SttsB b) \<longleftrightarrow> table_ok (stts_FullBox b) 8 (stts_EntryCount b) (stts_Entries b) \<and> is_box (stts_FullBox b) BoxTypeSTTS"
| "box_ok (StscB b) \<longleftrightarrow> table_ok (stsc_FullBox b) 12 (stsc_EntryCount b) (stsc_Entries b) \<and> is_box (stsc_FullBox b) BoxTypeSTSC"
| "box_ok (StcoB b) \<longleftrightarrow> table_ok (stco_FullBox b) 4 (stco_EntryCount b) (ChunkOffset b) \<and> is_box (stco_FullBox b) BoxTypeSTCO"
| "box_ok (UrlB b) \<longleftrightarrow> small_box (fb_Box (url_FullBox b)) \<and> version (url_FullBox b) = 0 \<and> flags24Bit (url_FullBox b) = 1 \<and>
     url_Location b = [] \<and> is_box (url_FullBox b) BoxTypeURL"
| "box_ok _ \<longleftrightarrow> False"

text \<open>What a box that is read back gives to the box that holds it.\<close>

definition readable :: "IBox \<Rightarrow> bytes \<Rightarrow> bool" where
  "readable b w \<longleftrightarrow> IBox_Serialize b = Inr w \<and> 8 \<le> length w \<and> (\<forall>n. length w \<le> n \<longrightarrow> reads (parseChildBox n) w b)"

lemma reads_mapR: "reads m w x \<Longrightarrow> f x = y \<Longrightarrow> reads (mapR f m) w y"
  unfolding mapR_def by (rule reads_bind_last) (auto intro: reads_ret)

text \<open>A box from the bytes after its header.\<close>

lemma backI:
  assumes "small_box h" "IBox_Serialize b = Inr (Box_Serialize h @ w)"
    and "\<And>n. length w \<le> n \<Longrightarrow> reads (getParser n (parseChildBox n) (BoxType h) h) w b"
  shows "\<exists>w. readable b w"
proof -
  have l: "length (Box_Serialize h) = 8" using small_Box_Serialize[OF assms(1)] by simp
  have "reads (parseChildBox n) (Box_Serialize h @ w) b" if "length (Box_Serialize h @ w) \<le> n" for n
  proof -
    have n: "8 + length w \<le> n" using that l by simp
    then obtain m where m: "n = Suc m" by (cases n) auto
    then have wm: "length w \<le> m" using n by simp
    have "reads (bindR ParseBox (\<lambda>b. getParser m (parseChildBox m) (BoxType b) b)) (Box_Serialize h @ w) b"
      by (rule reads_bind[OF reads_ParseBox[OF assms(1)]]) (rule assms(3)[OF wm])
    then show ?thesis by (simp add: m reads_def)
  qed
  then show ?thesis using assms(2) l unfolding readable_def by fastforce
qed

context box_codec
begin

lemma leaf:
  assumes "ok b" "IBox_Serialize (C b) = Inr (ser b)"
    and "\<And>n child. getParser n child (BoxType (hdr b)) (hdr b) = mapR C (parse (hdr b))"
  shows "\<exists>w. readable (C b) w"
proof -
  obtain w where w: "ser b = Box_Serialize (hdr b) @ w" "reads (parse (hdr b)) w b" using body[OF assms(1)] by blast
  then show ?thesis by (intro backI[OF small[OF assms(1)], of "C b" w]) (auto simp: assms(2,3) intro: reads_mapR)
qed

end

lemma backs:
  assumes "\<forall>x \<in> set bs. \<exists>w. readable x w"
  obtains ws where "IBoxes_Serialize bs = Inr (concat ws)" "length ws = length bs" "list_all2 readable bs ws"
  using assms
proof (induction bs arbitrary: thesis)
  case Nil
  show ?case by (rule Nil(1)[of "[]"]) simp_all
next
  case (Cons b bs)
  obtain ws where ws: "IBoxes_Serialize bs = Inr (concat ws)" "length ws = length bs" "list_all2 readable bs ws"
    using Cons.IH Cons.prems(2) by auto
  obtain w where w: "readable b w" using Cons.prems(2) by auto
  show ?case by (rule Cons.prems(1)[of "w # ws"]) (use ws w in \<open>simp_all add: readable_def[of b w]\<close>)
qed

lemma push_back: "readable b w \<Longrightarrow> length w \<le> n \<Longrightarrow> reads (push (parseChildBox n) bs) w (bs @ [b])"
  unfolding push_def readable_def by (intro reads_mapR) auto

lemma loop_push:
  "list_all2 readable bs ws \<Longrightarrow> length (concat ws) \<le> n \<Longrightarrow> loop_reads (push (parseChildBox n)) acc ws (acc @ bs)"
proof (induction bs ws arbitrary: acc rule: list_all2_induct)
  case (Cons b bs w ws)
  have "reads (push (parseChildBox n) acc) w (acc @ [b])" by (rule push_back[OF Cons.hyps(1)]) (use Cons.prems in simp)
  moreover have "w \<noteq> []" using Cons.hyps(1) by (auto simp: readable_def)
  moreover have "loop_reads (push (parseChildBox n)) (acc @ [b]) ws ((acc @ [b]) @ bs)" by (rule Cons.IH) (use Cons.prems in simp)
  ultimately show ?case by auto
qed simp

lemma back_lengths: "list_all2 readable bs ws \<Longrightarrow> length ws \<le> length (concat ws)"
  by (induction bs ws rule: list_all2_induct) (auto simp: readable_def)

lemma reads_children:
  assumes "list_all2 readable bs ws" "length (concat ws) \<le> n" "remain = int (length (concat ws))"
  shows "reads (rd_loop n (push (parseChildBox n)) remain []) (concat ws) bs"
  by (rule reads_loop[OF loop_push[OF assms(1,2), of "[]", simplified] assms(3)]) (use back_lengths[OF assms(1)] assms(2) in simp)

lemma reads_entries:
  assumes "list_all2 readable bs ws" "length (concat ws) \<le> n"
  shows "reads (rd_times (length bs) (parseChildBox n)) (concat ws) bs"
  using assms
proof (induction bs ws rule: list_all2_induct)
  case (Cons b bs w ws)
  have "reads (parseChildBox n) w b" using Cons.hyps(1) Cons.prems by (simp add: readable_def)
  moreover have "reads (rd_times (length bs) (parseChildBox n)) (concat ws) bs" by (rule Cons.IH) (use Cons.prems in simp)
  ultimately show ?case
    by (simp add: reads_bind[of _ w b] reads_bind_last[of _ "concat ws" bs] reads_ret)
qed (simp add: reads_ret)

lemma back_container:
  assumes "box_ok (SimpleBoxContainer b bs)" "\<forall>x \<in> set bs. \<exists>w. readable x w"
  shows "\<exists>w. readable (SimpleBoxContainer b bs) w"
proof -
  obtain ws where ws: "IBoxes_Serialize bs = Inr (concat ws)" "length ws = length bs" "list_all2 readable bs ws" using backs[OF assms(2)] .
  have ok: "small_box b" "container_type (BoxType b)" "uint (Size b) = int (8 + length (concat ws))"
    using assms(1) ws(1) by (auto simp: sized_def)
  show ?thesis
  proof (rule backI[OF ok(1)])
    show "IBox_Serialize (SimpleBoxContainer b bs) = Inr (Box_Serialize b @ concat ws)" by (simp add: ws(1))
    fix n assume n: "length (concat ws) \<le> n"
    have "getParser n (parseChildBox n) (BoxType b) b = SimpleBoxContainer_Parse n (parseChildBox n) b"
      using ok(2) by (auto simp: getParser_def container_type_def)
    then show "reads (getParser n (parseChildBox n) (BoxType b) b) (concat ws) (SimpleBoxContainer b bs)"
      unfolding SimpleBoxContainer_Parse_def by (simp only:) (rule reads_mapR[OF reads_children[OF ws(3) n]], use ok(3) in simp_all)
  qed
qed

lemma at_count: "at32 (u32be n) 0 = n" by (rule at_last)

lemma back_dref:
  assumes "box_ok (DrefBox f k bs)" "\<forall>x \<in> set bs. \<exists>w. readable x w"
  shows "\<exists>w. readable (DrefBox f k bs) w"
proof -
  obtain ws where ws: "IBoxes_Serialize bs = Inr (concat ws)" "length ws = length bs" "list_all2 readable bs ws" using backs[OF assms(2)] .
  have ok: "small_box (fb_Box f)" "version f = 0" "flags24Bit f = 0" "BoxType (fb_Box f) = BoxTypeDREF" "unat k = length bs"
    using assms(1) by (auto simp: plain_full_def is_box_def)
  let ?h = "u32be (push_bit 24 (ucast (version f)) OR flags24Bit f)"
  have k: "k = of_nat (length bs)" unfolding ok(5)[symmetric] by simp
  show ?thesis
  proof (rule backI[OF ok(1)])
    show "IBox_Serialize (DrefBox f k bs) = Inr (Box_Serialize (fb_Box f) @ ?h @ u32be k @ concat ws)"
      using k by (simp add: ws(1) full_ser)
    fix n assume n: "length (?h @ u32be k @ concat ws) \<le> n"
    have g: "getParser n (parseChildBox n) (BoxType (fb_Box f)) (fb_Box f) = DrefBox_Parse (parseChildBox n) (fb_Box f)"
      by (simp add: getParser_def container_type_def ok(4))
    have l: "length (concat ws) \<le> n" using n by simp
    show "reads (getParser n (parseChildBox n) (BoxType (fb_Box f)) (fb_Box f)) (?h @ u32be k @ concat ws) (DrefBox f k bs)"
      unfolding g DrefBox_Parse_def Let_def
      by (intro reads_full reads_buf_bind)
        (use ok reads_entries[OF ws(3) l] in \<open>auto simp: wf_flags_def at_count intro!: reads_mapR\<close>)
  qed
qed

lemma back_stsd:
  assumes "box_ok (StsdBox f k bs)" "\<forall>x \<in> set bs. \<exists>w. readable x w"
  shows "\<exists>w. readable (StsdBox f k bs) w"
proof -
  obtain ws where ws: "IBoxes_Serialize bs = Inr (concat ws)" "length ws = length bs" "list_all2 readable bs ws" using backs[OF assms(2)] .
  have ok: "small_box (fb_Box f)" "flags24Bit f = 0" "BoxType (fb_Box f) = BoxTypeSTSD" "unat k = length bs"
    "uint (Size (fb_Box f)) = int (16 + length (concat ws))"
    using assms(1) ws(1) by (auto simp: sized_def is_box_def)
  let ?h = "u32be (push_bit 24 (ucast (version f)) OR flags24Bit f)"
  show ?thesis
  proof (rule backI[OF ok(1)])
    show "IBox_Serialize (StsdBox f k bs) = Inr (Box_Serialize (fb_Box f) @ ?h @ u32be k @ concat ws)" by (simp add: ws(1) full_ser)
    fix n assume n: "length (?h @ u32be k @ concat ws) \<le> n"
    have g: "getParser n (parseChildBox n) (BoxType (fb_Box f)) (fb_Box f) = StsdBox_Parse n (parseChildBox n) (fb_Box f)"
      by (simp add: getParser_def container_type_def ok(3))
    have l: "length (concat ws) \<le> n" using n by simp
    let ?step = "\<lambda>bs. mapR (\<lambda>cs. bs @ cs) (rd_times (unat k) (parseChildBox n))"
    have round: "reads (?step []) (concat ws) bs" unfolding ok(4) by (rule reads_mapR[OF reads_entries[OF ws(3) l]]) simp
    have "reads (rd_loop n ?step (uint (Size (fb_Box f)) - 12 - 4) []) (concat (if ws = [] then [] else [concat ws])) bs"
    proof (rule reads_loop)
      show "loop_reads ?step [] (if ws = [] then [] else [concat ws]) bs"
      proof (cases ws)
        case Nil
        then show ?thesis using ws(2) by simp
      next
        case (Cons v vs)
        then have "0 < length (concat ws)" using back_lengths[OF ws(3)] by (simp only: list.size)
        then have "concat ws \<noteq> []" by (simp only: length_greater_0_conv simp_thms)
        moreover have "ws \<noteq> []" using Cons by simp
        ultimately show ?thesis using round by (simp only: if_False loop_reads.simps simp_thms) blast
      qed
      show "length (if ws = [] then [] else [concat ws]) \<le> n" using n by simp
    qed (use ok(5) in simp)
    then have "reads (rd_loop n ?step (uint (Size (fb_Box f)) - 12 - 4) []) (concat ws) bs" by (cases "ws = []") auto
    then show "reads (getParser n (parseChildBox n) (BoxType (fb_Box f)) (fb_Box f)) (?h @ u32be k @ concat ws) (StsdBox f k bs)"
      unfolding g StsdBox_Parse_def Let_def
      by (intro reads_full reads_buf_bind)
        (use ok(2) in \<open>auto simp: wf_flags_def at_count intro!: reads_mapR\<close>)
  qed
qed

lemma back_mp4a:
  assumes "box_ok (Mp4aBox b e bs)" "\<forall>x \<in> set bs. \<exists>w. readable x w"
  shows "\<exists>w. readable (Mp4aBox b e bs) w"
proof -
  obtain ws where ws: "IBoxes_Serialize bs = Inr (concat ws)" "length ws = length bs" "list_all2 readable bs ws" using backs[OF assms(2)] .
  have ok: "small_box b" "BoxType b = BoxTypeMP4A" "ase_ok e" "uint (Size b) = int (36 + length (concat ws))"
    using assms(1) ws(1) by (auto simp: sized_def)
  have len: "length (AudioSampleEntry_serialize e) = 28"
    using ok(3) by (simp add: ase_ok_def AudioSampleEntry_serialize_def SampleEntry_serialize_def)
  show ?thesis
  proof (rule backI[OF ok(1)])
    show "IBox_Serialize (Mp4aBox b e bs) = Inr (Box_Serialize b @ AudioSampleEntry_serialize e @ concat ws)" by (simp add: ws(1))
    fix n assume n: "length (AudioSampleEntry_serialize e @ concat ws) \<le> n"
    have g: "getParser n (parseChildBox n) (BoxType b) b = Mp4aBox_Parse n (parseChildBox n) b"
      by (simp add: getParser_def container_type_def ok(2))
    have l: "length (concat ws) \<le> n" using n by simp
    show "reads (getParser n (parseChildBox n) (BoxType b) b) (AudioSampleEntry_serialize e @ concat ws) (Mp4aBox b e bs)"
      unfolding g Mp4aBox_Parse_def
      by (rule reads_bind[OF reads_counted[OF reads_AudioSampleEntry[OF ok(3)]]])
        (use reads_children[OF ws(3) l] ok(4) len in \<open>auto intro!: reads_mapR\<close>)
  qed
qed

lemma back_meta:
  assumes "box_ok (MetaBox f bs)"
  shows "\<exists>w. readable (MetaBox f bs) w"
proof -
  have kids: "\<forall>x \<in> set bs. \<exists>w. IBox_Serialize x = Inr w \<and> w \<noteq> [] \<and> reads meta_child w x"
  proof
    fix x assume "x \<in> set bs"
    then have x: "meta_ok x" using assms by simp
    show "\<exists>w. IBox_Serialize x = Inr w \<and> w \<noteq> [] \<and> reads meta_child w x"
    proof (cases x)
      case (HdlrB h)
      then have h: "hdlr_ok h" "BoxType (fb_Box (hdlr_FullBox h)) = BoxTypeHDLR" using x by (auto simp: is_box_def)
      obtain w where "HdlrBox_Serialize h = Box_Serialize (fb_Box (hdlr_FullBox h)) @ w" "reads (HdlrBox_Parse (fb_Box (hdlr_FullBox h))) w h"
        using hdlr.body[OF h(1)] by blast
      then show ?thesis using HdlrB h(2) hdlr.ser_length[OF h(1)]
        by (auto simp: meta_child_def intro!: reads_bind[OF reads_ParseBox[OF hdlr.small[OF h(1)]]] reads_mapR)
    next
      case (UnsupportedB u)
      then have u: "small_box (ub_Box u) \<and> uint (Size (ub_Box u)) = int (length (RawData u)) + 8" "BoxType (ub_Box u) \<noteq> BoxTypeHDLR" using x by auto
      obtain w where "UnsupporttedBox_Serialize u = Box_Serialize (ub_Box u) @ w" "reads (UnsupporttedBox_Parse (ub_Box u)) w u"
        using unsupported.body[OF u(1)] by blast
      then show ?thesis using UnsupportedB u(2) unsupported.ser_length[OF u(1)]
        by (auto simp: meta_child_def intro!: reads_bind[OF reads_ParseBox[OF unsupported.small[OF u(1)]]] reads_mapR)
    qed (use x in simp_all)
  qed
  have "\<exists>ws. IBoxes_Serialize bs = Inr (concat ws) \<and> length ws = length bs \<and> (\<forall>acc. loop_reads (push meta_child) acc ws (acc @ bs)) \<and>
      length ws \<le> length (concat ws)"
    using kids
  proof (induction bs)
    case (Cons x bs)
    then obtain ws where ws: "IBoxes_Serialize bs = Inr (concat ws)" "length ws = length bs"
      "\<forall>acc. loop_reads (push meta_child) acc ws (acc @ bs)" "length ws \<le> length (concat ws)" by auto
    obtain w where w: "IBox_Serialize x = Inr w" "w \<noteq> []" "reads meta_child w x" using Cons.prems by auto
    have "reads (push meta_child acc) w (acc @ [x])" for acc unfolding push_def by (rule reads_mapR[OF w(3)]) simp
    then have "loop_reads (push meta_child) acc (w # ws) (acc @ x # bs)" for acc
      using ws(3)[THEN spec, of "acc @ [x]"] w(2) by auto
    moreover have "Suc (length ws) \<le> length w + length (concat ws)" using w(2) ws(4) by (cases w) auto
    ultimately show ?case using ws w by (intro exI[of _ "w # ws"]) simp
  qed (rule exI[of _ "[]"], simp)
  then obtain ws where ws: "IBoxes_Serialize bs = Inr (concat ws)" "\<forall>acc. loop_reads (push meta_child) acc ws (acc @ bs)"
    "length ws \<le> length (concat ws)" by blast
  have ok: "small_box (fb_Box f)" "version f = 0" "flags24Bit f = 0" "BoxType (fb_Box f) = BoxTypeMETA"
    "uint (Size (fb_Box f)) = int (12 + length (concat ws))"
    using assms ws(1) by (auto simp: plain_full_def is_box_def sized_def)
  let ?h = "u32be (push_bit 24 (ucast (version f)) OR flags24Bit f)"
  show ?thesis
  proof (rule backI[OF ok(1)])
    show "IBox_Serialize (MetaBox f bs) = Inr (Box_Serialize (fb_Box f) @ ?h @ concat ws)" by (simp add: ws(1) full_ser)
    fix n assume n: "length (?h @ concat ws) \<le> n"
    have g: "getParser n (parseChildBox n) (BoxType (fb_Box f)) (fb_Box f) = MetaBox_Parse n (fb_Box f)"
      by (simp add: getParser_def container_type_def ok(4))
    have "reads (rd_loop n (push meta_child) (uint (Size (fb_Box f)) - 12) []) (concat ws) bs"
      by (rule reads_loop) (use ws(2)[THEN spec, of "[]"] ws(3) ok(5) n in auto)
    then show "reads (getParser n (parseChildBox n) (BoxType (fb_Box f)) (fb_Box f)) (?h @ concat ws) (MetaBox f bs)"
      unfolding g MetaBox_Parse_def by (intro reads_full) (use ok in \<open>auto simp: wf_flags_def intro!: reads_mapR\<close>)
  qed
qed

lemma back_avc1:
  assumes "box_ok (Avc1Box b e c bs)"
  shows "\<exists>w. readable (Avc1Box b e c bs) w"
proof -
  obtain a where c: "c = Some a" and e: "vse_ok e" "bs = []" "small_box b" "BoxType b = BoxTypeAVC1" "BoxType (avcC_Box a) = BoxTypeAVCC"
    and a: "small_box (avcC_Box a) \<and> avc_ok (AVCConfig a) \<and> length (Pps (AVCConfig a)) = length (Sps (AVCConfig a)) \<and> no_depth (AVCConfig a) = AVCConfig a"
    using assms by (auto split: option.splits)
  obtain v where v: "AVCDecoderConfigurationRecord_Serialize (AVCConfig a) = Inr v" using AVC_written(2)[of "AVCConfig a"] a by auto
  then have s: "AVCCConfigurationBox_Serialize a = Inr (Box_Serialize (avcC_Box a) @ v)" by (simp add: AVCCConfigurationBox_Serialize_def)
  obtain w where "(case AVCCConfigurationBox_Serialize a of Inr w \<Rightarrow> w | Inl e \<Rightarrow> []) = Box_Serialize (avcC_Box a) @ w"
    "reads (AVCCConfigurationBox_Parse (avcC_Box a)) w a" using avcC.body[OF a] by blast
  then have w: "AVCCConfigurationBox_Serialize a = Inr (Box_Serialize (avcC_Box a) @ w)" "reads (AVCCConfigurationBox_Parse (avcC_Box a)) w a"
    by (simp_all add: s)
  show ?thesis
  proof (rule backI[OF e(3)])
    show "IBox_Serialize (Avc1Box b e c bs) = Inr (Box_Serialize b @ VisualSampleEntry_serialize e @ Box_Serialize (avcC_Box a) @ w)"
      by (simp add: c e(2) w(1))
    fix n
    have g: "getParser n (parseChildBox n) (BoxType b) b = Avc1Box_Parse b" by (simp add: getParser_def container_type_def e(4))
    show "reads (getParser n (parseChildBox n) (BoxType b) b) (VisualSampleEntry_serialize e @ Box_Serialize (avcC_Box a) @ w) (Avc1Box b e c bs)"
      unfolding g Avc1Box_Parse_def
      by (intro reads_bind[OF reads_VisualSampleEntry[OF e(1)]] reads_bind[OF reads_ParseBox] reads_if)
        (use a w(2) e c in \<open>auto intro!: reads_mapR\<close>)
  qed
qed

lemma back_hev1:
  assumes "box_ok (Hev1Box b e bs)"
  shows "\<exists>w. readable (Hev1Box b e bs) w"
proof -
  obtain h t where h: "bs = h # t" using assms by (cases bs) auto
  then have t: "t = []" using assms by (cases t) (auto split: IBox.splits)
  obtain a where e: "vse_ok e" "bs = [HvcCB a]" "small_box b" "BoxType b = BoxTypeHEV1" "BoxType (hvcC_Box a) = BoxTypeHVCC"
    and a: "small_box (hvcC_Box a) \<and> hevc_ok (HEVCConfig a)"
    using assms h t by (cases h) auto
  obtain v where v: "HevcDecoderConfigurationRecord_Serialize (HEVCConfig a) = Inr v" using HEVC_roundtrip[of "HEVCConfig a"] a by auto
  then have s: "HVCCConfigurationBox_Serialize a = Inr (Box_Serialize (hvcC_Box a) @ v)" by (simp add: HVCCConfigurationBox_Serialize_def)
  obtain w where "(case HVCCConfigurationBox_Serialize a of Inr w \<Rightarrow> w | Inl e \<Rightarrow> []) = Box_Serialize (hvcC_Box a) @ w"
    "reads (HVCCConfigurationBox_Parse (hvcC_Box a)) w a" using hvcC.body[OF a] by blast
  then have w: "HVCCConfigurationBox_Serialize a = Inr (Box_Serialize (hvcC_Box a) @ w)" "reads (HVCCConfigurationBox_Parse (hvcC_Box a)) w a"
    by (simp_all add: s)
  show ?thesis
  proof (rule backI[OF e(3)])
    show "IBox_Serialize (Hev1Box b e bs) = Inr (Box_Serialize b @ VisualSampleEntry_serialize e @ Box_Serialize (hvcC_Box a) @ w)"
      by (simp add: e(2) w(1))
    fix n
    have g: "getParser n (parseChildBox n) (BoxType b) b = Hev1Box_Parse b" by (simp add: getParser_def container_type_def e(4))
    show "reads (getParser n (parseChildBox n) (BoxType b) b) (VisualSampleEntry_serialize e @ Box_Serialize (hvcC_Box a) @ w) (Hev1Box b e bs)"
      unfolding g Hev1Box_Parse_def
      by (intro reads_bind[OF reads_VisualSampleEntry[OF e(1)]] reads_bind[OF reads_ParseBox] reads_if)
        (use a w(2) e in \<open>auto intro!: reads_mapR\<close>)
  qed
qed

lemmas leaf_simps = getParser_def container_type_def is_box_def plain_full_def

lemma back_leaf:
  assumes "box_ok x"
  shows "(\<exists>w. readable x w) \<or> (\<exists>b bs. x = SimpleBoxContainer b bs) \<or> (\<exists>f n bs. x = DrefBox f n bs) \<or> (\<exists>f n bs. x = StsdBox f n bs) \<or>
    (\<exists>f bs. x = MetaBox f bs) \<or> (\<exists>b e c bs. x = Avc1Box b e c bs) \<or> (\<exists>b e bs. x = Hev1Box b e bs) \<or> (\<exists>b e bs. x = Mp4aBox b e bs)"
proof (cases x)
  case (FtypB b) then show ?thesis using ftyp.leaf[of b FtypB] assms by (auto simp: leaf_simps) next
  case (SidxB b) then show ?thesis using sidx.leaf[of b SidxB] assms by (simp add: leaf_simps) next
  case (MfhdB b) then show ?thesis using mfhd.leaf[of b MfhdB] assms by (simp add: leaf_simps) next
  case (TfhdB b) then show ?thesis using tfhd.leaf[of b TfhdB] assms by (simp add: leaf_simps) next
  case (TfdtB b) then show ?thesis using tfdt.leaf[of b TfdtB] assms by (simp add: leaf_simps) next
  case (TrunB b) then show ?thesis using trun.leaf[of b TrunB] assms by (simp add: leaf_simps) next
  case (MvhdB b) then show ?thesis using mvhd.leaf[of b MvhdB] assms by (simp add: leaf_simps) next
  case (TkhdB b) then show ?thesis using tkhd.leaf[of b TkhdB] assms by (simp add: leaf_simps) next
  case (MdhdB b) then show ?thesis using mdhd.leaf[of b MdhdB] assms by (simp add: leaf_simps) next
  case (HdlrB b) then show ?thesis using hdlr.leaf[of b HdlrB] assms by (simp add: leaf_simps) next
  case (VmhdB b) then show ?thesis using vmhd.leaf[of b VmhdB] assms by (simp add: leaf_simps) next
  case (SmhdB b) then show ?thesis using smhd.leaf[of b SmhdB] assms by (simp add: leaf_simps) next
  case (SttsB b) then show ?thesis using stts.leaf[of b SttsB] assms by (simp add: leaf_simps) next
  case (StscB b) then show ?thesis using stsc.leaf[of b StscB] assms by (simp add: leaf_simps) next
  case (StcoB b) then show ?thesis using stco.leaf[of b StcoB] assms by (simp add: leaf_simps) next
  case (StszB b) then show ?thesis using stsz.leaf[of b StszB] assms by (auto simp: leaf_simps) next
  case (TrexB b) then show ?thesis using trex.leaf[of b TrexB] assms by (simp add: leaf_simps) next
  case (UrlB b) then show ?thesis using url.leaf[of b UrlB] assms by (simp add: leaf_simps) next
  case (PaspB b) then show ?thesis using pasp.leaf[of b PaspB] assms by (simp add: leaf_simps) next
  case (MfroB b) then show ?thesis using mfro.leaf[of b MfroB] assms by (simp add: leaf_simps) next
  case (UnsupportedB b) then show ?thesis using unsupported.leaf[of b UnsupportedB] assms by (simp add: leaf_simps known_type_def) next
  case (ElstB b)
  then have "elst_ok b" "BoxType (fb_Box (elst_FullBox b)) = BoxTypeELST" using assms by (auto simp: leaf_simps)
  then show ?thesis using ElstB elst.leaf[of b ElstB] elst_consistent[of b] by (simp add: leaf_simps)
next
  case (EsdsB b)
  then have b: "esds_ok b" "BoxType (fb_Box (esds_FullBox b)) = BoxTypeESDS" using assms by (auto simp: leaf_simps)
  then have "es_ok (EsDescr b)" by (simp add: esds_ok_def)
  from reads_es[OF this, of 0] obtain v where "EsdsBox_Serialize b = Inr v" by (auto simp: EsdsBox_Serialize_def)
  then show ?thesis using EsdsB esds.leaf[of b EsdsB] b by (simp add: leaf_simps)
qed (use assms in simp_all)

lemma box_ok_readable: "box_ok x \<Longrightarrow> \<exists>w. readable x w"
proof (induction x)
  case (SimpleBoxContainer b bs)
  then show ?case by (intro back_container) auto
next
  case (DrefBox f n bs)
  then show ?case by (intro back_dref) auto
next
  case (StsdBox f n bs)
  then show ?case by (intro back_stsd) auto
next
  case (Mp4aBox b e bs)
  then show ?case by (intro back_mp4a) auto
next
  case (MetaBox f bs)
  then show ?case by (intro back_meta)
next
  case (Avc1Box b e c bs)
  then show ?case by (intro back_avc1)
next
  case (Hev1Box b e bs)
  then show ?case by (intro back_hev1)
qed (use back_leaf in blast)+

text \<open>C29: A tree of boxes that satisfies \<open>box_ok\<close> is written without an error, and \<open>parseChildBox\<close> reads it back as
  it was, whatever follows it, with the count of the bytes written.  The kinds of boxes it may have: containers
  (moof, traf, trak, edts, mdia, minf, dinf, mvex, udta, stbl, mfra), ftyp, styp, sidx, mfhd, tfhd, tfdt, trun, mvhd,
  tkhd, mdhd, hdlr, vmhd, smhd, dref, stsd, stts, stsc, stsz, stz2, stco, elst, trex, pasp, esds, mfro, mp4a, meta
  with handlers and unparsed boxes, boxes of unknown types, a url entry with flags 1 and no location, an avc1 with
  just an avcC of as many picture as sequence sets and no depths, and a hev1 with just an hvcC.  Sizes fit in
  32 bits and count the bytes where the reader goes by them, counts are the numbers of entries, versions and flags are those
  the reader asks for, and fields fit their width and are zero where no flag has them written.  A url with a
  location or other flags, urn, tfra, mdat, moov, and further children of avc1 and hev1 are not such trees:
  the code does not read them back here, or not as they were.\<close>

theorem tree_roundtrip:
  assumes "box_ok x"
  shows "\<exists>w. IBox_Serialize x = Inr w \<and> (\<forall>r n. length (w @ r) \<le> n \<longrightarrow> parseChildBox n (w @ r) = Inr (x, length w, r))"
  using box_ok_readable[OF assms] by (auto simp: readable_def reads_def)

definition example_moof :: IBox where
  "example_moof = SimpleBoxContainer \<lparr>Size = 76, BoxType = BoxTypeMOOF\<rparr>
     [MfhdB \<lparr>mfhd_FullBox = \<lparr>fb_Box = \<lparr>Size = 16, BoxType = BoxTypeMFHD\<rparr>, version = 0, flags24Bit = 0\<rparr>, SequenceNumber = 7\<rparr>,
      SimpleBoxContainer \<lparr>Size = 52, BoxType = BoxTypeTRAF\<rparr>
        [TfdtB \<lparr>tfdt_FullBox = \<lparr>fb_Box = \<lparr>Size = 20, BoxType = BoxTypeTFDT\<rparr>, version = 1, flags24Bit = 0\<rparr>, BaseMediaDecodeTime = 90000\<rparr>,
         TrunB \<lparr>trun_FullBox = \<lparr>fb_Box = \<lparr>Size = 24, BoxType = BoxTypeTRUN\<rparr>, version = 0, flags24Bit = 0x201\<rparr>,
           SampleCount = 1, DataOffset = 84, FirstSampleFlags = 0,
           BoxSamples = [\<lparr>SampleDuration = 0, SampleSize = 5, SampleFlags = 0, SampleCompositionTimeOffset = 0, SSampleCompositionTimeOffset = 0\<rparr>]\<rparr>]]"

theorem tree_roundtrip_witness:
  "\<exists>w. IBox_Serialize example_moof = Inr w \<and> (\<forall>r n. length (w @ r) \<le> n \<longrightarrow> parseChildBox n (w @ r) = Inr (example_moof, length w, r))"
  by (rule tree_roundtrip) code_simp

end
