(* ===== verification/Mp4_Fmp4.thy ===== *)
theory Mp4_Fmp4
  imports Mp4_Tree "HOL-Library.Signed_Division"
begin

text \<open>
  \<open>container/mp4/fmp4.go\<close>: the muxer that turns frames into a fragmented file.  Boxes it still holds a
  pointer to are named instead of copied: the movie box holds the movie header and the mvex box by name,
  and the fragment under construction holds the run of a track by the name of the track, whose cache
  goes on changing it; \<open>moov_IBox\<close> and \<open>moof_IBox\<close> put in what they point to.  The media data of a
  finished fragment is the slice \<open>mdatBuf.Bytes()\<close>, which shares the array of the buffer: arrays are
  addressed by number in \<open>f_arrays\<close>, an array is as long as its capacity, and a write that fits goes to the
  array that is there.  How a \<open>bytes.Buffer\<close> grows is the parameter \<open>grow\<close> (capacity, length needed); the
  size of a picture in an SPS is the parameter \<open>sps_size\<close>, since the package av that parses it is not in
  the repository.  Time stamps are signed 64-bit words.  An operation returns its error, if any, and
  the muxer it leaves; the field Mfra, which nothing uses, is left out.
\<close>

section \<open>State\<close>

definition nil_dereference :: go_error where
  "nil_dereference = Panic ''runtime error: invalid memory address or nil pointer dereference''"

definition divide_panic :: go_error where
  "divide_panic = Panic ''runtime error: integer divide by zero''"

abbreviation (input) Diff1970To1904 :: u64 where "Diff1970To1904 \<equiv> 2082844800"
abbreviation (input) Mp4BoxBrandISOM :: u32 where "Mp4BoxBrandISOM \<equiv> 0x69736f6d"
abbreviation (input) VideoHandlerType :: u32 where "VideoHandlerType \<equiv> 0x76797065"
abbreviation (input) AudioHandlerType :: u32 where "AudioHandlerType \<equiv> 0x736f756e"

definition aacArIdxMap :: "u32 list" where
  "aacArIdxMap = [96000, 88200, 64000, 48000, 44100, 32000, 24000, 22050, 16000, 12000, 11025, 8000, 7350]"

record MdatCache =
  mc_trunBox :: "TrunBox option"
  mc_buf :: bytes
  mc_lastTs :: u64
  mc_firstTs :: u64
  mc_accOffset :: u64
  mc_defaultSampleSize :: u32
  mc_baseDataOffset :: u64
  mc_trackID :: u32
  mc_baseDecodeTime :: u64

datatype track = Audio | Video

datatype moof_child = Child IBox | TrafOf track Box TfhdBox TfdtBox

datatype moov_child = TheMvhd | TheMvex | Trak IBox

record OpenMoof =
  om_Box :: Box
  om_SubBoxes :: "moof_child list"

record MdatSlice =
  ms_Box :: Box
  ms_array :: nat
  ms_len :: nat

record Fmp4 =
  f_Ftyp :: FtypBox
  f_Moov :: Box
  f_MoovSubBoxes :: "moov_child list"
  f_mvexInMoov :: Box
  f_mvexSubBoxes :: "IBox list"
  f_mvexAppended :: bool
  f_MoofMdat :: "(IBox \<times> MdatSlice) list"
  f_audioTrackId :: u32
  f_videoTrackId :: u32
  f_cmTime :: u64
  f_curTrackOffset :: u64
  f_keyFrameCount :: u32
  f_moofBox :: "OpenMoof option"
  f_arrays :: "bytes list"
  f_mdatBuf :: "nat \<times> nat"
  f_vCache :: MdatCache
  f_aCache :: MdatCache
  f_segDuration :: u64
  f_headerBox :: bytes
  f_mvhdBox :: MvhdBox
  f_vTrackMdhdBox :: "MdhdBox option"
  f_moofMdatSeqNum :: u32
  f_fmp4BaseDataOffset :: u64

definition f_trackId :: "track \<Rightarrow> Fmp4 \<Rightarrow> u32" where
  "f_trackId t f = (case t of Audio \<Rightarrow> f_audioTrackId f | Video \<Rightarrow> f_videoTrackId f)"

definition cache_of :: "track \<Rightarrow> Fmp4 \<Rightarrow> MdatCache" where
  "cache_of t f = (case t of Audio \<Rightarrow> f_aCache f | Video \<Rightarrow> f_vCache f)"

definition set_cache :: "track \<Rightarrow> MdatCache \<Rightarrow> Fmp4 \<Rightarrow> Fmp4" where
  "set_cache t c f = (case t of Audio \<Rightarrow> f\<lparr>f_aCache := c\<rparr> | Video \<Rightarrow> f\<lparr>f_vCache := c\<rparr>)"

definition grown :: "FullBox \<Rightarrow> u64 \<Rightarrow> FullBox" where
  "grown f n = f\<lparr>fb_Box := (fb_Box f)\<lparr>Size := fb_Size f + n\<rparr>\<rparr>"

definition new_cache :: MdatCache where
  "new_cache = \<lparr>mc_trunBox = None, mc_buf = [], mc_lastTs = 0, mc_firstTs = 0, mc_accOffset = 0, mc_defaultSampleSize = 0,
     mc_baseDataOffset = 0, mc_trackID = 0, mc_baseDecodeTime = 0\<rparr>"

definition identity_matrix :: "u32 list" where
  "identity_matrix = [0x00010000, 0, 0, 0, 0x00010000, 0, 0, 0, 0x40000000]"

definition fmp4_mvhd :: "u64 \<Rightarrow> MvhdBox" where
  "fmp4_mvhd nowSec =
     \<lparr>mvhd_FullBox = grown (NewTypeFullBox BoxTypeMVHD 0 0) 96, mvhd_CreationTime = nowSec + Diff1970To1904,
      mvhd_ModificationTime = nowSec + Diff1970To1904, mvhd_Timescale = 1000, mvhd_Duration = 0, TemplateRate = 0x00010000,
      mvhd_TemplateVolume = 0, mvhd_Reserved1 = replicate 2 0, mvhd_Reserved2 = replicate 2 0,
      mvhd_TemplateMatrix = identity_matrix, mvhd_PreDefined = replicate 6 (replicate 4 0), NextTrackID = 1\<rparr>"

text \<open>The clock is read twice.\<close>

definition NewFmp4 :: "u64 \<Rightarrow> u64 \<Rightarrow> u64 \<Rightarrow> Fmp4" where
  "NewFmp4 nowSec now2 segDuration =
     \<lparr>f_Ftyp = \<lparr>ftyp_Box = (NewTypeBox BoxTypeFTYP)\<lparr>Size := 8 + 8\<rparr>, MajorBrand = Mp4BoxBrandISOM, MinorBrand = 0x0200, CompatibleBrands = []\<rparr>,
      f_Moov = (NewTypeBox BoxTypeMOOV)\<lparr>Size := 8 + fb_Size (mvhd_FullBox (fmp4_mvhd nowSec))\<rparr>, f_MoovSubBoxes = [TheMvhd],
      f_mvexInMoov = NewTypeBox BoxTypeMVEX, f_mvexSubBoxes = [], f_mvexAppended = False, f_MoofMdat = [],
      f_audioTrackId = 0, f_videoTrackId = 0, f_cmTime = now2 + Diff1970To1904, f_curTrackOffset = 0, f_keyFrameCount = 0,
      f_moofBox = None, f_arrays = [[]], f_mdatBuf = (0, 0), f_vCache = new_cache, f_aCache = new_cache,
      f_segDuration = segDuration, f_headerBox = [], f_mvhdBox = fmp4_mvhd nowSec, f_vTrackMdhdBox = None,
      f_moofMdatSeqNum = 1, f_fmp4BaseDataOffset = 0\<rparr>"

definition SetMajorBrand :: "u32 \<Rightarrow> Fmp4 \<Rightarrow> Fmp4" where
  "SetMajorBrand brand f = f\<lparr>f_Ftyp := (f_Ftyp f)\<lparr>MajorBrand := brand\<rparr>\<rparr>"

definition SetMinorBrand :: "u32 \<Rightarrow> Fmp4 \<Rightarrow> Fmp4" where
  "SetMinorBrand brand f = f\<lparr>f_Ftyp := (f_Ftyp f)\<lparr>MinorBrand := brand\<rparr>\<rparr>"

definition AppendCompatibleBrand :: "u32 \<Rightarrow> Fmp4 \<Rightarrow> Fmp4" where
  "AppendCompatibleBrand brand f =
     (if brand \<in> set (CompatibleBrands (f_Ftyp f)) then f
      else f\<lparr>f_Ftyp := (f_Ftyp f)\<lparr>CompatibleBrands := CompatibleBrands (f_Ftyp f) @ [brand],
        ftyp_Box := (ftyp_Box (f_Ftyp f))\<lparr>Size := Size (ftyp_Box (f_Ftyp f)) + 4\<rparr>\<rparr>\<rparr>)"

section \<open>Boxes of a track\<close>

definition newFmp4DinfBox :: IBox where
  "newFmp4DinfBox =
     (let url = \<lparr>url_FullBox = NewTypeFullBox BoxTypeURL 0 0, url_Location = []\<rparr>;
          dref = grown (grown (NewTypeFullBox BoxTypeDREF 0 0) 4) (fb_Size (url_FullBox url)) in
      SimpleBoxContainer ((NewTypeBox BoxTypeDINF)\<lparr>Size := 8 + fb_Size dref\<rparr>) [DrefBox dref 1 [UrlB url]])"

text \<open>The \<open>Box\<close> embedded in every box, to which the methods of the interface belong.\<close>

fun box_header :: "IBox \<Rightarrow> Box" where
  "box_header (SidxB b) = fb_Box (sidx_FullBox b)"
| "box_header (MfhdB b) = fb_Box (mfhd_FullBox b)"
| "box_header (TfhdB b) = fb_Box (tfhd_FullBox b)"
| "box_header (TfdtB b) = fb_Box (tfdt_FullBox b)"
| "box_header (TrunB b) = fb_Box (trun_FullBox b)"
| "box_header (MvhdB b) = fb_Box (mvhd_FullBox b)"
| "box_header (TkhdB b) = fb_Box (tkhd_FullBox b)"
| "box_header (MdhdB b) = fb_Box (mdhd_FullBox b)"
| "box_header (HdlrB b) = fb_Box (hdlr_FullBox b)"
| "box_header (VmhdB b) = fb_Box (vmhd_FullBox b)"
| "box_header (SmhdB b) = fb_Box (smhd_FullBox b)"
| "box_header (SttsB b) = fb_Box (stts_FullBox b)"
| "box_header (StscB b) = fb_Box (stsc_FullBox b)"
| "box_header (StszB b) = fb_Box (stsz_FullBox b)"
| "box_header (StcoB b) = fb_Box (stco_FullBox b)"
| "box_header (ElstB b) = fb_Box (elst_FullBox b)"
| "box_header (TrexB b) = fb_Box (trex_FullBox b)"
| "box_header (UrlB b) = fb_Box (url_FullBox b)"
| "box_header (UrnB b) = fb_Box (urn_FullBox b)"
| "box_header (EsdsB b) = fb_Box (esds_FullBox b)"
| "box_header (TfraB b) = fb_Box (tfra_FullBox b)"
| "box_header (MfroB b) = fb_Box (mfro_FullBox b)"
| "box_header (FtypB b) = ftyp_Box b"
| "box_header (PaspB b) = pasp_Box b"
| "box_header (MdatB b) = mdat_Box b"
| "box_header (HvcCB b) = hvcC_Box b"
| "box_header (UnsupportedB b) = ub_Box b"
| "box_header (SimpleBoxContainer b bs) = b"
| "box_header (DrefBox f n bs) = fb_Box f"
| "box_header (StsdBox f n bs) = fb_Box f"
| "box_header (MetaBox f bs) = fb_Box f"
| "box_header (Avc1Box b e c bs) = b"
| "box_header (Hev1Box b e bs) = b"
| "box_header (Mp4aBox b e bs) = b"

definition GetBoxType :: "IBox \<Rightarrow> u32" where
  "GetBoxType b = BoxType (box_header b)"

definition GetBoxSize :: "IBox \<Rightarrow> u64" where
  "GetBoxSize b = Size (box_header b)"

fun GetSubBoxes :: "IBox \<Rightarrow> IBox list" where
  "GetSubBoxes (SimpleBoxContainer b bs) = bs"
| "GetSubBoxes _ = []"

text \<open>
  The inner loop runs over the boxes there were when it began, so the last box of a type is entered, and
  a type that is not found leaves the level as it is.
\<close>

fun findBoxByType :: "IBox list \<Rightarrow> u32 list \<Rightarrow> IBox option" where
  "findBoxByType boxes [] = None"
| "findBoxByType boxes [t] = find (\<lambda>b. GetBoxType b = t) boxes"
| "findBoxByType boxes (t # ts) =
     findBoxByType (case filter (\<lambda>b. GetBoxType b = t) boxes of [] \<Rightarrow> boxes | bs \<Rightarrow> GetSubBoxes (last bs)) ts"

text \<open>A container whose size is that of its header and its children.\<close>

definition container_of :: "u32 \<Rightarrow> IBox list \<Rightarrow> IBox" where
  "container_of t bs = SimpleBoxContainer ((NewTypeBox t)\<lparr>Size := 8 + sum_list (map GetBoxSize bs)\<rparr>) bs"


definition newFmp4MinfBox :: "IBox \<Rightarrow> IBox \<Rightarrow> IBox" where
  "newFmp4MinfBox mhd stbl = container_of BoxTypeMINF [mhd, newFmp4DinfBox, stbl]"

definition newFmp4VideoMinfBox :: "IBox \<Rightarrow> IBox" where
  "newFmp4VideoMinfBox stbl =
     newFmp4MinfBox (VmhdB \<lparr>vmhd_FullBox = grown (NewTypeFullBox BoxTypeVMHD 0 1) 8, TemplateGraphicsMode = 0, TemplateOpcolor = replicate 3 0\<rparr>) stbl"

definition newFmp4AudioMinfBox :: "IBox \<Rightarrow> IBox" where
  "newFmp4AudioMinfBox stbl =
     newFmp4MinfBox (SmhdB \<lparr>smhd_FullBox = grown (NewTypeFullBox BoxTypeSMHD 0 0) 4, TmeplateBalance = 0, smhd_Reserved = 0\<rparr>) stbl"

definition newFmp4AudioHdlrBox :: IBox where
  "newFmp4AudioHdlrBox =
     HdlrB \<lparr>hdlr_FullBox = grown (NewTypeFullBox BoxTypeHDLR 0 0) 33, hdlr_PreDefined = 0, handlerType = AudioHandlerType,
       hdlr_Reserved = replicate 3 0, hdlr_Name = [83, 111, 117, 110, 100, 72, 97, 110, 100, 108, 101, 114, 0]\<rparr>"

definition newFmp4VideoHdlrBox :: IBox where
  "newFmp4VideoHdlrBox =
     HdlrB \<lparr>hdlr_FullBox = grown (NewTypeFullBox BoxTypeHDLR 0 0) 33, hdlr_PreDefined = 0, handlerType = VideoHandlerType,
       hdlr_Reserved = replicate 3 0, hdlr_Name = [86, 105, 100, 101, 111, 72, 97, 110, 100, 108, 101, 114, 0]\<rparr>"

definition newFmp4MdhdBox :: "u32 \<Rightarrow> u64 \<Rightarrow> MdhdBox" where
  "newFmp4MdhdBox timescale cmTime =
     \<lparr>mdhd_FullBox = grown (NewTypeFullBox BoxTypeMDHD 0 0) 20, mdhd_CreationTime = cmTime, mdhd_ModificationTime = cmTime,
      mdhd_Timescale = timescale, mdhd_Duration = 0, Pad = 0, Language = [0x15, 0x0E, 0x04], mdhd_PreDefined = 0\<rparr>"

definition newVideoStblBox :: "IBox \<Rightarrow> IBox" where
  "newVideoStblBox sub =
     container_of BoxTypeSTBL
       [StsdBox (grown (grown (NewTypeFullBox BoxTypeSTSD 0 0) (GetBoxSize sub)) 4) 1 [sub],
        SttsB \<lparr>stts_FullBox = grown (NewTypeFullBox BoxTypeSTTS 0 0) 4, stts_EntryCount = 0, stts_Entries = []\<rparr>,
        StscB \<lparr>stsc_FullBox = grown (NewTypeFullBox BoxTypeSTSC 0 0) 4, stsc_EntryCount = 0, stsc_Entries = []\<rparr>,
        StszB \<lparr>stsz_FullBox = grown (NewTypeFullBox BoxTypeSTSZ 0 0) 8, stsz_SampleSize = 0, stsz_SampleCount = 0, EnriesSize = []\<rparr>,
        StcoB \<lparr>stco_FullBox = grown (NewTypeFullBox BoxTypeSTCO 0 0) 4, stco_EntryCount = 0, ChunkOffset = []\<rparr>]"

section \<open>Adding tracks\<close>

definition fmp4_tkhd :: "Fmp4 \<Rightarrow> TkhdBox" where
  "fmp4_tkhd f =
     \<lparr>tkhd_FullBox = grown (NewTypeFullBox BoxTypeTKHD 0 3) 80, tkhd_CreationTime = f_cmTime f, tkhd_ModificationTime = f_cmTime f,
      tkhd_TrackID = NextTrackID (f_mvhdBox f), tkhd_Reserved1 = 0, tkhd_Duration = 0, tkhd_Reserved2 = replicate 2 0, TemplateLayer = 0,
      TemplatealTernateGroup = 0, tkhd_TemplateVolume = 0, tkhd_Reserved3 = 0, tkhd_TemplateMatrix = identity_matrix, tkhd_Width = 0, tkhd_Height = 0\<rparr>"

definition appendTrexBox :: "Fmp4 \<Rightarrow> Fmp4" where
  "appendTrexBox f =
     (let trex = \<lparr>trex_FullBox = grown (NewTypeFullBox BoxTypeTREX 0 0) 20, trex_TrackID = NextTrackID (f_mvhdBox f), DefaultSampleDescriptionIndex = 1,
            trex_DefaultSampleDuration = 0, trex_DefaultSampleSize = 0, trex_DefaultSampleFlags = 0\<rparr> in
      f\<lparr>f_mvexInMoov := (f_mvexInMoov f)\<lparr>Size := Size (f_mvexInMoov f) + fb_Size (trex_FullBox trex)\<rparr>,
        f_mvexSubBoxes := f_mvexSubBoxes f @ [TrexB trex]\<rparr>)"

definition zero_sample_entry :: SampleEntry where
  "zero_sample_entry = \<lparr>se_Reserved = replicate 6 0, DataReferenceIndex = 1\<rparr>"

text \<open>The body of the configuration box is counted with the length of the bytes it was read from.\<close>

definition fmp4_avc1 :: "u16 \<Rightarrow> u16 \<Rightarrow> AVCDecoderConfigurationRecord \<Rightarrow> nat \<Rightarrow> IBox" where
  "fmp4_avc1 w h dc len =
     (let pasp = \<lparr>pasp_Box = (NewTypeBox BoxTypePASP)\<lparr>Size := 8 + 8\<rparr>, HSpacing = 16, VSpacing = 15\<rparr>;
          avcc = \<lparr>avcC_Box = (NewTypeBox BoxTypeAVCC)\<lparr>Size := 8 + of_nat len\<rparr>, AVCConfig = dc\<rparr>;
          entry = \<lparr>vse_SampleEntry = zero_sample_entry, PreDefined1 = 0, vse_Reserved1 = 0, PreDefined2 = replicate 3 0, vse_Width = w, vse_Height = h,
            TemplateHorizResolution = 0x00480000, TemplateVertResolution = 0x00480000, vse_Reserved3 = 0, TemplateFrameCount = 1,
            CompressorName = replicate 32 0, TemplateDepth = 0x18, PreDefined3 = - 1\<rparr> in
      Avc1Box ((NewTypeBox BoxTypeAVC1)\<lparr>Size := 8 + (70 + 8) + Size (pasp_Box pasp) + Size (avcC_Box avcc)\<rparr>) entry (Some avcc) [PaspB pasp])"

text \<open>The trak box, its mdhd box being kept as well.\<close>

definition fmp4_trak :: "TkhdBox \<Rightarrow> MdhdBox \<Rightarrow> IBox \<Rightarrow> IBox \<Rightarrow> IBox" where
  "fmp4_trak tkhd mdhd hdlr minf = container_of BoxTypeTRAK [TkhdB tkhd, container_of BoxTypeMDIA [MdhdB mdhd, hdlr, minf]]"

definition AddVideoH264Track :: "(bytes \<Rightarrow> (u16 \<times> u16) res) \<Rightarrow> bytes \<Rightarrow> Fmp4 \<Rightarrow> go_error option \<times> Fmp4" where
  "AddVideoH264Track sps_size avcSeqHdlr f =
     (if f_videoTrackId f \<noteq> 0 then (Some (Errorf ''video trackid already exists''), f)
      else case AVCDecoderConfigurationRecord_Parse avcSeqHdlr of
        Inl e \<Rightarrow> (Some e, f)
      | Inr (dc, n, r) \<Rightarrow>
        if Sps dc = [] then (Some index_panic, f)
        else if Nalu (Sps dc ! 0) = [] then (Some slice_panic, f)
        else (case sps_size (tl (Nalu (Sps dc ! 0))) of
          Inl e \<Rightarrow> (Some e, f)
        | Inr (w, h) \<Rightarrow>
          let tkhd = (fmp4_tkhd f)\<lparr>tkhd_Width := push_bit 16 (ucast w), tkhd_Height := push_bit 16 (ucast h)\<rparr>;
              mdhd = newFmp4MdhdBox 1000 (f_cmTime f);
              trak = fmp4_trak tkhd mdhd newFmp4VideoHdlrBox
                (newFmp4VideoMinfBox (newVideoStblBox (fmp4_avc1 w h dc (length avcSeqHdlr))));
              next = NextTrackID (f_mvhdBox f);
              f = appendTrexBox (f\<lparr>f_MoovSubBoxes := f_MoovSubBoxes f @ [Trak trak], f_vTrackMdhdBox := Some mdhd\<rparr>) in
          (None, f\<lparr>f_vCache := (f_vCache f)\<lparr>mc_trackID := next\<rparr>, f_videoTrackId := next,
             f_mvhdBox := (f_mvhdBox f)\<lparr>NextTrackID := next + 1\<rparr>, f_Moov := (f_Moov f)\<lparr>Size := Size (f_Moov f) + GetBoxSize trak\<rparr>\<rparr>)))"

definition fmp4_esds :: "bytes \<Rightarrow> IBox" where
  "fmp4_esds aacSeqHdlr =
     (let len = of_nat (length aacSeqHdlr);
          es = \<lparr>es_Base = \<lparr>Tag = 3, bd_Size = 32 + len\<rparr>, ES_ID = 1, StreamDependenceFlag = 0, URLFlag = 0, OCRstreamFlag = 0, StreamPriority = 0,
            es_DecoderConfig = \<lparr>dc_Base = \<lparr>Tag = 4, bd_Size = 18 + len\<rparr>, ObjectTypeIndication = 0x40, StreamType = 5, UpStream = 0, dc_Reserved = 1,
              BufferSizeDB = 0, MaxBitrate = 96 * 1024, AvgBitrate = 0,
              DecoderConfig = Some \<lparr>dsi_Base = \<lparr>Tag = 5, bd_Size = len\<rparr>, dsi_RawData = aacSeqHdlr\<rparr>, ProfileLevelIdcIdxDescr = []\<rparr>,
            SlConfigDescr = Some (new_SLConfig \<lparr>Tag = 6, bd_Size = 1\<rparr> 2), IpiPtr = None, IpIDS = [], IpmpDescrPtr = [], LangDescr = [],
            QosDescr = None, RegDescr = None, ExtDescr = []\<rparr> in
      EsdsB \<lparr>esds_FullBox = grown (NewTypeFullBox BoxTypeESDS 0 0) (ucast (bd_Size (es_Base es) + 5)), EsDescr = es\<rparr>)"

definition fmp4_mp4a :: "u32 \<Rightarrow> bytes \<Rightarrow> IBox" where
  "fmp4_mp4a rate aacSeqHdlr =
     (let esds = fmp4_esds aacSeqHdlr in
      Mp4aBox ((NewTypeBox BoxTypeMP4A)\<lparr>Size := 8 + (20 + 8) + GetBoxSize esds\<rparr>)
        \<lparr>ase_SampleEntry = zero_sample_entry, ase_Reserved1 = replicate 2 0, TemplateChannelCount = 2, TemplateSampleSize = 16,
         ase_PreDefined = 0, ase_Reserved2 = 0, TemplateSampleRate = push_bit 16 rate\<rparr> [esds])"

definition sampleRateIdx :: "bytes \<Rightarrow> nat" where
  "sampleRateIdx hdr = unat (push_bit 1 (hdr ! 0 AND 0x07) OR drop_bit 7 (hdr ! 1 AND 0x80))"

definition AddAudioTrack :: "bytes \<Rightarrow> Fmp4 \<Rightarrow> go_error option \<times> Fmp4" where
  "AddAudioTrack aacSeqHdlr f =
     (if f_audioTrackId f \<noteq> 0 then (Some (Errorf ''audio trackid already exists''), f)
      else if length aacSeqHdlr < 2 then (Some index_panic, f)
      else if 12 < sampleRateIdx aacSeqHdlr then (Some (Errorf ''wrong samplerate idx:%d''), f)
      else
        let tkhd = (fmp4_tkhd f)\<lparr>TemplatealTernateGroup := 1, tkhd_TemplateVolume := 0x100\<rparr>;
            rate = aacArIdxMap ! sampleRateIdx aacSeqHdlr;
            trak = fmp4_trak tkhd (newFmp4MdhdBox rate (f_cmTime f)) newFmp4AudioHdlrBox
              (newFmp4AudioMinfBox (newVideoStblBox (fmp4_mp4a rate aacSeqHdlr)));
            next = NextTrackID (f_mvhdBox f);
            f = appendTrexBox f in
        (None, f\<lparr>f_aCache := (f_aCache f)\<lparr>mc_trackID := next\<rparr>, f_audioTrackId := next,
           f_mvhdBox := (f_mvhdBox f)\<lparr>NextTrackID := next + 1, mvhd_TemplateVolume := 0x0100\<rparr>,
           f_MoovSubBoxes := f_MoovSubBoxes f @ [Trak trak], f_Moov := (f_Moov f)\<lparr>Size := Size (f_Moov f) + GetBoxSize trak\<rparr>\<rparr>))"

section \<open>Frames\<close>

definition cache_reset :: "u64 \<Rightarrow> u64 \<Rightarrow> MdatCache \<Rightarrow> MdatCache" where
  "cache_reset base decode c =
     c\<lparr>mc_trunBox := None, mc_buf := [], mc_lastTs := 0, mc_firstTs := 0, mc_accOffset := 0, mc_defaultSampleSize := 0,
       mc_baseDataOffset := base, mc_baseDecodeTime := decode\<rparr>"

definition new_trun :: TrunBox where
  "new_trun = \<lparr>trun_FullBox = grown (NewTypeFullBox BoxTypeTRUN 0 0) 4, SampleCount = 0, DataOffset = 0, FirstSampleFlags = 0, BoxSamples = []\<rparr>"

definition add_sample :: "u32 \<Rightarrow> TrunBox \<Rightarrow> TrunBox" where
  "add_sample len t =
     t\<lparr>BoxSamples := BoxSamples t @ [\<lparr>SampleDuration = 0, SampleSize = len, SampleFlags = 0, SampleCompositionTimeOffset = 0, SSampleCompositionTimeOffset = 0\<rparr>],
       trun_FullBox := grown (trun_FullBox t) 4, SampleCount := SampleCount t + 1\<rparr>"

text \<open>A frame with a length gets it in front, and a sample size that does not count it.\<close>

definition addFrame :: "bytes \<Rightarrow> u64 \<Rightarrow> nat \<Rightarrow> MdatCache \<Rightarrow> MdatCache" where
  "addFrame frame ts frameLen c =
     (let c = (case mc_trunBox c of Some t \<Rightarrow> c | None \<Rightarrow> c\<lparr>mc_firstTs := ts, mc_buf := [], mc_trunBox := Some new_trun\<rparr>);
          prefix = (if 0 < frameLen then u32be (of_nat frameLen) else []);
          size = (if 0 < frameLen then frameLen else length frame) in
      c\<lparr>mc_lastTs := ts, mc_buf := mc_buf c @ prefix @ frame,
        mc_accOffset := mc_accOffset c + of_nat (length prefix) + of_nat (length frame),
        mc_trunBox := map_option (add_sample (of_nat size)) (mc_trunBox c)\<rparr>)"

text \<open>The error of a missing key frame is overwritten, so the frame is added anyhow.\<close>

definition AddAudioFrameWithoutLen :: "bytes \<Rightarrow> u64 \<Rightarrow> Fmp4 \<Rightarrow> go_error option \<times> Fmp4" where
  "AddAudioFrameWithoutLen frame ts f =
     (if f_audioTrackId f < 1 then (Some (Errorf ''audio track not exists''), f)
      else (None, f\<lparr>f_aCache := addFrame frame ts (length frame) (f_aCache f)\<rparr>))"

section \<open>The header and the fragments\<close>

definition moov_child_IBox :: "Fmp4 \<Rightarrow> moov_child \<Rightarrow> IBox" where
  "moov_child_IBox f c = (case c of TheMvhd \<Rightarrow> MvhdB (f_mvhdBox f) | TheMvex \<Rightarrow> SimpleBoxContainer (f_mvexInMoov f) (f_mvexSubBoxes f) | Trak b \<Rightarrow> b)"

definition moov_IBox :: "Fmp4 \<Rightarrow> IBox" where
  "moov_IBox f = SimpleBoxContainer (f_Moov f) (map (moov_child_IBox f) (f_MoovSubBoxes f))"

definition appendMvex :: "Fmp4 \<Rightarrow> Fmp4" where
  "appendMvex f =
     (if f_mvexAppended f then f
      else f\<lparr>f_mvexAppended := True, f_MoovSubBoxes := f_MoovSubBoxes f @ [TheMvex],
             f_Moov := (f_Moov f)\<lparr>Size := Size (f_Moov f) + Size (f_mvexInMoov f)\<rparr>\<rparr>)"

text \<open>
  When moov cannot be written, the bytes of it that reached the header before are left out here: its only
  errors are panics (\<open>moov_panics\<close>), which end the run, so nothing reads that header.
\<close>

definition generateHeaderBox :: "Fmp4 \<Rightarrow> go_error option \<times> Fmp4" where
  "generateHeaderBox f =
     (let f = appendMvex (f\<lparr>f_headerBox := f_headerBox f @ FtypBox_Serialize (f_Ftyp f)\<rparr>) in
      case IBox_Serialize (moov_IBox f) of
        Inl e \<Rightarrow> (Some e, f)
      | Inr w \<Rightarrow> (None, f\<lparr>f_headerBox := f_headerBox f @ w, f_fmp4BaseDataOffset := of_nat (length (f_headerBox f @ w))\<rparr>))"

definition new_moof :: "u32 \<Rightarrow> OpenMoof" where
  "new_moof sequ =
     (let mfhd = \<lparr>mfhd_FullBox = grown (NewTypeFullBox BoxTypeMFHD 0 0) 4, SequenceNumber = sequ\<rparr> in
      \<lparr>om_Box = (NewTypeBox BoxTypeMOOF)\<lparr>Size := 8 + fb_Size (mfhd_FullBox mfhd)\<rparr>, om_SubBoxes = [Child (MfhdB mfhd)]\<rparr>)"

definition reset_cache :: "track \<Rightarrow> u64 \<Rightarrow> Fmp4 \<Rightarrow> Fmp4" where
  "reset_cache t ts f =
     (if 0 < f_trackId t f then set_cache t (cache_reset (f_fmp4BaseDataOffset f) ts (cache_of t f)) f else f)"

definition resetFrag :: "bool \<Rightarrow> u64 \<Rightarrow> Fmp4 \<Rightarrow> Fmp4" where
  "resetFrag isForce ts f =
     (let f = reset_cache Video ts (reset_cache Audio ts f) in
      if isForce \<or> f_moofBox f = None
      then f\<lparr>f_moofBox := Some (new_moof (f_moofMdatSeqNum f)), f_mdatBuf := (fst (f_mdatBuf f), 0)\<rparr>
      else f)"

text \<open>A write to the media buffer: in place while it fits the capacity, else to a new array.\<close>

definition buffer_write :: "(nat \<Rightarrow> nat \<Rightarrow> nat) \<Rightarrow> bytes \<Rightarrow> bytes list \<times> nat \<times> nat \<Rightarrow> bytes list \<times> nat \<times> nat" where
  "buffer_write grow w = (\<lambda>(arrays, i, l).
     let a = arrays ! i; n = l + length w in
     if n \<le> length a then (arrays[i := take l a @ w @ drop n a], i, n)
     else (arrays @ [take l a @ w @ replicate (grow (length a) n - n) 0], length arrays, n))"

definition mdat_write :: "(nat \<Rightarrow> nat \<Rightarrow> nat) \<Rightarrow> bytes \<Rightarrow> Fmp4 \<Rightarrow> Fmp4" where
  "mdat_write grow w f = (case buffer_write grow w (f_arrays f, f_mdatBuf f) of (arrays, b) \<Rightarrow> f\<lparr>f_arrays := arrays, f_mdatBuf := b\<rparr>)"

definition mdat_data :: "Fmp4 \<Rightarrow> MdatSlice \<Rightarrow> bytes" where
  "mdat_data f m = take (ms_len m) (f_arrays f ! ms_array m)"

definition fragment_tfhd :: "MdatCache \<Rightarrow> u32 \<Rightarrow> u32 \<Rightarrow> TfhdBox" where
  "fragment_tfhd c duration flags =
     \<lparr>tfhd_FullBox = grown (NewTypeFullBox BoxTypeTFHD 0 0x39) 24, tfhd_TrackID = mc_trackID c, BaseDataOffset = mc_baseDataOffset c,
      SampleDescriptionIndex = 0, DefaultSampleDuration = duration, DefaultSampleSize = mc_defaultSampleSize c, DefaultSampleFlags = flags\<rparr>"

definition fragment_tfdt :: "MdatCache \<Rightarrow> TfdtBox" where
  "fragment_tfdt c = \<lparr>tfdt_FullBox = grown (NewTypeFullBox BoxTypeTFDT 1 0) 8, BaseMediaDecodeTime = mc_baseDecodeTime c\<rparr>"

text \<open>What both kinds of track share: the traf box with the run of the track, whose fields are set first.\<close>

definition append_traf :: "track \<Rightarrow> TfhdBox \<Rightarrow> TrunBox \<Rightarrow> OpenMoof \<Rightarrow> Fmp4 \<Rightarrow> Fmp4" where
  "append_traf t tfhd trun m f =
     (let c = cache_of t f; tfdt = fragment_tfdt c;
          sz = 8 + fb_Size (tfhd_FullBox tfhd) + fb_Size (tfdt_FullBox tfdt) + fb_Size (trun_FullBox trun);
          box = (NewTypeBox BoxTypeTRAF)\<lparr>Size := sz\<rparr> in
      (set_cache t (c\<lparr>mc_trunBox := Some trun\<rparr>) f)\<lparr>
        f_moofBox := Some (m\<lparr>om_SubBoxes := om_SubBoxes m @ [TrafOf t box tfhd tfdt], om_Box := (om_Box m)\<lparr>Size := Size (om_Box m) + sz\<rparr>\<rparr>),
        f_curTrackOffset := f_curTrackOffset f + mc_accOffset c\<rparr>)"

definition generateVideoMoofMdat :: "Fmp4 \<Rightarrow> Fmp4 res" where
  "generateVideoMoofMdat f =
     (let c = f_vCache f in
      case mc_trunBox c of None \<Rightarrow> Inl nil_dereference
      | Some t \<Rightarrow>
        if SampleCount t = 0 then Inl divide_panic
        else (case f_moofBox f of None \<Rightarrow> Inl nil_dereference
        | Some m \<Rightarrow>
          let duration = sint (mc_lastTs c - mc_firstTs c) sdiv uint (SampleCount t) in
          Inr (append_traf Video (fragment_tfhd c (word_of_int duration) 0x01010000)
            (t\<lparr>trun_FullBox := grown ((trun_FullBox t)\<lparr>flags24Bit := 0x205\<rparr>) 8, FirstSampleFlags := 0x02000000,
               DataOffset := 8 + ucast (f_curTrackOffset f)\<rparr>) m f)))"

definition generateAudioMoofMdat :: "Fmp4 \<Rightarrow> Fmp4 res" where
  "generateAudioMoofMdat f =
     (let c = f_aCache f in
      case mc_trunBox c of None \<Rightarrow> Inl nil_dereference
      | Some t \<Rightarrow>
        (case f_moofBox f of None \<Rightarrow> Inl nil_dereference
        | Some m \<Rightarrow>
          Inr (append_traf Audio (fragment_tfhd c 1024 0x02000000)
            (t\<lparr>trun_FullBox := grown ((trun_FullBox t)\<lparr>flags24Bit := 0x201\<rparr>) 4,
               DataOffset := 8 + ucast (f_curTrackOffset f)\<rparr>) m f)))"

definition genPair :: "(nat \<Rightarrow> nat \<Rightarrow> nat) \<Rightarrow> track \<Rightarrow> Fmp4 \<Rightarrow> Fmp4 res" where
  "genPair grow t f =
     bindE (case t of Video \<Rightarrow> generateVideoMoofMdat f | Audio \<Rightarrow> generateAudioMoofMdat f)
       (\<lambda>f. Inr (mdat_write grow (mc_buf (cache_of t f)) f))"

text \<open>The later additions to the data offsets reach the runs in the fragment, which are the same boxes.\<close>

definition moof_child_IBox :: "Fmp4 \<Rightarrow> moof_child \<Rightarrow> IBox" where
  "moof_child_IBox f c = (case c of Child b \<Rightarrow> b
     | TrafOf t box tfhd tfdt \<Rightarrow> SimpleBoxContainer box ([TfhdB tfhd, TfdtB tfdt] @ (case mc_trunBox (cache_of t f) of Some r \<Rightarrow> [TrunB r] | None \<Rightarrow> [])))"

definition moof_IBox :: "Fmp4 \<Rightarrow> OpenMoof \<Rightarrow> IBox" where
  "moof_IBox f m = SimpleBoxContainer (om_Box m) (map (moof_child_IBox f) (om_SubBoxes m))"

definition bump_offset :: "track \<Rightarrow> u64 \<Rightarrow> Fmp4 \<Rightarrow> Fmp4 res" where
  "bump_offset t n f =
     (if 0 < f_trackId t f
      then (case mc_trunBox (cache_of t f) of None \<Rightarrow> Inl nil_dereference
        | Some r \<Rightarrow> Inr (set_cache t ((cache_of t f)\<lparr>mc_trunBox := Some (r\<lparr>DataOffset := DataOffset r + ucast n\<rparr>)\<rparr>) f))
      else Inr f)"

definition generateOneFrag :: "(nat \<Rightarrow> nat \<Rightarrow> nat) \<Rightarrow> Fmp4 \<Rightarrow> Fmp4 res" where
  "generateOneFrag grow f =
     (let (p, q) = (if f_audioTrackId f \<le> f_videoTrackId f then (Audio, Video) else (Video, Audio)) in
      bindE (if 0 < f_trackId p f
             then bindE (genPair grow p f) (\<lambda>f. if 0 < f_trackId q f then genPair grow q f else Inr f)
             else Inr f) (\<lambda>f.
      case f_moofBox f of None \<Rightarrow> Inl nil_dereference
      | Some m \<Rightarrow>
        let len = snd (f_mdatBuf f);
            mdat = \<lparr>ms_Box = (NewTypeBox BoxTypeMDAT)\<lparr>Size := 8 + of_nat len\<rparr>, ms_array = fst (f_mdatBuf f), ms_len = len\<rparr> in
        bindE (bump_offset Audio (Size (om_Box m)) f) (\<lambda>f.
        bindE (bump_offset Video (Size (om_Box m)) f) (\<lambda>f.
        Inr (f\<lparr>f_MoofMdat := f_MoofMdat f @ [(moof_IBox f m, mdat)],
               f_fmp4BaseDataOffset := f_fmp4BaseDataOffset f + (Size (om_Box m) + Size (ms_Box mdat))\<rparr>)))))"

definition set_base :: "track \<Rightarrow> Fmp4 \<Rightarrow> Fmp4" where
  "set_base t f =
     (if mc_baseDataOffset (cache_of t f) < 1
      then set_cache t ((cache_of t f)\<lparr>mc_baseDataOffset := f_fmp4BaseDataOffset f\<rparr>) f else f)"

definition start_header :: "Fmp4 \<Rightarrow> go_error option \<times> Fmp4" where
  "start_header f =
     (if f_headerBox f = []
      then (case generateHeaderBox f of (Some e, f) \<Rightarrow> (Some e, f) | (None, f) \<Rightarrow> (None, set_base Audio (set_base Video f)))
      else (None, f))"

text \<open>
  The fragment that a key frame closes.  Its only error would be one of the writes, which have none: a
  panic is all that \<open>generateOneFrag\<close> can end with.
\<close>

definition close_fragment :: "(nat \<Rightarrow> nat \<Rightarrow> nat) \<Rightarrow> Fmp4 \<Rightarrow> Fmp4 res" where
  "close_fragment grow f =
     bindE (generateOneFrag grow f) (\<lambda>f.
     let c = f_vCache f; f = f\<lparr>f_keyFrameCount := 0\<rparr> in
     Inr (if sint (f_segDuration f) < sint (mc_lastTs c - mc_firstTs c)
          then f\<lparr>f_curTrackOffset := 0, f_moofMdatSeqNum := 1\<rparr> else f))"

definition AddVideoFrameWithLen :: "(nat \<Rightarrow> nat \<Rightarrow> nat) \<Rightarrow> bytes \<Rightarrow> u64 \<Rightarrow> bool \<Rightarrow> Fmp4 \<Rightarrow> go_error option \<times> Fmp4" where
  "AddVideoFrameWithLen grow frame ts isKeyFrame f =
     (let add = (\<lambda>f. (None, f\<lparr>f_vCache := addFrame frame ts 0 (f_vCache f)\<rparr>));
          key = (\<lambda>f. f\<lparr>f_keyFrameCount := f_keyFrameCount f + 1\<rparr>) in
      if f_videoTrackId f < 1 then (Some (Errorf ''video track not exists''), f)
      else if \<not> isKeyFrame then add f
      else if mc_accOffset (f_vCache f) = 0 then add (key (resetFrag True ts f))
      else (case start_header f of
        (Some e, f) \<Rightarrow> (Some e, f)
      | (None, f) \<Rightarrow> (case close_fragment grow f of Inl e \<Rightarrow> (Some e, f) | Inr f \<Rightarrow> add (key (resetFrag True ts f)))))"

text \<open>The file as it is written out.\<close>

definition fragment_bytes :: "Fmp4 \<Rightarrow> IBox \<times> MdatSlice \<Rightarrow> bytes res" where
  "fragment_bytes f mm =
     bindE (IBox_Serialize (fst mm)) (\<lambda>w. Inr (w @ MdatBox_Serialize \<lparr>mdat_Box = ms_Box (snd mm), mdat_Data = mdat_data f (snd mm)\<rparr>))"

fun fragments_bytes :: "Fmp4 \<Rightarrow> (IBox \<times> MdatSlice) list \<Rightarrow> bytes res" where
  "fragments_bytes f [] = Inr []"
| "fragments_bytes f (mm # ms) = bindE (fragment_bytes f mm) (\<lambda>w. bindE (fragments_bytes f ms) (\<lambda>v. Inr (w @ v)))"

definition fmp4_serialize :: "Fmp4 \<Rightarrow> bytes res" where
  "fmp4_serialize f = bindE (fragments_bytes f (f_MoofMdat f)) (\<lambda>w. Inr (f_headerBox f @ w))"

section \<open>Runs\<close>

datatype fmp4_op =
    MajorBrandOp u32
  | MinorBrandOp u32
  | CompatibleBrandOp u32
  | VideoTrack bytes
  | AudioTrack bytes
  | AudioFrame bytes u64
  | VideoFrame bytes u64 bool

definition fmp4_step :: "(bytes \<Rightarrow> (u16 \<times> u16) res) \<Rightarrow> (nat \<Rightarrow> nat \<Rightarrow> nat) \<Rightarrow> fmp4_op \<Rightarrow> Fmp4 \<Rightarrow> go_error option \<times> Fmp4" where
  "fmp4_step sps_size grow x f =
     (case x of
        MajorBrandOp b \<Rightarrow> (None, SetMajorBrand b f)
      | MinorBrandOp b \<Rightarrow> (None, SetMinorBrand b f)
      | CompatibleBrandOp b \<Rightarrow> (None, AppendCompatibleBrand b f)
      | VideoTrack hdr \<Rightarrow> AddVideoH264Track sps_size hdr f
      | AudioTrack hdr \<Rightarrow> AddAudioTrack hdr f
      | AudioFrame frame ts \<Rightarrow> AddAudioFrameWithoutLen frame ts f
      | VideoFrame frame ts key \<Rightarrow> AddVideoFrameWithLen grow frame ts key f)"

text \<open>A caller may go on after an error, and a panic ends the run.\<close>

fun fmp4_run :: "(bytes \<Rightarrow> (u16 \<times> u16) res) \<Rightarrow> (nat \<Rightarrow> nat \<Rightarrow> nat) \<Rightarrow> fmp4_op list \<Rightarrow> Fmp4 \<Rightarrow> Fmp4 res" where
  "fmp4_run sps_size grow [] f = Inr f"
| "fmp4_run sps_size grow (x # xs) f =
     (case fmp4_step sps_size grow x f of
        (Some (Panic msg), _) \<Rightarrow> Inl (Panic msg)
      | (_, f) \<Rightarrow> fmp4_run sps_size grow xs f)"

section \<open>Caches and runs of samples\<close>

named_theorems fmp4_simps \<open>fields of the muxer after its operations\<close>

lemma track_cases [fmp4_simps]:
  "f_trackId Audio f = f_audioTrackId f" "f_trackId Video f = f_videoTrackId f"
  "cache_of Audio f = f_aCache f" "cache_of Video f = f_vCache f"
  "set_cache Audio c f = f\<lparr>f_aCache := c\<rparr>" "set_cache Video c f = f\<lparr>f_vCache := c\<rparr>"
  by (simp_all add: f_trackId_def cache_of_def set_cache_def)

definition sample_of :: "u32 \<Rightarrow> TrunBoxSample" where
  "sample_of n = \<lparr>SampleDuration = 0, SampleSize = n, SampleFlags = 0, SampleCompositionTimeOffset = 0, SSampleCompositionTimeOffset = 0\<rparr>"

definition track_flags :: "track \<Rightarrow> u32" where
  "track_flags t = (case t of Video \<Rightarrow> 0x205 | Audio \<Rightarrow> 0x201)"

definition track_fields :: "track \<Rightarrow> nat" where
  "track_fields t = (case t of Video \<Rightarrow> 8 | Audio \<Rightarrow> 4)"

text \<open>The run of a cache while it takes samples, and when it is put into a fragment.\<close>

definition run_box :: "u64 \<Rightarrow> u32 \<Rightarrow> u32 \<Rightarrow> u32 \<Rightarrow> u32 list \<Rightarrow> TrunBox" where
  "run_box extra flags offset first ss =
     \<lparr>trun_FullBox = \<lparr>fb_Box = \<lparr>Size = 16 + 4 * of_nat (length ss) + extra, BoxType = BoxTypeTRUN\<rparr>, version = 0, flags24Bit = flags\<rparr>,
      SampleCount = of_nat (length ss), DataOffset = offset, FirstSampleFlags = first, BoxSamples = map sample_of ss\<rparr>"

definition open_run :: "u32 list \<Rightarrow> TrunBox" where
  "open_run ss = run_box 0 0 0 0 ss"

definition sealed_run :: "track \<Rightarrow> u32 \<Rightarrow> u32 list \<Rightarrow> TrunBox" where
  "sealed_run t offset ss =
     run_box (of_nat (track_fields t)) (track_flags t) offset (case t of Video \<Rightarrow> 0x02000000 | Audio \<Rightarrow> 0) ss"

lemma new_trun_open: "new_trun = open_run []"
  by (simp add: new_trun_def open_run_def run_box_def grown_def NewTypeFullBox_def NewTypeBox_def)

lemma add_sample_open: "add_sample n (open_run ss) = open_run (ss @ [n])"
  by (simp add: add_sample_def open_run_def run_box_def grown_def sample_of_def algebra_simps)

text \<open>\<open>n\<close> bounds the samples of a fragment.\<close>

definition cache_ok :: "nat \<Rightarrow> MdatCache \<Rightarrow> bool" where
  "cache_ok n c \<longleftrightarrow> mc_accOffset c = of_nat (length (mc_buf c)) \<and>
     (case mc_trunBox c of None \<Rightarrow> mc_buf c = [] | Some t \<Rightarrow> \<exists>ss. t = open_run ss \<and> ss \<noteq> [] \<and> length ss \<le> n)"

lemma cache_ok_mono: "cache_ok n c \<Longrightarrow> n \<le> k \<Longrightarrow> cache_ok k c"
  by (fastforce simp: cache_ok_def split: option.splits)

lemma cache_ok_track [simp]: "cache_ok n (c\<lparr>mc_trackID := i\<rparr>) = cache_ok n c" "cache_ok n (c\<lparr>mc_baseDataOffset := b\<rparr>) = cache_ok n c"
  by (simp_all add: cache_ok_def split: option.split)

lemma cache_ok_new: "cache_ok n new_cache"
  by (simp add: cache_ok_def new_cache_def)

lemma cache_ok_reset: "cache_ok n (cache_reset b d c)"
  by (simp add: cache_ok_def cache_reset_def)

lemma cache_ok_addFrame:
  assumes "cache_ok n c"
  shows "cache_ok (Suc n) (addFrame frame ts k c)"
proof (cases "mc_trunBox c")
  case None
  then show ?thesis using assms by (auto simp: cache_ok_def addFrame_def new_trun_open add_sample_open)
next
  case (Some t)
  then obtain ss where "t = open_run ss" "length ss \<le> n" using assms by (auto simp: cache_ok_def)
  with Some show ?thesis using assms by (auto simp: cache_ok_def addFrame_def add_sample_open)
qed

lemma addFrame_base [simp]: "mc_baseDataOffset (addFrame frame ts k c) = mc_baseDataOffset c"
  by (simp add: addFrame_def Let_def split: option.splits)

section \<open>The media buffer\<close>

definition buffer_ok :: "bytes list \<times> nat \<times> nat \<Rightarrow> bool" where
  "buffer_ok = (\<lambda>(arrays, i, l). i < length arrays \<and> l \<le> length (arrays ! i))"

text \<open>What a write does to the buffer, and to the slices of its arrays that are held elsewhere.\<close>

definition written :: "bytes \<Rightarrow> bytes list \<times> nat \<times> nat \<Rightarrow> bytes list \<times> nat \<times> nat \<Rightarrow> bool" where
  "written w = (\<lambda>(xs, i, l) (ys, j, k). buffer_ok (ys, j, k) \<and> k = l + length w \<and> take k (ys ! j) = take l (xs ! i) @ w \<and>
     length xs \<le> length ys \<and> (\<forall>h < length xs. length (ys ! h) = length (xs ! h)) \<and>
     (\<forall>h < length xs. h \<noteq> i \<longrightarrow> ys ! h = xs ! h) \<and>
     (if k \<le> length (xs ! i) then j = i \<and> ys ! i = take l (xs ! i) @ w @ drop k (xs ! i) else length xs \<le> j))"

lemma buffer_write_written:
  assumes "buffer_ok (xs, i, l)"
  shows "written w (xs, i, l) (buffer_write grow w (xs, i, l))"
  using assms by (auto simp: written_def buffer_write_def buffer_ok_def Let_def nth_append nth_list_update)

lemma written_nothing: "buffer_ok (xs, i, l) \<Longrightarrow> written [] (xs, i, l) (xs, i, l)"
  by (simp add: written_def buffer_ok_def)

lemma written_append:
  assumes "written v (xs, i, l) (ys, j, k)" "written w (ys, j, k) (zs, h, m)"
    and ok: "buffer_ok (xs, i, l)"
  shows "written (v @ w) (xs, i, l) (zs, h, m)"
proof -
  note 1 = assms(1)[unfolded written_def buffer_ok_def split] and 2 = assms(2)[unfolded written_def buffer_ok_def split]
  have i: "i < length xs" "l \<le> length (xs ! i)" using ok by (simp_all add: buffer_ok_def)
  have k: "k = l + length v" and m: "m = l + length v + length w" using 1 2 by auto
  have j: "j = i \<or> length xs \<le> j" using 1 by (auto split: if_splits)
  have old: "\<forall>g < length xs. g \<noteq> i \<longrightarrow> zs ! g = xs ! g"
  proof (intro allI impI)
    fix g assume g: "g < length xs" "g \<noteq> i"
    then have "g \<noteq> j" "g < length ys" using j 1 by auto
    then show "zs ! g = xs ! g" using 1 2 g by metis
  qed
  have fit: "h = i \<and> zs ! i = take l (xs ! i) @ (v @ w) @ drop m (xs ! i)" if "m \<le> length (xs ! i)"
  proof -
    have "k \<le> length (xs ! i)" using that m k by simp
    then have y: "j = i" "ys ! i = take l (xs ! i) @ v @ drop k (xs ! i)" using 1 by simp_all
    have "m \<le> length (ys ! j)" using that 1 i(1) y(1) by metis
    then have z: "h = i" "zs ! i = take k (ys ! i) @ w @ drop m (ys ! i)" using 2 y(1) by (metis (no_types))+
    have "take k (ys ! i) = take l (xs ! i) @ v" "drop m (ys ! i) = drop m (xs ! i)"
      using i(2) k m unfolding y(2) by (simp_all add: min_def ac_simps)
    then show ?thesis using z by simp
  qed
  have grow: "length xs \<le> h" if "\<not> m \<le> length (xs ! i)"
  proof (cases "k \<le> length (xs ! i)")
    case True
    then have "j = i" using 1 by simp
    moreover have "length (ys ! i) = length (xs ! i)" using 1 i(1) by metis
    ultimately have "length ys \<le> h" using 2 that by simp
    then show ?thesis using 1 by simp
  next
    case False
    then have "length xs \<le> j" using 1 by simp
    moreover have "h = j \<or> length ys \<le> h" using 2 by (auto split: if_splits)
    ultimately show ?thesis using 1 by auto
  qed
  have len: "\<forall>g < length xs. length (zs ! g) = length (xs ! g)" using 1 2 by (metis order_less_le_trans)
  have "take m (zs ! h) = take k (ys ! j) @ w" "take k (ys ! j) = take l (xs ! i) @ v" using 1 2 by blast+
  then have t: "take m (zs ! h) = take l (xs ! i) @ v @ w" by simp
  have b: "h < length zs" "m \<le> length (zs ! h)" "length xs \<le> length zs" using 1 2 by (blast, blast, linarith)
  show ?thesis
    unfolding written_def buffer_ok_def split using b m t len old fit grow by simp
qed
section \<open>What a fragment is made of\<close>

definition track_tfhd :: "track \<Rightarrow> MdatCache \<Rightarrow> TfhdBox" where
  "track_tfhd t c =
     (case t of Audio \<Rightarrow> fragment_tfhd c 1024 0x02000000
      | Video \<Rightarrow> fragment_tfhd c (case mc_trunBox c of None \<Rightarrow> 0
          | Some r \<Rightarrow> word_of_int (sint (mc_lastTs c - mc_firstTs c) sdiv uint (SampleCount r))) 0x01010000)"

definition traf_size :: "track \<Rightarrow> u32 list \<Rightarrow> u64" where
  "traf_size t ss = 80 + 4 * of_nat (length ss) + of_nat (track_fields t)"

definition sealed_traf :: "track \<Rightarrow> MdatCache \<Rightarrow> u32 \<Rightarrow> u32 list \<Rightarrow> IBox" where
  "sealed_traf t c offset ss =
     SimpleBoxContainer \<lparr>Size = traf_size t ss, BoxType = BoxTypeTRAF\<rparr>
       [TfhdB (track_tfhd t c), TfdtB (fragment_tfdt c), TrunB (sealed_run t offset ss)]"

lemma open_run_count:
  assumes "length ss < 2 ^ 26"
  shows "unat (SampleCount (open_run ss)) = length ss"
  using assms by (simp add: open_run_def run_box_def unat_of_nat take_bit_nat_eq_self)

lemma genPair_open:
  assumes "mc_trunBox (cache_of t f) = Some (open_run ss)" "ss \<noteq> []" "length ss < 2 ^ 26" "f_moofBox f = Some m"
  shows "genPair grow t f = Inr (mdat_write grow (mc_buf (cache_of t f))
    (append_traf t (track_tfhd t (cache_of t f)) (sealed_run t (8 + ucast (f_curTrackOffset f)) ss) m f))"
proof -
  have "SampleCount (open_run ss) \<noteq> 0"
    using open_run_count[OF assms(3)] assms(2) by (metis length_0_conv unat_0)
  then show ?thesis using assms
    by (cases t) (simp_all add: genPair_def generateVideoMoofMdat_def generateAudioMoofMdat_def fmp4_simps track_tfhd_def
      open_run_def sealed_run_def run_box_def grown_def track_flags_def track_fields_def Let_def append_traf_def)
qed

lemma append_traf_fields [fmp4_simps]:
  "f_arrays (append_traf t h r m f) = f_arrays f" "f_mdatBuf (append_traf t h r m f) = f_mdatBuf f"
  "f_curTrackOffset (append_traf t h r m f) = f_curTrackOffset f + mc_accOffset (cache_of t f)"
  "cache_of t (append_traf t h r m f) = (cache_of t f)\<lparr>mc_trunBox := Some r\<rparr>"
  "t \<noteq> t' \<Longrightarrow> cache_of t' (append_traf t h r m f) = cache_of t' f"
  "f_moofBox (append_traf t h r m f) = Some (m\<lparr>om_SubBoxes := om_SubBoxes m @
     [TrafOf t \<lparr>Size = 8 + fb_Size (tfhd_FullBox h) + 20 + fb_Size (trun_FullBox r), BoxType = BoxTypeTRAF\<rparr> h (fragment_tfdt (cache_of t f))],
     om_Box := (om_Box m)\<lparr>Size := Size (om_Box m) + (8 + fb_Size (tfhd_FullBox h) + 20 + fb_Size (trun_FullBox r))\<rparr>\<rparr>)"
  "f_MoofMdat (append_traf t h r m f) = f_MoofMdat f" "f_trackId t' (append_traf t h r m f) = f_trackId t' f"
  "f_fmp4BaseDataOffset (append_traf t h r m f) = f_fmp4BaseDataOffset f" "f_headerBox (append_traf t h r m f) = f_headerBox f"
  by (cases t; cases t'; simp add: append_traf_def set_cache_def cache_of_def f_trackId_def Let_def NewTypeBox_def fragment_tfdt_def
    grown_def NewTypeFullBox_def)+

lemma mdat_write_fields [fmp4_simps]:
  "(f_arrays (mdat_write grow w f), f_mdatBuf (mdat_write grow w f)) = buffer_write grow w (f_arrays f, f_mdatBuf f)"
  "f_curTrackOffset (mdat_write grow w f) = f_curTrackOffset f" "cache_of t (mdat_write grow w f) = cache_of t f"
  "f_moofBox (mdat_write grow w f) = f_moofBox f" "f_MoofMdat (mdat_write grow w f) = f_MoofMdat f"
  "f_trackId t (mdat_write grow w f) = f_trackId t f" "f_fmp4BaseDataOffset (mdat_write grow w f) = f_fmp4BaseDataOffset f"
  "f_headerBox (mdat_write grow w f) = f_headerBox f"
  by (cases t; simp add: mdat_write_def cache_of_def f_trackId_def split: prod.split)+

definition kept :: "Fmp4 \<Rightarrow> bytes \<times> moov_child list \<times> IBox list \<times> u32 \<times> u32 \<times> u32" where
  "kept f = (f_headerBox f, f_MoovSubBoxes f, f_mvexSubBoxes f, f_audioTrackId f, f_videoTrackId f, f_moofMdatSeqNum f)"

lemma kept_steps [fmp4_simps]:
  "kept (append_traf t h r m f) = kept f" "kept (mdat_write grow w f) = kept f" "kept (set_cache t c f) = kept f"
  by (cases t; simp add: kept_def append_traf_def set_cache_def mdat_write_def Let_def split: prod.split)+

lemma bump_offset_fields [fmp4_simps]:
  assumes "mc_trunBox (cache_of t f) = Some r"
  shows "0 < f_trackId t f \<Longrightarrow>
    bump_offset t n f = Inr (set_cache t ((cache_of t f)\<lparr>mc_trunBox := Some (r\<lparr>DataOffset := DataOffset r + ucast n\<rparr>)\<rparr>) f)"
  using assms by (simp add: bump_offset_def)

lemma set_cache_fields [fmp4_simps]:
  "f_arrays (set_cache t c f) = f_arrays f" "f_mdatBuf (set_cache t c f) = f_mdatBuf f" "f_curTrackOffset (set_cache t c f) = f_curTrackOffset f"
  "cache_of t (set_cache t c f) = c" "t \<noteq> t' \<Longrightarrow> cache_of t' (set_cache t c f) = cache_of t' f"
  "f_moofBox (set_cache t c f) = f_moofBox f" "f_MoofMdat (set_cache t c f) = f_MoofMdat f" "f_trackId t' (set_cache t c f) = f_trackId t' f"
  "f_fmp4BaseDataOffset (set_cache t c f) = f_fmp4BaseDataOffset f" "f_headerBox (set_cache t c f) = f_headerBox f"
  by (cases t; cases t'; simp add: set_cache_def cache_of_def f_trackId_def)+

definition fmp4_mfhd :: "u32 \<Rightarrow> IBox" where
  "fmp4_mfhd sequ = MfhdB \<lparr>mfhd_FullBox = \<lparr>fb_Box = \<lparr>Size = 16, BoxType = BoxTypeMFHD\<rparr>, version = 0, flags24Bit = 0\<rparr>, SequenceNumber = sequ\<rparr>"

lemma new_moof_fields [fmp4_simps]:
  "om_Box (new_moof sequ) = \<lparr>Size = 24, BoxType = BoxTypeMOOF\<rparr>" "om_SubBoxes (new_moof sequ) = [Child (fmp4_mfhd sequ)]"
  by (simp_all add: new_moof_def fmp4_mfhd_def NewTypeBox_def NewTypeFullBox_def grown_def)

definition pair_order :: "Fmp4 \<Rightarrow> track \<times> track" where
  "pair_order f = (if f_audioTrackId f \<le> f_videoTrackId f then (Audio, Video) else (Video, Audio))"

definition mdat_slice :: "nat \<times> nat \<Rightarrow> MdatSlice" where
  "mdat_slice b = \<lparr>ms_Box = \<lparr>Size = 8 + of_nat (snd b), BoxType = BoxTypeMDAT\<rparr>, ms_array = fst b, ms_len = snd b\<rparr>"

text \<open>A fragment of two tracks.\<close>

definition both_size :: "track \<Rightarrow> u32 list \<Rightarrow> track \<Rightarrow> u32 list \<Rightarrow> u64" where
  "both_size p ps q qs = 24 + traf_size p ps + traf_size q qs"

definition both_moof :: "u32 \<Rightarrow> track \<Rightarrow> MdatCache \<Rightarrow> u32 list \<Rightarrow> track \<Rightarrow> MdatCache \<Rightarrow> u32 list \<Rightarrow> u64 \<Rightarrow> IBox" where
  "both_moof sequ p cp ps q cq qs cur =
     (let n = both_size p ps q qs in
      SimpleBoxContainer \<lparr>Size = n, BoxType = BoxTypeMOOF\<rparr>
        [fmp4_mfhd sequ, sealed_traf p cp (8 + ucast cur + ucast n) ps, sealed_traf q cq (8 + ucast (cur + mc_accOffset cp) + ucast n) qs])"

lemma track_tfhd_size: "fb_Size (tfhd_FullBox (track_tfhd t c)) = 36"
  by (simp add: track_tfhd_def fragment_tfhd_def grown_def NewTypeFullBox_def NewTypeBox_def split: track.split option.split)

lemma sealed_run_size: "fb_Size (trun_FullBox (sealed_run t k ss)) = 16 + 4 * of_nat (length ss) + of_nat (track_fields t)"
  by (simp add: sealed_run_def run_box_def)

lemma sealed_run_bump: "(sealed_run t k ss)\<lparr>DataOffset := j\<rparr> = sealed_run t j ss" "DataOffset (sealed_run t k ss) = k"
  by (simp_all add: sealed_run_def run_box_def)

lemma bump_both:
  assumes "\<And>t. 0 < f_trackId t f" "\<And>t. mc_trunBox (cache_of t f) = Some (r t)"
  shows "\<exists>f'. bindE (bump_offset Audio n f) (\<lambda>f. bindE (bump_offset Video n f) (\<lambda>f. g f)) = g f' \<and>
    (\<forall>t. mc_trunBox (cache_of t f') = Some ((r t)\<lparr>DataOffset := DataOffset (r t) + ucast n\<rparr>)) \<and> kept f' = kept f \<and>
    f_arrays f' = f_arrays f \<and> f_mdatBuf f' = f_mdatBuf f \<and> f_MoofMdat f' = f_MoofMdat f \<and> f_moofBox f' = f_moofBox f \<and>
    f_fmp4BaseDataOffset f' = f_fmp4BaseDataOffset f"
proof -
  define f1 where "f1 = set_cache Audio ((cache_of Audio f)\<lparr>mc_trunBox := Some ((r Audio)\<lparr>DataOffset := DataOffset (r Audio) + ucast n\<rparr>)\<rparr>) f"
  define f2 where "f2 = set_cache Video ((cache_of Video f1)\<lparr>mc_trunBox := Some ((r Video)\<lparr>DataOffset := DataOffset (r Video) + ucast n\<rparr>)\<rparr>) f1"
  have 1: "bump_offset Audio n f = Inr f1" using assms by (simp add: f1_def bump_offset_def)
  have 2: "bump_offset Video n f1 = Inr f2" using assms by (simp add: f2_def f1_def bump_offset_def set_cache_fields)
  have t: "mc_trunBox (cache_of t f2) = Some ((r t)\<lparr>DataOffset := DataOffset (r t) + ucast n\<rparr>)" for t
    by (cases t) (simp_all add: f2_def f1_def set_cache_fields)
  show ?thesis
    by (rule exI[of _ f2]) (simp add: 1 2 t, simp add: f2_def f1_def set_cache_fields kept_steps)
qed

lemma kept_fragment [fmp4_simps]:
  "kept (f\<lparr>f_MoofMdat := x, f_fmp4BaseDataOffset := y\<rparr>) = kept f"
  by (simp add: kept_def)

text \<open>The muxer after both tracks have put their runs and data into the fragment.\<close>

definition open_traf :: "track \<Rightarrow> MdatCache \<Rightarrow> u32 list \<Rightarrow> moof_child" where
  "open_traf t c ss = TrafOf t \<lparr>Size = traf_size t ss, BoxType = BoxTypeTRAF\<rparr> (track_tfhd t c) (fragment_tfdt c)"

definition paired :: "(nat \<Rightarrow> nat \<Rightarrow> nat) \<Rightarrow> track \<Rightarrow> u32 list \<Rightarrow> track \<Rightarrow> u32 list \<Rightarrow> u32 \<Rightarrow> Fmp4 \<Rightarrow> Fmp4 \<Rightarrow> bool" where
  "paired grow p ps q qs sequ f f2 \<longleftrightarrow>
     mc_trunBox (cache_of p f2) = Some (sealed_run p (8 + ucast (f_curTrackOffset f)) ps) \<and>
     mc_trunBox (cache_of q f2) = Some (sealed_run q (8 + ucast (f_curTrackOffset f + mc_accOffset (cache_of p f))) qs) \<and>
     f_moofBox f2 = Some \<lparr>om_Box = \<lparr>Size = both_size p ps q qs, BoxType = BoxTypeMOOF\<rparr>,
       om_SubBoxes = [Child (fmp4_mfhd sequ), open_traf p (cache_of p f) ps, open_traf q (cache_of q f) qs]\<rparr> \<and>
     (f_arrays f2, f_mdatBuf f2) = buffer_write grow (mc_buf (cache_of q f)) (buffer_write grow (mc_buf (cache_of p f)) (f_arrays f, f_mdatBuf f)) \<and>
     kept f2 = kept f \<and> (\<forall>t. f_trackId t f2 = f_trackId t f) \<and> f_MoofMdat f2 = f_MoofMdat f \<and> f_fmp4BaseDataOffset f2 = f_fmp4BaseDataOffset f"

lemma genPair_both:
  assumes pq: "p \<noteq> q"
    and p: "mc_trunBox (cache_of p f) = Some (open_run ps)" "ps \<noteq> []" "length ps < 2 ^ 26"
    and q: "mc_trunBox (cache_of q f) = Some (open_run qs)" "qs \<noteq> []" "length qs < 2 ^ 26"
    and m: "f_moofBox f = Some (new_moof sequ)"
  obtains f1 f2 where "genPair grow p f = Inr f1" "genPair grow q f1 = Inr f2" "\<And>t. f_trackId t f1 = f_trackId t f"
    "paired grow p ps q qs sequ f f2"
proof -
  define f1 where "f1 = mdat_write grow (mc_buf (cache_of p f))
    (append_traf p (track_tfhd p (cache_of p f)) (sealed_run p (8 + ucast (f_curTrackOffset f)) ps) (new_moof sequ) f)"
  have 1: "genPair grow p f = Inr f1" unfolding f1_def by (rule genPair_open[OF p m])
  have q1: "mc_trunBox (cache_of q f1) = Some (open_run qs)" "cache_of q f1 = cache_of q f" using q(1) pq by (simp_all add: f1_def fmp4_simps)
  define m1 where "m1 = \<lparr>om_Box = \<lparr>Size = 24 + traf_size p ps, BoxType = BoxTypeMOOF\<rparr>,
    om_SubBoxes = [Child (fmp4_mfhd sequ), open_traf p (cache_of p f) ps]\<rparr>"
  have m1: "f_moofBox f1 = Some m1"
    by (simp add: f1_def m1_def fmp4_simps open_traf_def track_tfhd_size sealed_run_size traf_size_def)
  define f2 where "f2 = mdat_write grow (mc_buf (cache_of q f1))
    (append_traf q (track_tfhd q (cache_of q f1)) (sealed_run q (8 + ucast (f_curTrackOffset f1)) qs) m1 f1)"
  have 2: "genPair grow q f1 = Inr f2" unfolding f2_def by (rule genPair_open[OF q1(1) q(2,3) m1])
  have m2: "f_moofBox f2 = Some \<lparr>om_Box = \<lparr>Size = both_size p ps q qs, BoxType = BoxTypeMOOF\<rparr>,
       om_SubBoxes = [Child (fmp4_mfhd sequ), open_traf p (cache_of p f) ps, open_traf q (cache_of q f) qs]\<rparr>"
    by (simp add: f2_def m1_def q1(2) fmp4_simps open_traf_def track_tfhd_size sealed_run_size traf_size_def both_size_def)
  have "f_trackId t f1 = f_trackId t f" for t by (simp add: f1_def fmp4_simps)
  then show thesis
    by (rule that[OF 1 2]) (use pq pq[symmetric] q1(2) m2 in \<open>simp add: paired_def, simp add: f2_def f1_def fmp4_simps\<close>)
qed

lemma generateOneFrag_both:
  assumes o: "pair_order f = (p, q)" and ids: "f_audioTrackId f \<noteq> 0" "f_videoTrackId f \<noteq> 0"
    and p: "mc_trunBox (cache_of p f) = Some (open_run ps)" "ps \<noteq> []" "length ps < 2 ^ 26"
    and q: "mc_trunBox (cache_of q f) = Some (open_run qs)" "qs \<noteq> []" "length qs < 2 ^ 26"
    and m: "f_moofBox f = Some (new_moof sequ)"
    and b: "buffer_write grow (mc_buf (cache_of q f)) (buffer_write grow (mc_buf (cache_of p f)) (f_arrays f, f_mdatBuf f)) = (ys, b)"
  shows "\<exists>f'. generateOneFrag grow f = Inr f' \<and> kept f' = kept f \<and> f_arrays f' = ys \<and> f_mdatBuf f' = b \<and>
    f_MoofMdat f' = f_MoofMdat f @ [(both_moof sequ p (cache_of p f) ps q (cache_of q f) qs (f_curTrackOffset f), mdat_slice b)] \<and>
    f_fmp4BaseDataOffset f' = f_fmp4BaseDataOffset f + (both_size p ps q qs + Size (ms_Box (mdat_slice b)))"
proof -
  have pq: "p \<noteq> q" using o by (auto simp: pair_order_def split: if_splits)
  have ids': "0 < f_trackId t f" for t using ids by (cases t) (simp_all add: fmp4_simps word_neq_0_conv)
  from genPair_both[OF pq p q m, where grow = grow] obtain f1 f2 where
    1: "genPair grow p f = Inr f1" and 2: "genPair grow q f1 = Inr f2" and i: "\<And>t. f_trackId t f1 = f_trackId t f"
    and f2: "paired grow p ps q qs sequ f f2" by metis
  define n where "n = both_size p ps q qs"
  define m2 where "m2 = the (f_moofBox f2)"
  have m2: "f_moofBox f2 = Some m2" "om_Box m2 = \<lparr>Size = n, BoxType = BoxTypeMOOF\<rparr>"
    "om_SubBoxes m2 = [Child (fmp4_mfhd sequ), open_traf p (cache_of p f) ps, open_traf q (cache_of q f) qs]"
    using f2 by (simp_all add: paired_def m2_def n_def)
  have buf: "f_arrays f2 = ys" "f_mdatBuf f2 = b" using f2 b by (simp_all add: paired_def)
  define r where "r t = the (mc_trunBox (cache_of t f2))" for t
  have rs: "r p = sealed_run p (8 + ucast (f_curTrackOffset f)) ps"
    "r q = sealed_run q (8 + ucast (f_curTrackOffset f + mc_accOffset (cache_of p f))) qs"
    using f2 by (simp_all add: r_def paired_def)
  have r: "mc_trunBox (cache_of t f2) = Some (r t)" "0 < f_trackId t f2" for t
    using f2 pq ids'[of t] unfolding r_def paired_def by (cases t; cases p; cases q; simp)+
  define h :: "Fmp4 \<Rightarrow> Fmp4 res" where "h g = Inr (g\<lparr>f_MoofMdat := f_MoofMdat g @ [(moof_IBox g m2, mdat_slice b)],
      f_fmp4BaseDataOffset := f_fmp4BaseDataOffset g + (n + Size (ms_Box (mdat_slice b)))\<rparr>)" for g
  obtain f3 where f3: "bindE (bump_offset Audio n f2) (\<lambda>f. bindE (bump_offset Video n f) h) = h f3"
    "\<And>t. mc_trunBox (cache_of t f3) = Some ((r t)\<lparr>DataOffset := DataOffset (r t) + ucast n\<rparr>)" "kept f3 = kept f2"
    "f_arrays f3 = f_arrays f2" "f_mdatBuf f3 = f_mdatBuf f2" "f_MoofMdat f3 = f_MoofMdat f2" "f_moofBox f3 = f_moofBox f2"
    "f_fmp4BaseDataOffset f3 = f_fmp4BaseDataOffset f2"
    using bump_both[OF r(2,1), of n h] by blast
  have "generateOneFrag grow f = h f3"
    unfolding generateOneFrag_def pair_order_def[symmetric] o f3(1)[symmetric]
    by (simp add: ids' 1 i 2 m2(1,2) buf h_def[abs_def] mdat_slice_def NewTypeBox_def Let_def)
  moreover have "moof_IBox f3 m2 = both_moof sequ p (cache_of p f) ps q (cache_of q f) qs (f_curTrackOffset f)"
    by (simp add: moof_IBox_def m2 both_moof_def moof_child_IBox_def open_traf_def f3(2) rs sealed_run_bump sealed_traf_def n_def Let_def)
  ultimately show ?thesis
    using buf f3(3-) f2 by (simp add: h_def paired_def n_def kept_fragment)
qed

lemma generateOneFrag_video:
  assumes "f_audioTrackId f = 0" "f_videoTrackId f \<noteq> 0" "mc_trunBox (f_vCache f) = Some r" "f_moofBox f = Some (new_moof sequ)"
  shows "\<exists>f'. generateOneFrag grow f = Inr f' \<and> kept f' = kept f \<and> f_arrays f' = f_arrays f \<and> f_mdatBuf f' = f_mdatBuf f \<and> f_aCache f' = f_aCache f \<and>
    f_MoofMdat f' = f_MoofMdat f @ [(SimpleBoxContainer \<lparr>Size = 24, BoxType = BoxTypeMOOF\<rparr> [fmp4_mfhd sequ], mdat_slice (f_mdatBuf f))] \<and>
    f_fmp4BaseDataOffset f' = f_fmp4BaseDataOffset f + (24 + Size (ms_Box (mdat_slice (f_mdatBuf f))))"
  using assms
  by (simp add: generateOneFrag_def bump_offset_def track_cases word_neq_0_conv new_moof_fields moof_IBox_def moof_child_IBox_def
      mdat_slice_def NewTypeBox_def kept_def Let_def)

lemma genPair_panics:
  "mc_trunBox (cache_of t f) = None \<Longrightarrow> genPair grow t f = Inl nil_dereference"
  by (cases t) (simp_all add: genPair_def generateVideoMoofMdat_def generateAudioMoofMdat_def fmp4_simps)

lemma genPair_no_moof:
  assumes "f_moofBox f = None"
  shows "\<exists>msg. genPair grow t f = Inl (Panic msg)"
  using assms by (cases t) (auto simp: genPair_def generateVideoMoofMdat_def generateAudioMoofMdat_def nil_dereference_def divide_panic_def
    Let_def split: option.split)

lemma generateOneFrag_no_moof:
  assumes "f_moofBox f = None"
  shows "\<exists>msg. generateOneFrag grow f = Inl (Panic msg)"
proof -
  obtain p q where o: "pair_order f = (p, q)" by fastforce
  obtain msg where "genPair grow p f = Inl (Panic msg)" using genPair_no_moof[OF assms] by blast
  then show ?thesis using assms
    by (simp add: generateOneFrag_def pair_order_def[symmetric] o nil_dereference_def)
qed

lemma generateOneFrag_no_audio:
  assumes a: "f_audioTrackId f \<noteq> 0" "mc_trunBox (f_aCache f) = None"
    and v: "f_videoTrackId f \<noteq> 0" "mc_trunBox (f_vCache f) = Some (open_run ss)" "ss \<noteq> []" "length ss < 2 ^ 26"
    and m: "f_moofBox f = Some m"
  shows "generateOneFrag grow f = Inl nil_dereference"
proof -
  have av: "genPair grow Audio f = Inl nil_dereference" using a by (simp add: genPair_panics fmp4_simps)
  define g where "g = mdat_write grow (mc_buf (cache_of Video f))
    (append_traf Video (track_tfhd Video (cache_of Video f)) (sealed_run Video (8 + ucast (f_curTrackOffset f)) ss) m f)"
  have "genPair grow Video f = Inr g"
    unfolding g_def by (rule genPair_open) (use v m in \<open>simp_all add: track_cases\<close>)
  moreover have "f_trackId Audio g = f_trackId Audio f" "cache_of Audio g = cache_of Audio f"
    by (simp_all add: g_def mdat_write_fields append_traf_fields)
  moreover from this have "genPair grow Audio g = Inl nil_dereference" using a by (simp add: genPair_panics track_cases)
  ultimately show ?thesis using a v av
    by (auto simp: generateOneFrag_def track_cases word_neq_0_conv)
qed

lemma has_flag_numeral: "has_flag \<lparr>fb_Box = b, version = v, flags24Bit = n\<rparr> k \<longleftrightarrow> n AND k = k"
  by (simp add: has_flag_def)

lemma length_small: "Size b \<le> 0xffffffff \<Longrightarrow> length (Box_Serialize b) = 8"
  by (simp add: Box_Serialize_def not_le)

lemma length_FullBox_small: "fb_Size f \<le> 0xffffffff \<Longrightarrow> length (FullBox_Serialize f) = 12"
  by (simp add: FullBox_Serialize_def length_small)

lemma unat_small_64: "n < 2 ^ 64 \<Longrightarrow> unat (of_nat n :: u64) = n"
  by (simp add: unat_of_nat take_bit_nat_eq_self)

lemma track_fields_le: "track_fields t \<le> 8"
  by (simp add: track_fields_def split: track.split)

lemma unat_run_size:
  assumes "length ss < 2 ^ 26"
  shows "unat (16 + 4 * of_nat (length ss) + of_nat (track_fields t) :: u64) = 16 + 4 * length ss + track_fields t"
proof -
  have "(16 + 4 * of_nat (length ss) + of_nat (track_fields t) :: u64) = of_nat (16 + 4 * length ss + track_fields t)" by simp
  also have "unat \<dots> = 16 + 4 * length ss + track_fields t"
    by (rule unat_small_64) (use assms track_fields_le[of t] in simp)
  finally show ?thesis .
qed

lemma unat_traf_size:
  assumes "length ss < 2 ^ 26"
  shows "unat (traf_size t ss) = 80 + 4 * length ss + track_fields t"
proof -
  have "traf_size t ss = of_nat (80 + 4 * length ss + track_fields t)" by (simp add: traf_size_def)
  also have "unat \<dots> = 80 + 4 * length ss + track_fields t"
    by (rule unat_small_64) (use assms track_fields_le[of t] in simp)
  finally show ?thesis .
qed

lemma unat_both_size:
  assumes "length ps < 2 ^ 26" "length qs < 2 ^ 26"
  shows "unat (both_size p ps q qs) = 184 + 4 * length ps + 4 * length qs + track_fields p + track_fields q"
proof -
  have "both_size p ps q qs = of_nat (184 + 4 * length ps + 4 * length qs + track_fields p + track_fields q)"
    by (simp add: both_size_def traf_size_def)
  also have "unat \<dots> = 184 + 4 * length ps + 4 * length qs + track_fields p + track_fields q"
    by (rule unat_small_64) (use assms track_fields_le[of p] track_fields_le[of q] in simp)
  finally show ?thesis .
qed

lemma small_size: "unat n \<le> 0xffffffff \<Longrightarrow> n \<le> (0xffffffff :: u64)"
  by (simp add: word_le_nat_alt)

lemma small_box_sized: "unat (Size b) \<le> 0xffffffff \<Longrightarrow> 1 < unat (Size b) \<Longrightarrow> small_box b"
  by (auto simp: small_box_def small_size)

lemma sizes_from_unat: "unat (Size b) = k + n \<Longrightarrow> length w = n \<Longrightarrow> sized b k (Inr w)"
  by (simp add: sized_def uint_nat)

lemma length_sample_nums:
  assumes "fl = track_flags t"
  shows "length (concat (map (sample_nums \<lparr>fb_Box = b, version = 0, flags24Bit = fl\<rparr>) (map sample_of ss))) = length ss"
  using assms by (induction ss) (auto simp: sample_nums_def has_flag_numeral track_flags_def opt_def split: track.split)

lemma sealed_run_ok:
  assumes "length ss < 2 ^ 26"
  shows "box_ok (TrunB (sealed_run t k ss))" "length (TrunBox_Serialize (sealed_run t k ss)) = 16 + 4 * length ss + track_fields t"
proof -
  have n: "unat (fb_Size (trun_FullBox (sealed_run t k ss))) = 16 + 4 * length ss + track_fields t"
    using unat_run_size[OF assms, of t] by (simp add: sealed_run_size)
  have s: "fb_Size (trun_FullBox (sealed_run t k ss)) \<le> 0xffffffff"
    by (rule small_size) (use n assms track_fields_le[of t] in simp)
  have "small_box (fb_Box (trun_FullBox (sealed_run t k ss)))"
    by (rule small_box_sized) (use n assms track_fields_le[of t] in simp_all)
  moreover have "wf_flags (trun_FullBox (sealed_run t k ss))"
    by (cases t) (simp_all add: wf_flags_def sealed_run_def run_box_def track_flags_def take_bit_eq_mod)
  ultimately show "box_ok (TrunB (sealed_run t k ss))"
    using open_run_count[OF assms]
    by (cases t) (auto simp: trun_ok_def is_box_def sealed_run_def run_box_def open_run_def track_flags_def has_flag_numeral sample_ok_def sample_of_def Let_def)
  show "length (TrunBox_Serialize (sealed_run t k ss)) = 16 + 4 * length ss + track_fields t"
    using length_FullBox_small[OF s] length_sample_nums[OF refl, where t = t and ss = ss]
    by (cases t) (simp_all add: TrunBox_Serialize_def Let_def sealed_run_def run_box_def opt_def has_flag_numeral track_flags_def track_fields_def)
qed

lemma track_tfhd_ok:
  "box_ok (TfhdB (track_tfhd t c))" "length (TfhdBox_Serialize (track_tfhd t c)) = 36"
  by (cases t; simp add: track_tfhd_def fragment_tfhd_def grown_def NewTypeFullBox_def NewTypeBox_def tfhd_ok_def is_box_def wf_flags_def
    small_box_def has_flag_numeral take_bit_eq_mod TfhdBox_Serialize_def opt_def length_FullBox_small Let_def)+

lemma fragment_tfdt_ok:
  "box_ok (TfdtB (fragment_tfdt c))" "length (TfdtBox_Serialize (fragment_tfdt c)) = 20"
  by (simp_all add: fragment_tfdt_def grown_def NewTypeFullBox_def NewTypeBox_def tfdt_ok_def is_box_def small_box_def TfdtBox_Serialize_def length_FullBox_small)

lemma fmp4_mfhd_ok: "box_ok (fmp4_mfhd s)" "\<exists>w. IBox_Serialize (fmp4_mfhd s) = Inr w \<and> length w = 16"
  by (simp_all add: fmp4_mfhd_def plain_full_def is_box_def small_box_def MfhdBox_Serialize_def length_FullBox_small)

lemma sealed_traf_ok:
  assumes "length ss < 2 ^ 26"
  shows "box_ok (sealed_traf t c k ss)" "\<exists>w. IBox_Serialize (sealed_traf t c k ss) = Inr w \<and> length w = unat (traf_size t ss)"
proof -
  note n = unat_traf_size[OF assms, of t] and f = track_fields_le[of t]
  have s: "traf_size t ss \<le> 0xffffffff" by (rule small_size) (use n assms f in simp)
  have b: "small_box \<lparr>Size = traf_size t ss, BoxType = BoxTypeTRAF\<rparr>"
    by (rule small_box_sized) (use n assms f in simp_all)
  have z: "sized \<lparr>Size = traf_size t ss, BoxType = BoxTypeTRAF\<rparr> 8
      (Inr (TfhdBox_Serialize (track_tfhd t c) @ TfdtBox_Serialize (fragment_tfdt c) @ TrunBox_Serialize (sealed_run t k ss)))"
    by (rule sizes_from_unat[OF _ refl]) (simp add: n track_tfhd_ok(2) fragment_tfdt_ok(2) sealed_run_ok(2)[OF assms])
  show "box_ok (sealed_traf t c k ss)"
    using b z track_tfhd_ok(1)[of t c] fragment_tfdt_ok(1)[of c] sealed_run_ok(1)[OF assms, of t k]
    by (simp add: sealed_traf_def container_type_def)
  show "\<exists>w. IBox_Serialize (sealed_traf t c k ss) = Inr w \<and> length w = unat (traf_size t ss)"
    by (simp add: sealed_traf_def n length_small[of "\<lparr>Size = _, BoxType = _\<rparr>"] s track_tfhd_ok(2) fragment_tfdt_ok(2) sealed_run_ok(2)[OF assms])
qed

text \<open>A fragment that the muxer made: its boxes are in order and its size is the number of its bytes.\<close>

definition moof_made :: "IBox \<Rightarrow> bool" where
  "moof_made m \<longleftrightarrow> box_ok m \<and> GetBoxType m = BoxTypeMOOF \<and> (\<exists>w. IBox_Serialize m = Inr w \<and> length w = unat (GetBoxSize m))"

lemma both_moof_made:
  assumes "length ps < 2 ^ 26" "length qs < 2 ^ 26"
  shows "moof_made (both_moof sequ p cp ps q cq qs cur)"
proof -
  note n = unat_both_size[OF assms, of p q] and f = track_fields_le[of p] track_fields_le[of q]
  define b where "b = \<lparr>Size = both_size p ps q qs, BoxType = BoxTypeMOOF\<rparr>"
  have s: "both_size p ps q qs \<le> 0xffffffff" by (rule small_size) (use n assms f in simp)
  have sb: "small_box b" unfolding b_def by (rule small_box_sized) (use n assms f in simp_all)
  define off where "off = (\<lambda>k :: u64. (8 + ucast k + ucast (both_size p ps q qs) :: u32))"
  obtain m wp wq where w: "IBox_Serialize (fmp4_mfhd sequ) = Inr m" "length m = 16"
    "IBox_Serialize (sealed_traf p cp (off cur) ps) = Inr wp" "length wp = unat (traf_size p ps)"
    "IBox_Serialize (sealed_traf q cq (off (cur + mc_accOffset cp)) qs) = Inr wq" "length wq = unat (traf_size q qs)"
    using fmp4_mfhd_ok(2) sealed_traf_ok(2)[OF assms(1)] sealed_traf_ok(2)[OF assms(2)] by metis
  have l: "8 + length (m @ wp @ wq) = unat (both_size p ps q qs)"
    using w assms by (simp add: n unat_traf_size)
  have z: "sized b 8 (Inr (m @ wp @ wq))"
    by (rule sizes_from_unat[OF _ refl]) (simp add: b_def l[symmetric])
  have e: "both_moof sequ p cp ps q cq qs cur = SimpleBoxContainer b [fmp4_mfhd sequ, sealed_traf p cp (off cur) ps, sealed_traf q cq (off (cur + mc_accOffset cp)) qs]"
    by (simp add: both_moof_def b_def off_def Let_def)
  have "box_ok (both_moof sequ p cp ps q cq qs cur)"
    using sb z w(1,3,5) fmp4_mfhd_ok(1) sealed_traf_ok(1)[OF assms(1)] sealed_traf_ok(1)[OF assms(2)]
    by (simp add: e) (simp add: b_def container_type_def)
  moreover have "length (Box_Serialize b) = 8" by (rule length_small) (simp add: b_def s)
  ultimately show ?thesis
    using w(1,3,5) l by (simp add: moof_made_def e GetBoxType_def GetBoxSize_def) (simp add: b_def)
qed

definition empty_moof :: "u32 \<Rightarrow> IBox" where
  "empty_moof sequ = SimpleBoxContainer \<lparr>Size = 24, BoxType = BoxTypeMOOF\<rparr> [fmp4_mfhd sequ]"

lemma empty_moof_made: "moof_made (empty_moof sequ)"
proof -
  obtain m where m: "IBox_Serialize (fmp4_mfhd sequ) = Inr m" "length m = 16" using fmp4_mfhd_ok(2) by metis
  then show ?thesis using fmp4_mfhd_ok(1)[of sequ]
    by (simp add: moof_made_def empty_moof_def GetBoxType_def GetBoxSize_def small_box_def container_type_def sized_def length_small)
qed

section \<open>The movie header ends in bytes or in a panic\<close>

definition only_panics :: "'a res \<Rightarrow> bool" where
  "only_panics m \<longleftrightarrow> (case m of Inl (Panic msg) \<Rightarrow> True | Inl _ \<Rightarrow> False | Inr _ \<Rightarrow> True)"

lemma only_panics_Inr [simp]: "only_panics (Inr x)"
  by (simp add: only_panics_def)

lemma only_panics_bind: "only_panics m \<Longrightarrow> (\<And>x. only_panics (f x)) \<Longrightarrow> only_panics (bindE m f)"
  by (cases m) (auto simp: only_panics_def)

lemma only_panics_boxes:
  "(\<And>b. b \<in> set bs \<Longrightarrow> only_panics (IBox_Serialize b)) \<Longrightarrow> only_panics (IBoxes_Serialize bs)"
  by (induction bs) (auto intro!: only_panics_bind)

lemma only_panics_container: "(\<And>b. b \<in> set bs \<Longrightarrow> only_panics (IBox_Serialize b)) \<Longrightarrow> only_panics (IBox_Serialize (SimpleBoxContainer h bs))"
  by (auto intro!: only_panics_bind only_panics_boxes)

lemma only_panics_avc: "only_panics (AVCCConfigurationBox_Serialize a)"
  by (auto simp: AVCCConfigurationBox_Serialize_def AVCDecoderConfigurationRecord_Serialize_def pps_bytes_def only_panics_def intro!: only_panics_bind)

lemma only_panics_dinf: "only_panics (IBox_Serialize newFmp4DinfBox)"
  by (simp add: newFmp4DinfBox_def Let_def failIf_def)

lemma only_panics_stbl:
  "only_panics (IBox_Serialize b) \<Longrightarrow> only_panics (IBox_Serialize (newVideoStblBox b))"
  unfolding newVideoStblBox_def container_of_def by (rule only_panics_container) (auto intro!: only_panics_bind)

lemma only_panics_trak:
  assumes "only_panics (IBox_Serialize hdlr)" "only_panics (IBox_Serialize mhd)" "only_panics (IBox_Serialize entry)"
  shows "only_panics (IBox_Serialize (fmp4_trak tkhd mdhd hdlr (newFmp4MinfBox mhd (newVideoStblBox entry))))"
  unfolding fmp4_trak_def newFmp4MinfBox_def container_of_def
  using assms only_panics_dinf only_panics_stbl[OF assms(3)]
  by (auto simp del: IBox_Serialize.simps(28) intro!: only_panics_container simp: newVideoStblBox_def)

section \<open>The invariant of the muxer\<close>

definition slice_ok :: "bytes list \<Rightarrow> MdatSlice \<Rightarrow> bool" where
  "slice_ok arrays d \<longleftrightarrow> d = mdat_slice (ms_array d, ms_len d) \<and> ms_array d < length arrays \<and> ms_len d \<le> length (arrays ! ms_array d)"

definition fragments_size :: "(IBox \<times> MdatSlice) list \<Rightarrow> u64" where
  "fragments_size ms = sum_list (map (\<lambda>(m, d). GetBoxSize m + Size (ms_Box d)) ms)"

text \<open>
  \<open>n\<close> bounds the number of frames.  The file position counts the header and the fragments, the video
  cache starts its fragment there, and the buffer is empty between fragments, its array being the one
  the data of the last fragment is in.
\<close>

definition fragments_ok :: "Fmp4 \<Rightarrow> bool" where
  "fragments_ok f \<longleftrightarrow> (\<forall>(m, d) \<in> set (f_MoofMdat f). moof_made m \<and> slice_ok (f_arrays f) d) \<and>
     (if f_MoofMdat f = [] then f_curTrackOffset f = 0 else ms_array (snd (last (f_MoofMdat f))) = fst (f_mdatBuf f))"

definition position_ok :: "Fmp4 \<Rightarrow> bool" where
  "position_ok f \<longleftrightarrow>
     (if f_headerBox f = [] then f_MoofMdat f = [] \<and> f_fmp4BaseDataOffset f = 0
      else f_fmp4BaseDataOffset f = of_nat (length (f_headerBox f)) + fragments_size (f_MoofMdat f))"

definition boxes_ok :: "Fmp4 \<Rightarrow> bool" where
  "boxes_ok f \<longleftrightarrow> (\<forall>b. Trak b \<in> set (f_MoovSubBoxes f) \<longrightarrow> only_panics (IBox_Serialize b)) \<and>
     (\<forall>b \<in> set (f_mvexSubBoxes f). only_panics (IBox_Serialize b))"

definition fmp4_ok :: "nat \<Rightarrow> Fmp4 \<Rightarrow> bool" where
  "fmp4_ok n f \<longleftrightarrow> cache_ok n (f_vCache f) \<and> cache_ok n (f_aCache f) \<and>
     (f_audioTrackId f = 0 \<longrightarrow> mc_trunBox (f_aCache f) = None) \<and>
     (f_moofBox f = None \<or> f_moofBox f = Some (new_moof 1)) \<and> f_moofMdatSeqNum f = 1 \<and>
     buffer_ok (f_arrays f, f_mdatBuf f) \<and> snd (f_mdatBuf f) = 0 \<and>
     fragments_ok f \<and> boxes_ok f \<and> position_ok f \<and> mc_baseDataOffset (f_vCache f) = f_fmp4BaseDataOffset f"

lemmas fmp4_inv = fmp4_ok_def fragments_ok_def position_ok_def boxes_ok_def

lemma fmp4_ok_mono: "fmp4_ok n f \<Longrightarrow> n \<le> k \<Longrightarrow> fmp4_ok k f"
  by (auto simp: fmp4_ok_def intro: cache_ok_mono)

lemma fmp4_ok_New: "fmp4_ok 0 (NewFmp4 a b s)"
  by (simp add: fmp4_inv NewFmp4_def cache_ok_new buffer_ok_def) (simp add: new_cache_def)

lemma fmp4_ok_brand:
  assumes "fmp4_ok n f"
  shows "fmp4_ok n (SetMajorBrand b f)" "fmp4_ok n (SetMinorBrand b f)" "fmp4_ok n (AppendCompatibleBrand b f)"
  using assms by (simp_all add: fmp4_inv SetMajorBrand_def SetMinorBrand_def AppendCompatibleBrand_def)

lemma fmp4_ok_addFrame:
  assumes "fmp4_ok n f"
  shows "fmp4_ok (Suc n) (f\<lparr>f_vCache := addFrame frame ts k (f_vCache f)\<rparr>)"
    "f_audioTrackId f \<noteq> 0 \<Longrightarrow> fmp4_ok (Suc n) (f\<lparr>f_aCache := addFrame frame ts k (f_aCache f)\<rparr>)"
  using assms by (auto simp: fmp4_inv intro: cache_ok_addFrame cache_ok_mono)

lemma fmp4_ok_AudioFrame:
  "fmp4_ok n f \<Longrightarrow> AddAudioFrameWithoutLen frame ts f = (e, f') \<Longrightarrow> fmp4_ok (Suc n) f'"
  by (auto simp: AddAudioFrameWithoutLen_def word_less_1 intro: fmp4_ok_addFrame fmp4_ok_mono split: if_splits)

lemma only_panics_avc1: "only_panics (IBox_Serialize (fmp4_avc1 w h dc len))"
  by (auto simp: fmp4_avc1_def Let_def intro!: only_panics_bind only_panics_avc)

lemma only_panics_mp4a: "only_panics (IBox_Serialize (fmp4_mp4a rate hdr))"
  by (simp add: fmp4_mp4a_def fmp4_esds_def EsdsBox_Serialize_def ES_Descriptor_Serialize_def SLConfigDescriptor_Serialize_def new_SLConfig_def Let_def)

lemma appendTrexBox_ok: "fmp4_ok n f \<Longrightarrow> fmp4_ok n (appendTrexBox f)"
  by (simp add: fmp4_inv appendTrexBox_def Let_def)

lemma only_panics_tracks:
  "only_panics (IBox_Serialize (fmp4_trak tkhd mdhd newFmp4VideoHdlrBox (newFmp4VideoMinfBox (newVideoStblBox (fmp4_avc1 w h dc len)))))"
  "only_panics (IBox_Serialize (fmp4_trak tkhd mdhd newFmp4AudioHdlrBox (newFmp4AudioMinfBox (newVideoStblBox (fmp4_mp4a rate hdr)))))"
  unfolding newFmp4VideoMinfBox_def newFmp4AudioMinfBox_def
  by (rule only_panics_trak; simp add: newFmp4VideoHdlrBox_def newFmp4AudioHdlrBox_def only_panics_avc1 only_panics_mp4a)+

lemma appendTrexBox_fields [simp]:
  "f_vCache (appendTrexBox f) = f_vCache f" "f_aCache (appendTrexBox f) = f_aCache f" "f_mvhdBox (appendTrexBox f) = f_mvhdBox f"
  "f_Moov (appendTrexBox f) = f_Moov f" "f_MoovSubBoxes (appendTrexBox f) = f_MoovSubBoxes f"
  by (simp_all add: appendTrexBox_def Let_def)

lemma fmp4_ok_new_video:
  assumes "fmp4_ok n f" "only_panics (IBox_Serialize b)"
  shows "fmp4_ok n ((appendTrexBox (f\<lparr>f_MoovSubBoxes := f_MoovSubBoxes f @ [Trak b], f_vTrackMdhdBox := md\<rparr>))
    \<lparr>f_vCache := (f_vCache f)\<lparr>mc_trackID := i\<rparr>, f_videoTrackId := i, f_mvhdBox := m, f_Moov := z\<rparr>)"
  using appendTrexBox_ok[OF assms(1)] assms(2) by (auto simp: fmp4_inv appendTrexBox_def Let_def)

lemma fmp4_ok_new_audio:
  assumes "fmp4_ok n f" "only_panics (IBox_Serialize b)" "f_audioTrackId f = 0"
  shows "fmp4_ok n ((appendTrexBox f)\<lparr>f_aCache := (f_aCache f)\<lparr>mc_trackID := i\<rparr>, f_audioTrackId := i, f_mvhdBox := m,
    f_MoovSubBoxes := f_MoovSubBoxes f @ [Trak b], f_Moov := z\<rparr>)"
  using appendTrexBox_ok[OF assms(1)] assms(2,3) by (auto simp: fmp4_inv appendTrexBox_def Let_def)

lemma fmp4_ok_VideoTrack:
  assumes "fmp4_ok n f" "AddVideoH264Track sps hdr f = (e, f')"
  shows "fmp4_ok n f'"
  using assms by (auto simp: AddVideoH264Track_def Let_def intro!: fmp4_ok_new_video only_panics_tracks split: if_splits sum.splits)

lemma fmp4_ok_AudioTrack:
  assumes "fmp4_ok n f" "AddAudioTrack hdr f = (e, f')"
  shows "fmp4_ok n f'"
  using assms by (auto simp: AddAudioTrack_def Let_def intro!: fmp4_ok_new_audio only_panics_tracks split: if_splits)

section \<open>The header\<close>

text \<open>Nothing that a fragment is made of changes but the position where it starts.\<close>

definition same_fragment :: "Fmp4 \<Rightarrow> Fmp4 \<Rightarrow> bool" where
  "same_fragment f f' \<longleftrightarrow> (\<forall>t. cache_of t f' = (cache_of t f)\<lparr>mc_baseDataOffset := mc_baseDataOffset (cache_of t f')\<rparr>) \<and>
     (\<forall>t. f_trackId t f' = f_trackId t f) \<and> f_moofBox f' = f_moofBox f \<and> f_arrays f' = f_arrays f \<and> f_mdatBuf f' = f_mdatBuf f \<and>
     f_MoofMdat f' = f_MoofMdat f \<and> f_curTrackOffset f' = f_curTrackOffset f"

lemma same_fragment_caches:
  assumes "same_fragment f f'"
  shows "mc_trunBox (cache_of t f') = mc_trunBox (cache_of t f)" "mc_buf (cache_of t f') = mc_buf (cache_of t f)"
    "mc_accOffset (cache_of t f') = mc_accOffset (cache_of t f)" "mc_trackID (cache_of t f') = mc_trackID (cache_of t f)"
proof -
  have e: "cache_of t f' = (cache_of t f)\<lparr>mc_baseDataOffset := mc_baseDataOffset (cache_of t f')\<rparr>" using assms by (simp add: same_fragment_def)
  show "mc_trunBox (cache_of t f') = mc_trunBox (cache_of t f)" "mc_buf (cache_of t f') = mc_buf (cache_of t f)"
    "mc_accOffset (cache_of t f') = mc_accOffset (cache_of t f)" "mc_trackID (cache_of t f') = mc_trackID (cache_of t f)"
    by (subst e, simp)+
qed

lemma moov_panics:
  assumes "boxes_ok f"
  shows "only_panics (IBox_Serialize (moov_IBox f))"
  unfolding moov_IBox_def
proof (rule only_panics_container)
  fix b assume "b \<in> set (map (moov_child_IBox f) (f_MoovSubBoxes f))"
  then show "only_panics (IBox_Serialize b)"
    using assms by (auto simp: boxes_ok_def moov_child_IBox_def intro!: only_panics_bind only_panics_boxes split: moov_child.splits)
qed

lemma appendMvex_ok: "boxes_ok f \<Longrightarrow> boxes_ok (appendMvex f)"
  by (auto simp: boxes_ok_def appendMvex_def)

lemma Ftyp_written: "FtypBox_Serialize b \<noteq> []"
  by (simp add: FtypBox_Serialize_def Box_Serialize_def u32be_def)

lemma start_header_error:
  assumes "fmp4_ok n f" "start_header f = (Some e, f')"
  shows "\<exists>msg. e = Panic msg"
proof -
  have "boxes_ok (appendMvex (f\<lparr>f_headerBox := x\<rparr>))" for x
    by (rule appendMvex_ok) (use assms(1) in \<open>simp add: fmp4_ok_def boxes_ok_def\<close>)
  note p = moov_panics[OF this]
  show ?thesis using assms(2) p[of "f_headerBox f @ FtypBox_Serialize (f_Ftyp f)"]
    by (auto simp: start_header_def generateHeaderBox_def Let_def only_panics_def split: if_splits sum.splits go_error.splits)
qed

lemma start_header_ok:
  assumes ok: "fmp4_ok n f" and s: "start_header f = (None, f')"
  shows "fmp4_ok n f' \<and> f_headerBox f' \<noteq> [] \<and> same_fragment f f' \<and>
    (mc_baseDataOffset (f_aCache f) = mc_baseDataOffset (f_vCache f) \<longrightarrow> mc_baseDataOffset (f_aCache f') = mc_baseDataOffset (f_vCache f'))"
proof (cases "f_headerBox f = []")
  case False
  then show ?thesis using assms by (simp add: start_header_def same_fragment_def)
next
  case True
  define g where "g = appendMvex (f\<lparr>f_headerBox := FtypBox_Serialize (f_Ftyp f)\<rparr>)"
  obtain w where w: "IBox_Serialize (moov_IBox g) = Inr w"
    using s True by (auto simp: start_header_def generateHeaderBox_def g_def Let_def split: sum.splits)
  define h where "h = g\<lparr>f_headerBox := f_headerBox g @ w, f_fmp4BaseDataOffset := of_nat (length (f_headerBox g @ w))\<rparr>"
  have f': "f' = set_base Audio (set_base Video h)"
    using s True w by (simp add: start_header_def generateHeaderBox_def g_def h_def Let_def)
  have base: "mc_baseDataOffset (f_vCache f) = 0" using ok True by (simp add: fmp4_inv)
  have bh: "boxes_ok h"
  proof -
    have "boxes_ok g" unfolding g_def by (rule appendMvex_ok) (use ok in \<open>simp add: fmp4_ok_def boxes_ok_def\<close>)
    then show ?thesis by (simp add: h_def boxes_ok_def)
  qed
  have h: "f_vCache h = f_vCache f" "f_aCache h = f_aCache f" "f_audioTrackId h = f_audioTrackId f" "f_videoTrackId h = f_videoTrackId f"
    "f_moofBox h = f_moofBox f" "f_moofMdatSeqNum h = f_moofMdatSeqNum f" "f_arrays h = f_arrays f" "f_mdatBuf h = f_mdatBuf f"
    "f_MoofMdat h = f_MoofMdat f" "f_curTrackOffset h = f_curTrackOffset f" "f_headerBox h \<noteq> []"
    "f_fmp4BaseDataOffset h = of_nat (length (f_headerBox h))"
    using Ftyp_written[of "f_Ftyp f"] by (simp_all add: h_def g_def appendMvex_def)
  have f'': "f' = h\<lparr>f_vCache := (f_vCache f)\<lparr>mc_baseDataOffset := f_fmp4BaseDataOffset h\<rparr>,
      f_aCache := (if mc_baseDataOffset (f_aCache f) < 1 then (f_aCache f)\<lparr>mc_baseDataOffset := f_fmp4BaseDataOffset h\<rparr> else f_aCache f)\<rparr>"
    using h(1,2) base by (simp add: f' set_base_def track_cases)
  have bf: "boxes_ok f'" using bh by (simp add: f'' boxes_ok_def)
  have empty: "f_MoofMdat f = []" using ok True by (simp add: fmp4_inv)
  have "fmp4_ok n f'"
    using ok bf h empty by (simp add: fmp4_ok_def fragments_ok_def position_ok_def f'' fragments_size_def)
  moreover have "same_fragment f f'"
    unfolding same_fragment_def using h by (auto simp: f'' cache_of_def f_trackId_def split: track.split)
  ultimately show ?thesis using h(11) base by (auto simp: f'')
qed

section \<open>Closing a fragment\<close>

lemma cache_run:
  "cache_ok n c \<Longrightarrow> mc_trunBox c = Some r \<Longrightarrow> \<exists>ss. r = open_run ss \<and> ss \<noteq> [] \<and> length ss \<le> n"
  by (simp add: cache_ok_def)

definition closed :: "Fmp4 \<Rightarrow> Fmp4 \<Rightarrow> IBox \<Rightarrow> bytes \<Rightarrow> nat \<times> nat \<Rightarrow> bool" where
  "closed f g m w b \<longleftrightarrow> kept g = kept f \<and> f_MoofMdat g = f_MoofMdat f @ [(m, mdat_slice b)] \<and> moof_made m \<and>
     written w (f_arrays f, f_mdatBuf f) (f_arrays g, b) \<and> f_mdatBuf g = b \<and> (f_audioTrackId f = 0 \<longrightarrow> f_aCache g = f_aCache f) \<and>
     f_fmp4BaseDataOffset g = f_fmp4BaseDataOffset f + (GetBoxSize m + Size (ms_Box (mdat_slice b)))"

text \<open>The fragment of two tracks, by the caches of the muxer in the order of their numbers.\<close>

definition both_fragment :: "Fmp4 \<Rightarrow> IBox" where
  "both_fragment f = (case pair_order f of (p, q) \<Rightarrow>
     both_moof 1 p (cache_of p f) (map SampleSize (BoxSamples (the (mc_trunBox (cache_of p f)))))
       q (cache_of q f) (map SampleSize (BoxSamples (the (mc_trunBox (cache_of q f))))) (f_curTrackOffset f))"

definition both_data :: "Fmp4 \<Rightarrow> bytes" where
  "both_data f = (case pair_order f of (p, q) \<Rightarrow> mc_buf (cache_of p f) @ mc_buf (cache_of q f))"

lemma samples_of_run: "map SampleSize (BoxSamples (open_run ss)) = ss"
  by (induction ss) (simp_all add: open_run_def run_box_def sample_of_def)

lemma both_size_moof: "GetBoxSize (both_moof sequ p cp ps q cq qs cur) = both_size p ps q qs"
  by (simp add: both_moof_def GetBoxSize_def Let_def)

lemma buffer_writes_written:
  assumes "buffer_ok (xs, i, l)" "buffer_write grow w (buffer_write grow v (xs, i, l)) = (ys, b)"
  shows "written (v @ w) (xs, i, l) (ys, b)"
proof -
  obtain zs j k where z: "buffer_write grow v (xs, i, l) = (zs, j, k)" by (metis prod_cases3)
  have 1: "written v (xs, i, l) (zs, j, k)" using buffer_write_written[OF assms(1), of v grow] z by simp
  then have "buffer_ok (zs, j, k)" unfolding written_def split by blast
  then have 2: "written w (zs, j, k) (ys, b)" using buffer_write_written[of zs j k w grow] z assms(2) by simp
  show ?thesis using written_append[OF 1] 2 assms(1) by (cases b) auto
qed

lemma generateOneFrag_ok:
  assumes ok: "fmp4_ok n f" "n < 2 ^ 26" and v: "f_videoTrackId f \<noteq> 0" "mc_trunBox (f_vCache f) \<noteq> None"
  shows "if f_moofBox f = None \<or> f_audioTrackId f \<noteq> 0 \<and> mc_trunBox (f_aCache f) = None
    then \<exists>msg. generateOneFrag grow f = Inl (Panic msg)
    else \<exists>g b. generateOneFrag grow f = Inr g \<and>
      (if f_audioTrackId f = 0 then closed f g (empty_moof 1) [] b else closed f g (both_fragment f) (both_data f) b)"
proof -
  obtain vs where vs: "mc_trunBox (f_vCache f) = Some (open_run vs)" "vs \<noteq> []" "length vs < 2 ^ 26"
    using ok v(2) cache_run[of n "f_vCache f"] by (fastforce simp: fmp4_ok_def)
  obtain i where i: "f_mdatBuf f = (i, 0)" and b: "buffer_ok (f_arrays f, i, 0)" using ok by (cases "f_mdatBuf f") (auto simp: fmp4_ok_def)
  consider "f_moofBox f = None" | "f_moofBox f = Some (new_moof 1)" "f_audioTrackId f \<noteq> 0" "mc_trunBox (f_aCache f) = None"
    | "f_moofBox f = Some (new_moof 1)" "f_audioTrackId f = 0"
    | "f_moofBox f = Some (new_moof 1)" "f_audioTrackId f \<noteq> 0" "mc_trunBox (f_aCache f) \<noteq> None"
    using ok by (auto simp: fmp4_ok_def)
  then show ?thesis
  proof cases
    case 1 then show ?thesis using generateOneFrag_no_moof by simp
  next
    case 2 then show ?thesis using generateOneFrag_no_audio[OF 2(2,3) v(1) vs 2(1)] by (simp add: nil_dereference_def)
  next
    case 3 then show ?thesis
      using generateOneFrag_video[OF 3(2) v(1) vs(1) 3(1), of grow] written_nothing[OF b] i empty_moof_made[of 1]
      by (auto simp: closed_def empty_moof_def GetBoxSize_def)
  next
    case 4
    then obtain as where as: "mc_trunBox (f_aCache f) = Some (open_run as)" "as \<noteq> []" "length as < 2 ^ 26"
      using ok cache_run[of n "f_aCache f"] by (fastforce simp: fmp4_ok_def)
    define ss where "ss t = (case t of Audio \<Rightarrow> as | Video \<Rightarrow> vs)" for t
    have ss: "mc_trunBox (cache_of t f) = Some (open_run (ss t))" "ss t \<noteq> []" "length (ss t) < 2 ^ 26" for t
      using vs as by (cases t; simp add: ss_def track_cases)+
    obtain p q where pq: "pair_order f = (p, q)" by fastforce
    obtain ys b' where w: "buffer_write grow (mc_buf (cache_of q f)) (buffer_write grow (mc_buf (cache_of p f)) (f_arrays f, f_mdatBuf f)) = (ys, b')"
      by (metis surj_pair)
    have "written (both_data f) (f_arrays f, f_mdatBuf f) (ys, b')"
      unfolding both_data_def pq split i by (rule buffer_writes_written[OF b w[unfolded i]])
    moreover obtain g where g: "generateOneFrag grow f = Inr g" "kept g = kept f" "f_arrays g = ys" "f_mdatBuf g = b'"
      "f_MoofMdat g = f_MoofMdat f @ [(both_moof 1 p (cache_of p f) (ss p) q (cache_of q f) (ss q) (f_curTrackOffset f), mdat_slice b')]"
      "f_fmp4BaseDataOffset g = f_fmp4BaseDataOffset f + (both_size p (ss p) q (ss q) + Size (ms_Box (mdat_slice b')))"
      using generateOneFrag_both[OF pq 4(2) v(1) ss ss 4(1) w] by metis
    ultimately have "closed f g (both_fragment f) (both_data f) b'"
      using both_moof_made[OF ss(3) ss(3)] 4(2) by (simp add: closed_def both_fragment_def pq ss(1) samples_of_run both_size_moof)
    then show ?thesis using 4 g(1) by (simp del: split_paired_Ex) blast
  qed
qed

lemma slice_ok_written:
  assumes "slice_ok xs d" "written w (xs, i, l) (ys, b)"
  shows "slice_ok ys d"
proof -
  obtain j k where b: "b = (j, k)" by (cases b)
  have "length xs \<le> length ys" "\<forall>h < length xs. length (ys ! h) = length (xs ! h)"
    using assms(2) unfolding b written_def split by blast+
  then show ?thesis using assms(1) by (simp add: slice_ok_def)
qed

lemma slice_ok_new:
  assumes "written w (xs, i, 0) (ys, b)"
  shows "slice_ok ys (mdat_slice b)" "take (snd b) (ys ! fst b) = w" "snd b = length w"
  using assms by (cases b; simp add: written_def buffer_ok_def slice_ok_def mdat_slice_def)+

lemma mdat_slice_array: "ms_array (mdat_slice b) = fst b"
  by (simp add: mdat_slice_def)

lemma fragments_size_snoc: "fragments_size (ms @ [(m, d)]) = fragments_size ms + (GetBoxSize m + Size (ms_Box d))"
  by (simp add: fragments_size_def)

lemma resetFrag_True:
  assumes "f_videoTrackId f \<noteq> 0"
  shows "resetFrag True ts f =
    f\<lparr>f_vCache := cache_reset (f_fmp4BaseDataOffset f) ts (f_vCache f),
      f_aCache := (if f_audioTrackId f = 0 then f_aCache f else cache_reset (f_fmp4BaseDataOffset f) ts (f_aCache f)),
      f_moofBox := Some (new_moof (f_moofMdatSeqNum f)), f_mdatBuf := (fst (f_mdatBuf f), 0)\<rparr>"
  using assms by (simp add: resetFrag_def reset_cache_def track_cases word_neq_0_conv)

lemma cache_reset_base [simp]: "mc_baseDataOffset (cache_reset b d c) = b" "mc_trunBox (cache_reset b d c) = None"
  by (simp_all add: cache_reset_def)

lemma first_reset_ok:
  assumes "fmp4_ok n f" "f_videoTrackId f \<noteq> 0"
  shows "fmp4_ok n (resetFrag True ts f)"
  using assms by (cases "f_mdatBuf f") (auto simp: resetFrag_True fmp4_inv cache_ok_reset buffer_ok_def)

lemma closed_reset_ok:
  assumes ok: "fmp4_ok n f" "f_videoTrackId f \<noteq> 0" "f_headerBox f \<noteq> []" and c: "closed f g m w b"
  shows "fmp4_ok n (resetFrag True ts g)"
proof -
  obtain i where i: "f_mdatBuf f = (i, 0)" using ok by (cases "f_mdatBuf f") (auto simp: fmp4_ok_def)
  have k: "f_headerBox g = f_headerBox f" "f_MoovSubBoxes g = f_MoovSubBoxes f" "f_mvexSubBoxes g = f_mvexSubBoxes f"
    "f_audioTrackId g = f_audioTrackId f" "f_videoTrackId g = f_videoTrackId f" "f_moofMdatSeqNum g = f_moofMdatSeqNum f"
    and m: "f_MoofMdat g = f_MoofMdat f @ [(m, mdat_slice b)]" "moof_made m" and w: "written w (f_arrays f, i, 0) (f_arrays g, b)"
    and b: "f_mdatBuf g = b" "f_audioTrackId f = 0 \<Longrightarrow> f_aCache g = f_aCache f"
    and o: "f_fmp4BaseDataOffset g = f_fmp4BaseDataOffset f + (GetBoxSize m + Size (ms_Box (mdat_slice b)))"
    using c i by (simp_all add: closed_def kept_def)
  have frags: "fragments_ok (resetFrag True ts g)"
    using ok slice_ok_written[OF _ w] slice_ok_new(1)[OF w] m k(5) b(1) mdat_slice_array[of b]
    by (auto simp: fmp4_ok_def fragments_ok_def resetFrag_True)
  have buf: "buffer_ok (f_arrays g, fst b, 0)" using slice_ok_new(1)[OF w] by (simp add: slice_ok_def buffer_ok_def mdat_slice_def)
  show ?thesis
    using ok frags buf k b o m
    by (auto simp: fmp4_ok_def resetFrag_True cache_ok_reset position_ok_def boxes_ok_def fragments_size_snoc algebra_simps)
qed

lemma close_fragment_closed:
  assumes "generateOneFrag grow f = Inr g" "closed f g m w b" "f_moofMdatSeqNum f = 1"
  obtains g' where "close_fragment grow f = Inr g'" "closed f g' m w b"
proof -
  have "f_moofMdatSeqNum g = 1" using assms by (simp add: closed_def kept_def)
  then have "closed f (g\<lparr>f_keyFrameCount := 0\<rparr>) m w b" "closed f (g\<lparr>f_keyFrameCount := 0, f_curTrackOffset := 0, f_moofMdatSeqNum := 1\<rparr>) m w b"
    using assms(2) by (simp_all add: closed_def kept_def)
  then show thesis using that assms(1)
    by (cases "sint (f_segDuration g) < sint (mc_lastTs (f_vCache g) - mc_firstTs (f_vCache g))") (simp_all add: close_fragment_def Let_def)
qed

section \<open>A video frame\<close>

text \<open>A key frame that closes a fragment with the media data \<open>w\<close>: what it leaves.\<close>

definition fragment_closed :: "bytes \<Rightarrow> nat \<Rightarrow> Fmp4 \<Rightarrow> Fmp4 \<Rightarrow> IBox \<Rightarrow> bytes \<Rightarrow> nat \<times> nat \<Rightarrow> bool" where
  "fragment_closed frame n f f' m w b \<longleftrightarrow> fmp4_ok (Suc n) f' \<and> f_MoofMdat f' = f_MoofMdat f @ [(m, mdat_slice b)] \<and>
     written w (f_arrays f, f_mdatBuf f) (f_arrays f', b) \<and> kept f' = kept f \<and> f_moofBox f' \<noteq> None \<and>
     mc_buf (f_vCache f') = frame \<and> (f_audioTrackId f \<noteq> 0 \<longrightarrow> f_aCache f' = cache_reset (f_fmp4BaseDataOffset f') (mc_baseDecodeTime (f_aCache f')) (f_aCache f'))"

text \<open>What makes closing a fragment panic.\<close>

definition no_fragment :: "Fmp4 \<Rightarrow> bool" where
  "no_fragment f \<longleftrightarrow> f_moofBox f = None \<or> f_audioTrackId f \<noteq> 0 \<and> mc_trunBox (f_aCache f) = None"

lemma kept_frame: "kept (f\<lparr>f_keyFrameCount := k, f_vCache := c\<rparr>) = kept f"
  by (simp add: kept_def)

lemma fmp4_ok_key [simp]: "fmp4_ok n (f\<lparr>f_keyFrameCount := k\<rparr>) = fmp4_ok n f"
  by (auto simp: fmp4_inv)

lemma fmp4_ok_key_frame:
  assumes "fmp4_ok n f"
  shows "fmp4_ok (Suc n) (f\<lparr>f_keyFrameCount := k, f_vCache := addFrame frame ts 0 (f_vCache f)\<rparr>)"
  using fmp4_ok_addFrame(1)[of n "f\<lparr>f_keyFrameCount := k\<rparr>" frame ts 0] assms by simp

lemma key_frame_closes:
  assumes ok: "fmp4_ok n f" "n < 2 ^ 26" and v: "f_videoTrackId f \<noteq> 0" "mc_accOffset (f_vCache f) \<noteq> 0"
    and s: "start_header f = (None, h)"
  shows "if no_fragment f then \<exists>msg g. AddVideoFrameWithLen grow frame ts True f = (Some (Panic msg), g)
    else \<exists>f' b. AddVideoFrameWithLen grow frame ts True f = (None, f') \<and>
      (if f_audioTrackId f = 0 then fragment_closed frame n h f' (empty_moof 1) [] b else fragment_closed frame n h f' (both_fragment h) (both_data h) b)"
proof -
  have h: "fmp4_ok n h" "f_headerBox h \<noteq> []" "same_fragment f h" using start_header_ok[OF ok(1) s] by blast+
  note c = same_fragment_caches[OF h(3)]
  have e: "f_moofBox h = f_moofBox f" "f_trackId Audio h = f_trackId Audio f" "f_trackId Video h = f_trackId Video f"
    using h(3) by (simp_all add: same_fragment_def)
  have t: "mc_trunBox (f_vCache h) \<noteq> None"
    using c(1)[of Video] ok(1) v(2) by (cases "mc_trunBox (f_vCache f)") (simp_all add: track_cases fmp4_ok_def cache_ok_def)
  have nf: "no_fragment h = no_fragment f" using e c(1)[of Audio] by (simp add: no_fragment_def track_cases)
  have vh: "f_videoTrackId h \<noteq> 0" "f_audioTrackId h = f_audioTrackId f" using e v(1) by (simp_all add: track_cases)
  note g = generateOneFrag_ok[OF h(1) ok(2) vh(1) t, of grow, folded no_fragment_def, unfolded nf vh(2)]
  have a: "AddVideoFrameWithLen grow frame ts True f = (case close_fragment grow h of Inl e \<Rightarrow> (Some e, h)
      | Inr f \<Rightarrow> (None, (resetFrag True ts f)\<lparr>f_keyFrameCount := f_keyFrameCount (resetFrag True ts f) + 1,
          f_vCache := addFrame frame ts 0 (f_vCache (resetFrag True ts f))\<rparr>))"
    using v s by (simp add: AddVideoFrameWithLen_def word_less_1 Let_def split: sum.split)
  show ?thesis
  proof (cases "no_fragment f")
    case True
    then show ?thesis using g by (auto simp: a close_fragment_def)
  next
    case False
    define m where "m = (if f_audioTrackId f = 0 then empty_moof 1 else both_fragment h)"
    define w where "w = (if f_audioTrackId f = 0 then [] else both_data h)"
    from g False have "\<exists>g0 b. generateOneFrag grow h = Inr g0 \<and> closed h g0 m w b"
      by (cases "f_audioTrackId f = 0") (simp_all add: m_def w_def del: split_paired_Ex)
    then obtain g0 b where g0: "generateOneFrag grow h = Inr g0" "closed h g0 m w b" by blast
    have "f_moofMdatSeqNum h = 1" using h(1) by (simp add: fmp4_ok_def)
    from close_fragment_closed[OF g0 this] obtain g' where g': "close_fragment grow h = Inr g'" "closed h g' m w b" .
    define r where "r = resetFrag True ts g'"
    have r: "fmp4_ok n r" unfolding r_def by (rule closed_reset_ok[OF h(1) vh(1) h(2) g'(2)])
    have rf: "f_MoofMdat r = f_MoofMdat g'" "f_arrays r = f_arrays g'" "kept r = kept g'" "f_moofBox r \<noteq> None" "mc_trunBox (f_vCache r) = None"
      "f_audioTrackId h \<noteq> 0 \<longrightarrow> f_aCache r = cache_reset (f_fmp4BaseDataOffset r) (mc_baseDecodeTime (f_aCache r)) (f_aCache r)"
      using g'(2) vh(1) by (simp_all add: r_def resetFrag_True closed_def kept_def) (simp add: cache_reset_def)
    have buf: "mc_buf (addFrame frame ts 0 (f_vCache r)) = frame" using rf(5) by (simp add: addFrame_def)
    have "fmp4_ok (Suc n) (r\<lparr>f_keyFrameCount := k, f_vCache := addFrame frame ts 0 (f_vCache r)\<rparr>)" for k
      by (rule fmp4_ok_key_frame[OF r])
    then have "fragment_closed frame n h (r\<lparr>f_keyFrameCount := k, f_vCache := addFrame frame ts 0 (f_vCache r)\<rparr>) m w b" for k
      using g'(2) rf buf by (simp add: fragment_closed_def closed_def kept_frame)
    then show ?thesis using False g' unfolding a m_def w_def r_def
      by (cases "f_audioTrackId f = 0") (simp_all del: split_paired_Ex, blast+)
  qed
qed


lemma fmp4_ok_VideoFrame:
  assumes ok: "fmp4_ok n f" "n < 2 ^ 26" and a: "AddVideoFrameWithLen grow frame ts key f = (e, f')"
  shows "(\<exists>msg. e = Some (Panic msg)) \<or> fmp4_ok (Suc n) f'"
proof (cases "f_videoTrackId f < 1 \<or> \<not> key \<or> mc_accOffset (f_vCache f) = 0")
  case True
  then show ?thesis
    using a fmp4_ok_mono[OF ok(1), of "Suc n"] fmp4_ok_addFrame(1)[OF ok(1), of frame ts 0] fmp4_ok_key_frame[OF first_reset_ok[OF ok(1)], where frame = frame and ts = ts]
    by (auto simp: AddVideoFrameWithLen_def word_less_1 Let_def split: if_splits)
next
  case False
  then have v: "f_videoTrackId f \<noteq> 0" "mc_accOffset (f_vCache f) \<noteq> 0" and k: key by (auto simp: word_less_1)
  show ?thesis
  proof (cases "start_header f")
    case (Pair x h)
    show ?thesis
    proof (cases x)
      case None
      then show ?thesis
        using key_frame_closes[OF ok v Pair[unfolded None], of grow frame ts] a k by (auto simp: fragment_closed_def split: if_splits)
    next
      case (Some y)
      then show ?thesis using start_header_error[OF ok(1), of y h] Pair a k v by (auto simp: AddVideoFrameWithLen_def word_less_1 Let_def)
    qed
  qed
qed

lemma fmp4_step_ok:
  assumes "fmp4_ok n f" "n < 2 ^ 26" "fmp4_step sps grow x f = (e, f')"
  shows "(\<exists>msg. e = Some (Panic msg)) \<or> fmp4_ok (Suc n) f'"
proof (cases x)
  case (VideoFrame frame ts key)
  then show ?thesis using fmp4_ok_VideoFrame[OF assms(1,2)] assms(3) by (simp add: fmp4_step_def)
next
  case (VideoTrack hdr)
  then show ?thesis using fmp4_ok_VideoTrack[OF assms(1)] assms(3) fmp4_ok_mono[of n f' "Suc n"] by (auto simp: fmp4_step_def)
next
  case (AudioTrack hdr)
  then show ?thesis using fmp4_ok_AudioTrack[OF assms(1)] assms(3) fmp4_ok_mono[of n f' "Suc n"] by (auto simp: fmp4_step_def)
next
  case (AudioFrame frame ts)
  then show ?thesis using fmp4_ok_AudioFrame[OF assms(1)] assms(3) by (auto simp: fmp4_step_def)
qed (use assms fmp4_ok_mono[OF fmp4_ok_brand(1), of n f "Suc n"] fmp4_ok_mono[OF fmp4_ok_brand(2), of n f "Suc n"]
    fmp4_ok_mono[OF fmp4_ok_brand(3), of n f "Suc n"] in \<open>auto simp: fmp4_step_def\<close>)

lemma fmp4_run_ok:
  "fmp4_ok n f \<Longrightarrow> n + length xs \<le> 2 ^ 26 \<Longrightarrow> fmp4_run sps grow xs f = Inr f' \<Longrightarrow> fmp4_ok (n + length xs) f'"
proof (induction xs arbitrary: n f)
  case (Cons x xs)
  obtain e g where g: "fmp4_step sps grow x f = (e, g)" by fastforce
  have "fmp4_ok (Suc n) g" "fmp4_run sps grow xs g = Inr f'"
    using fmp4_step_ok[OF Cons.prems(1) _ g] Cons.prems(2,3) g by (auto split: option.splits go_error.splits)
  then show ?case using Cons.IH[of "Suc n" g] Cons.prems(2) by simp
qed simp

end
