(* ===== verification/Mp4_Fmp4_File.thy ===== *)
theory Mp4_Fmp4_File
  imports Mp4_Fmp4
begin

text \<open>
  The file that the muxer of \<open>container/mp4/fmp4.go\<close> writes: its fragments can be read back, what their
  offsets point to, what closing a fragment does to the media data of the one before it, what a stream
  without audio leaves, and exactly when a frame makes the process panic.
\<close>

section \<open>A run to try the properties on\<close>

definition sample_avc :: bytes where
  "sample_avc = [1, 0x42, 0, 30, 0xFF, 0xE1, 0, 2, 0x67, 0x42, 1, 0, 1, 0x68]"

definition sample_sps :: "bytes \<Rightarrow> (u16 \<times> u16) res" where
  "sample_sps nalu = Inr (16, 16)"

definition sample_grow :: "nat \<Rightarrow> nat \<Rightarrow> nat" where
  "sample_grow c n = max 64 (max (2 * c) n)"

definition sample_ops :: "fmp4_op list" where
  "sample_ops = [VideoTrack sample_avc, AudioTrack [0x12, 0x10], VideoFrame [1, 2, 3] 0 True, AudioFrame [9, 9] 0,
     VideoFrame [4, 5] 40 True, AudioFrame [8] 40]"

definition sample_run :: "fmp4_op list \<Rightarrow> Fmp4 res" where
  "sample_run ops = fmp4_run sample_sps sample_grow ops (NewFmp4 0 0 1000)"

lemma run_fmp4_ok:
  assumes "fmp4_run sps grow xs (NewFmp4 a b s) = Inr f" "length xs \<le> 2 ^ 26"
  shows "fmp4_ok (length xs) f"
  using fmp4_run_ok[OF fmp4_ok_New[of a b s], of xs sps grow f] assms by simp

section \<open>Reading fragments back\<close>

text \<open>C33: Whatever is done with a muxer, every fragment it has made is written without an error, in as many bytes
  as its size says, and read back as it is.\<close>

theorem fmp4_fragments_readable:
  assumes "fmp4_run sps grow xs (NewFmp4 now1 now2 seg) = Inr f" "length xs \<le> 2 ^ 26" "(m, d) \<in> set (f_MoofMdat f)"
  shows "\<exists>w. IBox_Serialize m = Inr w \<and> length w = unat (GetBoxSize m) \<and>
    (\<forall>r n. length (w @ r) \<le> n \<longrightarrow> parseChildBox n (w @ r) = Inr (m, length w, r))"
proof -
  have "moof_made m" using run_fmp4_ok[OF assms(1,2)] assms(3) by (auto simp: fmp4_ok_def fragments_ok_def)
  then obtain v where v: "IBox_Serialize m = Inr v" "length v = unat (GetBoxSize m)" and "box_ok m" by (auto simp: moof_made_def)
  from box_ok_readable[OF this(3)] v show ?thesis by (auto simp: readable_def reads_def)
qed

section \<open>When a frame makes the process panic\<close>

text \<open>C32: Adding a video frame panics exactly when it is a key frame that closes a fragment with video data in it and
  the fragment was never begun (the first video frame was not a key frame), the audio track has had no
  frame since the last key frame, or the movie header cannot be written (a decoder configuration with
  fewer picture than sequence parameter sets).\<close>

theorem fmp4_panic_iff:
  assumes "fmp4_run sps grow xs (NewFmp4 now1 now2 seg) = Inr f" "length xs < 2 ^ 26"
  shows "(\<exists>msg g. AddVideoFrameWithLen grow frame ts key f = (Some (Panic msg), g)) \<longleftrightarrow>
    f_videoTrackId f \<noteq> 0 \<and> key \<and> mc_accOffset (f_vCache f) \<noteq> 0 \<and>
    (f_moofBox f = None \<or> f_audioTrackId f \<noteq> 0 \<and> mc_trunBox (f_aCache f) = None \<or> fst (start_header f) \<noteq> None)"
proof (cases "f_videoTrackId f \<noteq> 0 \<and> key \<and> mc_accOffset (f_vCache f) \<noteq> 0")
  case False
  then show ?thesis by (auto simp: AddVideoFrameWithLen_def word_less_1 Let_def)
next
  case True
  have ok: "fmp4_ok (length xs) f" using run_fmp4_ok[OF assms(1)] assms(2) by simp
  obtain x h where s: "start_header f = (x, h)" by fastforce
  show ?thesis
  proof (cases x)
    case None
    then show ?thesis
      using key_frame_closes[OF ok assms(2) _ _ s[unfolded None], of grow frame ts] True s
      by (cases "no_fragment f") (auto simp: no_fragment_def)
  next
    case (Some e)
    then show ?thesis using start_header_error[OF ok, of e h] s True by (auto simp: AddVideoFrameWithLen_def word_less_1 Let_def)
  qed
qed

section \<open>A stream without audio\<close>

definition moof_24 :: bytes where
  "moof_24 = u32be 24 @ u32be BoxTypeMOOF @ u32be 16 @ u32be BoxTypeMFHD @ u32be 0 @ u32be 1"

definition video_only :: "Fmp4 \<Rightarrow> bool" where
  "video_only f \<longleftrightarrow> f_audioTrackId f = 0 \<and> (\<forall>(m, d) \<in> set (f_MoofMdat f). m = empty_moof 1 \<and> ms_len d = 0)"

lemma video_only_frame:
  assumes ok: "fmp4_ok n f" "n < 2 ^ 26" "video_only f" and a: "AddVideoFrameWithLen grow frame ts key f = (e, f')"
  shows "(\<exists>msg. e = Some (Panic msg)) \<or> video_only f'"
proof (cases "f_videoTrackId f < 1 \<or> \<not> key \<or> mc_accOffset (f_vCache f) = 0")
  case True
  then show ?thesis
    using a ok(3) by (auto simp: AddVideoFrameWithLen_def resetFrag_True word_less_1 video_only_def Let_def split: if_splits)
next
  case False
  then have v: "f_videoTrackId f \<noteq> 0" "mc_accOffset (f_vCache f) \<noteq> 0" and k: key by (auto simp: word_less_1)
  obtain x h where s: "start_header f = (x, h)" by fastforce
  show ?thesis
  proof (cases x)
    case (Some y)
    then show ?thesis using start_header_error[OF ok(1), of y h] s a k v by (auto simp: AddVideoFrameWithLen_def word_less_1 Let_def)
  next
    case None
    have h: "same_fragment f h" "fmp4_ok n h" using start_header_ok[OF ok(1) s[unfolded None]] by blast+
    have m: "f_MoofMdat h = f_MoofMdat f" "f_audioTrackId h = 0" "f_audioTrackId f = 0"
      using h(1) ok(3) by (auto simp: same_fragment_def video_only_def track_cases(1)[symmetric])
    obtain i where i: "f_mdatBuf h = (i, 0)" using h(2) by (cases "f_mdatBuf h") (auto simp: fmp4_ok_def)
    from key_frame_closes[OF ok(1,2) v s[unfolded None], of grow frame ts] a k m(3)
    have "(\<exists>msg. e = Some (Panic msg)) \<or> (\<exists>b. fragment_closed frame n h f' (empty_moof 1) [] b)"
      by (auto split: if_splits)
    then show ?thesis
    proof (elim disjE exE)
      fix b assume c: "fragment_closed frame n h f' (empty_moof 1) [] b"
      have "snd b = 0" using slice_ok_new(3)[of "[]" "f_arrays h" i "f_arrays f'" b] c i by (simp add: fragment_closed_def)
      then have "video_only f'" using c m ok(3) by (auto simp: fragment_closed_def video_only_def kept_def mdat_slice_def)
      then show ?thesis ..
    qed blast
  qed
qed

lemma AddVideoH264Track_keeps:
  assumes "AddVideoH264Track sps hdr f = (e, f')"
  shows "f_MoofMdat f' = f_MoofMdat f" "f_audioTrackId f' = f_audioTrackId f"
  using assms by (simp_all add: AddVideoH264Track_def appendTrexBox_def Let_def split: if_splits sum.splits prod.splits) auto

lemma video_only_step:
  assumes "fmp4_ok n f" "n < 2 ^ 26" "video_only f" "\<nexists>hdr. x = AudioTrack hdr" "fmp4_step sps grow x f = (e, f')"
  shows "(\<exists>msg. e = Some (Panic msg)) \<or> video_only f'"
proof (cases x)
  case (VideoFrame frame ts key)
  then show ?thesis using video_only_frame[OF assms(1-3)] assms(5) by (simp add: fmp4_step_def)
next
  case (VideoTrack hdr)
  then show ?thesis using assms(3,5) AddVideoH264Track_keeps[of sps hdr f e f'] by (simp add: fmp4_step_def video_only_def)
qed (use assms(3-5) in \<open>auto simp: fmp4_step_def SetMajorBrand_def SetMinorBrand_def AppendCompatibleBrand_def AddAudioFrameWithoutLen_def video_only_def split: if_splits\<close>)

lemma video_only_run:
  "fmp4_ok n f \<Longrightarrow> n + length xs \<le> 2 ^ 26 \<Longrightarrow> video_only f \<Longrightarrow> \<nexists>hdr. AudioTrack hdr \<in> set xs \<Longrightarrow>
    fmp4_run sps grow xs f = Inr f' \<Longrightarrow> video_only f'"
proof (induction xs arbitrary: n f)
  case (Cons x xs)
  obtain e g where g: "fmp4_step sps grow x f = (e, g)" by fastforce
  have "fmp4_run sps grow xs g = Inr f'" "\<nexists>msg. e = Some (Panic msg)"
    using Cons.prems(5) g by (auto split: option.splits go_error.splits)
  then show ?case
    using Cons.IH[of "Suc n" g] Cons.prems fmp4_step_ok[OF Cons.prems(1) _ g] video_only_step[OF Cons.prems(1) _ Cons.prems(3) _ g] by auto
qed simp


lemma empty_moof_bytes: "IBox_Serialize (empty_moof 1) = Inr moof_24"
  by (simp add: empty_moof_def fmp4_mfhd_def moof_24_def Box_Serialize_def FullBox_Serialize_def MfhdBox_Serialize_def)

lemma video_only_bytes:
  "(\<forall>(m, d) \<in> set ms. m = empty_moof 1 \<and> ms_len d = 0 \<and> d = mdat_slice (ms_array d, ms_len d)) \<Longrightarrow>
    fragments_bytes f ms = Inr (concat (replicate (length ms) (moof_24 @ u32be 8 @ u32be BoxTypeMDAT)))"
proof (induction ms)
  case (Cons x ms)
  then obtain d where x: "x = (empty_moof 1, d)" "ms_len d = 0" "d = mdat_slice (ms_array d, 0)" by (cases x) auto
  have b: "ms_Box d = \<lparr>Size = 8, BoxType = BoxTypeMDAT\<rparr>" by (subst x(3)) (simp add: mdat_slice_def)
  have "fragment_bytes f x = Inr (moof_24 @ u32be 8 @ u32be BoxTypeMDAT)"
    using x(2) by (simp add: x(1) b fragment_bytes_def empty_moof_bytes MdatBox_Serialize_def mdat_data_def Box_Serialize_def)
  then show ?case using Cons by simp
qed simp

lemma fmp4_run_append: "fmp4_run sps grow (xs @ ys) f = bindE (fmp4_run sps grow xs f) (fmp4_run sps grow ys)"
proof (induction xs arbitrary: f)
  case (Cons x xs)
  obtain e g where "fmp4_step sps grow x f = (e, g)" by fastforce
  then show ?case using Cons by (simp split: option.split go_error.split)
qed simp

text \<open>A run is extended by a key frame that closes a fragment.\<close>

definition sample_fact :: "(Fmp4 \<Rightarrow> bool) \<Rightarrow> fmp4_op list \<Rightarrow> bool" where
  "sample_fact P ops \<longleftrightarrow> (case sample_run ops of Inl e \<Rightarrow> False | Inr f \<Rightarrow> P f)"

definition closable :: "Fmp4 \<Rightarrow> bool" where
  "closable f \<longleftrightarrow> fst (start_header f) = None \<and> f_videoTrackId f \<noteq> 0 \<and> mc_accOffset (f_vCache f) \<noteq> 0 \<and> \<not> no_fragment f"

definition closes :: "fmp4_op list \<Rightarrow> bytes \<Rightarrow> u64 \<Rightarrow> Fmp4 \<Rightarrow> Fmp4 \<Rightarrow> Fmp4 \<Rightarrow> nat \<times> nat \<Rightarrow> bool" where
  "closes ops frame ts f h f' b \<longleftrightarrow> sample_run ops = Inr f \<and> start_header f = (None, h) \<and> same_fragment f h \<and>
     AddVideoFrameWithLen sample_grow frame ts True f = (None, f') \<and> sample_run (ops @ [VideoFrame frame ts True]) = Inr f' \<and>
     (if f_audioTrackId f = 0 then fragment_closed frame (length ops) h f' (empty_moof 1) [] b
      else fragment_closed frame (length ops) h f' (both_fragment h) (both_data h) b)"

lemma sample_closes:
  assumes "sample_run ops = Inr f" "closable f" "length ops < 2 ^ 26"
  shows "\<exists>h f' b. closes ops frame ts f h f' b"
proof -
  have f: "fst (start_header f) = None" "f_videoTrackId f \<noteq> 0" "mc_accOffset (f_vCache f) \<noteq> 0" "\<not> no_fragment f"
    using assms(2) by (auto simp: closable_def)
  obtain h where h: "start_header f = (None, h)" using f(1) by (cases "start_header f") simp
  have ok: "fmp4_ok (length ops) f" using run_fmp4_ok[of sample_sps sample_grow ops 0 0 1000 f] assms(1,3) by (simp add: sample_run_def)
  from key_frame_closes[OF ok assms(3) f(2,3) h, of sample_grow frame ts] f(4)
  obtain f' b where g: "AddVideoFrameWithLen sample_grow frame ts True f = (None, f')" "if f_audioTrackId f = 0 then fragment_closed frame (length ops) h f' (empty_moof 1) [] b
     else fragment_closed frame (length ops) h f' (both_fragment h) (both_data h) b" by (auto simp del: split_paired_Ex)
  have "sample_run (ops @ [VideoFrame frame ts True]) = Inr f'"
    using assms(1) g(1) by (simp add: sample_run_def fmp4_run_append fmp4_step_def)
  moreover have "same_fragment f h" using start_header_ok[OF ok h] by blast
  ultimately show ?thesis using assms(1) h g unfolding closes_def by blast
qed

lemma sample_facts:
  "sample_fact (\<lambda>f. closable f \<and> f_audioTrackId f = 0 \<and> length (f_MoofMdat f) = 0) [VideoTrack sample_avc, VideoFrame [1, 2, 3] 0 True]"
  "sample_fact (\<lambda>f. closable f \<and> f_audioTrackId f \<noteq> 0 \<and> length (f_MoofMdat f) = 0 \<and> both_data f = [1, 2, 3, 0, 0, 0, 2, 9, 9] \<and>
     mc_baseDataOffset (f_aCache f) = mc_baseDataOffset (f_vCache f)) (take 4 sample_ops)"
  by code_simp+

text \<open>C36: The file of a muxer that has a video track and no audio track holds no frame: after the header, every
  fragment is a movie fragment without a track and an empty media data box.\<close>

theorem video_only_file:
  assumes "fmp4_run sps grow xs (NewFmp4 now1 now2 seg) = Inr f" "length xs \<le> 2 ^ 26" "\<nexists>hdr. AudioTrack hdr \<in> set xs"
  shows "fmp4_serialize f = Inr (f_headerBox f @ concat (replicate (length (f_MoofMdat f)) (moof_24 @ u32be 8 @ u32be BoxTypeMDAT)))"
proof -
  have "video_only f"
    using video_only_run[OF fmp4_ok_New _ _ assms(3,1)] assms(2) by (simp add: video_only_def NewFmp4_def)
  then have "\<forall>(m, d) \<in> set (f_MoofMdat f). m = empty_moof 1 \<and> ms_len d = 0 \<and> d = mdat_slice (ms_array d, ms_len d)"
    using run_fmp4_ok[OF assms(1,2)] by (auto simp: video_only_def fmp4_ok_def fragments_ok_def slice_ok_def)
  then show ?thesis by (simp add: fmp4_serialize_def video_only_bytes)
qed

theorem video_only_file_witness:
  "\<exists>f. sample_run [VideoTrack sample_avc, VideoFrame [1, 2, 3] 0 True, VideoFrame [4, 5] 40 True] = Inr f \<and> length (f_MoofMdat f) = 1 \<and>
    fmp4_serialize f = Inr (f_headerBox f @ moof_24 @ u32be 8 @ u32be BoxTypeMDAT)"
proof -
  obtain f where f: "sample_run [VideoTrack sample_avc, VideoFrame [1, 2, 3] 0 True] = Inr f" "closable f" "f_audioTrackId f = 0" "f_MoofMdat f = []"
    using sample_facts(1) by (auto simp: sample_fact_def split: sum.splits)
  obtain h f' b where "closes [VideoTrack sample_avc, VideoFrame [1, 2, 3] 0 True] [4, 5] 40 f h f' b"
    using sample_closes[OF f(1,2), of "[4, 5]" 40] by auto
  then have "sample_run [VideoTrack sample_avc, VideoFrame [1, 2, 3] 0 True, VideoFrame [4, 5] 40 True] = Inr f'" "length (f_MoofMdat f') = 1"
    using f(3,4) by (auto simp: closes_def fragment_closed_def same_fragment_def)
  then show ?thesis
    using video_only_file[of sample_sps sample_grow "[VideoTrack sample_avc, VideoFrame [1, 2, 3] 0 True, VideoFrame [4, 5] 40 True]" 0 0 1000 f']
    by (auto simp: sample_run_def simp del: fmp4_run.simps)
qed


theorem fmp4_fragments_readable_witness:
  "\<exists>f m d. sample_run (take 5 sample_ops) = Inr f \<and> f_MoofMdat f = [(m, d)] \<and>
    (\<exists>w. IBox_Serialize m = Inr w \<and> length w = unat (GetBoxSize m) \<and> (\<forall>r n. length (w @ r) \<le> n \<longrightarrow> parseChildBox n (w @ r) = Inr (m, length w, r)))"
proof -
  obtain f where f: "sample_run (take 4 sample_ops) = Inr f" "closable f" "f_audioTrackId f \<noteq> 0" "f_MoofMdat f = []"
    using sample_facts(2) by (auto simp: sample_fact_def split: sum.splits)
  obtain h f' b where c: "closes (take 4 sample_ops) [4, 5] 40 f h f' b"
    using sample_closes[OF f(1,2), of "[4, 5]" 40] by (auto simp: sample_ops_def)
  then have "f_MoofMdat f' = [(both_fragment h, mdat_slice b)]"
    using f(3,4) by (auto simp: closes_def fragment_closed_def same_fragment_def)
  moreover have "sample_run (take 5 sample_ops) = Inr f'" using c by (simp add: closes_def sample_ops_def)
  ultimately show ?thesis
    using fmp4_fragments_readable[of sample_sps sample_grow "take 5 sample_ops" 0 0 1000 f' "both_fragment h" "mdat_slice b"]
    by (auto simp: sample_run_def simp del: fmp4_run.simps)
qed

theorem fmp4_panic_iff_witness:
  "\<exists>f. sample_run [VideoTrack sample_avc, VideoFrame [1] 0 False] = Inr f \<and>
    (\<exists>msg g. AddVideoFrameWithLen sample_grow [2] 40 True f = (Some (Panic msg), g))"
proof -
  have "sample_fact (\<lambda>f. f_videoTrackId f \<noteq> 0 \<and> mc_accOffset (f_vCache f) \<noteq> 0 \<and> f_moofBox f = None) [VideoTrack sample_avc, VideoFrame [1] 0 False]"
    by code_simp
  then obtain f where f: "sample_run [VideoTrack sample_avc, VideoFrame [1] 0 False] = Inr f" "f_videoTrackId f \<noteq> 0"
    "mc_accOffset (f_vCache f) \<noteq> 0" "f_moofBox f = None" by (auto simp: sample_fact_def split: sum.splits)
  then show ?thesis
    using fmp4_panic_iff[OF f(1)[unfolded sample_run_def], where frame = "[2]" and ts = 40 and key = True] by simp
qed

section \<open>The media data of the fragment before\<close>

lemma closing_frame:
  assumes "AddVideoFrameWithLen grow frame ts key f = (None, f')" "f_MoofMdat f' \<noteq> f_MoofMdat f"
  shows "f_videoTrackId f \<noteq> 0 \<and> mc_accOffset (f_vCache f) \<noteq> 0 \<and> (\<exists>h. start_header f = (None, h))"
proof -
  have v: "f_videoTrackId f \<noteq> 0" "mc_accOffset (f_vCache f) \<noteq> 0" and k: key
    using assms by (auto simp: AddVideoFrameWithLen_def word_less_1 resetFrag_True Let_def split: if_splits)
  then show ?thesis
    using assms(1) by (cases "start_header f"; cases "fst (start_header f)") (auto simp: AddVideoFrameWithLen_def word_less_1 Let_def)
qed

lemma both_data_same: "same_fragment f h \<Longrightarrow> both_data h = both_data f"
  using same_fragment_caches(2)[of f h] by (simp add: both_data_def pair_order_def same_fragment_def track_cases(1,2)[symmetric] split: prod.split)

lemma written_overwrites:
  assumes "written w (xs, i, 0) (ys, b)" "length w \<le> l" "l \<le> length (xs ! i)"
  shows "take l (ys ! i) = w @ drop (length w) (take l (xs ! i))"
proof -
  obtain j k where b: "b = (j, k)" by (cases b)
  have k: "k = length w" using assms(1) unfolding b written_def split by simp
  then have "if k \<le> length (xs ! i) then j = i \<and> ys ! i = take 0 (xs ! i) @ w @ drop k (xs ! i) else length xs \<le> j"
    using assms(1) unfolding b written_def split by blast
  then have "ys ! i = w @ drop (length w) (xs ! i)" using assms(2,3) k by simp
  then show ?thesis using assms(2) by (simp add: take_drop)
qed

text \<open>C35: Closing a fragment overwrites the media data of the fragment before it, which has not been written out yet:
  when the new data are not longer, the old fragment starts with the bytes of the new one.\<close>

theorem fragment_overwritten:
  assumes "fmp4_run sps grow xs (NewFmp4 now1 now2 seg) = Inr f" "length xs < 2 ^ 26"
    and "AddVideoFrameWithLen grow frame ts True f = (None, f')" "f_MoofMdat f = ms @ [(m, d)]" "f_MoofMdat f' = ms @ [(m, d), (m', d')]"
    and "length (mdat_data f' d') \<le> length (mdat_data f d)"
  shows "mdat_data f' d = mdat_data f' d' @ drop (length (mdat_data f' d')) (mdat_data f d)"
proof -
  have ok: "fmp4_ok (length xs) f" using run_fmp4_ok[OF assms(1)] assms(2) by simp
  obtain h where v: "f_videoTrackId f \<noteq> 0" "mc_accOffset (f_vCache f) \<noteq> 0" and s: "start_header f = (None, h)"
    using closing_frame[OF assms(3)] assms(4,5) by auto
  have h: "same_fragment f h" using start_header_ok[OF ok s] by blast
  obtain i where i: "f_mdatBuf f = (i, 0)" using ok by (cases "f_mdatBuf f") (auto simp: fmp4_ok_def)
  obtain n w b where c: "fragment_closed frame (length xs) h f' n w b"
    using key_frame_closes[OF ok assms(2) v s, of grow frame ts] assms(3) by (auto split: if_splits)
  have same: "f_MoofMdat h = f_MoofMdat f" "f_arrays h = f_arrays f" "f_mdatBuf h = (i, 0)" using h i by (simp_all add: same_fragment_def)
  have w: "written w (f_arrays f, i, 0) (f_arrays f', b)" and d': "d' = mdat_slice b"
    using c same assms(4,5) by (simp_all add: fragment_closed_def)
  have new: "mdat_data f' d' = w" using slice_ok_new(2)[OF w] by (simp add: mdat_data_def d' mdat_slice_def)
  have d: "ms_array d = i" "ms_len d \<le> length (f_arrays f ! i)" using ok i assms(4) by (auto simp: fmp4_ok_def fragments_ok_def slice_ok_def)
  have "length w \<le> ms_len d" using assms(6) d by (simp add: new) (simp add: mdat_data_def)
  from written_overwrites[OF w this d(2)] show ?thesis unfolding new by (simp add: mdat_data_def d(1))
qed

lemma sample_ops_split:
  "length (take 4 sample_ops) = 4" "take 4 sample_ops @ [VideoFrame [4, 5] 40 True] = take 5 sample_ops"
  "take 5 sample_ops @ [AudioFrame [8] 40] = sample_ops" "length sample_ops = 6"
  by (simp_all add: sample_ops_def)

lemma fragment_data:
  assumes "written w (xs, i, 0) (f_arrays g, b)"
  shows "mdat_data g (mdat_slice b) = w"
  using slice_ok_new(2)[OF assms] by (simp add: mdat_data_def mdat_slice_def)

text \<open>After a fragment is closed, audio and one more key frame close the next one.\<close>

lemma next_fragment:
  assumes c: "fragment_closed frame n e f m w b" "same_fragment e0 e" and n: "Suc (Suc n) < 2 ^ 26" and h: "f_headerBox e \<noteq> []"
    and ids: "f_audioTrackId e = 2" "f_videoTrackId e = 1" and fr: "length frame = 2"
    and f6: "f6 = f\<lparr>f_aCache := addFrame [8] 40 1 (f_aCache f)\<rparr>"
  shows "\<exists>g b'. AddVideoFrameWithLen sample_grow [6] 80 True f6 = (None, g) \<and>
    fragment_closed [6] (Suc (Suc n)) f6 g (both_fragment f6) (both_data f6) b' \<and> both_data f6 = frame @ [0, 0, 0, 1, 8]"
proof -
  have k: "f_headerBox f = f_headerBox e" "f_audioTrackId f = 2" "f_videoTrackId f = 1" and ok: "fmp4_ok (Suc n) f" and m: "f_moofBox f \<noteq> None"
    and v: "mc_buf (f_vCache f) = frame" and a: "f_aCache f = cache_reset (f_fmp4BaseDataOffset f) (mc_baseDecodeTime (f_aCache f)) (f_aCache f)"
    using c(1) ids by (simp_all add: fragment_closed_def kept_def)
  have ab: "mc_trunBox (f_aCache f) = None" "mc_buf (f_aCache f) = []" by (subst a, simp add: cache_reset_def)+
  have ok6: "fmp4_ok (Suc (Suc n)) f6" unfolding f6 by (rule fmp4_ok_addFrame(2)[OF ok]) (simp add: k)
  have "mc_accOffset (f_vCache f6) = of_nat 2" using ok v fr by (simp add: f6 fmp4_ok_def cache_ok_def)
  then have acc: "mc_accOffset (f_vCache f6) \<noteq> 0" by simp
  have s: "start_header f6 = (None, f6)" using h k by (simp add: start_header_def f6)
  have k6: "f_audioTrackId f6 \<noteq> 0" "f_videoTrackId f6 \<noteq> 0" "\<not> no_fragment f6"
    using m k ab by (simp_all add: no_fragment_def f6 addFrame_def)
  then obtain g b' where "AddVideoFrameWithLen sample_grow [6] 80 True f6 = (None, g)"
    "fragment_closed [6] (Suc (Suc n)) f6 g (both_fragment f6) (both_data f6) b'"
    using key_frame_closes[OF ok6 n _ acc s, of sample_grow "[6]" 80] k6 by (auto simp del: split_paired_Ex)
  moreover have "\<not> (2 :: u32) \<le> 1" by code_simp
  moreover from this have "both_data f6 = frame @ [0, 0, 0, 1, 8]"
    using k v ab by (simp add: both_data_def pair_order_def f6 track_cases addFrame_def u32be_def)
  ultimately show ?thesis by blast
qed

lemma sample_second:
  "\<exists>f g h b b' m'. sample_run sample_ops = Inr f \<and> AddVideoFrameWithLen sample_grow [6] 80 True f = (None, g) \<and>
     f_MoofMdat f = [(both_fragment h, mdat_slice b)] \<and> f_MoofMdat g = [(both_fragment h, mdat_slice b), (m', mdat_slice b')] \<and>
     mdat_data f (mdat_slice b) = [1, 2, 3, 0, 0, 0, 2, 9, 9] \<and> mdat_data g (mdat_slice b') = [4, 5, 0, 0, 0, 1, 8]"
proof -
  have "sample_fact (\<lambda>f. closable f \<and> f_audioTrackId f = 2 \<and> f_videoTrackId f = 1 \<and> length (f_MoofMdat f) = 0 \<and> snd (f_mdatBuf f) = 0 \<and>
      both_data f = [1, 2, 3, 0, 0, 0, 2, 9, 9]) (take 4 sample_ops)" by code_simp
  then obtain e where e: "sample_run (take 4 sample_ops) = Inr e" "closable e" "f_audioTrackId e = 2" "f_videoTrackId e = 1"
    "f_MoofMdat e = []" "both_data e = [1, 2, 3, 0, 0, 0, 2, 9, 9]" "snd (f_mdatBuf e) = 0" by (auto simp: sample_fact_def split: sum.splits)
  obtain h f5 b where c: "closes (take 4 sample_ops) [4, 5] 40 e h f5 b"
    using sample_closes[OF e(1,2), of "[4, 5]" 40] by (auto simp: sample_ops_def)
  have f5: "fragment_closed [4, 5] 4 h f5 (both_fragment h) (both_data h) b" "same_fragment e h" "sample_run (take 5 sample_ops) = Inr f5"
    "start_header e = (None, h)"
    using c e(3) by (simp_all only: closes_def sample_ops_split) simp_all
  have "fmp4_ok 4 e" using run_fmp4_ok[OF e(1)[unfolded sample_run_def]] by (simp add: sample_ops_split)
  then have h: "f_headerBox h \<noteq> []" "f_mdatBuf h = (fst (f_mdatBuf h), 0)"
    using start_header_ok[OF _ f5(4)] e(7) by (auto simp: same_fragment_def prod_eq_iff)
  have ids: "f_audioTrackId h = 2" "f_videoTrackId h = 1" "f_audioTrackId f5 = 2"
    using f5(1,2) e(3,4) by (auto simp: same_fragment_def fragment_closed_def kept_def track_cases(1,2)[symmetric])
  define f6 where "f6 = f5\<lparr>f_aCache := addFrame [8] 40 1 (f_aCache f5)\<rparr>"
  have "sample_run (take 5 sample_ops @ [AudioFrame [8] 40]) = Inr f6"
    using f5(3) ids(3) by (simp add: sample_run_def fmp4_run_append fmp4_step_def AddAudioFrameWithoutLen_def f6_def)
  then have r6: "sample_run sample_ops = Inr f6" by (simp only: sample_ops_split(3))
  obtain g b' where g: "AddVideoFrameWithLen sample_grow [6] 80 True f6 = (None, g)"
    "fragment_closed [6] 6 f6 g (both_fragment f6) (both_data f6) b'" "both_data f6 = [4, 5, 0, 0, 0, 1, 8]"
    using next_fragment[OF f5(1,2) _ h(1) ids(1,2) _ f6_def] by auto
  have b: "both_data h = [1, 2, 3, 0, 0, 0, 2, 9, 9]" "f_MoofMdat h = []"
    using both_data_same[OF f5(2)] e(5,6) f5(2) by (simp_all add: same_fragment_def)
  have "written (both_data h) (f_arrays h, fst (f_mdatBuf h), 0) (f_arrays f6, b)" "f_MoofMdat f6 = [(both_fragment h, mdat_slice b)]"
    using f5(1) h(2) b(2) by (simp_all add: fragment_closed_def f6_def)
  then have d: "mdat_data f6 (mdat_slice b) = [1, 2, 3, 0, 0, 0, 2, 9, 9]" "f_MoofMdat f6 = [(both_fragment h, mdat_slice b)]"
    using fragment_data b(1) by auto
  have "fmp4_ok 6 f6" using run_fmp4_ok[OF r6[unfolded sample_run_def]] by (simp add: sample_ops_split)
  then have "f_mdatBuf f6 = (fst (f_mdatBuf f6), 0)" by (simp add: fmp4_ok_def prod_eq_iff)
  then have "written (both_data f6) (f_arrays f6, fst (f_mdatBuf f6), 0) (f_arrays g, b')" "f_MoofMdat g = [(both_fragment h, mdat_slice b), (both_fragment f6, mdat_slice b')]"
    using g(2) d(2) by (simp_all add: fragment_closed_def)
  then have "mdat_data g (mdat_slice b') = [4, 5, 0, 0, 0, 1, 8]" "f_MoofMdat g = [(both_fragment h, mdat_slice b), (both_fragment f6, mdat_slice b')]"
    using fragment_data g(3) by auto
  then show ?thesis using r6 g(1) d by blast
qed

theorem fragment_overwritten_witness:
  "\<exists>f g m d m' d'. sample_run sample_ops = Inr f \<and> AddVideoFrameWithLen sample_grow [6] 80 True f = (None, g) \<and>
     f_MoofMdat f = [(m, d)] \<and> f_MoofMdat g = [(m, d), (m', d')] \<and>
     mdat_data f d = [1, 2, 3, 0, 0, 0, 2, 9, 9] \<and> mdat_data g d' = [4, 5, 0, 0, 0, 1, 8] \<and> mdat_data g d = [4, 5, 0, 0, 0, 1, 8, 9, 9]"
proof -
  obtain f g h b b' m' where s: "sample_run sample_ops = Inr f" "AddVideoFrameWithLen sample_grow [6] 80 True f = (None, g)"
    "f_MoofMdat f = [(both_fragment h, mdat_slice b)]" "f_MoofMdat g = [(both_fragment h, mdat_slice b), (m', mdat_slice b')]"
    "mdat_data f (mdat_slice b) = [1, 2, 3, 0, 0, 0, 2, 9, 9]" "mdat_data g (mdat_slice b') = [4, 5, 0, 0, 0, 1, 8]"
    using sample_second by blast
  have "mdat_data g (mdat_slice b) = [4, 5, 0, 0, 0, 1, 8, 9, 9]"
    using fragment_overwritten[OF s(1)[unfolded sample_run_def] _ s(2), of "[]" "both_fragment h" "mdat_slice b" m' "mdat_slice b'"] s(3-)
    by (simp add: sample_ops_split)
  then show ?thesis using s by blast
qed

section \<open>Where the data of a fragment are\<close>

lemma ucast_down_of_nat: "(ucast (of_nat k :: u64) :: u32) = of_nat k"
  by transfer simp

lemma ucast_down_add: "(ucast (a + b :: u64) :: u32) = ucast a + ucast b"
proof -
  have "(ucast (of_nat (unat a + unat b) :: u64) :: u32) = ucast (of_nat (unat a) :: u64) + ucast (of_nat (unat b) :: u64)"
    unfolding ucast_down_of_nat by simp
  then show ?thesis by simp
qed

lemma fragments_bytes_append:
  "fragments_bytes f (ms @ ns) = bindE (fragments_bytes f ms) (\<lambda>v. bindE (fragments_bytes f ns) (\<lambda>w. Inr (v @ w)))"
proof (induction ms)
  case Nil
  then show ?case by (cases "fragments_bytes f ns") simp_all
next
  case (Cons m ms)
  then show ?case by (cases "fragment_bytes f m"; cases "fragments_bytes f ms"; cases "fragments_bytes f ns") simp_all
qed

lemma fragment_bytes_made:
  assumes "moof_made m" "slice_ok (f_arrays f) d" "fragment_bytes f (m, d) = Inr w" "length w < 2 ^ 32"
  obtains wm where "IBox_Serialize m = Inr wm" "length wm = unat (GetBoxSize m)"
    "w = wm @ Box_Serialize (ms_Box d) @ mdat_data f d" "length (Box_Serialize (ms_Box d)) = 8" "length (mdat_data f d) = ms_len d"
proof -
  obtain wm where wm: "IBox_Serialize m = Inr wm" "length wm = unat (GetBoxSize m)" using assms(1) by (auto simp: moof_made_def)
  have w: "w = wm @ Box_Serialize (ms_Box d) @ mdat_data f d" using assms(3) wm by (simp add: fragment_bytes_def MdatBox_Serialize_def)
  have len: "length (mdat_data f d) = ms_len d" using assms(2) by (simp add: mdat_data_def slice_ok_def)
  have "8 \<le> length (Box_Serialize (ms_Box d))" by (simp add: Box_Serialize_def)
  then have "8 + ms_len d < 2 ^ 32" using assms(4) len unfolding w by simp
  moreover have "Size (ms_Box d) = of_nat (8 + ms_len d)" using assms(2) by (simp add: slice_ok_def mdat_slice_def) (metis MdatSlice.select_convs(1) Box.select_convs(1))
  moreover have "unat (of_nat (8 + ms_len d) :: u64) = 8 + ms_len d" by (rule unat_small_64) (use calculation(1) in simp)
  ultimately have "unat (Size (ms_Box d)) \<le> 0xffffffff" by simp
  then have "Size (ms_Box d) \<le> 0xffffffff" by (rule small_size)
  then have "length (Box_Serialize (ms_Box d)) = 8" by (rule length_small)
  from that[OF wm w this len] show thesis .
qed

lemma fragments_bytes_size:
  "(\<forall>(m, d) \<in> set ms. moof_made m \<and> slice_ok (f_arrays f) d) \<Longrightarrow> fragments_bytes f ms = Inr w \<Longrightarrow> length w < 2 ^ 32 \<Longrightarrow>
    of_nat (length w) = fragments_size ms"
proof (induction ms arbitrary: w)
  case (Cons x ms)
  obtain m d where x: "x = (m, d)" by (cases x)
  obtain v u where w: "fragment_bytes f (m, d) = Inr v" "fragments_bytes f ms = Inr u" "w = v @ u"
    using Cons.prems(2) unfolding x by (auto simp: bindE_eq_Inr)
  have ok: "moof_made m" "slice_ok (f_arrays f) d" using Cons.prems(1) x by auto
  have l: "length v < 2 ^ 32" "length u < 2 ^ 32" using Cons.prems(3) w(3) by simp_all
  obtain wm where v: "length wm = unat (GetBoxSize m)" "v = wm @ Box_Serialize (ms_Box d) @ mdat_data f d" "length (Box_Serialize (ms_Box d)) = 8" "length (mdat_data f d) = ms_len d"
    using fragment_bytes_made[OF ok w(1) l(1)] by metis
  have "Size (ms_Box d) = 8 + of_nat (ms_len d)" using ok(2) by (simp add: slice_ok_def mdat_slice_def) (metis MdatSlice.select_convs(1) Box.select_convs(1))
  then have "of_nat (length v) = GetBoxSize m + Size (ms_Box d)" using v by simp
  moreover have "of_nat (length u) = fragments_size ms" using Cons.IH[OF _ w(2) l(2)] Cons.prems(1) by simp
  ultimately show ?case by (simp add: w(3) x fragments_size_def)
qed (simp add: fragments_size_def)

definition both_runs :: "track \<Rightarrow> Fmp4 \<Rightarrow> u32 list" where
  "both_runs t f = map SampleSize (BoxSamples (the (mc_trunBox (cache_of t f))))"

text \<open>The run of a track in a fragment of two tracks, and where it is said to start.\<close>

lemma both_fragment_run:
  assumes "pair_order f = (p, q)"
  shows "\<exists>c h b r. SimpleBoxContainer c [TfhdB h, TfdtB b, TrunB r] \<in> set (GetSubBoxes (both_fragment f)) \<and>
    tfhd_TrackID h = mc_trackID (cache_of t f) \<and> BaseDataOffset h = mc_baseDataOffset (cache_of t f) \<and> map SampleSize (BoxSamples r) = both_runs t f \<and>
    DataOffset r - ucast (f_curTrackOffset f) = 8 + ucast (GetBoxSize (both_fragment f)) + (if t = p then 0 else ucast (mc_accOffset (cache_of p f)))"
proof -
  have "t = p \<or> t = q" using assms by (cases t) (auto simp: pair_order_def split: if_splits)
  then have "\<exists>off. sealed_traf t (cache_of t f) off (both_runs t f) \<in> set (GetSubBoxes (both_fragment f)) \<and>
    off - ucast (f_curTrackOffset f) = 8 + ucast (GetBoxSize (both_fragment f)) + (if t = p then 0 else ucast (mc_accOffset (cache_of p f)))"
    by (cases "t = p") (auto simp: both_fragment_def assms both_moof_def Let_def both_runs_def[symmetric] GetBoxSize_def ucast_down_add)
  moreover have "tfhd_TrackID (track_tfhd t c) = mc_trackID c" "BaseDataOffset (track_tfhd t c) = mc_baseDataOffset c" for c
    by (simp_all add: track_tfhd_def fragment_tfhd_def split: track.split)
  moreover have "map SampleSize (BoxSamples (sealed_run t k ss)) = ss" "DataOffset (sealed_run t k ss) = k" for k ss
    by (simp_all add: sealed_run_def run_box_def sample_of_def comp_def)
  ultimately show ?thesis unfolding sealed_traf_def by metis
qed

lemma unat_small_32: "n < 2 ^ 32 \<Longrightarrow> unat (of_nat n :: u32) = n"
  by (simp add: unat_of_nat take_bit_nat_eq_self)

lemma data_position:
  "length mh = 8 \<Longrightarrow> out = w0 @ w1 @ wm @ mh @ x @ y @ z \<Longrightarrow>
    take (length y) (drop (length w0 + length w1 + (8 + length wm + length x)) out) = y"
  by simp

lemma both_data_split:
  assumes "pair_order f = (p, q)"
  shows "\<exists>z. both_data f = (if t = p then [] else mc_buf (cache_of p f)) @ mc_buf (cache_of t f) @ z"
  using assms by (cases t) (auto simp: both_data_def pair_order_def split: if_splits)

text \<open>C34: A key frame closes a fragment of a file with both tracks that stays below 4 GiB, while both tracks have
  the same base offset.  The base offset of each track fragment plus its data offset, less the media data
  counted before this fragment (\<open>curTrackOffset\<close>), are the place in the file where the frames of the track
  are: the offsets written differ from the place by that count.  Before the first fragment the count
  is 0, so the offsets are right there; in a later fragment they are right when the count was
  set to 0 at the end of the fragment before, and too far by the count otherwise.\<close>

theorem fragment_addressed:
  assumes run: "fmp4_run sps grow xs (NewFmp4 now1 now2 seg) = Inr f" "length xs < 2 ^ 26"
    and audio: "f_audioTrackId f \<noteq> 0" "mc_baseDataOffset (f_aCache f) = mc_baseDataOffset (f_vCache f)"
    and close: "AddVideoFrameWithLen grow frame ts True f = (None, f')" "f_MoofMdat f' \<noteq> f_MoofMdat f"
    and out: "fmp4_serialize f' = Inr out" "length out < 2 ^ 32"
  shows "(f_MoofMdat f = [] \<longrightarrow> f_curTrackOffset f = 0) \<and>
    (\<exists>m d. f_MoofMdat f' = f_MoofMdat f @ [(m, d)] \<and> (\<forall>t. \<exists>c h b r.
      SimpleBoxContainer c [TfhdB h, TfdtB b, TrunB r] \<in> set (GetSubBoxes m) \<and> tfhd_TrackID h = mc_trackID (cache_of t f) \<and>
      take (length (mc_buf (cache_of t f))) (drop (unat (BaseDataOffset h) + unat (DataOffset r - ucast (f_curTrackOffset f))) out) =
        mc_buf (cache_of t f)))"
proof -
  have ok: "fmp4_ok (length xs) f" using run_fmp4_ok[OF run(1)] run(2) by simp
  obtain h where v: "f_videoTrackId f \<noteq> 0" "mc_accOffset (f_vCache f) \<noteq> 0" and s: "start_header f = (None, h)"
    using closing_frame[OF close] by auto
  have h: "same_fragment f h" "fmp4_ok (length xs) h" "mc_baseDataOffset (f_aCache h) = mc_baseDataOffset (f_vCache h)" "f_headerBox h \<noteq> []"
    using start_header_ok[OF ok s] audio(2) by blast+
  note cache = same_fragment_caches[OF h(1)]
  have same: "f_MoofMdat h = f_MoofMdat f" "f_curTrackOffset h = f_curTrackOffset f" using h(1) by (simp_all add: same_fragment_def)
  obtain b where c: "fragment_closed frame (length xs) h f' (both_fragment h) (both_data h) b"
    using key_frame_closes[OF ok run(2) v s, of grow frame ts] close(1) audio(1) by (auto split: if_splits)
  have ok': "fmp4_ok (Suc (length xs)) f'" and m': "f_MoofMdat f' = f_MoofMdat f @ [(both_fragment h, mdat_slice b)]" and header: "f_headerBox f' = f_headerBox h"
    using c same(1) by (simp_all add: fragment_closed_def kept_def)
  obtain i where i: "f_mdatBuf h = (i, 0)" using h(2) by (cases "f_mdatBuf h") (auto simp: fmp4_ok_def)
  have data: "mdat_data f' (mdat_slice b) = both_data h" using fragment_data[of _ "f_arrays h" i f'] c i by (simp add: fragment_closed_def)
  obtain w1 w2 where w: "fragments_bytes f' (f_MoofMdat f) = Inr w1" "fragment_bytes f' (both_fragment h, mdat_slice b) = Inr w2" "out = f_headerBox h @ w1 @ w2"
    using out(1) by (auto simp: fmp4_serialize_def m' fragments_bytes_append header bindE_eq_Inr)
  have frags: "\<forall>(m, d) \<in> set (f_MoofMdat f). moof_made m \<and> slice_ok (f_arrays f') d" "moof_made (both_fragment h)" "slice_ok (f_arrays f') (mdat_slice b)"
    using ok' m' by (auto simp: fmp4_ok_def fragments_ok_def)
  have len: "length w1 < 2 ^ 32" "length w2 < 2 ^ 32" using out(2) w(3) by simp_all
  have "f_fmp4BaseDataOffset h = of_nat (length (f_headerBox h) + length w1)"
    using h(2,4) fragments_bytes_size[OF frags(1) w(1) len(1)] by (simp add: fmp4_ok_def position_ok_def same)
  then have "unat (f_fmp4BaseDataOffset h) = length (f_headerBox h) + length w1"
    using unat_small_64[of "length (f_headerBox h) + length w1"] out(2) w(3) by simp
  then have base: "unat (mc_baseDataOffset (cache_of t h)) = length (f_headerBox h) + length w1" for t
    using h(2,3) by (cases t) (simp_all add: track_cases fmp4_ok_def)
  obtain wm where wm: "length wm = unat (GetBoxSize (both_fragment h))" "w2 = wm @ Box_Serialize (ms_Box (mdat_slice b)) @ both_data h"
    "length (Box_Serialize (ms_Box (mdat_slice b))) = 8"
    using fragment_bytes_made[OF frags(2,3) w(2) len(2)] data by metis
  obtain p q where pq: "pair_order h = (p, q)" by fastforce
  have "\<exists>c k b r. SimpleBoxContainer c [TfhdB k, TfdtB b, TrunB r] \<in> set (GetSubBoxes (both_fragment h)) \<and> tfhd_TrackID k = mc_trackID (cache_of t f) \<and>
      take (length (mc_buf (cache_of t f))) (drop (unat (BaseDataOffset k) + unat (DataOffset r - ucast (f_curTrackOffset f))) out) =
        mc_buf (cache_of t f)" for t
  proof -
    define x where "x = (if t = p then [] else mc_buf (cache_of p h))"
    obtain z where z: "both_data h = x @ mc_buf (cache_of t h) @ z" using both_data_split[OF pq] x_def by metis
    have "mc_accOffset (cache_of p h) = of_nat (length (mc_buf (cache_of p h)))" using h(2) by (cases p) (simp_all add: track_cases fmp4_ok_def cache_ok_def)
    moreover have "(ucast (GetBoxSize (both_fragment h)) :: u32) = of_nat (length wm)" using ucast_down_of_nat[of "unat (GetBoxSize (both_fragment h))"] by (simp add: wm(1))
    ultimately have off: "8 + ucast (GetBoxSize (both_fragment h)) + (if t = p then 0 else ucast (mc_accOffset (cache_of p h))) = (of_nat (8 + length wm + length x) :: u32)"
      by (simp add: x_def ucast_down_of_nat)
    have "8 + length wm + length x < 2 ^ 32" using out(2) unfolding w(3) wm(2) z by (simp add: wm(3))
    then have "unat (of_nat (8 + length wm + length x) :: u32) = 8 + length wm + length x" by (rule unat_small_32)
    moreover have "take (length (mc_buf (cache_of t h))) (drop (length (f_headerBox h) + length w1 + (8 + length wm + length x)) out) = mc_buf (cache_of t h)"
      by (rule data_position[OF wm(3)]) (simp add: w(3) wm(2) z)
    ultimately show ?thesis using both_fragment_run[OF pq, of t] base[of t] cache(2,4)[of t] same(2) unfolding off by metis
  qed
  then show ?thesis using m' ok by (auto simp: fmp4_ok_def fragments_ok_def)
qed

lemma fragment_bytes_exist:
  assumes "moof_made m" "slice_ok (f_arrays f) d"
  shows "\<exists>w. fragment_bytes f (m, d) = Inr w \<and> length w \<le> unat (GetBoxSize m) + 16 + ms_len d"
proof -
  obtain wm where "IBox_Serialize m = Inr wm" "length wm = unat (GetBoxSize m)" using assms(1) by (auto simp: moof_made_def)
  moreover have "length (Box_Serialize b) \<le> 16" for b by (simp add: Box_Serialize_def)
  moreover have "length (mdat_data f d) = ms_len d" using assms(2) by (simp add: mdat_data_def slice_ok_def)
  ultimately show ?thesis by (simp add: fragment_bytes_def MdatBox_Serialize_def)
qed

lemma sample_header:
  "sample_fact (\<lambda>f. closable f \<and> f_audioTrackId f \<noteq> 0 \<and> length (f_MoofMdat f) = 0 \<and> length (both_data f) = 9 \<and>
     mc_baseDataOffset (f_aCache f) = mc_baseDataOffset (f_vCache f) \<and> snd (f_mdatBuf f) = 0 \<and>
     (let h = snd (start_header f) in length (f_headerBox h) < 2000 \<and> GetBoxSize (both_fragment h) < 1000)) (take 4 sample_ops)"
  by code_simp

theorem fragment_addressed_witness:
  "\<exists>f f' out. sample_run (take 4 sample_ops) = Inr f \<and> AddVideoFrameWithLen sample_grow [4, 5] 40 True f = (None, f') \<and> fmp4_serialize f' = Inr out \<and>
    f_curTrackOffset f = 0 \<and> (\<exists>m d. f_MoofMdat f' = f_MoofMdat f @ [(m, d)] \<and> (\<forall>t. \<exists>c h b r.
      SimpleBoxContainer c [TfhdB h, TfdtB b, TrunB r] \<in> set (GetSubBoxes m) \<and> tfhd_TrackID h = mc_trackID (cache_of t f) \<and>
      take (length (mc_buf (cache_of t f))) (drop (unat (BaseDataOffset h) + unat (DataOffset r - ucast (f_curTrackOffset f))) out) =
        mc_buf (cache_of t f)))"
proof -
  obtain f where f: "sample_run (take 4 sample_ops) = Inr f" "closable f" "f_audioTrackId f \<noteq> 0" "f_MoofMdat f = []" "length (both_data f) = 9"
    "mc_baseDataOffset (f_aCache f) = mc_baseDataOffset (f_vCache f)" "snd (f_mdatBuf f) = 0"
    "length (f_headerBox (snd (start_header f))) < 2000" "GetBoxSize (both_fragment (snd (start_header f))) < 1000"
    using sample_header by (auto simp: sample_fact_def Let_def split: sum.splits)
  obtain h f' b where c: "closes (take 4 sample_ops) [4, 5] 40 f h f' b" using sample_closes[OF f(1,2), of "[4, 5]" 40] by (auto simp: sample_ops_def)
  then have c': "fragment_closed [4, 5] 4 h f' (both_fragment h) (both_data h) b" "same_fragment f h" "start_header f = (None, h)"
    "AddVideoFrameWithLen sample_grow [4, 5] 40 True f = (None, f')"
    using f(3) by (simp_all only: closes_def sample_ops_split) simp_all
  have m: "f_MoofMdat f' = [(both_fragment h, mdat_slice b)]" "f_headerBox f' = f_headerBox h" "f_MoofMdat f' \<noteq> f_MoofMdat f"
    using c'(1,2) f(4) by (auto simp: fragment_closed_def same_fragment_def kept_def)
  have made: "moof_made (both_fragment h)" "slice_ok (f_arrays f') (mdat_slice b)"
    using c'(1) m(1) by (auto simp: fragment_closed_def fmp4_ok_def fragments_ok_def)
  have w: "written (both_data h) (f_arrays h, fst (f_mdatBuf h), 0) (f_arrays f', b)" using c'(1,2) f(7) by (simp add: fragment_closed_def same_fragment_def) (metis prod.collapse)
  then have l: "ms_len (mdat_slice b) = 9" using slice_ok_new(3)[OF w] both_data_same[OF c'(2)] f(5) by (simp add: mdat_slice_def)
  obtain v where v: "fragment_bytes f' (both_fragment h, mdat_slice b) = Inr v" "length v \<le> unat (GetBoxSize (both_fragment h)) + 16 + 9"
    using fragment_bytes_exist[OF made] l by auto
  have "unat (GetBoxSize (both_fragment h)) < 1000" using f(9) c'(3) by (simp add: word_less_nat_alt)
  then have out: "fmp4_serialize f' = Inr (f_headerBox h @ v)" "length (f_headerBox h @ v) < 2 ^ 32"
    using v f(8) c'(3) by (simp_all add: fmp4_serialize_def m)
  show ?thesis
    using fragment_addressed[OF f(1)[unfolded sample_run_def] _ f(3,6) c'(4) m(3) out] f(1,4) c'(4) out(1) by (auto simp: sample_ops_split)
qed

end
