(* ===== verification/Spec2Isabelle.thy ===== *)
theory Spec2Isabelle
  imports Transport BitReader Handler_Safety FlvLive Mp4_Fmp4_File
begin

text \<open>
  golive is a live streaming server and client in Go: publishers and players speak RTMP, an exchange
  connects the source of a stream with its sinks.  The model follows the packages bottom up.

  Values and errors.  A fallible function returns \<open>go_error + 'a\<close> (\<open>Golive_Prelude\<close>): \<open>Errorf\<close>,
  \<open>EOF\<close>, \<open>ErrUnexpectedEOF\<close> are the errors the code returns, \<open>Panic\<close> and \<open>Hang\<close> end or block
  the process and no error check sees them.  An \<open>io.Reader\<close> is the list of bytes still to come and a
  reader returns what it leaves; a writer into a \<open>bytes.Buffer\<close> returns the bytes it appends.  Machine
  integers are words of their width, floats are their bit patterns.

  \<^item> \<open>ByteIO\<close> (utils/byteio): big and little endian decoders, encoders, readers and writers; they equal
    the base 256 value of their bytes and read back what is written.
  \<^item> \<open>BitReader\<close> (utils/bitreader): the buffered bit reader; it refines the list of bits of its input.
  \<^item> \<open>Amf_Value\<close>, \<open>Amf0\<close>, \<open>Amf3\<close> (utils/amf): the Go values that are encoded, both formats, the
    argument lists of commands; round trips up to the normal form a reader returns, and both readers
    return on every input.  The recursion of the readers has fuel; \<open>2 * length r + 2\<close> (AMF0) and
    \<open>length r + 1\<close> (AMF3) are proved to be enough, because every nested value consumes input.
  \<^item> \<open>Chunk\<close>, \<open>Message\<close>, \<open>Pack\<close> (protocol/rtmp/chunk.go, message.go, pack.go): chunk headers, cutting a
    message into chunks (fuel: the length of the payload, enough unless the chunk size is 0, when the loop
    never ends and the outcome is \<open>Hang\<close>), collecting it again, the two chunk stream tables.
    \<open>Transport\<close> relates the packer of one end and the unpacker of the other (\<open>in_step\<close>) and proves the
    transport of messages in the locale \<open>message_transport\<close>, interpreted on the functions of the code.
  \<^item> \<open>CommandMessage\<close>, \<open>Request\<close>, \<open>Response\<close> (message.go, request.go, response.go): the message
    constructors, what a client sends and how it reads the replies.
  \<^item> \<open>Conn\<close>, \<open>Sha256\<close>, \<open>Handshake\<close> (handshake.go): functions with effects on a connection as state
    passing over the world (input, output, write error, random bytes), SHA-256 and HMAC, both
    handshakes of both ends.
  \<^item> \<open>Exchange\<close>, \<open>Exchange_Run\<close> (exchange/expair.go): sources, sinks and the pool as stores addressed by
    number, channels as lists with their capacities; one operation per command of the pairing goroutine,
    of a source's and of a sink's.  A handler may change its key at any time (\<open>rekey\<close>, a step of its own), as
    serverHandler.go does with a later publish or play command; it then acts on the pool under the new
    key, while lists of sinks go by the name a sink was given when it joined.  The reachable states of their
    interleavings, the invariant \<open>exchange_ok\<close> (each player waits or is connected in one place), delivery of
    frames, and exactly when the pairing goroutine panics.
  \<^item> \<open>Server\<close> (serverHandler.go): the handler of a connection of the server as methods on its record,
    running against the operations of an \<open>exchange.Pad\<close>; the locale \<open>pad\<close> is the contract of that
    interface: which registrations are accepted, and that a player accepted has joined (\<open>joined\<close>).  \<open>Client\<close> (clientHandler.go): the handler of a client.
  \<^item> \<open>Dialogue\<close>, \<open>Session\<close>: what each handler does with each message of a session, as effects on its
    fields and on the messages it says; client and server reading each other's output in turn
    (\<open>dialogue\<close>), and where a publish and a play session come to rest, proved in the locale \<open>pad\<close>.
  \<^item> \<open>Pool\<close>: the exchange keeps the contract of \<open>pad\<close> (an interpretation), hence sessions on it complete.
    \<open>Relay\<close>: a frame from the publisher's handler through the exchange to the player's connection,
    the source a changed role leaves behind, and what a second publish command that fails does to the key
    it names.
  \<^item> \<open>FlvLive\<close> (container/flv, protocol/flvlive): FLV tags over a connection, the key of a stream, the
    handler on the same pad; publishing over it, and what its end does to the exchange
    when it has registered no source (no script tag, or a player).
  \<^item> \<open>Handler_Safety\<close>: the invariant of a server handler for every input and every pad, and exactly
    which messages crash the process.
  \<^item> \<open>Mp4_Box\<close>, \<open>Mp4_Fragment\<close>, \<open>Mp4_Movie\<close> (container/mp4: box.go, moofBox.go, ftypBox.go, mdatBox.go,
    sidxBox.go, mfraBox.go, moovBox.go): box headers and every box without children.  A parser takes the
    header that was read and the input and returns the box, the count of bytes it reports and the rest;
    the locale \<open>box_codec\<close> (a serialiser, a parser, the boxes it is meant for) is interpreted on each box.
    \<open>Mp4_Config\<close> (decoderConfig.go) and \<open>Mp4_Tag\<close> (tag.go): codec configurations and descriptors.
    \<open>Mp4_Loop\<close>: the loops over a remaining size, with the facts that they end and what they read.
    \<open>Mp4_Tree\<close> (commonContainer.go, metaBox.go, box.go): trees of boxes, the table of parsers, the round
    trip of whole trees and which inputs are read for ever.  The fuel of the loops and of the nesting is a
    number above the length of the input: a box takes at least eight bytes and a descriptor five, so it is
    enough everywhere but in an empty box of sample descriptions, where the outcome is \<open>Hang\<close>.
  \<^item> \<open>Mp4_Fmp4\<close>, \<open>Mp4_Fmp4_File\<close> (fmp4.go): the muxer as a record with an operation per method.  A pointer into
    the tree of boxes is the field of the muxer that owns the box, and the arrays that a buffer and the media
    data of fragments share are addressed by number.  Parameters: \<open>sps\<close>, the picture size of a sequence
    parameter set (package av, not in the repository), and \<open>grow\<close>, the capacity that appending to a slice
    gives.  \<open>fmp4_run\<close> is any sequence of calls; the bound of \<open>2 ^ 26\<close> calls keeps sample counts and box
    sizes below \<open>2 ^ 32\<close>.  Shown: the invariant \<open>fmp4_ok\<close>, that fragments are written and read back, which
    calls panic, where the offsets of a fragment point and which bytes of earlier fragments survive.

  Not modelled: logging; readers that deliver fewer bytes than are there; the packer and the unpacker
  after a call that failed (every caller gives up then); slices of \<open>2 ^ 31\<close> bytes and more that a machine
  may not have the memory for (\<open>make\<close> above the limit of the allocator, \<open>2 ^ 48\<close>, panics in the model); the order in
  which Go iterates a map (association lists, sorted where the code sorts); blocking of a full channel
  where the code sends without a default; the cancellation of a context while a client waits;
  concurrent use of one packer.  The applications (sockets,
  flags, files) are input and output only.  An mp4 serialiser that fails returns the error and
  not the bytes it had written; PrintBox (JSON output) and the unused IlstBox are left out, as is
  exchange/datacache.go, which nothing uses.
\<close>

end
